(* ===== verification/Prelude.thy ===== *)
theory Prelude
  imports Main "HOL-Library.Word" "HOL-Library.Sublist"
begin

text \<open>
  Shared vocabulary of the development: machine types, Rust strings as lists of UTF-8 bytes,
  the string operations of the Rust standard library the sources use, results as sums,
  and the generic list lemmas the components share.
\<close>

section \<open>Types\<close>

text \<open>
  A Rust \<open>String\<close> is a \<^typ>\<open>string\<close> that holds its UTF-8 bytes, one per character, so that
  \<open>len()\<close> is \<^const>\<open>length\<close>.  \<open>i64\<close> and \<open>Uuid\<close> are words of their width.  Time stamps are
  microseconds since the epoch (the resolution of Postgres).
\<close>

type_synonym byte = "8 word"
type_synonym i64 = "64 word"
type_synonym u32 = "32 word"
type_synonym u64 = "64 word"
type_synonym uuid = "128 word"
type_synonym timestamp = int

named_theorems res_iff \<open>characterisations of successful results\<close>
named_theorems rust_simps \<open>facts on the modelled standard library\<close>

abbreviation uuid_nil :: uuid where
  "uuid_nil \<equiv> 0"

section \<open>Results\<close>

text \<open>\<open>Result<T, E>\<close> is \<open>'e + 'a\<close>; \<open>bind_res\<close> is the \<open>?\<close> operator.\<close>

definition bind_res :: "'e + 'a \<Rightarrow> ('a \<Rightarrow> 'e + 'b) \<Rightarrow> 'e + 'b" where
  "bind_res m f = (case m of Inl e \<Rightarrow> Inl e | Inr x \<Rightarrow> f x)"

definition map_err :: "('e \<Rightarrow> 'f) \<Rightarrow> 'e + 'a \<Rightarrow> 'f + 'a" where
  "map_err g m = (case m of Inl e \<Rightarrow> Inl (g e) | Inr x \<Rightarrow> Inr x)"

definition ok_or :: "'e \<Rightarrow> 'a option \<Rightarrow> 'e + 'a" where
  "ok_or e m = (case m of None \<Rightarrow> Inl e | Some x \<Rightarrow> Inr x)"

lemma bind_res_simps [simp]:
  "bind_res (Inl e) f = Inl e"
  "bind_res (Inr x) f = f x"
  by (simp_all add: bind_res_def)

lemma map_err_simps [simp]:
  "map_err g (Inl e) = Inl (g e)"
  "map_err g (Inr x) = Inr x"
  by (simp_all add: map_err_def)

lemma ok_or_simps [simp]:
  "ok_or e None = Inl e"
  "ok_or e (Some x) = Inr x"
  by (simp_all add: ok_or_def)

lemma bind_res_Inr [res_iff]: "bind_res m f = Inr y \<longleftrightarrow> (\<exists>x. m = Inr x \<and> f x = Inr y)"
  by (cases m) simp_all

lemma bind_res_Inl: "bind_res m f = Inl e \<longleftrightarrow> m = Inl e \<or> (\<exists>x. m = Inr x \<and> f x = Inl e)"
  by (cases m) auto

lemma map_err_Inr [res_iff]: "map_err g m = Inr y \<longleftrightarrow> m = Inr y"
  by (cases m) simp_all

lemma map_err_Inl: "map_err g m = Inl e \<longleftrightarrow> (\<exists>d. m = Inl d \<and> e = g d)"
  by (cases m) auto

lemma ok_or_Inr [res_iff]: "ok_or e m = Inr y \<longleftrightarrow> m = Some y"
  by (cases m) simp_all

lemma ok_or_Inl: "ok_or e m = Inl d \<longleftrightarrow> m = None \<and> d = e"
  by (cases m) auto

section \<open>Bytes\<close>

text \<open>\<open>str::as_bytes\<close>.\<close>

definition str_bytes :: "string \<Rightarrow> byte list" where
  "str_bytes s = map of_char s"

lemma of_char_byte_inj: "of_char c = (of_char d :: byte) \<Longrightarrow> c = d"
proof -
  assume "of_char c = (of_char d :: byte)"
  then have "unat (of_char c :: byte) = unat (of_char d :: byte)" by simp
  moreover have "unat (of_char x :: byte) = (of_char x :: nat)" for x
  proof -
    have "unat (of_nat (of_char x) :: byte) = (of_char x :: nat) mod 256"
      by (simp only: unat_of_nat) simp
    then show ?thesis by (simp only: of_nat_of_char of_char_mod_256)
  qed
  ultimately have "(of_char c :: nat) = of_char d" by simp
  then show "c = d" by simp
qed

lemma length_str_bytes [simp]: "length (str_bytes s) = length s"
  by (simp add: str_bytes_def)

lemma str_bytes_append [simp]: "str_bytes (s @ t) = str_bytes s @ str_bytes t"
  by (simp add: str_bytes_def)

lemma str_bytes_inj [simp]: "str_bytes s = str_bytes t \<longleftrightarrow> s = t"
proof -
  have "inj (of_char :: char \<Rightarrow> byte)"
    by (rule injI) (rule of_char_byte_inj)
  then show ?thesis
    by (simp add: str_bytes_def inj_map_eq_map)
qed

text \<open>\<open>i64::to_be_bytes\<close>: the eight bytes of the two's complement value, most significant first.\<close>

definition to_be_bytes :: "i64 \<Rightarrow> byte list" where
  "to_be_bytes w = map (\<lambda>i. ucast (drop_bit (8 * (7 - i)) w)) [0..<8]"

lemma length_to_be_bytes [simp]: "length (to_be_bytes w) = 8"
  by (simp add: to_be_bytes_def)

lemma to_be_bytes_bit:
  "k < 8 \<Longrightarrow> j < 8 \<Longrightarrow> bit (to_be_bytes w ! k) j = bit w (8 * (7 - k) + j)"
  by (simp add: to_be_bytes_def bit_simps)

lemma to_be_bytes_inj [simp]: "to_be_bytes v = to_be_bytes w \<longleftrightarrow> v = w"
proof
  assume eq: "to_be_bytes v = to_be_bytes w"
  show "v = w"
  proof (rule bit_word_eqI)
    fix n :: nat
    assume n: "n < LENGTH(64)"
    define k where "k = 7 - n div 8"
    have "n div 8 < 8" using n by simp
    then have k: "k < 8" "8 * (7 - k) + n mod 8 = n"
      by (simp_all add: k_def)
    have "bit v n = bit (to_be_bytes v ! k) (n mod 8)"
      using k by (subst to_be_bytes_bit) auto
    also have "\<dots> = bit w n"
      using k by (subst eq, subst to_be_bytes_bit) auto
    finally show "bit v n = bit w n" .
  qed
qed simp

section \<open>Rust string functions\<close>

text \<open>The UTF-8 encodings of the characters with the Unicode property White_Space.\<close>

definition ws_encodings :: "string list" where
  "ws_encodings =
     map (\<lambda>n. [char_of (n :: nat)]) [9, 10, 11, 12, 13, 32]
     @ [map char_of [0xC2 :: nat, 0x85], map char_of [0xC2 :: nat, 0xA0],
        map char_of [0xE1 :: nat, 0x9A, 0x80]]
     @ map (\<lambda>n. map char_of [0xE2 :: nat, 0x80, n])
         [0x80, 0x81, 0x82, 0x83, 0x84, 0x85, 0x86, 0x87, 0x88, 0x89, 0x8A, 0xA8, 0xA9, 0xAF]
     @ [map char_of [0xE2 :: nat, 0x81, 0x9F], map char_of [0xE3 :: nat, 0x80, 0x80]]"

lemma ws_encodings_nonempty: "w \<in> set ws_encodings \<Longrightarrow> w \<noteq> []"
  by (auto simp: ws_encodings_def)

definition strip_enc :: "string list \<Rightarrow> string \<Rightarrow> string option" where
  "strip_enc ws s = (case find (\<lambda>w. prefix w s) ws of
     None \<Rightarrow> None | Some w \<Rightarrow> Some (drop (length w) s))"

text \<open>Strip encodings from the front for as long as one is a prefix.\<close>

fun strip_many :: "nat \<Rightarrow> string list \<Rightarrow> string \<Rightarrow> string" where
  "strip_many 0 ws s = s"
| "strip_many (Suc n) ws s = (case strip_enc ws s of None \<Rightarrow> s | Some t \<Rightarrow> strip_many n ws t)"

definition trim_start :: "string \<Rightarrow> string" where
  "trim_start s = strip_many (length s) ws_encodings s"

definition trim_end :: "string \<Rightarrow> string" where
  "trim_end s = rev (strip_many (length s) (map rev ws_encodings) (rev s))"

definition trim :: "string \<Rightarrow> string" where
  "trim s = trim_end (trim_start s)"

text \<open>\<open>to_ascii_lowercase\<close>, \<open>is_ascii_hexdigit\<close>, \<open>is_ascii_digit\<close> on bytes.\<close>

definition ascii_lower :: "char \<Rightarrow> char" where
  "ascii_lower c = (let n = (of_char c :: nat) in if 65 \<le> n \<and> n \<le> 90 then char_of (n + 32) else c)"

definition to_ascii_lowercase :: "string \<Rightarrow> string" where
  "to_ascii_lowercase s = map ascii_lower s"

definition is_ascii_digit :: "char \<Rightarrow> bool" where
  "is_ascii_digit c = (let n = (of_char c :: nat) in 48 \<le> n \<and> n \<le> 57)"

definition is_lower_hex :: "char \<Rightarrow> bool" where
  "is_lower_hex c = (let n = (of_char c :: nat) in (48 \<le> n \<and> n \<le> 57) \<or> (97 \<le> n \<and> n \<le> 102))"

definition is_ascii_hexdigit :: "char \<Rightarrow> bool" where
  "is_ascii_hexdigit c = (let n = (of_char c :: nat) in
     (48 \<le> n \<and> n \<le> 57) \<or> (97 \<le> n \<and> n \<le> 102) \<or> (65 \<le> n \<and> n \<le> 70))"

lemma length_to_ascii_lowercase [simp]: "length (to_ascii_lowercase s) = length s"
  by (simp add: to_ascii_lowercase_def)

lemma ascii_lower_hex: "is_ascii_hexdigit c \<Longrightarrow> is_lower_hex (ascii_lower c)"
  by (auto simp: is_ascii_hexdigit_def is_lower_hex_def ascii_lower_def Let_def take_bit_nat_def)

lemma ascii_lower_hex_id: "is_lower_hex c \<Longrightarrow> ascii_lower c = c"
  by (auto simp: is_lower_hex_def ascii_lower_def Let_def)

lemma to_ascii_lowercase_id: "list_all is_lower_hex s \<Longrightarrow> to_ascii_lowercase s = s"
  by (induction s) (simp_all add: to_ascii_lowercase_def ascii_lower_hex_id)

text \<open>Trimming leaves a text without spaces or characters outside ASCII alone, a hex text for example.\<close>

definition is_graph :: "char \<Rightarrow> bool" where
  "is_graph c = (let n = (of_char c :: nat) in 32 < n \<and> n < 127)"

lemma ws_not_graph: "w \<in> set ws_encodings \<Longrightarrow> \<not> is_graph (hd w) \<and> \<not> is_graph (last w)"
  by (simp add: ws_encodings_def is_graph_def) auto

lemma is_lower_hex_graph: "is_lower_hex c \<Longrightarrow> is_graph c"
  by (auto simp: is_lower_hex_def is_graph_def Let_def)

lemma find_prefix_None:
  "(\<And>w. w \<in> set ws \<Longrightarrow> w \<noteq> [] \<and> \<not> P (hd w)) \<Longrightarrow> list_all P s \<Longrightarrow> find (\<lambda>w. prefix w s) ws = None"
  by (fastforce simp: find_None_iff prefix_def hd_append neq_Nil_conv)

lemma trim_graph:
  assumes "list_all is_graph s"
  shows "trim s = s"
proof -
  have "find (\<lambda>w. prefix w s) ws_encodings = None"
    by (rule find_prefix_None [of _ is_graph]) (use assms ws_not_graph ws_encodings_nonempty in auto)
  then have start: "trim_start s = s"
    by (cases "length s") (simp_all add: trim_start_def strip_enc_def)
  have "find (\<lambda>w. prefix w (rev s)) (map rev ws_encodings) = None"
    by (rule find_prefix_None [of _ is_graph])
      (use assms ws_not_graph ws_encodings_nonempty in \<open>auto simp: hd_rev list_all_iff\<close>)
  then have "trim_end s = s"
    by (cases "length s") (simp_all add: trim_end_def strip_enc_def)
  with start show ?thesis by (simp add: trim_def)
qed

lemma trim_hex: "list_all is_lower_hex s \<Longrightarrow> trim s = s"
  using is_lower_hex_graph by (intro trim_graph) (auto simp: list_all_iff)

text \<open>\<open>str::split\<close> at a character, \<open>split_once\<close>, \<open>strip_prefix\<close>, \<open>strip_suffix\<close> and \<open>contains\<close>.\<close>

fun split_char :: "char \<Rightarrow> string \<Rightarrow> string list" where
  "split_char c [] = [[]]"
| "split_char c (a # s) = (if a = c then [] # split_char c s
     else case split_char c s of [] \<Rightarrow> [[a]] | p # ps \<Rightarrow> (a # p) # ps)"

definition split_once :: "char \<Rightarrow> string \<Rightarrow> (string \<times> string) option" where
  "split_once c s = (if c \<in> set s
     then Some (takeWhile (\<lambda>a. a \<noteq> c) s, tl (dropWhile (\<lambda>a. a \<noteq> c) s)) else None)"

definition strip_prefix :: "string \<Rightarrow> string \<Rightarrow> string option" where
  "strip_prefix p s = (if prefix p s then Some (drop (length p) s) else None)"

definition strip_suffix :: "string \<Rightarrow> string \<Rightarrow> string option" where
  "strip_suffix p s = (if suffix p s then Some (take (length s - length p) s) else None)"

definition contains :: "string \<Rightarrow> string \<Rightarrow> bool" where
  "contains p s = list_ex (prefix p) (suffixes s)"

text \<open>Splitting a text that was joined with one separator gives the two parts back.\<close>

lemma split_char_no: "c \<notin> set s \<Longrightarrow> split_char c s = [s]"
  by (induction s) auto

lemma split_char_append: "c \<notin> set s \<Longrightarrow> split_char c (s @ c # t) = s # split_char c t"
  by (induction s) auto

lemma split_once_append [simp]: "c \<notin> set s \<Longrightarrow> split_once c (s @ c # t) = Some (s, t)"
  by (induction s) (auto simp: split_once_def)

lemma split_once_Some: "split_once c s = Some (a, b) \<longleftrightarrow> c \<notin> set a \<and> s = a @ c # b"
proof
  assume "split_once c s = Some (a, b)"
  then have c: "c \<in> set s" and ab: "a = takeWhile (\<lambda>x. x \<noteq> c) s" "b = tl (dropWhile (\<lambda>x. x \<noteq> c) s)"
    by (auto simp: split_once_def split: if_splits)
  have "dropWhile (\<lambda>x. x \<noteq> c) s \<noteq> []" using c by simp
  moreover have "hd (dropWhile (\<lambda>x. x \<noteq> c) s) = c" using hd_dropWhile [of "\<lambda>x. x \<noteq> c" s] c by auto
  ultimately have "dropWhile (\<lambda>x. x \<noteq> c) s = c # b" using ab(2) by (metis list.collapse)
  then have "s = a @ c # b" using takeWhile_dropWhile_id [of "\<lambda>x. x \<noteq> c" s] ab(1) by simp
  moreover have "c \<notin> set a" using ab(1) by (auto dest: set_takeWhileD)
  ultimately show "c \<notin> set a \<and> s = a @ c # b" by blast
qed auto

lemma strip_prefix_append [simp]: "strip_prefix p (p @ s) = Some s"
  by (simp add: strip_prefix_def)

lemma strip_prefix_Some: "strip_prefix p s = Some t \<longleftrightarrow> s = p @ t"
  by (auto simp: strip_prefix_def prefix_def)

text \<open>\<open>std::str::from_utf8\<close>: the well-formed byte sequences of the Unicode standard (table 3-7).\<close>

definition utf8_cont :: "byte \<Rightarrow> bool" where
  "utf8_cont b \<longleftrightarrow> 0x80 \<le> b \<and> b \<le> 0xBF"

fun is_utf8 :: "byte list \<Rightarrow> bool" where
  "is_utf8 [] = True"
| "is_utf8 (a # s) =
     (if a \<le> 0x7F then is_utf8 s
      else case s of [] \<Rightarrow> False | b # s2 \<Rightarrow>
        if 0xC2 \<le> a \<and> a \<le> 0xDF then utf8_cont b \<and> is_utf8 s2
        else case s2 of [] \<Rightarrow> False | c # s3 \<Rightarrow>
          if 0xE0 \<le> a \<and> a \<le> 0xEF then
            (if a = 0xE0 then 0xA0 \<le> b \<and> b \<le> 0xBF else if a = 0xED then 0x80 \<le> b \<and> b \<le> 0x9F else utf8_cont b)
            \<and> utf8_cont c \<and> is_utf8 s3
          else case s3 of [] \<Rightarrow> False | e # s4 \<Rightarrow>
            0xF0 \<le> a \<and> a \<le> 0xF4 \<and>
            (if a = 0xF0 then 0x90 \<le> b \<and> b \<le> 0xBF else if a = 0xF4 then 0x80 \<le> b \<and> b \<le> 0x8F else utf8_cont b)
            \<and> utf8_cont c \<and> utf8_cont e \<and> is_utf8 s4)"

end
