(* ===== verification/External.thy ===== *)
theory External
  imports Prelude
begin

text \<open>
  The third-party code the sources call, as one record of parameters: the crates \<open>sha2\<close>, \<open>hex\<close>,
  \<open>uuid\<close>, \<open>ed25519-dalek\<close> and \<open>base64\<close>, and the two calendar functions of Postgres that the SQL
  text uses.  Every definition that uses one of them takes the record as its first argument.
  The predicates \<open>sha_ok\<close>, \<open>hex_ok\<close>, \<open>uuid_ok\<close>, \<open>ed_ok\<close> state what their documentation
  promises; \<open>demo_ext\<close> is a concrete record that has all of it, used by the witnesses.
\<close>

record ext =
  x_sha256 :: "byte list \<Rightarrow> byte list"
  x_hex_encode :: "byte list \<Rightarrow> string"
  x_hex_decode :: "string \<Rightarrow> byte list option"
  x_uuid_bytes :: "uuid \<Rightarrow> byte list"
  x_uuid_str :: "uuid \<Rightarrow> string"
  x_uuid_parse :: "string \<Rightarrow> uuid option"
  x_ed_valid :: "byte list \<Rightarrow> bool"
  x_ed_public :: "byte list \<Rightarrow> byte list"
  x_ed_sign :: "byte list \<Rightarrow> byte list \<Rightarrow> byte list"
  x_ed_verify :: "byte list \<Rightarrow> byte list \<Rightarrow> byte list \<Rightarrow> bool"
  x_b64_encode :: "byte list \<Rightarrow> string"
  x_b64_decode :: "string \<Rightarrow> byte list option"
  x_b58_encode :: "byte list \<Rightarrow> string"
  x_b58_decode :: "string \<Rightarrow> byte list option"
  x_month_start :: "timestamp \<Rightarrow> timestamp"
  x_plus_month :: "timestamp \<Rightarrow> timestamp"
  x_rfc3339 :: "timestamp \<Rightarrow> string"

text \<open>
  \<open>format!("{:x}", hasher.finalize())\<close> and \<open>hex::encode(hasher.finalize())\<close> both print the
  digest in lowercase hex.
\<close>

definition sha_hex :: "ext \<Rightarrow> byte list \<Rightarrow> string" where
  "sha_hex x m = x_hex_encode x (x_sha256 x m)"

section \<open>HTTP answers\<close>

text \<open>An answer of the HTTP client, the crate \<open>reqwest\<close>: an error of the request, an error while the body is read, or the
  status and the body.\<close>

datatype http_reply = RequestTimeout | RequestFailed string | BodyFailed nat string | HttpReply nat string

definition is_success :: "nat \<Rightarrow> bool" where
  "is_success status \<longleftrightarrow> 200 \<le> status \<and> status < 300"

section \<open>Documented behaviour\<close>

definition sha_ok :: "ext \<Rightarrow> bool" where
  "sha_ok x \<longleftrightarrow> (\<forall>m. length (x_sha256 x m) = 32)"

definition hex_ok :: "ext \<Rightarrow> bool" where
  "hex_ok x \<longleftrightarrow>
     (\<forall>b. x_hex_decode x (x_hex_encode x b) = Some b) \<and>
     (\<forall>b. length (x_hex_encode x b) = 2 * length b) \<and>
     (\<forall>b. list_all is_lower_hex (x_hex_encode x b))"

definition uuid_ok :: "ext \<Rightarrow> bool" where
  "uuid_ok x \<longleftrightarrow>
     (\<forall>u. length (x_uuid_bytes x u) = 16) \<and> inj (x_uuid_bytes x) \<and>
     (\<forall>u. x_uuid_parse x (x_uuid_str x u) = Some u) \<and>
     (\<forall>u. length (x_uuid_str x u) = 36) \<and>
     (\<forall>u. CHR '':'' \<notin> set (x_uuid_str x u) \<and> CHR ''/'' \<notin> set (x_uuid_str x u))"

text \<open>The alphabet of Base58, as the crate \<open>bs58\<close> uses it by default.\<close>

definition base58_alphabet :: string where
  "base58_alphabet = ''123456789ABCDEFGHJKLMNPQRSTUVWXYZabcdefghijkmnopqrstuvwxyz''"

definition b58_ok :: "ext \<Rightarrow> bool" where
  "b58_ok x \<longleftrightarrow>
     (\<forall>b. x_b58_decode x (x_b58_encode x b) = Some b) \<and>
     (\<forall>b. set (x_b58_encode x b) \<subseteq> set base58_alphabet) \<and>
     (\<forall>b. b \<noteq> [] \<longrightarrow> x_b58_encode x b \<noteq> [])"

definition b64_ok :: "ext \<Rightarrow> bool" where
  "b64_ok x \<longleftrightarrow> (\<forall>b. x_b64_decode x (trim (x_b64_encode x b)) = Some b)"

definition ed_ok :: "ext \<Rightarrow> bool" where
  "ed_ok x \<longleftrightarrow>
     (\<forall>k. length k = 32 \<longrightarrow> length (x_ed_public x k) = 32 \<and> x_ed_valid x (x_ed_public x k)) \<and>
     (\<forall>k m. length k = 32 \<longrightarrow> length (x_ed_sign x k m) = 64) \<and>
     (\<forall>k m. length k = 32 \<longrightarrow> x_ed_verify x (x_ed_public x k) m (x_ed_sign x k m))"

definition ext_ok :: "ext \<Rightarrow> bool" where
  "ext_ok x \<longleftrightarrow> sha_ok x \<and> hex_ok x \<and> uuid_ok x \<and> ed_ok x \<and> b58_ok x \<and> b64_ok x"

lemma ext_okD [dest]:
  assumes "ext_ok x"
  shows "sha_ok x" "hex_ok x" "uuid_ok x" "ed_ok x" "b58_ok x" "b64_ok x"
  using assms by (simp_all add: ext_ok_def)

lemma hex_encode_inj: "hex_ok x \<Longrightarrow> x_hex_encode x a = x_hex_encode x b \<longleftrightarrow> a = b"
  unfolding hex_ok_def by (metis option.inject)

lemma length_sha_hex: "sha_ok x \<Longrightarrow> hex_ok x \<Longrightarrow> length (sha_hex x m) = 64"
  by (simp add: sha_hex_def sha_ok_def hex_ok_def)

lemma sha_hex_lower: "hex_ok x \<Longrightarrow> list_all is_lower_hex (sha_hex x m)"
  by (simp add: sha_hex_def hex_ok_def)

lemma sha_hex_nonempty: "sha_ok x \<Longrightarrow> hex_ok x \<Longrightarrow> sha_hex x m \<noteq> []"
  using length_sha_hex [of x m] by auto

lemma uuid_bytes_inj: "uuid_ok x \<Longrightarrow> x_uuid_bytes x u = x_uuid_bytes x v \<longleftrightarrow> u = v"
  unfolding uuid_ok_def by (metis injD)

lemma uuid_str_inj: "uuid_ok x \<Longrightarrow> x_uuid_str x u = x_uuid_str x v \<longleftrightarrow> u = v"
  unfolding uuid_ok_def by (metis option.inject)

section \<open>A concrete instance\<close>

definition hex_digit :: "nat \<Rightarrow> char" where
  "hex_digit n = char_of (if n < 10 then 48 + n else 87 + n)"

definition hex_value :: "char \<Rightarrow> nat option" where
  "hex_value c = (let n = of_char c in
     if 48 \<le> n \<and> n \<le> 57 then Some (n - 48)
     else if 97 \<le> n \<and> n \<le> 102 then Some (n - 87)
     else if 65 \<le> n \<and> n \<le> 70 then Some (n - 55) else None)"

fun demo_hex :: "byte list \<Rightarrow> string" where
  "demo_hex [] = []"
| "demo_hex (b # bs) = hex_digit (unat b div 16) # hex_digit (unat b mod 16) # demo_hex bs"

fun demo_unhex :: "string \<Rightarrow> byte list option" where
  "demo_unhex [] = Some []"
| "demo_unhex [c] = None"
| "demo_unhex (c # d # cs) =
     (case (hex_value c, hex_value d, demo_unhex cs) of
        (Some h, Some l, Some bs) \<Rightarrow> Some (of_nat (16 * h + l) # bs)
      | _ \<Rightarrow> None)"

definition b58_chars :: string where
  "b58_chars = ''123456789ABCDEFG''"

fun demo_b58 :: "byte list \<Rightarrow> string" where
  "demo_b58 [] = []"
| "demo_b58 (b # bs) = b58_chars ! (unat b div 16) # b58_chars ! (unat b mod 16) # demo_b58 bs"

definition b58_value :: "char \<Rightarrow> nat option" where
  "b58_value c = find (\<lambda>i. b58_chars ! i = c) [0..<16]"

fun demo_unb58 :: "string \<Rightarrow> byte list option" where
  "demo_unb58 [] = Some []"
| "demo_unb58 [c] = None"
| "demo_unb58 (c # d # cs) =
     (case (b58_value c, b58_value d, demo_unb58 cs) of
        (Some h, Some l, Some bs) \<Rightarrow> Some (of_nat (16 * h + l) # bs)
      | _ \<Rightarrow> None)"

fun nat_be :: "nat \<Rightarrow> nat \<Rightarrow> byte list" where
  "nat_be 0 n = []"
| "nat_be (Suc k) n = nat_be k (n div 256) @ [of_nat (n mod 256)]"

definition be_nat :: "byte list \<Rightarrow> nat" where
  "be_nat bs = foldl (\<lambda>a b. a * 256 + unat b) 0 bs"

definition demo_uuid_str :: "uuid \<Rightarrow> string" where
  "demo_uuid_str u = (let h = demo_hex (nat_be 16 (unat u)) in
     take 8 h @ ''-'' @ take 4 (drop 8 h) @ ''-'' @ take 4 (drop 12 h) @ ''-'' @
     take 4 (drop 16 h) @ ''-'' @ drop 20 h)"

definition demo_uuid_parse :: "string \<Rightarrow> uuid option" where
  "demo_uuid_parse s = (case demo_unhex (filter (\<lambda>c. c \<noteq> CHR ''-'') s) of
     Some bs \<Rightarrow> if length s = 36 \<and> length bs = 16 then Some (of_nat (be_nat bs)) else None
   | None \<Rightarrow> None)"

definition demo_step :: "byte \<times> byte \<Rightarrow> byte \<Rightarrow> byte \<times> byte" where
  "demo_step s c = (case s of (a, b) \<Rightarrow> (3 * a + c + 1, 5 * b + a))"

definition demo_sha :: "byte list \<Rightarrow> byte list" where
  "demo_sha m = (case foldl demo_step (7, 9) m of (a, b) \<Rightarrow> [a, b] @ replicate 30 0)"

definition demo_uuid_bytes :: "uuid \<Rightarrow> byte list" where
  "demo_uuid_bytes u = nat_be 16 (unat u)"

definition demo_ed_valid :: "byte list \<Rightarrow> bool" where
  "demo_ed_valid k \<longleftrightarrow> length k = 32"

definition demo_ed_public :: "byte list \<Rightarrow> byte list" where
  "demo_ed_public k = k"

definition demo_ed_sign :: "byte list \<Rightarrow> byte list \<Rightarrow> byte list" where
  "demo_ed_sign k m = k @ demo_sha m"

definition demo_ed_verify :: "byte list \<Rightarrow> byte list \<Rightarrow> byte list \<Rightarrow> bool" where
  "demo_ed_verify k m s \<longleftrightarrow> s = k @ demo_sha m"

definition demo_month_start :: "timestamp \<Rightarrow> timestamp" where
  "demo_month_start t = t - t mod 2592000000000"

definition demo_plus_month :: "timestamp \<Rightarrow> timestamp" where
  "demo_plus_month t = t + 2592000000000"

definition demo_rfc3339 :: "timestamp \<Rightarrow> string" where
  "demo_rfc3339 t = demo_hex (nat_be 8 (nat t))"

text \<open>The instance is made of named functions only, so that evaluation does not enter it.\<close>

definition demo_ext :: ext where
  "demo_ext = \<lparr> x_sha256 = demo_sha, x_hex_encode = demo_hex, x_hex_decode = demo_unhex,
     x_uuid_bytes = demo_uuid_bytes,
     x_uuid_str = demo_uuid_str, x_uuid_parse = demo_uuid_parse,
     x_ed_valid = demo_ed_valid, x_ed_public = demo_ed_public,
     x_ed_sign = demo_ed_sign, x_ed_verify = demo_ed_verify,
     x_b64_encode = demo_hex, x_b64_decode = demo_unhex,
     x_b58_encode = demo_b58, x_b58_decode = demo_unb58,
     x_month_start = demo_month_start, x_plus_month = demo_plus_month,
     x_rfc3339 = demo_rfc3339 \<rparr>"

lemmas demo_defs = demo_ext_def demo_uuid_bytes_def demo_ed_valid_def demo_ed_public_def
  demo_ed_sign_def demo_ed_verify_def

lemma length_nat_be [simp]: "length (nat_be k n) = k"
  by (induction k arbitrary: n) simp_all

lemma be_nat_nat_be: "be_nat (nat_be k n) = n mod 256 ^ k"
proof (induction k arbitrary: n)
  case 0
  then show ?case by (simp add: be_nat_def)
next
  case (Suc k)
  have "be_nat (nat_be (Suc k) n) = be_nat (nat_be k (n div 256)) * 256 + n mod 256"
    by (simp add: be_nat_def unat_of_nat)
  also have "\<dots> = (n div 256) mod 256 ^ k * 256 + n mod 256"
    by (simp add: Suc)
  also have "\<dots> = n mod (256 * 256 ^ k)"
    by (simp add: mod_mult2_eq mult.commute)
  finally show ?case by simp
qed

lemma hex_value_digit: "n < 16 \<Longrightarrow> hex_value (hex_digit n) = Some n"
  by (auto simp: hex_value_def hex_digit_def Let_def)

lemma hex_digit_lower: "n < 16 \<Longrightarrow> is_lower_hex (hex_digit n)"
  by (auto simp: is_lower_hex_def hex_digit_def Let_def)

lemma unat_byte_less: "unat (b :: byte) < 256"
proof -
  have "unat b < 2 ^ LENGTH(8)" by (rule unsigned_less)
  then show ?thesis by simp
qed

lemma unat_uuid_less: "unat (u :: uuid) < 256 ^ 16"
proof -
  have "unat u < 2 ^ LENGTH(128)" by (rule unsigned_less)
  then show ?thesis by simp
qed

lemma demo_unhex_hex: "demo_unhex (demo_hex bs) = Some bs"
proof (induction bs)
  case (Cons b bs)
  have "unat b div 16 < 16" using unat_byte_less [of b] by simp
  then show ?case
    using Cons by (simp add: hex_value_digit)
qed simp

lemma length_demo_hex [simp]: "length (demo_hex bs) = 2 * length bs"
  by (induction bs) simp_all

lemma demo_hex_lower: "list_all is_lower_hex (demo_hex bs)"
proof (induction bs)
  case (Cons b bs)
  have "unat b div 16 < 16" using unat_byte_less [of b] by simp
  then show ?case using Cons by (simp add: hex_digit_lower)
qed simp

lemma demo_hex_ok: "hex_ok demo_ext"
  by (simp add: hex_ok_def demo_defs demo_unhex_hex demo_hex_lower)

lemma lower_hex_chars: "is_lower_hex c \<Longrightarrow> c \<noteq> CHR ''-'' \<and> c \<noteq> CHR '':'' \<and> c \<noteq> CHR ''/''"
  by (auto simp: is_lower_hex_def)

lemma demo_uuid_parse_str: "demo_uuid_parse (demo_uuid_str u) = Some u"
proof -
  define h where "h = demo_hex (nat_be 16 (unat u))"
  have len: "length h = 32" by (simp add: h_def)
  have "list_all is_lower_hex h" by (simp add: h_def demo_hex_lower)
  then have "\<And>c. c \<in> set h \<Longrightarrow> c \<noteq> CHR ''-''"
    using lower_hex_chars by (auto simp: list_all_iff)
  then have keep: "filter (\<lambda>c. c \<noteq> CHR ''-'') (take a (drop b h)) = take a (drop b h)" for a b
    by (auto simp: filter_id_conv dest: in_set_takeD in_set_dropD)
  have split: "take 8 h @ take 4 (drop 8 h) @ take 4 (drop 12 h) @ take 4 (drop 16 h) @ drop 20 h = h"
    using len by (simp add: list_eq_iff_nth_eq nth_append)
  have "filter (\<lambda>c. c \<noteq> CHR ''-'') (demo_uuid_str u) = h"
    using keep [of 8 0] keep [of 4 8] keep [of 4 12] keep [of 4 16] keep [of 12 20] len split
    by (simp add: demo_uuid_str_def h_def [symmetric] Let_def)
  moreover have "length (demo_uuid_str u) = 36"
    using len by (simp add: demo_uuid_str_def h_def [symmetric] Let_def)
  moreover have "of_nat (be_nat (nat_be 16 (unat u))) = u"
    using unat_uuid_less [of u] by (simp add: be_nat_nat_be)
  ultimately show ?thesis
    by (simp add: demo_uuid_parse_def h_def demo_unhex_hex)
qed

lemma demo_uuid_ok: "uuid_ok demo_ext"
proof -
  have "inj demo_uuid_bytes"
  proof (rule injI)
    fix u v :: uuid
    assume "demo_uuid_bytes u = demo_uuid_bytes v"
    then have "nat_be 16 (unat u) = nat_be 16 (unat v)" by (simp add: demo_uuid_bytes_def)
    then have "be_nat (nat_be 16 (unat u)) = be_nat (nat_be 16 (unat v))" by simp
    then have "unat u = unat v"
      using unat_uuid_less [of u] unat_uuid_less [of v] by (simp add: be_nat_nat_be)
    then show "u = v" by (rule unsigned_word_eqI)
  qed
  moreover have "length (demo_uuid_str u) = 36" for u
    by (simp add: demo_uuid_str_def Let_def)
  moreover have "CHR '':'' \<notin> set (demo_uuid_str u) \<and> CHR ''/'' \<notin> set (demo_uuid_str u)" for u
    using demo_hex_lower [of "nat_be 16 (unat u)"] lower_hex_chars
    by (auto simp: demo_uuid_str_def Let_def list_all_iff dest!: in_set_takeD in_set_dropD)
  ultimately show ?thesis
    by (simp add: uuid_ok_def demo_ext_def demo_uuid_parse_str) (simp add: demo_uuid_bytes_def)
qed

lemma b58_value_nth: "n < 16 \<Longrightarrow> b58_value (b58_chars ! n) = Some n"
proof -
  have "list_all (\<lambda>n. b58_value (b58_chars ! n) = Some n) [0..<16]" by code_simp
  then show "n < 16 \<Longrightarrow> b58_value (b58_chars ! n) = Some n" by (simp add: list_all_iff)
qed

lemma b58_chars_alphabet: "n < 16 \<Longrightarrow> b58_chars ! n \<in> set base58_alphabet"
proof -
  have "list_all (\<lambda>n. b58_chars ! n \<in> set base58_alphabet) [0..<16]" by code_simp
  then show "n < 16 \<Longrightarrow> b58_chars ! n \<in> set base58_alphabet" by (simp add: list_all_iff)
qed

lemma demo_b58_ok: "b58_ok demo_ext"
proof -
  have q: "unat b div 16 < 16" for b :: byte using unat_byte_less [of b] by simp
  have "demo_unb58 (demo_b58 bs) = Some bs" for bs
    by (induction bs) (simp_all add: b58_value_nth q)
  moreover have "set (demo_b58 bs) \<subseteq> set base58_alphabet" for bs
    by (induction bs) (simp_all add: b58_chars_alphabet q)
  moreover have "bs \<noteq> [] \<longrightarrow> demo_b58 bs \<noteq> []" for bs by (cases bs) simp_all
  ultimately show ?thesis by (simp add: b58_ok_def demo_defs)
qed

lemma demo_ext_ok: "ext_ok demo_ext"
proof -
  have "sha_ok demo_ext"
    by (simp add: sha_ok_def demo_defs demo_sha_def split: prod.split)
  moreover have "ed_ok demo_ext"
    by (simp add: ed_ok_def demo_defs demo_sha_def split: prod.split)
  moreover have "b64_ok demo_ext"
    by (simp add: b64_ok_def demo_defs trim_hex demo_hex_lower demo_unhex_hex)
  ultimately show ?thesis
    using demo_hex_ok demo_uuid_ok demo_b58_ok by (simp add: ext_ok_def)
qed

end
