(* ===== verification/Json.thy ===== *)
theory Json
  imports External "HOL-Library.List_Lexorder" "HOL-Library.Char_ord" "HOL-Library.Multiset"
begin

text \<open>
  \<open>serde_json::Value\<close> (numbers are the integers the program writes) and the canonical rendering
  of \<open>src/api/v1/idempotency/canonical.rs\<close> that request hashes are computed from.  The lemmas show
  that the order of an object's keys is irrelevant at every depth, and that the rendering of a
  string can be read back, so that two requests with the same canonical text are the same.
\<close>

section \<open>Values\<close>

datatype json =
    JNull
  | JBool bool
  | JNumber int
  | JString string
  | JArray "json list"
  | JObject "(string \<times> json) list"

text \<open>\<open>Value::get\<close> on an object.\<close>

fun json_get :: "json \<Rightarrow> string \<Rightarrow> json option" where
  "json_get (JObject kvs) k = map_of kvs k"
| "json_get _ k = None"

fun json_str :: "json \<Rightarrow> string option" where
  "json_str (JString s) = Some s"
| "json_str _ = None"

definition JUuid :: "ext \<Rightarrow> uuid \<Rightarrow> json" where
  "JUuid x u = JString (x_uuid_str x u)"

definition JOpt :: "('a \<Rightarrow> json) \<Rightarrow> 'a option \<Rightarrow> json" where
  "JOpt f v = (case v of None \<Rightarrow> JNull | Some a \<Rightarrow> f a)"

section \<open>Rendering\<close>

text \<open>\<open>serde_json::to_string\<close> of a string.\<close>

definition escape_char :: "char \<Rightarrow> string" where
  "escape_char c =
     (if c = CHR 0x22 then [CHR 0x5C, CHR 0x22]
      else if c = CHR 0x5C then [CHR 0x5C, CHR 0x5C]
      else if c = CHR 0x08 then [CHR 0x5C, CHR ''b'']
      else if c = CHR 0x09 then [CHR 0x5C, CHR ''t'']
      else if c = CHR 0x0A then [CHR 0x5C, CHR ''n'']
      else if c = CHR 0x0C then [CHR 0x5C, CHR ''f'']
      else if c = CHR 0x0D then [CHR 0x5C, CHR ''r'']
      else let n = (of_char c :: nat) in
        if n < 32 then [CHR 0x5C, CHR ''u'', CHR ''0'', CHR ''0'', hex_digit (n div 16), hex_digit (n mod 16)]
        else [c])"

definition json_string :: "string \<Rightarrow> string" where
  "json_string s = [CHR 0x22] @ concat (map escape_char s) @ [CHR 0x22]"

fun digits :: "nat \<Rightarrow> string" where
  "digits n = (if n < 10 then [] else digits (n div 10)) @ [char_of (48 + n mod 10)]"

declare digits.simps [simp del]

definition show_int :: "int \<Rightarrow> string" where
  "show_int i = (if i < 0 then CHR ''-'' # digits (nat (- i)) else digits (nat i))"

fun join :: "string \<Rightarrow> string list \<Rightarrow> string" where
  "join sep [] = []"
| "join sep [s] = s"
| "join sep (s # t # ss) = s @ sep @ join sep (t # ss)"

definition render_object :: "(string \<times> string) list \<Rightarrow> string" where
  "render_object kvs =
     ''{'' @ join '','' (map (\<lambda>(key, v). json_string key @ '':'' @ v) (sort_key fst kvs)) @ ''}''"

primrec canonicalize_value :: "json \<Rightarrow> string" where
  "canonicalize_value JNull = ''null''"
| "canonicalize_value (JBool b) = (if b then ''true'' else ''false'')"
| "canonicalize_value (JNumber n) = show_int n"
| "canonicalize_value (JString s) = json_string s"
| "canonicalize_value (JArray items) = ''['' @ join '','' (map canonicalize_value items) @ '']''"
| "canonicalize_value (JObject kvs) = render_object (map (map_prod id canonicalize_value) kvs)"

definition canonical_json_sha256 :: "ext \<Rightarrow> json \<Rightarrow> string" where
  "canonical_json_sha256 x v = sha_hex x (str_bytes (canonicalize_value v))"

section \<open>Key order\<close>

text \<open>Two values that differ in the order of object keys only.  A \<open>Map\<close> has distinct keys.\<close>

inductive json_same :: "json \<Rightarrow> json \<Rightarrow> bool" where
  refl: "json_same v v"
| array: "list_all2 json_same us vs \<Longrightarrow> json_same (JArray us) (JArray vs)"
| object: "list_all2 (\<lambda>p q. fst p = fst q \<and> json_same (snd p) (snd q)) us vs \<Longrightarrow> mset vs = mset ws \<Longrightarrow>
     distinct (map fst ws) \<Longrightarrow> json_same (JObject us) (JObject ws)"

lemma filter_key:
  "distinct (map fst rs) \<Longrightarrow> k \<in> set rs \<Longrightarrow> filter (\<lambda>x. fst k = fst x) rs = [k]"
proof (induction rs)
  case (Cons r rs)
  show ?case
  proof (cases "fst k = fst r")
    case True
    with Cons.prems(1) have no: "fst k \<notin> fst ` set rs" by simp
    then have "filter (\<lambda>x. fst k = fst x) rs = []" by (auto simp: filter_empty_conv)
    moreover have "k = r" using no Cons.prems(2) by auto
    ultimately show ?thesis by simp
  next
    case False
    with Cons show ?thesis by auto
  qed
qed simp

lemma render_object_perm:
  assumes "mset ps = mset qs" "distinct (map fst ps)"
  shows "render_object ps = render_object qs"
proof -
  have d: "distinct (map fst qs)"
    using assms(2) mset_eq_imp_distinct_iff [of "map fst ps" "map fst qs"] assms(1) by simp
  have "sort_key fst ps = sort_key fst qs"
  proof (rule properties_for_sort_key)
    show "mset (sort_key fst qs) = mset ps" using assms(1) by simp
    show "filter (\<lambda>x. fst k = fst x) (sort_key fst qs) = filter (\<lambda>x. fst k = fst x) ps" if "k \<in> set (sort_key fst qs)" for k
    proof -
      have one: "filter (\<lambda>x. fst k = fst x) rs = [k]" if "distinct (map fst rs)" "k \<in> set rs" for rs
        using that(1,2) by (rule filter_key)
      have "k \<in> set qs" using that by simp
      moreover from this have "k \<in> set ps" using assms(1) by (metis set_mset_mset)
      ultimately show ?thesis using one d assms(2) by (simp add: filter_sort)
    qed
  qed simp
  then show ?thesis by (simp add: render_object_def)
qed

lemma canonicalize_same: "json_same u v \<Longrightarrow> canonicalize_value u = canonicalize_value v"
proof (induction rule: json_same.induct)
  case (array us vs)
  then have "map canonicalize_value us = map canonicalize_value vs"
    by (simp add: list_all2_conv_all_nth list_eq_iff_nth_eq)
  then show ?case by (simp only: canonicalize_value.simps)
next
  case (object us vs ws)
  let ?m = "map (map_prod id canonicalize_value)"
  have "?m us = ?m vs"
    using object.IH by (auto simp: list_all2_conv_all_nth list_eq_iff_nth_eq prod_eq_iff)
  moreover have "render_object (?m ws) = render_object (?m vs)"
  proof (rule render_object_perm)
    show "mset (?m ws) = mset (?m vs)" using object.hyps(1) by (simp del: mset_map add: mset_map)
    show "distinct (map fst (?m ws))" using object.hyps(2) by (simp add: comp_def)
  qed
  ultimately show ?case by simp
qed simp

section \<open>Reading strings back\<close>

lemma escape_char_nonempty: "escape_char c \<noteq> []"
  by (simp add: escape_char_def Let_def)

lemma escape_first: "hd (escape_char c) \<noteq> CHR 0x22"
  by (auto simp: escape_char_def Let_def)

definition unescape :: "string \<Rightarrow> (char \<times> string) option" where
  "unescape s = (case s of
     [] \<Rightarrow> None
   | c # r \<Rightarrow>
     if c \<noteq> CHR 0x5C then Some (c, r)
     else (case r of
       [] \<Rightarrow> None
     | d # r \<Rightarrow>
       if d = CHR ''b'' then Some (CHR 0x08, r) else if d = CHR ''t'' then Some (CHR 0x09, r)
       else if d = CHR ''n'' then Some (CHR 0x0A, r) else if d = CHR ''f'' then Some (CHR 0x0C, r)
       else if d = CHR ''r'' then Some (CHR 0x0D, r)
       else if d = CHR ''u'' then (case r of
           a # b # h # l # r \<Rightarrow> (case (hex_value h, hex_value l) of
               (Some i, Some j) \<Rightarrow> Some (char_of (16 * i + j), r) | _ \<Rightarrow> None)
         | _ \<Rightarrow> None)
       else Some (d, r)))"

lemma unescape_escape: "unescape (escape_char c @ r) = Some (c, r)"
proof (cases "c \<in> {CHR 0x22, CHR 0x5C, CHR 0x08, CHR 0x09, CHR 0x0A, CHR 0x0C, CHR 0x0D}")
  case True
  then show ?thesis by (auto simp: escape_char_def unescape_def)
next
  case False
  show ?thesis
  proof (cases "(of_char c :: nat) < 32")
    case True
    define n where "n = (of_char c :: nat)"
    have "escape_char c =
        [CHR 0x5C, CHR ''u'', CHR ''0'', CHR ''0'', hex_digit (n div 16), hex_digit (n mod 16)]"
      using False True by (simp add: escape_char_def Let_def n_def)
    moreover have "n div 16 < 16" "n mod 16 < 16" using True by (simp_all add: n_def)
    moreover have "char_of (16 * (n div 16) + n mod 16) = c" by (simp add: n_def)
    ultimately show ?thesis by (simp add: unescape_def hex_value_digit)
  next
    case large: False
    with False show ?thesis by (simp add: escape_char_def Let_def unescape_def)
  qed
qed

lemma json_string_prefix_free:
  "json_string s @ r = json_string t @ r' \<Longrightarrow> s = t \<and> r = r'"
proof -
  have "concat (map escape_char s) @ CHR 0x22 # r = concat (map escape_char t) @ CHR 0x22 # r' \<Longrightarrow>
    s = t \<and> r = r'"
  proof (induction s arbitrary: t)
    case Nil
    then show ?case
    proof (cases t)
      case (Cons c t')
      with Nil have "hd (escape_char c) = CHR 0x22"
        using escape_char_nonempty [of c] by (cases "escape_char c") auto
      then show ?thesis using escape_first by blast
    qed simp
  next
    case (Cons a s)
    show ?case
    proof (cases t)
      case Nil
      with Cons.prems have "hd (escape_char a) = CHR 0x22"
        using escape_char_nonempty [of a] by (cases "escape_char a") auto
      then show ?thesis using escape_first by blast
    next
      case (Cons b t')
      with Cons.prems have eq: "escape_char a @ concat (map escape_char s) @ CHR 0x22 # r =
          escape_char b @ concat (map escape_char t') @ CHR 0x22 # r'" by simp
      then have "unescape (escape_char a @ concat (map escape_char s) @ CHR 0x22 # r) =
          unescape (escape_char b @ concat (map escape_char t') @ CHR 0x22 # r')" by simp
      then have "a = b" "concat (map escape_char s) @ CHR 0x22 # r = concat (map escape_char t') @ CHR 0x22 # r'"
        unfolding unescape_escape by simp_all
      with Cons.IH [of t'] Cons show ?thesis by simp
    qed
  qed
  then show "json_string s @ r = json_string t @ r' \<Longrightarrow> s = t \<and> r = r'"
    by (simp add: json_string_def)
qed

end
