(* ===== verification/Database.thy ===== *)
theory Database
  imports Json
begin

text \<open>
  The PostgreSQL schema of \<open>migrations/\<close> as one record of tables.  A table is the list of its rows
  in insertion order; a row is a record with the columns the modelled code reads or writes.
  A statement that violates a constraint is the error \<open>sqlx\<close> reports, with the constraint's name;
  a transaction that returns an error leaves the database it started from.
  Failures of the connection itself are not modelled.
\<close>

section \<open>Rows\<close>

record chain_row =
  ch_chain_id :: uuid
  ch_head_event_id :: "uuid option"
  ch_account_id :: "uuid option"

record event_row =
  e_event_id :: uuid
  e_chain_id :: uuid
  e_parent_event_id :: uuid
  e_file_hash :: string
  e_idempotency_key :: string
  e_signature :: string
  e_created_at :: timestamp
  e_sequence :: i64
  e_identity_key_id :: "uuid option"
  e_identity_signature :: "string option"
  e_identity_fingerprint :: "string option"

record tsa_row =
  t_chain_id :: uuid
  t_event_id :: uuid
  t_merkle_root :: string
  t_tsa_token :: "byte list"
  t_tsa_timestamp :: i64
  t_tsa_serial :: string
  t_verified_at :: "timestamp option"
  t_verification_status :: "string option"
  t_token_sha256 :: "string option"

record account_row =
  a_account_id :: uuid
  a_email :: string
  a_tariff_plan_id :: uuid
  a_paddle_customer_id :: "string option"
  a_subscription_status :: string
  a_current_period_end :: "timestamp option"
  a_pending_tariff_plan_id :: "uuid option"
  a_paddle_subscription_id :: "string option"
  a_password_hash :: "string option"
  a_created_at :: timestamp
  a_email_verified_at :: "timestamp option"

record plan_row =
  p_plan_id :: uuid
  p_name :: string
  p_display_name :: string
  p_tsa_mode :: string
  p_server_backup :: bool
  p_history_recovery :: bool
  p_identity_enabled :: bool
  p_monthly_commits_limit :: "int option"
  p_monthly_tsa_limit :: "int option"
  p_paddle_price_id :: "string option"
  p_priority :: int

record usage_row =
  u_account_id :: uuid
  u_period_start :: timestamp
  u_server_commits :: int
  u_tsa_requests :: int

record idempotency_row =
  i_id :: uuid
  i_account_id :: uuid
  i_idempotency_key :: string
  i_request_hash :: string
  i_response_json :: json
  i_created_at :: timestamp
  i_expires_at :: timestamp

record registry_row =
  r_public_proof_id :: string
  r_file_hash :: string
  r_proof_status :: string
  r_registered_at :: timestamp
  r_tsa_class :: string
  r_integrity_state :: string
  r_enabled :: bool

record material_row =
  m_internal_proof_id :: uuid
  m_file_hash :: string
  m_public_proof_id :: "string option"
  m_materialized_at :: timestamp
  m_sticky_disabled :: bool

record identity_key_row =
  k_id :: uuid
  k_account_id :: uuid
  k_public_key :: string
  k_fingerprint :: string
  k_label :: "string option"
  k_created_at :: timestamp
  k_verified_at :: timestamp
  k_revoked_at :: "timestamp option"

record challenge_row =
  c_id :: uuid
  c_account_id :: uuid
  c_challenge :: string
  c_created_at :: timestamp
  c_expires_at :: timestamp
  c_used_at :: "timestamp option"

record audit_row =
  au_key_id :: uuid
  au_actor_id :: uuid
  au_action :: string
  au_created_at :: timestamp

record webhook_row =
  w_id :: uuid
  w_paddle_event_id :: string
  w_event_type :: string
  w_payload_hash :: string
  w_account_id :: "uuid option"
  w_subscription_id :: "string option"
  w_event_occurred_at :: timestamp
  w_status :: string
  w_error_message :: "string option"
  w_processing_started_at :: "timestamp option"
  w_processed_at :: "timestamp option"

record pending_link_row =
  l_id :: uuid
  l_paddle_customer_id :: string
  l_paddle_email :: string
  l_account_id :: "uuid option"
  l_created_at :: timestamp
  l_resolved_at :: "timestamp option"

record api_key_row =
  ak_api_key_id :: uuid
  ak_account_id :: uuid
  ak_key_hash :: string
  ak_label :: string
  ak_key_prefix :: string
  ak_created_at :: timestamp
  ak_revoked_at :: "timestamp option"

record session_row =
  s_id :: uuid
  s_account_id :: uuid
  s_token_hash :: string
  s_expires_at :: timestamp
  s_created_at :: timestamp
  s_last_used_at :: timestamp

record desktop_token_row =
  d_id :: uuid
  d_account_id :: uuid
  d_token_hash :: string
  d_created_at :: timestamp
  d_expires_at :: timestamp
  d_revoked_at :: "timestamp option"
  d_last_used_at :: "timestamp option"

record backup_row =
  b_backup_id :: uuid
  b_chain_id :: uuid
  b_account_id :: uuid
  b_storage_path :: string
  b_event_count :: int
  b_created_at :: timestamp

record db =
  chains :: "chain_row list"
  events :: "event_row list"
  tsa_tokens :: "tsa_row list"
  accounts :: "account_row list"
  tariff_plans :: "plan_row list"
  usage_monthly :: "usage_row list"
  idempotency_records :: "idempotency_row list"
  public_proof_registry :: "registry_row list"
  public_proof_materialization :: "material_row list"
  identity_keys :: "identity_key_row list"
  identity_challenges :: "challenge_row list"
  identity_key_audit_events :: "audit_row list"
  paddle_webhook_events :: "webhook_row list"
  paddle_pending_links :: "pending_link_row list"
  api_keys :: "api_key_row list"
  sessions :: "session_row list"
  desktop_tokens :: "desktop_token_row list"
  backups :: "backup_row list"

section \<open>Statements\<close>

datatype sqlx_error =
    UniqueViolation string
  | ForeignKeyViolation
  | RowNotFound
  | NumericOutOfRange
  | NotNullViolation

text \<open>\<open>UPDATE t SET ... WHERE ...\<close>, and the first row of a \<open>SELECT\<close>.\<close>

definition update_where :: "('r \<Rightarrow> bool) \<Rightarrow> ('r \<Rightarrow> 'r) \<Rightarrow> 'r list \<Rightarrow> 'r list" where
  "update_where P f rows = map (\<lambda>r. if P r then f r else r) rows"

definition fetch_one :: "('r \<Rightarrow> bool) \<Rightarrow> 'r list \<Rightarrow> sqlx_error + 'r" where
  "fetch_one P rows = ok_or RowNotFound (find P rows)"

text \<open>\<open>ORDER BY sequence ASC\<close> over the events that satisfy a condition.\<close>

definition select_events :: "(event_row \<Rightarrow> bool) \<Rightarrow> event_row list \<Rightarrow> event_row list" where
  "select_events P rows = sort_key (\<lambda>e. sint (e_sequence e)) (filter P rows)"

text \<open>\<open>SELECT COALESCE(MAX(sequence), 0) + 1\<close>, an error where the sum does not fit a \<open>bigint\<close>.\<close>

definition max_sequence :: "event_row list \<Rightarrow> int" where
  "max_sequence rows = (case rows of [] \<Rightarrow> 0
     | e # es \<Rightarrow> foldl (\<lambda>m e. max m (sint (e_sequence e))) (sint (e_sequence e)) es)"

definition next_sequence :: "uuid \<Rightarrow> db \<Rightarrow> sqlx_error + i64" where
  "next_sequence chain_id d =
     (let m = max_sequence (filter (\<lambda>e. e_chain_id e = chain_id) (events d)) + 1 in
      if m > 2 ^ 63 - 1 then Inl NumericOutOfRange else Inr (word_of_int m))"

text \<open>\<open>INSERT INTO events\<close>: the primary key, the two unique constraints in the order they were
  created, then the foreign key on the identity key.\<close>

definition insert_event :: "event_row \<Rightarrow> db \<Rightarrow> sqlx_error + db" where
  "insert_event e d =
     (if e_event_id e \<in> e_event_id ` set (events d)
      then Inl (UniqueViolation ''events_pkey'')
      else if (e_chain_id e, e_idempotency_key e) \<in> (\<lambda>f. (e_chain_id f, e_idempotency_key f)) ` set (events d)
      then Inl (UniqueViolation ''uniq_idem'')
      else if (e_chain_id e, e_sequence e) \<in> (\<lambda>f. (e_chain_id f, e_sequence f)) ` set (events d)
      then Inl (UniqueViolation ''events_chain_sequence_unique'')
      else if (case e_identity_key_id e of None \<Rightarrow> False | Some k \<Rightarrow> k \<notin> k_id ` set (identity_keys d))
      then Inl ForeignKeyViolation
      else Inr (d\<lparr> events := events d @ [e] \<rparr>))"

section \<open>Lemmas\<close>

lemma find_SomeD: "find P xs = Some x \<Longrightarrow> x \<in> set xs \<and> P x"
  by (induction xs) (auto split: if_splits)

lemma fetch_one_Inr [res_iff]: "fetch_one P rows = Inr r \<longleftrightarrow> find P rows = Some r"
  by (simp add: fetch_one_def res_iff)

lemma fetch_one_Inl: "fetch_one P rows = Inl e \<longleftrightarrow> find P rows = None \<and> e = RowNotFound"
  by (auto simp: fetch_one_def ok_or_Inl)

lemma update_where_Nil [simp]: "update_where P f [] = []"
  by (simp add: update_where_def)

lemma length_update_where [simp]: "length (update_where P f rows) = length rows"
  by (simp add: update_where_def)

lemma update_where_Nil_iff [simp]: "update_where P f rows = [] \<longleftrightarrow> rows = []"
  by (simp add: update_where_def)

lemma update_where_id: "(\<And>r. r \<in> set rows \<Longrightarrow> \<not> P r) \<Longrightarrow> update_where P f rows = rows"
  by (simp add: update_where_def map_idI)

lemma update_where_twice:
  "(\<And>r. P r \<Longrightarrow> \<not> P (f r)) \<Longrightarrow> update_where P g (update_where P f rows) = update_where P f rows"
  by (simp add: update_where_def)

lemma map_update_where: "(\<And>r. g (f r) = g r) \<Longrightarrow> map g (update_where P f rows) = map g rows"
  by (simp add: update_where_def)

lemma filter_update_where:
  "(\<And>r. Q (f r) = Q r) \<Longrightarrow> filter Q (update_where P f rows) = update_where P f (filter Q rows)"
  by (induction rows) (simp_all add: update_where_def)

lemma set_update_where: "set (update_where P f rows) = (\<lambda>r. if P r then f r else r) ` set rows"
  by (simp add: update_where_def)

lemma in_update_where: "r \<in> set (update_where P f rows) \<Longrightarrow> \<exists>a\<in>set rows. r = (if P a then f a else a)"
  by (simp only: set_update_where image_iff)

lemma find_update_where_other:
  "(\<And>r. Q (f r) = Q r) \<Longrightarrow> (\<And>r. Q r \<Longrightarrow> \<not> P r) \<Longrightarrow> find Q (update_where P f rows) = find Q rows"
  by (induction rows) (auto simp: update_where_def)

lemma find_update_where_same:
  "(\<And>r. Q (f r) = Q r) \<Longrightarrow> (\<And>r. Q r \<Longrightarrow> P r) \<Longrightarrow> find Q (update_where P f rows) = map_option f (find Q rows)"
  by (induction rows) (auto simp: update_where_def)

lemma find_append: "find P (xs @ ys) = (case find P xs of None \<Rightarrow> find P ys | Some x \<Rightarrow> Some x)"
  by (induction xs) auto

lemma foldl_max_ge: "foldl (\<lambda>m e. max m (g e)) a es \<ge> (a :: int)"
  by (induction es arbitrary: a) (auto intro: order_trans [OF max.cobounded1])

lemma foldl_max_in: "foldl (\<lambda>m e. max m (g e)) (a :: int) es \<in> insert a (g ` set es)"
  by (induction es arbitrary: a) (auto simp: max_def)

lemma foldl_max_upper: "e \<in> set es \<Longrightarrow> g e \<le> foldl (\<lambda>m e. max m (g e)) (a :: int) es"
  by (induction es arbitrary: a) (auto intro: order_trans [OF max.cobounded2 foldl_max_ge])

lemma max_sequence_upper: "e \<in> set rows \<Longrightarrow> sint (e_sequence e) \<le> max_sequence rows"
proof (cases rows)
  case (Cons a es)
  assume "e \<in> set rows"
  then show ?thesis
    using foldl_max_ge [where g = "\<lambda>e. sint (e_sequence e)" and a = "sint (e_sequence a)" and es = es]
      foldl_max_upper [where g = "\<lambda>e. sint (e_sequence e)" and a = "sint (e_sequence a)" and es = es and e = e]
    by (auto simp: max_sequence_def Cons)
qed simp

lemma max_sequence_in: "rows \<noteq> [] \<Longrightarrow> max_sequence rows \<in> (\<lambda>e. sint (e_sequence e)) ` set rows"
  using foldl_max_in [where g = "\<lambda>e. sint (e_sequence e)" and a = "sint (e_sequence (hd rows))" and es = "tl rows"]
  by (cases rows) (auto simp: max_sequence_def)

lemma insert_event_Inr [res_iff]:
  "insert_event e d = Inr d' \<longleftrightarrow>
     e_event_id e \<notin> e_event_id ` set (events d) \<and>
     (e_chain_id e, e_idempotency_key e) \<notin> (\<lambda>f. (e_chain_id f, e_idempotency_key f)) ` set (events d) \<and>
     (e_chain_id e, e_sequence e) \<notin> (\<lambda>f. (e_chain_id f, e_sequence f)) ` set (events d) \<and>
     (\<forall>k. e_identity_key_id e = Some k \<longrightarrow> k \<in> k_id ` set (identity_keys d)) \<and>
     d' = d\<lparr> events := events d @ [e] \<rparr>"
  unfolding insert_event_def by (cases "e_identity_key_id e") (simp_all add: eq_commute)

lemma select_events_set [simp]: "set (select_events P rows) = {e \<in> set rows. P e}"
  by (auto simp: select_events_def)

lemma select_events_sorted:
  "sorted (map (\<lambda>e. sint (e_sequence e)) (filter P rows)) \<Longrightarrow> select_events P rows = filter P rows"
  by (simp add: select_events_def sort_key_id_if_sorted)

lemma distinct_key_eq: "distinct (map f xs) \<Longrightarrow> a \<in> set xs \<Longrightarrow> b \<in> set xs \<Longrightarrow> f a = f b \<Longrightarrow> a = b"
  by (simp add: distinct_map inj_on_def)

end
