(* ===== verification/Merkle.thy ===== *)
theory Merkle
  imports External
begin

text \<open>
  \<open>src/merkle.rs\<close> and the row type of \<open>src/db.rs\<close>: the leaf of an event, the level loop and the
  root.  The lemmas show that the loop ends, that every root of a non-empty list is a 64
  character digest, and that a root determines the list it was computed from, unless two
  different inputs of the two computations have the same digest.
\<close>

section \<open>Model\<close>

record EventRow =
  er_event_id :: uuid
  er_parent_event_id :: uuid
  er_file_hash :: string
  er_created_at :: timestamp
  er_sequence :: i64

record MerkleTree =
  mt_root :: string
  mt_leaves :: "string list"
  mt_leaf_count :: nat

text \<open>The bytes \<open>build_leaf\<close> feeds to the hasher, and the leaf.\<close>

definition leaf_bytes :: "ext \<Rightarrow> i64 \<Rightarrow> uuid \<Rightarrow> uuid \<Rightarrow> string \<Rightarrow> byte list" where
  "leaf_bytes x sequence event_id parent_event_id file_hash =
     to_be_bytes sequence @ x_uuid_bytes x event_id @ x_uuid_bytes x parent_event_id @
     str_bytes file_hash"

definition build_leaf :: "ext \<Rightarrow> i64 \<Rightarrow> uuid \<Rightarrow> uuid \<Rightarrow> string \<Rightarrow> string" where
  "build_leaf x sequence event_id parent_event_id file_hash =
     sha_hex x (leaf_bytes x sequence event_id parent_event_id file_hash)"

text \<open>One pass of the \<open>while\<close> loop: \<open>chunks(2)\<close>, an odd last element is paired with itself.\<close>

fun next_level :: "ext \<Rightarrow> string list \<Rightarrow> string list" where
  "next_level x [] = []"
| "next_level x [left] = [sha_hex x (str_bytes left @ str_bytes left)]"
| "next_level x (left # right # rest) =
     sha_hex x (str_bytes left @ str_bytes right) # next_level x rest"

lemma length_next_level [simp]: "length (next_level x hs) = (length hs + 1) div 2"
  by (induction x hs rule: next_level.induct) simp_all

function merkle_loop :: "ext \<Rightarrow> string list \<Rightarrow> string list" where
  "merkle_loop x hashed =
     (if length hashed > 1 then merkle_loop x (next_level x hashed) else hashed)"
  by pat_completeness auto
termination
  by (relation "measure (\<lambda>(x, hs). length hs)") auto

declare merkle_loop.simps [simp del]

definition build_merkle_root :: "ext \<Rightarrow> string list \<Rightarrow> string" where
  "build_merkle_root x leaves =
     (if leaves = [] then ''empty''
      else if length leaves = 1 then leaves ! 0
      else merkle_loop x (map (\<lambda>leaf. sha_hex x (str_bytes leaf)) leaves) ! 0)"

definition new_tree :: "ext \<Rightarrow> string list \<Rightarrow> MerkleTree" where
  "new_tree x leaves = \<lparr> mt_root = build_merkle_root x leaves, mt_leaves = leaves,
     mt_leaf_count = length leaves \<rparr>"

definition event_leaf :: "ext \<Rightarrow> EventRow \<Rightarrow> string" where
  "event_leaf x e =
     build_leaf x (er_sequence e) (er_event_id e) (er_parent_event_id e) (er_file_hash e)"

definition recompute_root_from_events :: "ext \<Rightarrow> EventRow list \<Rightarrow> string" where
  "recompute_root_from_events x events = build_merkle_root x (map (event_leaf x) events)"

section \<open>Shape of the loop\<close>

lemma merkle_loop_short [simp]: "length hs \<le> 1 \<Longrightarrow> merkle_loop x hs = hs"
  by (subst merkle_loop.simps) simp

lemma merkle_loop_step: "length hs > 1 \<Longrightarrow> merkle_loop x hs = merkle_loop x (next_level x hs)"
  by (subst merkle_loop.simps) simp

lemma merkle_loop_single: "hs \<noteq> [] \<Longrightarrow> length (merkle_loop x hs) = 1"
proof (induction x hs rule: merkle_loop.induct)
  case (1 x hs)
  show ?case
  proof (cases "length hs > 1")
    case True
    then have "next_level x hs \<noteq> []" by (simp flip: length_0_conv)
    with 1 True show ?thesis by (simp add: merkle_loop_step)
  next
    case False
    with 1 show ?thesis by (cases hs) simp_all
  qed
qed

abbreviation all64 :: "string list \<Rightarrow> bool" where
  "all64 hs \<equiv> (\<forall>h\<in>set hs. length h = 64)"

lemma next_level_all64: "sha_ok x \<Longrightarrow> hex_ok x \<Longrightarrow> all64 (next_level x hs)"
  by (induction x hs rule: next_level.induct) (simp_all add: length_sha_hex)

lemma merkle_loop_all64:
  "sha_ok x \<Longrightarrow> hex_ok x \<Longrightarrow> all64 hs \<Longrightarrow> all64 (merkle_loop x hs)"
proof (induction x hs rule: merkle_loop.induct)
  case (1 x hs)
  then show ?case
    by (cases "length hs > 1") (simp_all add: merkle_loop_step next_level_all64)
qed

lemma length_root:
  assumes "sha_ok x" "hex_ok x" "all64 ls" "ls \<noteq> []"
  shows "length (build_merkle_root x ls) = 64"
proof (cases "length ls = 1")
  case True
  with assms show ?thesis by (auto simp: build_merkle_root_def length_Suc_conv)
next
  case False
  let ?hs = "map (\<lambda>l. sha_hex x (str_bytes l)) ls"
  have "all64 (merkle_loop x ?hs)"
    using assms by (intro merkle_loop_all64) (auto simp: length_sha_hex)
  moreover have "length (merkle_loop x ?hs) = 1"
    using assms by (intro merkle_loop_single) simp
  ultimately show ?thesis
    using False assms by (simp add: build_merkle_root_def)
qed

lemma event_leaf_64 [simp]: "sha_ok x \<Longrightarrow> hex_ok x \<Longrightarrow> length (event_leaf x e) = 64"
  by (simp add: event_leaf_def build_leaf_def length_sha_hex)

lemma length_event_root:
  "sha_ok x \<Longrightarrow> hex_ok x \<Longrightarrow> es \<noteq> [] \<Longrightarrow> length (recompute_root_from_events x es) = 64"
  by (simp add: recompute_root_from_events_def length_root)

section \<open>The inputs of a root computation\<close>

text \<open>
  Every byte string that is hashed while a root is computed.  Collision statements speak about
  these lists, so that a collision they report is one that the two computations expose.
\<close>

fun level_inputs :: "string list \<Rightarrow> byte list list" where
  "level_inputs [] = []"
| "level_inputs [left] = [str_bytes left @ str_bytes left]"
| "level_inputs (left # right # rest) = (str_bytes left @ str_bytes right) # level_inputs rest"

function loop_inputs :: "ext \<Rightarrow> string list \<Rightarrow> byte list list" where
  "loop_inputs x hs =
     (if length hs > 1 then level_inputs hs @ loop_inputs x (next_level x hs) else [])"
  by pat_completeness auto
termination
  by (relation "measure (\<lambda>(x, hs). length hs)") auto

declare loop_inputs.simps [simp del]

definition root_inputs :: "ext \<Rightarrow> string list \<Rightarrow> byte list list" where
  "root_inputs x ls =
     (if length ls \<le> 1 then []
      else map str_bytes ls @ loop_inputs x (map (\<lambda>l. sha_hex x (str_bytes l)) ls))"

definition event_bytes :: "ext \<Rightarrow> EventRow \<Rightarrow> byte list" where
  "event_bytes x e =
     leaf_bytes x (er_sequence e) (er_event_id e) (er_parent_event_id e) (er_file_hash e)"

definition event_inputs :: "ext \<Rightarrow> EventRow list \<Rightarrow> byte list list" where
  "event_inputs x es = map (event_bytes x) es @ root_inputs x (map (event_leaf x) es)"

text \<open>Two different inputs, one from either computation, with the same SHA-256 digest.\<close>

definition collision :: "ext \<Rightarrow> byte list list \<Rightarrow> bool" where
  "collision x ins \<longleftrightarrow> list_ex (\<lambda>a. list_ex (\<lambda>b. a \<noteq> b \<and> x_sha256 x a = x_sha256 x b) ins) ins"

text \<open>No collision among a set of inputs, as the proofs use it.\<close>

definition inj_hash :: "ext \<Rightarrow> byte list set \<Rightarrow> bool" where
  "inj_hash x S \<longleftrightarrow> (\<forall>a\<in>S. \<forall>b\<in>S. sha_hex x a = sha_hex x b \<longrightarrow> a = b)"

lemma inj_hashD: "inj_hash x S \<Longrightarrow> sha_hex x a = sha_hex x b \<Longrightarrow> a \<in> S \<Longrightarrow> b \<in> S \<Longrightarrow> a = b"
  by (simp add: inj_hash_def)

lemma no_collision_inj: "hex_ok x \<Longrightarrow> \<not> collision x ins \<Longrightarrow> inj_hash x (set ins)"
  by (auto simp: inj_hash_def collision_def list_ex_iff sha_hex_def hex_encode_inj)

lemma no_collisionD:
  assumes "hex_ok x" "\<not> collision x ins" "a \<in> set ins" "b \<in> set ins"
    and "sha_hex x a = sha_hex x b"
  shows "a = b"
  using assms by (auto simp: collision_def list_ex_iff sha_hex_def hex_encode_inj)

lemma collision_mono: "collision x ins \<Longrightarrow> set ins \<subseteq> set ins' \<Longrightarrow> collision x ins'"
  unfolding collision_def list_ex_iff by blast

section \<open>Levels\<close>

text \<open>\<open>level_hash x L S k s\<close>: \<open>s\<close> is a node of height \<open>k\<close> over leaves in \<open>L\<close>, hashed from inputs in \<open>S\<close>.\<close>

inductive level_hash :: "ext \<Rightarrow> string set \<Rightarrow> byte list set \<Rightarrow> nat \<Rightarrow> string \<Rightarrow> bool"
  for x L S where
  leaf: "l \<in> L \<Longrightarrow> str_bytes l \<in> S \<Longrightarrow> level_hash x L S 0 (sha_hex x (str_bytes l))"
| node: "level_hash x L S k u \<Longrightarrow> level_hash x L S k v \<Longrightarrow> str_bytes u @ str_bytes v \<in> S \<Longrightarrow>
     level_hash x L S (Suc k) (sha_hex x (str_bytes u @ str_bytes v))"

inductive_cases level_hash_0E: "level_hash x L S 0 s"
inductive_cases level_hash_SucE: "level_hash x L S (Suc k) s"

lemma level_hash_64: "level_hash x L S k s \<Longrightarrow> sha_ok x \<Longrightarrow> hex_ok x \<Longrightarrow> length s = 64"
  by (induction rule: level_hash.induct) (simp_all add: length_sha_hex)

lemma level_hash_unique:
  assumes ok: "sha_ok x" "hex_ok x" and L: "\<forall>l\<in>L. length l = 64"
    and inj: "inj_hash x S"
  shows "level_hash x L S j s \<Longrightarrow> level_hash x L S k s \<Longrightarrow> j = k"
proof (induction arbitrary: k rule: level_hash.induct)
  case (leaf l)
  show ?case
  proof (cases k)
    case (Suc m)
    with leaf.prems obtain u v where u: "level_hash x L S m u" and v: "level_hash x L S m v"
      and S: "str_bytes u @ str_bytes v \<in> S"
      and eq: "sha_hex x (str_bytes l) = sha_hex x (str_bytes u @ str_bytes v)"
      by (auto elim: level_hash_SucE)
    from inj_hashD [OF inj eq leaf.hyps(2) S] have "length (str_bytes l) = length (str_bytes u @ str_bytes v)"
      by simp
    with leaf.hyps(1) L level_hash_64 [OF u ok] level_hash_64 [OF v ok] show ?thesis by simp
  qed simp
next
  case (node j u v)
  show ?case
  proof (cases k)
    case 0
    with node.prems obtain l where l: "l \<in> L" "str_bytes l \<in> S"
      and eq: "sha_hex x (str_bytes u @ str_bytes v) = sha_hex x (str_bytes l)"
      by (auto elim: level_hash_0E)
    from inj_hashD [OF inj eq node.hyps(3) l(2)] have "length (str_bytes u @ str_bytes v) = length (str_bytes l)"
      by simp
    with l L level_hash_64 [OF node.hyps(1) ok] level_hash_64 [OF node.hyps(2) ok] show ?thesis
      by simp
  next
    case (Suc m)
    with node.prems obtain u' v' where u': "level_hash x L S m u'"
      and S: "str_bytes u' @ str_bytes v' \<in> S"
      and eq: "sha_hex x (str_bytes u @ str_bytes v) = sha_hex x (str_bytes u' @ str_bytes v')"
      by (auto elim: level_hash_SucE)
    from inj_hashD [OF inj eq node.hyps(3) S] level_hash_64 [OF node.hyps(1) ok] level_hash_64 [OF u' ok]
    have "u = u'" by simp
    with node.IH(1) u' Suc show ?thesis by simp
  qed
qed

fun height :: "nat \<Rightarrow> nat" where
  "height n = (if n \<le> 1 then 0 else Suc (height ((n + 1) div 2)))"

declare height.simps [simp del]

lemma height_0_iff: "height n = 0 \<longleftrightarrow> n \<le> 1"
  by (subst height.simps) simp

lemma height_Suc: "n > 1 \<Longrightarrow> height n = Suc (height ((n + 1) div 2))"
  by (subst height.simps) simp

lemma next_level_level_hash:
  "\<forall>h\<in>set hs. level_hash x L S k h \<Longrightarrow> set (level_inputs hs) \<subseteq> S \<Longrightarrow>
   \<forall>h\<in>set (next_level x hs). level_hash x L S (Suc k) h"
  by (induction x hs rule: next_level.induct) (auto intro: level_hash.node)

lemma loop_level_hash:
  "\<forall>h\<in>set hs. level_hash x L S k h \<Longrightarrow> hs \<noteq> [] \<Longrightarrow> set (loop_inputs x hs) \<subseteq> S \<Longrightarrow>
   level_hash x L S (k + height (length hs)) (merkle_loop x hs ! 0)"
proof (induction x hs arbitrary: k rule: merkle_loop.induct)
  case (1 x hs)
  show ?case
  proof (cases "length hs > 1")
    case True
    have sub: "set (level_inputs hs) \<subseteq> S" "set (loop_inputs x (next_level x hs)) \<subseteq> S"
      using "1.prems"(3) True by (simp_all add: loop_inputs.simps [of x hs])
    have "next_level x hs \<noteq> []" using True by (simp flip: length_0_conv)
    with "1.IH" [OF True next_level_level_hash [OF "1.prems"(1) sub(1)]] sub(2)
    show ?thesis
      using True by (simp add: merkle_loop_step height_Suc)
  next
    case False
    with "1.prems"(1,2) show ?thesis
      by (cases hs) (simp_all add: height_0_iff [THEN iffD2])
  qed
qed

section \<open>A level determines the level below it\<close>

lemma next_level_prefix:
  "inj_hash x S \<Longrightarrow> all64 as \<Longrightarrow> all64 bs \<Longrightarrow> set (level_inputs as) \<subseteq> S \<Longrightarrow> set (level_inputs bs) \<subseteq> S \<Longrightarrow>
     prefix (next_level x as) (next_level x bs) \<Longrightarrow> prefix as bs \<or> prefix bs as"
proof (induction x as arbitrary: bs rule: next_level.induct)
  case (1 x)
  then show ?case by simp
next
  case (2 x l)
  show ?case
  proof (cases bs rule: level_inputs.cases)
    case (2 m)
    with "2.prems"(6) have eq: "sha_hex x (str_bytes l @ str_bytes l) = sha_hex x (str_bytes m @ str_bytes m)"
      by simp
    have "str_bytes l @ str_bytes l = str_bytes m @ str_bytes m"
      by (rule inj_hashD [OF "2.prems"(1) eq]) (use "2.prems" 2 in simp_all)
    with "2.prems" 2 show ?thesis by simp
  next
    case (3 m n bs')
    with "2.prems"(6) have eq: "sha_hex x (str_bytes l @ str_bytes l) = sha_hex x (str_bytes m @ str_bytes n)"
      by simp
    have "str_bytes l @ str_bytes l = str_bytes m @ str_bytes n"
      by (rule inj_hashD [OF "2.prems"(1) eq]) (use "2.prems" 3 in simp_all)
    with "2.prems" 3 show ?thesis by simp
  qed simp
next
  case (3 x l r as)
  show ?case
  proof (cases bs rule: level_inputs.cases)
    case 1
    with "3.prems" show ?thesis by simp
  next
    case (2 m)
    with "3.prems"(6) have eq: "sha_hex x (str_bytes l @ str_bytes r) = sha_hex x (str_bytes m @ str_bytes m)"
      and "next_level x as = []" by simp_all
    then have "as = []" by (cases as rule: level_inputs.cases) simp_all
    moreover have "str_bytes l @ str_bytes r = str_bytes m @ str_bytes m"
      by (rule inj_hashD [OF "3.prems"(1) eq]) (use "3.prems" 2 in simp_all)
    ultimately show ?thesis using "3.prems" 2 by simp
  next
    case (3 m n bs')
    with "3.prems"(6) have eq: "sha_hex x (str_bytes l @ str_bytes r) = sha_hex x (str_bytes m @ str_bytes n)"
      and pre: "prefix (next_level x as) (next_level x bs')" by simp_all
    have "str_bytes l @ str_bytes r = str_bytes m @ str_bytes n"
      by (rule inj_hashD [OF "3.prems"(1) eq]) (use "3.prems" 3 in simp_all)
    with "3.prems" 3 have "l = m" "r = n" by simp_all
    moreover have "prefix as bs' \<or> prefix bs' as"
      by (rule "3.IH" [OF "3.prems"(1) _ _ _ _ pre]) (use "3.prems" 3 in simp_all)
    ultimately show ?thesis using 3 by simp
  qed
qed

lemma next_level_elem:
  "h \<in> set (next_level x bs) \<Longrightarrow>
   \<exists>u\<in>set bs. \<exists>v\<in>set bs. h = sha_hex x (str_bytes u @ str_bytes v) \<and>
     str_bytes u @ str_bytes v \<in> set (level_inputs bs)"
  by (induction x bs rule: next_level.induct) auto

lemma next_level_covers:
  "a \<in> set as \<Longrightarrow>
   \<exists>u\<in>set as. \<exists>v\<in>set as. (a = u \<or> a = v) \<and>
     sha_hex x (str_bytes u @ str_bytes v) \<in> set (next_level x as) \<and>
     str_bytes u @ str_bytes v \<in> set (level_inputs as)"
  by (induction x as rule: next_level.induct) auto

lemma next_level_subset:
  assumes inj: "inj_hash x S"
    and len: "all64 as" "all64 bs"
    and ins: "set (level_inputs as) \<subseteq> S" "set (level_inputs bs) \<subseteq> S"
    and sub: "set (next_level x as) \<subseteq> set (next_level x bs)"
  shows "set as \<subseteq> set bs"
proof
  fix a assume "a \<in> set as"
  from next_level_covers [OF this, of x] obtain u v where uv: "u \<in> set as" "v \<in> set as" "a = u \<or> a = v"
    "sha_hex x (str_bytes u @ str_bytes v) \<in> set (next_level x as)"
    "str_bytes u @ str_bytes v \<in> set (level_inputs as)" by blast
  with sub have "sha_hex x (str_bytes u @ str_bytes v) \<in> set (next_level x bs)" by blast
  from next_level_elem [OF this] obtain u' v' where uv': "u' \<in> set bs" "v' \<in> set bs"
    "sha_hex x (str_bytes u @ str_bytes v) = sha_hex x (str_bytes u' @ str_bytes v')"
    "str_bytes u' @ str_bytes v' \<in> set (level_inputs bs)" by blast
  from inj_hashD [OF inj uv'(3)] uv uv' ins have "str_bytes u @ str_bytes v = str_bytes u' @ str_bytes v'"
    by blast
  with len uv uv' show "a \<in> set bs" by auto
qed

lemma prefix_same_length: "prefix xs ys \<Longrightarrow> length xs = length ys \<Longrightarrow> xs = ys"
  by (auto simp: prefix_def)

lemma merkle_loop_binding:
  assumes ok: "sha_ok x" "hex_ok x"
  shows "inj_hash x S \<Longrightarrow> all64 as \<Longrightarrow> all64 bs \<Longrightarrow> as \<noteq> [] \<Longrightarrow> bs \<noteq> [] \<Longrightarrow>
     height (length as) = height (length bs) \<Longrightarrow>
     set (loop_inputs x as) \<subseteq> S \<Longrightarrow> set (loop_inputs x bs) \<subseteq> S \<Longrightarrow>
     merkle_loop x as ! 0 = merkle_loop x bs ! 0 \<Longrightarrow>
     set as = set bs \<and> (prefix as bs \<or> prefix bs as)"
proof (induction as arbitrary: bs rule: measure_induct_rule [where f = length])
  case (less as)
  show ?case
  proof (cases "length as > 1")
    case False
    with less.prems(6) have "length bs \<le> 1" by (metis height_0_iff not_less)
    with less.prems(5) obtain b where b: "bs = [b]" by (cases bs) auto
    from False less.prems(4) obtain a where a: "as = [a]" by (cases as) auto
    from less.prems(9) have "a = b" by (simp add: a b)
    then show ?thesis by (simp add: a b)
  next
    case True
    with less.prems(6) have len: "length bs > 1" by (metis height_0_iff not_less)
    have ins: "set (level_inputs as) \<subseteq> S" "set (loop_inputs x (next_level x as)) \<subseteq> S"
      "set (level_inputs bs) \<subseteq> S" "set (loop_inputs x (next_level x bs)) \<subseteq> S"
      using less.prems(7,8) True len
      by (simp_all add: loop_inputs.simps [of x as] loop_inputs.simps [of x bs])
    have shorter: "length (next_level x as) < length as" using True by simp
    have "next_level x as \<noteq> []" "next_level x bs \<noteq> []"
      using True len by (simp_all flip: length_0_conv)
    moreover have "height (length (next_level x as)) = height (length (next_level x bs))"
    proof -
      have "height (length as) = Suc (height (length (next_level x as)))"
        using True by (simp add: height_Suc)
      moreover have "height (length bs) = Suc (height (length (next_level x bs)))"
        using len by (simp add: height_Suc)
      ultimately show ?thesis using less.prems(6) by simp
    qed
    moreover have "merkle_loop x (next_level x as) ! 0 = merkle_loop x (next_level x bs) ! 0"
      using less.prems(9) True len by (simp add: merkle_loop_step)
    ultimately have IH: "set (next_level x as) = set (next_level x bs)"
        "prefix (next_level x as) (next_level x bs) \<or> prefix (next_level x bs) (next_level x as)"
      using less.IH [OF shorter less.prems(1) next_level_all64 [OF ok] next_level_all64 [OF ok] _ _ _ ins(2) ins(4)]
      by simp_all
    note inj = less.prems(1) and len64 = less.prems(2,3)
    have "set as \<subseteq> set bs"
      by (rule next_level_subset [OF inj len64 ins(1) ins(3)]) (use IH(1) in simp_all)
    moreover have "set bs \<subseteq> set as"
      by (rule next_level_subset [OF inj len64(2,1) ins(3) ins(1)]) (use IH(1) in simp_all)
    moreover have "prefix as bs \<or> prefix bs as"
      using IH(2)
    proof
      assume "prefix (next_level x as) (next_level x bs)"
      from next_level_prefix [OF inj len64 ins(1) ins(3) this] show ?thesis by blast
    next
      assume "prefix (next_level x bs) (next_level x as)"
      from next_level_prefix [OF inj len64(2,1) ins(3) ins(1) this] show ?thesis by blast
    qed
    ultimately show ?thesis by blast
  qed
qed

text \<open>
  The root of two or more leaves binds them: two duplicate-free leaf lists with the same root are
  equal unless their computations expose a collision.  (Without the side condition the statement
  is false: an odd level repeats its last node, so \<open>[a, b, c]\<close> and \<open>[a, b, c, c]\<close> share a root.)
\<close>

lemma root_binding:
  assumes ok: "sha_ok x" "hex_ok x"
    and len: "all64 ls" "all64 ms" "length ls > 1" "length ms > 1" and dist: "distinct ls" "distinct ms"
    and eq: "build_merkle_root x ls = build_merkle_root x ms"
    and nocoll: "\<not> collision x (root_inputs x ls @ root_inputs x ms)"
  shows "ls = ms"
proof -
  define S where "S = set (root_inputs x ls @ root_inputs x ms)"
  define H where "H = (\<lambda>l. sha_hex x (str_bytes l))"
  have inj: "inj_hash x S"
    unfolding S_def by (rule no_collision_inj [OF ok(2) nocoll])
  have ins: "set (map str_bytes ls) \<subseteq> S" "set (map str_bytes ms) \<subseteq> S"
    "set (loop_inputs x (map H ls)) \<subseteq> S" "set (loop_inputs x (map H ms)) \<subseteq> S"
    using len(3,4) by (auto simp: S_def H_def root_inputs_def)
  have lne: "ls \<noteq> []" "ms \<noteq> []" using len(3,4) by auto
  have root: "merkle_loop x (map H ls) ! 0 = merkle_loop x (map H ms) ! 0"
    using eq len(3,4) lne by (simp add: build_merkle_root_def H_def)
  let ?L = "set ls \<union> set ms"
  have lv: "\<forall>h\<in>set (map H ls). level_hash x ?L S 0 h" "\<forall>h\<in>set (map H ms). level_hash x ?L S 0 h"
    using ins(1,2) by (auto simp: H_def intro!: level_hash.leaf)
  have ne: "map H ls \<noteq> []" "map H ms \<noteq> []" using lne by simp_all
  have L64: "\<forall>l\<in>?L. length l = 64" using len(1,2) by auto
  have "level_hash x ?L S (0 + height (length (map H ms))) (merkle_loop x (map H ls) ! 0)"
    unfolding root by (rule loop_level_hash [OF lv(2) ne(2) ins(4)])
  from level_hash_unique [OF ok L64 inj loop_level_hash [OF lv(1) ne(1) ins(3)] this]
  have hts: "height (length (map H ls)) = height (length (map H ms))" by simp
  have "all64 (map H ls)" "all64 (map H ms)" by (simp_all add: H_def length_sha_hex ok)
  from merkle_loop_binding [OF ok inj this ne hts ins(3,4) root] have same: "set (map H ls) = set (map H ms)"
      "prefix (map H ls) (map H ms) \<or> prefix (map H ms) (map H ls)"
    by blast+
  have injH: "inj_on H ?L"
  proof (rule inj_onI)
    fix a b assume ab: "a \<in> ?L" "b \<in> ?L" and "H a = H b"
    then have "sha_hex x (str_bytes a) = sha_hex x (str_bytes b)" by (simp add: H_def)
    moreover have "str_bytes a \<in> S" "str_bytes b \<in> S" using ab ins(1,2) by auto
    ultimately have "str_bytes a = str_bytes b" by (rule inj_hashD [OF inj])
    then show "a = b" by simp
  qed
  then have "distinct (map H ls)" "distinct (map H ms)"
    using dist by (auto simp: distinct_map inj_on_def)
  then have "length (map H ls) = length (map H ms)"
    using same(1) distinct_card by metis
  with same(2) have "map H ls = map H ms"
    by (metis prefix_same_length)
  with injH show "ls = ms"
    using inj_on_map_eq_map by blast
qed

end
