(* ===== verification/Verification.thy ===== *)
theory Verification
  imports Merkle
begin

text \<open>
  The pure part of \<open>src/service/verification.rs\<close>: \<open>check_event_structure\<close>.  The lemmas give its
  meaning without the loop (the shape of a chain, and which index and which check is reported
  first), and show that the root of a list that passes the check determines the list.
\<close>

section \<open>Model\<close>

datatype StructuralFailure = ParentChain nat | Sequence nat | EmptyMerkle

text \<open>The \<open>else\<close> branch of the loop over the events after the first one.\<close>

fun check_rest :: "nat \<Rightarrow> EventRow \<Rightarrow> EventRow list \<Rightarrow> StructuralFailure option" where
  "check_rest i prev [] = None"
| "check_rest i prev (event # events) =
     (if er_sequence event \<noteq> er_sequence prev + 1 then Some (Sequence i)
      else if er_parent_event_id event \<noteq> er_event_id prev then Some (ParentChain i)
      else check_rest (Suc i) event events)"

definition check_loop :: "EventRow list \<Rightarrow> StructuralFailure option" where
  "check_loop events = (case events of
     [] \<Rightarrow> None
   | event # rest \<Rightarrow>
       if er_parent_event_id event \<noteq> uuid_nil then Some (ParentChain 0)
       else if er_sequence event \<noteq> 1 then Some (Sequence 0)
       else check_rest 1 event rest)"

definition check_event_structure :: "ext \<Rightarrow> EventRow list \<Rightarrow> StructuralFailure + string" where
  "check_event_structure x events =
     (if events = [] then Inr ''empty''
      else case check_loop events of
        Some failure \<Rightarrow> Inl failure
      | None \<Rightarrow>
          let merkle_root = recompute_root_from_events x events in
          if merkle_root = [] then Inl EmptyMerkle else Inr merkle_root)"

section \<open>Specification\<close>

text \<open>The shape the check is about: sequences \<open>1, 2, ...\<close>, each parent the event before.\<close>

definition link_ok :: "EventRow list \<Rightarrow> nat \<Rightarrow> bool" where
  "link_ok es i \<longleftrightarrow>
     er_sequence (es ! i) = (if i = 0 then 1 else er_sequence (es ! (i - 1)) + 1) \<and>
     er_parent_event_id (es ! i) = (if i = 0 then uuid_nil else er_event_id (es ! (i - 1)))"

definition chain_shape :: "EventRow list \<Rightarrow> bool" where
  "chain_shape es \<longleftrightarrow> list_all (link_ok es) [0..<length es]"

text \<open>What is reported at the first bad index: the first event's parent is looked at before its
  sequence, for every later event it is the other way round.\<close>

definition failure_at :: "EventRow list \<Rightarrow> nat \<Rightarrow> StructuralFailure" where
  "failure_at es i =
     (if i = 0 then (if er_parent_event_id (es ! 0) \<noteq> uuid_nil then ParentChain 0 else Sequence 0)
      else if er_sequence (es ! i) \<noteq> er_sequence (es ! (i - 1)) + 1 then Sequence i else ParentChain i)"

lemma chain_shape_alt: "chain_shape es \<longleftrightarrow> (\<forall>i<length es. link_ok es i)"
  by (auto simp: chain_shape_def list_all_iff)

lemma chain_shape_Nil [simp]: "chain_shape []"
  by (simp add: chain_shape_alt)

lemma link_ok_append: "i < length es \<Longrightarrow> link_ok (es @ fs) i = link_ok es i"
  by (cases i) (simp_all add: link_ok_def nth_append)

lemma chain_shape_snoc:
  "chain_shape (es @ [e]) \<longleftrightarrow> chain_shape es \<and> link_ok (es @ [e]) (length es)"
  by (auto simp: chain_shape_alt less_Suc_eq link_ok_append)

lemma chain_shape_take: "chain_shape es \<Longrightarrow> chain_shape (take n es)"
  by (auto simp: chain_shape_alt link_ok_def)

lemma chain_shape_sequence:
  "chain_shape es \<Longrightarrow> i < length es \<Longrightarrow> er_sequence (es ! i) = of_nat (Suc i)"
proof (induction i)
  case 0
  then have "link_ok es 0" by (auto simp: chain_shape_alt)
  then show ?case by (simp add: link_ok_def)
next
  case (Suc i)
  then have "link_ok es (Suc i)" by (auto simp: chain_shape_alt)
  with Suc show ?case by (simp add: link_ok_def)
qed

lemma check_rest_spec:
  "check_rest (length pre + 1) p es =
     map_option (failure_at (pre @ p # es))
       (find (\<lambda>i. \<not> link_ok (pre @ p # es) i) [length pre + 1..<length pre + 1 + length es])"
proof (induction es arbitrary: pre p)
  case Nil
  then show ?case by simp
next
  case (Cons e es)
  let ?all = "pre @ p # e # es" and ?n = "length pre + 1"
  have up: "[?n..<?n + length (e # es)] = ?n # [Suc ?n..<Suc ?n + length es]"
    by (simp add: upt_conv_Cons del: upt_Suc)
  have at: "?all ! ?n = e" "?all ! (?n - 1) = p"
    by (simp_all add: nth_append)
  have link: "link_ok ?all ?n \<longleftrightarrow>
      er_sequence e = er_sequence p + 1 \<and> er_parent_event_id e = er_event_id p"
    using at by (simp add: link_ok_def)
  have IH: "check_rest (Suc ?n) e es =
     map_option (failure_at ?all) (find (\<lambda>i. \<not> link_ok ?all i) [Suc ?n..<Suc ?n + length es])"
    using Cons.IH [of "pre @ [p]" e] by (simp del: upt_Suc)
  show ?case
  proof (cases "link_ok ?all ?n")
    case True
    with link IH up show ?thesis by (simp del: upt_Suc)
  next
    case False
    then have "find (\<lambda>i. \<not> link_ok ?all i) [?n..<?n + length (e # es)] = Some ?n"
      by (subst up) simp
    moreover have "check_rest ?n p (e # es) = Some (failure_at ?all ?n)"
      using False link at by (auto simp: failure_at_def)
    ultimately show ?thesis by simp
  qed
qed

lemma check_loop_spec:
  "check_loop es = map_option (failure_at es) (find (\<lambda>i. \<not> link_ok es i) [0..<length es])"
proof (cases es)
  case Nil
  then show ?thesis by (simp add: check_loop_def)
next
  case (Cons e rest)
  have up: "[0..<length es] = 0 # [1..<1 + length rest]"
    by (simp add: Cons upt_conv_Cons del: upt_Suc)
  show ?thesis
  proof (cases "link_ok es 0")
    case True
    with Cons have "check_loop es = check_rest 1 e rest"
      by (simp add: check_loop_def link_ok_def)
    with check_rest_spec [of "[]" e rest] True Cons up show ?thesis by (simp del: upt_Suc)
  next
    case False
    then have "find (\<lambda>i. \<not> link_ok es i) [0..<length es] = Some 0" by (simp add: up del: upt_Suc)
    with False Cons show ?thesis
      by (auto simp: check_loop_def link_ok_def failure_at_def)
  qed
qed

lemma find_upt_Some:
  "find P [0..<n] = Some i \<longleftrightarrow> i < n \<and> P i \<and> (\<forall>j<i. \<not> P j)"
  by (auto simp: find_Some_iff)

lemma find_upt_None: "find P [0..<n] = None \<longleftrightarrow> (\<forall>i<n. \<not> P i)"
  by (auto simp: find_None_iff)

lemma check_loop_Some:
  "check_loop es = Some f \<longleftrightarrow>
     (\<exists>i<length es. (\<forall>j<i. link_ok es j) \<and> \<not> link_ok es i \<and> f = failure_at es i)"
proof -
  have "check_loop es = Some f \<longleftrightarrow>
      (\<exists>i. find (\<lambda>i. \<not> link_ok es i) [0..<length es] = Some i \<and> f = failure_at es i)"
    by (auto simp: check_loop_spec)
  then show ?thesis by (auto simp: find_upt_Some)
qed

lemma check_loop_None: "check_loop es = None \<longleftrightarrow> chain_shape es"
proof -
  have "check_loop es = None \<longleftrightarrow> find (\<lambda>i. \<not> link_ok es i) [0..<length es] = None"
    by (simp add: check_loop_spec)
  then show ?thesis by (simp add: find_upt_None chain_shape_alt)
qed

lemma event_root_nonempty:
  "sha_ok x \<Longrightarrow> hex_ok x \<Longrightarrow> es \<noteq> [] \<Longrightarrow> recompute_root_from_events x es \<noteq> []"
  using length_event_root [of x es] by auto

lemma check_structure_Inr [res_iff]:
  assumes "sha_ok x" "hex_ok x"
  shows "check_event_structure x es = Inr root \<longleftrightarrow>
     chain_shape es \<and> root = recompute_root_from_events x es"
proof (cases "es = []")
  case True
  then show ?thesis
    by (auto simp: check_event_structure_def recompute_root_from_events_def build_merkle_root_def)
next
  case False
  with assms check_loop_None [of es] show ?thesis
    by (auto simp: check_event_structure_def event_root_nonempty Let_def split: option.splits)
qed

lemma check_structure_Inl:
  assumes "sha_ok x" "hex_ok x"
  shows "check_event_structure x es = Inl f \<longleftrightarrow> check_loop es = Some f"
proof (cases "es = []")
  case True
  then show ?thesis by (simp add: check_event_structure_def check_loop_def)
next
  case False
  with assms show ?thesis
    by (simp add: check_event_structure_def event_root_nonempty Let_def split: option.splits)
qed

section \<open>The root determines the events\<close>

text \<open>The part of an event the leaf commits to.\<close>

definition event_core :: "EventRow \<Rightarrow> i64 \<times> uuid \<times> uuid \<times> string" where
  "event_core e = (er_sequence e, er_event_id e, er_parent_event_id e, er_file_hash e)"

lemma event_bytes_inj:
  assumes "uuid_ok x"
  shows "event_bytes x e = event_bytes x f \<longleftrightarrow> event_core e = event_core f"
proof -
  have len: "length (x_uuid_bytes x u) = 16" for u using assms by (simp add: uuid_ok_def)
  show ?thesis
    by (auto simp: event_bytes_def leaf_bytes_def event_core_def len uuid_bytes_inj [OF assms])
qed

lemma event_leaf_eq: "event_leaf x e = sha_hex x (event_bytes x e)"
  by (simp add: event_leaf_def build_leaf_def event_bytes_def)

lemma chain_shape_distinct_core:
  assumes "chain_shape es" "length es < 2 ^ 64"
  shows "distinct (map event_core es)"
proof -
  have "event_core (es ! i) \<noteq> event_core (es ! j)" if ij: "i < length es" "j < length es" "i \<noteq> j" for i j
  proof
    assume "event_core (es ! i) = event_core (es ! j)"
    then have "(of_nat (Suc i) :: i64) = of_nat (Suc j)"
      using chain_shape_sequence [OF assms(1)] ij by (simp add: event_core_def)
    then have "Suc i mod 2 ^ 64 = Suc j mod 2 ^ 64"
      by (simp only: of_nat_eq_iff word_of_nat_eq_iff take_bit_eq_mod) simp
    moreover have "Suc i \<le> 2 ^ 64" "Suc j \<le> 2 ^ 64" using ij assms(2) by simp_all
    ultimately show False using ij(3) by (cases "Suc i = 2 ^ 64"; cases "Suc j = 2 ^ 64") auto
  qed
  then show ?thesis by (simp add: distinct_conv_nth)
qed

lemma single_root [simp]: "recompute_root_from_events x [e] = event_leaf x e"
  by (simp add: recompute_root_from_events_def build_merkle_root_def)

lemma next_level_origin:
  "h \<in> set (next_level x hs) \<Longrightarrow> \<forall>u\<in>set hs. list_all is_lower_hex u \<and> u \<noteq> [] \<Longrightarrow>
   \<exists>u. u \<noteq> [] \<and> list_all is_lower_hex u \<and>
     (\<exists>v. h = sha_hex x (str_bytes u @ str_bytes v) \<and> str_bytes u @ str_bytes v \<in> set (level_inputs hs))"
  by (blast dest: next_level_elem)

lemma next_level_hex:
  assumes "sha_ok x" "hex_ok x"
  shows "\<forall>u\<in>set (next_level x hs). list_all is_lower_hex u \<and> u \<noteq> []"
proof
  fix u assume "u \<in> set (next_level x hs)"
  from next_level_elem [OF this] obtain m where "u = sha_hex x m" by blast
  then show "list_all is_lower_hex u \<and> u \<noteq> []"
    using sha_hex_lower [OF assms(2), of m] length_sha_hex [OF assms, of m] by auto
qed

lemma loop_origin:
  assumes ok: "sha_ok x" "hex_ok x"
  shows "length hs > 1 \<Longrightarrow> \<forall>u\<in>set hs. list_all is_lower_hex u \<and> u \<noteq> [] \<Longrightarrow>
    \<exists>u v. u \<noteq> [] \<and> list_all is_lower_hex u \<and> merkle_loop x hs ! 0 = sha_hex x (str_bytes u @ str_bytes v) \<and>
      str_bytes u @ str_bytes v \<in> set (loop_inputs x hs)"
proof (induction hs rule: measure_induct_rule [where f = length])
  case (less hs)
  let ?n = "next_level x hs"
  have inputs: "loop_inputs x hs = level_inputs hs @ loop_inputs x ?n"
    using less.prems(1) by (simp add: loop_inputs.simps [of x hs])
  have loop: "merkle_loop x hs = merkle_loop x ?n"
    using less.prems(1) by (simp add: merkle_loop_step)
  show ?case
  proof (cases "length ?n > 1")
    case True
    have "length ?n < length hs" using less.prems(1) by simp
    from less.IH [OF this True next_level_hex [OF ok]] show ?thesis
      by (auto simp: inputs loop)
  next
    case False
    then have "merkle_loop x ?n = ?n" by simp
    moreover have "?n \<noteq> []" using less.prems(1) by (simp flip: length_0_conv)
    ultimately have "merkle_loop x hs ! 0 \<in> set ?n" by (simp only: loop) (simp del: length_next_level)
    from next_level_origin [OF this less.prems(2)] show ?thesis
      by (auto simp: inputs)
  qed
qed

text \<open>A root of two or more leaves is the digest of a text of hex digits; a leaf of a chain's
  first event is the digest of bytes that begin with zero.\<close>

lemma hex_first_byte: "is_lower_hex c \<Longrightarrow> (of_char c :: byte) \<noteq> 0"
proof
  assume c: "is_lower_hex c" "(of_char c :: byte) = 0"
  have "(of_char (CHR 0x00) :: byte) = 0" by simp
  with c(2) have "c = CHR 0x00" by (metis of_char_byte_inj)
  with c(1) show False by (simp add: is_lower_hex_def)
qed

lemma to_be_bytes_one: "hd (to_be_bytes 1) = 0"
  by (simp add: to_be_bytes_def upt_rec)

lemma single_vs_many:
  assumes ok: "sha_ok x" "hex_ok x" and seq: "er_sequence e = 1" and len: "length ms > 1"
    and eq: "event_leaf x e = recompute_root_from_events x ms"
  shows "collision x (event_inputs x [e] @ event_inputs x ms)"
proof (rule ccontr)
  assume nc: "\<not> collision x (event_inputs x [e] @ event_inputs x ms)"
  let ?ls = "map (event_leaf x) ms"
  let ?hs = "map (\<lambda>l. sha_hex x (str_bytes l)) ?ls"
  have hex: "\<forall>u\<in>set ?hs. list_all is_lower_hex u \<and> u \<noteq> []"
    by (simp add: sha_hex_lower [OF ok(2)] sha_hex_nonempty [OF ok])
  have "length ?hs > 1" using len by simp
  from loop_origin [OF ok this hex] obtain u v where uv: "u \<noteq> []" "list_all is_lower_hex u"
    "merkle_loop x ?hs ! 0 = sha_hex x (str_bytes u @ str_bytes v)"
    "str_bytes u @ str_bytes v \<in> set (loop_inputs x ?hs)" by blast
  have "recompute_root_from_events x ms = merkle_loop x ?hs ! 0"
    using len by (auto simp: recompute_root_from_events_def build_merkle_root_def)
  with eq uv(3) have "sha_hex x (event_bytes x e) = sha_hex x (str_bytes u @ str_bytes v)"
    by (simp add: event_leaf_eq)
  moreover have "event_bytes x e \<in> set (event_inputs x [e] @ event_inputs x ms)"
    by (simp add: event_inputs_def)
  moreover have "str_bytes u @ str_bytes v \<in> set (event_inputs x [e] @ event_inputs x ms)"
    using uv(4) len by (simp add: event_inputs_def root_inputs_def)
  ultimately have "event_bytes x e = str_bytes u @ str_bytes v"
    using no_collisionD [OF ok(2) nc] by blast
  moreover have "hd (event_bytes x e) = 0"
  proof -
    have "to_be_bytes 1 \<noteq> []" using length_to_be_bytes [of 1] by (metis length_0_conv zero_neq_numeral)
    then show ?thesis using to_be_bytes_one by (simp add: event_bytes_def leaf_bytes_def seq)
  qed
  moreover have "hd (str_bytes u @ str_bytes v) = of_char (hd u)"
    using uv(1) by (cases u) (simp_all add: str_bytes_def)
  moreover have "is_lower_hex (hd u)" using uv(1,2) by (cases u) simp_all
  ultimately show False using hex_first_byte by metis
qed

lemma many_binding:
  assumes ok: "sha_ok x" "hex_ok x" "uuid_ok x"
    and d: "distinct (map event_core es)" "distinct (map event_core fs)"
    and len: "length es > 1" "length fs > 1"
    and eq: "recompute_root_from_events x es = recompute_root_from_events x fs"
    and nc: "\<not> collision x (event_inputs x es @ event_inputs x fs)"
  shows "map event_core es = map event_core fs"
proof -
  let ?L = "map (event_leaf x)"
  let ?in = "event_inputs x es @ event_inputs x fs"
  have leaf: "event_core e = event_core f"
    if "e \<in> set es \<union> set fs" "f \<in> set es \<union> set fs" "event_leaf x e = event_leaf x f" for e f
  proof -
    have "event_bytes x e \<in> set ?in" "event_bytes x f \<in> set ?in"
      using that(1,2) by (auto simp: event_inputs_def)
    from no_collisionD [OF ok(2) nc this] that(3) have "event_bytes x e = event_bytes x f"
      by (simp add: event_leaf_eq)
    then show ?thesis by (simp add: event_bytes_inj [OF ok(3)])
  qed
  have dist: "distinct (?L gs)" if "distinct (map event_core gs)" "set gs \<subseteq> set es \<union> set fs" for gs
  proof -
    have "inj_on (event_leaf x) (set gs)"
    proof (rule inj_onI)
      fix e f assume ef: "e \<in> set gs" "f \<in> set gs" "event_leaf x e = event_leaf x f"
      then have "event_core e = event_core f" using leaf that(2) by blast
      with ef that(1) show "e = f" by (simp add: distinct_map inj_on_def)
    qed
    with that(1) show ?thesis by (simp add: distinct_map)
  qed
  have "?L es = ?L fs"
  proof (rule root_binding [OF ok(1,2)])
    show "build_merkle_root x (?L es) = build_merkle_root x (?L fs)"
      using eq by (simp add: recompute_root_from_events_def)
    show "\<not> collision x (root_inputs x (?L es) @ root_inputs x (?L fs))"
    proof
      assume "collision x (root_inputs x (?L es) @ root_inputs x (?L fs))"
      then have "collision x ?in" by (rule collision_mono) (auto simp: event_inputs_def)
      with nc show False ..
    qed
  qed (use len d dist ok in auto)
  then have "length es = length fs" "\<forall>i<length es. event_leaf x (es ! i) = event_leaf x (fs ! i)"
    by (metis length_map, metis (no_types) length_map nth_map)
  then show ?thesis
    using leaf by (auto intro!: nth_equalityI)
qed

lemma structure_binding:
  assumes ok: "sha_ok x" "hex_ok x" "uuid_ok x"
    and shape: "chain_shape es" "chain_shape fs" and len: "length es < 2 ^ 64" "length fs < 2 ^ 64"
    and eq: "recompute_root_from_events x es = recompute_root_from_events x fs"
    and nc: "\<not> collision x (event_inputs x es @ event_inputs x fs)"
  shows "map event_core es = map event_core fs"
proof -
  have empty: "recompute_root_from_events x [] = ''empty''"
    by (simp add: recompute_root_from_events_def build_merkle_root_def)
  have 64: "length (recompute_root_from_events x gs) = 64" if "gs \<noteq> []" for gs
    using length_event_root [OF ok(1,2) that] .
  consider (e) "es = [] \<or> fs = []" | (s) e f where "es = [e]" "fs = [f]"
    | (l) e where "es = [e]" "length fs > 1" | (r) f where "fs = [f]" "length es > 1"
    | (m) "length es > 1" "length fs > 1"
    by (cases es; cases fs; cases "tl es"; cases "tl fs") auto
  then show ?thesis
  proof cases
    case e
    have "es = [] \<and> fs = []"
    proof (rule ccontr)
      assume "\<not> (es = [] \<and> fs = [])"
      with e eq empty 64 [of es] 64 [of fs] have "length ''empty'' = 64" by metis
      then show False by simp
    qed
    then show ?thesis by simp
  next
    case s
    have "event_bytes x e = event_bytes x f"
      by (rule no_collisionD [OF ok(2) nc]) (use s eq in \<open>simp_all add: event_inputs_def event_leaf_eq\<close>)
    with s show ?thesis by (simp add: event_bytes_inj [OF ok(3)])
  next
    case l
    have "er_sequence e = 1" using chain_shape_sequence [OF shape(1), of 0] l by simp
    from single_vs_many [OF ok(1,2) this l(2)] eq l nc show ?thesis by simp
  next
    case r
    have "er_sequence f = 1" using chain_shape_sequence [OF shape(2), of 0] r by simp
    from single_vs_many [OF ok(1,2) this r(2)] eq r have "collision x (event_inputs x fs @ event_inputs x es)"
      by simp
    then have "collision x (event_inputs x es @ event_inputs x fs)"
      by (rule collision_mono) auto
    with nc show ?thesis ..
  next
    case m
    from many_binding [OF ok chain_shape_distinct_core [OF shape(1) len(1)]
        chain_shape_distinct_core [OF shape(2) len(2)] m eq nc] show ?thesis .
  qed
qed

end
