(* ===== verification/Signing.thy ===== *)
theory Signing
  imports External
begin

text \<open>
  \<open>src/signing.rs\<close>: the key file, \<open>sign_root\<close>, \<open>verify_root\<close> and the classification of a
  signature against the pinned server key.  The file system is a record: what a path holds,
  which operations succeed, and \<open>Path::parent\<close>.
\<close>

section \<open>Key material\<close>

record ServerSigner =
  sg_signing_key :: "byte list"
  sg_verifying_key :: "byte list"

datatype SigningError = ReadFailed | InvalidKeyLength | CreateDirFailed | WriteFailed

text \<open>\<open>std::str::from_utf8\<close>: the byte sequences that are well-formed UTF-8.\<close>

definition cont :: "byte \<Rightarrow> bool" where
  "cont b = (let n = unat b in 0x80 \<le> n \<and> n \<le> 0xBF)"

fun valid_utf8 :: "byte list \<Rightarrow> bool" where
  "valid_utf8 [] = True"
| "valid_utf8 (a # bs) = (let n = unat a in
     if n < 0x80 then valid_utf8 bs
     else if 0xC2 \<le> n \<and> n \<le> 0xDF then
       (case bs of b # r \<Rightarrow> cont b \<and> valid_utf8 r | _ \<Rightarrow> False)
     else if 0xE0 \<le> n \<and> n \<le> 0xEF then
       (case bs of b # c # r \<Rightarrow>
          cont b \<and> cont c \<and> (n = 0xE0 \<longrightarrow> 0xA0 \<le> unat b) \<and> (n = 0xED \<longrightarrow> unat b \<le> 0x9F) \<and> valid_utf8 r
        | _ \<Rightarrow> False)
     else if 0xF0 \<le> n \<and> n \<le> 0xF4 then
       (case bs of b # c # d # r \<Rightarrow>
          cont b \<and> cont c \<and> cont d \<and> (n = 0xF0 \<longrightarrow> 0x90 \<le> unat b) \<and> (n = 0xF4 \<longrightarrow> unat b \<le> 0x8F) \<and>
          valid_utf8 r
        | _ \<Rightarrow> False)
     else False)"

definition bytes_str :: "byte list \<Rightarrow> string" where
  "bytes_str bs = map (\<lambda>b. char_of (unat b)) bs"

definition decode_signing_key_material :: "ext \<Rightarrow> byte list \<Rightarrow> SigningError + byte list" where
  "decode_signing_key_material x bytes =
     (if length bytes = 32 then Inr bytes
      else if \<not> valid_utf8 bytes then Inl InvalidKeyLength
      else case x_b64_decode x (trim (bytes_str bytes)) of
        None \<Rightarrow> Inl InvalidKeyLength
      | Some decoded \<Rightarrow> if length decoded = 32 then Inr decoded else Inl InvalidKeyLength)"

record filesystem =
  fs_file :: "string \<Rightarrow> byte list option"
  fs_readable :: "string \<Rightarrow> bool"
  fs_parent :: "string \<Rightarrow> string option"
  fs_mkdir_ok :: "string \<Rightarrow> bool"
  fs_write_ok :: "string \<Rightarrow> bool"

definition signer_from_bytes :: "ext \<Rightarrow> byte list \<Rightarrow> ServerSigner" where
  "signer_from_bytes x seed = \<lparr> sg_signing_key = seed, sg_verifying_key = x_ed_public x seed \<rparr>"

text \<open>\<open>fresh\<close> is the seed \<open>SigningKey::generate\<close> draws.  The setting of the file's permissions
  (its failure is ignored) and the message on stderr are left out.\<close>

definition load_or_create ::
  "ext \<Rightarrow> filesystem \<Rightarrow> byte list \<Rightarrow> string \<Rightarrow> (SigningError + ServerSigner) \<times> filesystem" where
  "load_or_create x fs fresh path = (case fs_file fs path of
     Some bytes \<Rightarrow>
       if \<not> fs_readable fs path then (Inl ReadFailed, fs)
       else (bind_res (decode_signing_key_material x bytes) (\<lambda>array. Inr (signer_from_bytes x array)), fs)
   | None \<Rightarrow>
       if (case fs_parent fs path of Some parent \<Rightarrow> parent \<noteq> [] \<and> \<not> fs_mkdir_ok fs parent | None \<Rightarrow> False)
       then (Inl CreateDirFailed, fs)
       else if \<not> fs_write_ok fs path then (Inl WriteFailed, fs)
       else (Inr (signer_from_bytes x fresh), fs\<lparr> fs_file := (fs_file fs)(path \<mapsto> fresh) \<rparr>))"

section \<open>Signatures\<close>

definition root_message :: "string \<Rightarrow> string \<Rightarrow> string \<Rightarrow> string" where
  "root_message chain_id merkle_root chain_head = chain_id @ '':'' @ merkle_root @ '':'' @ chain_head"

definition sign_root :: "ext \<Rightarrow> ServerSigner \<Rightarrow> string \<Rightarrow> string \<Rightarrow> string \<Rightarrow> string" where
  "sign_root x signer chain_id merkle_root chain_head =
     x_hex_encode x (x_ed_sign x (sg_signing_key signer)
       (str_bytes (root_message chain_id merkle_root chain_head)))"

definition public_key_hex :: "ext \<Rightarrow> ServerSigner \<Rightarrow> string" where
  "public_key_hex x signer = x_hex_encode x (sg_verifying_key signer)"

definition sha256_fingerprint :: "ext \<Rightarrow> ServerSigner \<Rightarrow> string" where
  "sha256_fingerprint x signer = sha_hex x (sg_signing_key signer)"

definition verify_root :: "ext \<Rightarrow> string \<Rightarrow> string \<Rightarrow> string \<Rightarrow> string \<Rightarrow> string \<Rightarrow> bool" where
  "verify_root x chain_id merkle_root chain_head signature_hex public_key =
     (case x_hex_decode x signature_hex of
        None \<Rightarrow> False
      | Some sig_bytes \<Rightarrow>
     (case x_hex_decode x public_key of
        None \<Rightarrow> False
      | Some pk_bytes \<Rightarrow>
          if length sig_bytes \<noteq> 64 then False
          else if length pk_bytes \<noteq> 32 then False
          else if \<not> x_ed_valid x pk_bytes then False
          else x_ed_verify x pk_bytes (str_bytes (root_message chain_id merkle_root chain_head)) sig_bytes))"

datatype SignatureCheckResult =
    SigValid
  | UntrustedSignerIdentity (sc_pinned_key: string) (sc_proof_key: string)
  | SignatureInvalid (sc_server_identity: string)

definition normalize_public_key_hex :: "string \<Rightarrow> string" where
  "normalize_public_key_hex key = to_ascii_lowercase (trim key)"

definition classify_signature ::
  "ext \<Rightarrow> string \<Rightarrow> string \<Rightarrow> string \<Rightarrow> string \<Rightarrow> string \<Rightarrow> string \<Rightarrow> SignatureCheckResult" where
  "classify_signature x proof_public_key pinned_key chain_id root chain_head signature =
     (let proof_key = normalize_public_key_hex proof_public_key;
          pinned = normalize_public_key_hex pinned_key
      in if proof_key \<noteq> pinned then UntrustedSignerIdentity pinned proof_key
         else if verify_root x chain_id root chain_head signature pinned then SigValid
         else SignatureInvalid pinned)"

section \<open>Lemmas\<close>

lemma unat_of_char [simp]: "unat (of_char c :: byte) = (of_char c :: nat)"
proof -
  have "unat (of_nat (of_char c) :: byte) = (of_char c :: nat) mod 256" by (simp only: unat_of_nat) simp
  then show ?thesis by (simp only: of_nat_of_char of_char_mod_256)
qed

lemma bytes_str_bytes [simp]: "bytes_str (str_bytes s) = s"
  by (simp add: bytes_str_def str_bytes_def comp_def)

text \<open>A signer the server can hold: \<open>load_or_create\<close> makes no other.\<close>

definition signer_ok :: "ext \<Rightarrow> ServerSigner \<Rightarrow> bool" where
  "signer_ok x s \<longleftrightarrow> length (sg_signing_key s) = 32 \<and> s = signer_from_bytes x (sg_signing_key s)"

lemma signer_ok_from_bytes [intro]: "length seed = 32 \<Longrightarrow> signer_ok x (signer_from_bytes x seed)"
  by (simp add: signer_ok_def signer_from_bytes_def)

lemma signer_ok_verifying: "signer_ok x s \<Longrightarrow> sg_verifying_key s = x_ed_public x (sg_signing_key s)"
  by (auto simp: signer_ok_def signer_from_bytes_def dest: arg_cong [where f = sg_verifying_key])

lemma decode_key_length: "decode_signing_key_material x bytes = Inr k \<Longrightarrow> length k = 32"
  by (auto simp: decode_signing_key_material_def split: if_splits option.splits)

lemma load_or_create_signer:
  assumes "length fresh = 32" "load_or_create x fs fresh path = (Inr s, fs')"
  shows "signer_ok x s"
  using assms by (auto simp: load_or_create_def res_iff decode_key_length
      split: option.splits if_splits)

lemma load_after_create:
  assumes "length fresh = 32" "fs_file fs path = None" "load_or_create x fs fresh path = (Inr s, fs')"
    and "fs_readable fs path"
  shows "load_or_create x fs' other path = (Inr s, fs')"
proof -
  have "s = signer_from_bytes x fresh" "fs' = fs\<lparr> fs_file := (fs_file fs)(path \<mapsto> fresh) \<rparr>"
    using assms(2,3) by (simp_all add: load_or_create_def split: if_splits)
  with assms(1,4) show ?thesis
    by (simp add: load_or_create_def decode_signing_key_material_def)
qed

lemma verify_sign:
  assumes "hex_ok x" "ed_ok x" "signer_ok x s"
  shows "verify_root x c r h (sign_root x s c r h) (public_key_hex x s)"
  using assms by (auto simp: verify_root_def sign_root_def public_key_hex_def hex_ok_def ed_ok_def
      signer_ok_verifying signer_ok_def)

lemma sign_root_nonempty:
  assumes "hex_ok x" "ed_ok x" "signer_ok x s"
  shows "sign_root x s c r h \<noteq> []"
proof -
  have "length (sign_root x s c r h) = 128"
    using assms by (simp add: sign_root_def hex_ok_def ed_ok_def signer_ok_def)
  then show ?thesis by auto
qed

text \<open>Distinct triples are signed as distinct messages, as no identifier or digest has a colon.\<close>

lemma split_at_colon:
  "CHR '':'' \<notin> set a \<Longrightarrow> CHR '':'' \<notin> set b \<Longrightarrow> a @ CHR '':'' # s = b @ CHR '':'' # t \<Longrightarrow> a = b \<and> s = t"
  by (induction a arbitrary: b) (auto simp: Cons_eq_append_conv append_eq_Cons_conv)

lemma root_message_inj:
  assumes "CHR '':'' \<notin> set c" "CHR '':'' \<notin> set c'" "CHR '':'' \<notin> set r" "CHR '':'' \<notin> set r'"
    and "root_message c r h = root_message c' r' h'"
  shows "c = c' \<and> r = r' \<and> h = h'"
proof -
  have "c = c' \<and> r @ CHR '':'' # h = r' @ CHR '':'' # h'"
    by (rule split_at_colon) (use assms in \<open>simp_all add: root_message_def\<close>)
  moreover from this have "r = r' \<and> h = h'"
    by (intro split_at_colon) (use assms in simp_all)
  ultimately show ?thesis by blast
qed

text \<open>A lowercase hex text is its own normal form.\<close>

lemma normalize_hex_id: "list_all is_lower_hex s \<Longrightarrow> normalize_public_key_hex s = s"
  by (simp add: normalize_public_key_hex_def trim_hex to_ascii_lowercase_id)

lemma normalize_public_key [simp]:
  "hex_ok x \<Longrightarrow> normalize_public_key_hex (public_key_hex x s) = public_key_hex x s"
  by (rule normalize_hex_id) (simp add: public_key_hex_def hex_ok_def)

end
