(* ===== verification/ProofMaterial.thy ===== *)
theory ProofMaterial
  imports Database Verification Signing
begin

text \<open>
  Proof assembly: \<open>src/api/v1/proof_status.rs\<close>, \<open>src/api/v1/proof_material.rs\<close>,
  \<open>src/api/v1/chain_verification.rs\<close>, and the chain-wide verification and export of
  \<open>src/service/verification.rs\<close> and \<open>src/service/verifier.rs\<close>.
  The lemmas show that a snapshot made and read with the same key over the same prefix is
  anchored, and what an anchored answer implies.
\<close>

section \<open>Proof status\<close>

datatype ProofStatus = Pending | Anchored | Failed

fun proof_status_str :: "ProofStatus \<Rightarrow> string" where
  "proof_status_str Pending = ''pending''"
| "proof_status_str Anchored = ''anchored''"
| "proof_status_str Failed = ''failed''"

record ProofContext =
  pc_merkle_root_present :: bool
  pc_signature_present :: bool
  pc_signature_valid :: bool
  pc_failure_signal :: bool

definition derive_proof_status :: "ProofContext \<Rightarrow> ProofStatus" where
  "derive_proof_status ctx =
     (if pc_failure_signal ctx then Failed
      else if pc_merkle_root_present ctx \<and> pc_signature_present ctx \<and> pc_signature_valid ctx then Anchored
      else Pending)"

definition detect_failure_signal :: "ProofContext \<Rightarrow> bool" where
  "detect_failure_signal ctx \<longleftrightarrow>
     (pc_signature_present ctx \<and> \<not> pc_signature_valid ctx) \<or>
     (\<not> pc_merkle_root_present ctx \<and> pc_signature_present ctx)"

definition proof_context_from_parts :: "bool \<Rightarrow> bool \<Rightarrow> bool \<Rightarrow> ProofContext" where
  "proof_context_from_parts merkle_root_present signature_present signature_valid =
     (let partial = \<lparr> pc_merkle_root_present = merkle_root_present,
            pc_signature_present = signature_present, pc_signature_valid = signature_valid,
            pc_failure_signal = False \<rparr>
      in partial\<lparr> pc_failure_signal := detect_failure_signal partial \<rparr>)"

section \<open>Snapshots\<close>

definition to_EventRow :: "event_row \<Rightarrow> EventRow" where
  "to_EventRow e = \<lparr> er_event_id = e_event_id e, er_parent_event_id = e_parent_event_id e,
     er_file_hash = e_file_hash e, er_created_at = e_created_at e, er_sequence = e_sequence e \<rparr>"

definition load_event_prefix :: "uuid \<Rightarrow> i64 \<Rightarrow> db \<Rightarrow> EventRow list" where
  "load_event_prefix chain_id target_sequence d =
     map to_EventRow (select_events
       (\<lambda>e. e_chain_id e = chain_id \<and> e_sequence e <=s target_sequence) (events d))"

text \<open>\<open>SELECT ... FROM events WHERE chain_id = $1 ORDER BY sequence ASC\<close>.\<close>

definition chain_events :: "uuid \<Rightarrow> db \<Rightarrow> EventRow list" where
  "chain_events chain_id d = map to_EventRow (select_events (\<lambda>e. e_chain_id e = chain_id) (events d))"

record ProofSnapshot =
  ps_merkle_root :: string
  ps_signature :: string
  ps_public_key :: string
  ps_context :: ProofContext

definition build_proof_snapshot ::
  "ext \<Rightarrow> ServerSigner \<Rightarrow> uuid \<Rightarrow> uuid \<Rightarrow> EventRow list \<Rightarrow> ProofSnapshot" where
  "build_proof_snapshot x signer chain_id target_event_id prefix_events =
     (let merkle_root = recompute_root_from_events x prefix_events;
          merkle_root_present = (prefix_events \<noteq> [] \<and> merkle_root \<noteq> []);
          chain_head = x_uuid_str x target_event_id;
          signature = sign_root x signer (x_uuid_str x chain_id) merkle_root chain_head;
          signature_present = (signature \<noteq> []);
          public_key = public_key_hex x signer;
          signature_valid = (signature_present \<and>
            verify_root x (x_uuid_str x chain_id) merkle_root chain_head signature public_key)
      in \<lparr> ps_merkle_root = merkle_root, ps_signature = signature, ps_public_key = public_key,
           ps_context = proof_context_from_parts merkle_root_present signature_present signature_valid \<rparr>)"

definition build_proof_snapshot_read ::
  "ext \<Rightarrow> uuid \<Rightarrow> uuid \<Rightarrow> EventRow list \<Rightarrow> string \<Rightarrow> string \<Rightarrow> ProofSnapshot" where
  "build_proof_snapshot_read x chain_id target_event_id prefix_events persisted_signature public_key =
     (let merkle_root = recompute_root_from_events x prefix_events;
          merkle_root_present = (prefix_events \<noteq> [] \<and> merkle_root \<noteq> []);
          chain_head = x_uuid_str x target_event_id;
          signature = persisted_signature;
          signature_present = (signature \<noteq> []);
          signature_valid = (signature_present \<and>
            verify_root x (x_uuid_str x chain_id) merkle_root chain_head signature public_key)
      in \<lparr> ps_merkle_root = merkle_root, ps_signature = signature, ps_public_key = public_key,
           ps_context = proof_context_from_parts merkle_root_present signature_present signature_valid \<rparr>)"

definition proof_snapshot_at_event ::
  "ext \<Rightarrow> ServerSigner \<Rightarrow> uuid \<Rightarrow> uuid \<Rightarrow> i64 \<Rightarrow> db \<Rightarrow> ProofSnapshot" where
  "proof_snapshot_at_event x signer chain_id target_event_id target_sequence d =
     build_proof_snapshot x signer chain_id target_event_id (load_event_prefix chain_id target_sequence d)"

definition persist_event_signature :: "uuid \<Rightarrow> string \<Rightarrow> db \<Rightarrow> db" where
  "persist_event_signature event_id signature d =
     d\<lparr> events := update_where (\<lambda>e. e_event_id e = event_id) (\<lambda>e. e\<lparr> e_signature := signature \<rparr>) (events d) \<rparr>"

definition proof_context_at_event ::
  "ext \<Rightarrow> ServerSigner \<Rightarrow> uuid \<Rightarrow> uuid \<Rightarrow> i64 \<Rightarrow> db \<Rightarrow> ProofContext" where
  "proof_context_at_event x signer chain_id target_event_id target_sequence d =
     ps_context (build_proof_snapshot x signer chain_id target_event_id
       (load_event_prefix chain_id target_sequence d))"

section \<open>Verification of a prefix and of a chain\<close>

fun show_failure :: "StructuralFailure \<Rightarrow> string" where
  "show_failure (ParentChain i) = ''ParentChain { index: '' @ digits i @ '' }''"
| "show_failure (Sequence i) = ''Sequence { index: '' @ digits i @ '' }''"
| "show_failure EmptyMerkle = ''EmptyMerkle''"

definition structural_errors :: "ext \<Rightarrow> EventRow list \<Rightarrow> string list" where
  "structural_errors x es = (case check_event_structure x es of
     Inl failure \<Rightarrow> [''Structural check failed: '' @ show_failure failure] | Inr _ \<Rightarrow> [])"

record ChainVerification =
  cv_valid :: bool
  cv_merkle_valid :: bool
  cv_signature_valid :: bool
  cv_errors :: "string list"

definition verify_chain_prefix ::
  "ext \<Rightarrow> uuid \<Rightarrow> uuid \<Rightarrow> string \<Rightarrow> string \<Rightarrow> EventRow list \<Rightarrow> string \<Rightarrow> ChainVerification" where
  "verify_chain_prefix x chain_id event_id event_signature public_key pre expected_root =
     (let errors = structural_errors x pre;
          recomputed_root = recompute_root_from_events x pre;
          errors' = errors @ (if (pre = [] \<or> recomputed_root = []) \<and> pre \<noteq> []
            then [''Merkle root could not be computed''] else []);
          merkle_valid = (if pre = [] \<or> recomputed_root = [] then False
            else recomputed_root = expected_root);
          signature_valid = (event_signature \<noteq> [] \<and>
            verify_root x (x_uuid_str x chain_id) expected_root (x_uuid_str x event_id) event_signature public_key);
          valid = (merkle_valid \<and> signature_valid \<and> errors' = [])
      in \<lparr> cv_valid = valid, cv_merkle_valid = merkle_valid, cv_signature_valid = signature_valid,
           cv_errors = errors' \<rparr>)"

definition proof_json :: "ext \<Rightarrow> ServerSigner \<Rightarrow> uuid \<Rightarrow> EventRow list \<Rightarrow> json" where
  "proof_json x signer chain_id es =
     (let merkle_root = recompute_root_from_events x es;
          chain_head = er_event_id (last es);
          signature = sign_root x signer (x_uuid_str x chain_id) merkle_root (x_uuid_str x chain_head)
      in JObject [(''version'', JString ''proof_v1''), (''type'', JString ''merkle-root-v1''),
           (''root'', JString merkle_root), (''leaves_count'', JNumber (int (length es))),
           (''chain_head'', JUuid x chain_head), (''signature'', JString signature),
           (''public_key'', JString (public_key_hex x signer))])"

definition verify_chain :: "ext \<Rightarrow> ServerSigner \<Rightarrow> uuid \<Rightarrow> db \<Rightarrow> json" where
  "verify_chain x signer chain_id d =
     (let es = chain_events chain_id d in
      if es = [] then JObject [(''chain_id'', JUuid x chain_id), (''valid'', JBool True),
        (''blocks'', JNumber 0), (''message'', JString ''Chain is empty''), (''proof'', JNull)]
      else
        let errors = structural_errors x es;
            valid = (errors = [])
        in JObject [(''chain_id'', JUuid x chain_id), (''valid'', JBool valid),
             (''blocks'', JNumber (int (length es))), (''errors'', JArray (map JString errors)),
             (''head_event_id'', JUuid x (er_event_id (last es))),
             (''proof'', proof_json x signer chain_id es)])"

definition event_json :: "ext \<Rightarrow> EventRow \<Rightarrow> json" where
  "event_json x e = JObject [(''sequence'', JNumber (sint (er_sequence e))),
     (''event_id'', JUuid x (er_event_id e)), (''parent_event_id'', JUuid x (er_parent_event_id e)),
     (''file_hash'', JString (er_file_hash e))]"

definition tsa_json :: "tsa_row \<Rightarrow> json" where
  "tsa_json t = JObject [(''timestamp'', JNumber (sint (t_tsa_timestamp t))),
     (''serial'', JString (t_tsa_serial t)), (''token_bytes'', JNumber (int (length (t_tsa_token t))))]"

definition export_proof :: "ext \<Rightarrow> ServerSigner \<Rightarrow> uuid \<Rightarrow> db \<Rightarrow> json" where
  "export_proof x signer chain_id d =
     (let es = chain_events chain_id d in
      if es = [] then JObject [(''chain_id'', JUuid x chain_id), (''events'', JArray []), (''proof'', JNull)]
      else
        let merkle_root = recompute_root_from_events x es;
            tsa = find (\<lambda>t. t_chain_id t = chain_id \<and> t_merkle_root t = merkle_root) (tsa_tokens d)
        in JObject [(''leaf_version'', JString ''leaf_v1''), (''chain_id'', JUuid x chain_id),
             (''head_event_id'', JUuid x (er_event_id (last es))),
             (''events'', JArray (map (event_json x) es)),
             (''proof'', proof_json x signer chain_id es), (''tsa'', JOpt tsa_json tsa)])"

record VerificationReport =
  vr_chain_id :: uuid
  vr_valid :: bool
  vr_blocks :: nat
  vr_errors :: "string list"
  vr_warnings :: "string list"
  vr_head_event_id :: "uuid option"
  vr_merkle_recomputed :: string
  vr_merkle_match :: bool
  vr_last_event_created_at :: "timestamp option"

text \<open>\<open>show_time\<close> is the \<open>Display\<close> of \<open>DateTime<Utc>\<close>.\<close>

definition time_warnings :: "(timestamp \<Rightarrow> string) \<Rightarrow> EventRow list \<Rightarrow> string list" where
  "time_warnings show_time es =
     map (\<lambda>(p, e). ''Time regression: '' @ show_time (er_created_at p) @ '' -> '' @ show_time (er_created_at e))
       (filter (\<lambda>(p, e). er_created_at e < er_created_at p) (zip es (tl es)))"

definition verify_chain_hardened :: "ext \<Rightarrow> (timestamp \<Rightarrow> string) \<Rightarrow> uuid \<Rightarrow> db \<Rightarrow> VerificationReport" where
  "verify_chain_hardened x show_time chain_id d =
     (let es = chain_events chain_id d;
          report = \<lparr> vr_chain_id = chain_id, vr_valid = True, vr_blocks = length es, vr_errors = [],
            vr_warnings = [], vr_head_event_id = None, vr_merkle_recomputed = [], vr_merkle_match = False,
            vr_last_event_created_at = None \<rparr>
      in if es = [] then report\<lparr> vr_warnings := [''Chain is empty''], vr_valid := False,
             vr_errors := [''Chain is empty''] \<rparr>
         else report\<lparr> vr_valid := (structural_errors x es = []), vr_errors := structural_errors x es,
             vr_warnings := time_warnings show_time es,
             vr_merkle_recomputed := (case check_event_structure x es of
                Inr root \<Rightarrow> root | Inl _ \<Rightarrow> recompute_root_from_events x es),
             vr_head_event_id := Some (er_event_id (last es)),
             vr_last_event_created_at := Some (er_created_at (last es)) \<rparr>)"

section \<open>Lemmas\<close>

lemma derive_from_parts:
  "derive_proof_status (proof_context_from_parts m p v) =
     (if p then (if m \<and> v then Anchored else Failed) else Pending)"
  by (auto simp: derive_proof_status_def proof_context_from_parts_def detect_failure_signal_def Let_def)

lemma to_EventRow_simps [simp]:
  "er_event_id (to_EventRow e) = e_event_id e"
  "er_parent_event_id (to_EventRow e) = e_parent_event_id e"
  "er_sequence (to_EventRow e) = e_sequence e"
  "er_file_hash (to_EventRow e) = e_file_hash e"
  by (simp_all add: to_EventRow_def)

lemma to_EventRow_signature [simp]: "to_EventRow (e\<lparr> e_signature := s \<rparr>) = to_EventRow e"
  by (simp add: to_EventRow_def)

lemma snapshot_root [simp]:
  "ps_merkle_root (build_proof_snapshot x s c e es) = recompute_root_from_events x es"
  by (simp add: build_proof_snapshot_def Let_def)

lemma snapshot_signature:
  "ps_signature (build_proof_snapshot x s c e es) =
     sign_root x s (x_uuid_str x c) (recompute_root_from_events x es) (x_uuid_str x e)"
  by (simp add: build_proof_snapshot_def Let_def)

lemma snapshot_anchored:
  assumes "ext_ok x" "signer_ok x s" "es \<noteq> []"
  shows "derive_proof_status (ps_context (build_proof_snapshot x s c e es)) = Anchored"
proof -
  have ok: "sha_ok x" "hex_ok x" "ed_ok x" using assms(1) by auto
  note sign = sign_root_nonempty [OF ok(2,3) assms(2)] verify_sign [OF ok(2,3) assms(2)]
  show ?thesis
    by (simp add: build_proof_snapshot_def Let_def derive_from_parts sign
        event_root_nonempty [OF ok(1,2) assms(3)] assms(3))
qed

lemma snapshot_read_anchored_iff:
  "derive_proof_status (ps_context (build_proof_snapshot_read x c e es sig pk)) = Anchored \<longleftrightarrow>
     sig \<noteq> [] \<and> es \<noteq> [] \<and> recompute_root_from_events x es \<noteq> [] \<and>
     verify_root x (x_uuid_str x c) (recompute_root_from_events x es) (x_uuid_str x e) sig pk"
  by (auto simp: build_proof_snapshot_read_def Let_def derive_from_parts)

lemma snapshot_read_context:
  "build_proof_snapshot_read x c e es (ps_signature (build_proof_snapshot x s c e es)) (public_key_hex x s)
     = build_proof_snapshot x s c e es"
  by (simp add: build_proof_snapshot_read_def build_proof_snapshot_def Let_def)

lemma persist_to_EventRow [simp]:
  "map to_EventRow (update_where P (\<lambda>e. e\<lparr> e_signature := s \<rparr>) rows) = map to_EventRow rows"
  by (rule map_update_where) simp

lemma sort_key_update_where:
  "(\<And>r. k (f r) = k r) \<Longrightarrow> sort_key k (update_where P f rows) = update_where P f (sort_key k rows)"
proof -
  assume k: "\<And>r. k (f r) = k r"
  let ?g = "\<lambda>r. if P r then f r else r"
  have "insort_key k (?g r) (map ?g rs) = map ?g (insort_key k r rs)" for r rs
    by (induction rs) (auto simp: k)
  then have "sort_key k (map ?g rows) = map ?g (sort_key k rows)"
    by (induction rows) (simp_all add: sort_key_def)
  then show ?thesis by (simp add: update_where_def)
qed

lemma select_events_persist:
  assumes "\<And>e. Q (e\<lparr> e_signature := s \<rparr>) = Q e"
  shows "map to_EventRow (select_events Q (update_where P (\<lambda>e. e\<lparr> e_signature := s \<rparr>) rows)) =
    map to_EventRow (select_events Q rows)"
  by (simp add: select_events_def filter_update_where assms sort_key_update_where)

lemma persist_prefix [simp]:
  "load_event_prefix c n (persist_event_signature e s d) = load_event_prefix c n d"
  by (simp add: load_event_prefix_def persist_event_signature_def select_events_persist)

lemma persist_chain_events [simp]:
  "chain_events c (persist_event_signature e s d) = chain_events c d"
  by (simp add: chain_events_def persist_event_signature_def select_events_persist)

lemma structural_errors_Nil:
  "sha_ok x \<Longrightarrow> hex_ok x \<Longrightarrow> structural_errors x es = [] \<longleftrightarrow> chain_shape es"
  using check_structure_Inr [of x es] check_structure_Inl [of x es] check_loop_None [of es]
  by (cases "check_event_structure x es") (auto simp: structural_errors_def)

lemma verify_chain_prefix_valid:
  assumes "sha_ok x" "hex_ok x"
  shows "cv_valid (verify_chain_prefix x c e sig pk pre root) \<longleftrightarrow>
    pre \<noteq> [] \<and> chain_shape pre \<and> recompute_root_from_events x pre = root \<and> sig \<noteq> [] \<and>
    verify_root x (x_uuid_str x c) root (x_uuid_str x e) sig pk"
  using assms event_root_nonempty [of x pre]
  by (auto simp: verify_chain_prefix_def Let_def structural_errors_Nil)

end
