(* ===== verification/Errors.thy ===== *)
theory Errors
  imports Json
begin

text \<open>
  \<open>src/api/v1/errors.rs\<close>: the error type of the v1 API, its HTTP status, code and message, and
  the response envelope.
\<close>

datatype ApiError =
    Unauthorized | Forbidden | NotFound | Conflict | InvalidRequest | InvalidVerifyFileHash
  | ProofNotReady | ProofGenerationFailed | PaymentRequired | UsageLimitExceeded
  | InvalidCredentials | RateLimited | EmailAlreadyRegistered | PasswordAlreadySet
  | Internal | NotImplemented | EntitlementMissing | IdentityKeyNotFound
  | IdentityKeyAlreadyRevoked | IdentityKeyRevoked | IdentityKeyNotVerified
  | InvalidIdentitySignature

fun status_code :: "ApiError \<Rightarrow> nat" where
  "status_code Unauthorized = 401"
| "status_code Forbidden = 403"
| "status_code NotFound = 404"
| "status_code Conflict = 409"
| "status_code InvalidRequest = 400"
| "status_code InvalidVerifyFileHash = 400"
| "status_code ProofNotReady = 409"
| "status_code ProofGenerationFailed = 422"
| "status_code PaymentRequired = 402"
| "status_code UsageLimitExceeded = 429"
| "status_code InvalidCredentials = 401"
| "status_code RateLimited = 429"
| "status_code EmailAlreadyRegistered = 409"
| "status_code PasswordAlreadySet = 409"
| "status_code Internal = 500"
| "status_code NotImplemented = 501"
| "status_code EntitlementMissing = 403"
| "status_code IdentityKeyNotFound = 404"
| "status_code IdentityKeyAlreadyRevoked = 409"
| "status_code IdentityKeyRevoked = 403"
| "status_code IdentityKeyNotVerified = 403"
| "status_code InvalidIdentitySignature = 401"

fun code :: "ApiError \<Rightarrow> string" where
  "code Unauthorized = ''unauthorized''"
| "code Forbidden = ''forbidden''"
| "code NotFound = ''not_found''"
| "code Conflict = ''conflict''"
| "code InvalidRequest = ''invalid_request''"
| "code InvalidVerifyFileHash = ''invalid_request''"
| "code ProofNotReady = ''proof_not_ready''"
| "code ProofGenerationFailed = ''proof_generation_failed''"
| "code PaymentRequired = ''payment_required''"
| "code UsageLimitExceeded = ''usage_limit_exceeded''"
| "code InvalidCredentials = ''unauthorized''"
| "code RateLimited = ''rate_limited''"
| "code EmailAlreadyRegistered = ''conflict''"
| "code PasswordAlreadySet = ''conflict''"
| "code Internal = ''internal_error''"
| "code NotImplemented = ''not_implemented''"
| "code EntitlementMissing = ''entitlement_missing''"
| "code IdentityKeyNotFound = ''identity_key_not_found''"
| "code IdentityKeyAlreadyRevoked = ''identity_key_already_revoked''"
| "code IdentityKeyRevoked = ''identity_key_revoked''"
| "code IdentityKeyNotVerified = ''identity_key_not_verified''"
| "code InvalidIdentitySignature = ''invalid_identity_signature''"

fun message :: "ApiError \<Rightarrow> string" where
  "message Unauthorized = ''Missing or invalid API key''"
| "message Forbidden = ''Access denied''"
| "message NotFound = ''Resource not found''"
| "message Conflict = ''Request conflict''"
| "message InvalidRequest = ''Invalid request''"
| "message InvalidVerifyFileHash = ''file_hash must be a valid SHA-256 hex string (64 chars, 0-9a-f)''"
| "message ProofNotReady = ''Proof material is not yet available for this event''"
| "message ProofGenerationFailed = ''Proof generation failed for this event''"
| "message PaymentRequired =
     ''Subscription payment is past due. Write access is suspended until payment succeeds.''"
| "message UsageLimitExceeded = ''Monthly commit limit for your tariff plan has been reached.''"
| "message InvalidCredentials = ''Invalid email or password''"
| "message RateLimited = ''Too many login attempts. Please try again later.''"
| "message EmailAlreadyRegistered = ''Email is already registered''"
| "message PasswordAlreadySet = ''Password is already set for this account''"
| "message Internal = ''Internal server error''"
| "message NotImplemented = ''Not implemented''"
| "message EntitlementMissing = ''Identity feature not available on current plan''"
| "message IdentityKeyNotFound = ''Identity key not found''"
| "message IdentityKeyAlreadyRevoked = ''Identity key is already revoked''"
| "message IdentityKeyRevoked = ''Identity key has been revoked''"
| "message IdentityKeyNotVerified = ''Identity key is not verified''"
| "message InvalidIdentitySignature = ''Signature verification failed''"

definition envelope :: "ext \<Rightarrow> ApiError \<Rightarrow> uuid \<Rightarrow> json" where
  "envelope x e request_id = JObject [(''error'', JObject
     [(''code'', JString (code e)), (''message'', JString (message e)),
      (''request_id'', JUuid x request_id)])]"

text \<open>\<open>IntoResponse\<close>: status and body.\<close>

definition error_response :: "ext \<Rightarrow> uuid \<Rightarrow> ApiError \<Rightarrow> nat \<times> json" where
  "error_response x request_id e = (status_code e, envelope x e request_id)"

end
