(* ===== verification/Transition.thy ===== *)
theory Transition
  imports Prelude
begin

text \<open>
  Invariants of step relations, proved once: what every step keeps holds along every run, and a
  preorder that every step respects relates the two ends of a run.  A view under which every step is a
  step of a specification, or changes nothing, maps runs to runs of the specification.  The service, the
  rate limiter and the billing system interpret these locales.
\<close>

locale kept =
  fixes step :: "'s \<Rightarrow> 's \<Rightarrow> bool" and inv :: "'s \<Rightarrow> bool"
  assumes step_inv: "inv s \<Longrightarrow> step s t \<Longrightarrow> inv t"
begin

lemma run_inv: "step\<^sup>*\<^sup>* s t \<Longrightarrow> inv s \<Longrightarrow> inv t"
  by (induction rule: rtranclp_induct) (auto intro: step_inv)

end

locale growing = kept +
  fixes below :: "'s \<Rightarrow> 's \<Rightarrow> bool"
  assumes below_refl: "below s s"
    and below_trans: "below s t \<Longrightarrow> below t u \<Longrightarrow> below s u"
    and step_below: "inv s \<Longrightarrow> step s t \<Longrightarrow> below s t"
begin

lemma run_below: "step\<^sup>*\<^sup>* s t \<Longrightarrow> inv s \<Longrightarrow> below s t"
proof (induction rule: rtranclp_induct)
  case base
  show ?case by (rule below_refl)
next
  case (step t u)
  have "inv t" using step.hyps(1) step.prems by (rule run_inv)
  then have "below t u" using step.hyps(2) by (rule step_below)
  then show ?case using step.IH [OF step.prems] below_trans by blast
qed

end

locale refines = kept +
  fixes view :: "'s \<Rightarrow> 'a" and spec :: "'a \<Rightarrow> 'a \<Rightarrow> bool"
  assumes step_view: "inv s \<Longrightarrow> step s t \<Longrightarrow> view s = view t \<or> spec (view s) (view t)"
begin

lemma run_view: "step\<^sup>*\<^sup>* s t \<Longrightarrow> inv s \<Longrightarrow> spec\<^sup>*\<^sup>* (view s) (view t)"
proof (induction rule: rtranclp_induct)
  case (step t u)
  have "inv t" using step.hyps(1) step.prems by (rule run_inv)
  with step.hyps(2) have "view t = view u \<or> spec (view t) (view u)" by (intro step_view)
  with step.IH [OF step.prems] show ?case by (auto intro: rtranclp.rtrancl_into_rtrancl)
qed simp

end

end
