(* ===== verification/Tsa.thy ===== *)
theory Tsa
  imports ProofMaterial Errors Transition
begin

text \<open>
  Time stamps: \<open>src/tsa_worker.rs\<close>, the read-path verification and its cache
  (\<open>src/tsa/read_verify.rs\<close>, \<open>types.rs\<close>, \<open>verify.rs\<close>, \<open>trust_config.rs\<close>), and
  \<open>src/api/v1/proof_state.rs\<close>, which merges the outcome into the proof status.
  The time stamp client, the DER parser and the OpenSSL call of the crate \<open>notary_tsa\<close>, the JSON
  parser, the environment and the file system are the fields of \<open>tsa_env\<close>.
\<close>

section \<open>Stamping\<close>

record tsa_env =
  te_timestamp :: "byte list \<Rightarrow> (byte list \<times> i64 \<times> string) option"
  te_dev_mode :: "string option"
  te_app_env :: "string option"
  te_ca_path :: "string option"
  te_untrusted_path :: "string option"
  te_is_file :: "string \<Rightarrow> bool"
  te_parse_json :: "string \<Rightarrow> json option"
  te_validate_tsr :: "byte list \<Rightarrow> byte list \<Rightarrow> bool"
  te_verify_tsr :: "byte list \<Rightarrow> byte list \<Rightarrow> string \<Rightarrow> string \<Rightarrow> bool"

text \<open>The row is dropped on a conflict, and when the chain or the event is missing (foreign keys:
  the error is only printed).\<close>

definition stamp_chain :: "ext \<Rightarrow> tsa_env \<Rightarrow> uuid \<Rightarrow> string \<Rightarrow> uuid \<Rightarrow> db \<Rightarrow> db" where
  "stamp_chain x te chain_id merkle_root head_event_id d =
     (case x_hex_decode x merkle_root of
        None \<Rightarrow> d
      | Some hash_bytes \<Rightarrow>
          if length hash_bytes \<noteq> 32 then d
          else (case te_timestamp te hash_bytes of
            None \<Rightarrow> d
          | Some (token, timestamp, serial) \<Rightarrow>
              if (chain_id, merkle_root) \<in> (\<lambda>t. (t_chain_id t, t_merkle_root t)) ` set (tsa_tokens d)
                \<or> chain_id \<notin> ch_chain_id ` set (chains d)
                \<or> head_event_id \<notin> e_event_id ` set (events d) then d
              else d\<lparr> tsa_tokens := tsa_tokens d @
                [\<lparr> t_chain_id = chain_id, t_event_id = head_event_id, t_merkle_root = merkle_root,
                   t_tsa_token = token, t_tsa_timestamp = timestamp, t_tsa_serial = serial,
                   t_verified_at = None, t_verification_status = None, t_token_sha256 = None \<rparr>] \<rparr>))"

section \<open>Attestations\<close>

datatype TsaTrustLevel = Stub | External

datatype TsaStatus = TsaVerified | TsaFailed | TsaNotProvided

record TsaAttestation =
  ta_provider :: string
  ta_timestamp :: i64
  ta_tsr_hash :: string
  ta_signature_valid :: bool
  ta_raw_token_b64 :: string
  ta_trust_level :: TsaTrustLevel

text \<open>\<open>str::contains\<close>.\<close>

fun str_contains :: "string \<Rightarrow> string \<Rightarrow> bool" where
  "str_contains [] pat = (pat = [])"
| "str_contains (c # s) pat = (prefix pat (c # s) \<or> str_contains s pat)"

definition stub_marker :: string where
  "stub_marker = [CHR 0x22] @ ''stub'' @ [CHR 0x22] @ '':true''"

definition validate_stub_token :: "ext \<Rightarrow> string \<Rightarrow> string \<Rightarrow> bool" where
  "validate_stub_token x token_b64 bundle_hash =
     (case x_b64_decode x (trim token_b64) of
        None \<Rightarrow> False
      | Some bytes \<Rightarrow>
          if \<not> valid_utf8 bytes then False
          else str_contains (bytes_str bytes) stub_marker \<and> str_contains (bytes_str bytes) bundle_hash)"

definition verify_tsa_attestation :: "ext \<Rightarrow> TsaAttestation \<Rightarrow> string \<Rightarrow> TsaStatus" where
  "verify_tsa_attestation x att bundle_hash =
     (if ta_tsr_hash att \<noteq> bundle_hash then TsaFailed
      else if \<not> ta_signature_valid att then TsaFailed
      else if ta_raw_token_b64 att = [] then TsaFailed
      else if validate_stub_token x (ta_raw_token_b64 att) bundle_hash then TsaVerified
      else TsaFailed)"

definition tsa_status_for_bundle :: "ext \<Rightarrow> TsaAttestation option \<Rightarrow> string \<Rightarrow> TsaStatus" where
  "tsa_status_for_bundle x tsa bundle_hash = (case tsa of
     None \<Rightarrow> TsaNotProvided | Some att \<Rightarrow> verify_tsa_attestation x att bundle_hash)"

section \<open>Trust configuration\<close>

datatype TsaConfigError =
    MissingCaPath | CaNotFound string | MissingTsaCertPath | TsaCertNotFound string

definition check_tsa_configuration ::
  "(string \<Rightarrow> bool) \<Rightarrow> string option \<Rightarrow> string option \<Rightarrow> TsaConfigError + unit" where
  "check_tsa_configuration is_file ca_path untrusted_path =
     bind_res (ok_or MissingCaPath ca_path) (\<lambda>ca.
     if \<not> is_file ca then Inl (CaNotFound ca)
     else bind_res (ok_or MissingTsaCertPath untrusted_path) (\<lambda>untrusted.
     if \<not> is_file untrusted then Inl (TsaCertNotFound untrusted) else Inr ()))"

definition env_path :: "string option \<Rightarrow> string option" where
  "env_path v = (case map_option trim v of Some s \<Rightarrow> if s = [] then None else Some s | None \<Rightarrow> None)"

definition freetsa_trust_path_options_from_env :: "tsa_env \<Rightarrow> string option \<times> string option" where
  "freetsa_trust_path_options_from_env te = (env_path (te_ca_path te), env_path (te_untrusted_path te))"

fun verification_reason_for_config_error :: "TsaConfigError \<Rightarrow> string" where
  "verification_reason_for_config_error MissingCaPath = ''trust_material_missing''"
| "verification_reason_for_config_error MissingTsaCertPath = ''trust_material_missing''"
| "verification_reason_for_config_error (CaNotFound _) = ''trust_material_invalid''"
| "verification_reason_for_config_error (TsaCertNotFound _) = ''trust_material_invalid''"

definition is_production_tsa_env :: "string \<Rightarrow> string option \<Rightarrow> bool" where
  "is_production_tsa_env environment app_env \<longleftrightarrow>
     to_ascii_lowercase environment = ''production'' \<or>
     (case app_env of Some v \<Rightarrow> to_ascii_lowercase v = ''production'' | None \<Rightarrow> False)"

section \<open>Read-path verification\<close>

datatype TsaVerificationStatus = Verified | VerifiedCached | VFailed | Unavailable

datatype TsaVerificationReason =
    TrustMaterialMissing | TrustMaterialInvalid | TsaNetworkUnavailable | VerificationFailed

fun reason_str :: "TsaVerificationReason \<Rightarrow> string" where
  "reason_str TrustMaterialMissing = ''trust_material_missing''"
| "reason_str TrustMaterialInvalid = ''trust_material_invalid''"
| "reason_str TsaNetworkUnavailable = ''tsa_network_unavailable''"
| "reason_str VerificationFailed = ''verification_failed''"

fun verification_status_str :: "TsaVerificationStatus \<Rightarrow> string" where
  "verification_status_str Verified = ''verified''"
| "verification_status_str VerifiedCached = ''verified_cached''"
| "verification_status_str VFailed = ''failed''"
| "verification_status_str Unavailable = ''unavailable''"

definition is_failure :: "TsaVerificationStatus \<Rightarrow> bool" where
  "is_failure s \<longleftrightarrow> s = VFailed"

fun cache_value :: "TsaVerificationStatus \<Rightarrow> string option" where
  "cache_value Verified = Some ''verified''"
| "cache_value VerifiedCached = Some ''verified''"
| "cache_value VFailed = Some ''failed''"
| "cache_value Unavailable = Some ''unavailable''"

record TsaVerificationOutcome =
  vo_status :: TsaVerificationStatus
  vo_reason :: "TsaVerificationReason option"

definition vo_verified :: TsaVerificationOutcome where
  "vo_verified = \<lparr> vo_status = Verified, vo_reason = None \<rparr>"

definition vo_failed :: TsaVerificationOutcome where
  "vo_failed = \<lparr> vo_status = VFailed, vo_reason = Some VerificationFailed \<rparr>"

definition token_sha256_hex :: "ext \<Rightarrow> byte list \<Rightarrow> string" where
  "token_sha256_hex x token = sha_hex x token"

definition stubs_allowed_in_current_env :: "tsa_env \<Rightarrow> bool" where
  "stubs_allowed_in_current_env te \<longleftrightarrow>
     (case te_dev_mode te of Some v \<Rightarrow> to_ascii_lowercase v \<in> {''1'', ''true'', ''yes''} | None \<Rightarrow> False) \<or>
     (case te_app_env te of Some v \<Rightarrow> to_ascii_lowercase v = ''development'' | None \<Rightarrow> False)"

definition is_evident_stub_json_token :: "byte list \<Rightarrow> bool" where
  "is_evident_stub_json_token bytes \<longleftrightarrow> valid_utf8 bytes \<and> str_contains (bytes_str bytes) stub_marker"

record CachedTsaVerification =
  ct_verification_status :: "string option"
  ct_token_sha256 :: "string option"

definition cached_status_if_fresh :: "CachedTsaVerification \<Rightarrow> string \<Rightarrow> TsaVerificationStatus option" where
  "cached_status_if_fresh cache current_token_sha =
     (case (ct_verification_status cache, ct_token_sha256 cache) of
        (Some status, Some cached_sha) \<Rightarrow>
          if cached_sha \<noteq> current_token_sha then None
          else if status = ''verified'' then Some VerifiedCached else None
      | _ \<Rightarrow> None)"

definition stub_sha256_from_token_bytes :: "tsa_env \<Rightarrow> byte list \<Rightarrow> string option" where
  "stub_sha256_from_token_bytes te token =
     (if \<not> valid_utf8 token then None
      else case te_parse_json te (bytes_str token) of
        None \<Rightarrow> None
      | Some payload \<Rightarrow> Option.bind (json_get payload ''sha256'') json_str)"

text \<open>\<open>raw_token_b64\<close> is the Base64 text of \<open>token\<close>, which \<open>validate_stub_token\<close> decodes again.\<close>

definition verify_stub_token ::
  "ext \<Rightarrow> tsa_env \<Rightarrow> byte list \<Rightarrow> string \<Rightarrow> TsaVerificationOutcome" where
  "verify_stub_token x te token merkle_root_hex =
     (if \<not> stubs_allowed_in_current_env te then vo_failed
      else case stub_sha256_from_token_bytes te token of
        None \<Rightarrow> vo_failed
      | Some tsr_hash \<Rightarrow>
          let att = \<lparr> ta_provider = ''stub'', ta_timestamp = 0, ta_tsr_hash = tsr_hash,
                ta_signature_valid = True, ta_raw_token_b64 = x_b64_encode x token, ta_trust_level = Stub \<rparr>
          in (case verify_tsa_attestation x att merkle_root_hex of
                TsaVerified \<Rightarrow> vo_verified | _ \<Rightarrow> vo_failed))"

definition reason_from_config_error :: "TsaConfigError \<Rightarrow> TsaVerificationReason" where
  "reason_from_config_error err =
     (if verification_reason_for_config_error err = ''trust_material_invalid''
      then TrustMaterialInvalid else TrustMaterialMissing)"

definition verify_rfc3161_token ::
  "ext \<Rightarrow> tsa_env \<Rightarrow> byte list \<Rightarrow> string \<Rightarrow> TsaVerificationOutcome" where
  "verify_rfc3161_token x te token merkle_root_hex =
     (case x_hex_decode x merkle_root_hex of
        None \<Rightarrow> vo_failed
      | Some hash \<Rightarrow>
          if length hash \<noteq> 32 then vo_failed
          else if \<not> te_validate_tsr te token hash then vo_failed
          else
            let (ca, untrusted) = freetsa_trust_path_options_from_env te in
            (case check_tsa_configuration (te_is_file te) ca untrusted of
               Inl err \<Rightarrow> \<lparr> vo_status = Unavailable, vo_reason = Some (reason_from_config_error err) \<rparr>
             | Inr _ \<Rightarrow>
                 if te_verify_tsr te token hash (the ca) (the untrusted) then vo_verified else vo_failed))"

definition verify_token_fresh ::
  "ext \<Rightarrow> tsa_env \<Rightarrow> byte list \<Rightarrow> string \<Rightarrow> TsaVerificationOutcome" where
  "verify_token_fresh x te token merkle_root_hex =
     (if is_evident_stub_json_token token then verify_stub_token x te token merkle_root_hex
      else verify_rfc3161_token x te token merkle_root_hex)"

definition persist_verification_cache ::
  "timestamp \<Rightarrow> uuid \<Rightarrow> string \<Rightarrow> string \<Rightarrow> TsaVerificationStatus \<Rightarrow> db \<Rightarrow> db" where
  "persist_verification_cache now chain_id merkle_root token_sha outcome d =
     (case cache_value outcome of
        None \<Rightarrow> d
      | Some status_value \<Rightarrow>
          d\<lparr> tsa_tokens := update_where
               (\<lambda>t. t_chain_id t = chain_id \<and> t_merkle_root t = merkle_root \<and>
                  (t_verification_status t = None \<or> t_token_sha256 t \<noteq> Some token_sha))
               (\<lambda>t. t\<lparr> t_verification_status := Some status_value, t_verified_at := Some now,
                  t_token_sha256 := Some token_sha \<rparr>)
               (tsa_tokens d) \<rparr>)"

definition resolve_and_cache_tsa_verification ::
  "ext \<Rightarrow> tsa_env \<Rightarrow> timestamp \<Rightarrow> uuid \<Rightarrow> string \<Rightarrow> byte list \<Rightarrow>
   CachedTsaVerification \<Rightarrow> db \<Rightarrow> TsaVerificationOutcome \<times> db" where
  "resolve_and_cache_tsa_verification x te now chain_id merkle_root token cache d =
     (let current_sha = token_sha256_hex x token in
      case cached_status_if_fresh cache current_sha of
        Some cached \<Rightarrow> (\<lparr> vo_status = cached, vo_reason = None \<rparr>, d)
      | None \<Rightarrow>
          let outcome = verify_token_fresh x te token merkle_root in
          (outcome, persist_verification_cache now chain_id merkle_root current_sha (vo_status outcome) d))"

section \<open>Proof state\<close>

record ResolvedProofState =
  rp_status :: ProofStatus
  rp_tsa :: "json option"
  rp_context :: ProofContext
  rp_resolved_root :: string

definition load_tsa_row_for_root :: "uuid \<Rightarrow> string \<Rightarrow> db \<Rightarrow> tsa_row option" where
  "load_tsa_row_for_root chain_id merkle_root d =
     find (\<lambda>t. t_chain_id t = chain_id \<and> t_merkle_root t = merkle_root) (tsa_tokens d)"

definition tsa_validation_failure_signal :: "bool \<Rightarrow> TsaStatus \<Rightarrow> bool" where
  "tsa_validation_failure_signal tsa_row_present validation_status \<longleftrightarrow>
     tsa_row_present \<and> validation_status = TsaFailed"

definition proof_context_with_tsa :: "ProofContext \<Rightarrow> bool \<Rightarrow> TsaStatus \<Rightarrow> ProofContext" where
  "proof_context_with_tsa base tsa_row_present validation_status =
     base\<lparr> pc_failure_signal := pc_failure_signal base \<or>
        tsa_validation_failure_signal tsa_row_present validation_status \<rparr>"

definition tsa_state_json :: "tsa_row \<Rightarrow> TsaVerificationOutcome \<Rightarrow> json" where
  "tsa_state_json row outcome = JObject
     ([(''timestamp'', JNumber (sint (t_tsa_timestamp row))), (''serial'', JString (t_tsa_serial row)),
       (''token_bytes'', JNumber (int (length (t_tsa_token row)))),
       (''verification_status'', JString (verification_status_str (vo_status outcome)))] @
      (case vo_reason outcome of None \<Rightarrow> []
       | Some reason \<Rightarrow> [(''verification_reason'', JString (reason_str reason))]))"

definition resolve_proof_state ::
  "ext \<Rightarrow> tsa_env \<Rightarrow> timestamp \<Rightarrow> uuid \<Rightarrow> ProofSnapshot \<Rightarrow> db \<Rightarrow>
   ResolvedProofState \<times> db" where
  "resolve_proof_state x te now chain_id snapshot d =
     (let (validation_status, present, tsa, d') =
        (case load_tsa_row_for_root chain_id (ps_merkle_root snapshot) d of
           None \<Rightarrow> (TsaNotProvided, False, None, d)
         | Some row \<Rightarrow>
             let cache = \<lparr> ct_verification_status = t_verification_status row,
                   ct_token_sha256 = t_token_sha256 row \<rparr>;
                 (outcome, d') = resolve_and_cache_tsa_verification x te now chain_id
                   (ps_merkle_root snapshot) (t_tsa_token row) cache d
             in (if is_failure (vo_status outcome) then TsaFailed else TsaVerified, True,
                 Some (tsa_state_json row outcome), d'));
          context = proof_context_with_tsa (ps_context snapshot) present validation_status
      in (\<lparr> rp_status = derive_proof_status context, rp_tsa = tsa, rp_context = context,
            rp_resolved_root = ps_merkle_root snapshot \<rparr>, d'))"

section \<open>Lemmas\<close>

lemma stamp_chain_tables [simp]:
  "chains (stamp_chain x te c r e d) = chains d"
  "events (stamp_chain x te c r e d) = events d"
  "accounts (stamp_chain x te c r e d) = accounts d"
  "tariff_plans (stamp_chain x te c r e d) = tariff_plans d"
  "usage_monthly (stamp_chain x te c r e d) = usage_monthly d"
  "idempotency_records (stamp_chain x te c r e d) = idempotency_records d"
  "public_proof_registry (stamp_chain x te c r e d) = public_proof_registry d"
  "public_proof_materialization (stamp_chain x te c r e d) = public_proof_materialization d"
  "identity_keys (stamp_chain x te c r e d) = identity_keys d"
  by (simp_all add: stamp_chain_def split: option.splits prod.splits)

text \<open>A cached answer is only ever \<open>verified_cached\<close>, and only for the token it was computed from.\<close>

lemma cached_status_if_fresh_Some:
  "cached_status_if_fresh cache sha = Some s \<longleftrightarrow>
     s = VerifiedCached \<and> ct_verification_status cache = Some ''verified'' \<and> ct_token_sha256 cache = Some sha"
  by (auto simp: cached_status_if_fresh_def split: option.splits)

lemma verify_stub_verified:
  "vo_status (verify_stub_token x te token root) = Verified \<Longrightarrow>
   stubs_allowed_in_current_env te \<and> stub_sha256_from_token_bytes te token = Some root"
  by (auto simp: verify_stub_token_def vo_failed_def verify_tsa_attestation_def Let_def
      split: if_splits option.splits)

lemma rfc3161_verified:
  "vo_status (verify_rfc3161_token x te token root) = Verified \<Longrightarrow>
   \<exists>hash ca un. x_hex_decode x root = Some hash \<and> length hash = 32 \<and> te_validate_tsr te token hash \<and>
     env_path (te_ca_path te) = Some ca \<and> env_path (te_untrusted_path te) = Some un \<and>
     te_is_file te ca \<and> te_is_file te un \<and> te_verify_tsr te token hash ca un"
  by (auto simp: verify_rfc3161_token_def vo_failed_def Let_def freetsa_trust_path_options_from_env_def
      check_tsa_configuration_def bind_res_Inr ok_or_Inr split: if_splits option.splits sum.splits)

text \<open>The read path only ever moves the status down to \<open>Failed\<close>, for a failed token.\<close>

lemma derive_with_tsa:
  "derive_proof_status (proof_context_with_tsa c present v) =
     (if present \<and> v = TsaFailed then Failed else derive_proof_status c)"
  by (auto simp: derive_proof_status_def proof_context_with_tsa_def tsa_validation_failure_signal_def)

lemma resolve_no_row:
  "load_tsa_row_for_root c (ps_merkle_root s) d = None \<Longrightarrow>
   rp_status (fst (resolve_proof_state x te now c s d)) = derive_proof_status (ps_context s) \<and>
   snd (resolve_proof_state x te now c s d) = d"
  by (simp add: resolve_proof_state_def derive_with_tsa Let_def)

lemma resolve_root [simp]:
  "rp_resolved_root (fst (resolve_proof_state x te now c s d)) = ps_merkle_root s"
  by (simp add: resolve_proof_state_def Let_def split: prod.splits)

lemma resolve_status_cases:
  "rp_status (fst (resolve_proof_state x te now c s d)) \<in> {derive_proof_status (ps_context s), Failed}"
  by (simp add: resolve_proof_state_def Let_def derive_with_tsa split: prod.splits)

lemma persist_cache_events [simp]:
  "events (persist_verification_cache now c r sha out d) = events d"
  "chains (persist_verification_cache now c r sha out d) = chains d"
  by (simp_all add: persist_verification_cache_def split: option.splits)

lemma resolve_tables [simp]:
  "events (snd (resolve_proof_state x te now c s d)) = events d"
  "chains (snd (resolve_proof_state x te now c s d)) = chains d"
  by (simp_all add: resolve_proof_state_def resolve_and_cache_tsa_verification_def Let_def
      split: option.splits prod.splits)

section \<open>The failing token\<close>

definition row_cache :: "tsa_row \<Rightarrow> CachedTsaVerification" where
  "row_cache t = \<lparr> ct_verification_status = t_verification_status t, ct_token_sha256 = t_token_sha256 t \<rparr>"

text \<open>A stored token turns the status to \<open>Failed\<close> exactly when the cache has no answer for it and verifying
  it fails.\<close>

definition stored_token_fails :: "ext \<Rightarrow> tsa_env \<Rightarrow> tsa_row \<Rightarrow> string \<Rightarrow> bool" where
  "stored_token_fails x te t root \<longleftrightarrow>
     cached_status_if_fresh (row_cache t) (token_sha256_hex x (t_tsa_token t)) = None \<and>
     vo_status (verify_token_fresh x te (t_tsa_token t) root) = VFailed"

lemma resolve_fails:
  "is_failure (vo_status (fst (resolve_and_cache_tsa_verification x te now c root (t_tsa_token t) (row_cache t) d))) \<longleftrightarrow>
     stored_token_fails x te t root"
  by (auto simp: resolve_and_cache_tsa_verification_def stored_token_fails_def is_failure_def Let_def
      cached_status_if_fresh_Some split: option.split)

lemma resolve_status:
  "rp_status (fst (resolve_proof_state x te now c s d)) =
     (if \<exists>t. load_tsa_row_for_root c (ps_merkle_root s) d = Some t \<and> stored_token_fails x te t (ps_merkle_root s)
      then Failed else derive_proof_status (ps_context s))"
proof (cases "load_tsa_row_for_root c (ps_merkle_root s) d")
  case None
  then show ?thesis by (simp add: resolve_no_row)
next
  case (Some t)
  obtain v d' where r: "resolve_and_cache_tsa_verification x te now c (ps_merkle_root s) (t_tsa_token t) (row_cache t) d = (v, d')"
    by fastforce
  then have "is_failure (vo_status v) \<longleftrightarrow> stored_token_fails x te t (ps_merkle_root s)"
    using resolve_fails [of x te now c "ps_merkle_root s" t d] by simp
  then show ?thesis
    using Some r by (simp add: resolve_proof_state_def derive_with_tsa Let_def row_cache_def)
qed

text \<open>Nothing but the cache columns of the tokens is written.\<close>

lemma resolve_writes_tokens: "\<exists>ts. snd (resolve_proof_state x te now c s d) = d\<lparr> tsa_tokens := ts \<rparr>"
proof -
  have same: "\<exists>ts. d = d\<lparr> tsa_tokens := ts \<rparr>" by (rule exI [of _ "tsa_tokens d"]) simp
  have "\<exists>ts. persist_verification_cache now c r sha out d = d\<lparr> tsa_tokens := ts \<rparr>" for r sha out
    using same by (auto simp: persist_verification_cache_def split: option.split)
  then have "\<exists>ts. snd (resolve_and_cache_tsa_verification x te now c r tok cache d) = d\<lparr> tsa_tokens := ts \<rparr>" for r tok cache
    using same by (simp add: resolve_and_cache_tsa_verification_def Let_def split: option.split)
  then show ?thesis
    using same by (simp add: resolve_proof_state_def Let_def split: option.split prod.split) (metis snd_conv)
qed

section \<open>What a cached answer rests on\<close>

text \<open>The life of the stored tokens.  The state holds the database, the rows that readers have loaded and not
  finished with, and the fresh verifications that succeeded, each with its environment (the trust
  material of the time), its time, its token and its root.  Stamping adds rows; a read loads a row, and
  finishes with it when others may have written it since; the bytes of a token may be replaced by
  anything behind the cache's back.\<close>

type_synonym tsa_history = "(tsa_env \<times> timestamp \<times> byte list \<times> string) list"

inductive tsa_step :: "ext \<Rightarrow> db \<times> tsa_row list \<times> tsa_history \<Rightarrow> db \<times> tsa_row list \<times> tsa_history \<Rightarrow> bool" for x where
  stamp: "tsa_step x (d, ls, h) (stamp_chain x te c root e d, ls, h)"
| load: "t \<in> set (tsa_tokens d) \<Longrightarrow> tsa_step x (d, ls, h) (d, t # ls, h)"
| answer: "t \<in> set ls \<Longrightarrow>
    resolve_and_cache_tsa_verification x te now (t_chain_id t) (t_merkle_root t) (t_tsa_token t) (row_cache t) d = (v, d') \<Longrightarrow>
    tsa_step x (d, ls, h) (d', ls, if vo_status v = Verified
      then (te, now, t_tsa_token t, t_merkle_root t) # h else h)"
| replace: "tsa_step x (d, ls, h)
    (d\<lparr> tsa_tokens := update_where P (\<lambda>t. t\<lparr> t_tsa_token := bytes \<rparr>) (tsa_tokens d) \<rparr>, ls, h)"

text \<open>A row cached as verified has its verification in the history.\<close>

definition cache_backed :: "ext \<Rightarrow> tsa_history \<Rightarrow> tsa_row \<Rightarrow> bool" where
  "cache_backed x h t \<longleftrightarrow> (t_verification_status t = Some ''verified'' \<longrightarrow>
     (\<exists>te at token. t_verified_at t = Some at \<and> t_token_sha256 t = Some (token_sha256_hex x token) \<and>
        (te, at, token, t_merkle_root t) \<in> set h \<and>
        vo_status (verify_token_fresh x te token (t_merkle_root t)) = Verified))"

fun tsa_ok :: "ext \<Rightarrow> db \<times> tsa_row list \<times> tsa_history \<Rightarrow> bool" where
  "tsa_ok x (d, ls, h) \<longleftrightarrow> list_all (cache_backed x h) (tsa_tokens d) \<and> list_all (cache_backed x h) ls"

lemma fresh_not_cached: "vo_status (verify_token_fresh x te token root) \<noteq> VerifiedCached"
  by (simp add: verify_token_fresh_def verify_stub_token_def verify_rfc3161_token_def vo_failed_def vo_verified_def
      Let_def split: option.split sum.split prod.split TsaStatus.split)

lemma cache_value_verified: "cache_value s = Some ''verified'' \<longleftrightarrow> s = Verified \<or> s = VerifiedCached"
  by (cases s) simp_all

lemma cache_backed_mono: "cache_backed x h t \<Longrightarrow> set h \<subseteq> set h' \<Longrightarrow> cache_backed x h' t"
  unfolding cache_backed_def by blast

lemma stamped_tokens: "t \<in> set (tsa_tokens (stamp_chain x te c root e d)) \<Longrightarrow>
   t \<in> set (tsa_tokens d) \<or> t_verification_status t = None"
  by (auto simp: stamp_chain_def split: option.splits if_splits prod.splits)

lemma persisted_backed:
  assumes old: "list_all (cache_backed x h) (tsa_tokens d)"
    and new: "vo_status v = Verified \<Longrightarrow> (te, now, token, root) \<in> set h \<and> v = verify_token_fresh x te token root"
    and fresh: "vo_status v \<noteq> VerifiedCached"
  shows "list_all (cache_backed x h)
    (tsa_tokens (persist_verification_cache now c root (token_sha256_hex x token) (vo_status v) d))"
proof -
  obtain val where val: "cache_value (vo_status v) = Some val" by (cases "vo_status v") simp_all
  have "cache_backed x h t" if t: "t \<in> set (tsa_tokens (persist_verification_cache now c root (token_sha256_hex x token) (vo_status v) d))" for t
  proof -
    obtain p where p: "p \<in> set (tsa_tokens d)" "t = p \<or> t_merkle_root p = root \<and>
        t = p\<lparr> t_verification_status := Some val, t_verified_at := Some now, t_token_sha256 := Some (token_sha256_hex x token) \<rparr>"
      using t by (auto simp: persist_verification_cache_def val set_update_where)
    from p(2) show ?thesis
    proof
      assume "t = p"
      then show ?thesis using old p(1) by (simp add: list_all_iff)
    next
      assume "t_merkle_root p = root \<and>
        t = p\<lparr> t_verification_status := Some val, t_verified_at := Some now, t_token_sha256 := Some (token_sha256_hex x token) \<rparr>"
      moreover have "vo_status v = Verified" if "val = ''verified''"
        using that val fresh by (auto simp: cache_value_verified)
      ultimately show ?thesis using new by (auto simp: cache_backed_def)
    qed
  qed
  then show ?thesis by (simp add: list_all_iff)
qed

lemma answer_backed:
  assumes "tsa_ok x (d, ls, h)" "t \<in> set ls"
    and ans: "resolve_and_cache_tsa_verification x te now (t_chain_id t) (t_merkle_root t) (t_tsa_token t) (row_cache t) d = (v, d')"
  shows "tsa_ok x (d', ls, if vo_status v = Verified then (te, now, t_tsa_token t, t_merkle_root t) # h else h)"
proof -
  define h' where "h' = (if vo_status v = Verified then (te, now, t_tsa_token t, t_merkle_root t) # h else h)"
  have "set h \<subseteq> set h'" by (auto simp: h'_def)
  then have old: "list_all (cache_backed x h') (tsa_tokens d)" "list_all (cache_backed x h') ls"
    using assms(1) cache_backed_mono by (auto simp: list_all_iff)
  have "list_all (cache_backed x h') (tsa_tokens d')"
  proof (cases "cached_status_if_fresh (row_cache t) (token_sha256_hex x (t_tsa_token t))")
    case (Some s)
    then show ?thesis using ans old(1) by (simp add: resolve_and_cache_tsa_verification_def Let_def)
  next
    case None
    then have v: "v = verify_token_fresh x te (t_tsa_token t) (t_merkle_root t)"
      "d' = persist_verification_cache now (t_chain_id t) (t_merkle_root t) (token_sha256_hex x (t_tsa_token t)) (vo_status v) d"
      using ans by (auto simp: resolve_and_cache_tsa_verification_def Let_def)
    show ?thesis unfolding v(2)
      by (rule persisted_backed [OF old(1), where te = te and now = now]) (simp_all add: v(1) h'_def fresh_not_cached)
  qed
  with old(2) show ?thesis unfolding h'_def [symmetric] by simp
qed

lemma tsa_step_ok: "tsa_step x w w' \<Longrightarrow> tsa_ok x w \<Longrightarrow> tsa_ok x w'"
proof (induction rule: tsa_step.induct)
  case (stamp d ls h te c root e)
  have "cache_backed x h t" if "t \<in> set (tsa_tokens (stamp_chain x te c root e d))" for t
    using stamped_tokens [OF that] stamp by (auto simp: list_all_iff cache_backed_def)
  with stamp show ?case by (simp add: list_all_iff)
next
  case (load t d ls h)
  then show ?case by (auto simp: list_all_iff)
next
  case (answer t ls te now d v d' h)
  then show ?case using answer_backed by blast
next
  case (replace d ls h P bytes)
  then show ?case by (auto simp: list_all_iff set_update_where cache_backed_def)
qed

interpretation tsa_life: kept "tsa_step x" "tsa_ok x" for x
  by unfold_locales (rule tsa_step_ok)

text \<open>Along a run that starts from rows nobody has verified, the answer of a read is that of a fresh
  verification, or is backed by one.\<close>

lemma read_is_backed:
  assumes "(tsa_step x)\<^sup>*\<^sup>* (d0, [], []) (d, ls, h)" "\<forall>t\<in>set (tsa_tokens d0). t_verification_status t = None"
    and "t \<in> set ls"
    and "resolve_and_cache_tsa_verification x te now (t_chain_id t) (t_merkle_root t) (t_tsa_token t) (row_cache t) d = (v, d')"
  shows "if vo_status v = VerifiedCached
     then d' = d \<and> (\<exists>te' at token. t_verified_at t = Some at \<and> (te', at, token, t_merkle_root t) \<in> set h \<and>
        vo_status (verify_token_fresh x te' token (t_merkle_root t)) = Verified \<and>
        token_sha256_hex x token = token_sha256_hex x (t_tsa_token t))
     else v = verify_token_fresh x te (t_tsa_token t) (t_merkle_root t)"
proof -
  have "tsa_ok x (d0, [], [])" using assms(2) by (simp add: list_all_iff cache_backed_def)
  from tsa_life.run_inv [OF assms(1) this] have backed: "cache_backed x h t" using assms(3) by (simp add: list_all_iff)
  show ?thesis
  proof (cases "cached_status_if_fresh (row_cache t) (token_sha256_hex x (t_tsa_token t))")
    case (Some s)
    then have "s = VerifiedCached" "t_verification_status t = Some ''verified''"
      "t_token_sha256 t = Some (token_sha256_hex x (t_tsa_token t))"
      by (simp_all add: cached_status_if_fresh_Some row_cache_def)
    moreover have "v = \<lparr> vo_status = s, vo_reason = None \<rparr>" "d' = d"
      using assms(4) Some by (simp_all add: resolve_and_cache_tsa_verification_def Let_def)
    moreover obtain te' at token where "t_verified_at t = Some at" "t_token_sha256 t = Some (token_sha256_hex x token)"
      "(te', at, token, t_merkle_root t) \<in> set h" "vo_status (verify_token_fresh x te' token (t_merkle_root t)) = Verified"
      using backed calculation(2) unfolding cache_backed_def by blast
    ultimately show ?thesis by auto
  next
    case None
    then have "v = verify_token_fresh x te (t_tsa_token t) (t_merkle_root t)"
      using assms(4) by (simp add: resolve_and_cache_tsa_verification_def Let_def)
    then show ?thesis using fresh_not_cached by simp
  qed
qed

end
