(* ===== verification/PublicProof.thy ===== *)
theory PublicProof
  imports Database
begin

text \<open>
  \<open>src/public_proof.rs\<close>: the materialised public registry.  A transaction that the code ends
  with \<open>Ok\<close> after a statement failed on a unique constraint is rolled back by Postgres at
  \<open>COMMIT\<close>, so the model keeps the database it began with there.  The lemmas give the registry
  invariant: public ids are unique, at most one row per file hash is enabled, and every proof
  behind a disabled row is barred from being published again.
\<close>

section \<open>Model\<close>

definition normalize_stored_file_hash :: "string \<Rightarrow> string" where
  "normalize_stored_file_hash file_hash = to_ascii_lowercase (trim file_hash)"

definition tsa_class_from_plan :: "string \<Rightarrow> string" where
  "tsa_class_from_plan plan_name =
     (if plan_name = ''legal'' then ''legal''
      else if plan_name = ''identity'' then ''identity''
      else if plan_name = ''vault'' then ''vault''
      else ''basic'')"

text \<open>\<open>bytes\<close> are the 16 bytes the operating system's generator fills in.\<close>

definition generate_public_id :: "ext \<Rightarrow> byte list \<Rightarrow> string" where
  "generate_public_id x bytes = ''pv_'' @ x_b58_encode x bytes"

definition validate_public_proof_id :: "ext \<Rightarrow> string \<Rightarrow> bool" where
  "validate_public_proof_id x public_proof_id =
     (if \<not> prefix ''pv_'' public_proof_id then False
      else
        let suffix = drop 3 public_proof_id in
        if suffix = [] then False
        else if \<not> list_all (\<lambda>c. c \<in> set base58_alphabet) suffix then False
        else (case x_b58_decode x suffix of
          Some bytes \<Rightarrow> length bytes = 16
        | None \<Rightarrow> False))"

definition active_public_proof :: "string \<Rightarrow> db \<Rightarrow> registry_row option" where
  "active_public_proof file_hash d =
     find (\<lambda>r. r_file_hash r = file_hash \<and> r_enabled r) (public_proof_registry d)"

definition canonical_candidate :: "string \<Rightarrow> db \<Rightarrow> material_row option" where
  "canonical_candidate file_hash d =
     (case sort_key m_materialized_at
        (filter (\<lambda>m. m_file_hash m = file_hash \<and> \<not> m_sticky_disabled m) (public_proof_materialization d))
      of [] \<Rightarrow> None | m # _ \<Rightarrow> Some m)"

text \<open>\<open>None\<close>: the insertion met a unique constraint, the transaction is aborted.\<close>

definition sync_canonical_public_proof_in_tx ::
  "string \<Rightarrow> timestamp \<Rightarrow> string \<Rightarrow> string \<Rightarrow> db \<Rightarrow> db option" where
  "sync_canonical_public_proof_in_tx public_proof_id now file_hash tsa_class d =
     (case active_public_proof file_hash d of
        Some _ \<Rightarrow> Some d
      | None \<Rightarrow>
     (case canonical_candidate file_hash d of
        None \<Rightarrow> Some d
      | Some candidate \<Rightarrow>
          if public_proof_id \<in> r_public_proof_id ` set (public_proof_registry d) then None
          else Some (d\<lparr>
            public_proof_registry := public_proof_registry d @
              [\<lparr> r_public_proof_id = public_proof_id, r_file_hash = file_hash,
                 r_proof_status = ''REGISTERED'', r_registered_at = now, r_tsa_class = tsa_class,
                 r_integrity_state = ''VALID'', r_enabled = True \<rparr>],
            public_proof_materialization :=
              update_where (\<lambda>m. m_internal_proof_id m = m_internal_proof_id candidate)
                (\<lambda>m. m\<lparr> m_public_proof_id := Some public_proof_id \<rparr>) (public_proof_materialization d) \<rparr>)))"

definition insert_materialization :: "timestamp \<Rightarrow> uuid \<Rightarrow> string \<Rightarrow> db \<Rightarrow> db" where
  "insert_materialization now proof_id file_hash d =
     (if proof_id \<in> m_internal_proof_id ` set (public_proof_materialization d) then d
      else d\<lparr> public_proof_materialization := public_proof_materialization d @
        [\<lparr> m_internal_proof_id = proof_id, m_file_hash = file_hash, m_public_proof_id = None,
           m_materialized_at = now, m_sticky_disabled = False \<rparr>] \<rparr>)"

definition on_proof_anchored ::
  "ext \<Rightarrow> byte list \<Rightarrow> timestamp \<Rightarrow> uuid \<Rightarrow> string \<Rightarrow> string \<Rightarrow> db \<Rightarrow> db" where
  "on_proof_anchored x rnd now proof_id file_hash0 tsa_class d =
     (let file_hash = normalize_stored_file_hash file_hash0 in
      case sync_canonical_public_proof_in_tx (generate_public_id x rnd) now file_hash tsa_class
             (insert_materialization now proof_id file_hash d) of
        Some d' \<Rightarrow> d' | None \<Rightarrow> d)"

definition disable_canonical_public_proof :: "string \<Rightarrow> db \<Rightarrow> db" where
  "disable_canonical_public_proof file_hash0 d =
     (let file_hash = normalize_stored_file_hash file_hash0 in
      case active_public_proof file_hash d of
        None \<Rightarrow> d
      | Some r \<Rightarrow> d\<lparr>
          public_proof_registry := update_where (\<lambda>q. r_public_proof_id q = r_public_proof_id r)
            (\<lambda>q. q\<lparr> r_enabled := False \<rparr>) (public_proof_registry d),
          public_proof_materialization :=
            update_where (\<lambda>m. m_public_proof_id m = Some (r_public_proof_id r))
              (\<lambda>m. m\<lparr> m_sticky_disabled := True \<rparr>) (public_proof_materialization d) \<rparr>)"

definition sync_canonical_public_proof ::
  "ext \<Rightarrow> byte list \<Rightarrow> timestamp \<Rightarrow> string \<Rightarrow> string \<Rightarrow> db \<Rightarrow> db" where
  "sync_canonical_public_proof x rnd now file_hash0 tsa_class d =
     (let file_hash = normalize_stored_file_hash file_hash0 in
      case sync_canonical_public_proof_in_tx (generate_public_id x rnd) now file_hash tsa_class d of
        Some d' \<Rightarrow> d' | None \<Rightarrow> d)"

section \<open>The registry invariant\<close>

definition unique_active :: "registry_row list \<Rightarrow> bool" where
  "unique_active rs \<longleftrightarrow> distinct (map r_file_hash (filter r_enabled rs))"

definition materials_ok :: "registry_row list \<Rightarrow> material_row list \<Rightarrow> bool" where
  "materials_ok rs ms \<longleftrightarrow>
     distinct (map m_internal_proof_id ms) \<and>
     (\<forall>m\<in>set ms. \<forall>p. m_public_proof_id m = Some p \<longrightarrow>
       (\<exists>r\<in>set rs. r_public_proof_id r = p \<and> r_file_hash r = m_file_hash m \<and>
          (\<not> r_enabled r \<longrightarrow> m_sticky_disabled m)))"

definition registry_ok :: "db \<Rightarrow> bool" where
  "registry_ok d \<longleftrightarrow>
     distinct (map r_public_proof_id (public_proof_registry d)) \<and>
     unique_active (public_proof_registry d) \<and>
     materials_ok (public_proof_registry d) (public_proof_materialization d)"

lemma active_None_fresh:
  "active_public_proof h d = None \<Longrightarrow> h \<notin> r_file_hash ` set (filter r_enabled (public_proof_registry d))"
  by (auto simp: active_public_proof_def find_None_iff)

lemma canonical_candidateD:
  assumes "canonical_candidate h d = Some m"
  shows "m \<in> set (public_proof_materialization d)" "m_file_hash m = h" "\<not> m_sticky_disabled m"
proof -
  let ?F = "filter (\<lambda>m. m_file_hash m = h \<and> \<not> m_sticky_disabled m) (public_proof_materialization d)"
  from assms obtain ms where "sort_key m_materialized_at ?F = m # ms"
    by (auto simp: canonical_candidate_def split: list.splits)
  then have "m \<in> set (sort_key m_materialized_at ?F)" by (simp only: list.set_intros)
  then show "m \<in> set (public_proof_materialization d)" "m_file_hash m = h" "\<not> m_sticky_disabled m"
    by auto
qed

lemma registry_ok_insert_materialization:
  "registry_ok d \<Longrightarrow> registry_ok (insert_materialization now p h d)"
  by (auto simp: registry_ok_def materials_ok_def insert_materialization_def)

lemma materials_ok_publish:
  assumes ok: "materials_ok rs ms" and c: "c \<in> set ms" "m_file_hash c = r_file_hash r" and r: "r_enabled r"
  shows "materials_ok (rs @ [r])
    (update_where (\<lambda>m. m_internal_proof_id m = m_internal_proof_id c)
      (\<lambda>m. m\<lparr> m_public_proof_id := Some (r_public_proof_id r) \<rparr>) ms)"
    (is "materials_ok _ (update_where ?P ?f ms)")
  unfolding materials_ok_def
proof (intro conjI ballI allI impI)
  have "map m_internal_proof_id (update_where ?P ?f ms) = map m_internal_proof_id ms"
    by (rule map_update_where) simp
  then show "distinct (map m_internal_proof_id (update_where ?P ?f ms))"
    using ok by (simp add: materials_ok_def)
next
  fix m p assume m: "m \<in> set (update_where ?P ?f ms)" "m_public_proof_id m = Some p"
  from in_update_where [OF m(1)] obtain m0 where m0: "m0 \<in> set ms" "m = (if ?P m0 then ?f m0 else m0)"
    by blast
  show "\<exists>q\<in>set (rs @ [r]). r_public_proof_id q = p \<and> r_file_hash q = m_file_hash m \<and>
      (\<not> r_enabled q \<longrightarrow> m_sticky_disabled m)"
  proof (cases "?P m0")
    case True
    have "m0 = c" using ok True m0(1) c(1) unfolding materials_ok_def by (metis distinct_key_eq)
    with m0 m(2) c(2) r True show ?thesis by simp
  next
    case False
    with m0 m(2) ok show ?thesis unfolding materials_ok_def by auto
  qed
qed

lemma registry_ok_sync:
  assumes ok: "registry_ok d" and s: "sync_canonical_public_proof_in_tx pid now h cls d = Some d'"
  shows "registry_ok d'"
proof (cases "active_public_proof h d")
  case (Some r)
  with s ok show ?thesis by (simp add: sync_canonical_public_proof_in_tx_def)
next
  case None
  show ?thesis
  proof (cases "canonical_candidate h d")
    case None2: None
    with None s ok show ?thesis by (simp add: sync_canonical_public_proof_in_tx_def)
  next
    case (Some c)
    let ?r = "\<lparr> r_public_proof_id = pid, r_file_hash = h, r_proof_status = ''REGISTERED'',
        r_registered_at = now, r_tsa_class = cls, r_integrity_state = ''VALID'', r_enabled = True \<rparr>"
    note c = canonical_candidateD [OF Some]
    have fresh: "pid \<notin> r_public_proof_id ` set (public_proof_registry d)"
      and d': "public_proof_registry d' = public_proof_registry d @ [?r]"
        "public_proof_materialization d' = update_where (\<lambda>m. m_internal_proof_id m = m_internal_proof_id c)
          (\<lambda>m. m\<lparr> m_public_proof_id := Some pid \<rparr>) (public_proof_materialization d)"
      using s None Some by (simp_all add: sync_canonical_public_proof_in_tx_def split: if_splits) auto
    have "distinct (map r_public_proof_id (public_proof_registry d'))"
      using ok fresh by (simp add: d' registry_ok_def)
    moreover have "unique_active (public_proof_registry d')"
      using ok active_None_fresh [OF None] by (simp add: d' registry_ok_def unique_active_def)
    moreover have "materials_ok (public_proof_registry d') (public_proof_materialization d')"
      using materials_ok_publish [of "public_proof_registry d" "public_proof_materialization d" c ?r] ok c
      by (simp add: d' registry_ok_def)
    ultimately show ?thesis by (simp add: registry_ok_def)
  qed
qed

lemma registry_ok_anchored:
  "registry_ok d \<Longrightarrow> registry_ok (on_proof_anchored x rnd now p h cls d)"
  using registry_ok_sync registry_ok_insert_materialization
  by (fastforce simp: on_proof_anchored_def Let_def split: option.splits)

lemma registry_ok_sync_public:
  "registry_ok d \<Longrightarrow> registry_ok (sync_canonical_public_proof x rnd now h cls d)"
  using registry_ok_sync by (fastforce simp: sync_canonical_public_proof_def Let_def split: option.splits)

lemma distinct_filter_shrink:
  "distinct (map f (filter P xs)) \<Longrightarrow> (\<And>x. f (g x) = f x) \<Longrightarrow> (\<And>x. P (g x) \<Longrightarrow> P x) \<Longrightarrow>
   distinct (map f (filter P (map g xs)))"
proof (induction xs)
  case (Cons x xs)
  have "f x \<notin> f ` set (filter P (map g xs))" if "P (g x)"
  proof
    assume "f x \<in> f ` set (filter P (map g xs))"
    then obtain y where y: "y \<in> set xs" "P (g y)" "f x = f (g y)" by auto
    have "P x" "P y" "f x = f y" using Cons.prems(2,3) that y(2,3) by simp_all
    with Cons.prems(1) y(1) show False by auto
  qed
  with Cons show ?case by (auto split: if_splits)
qed simp

lemma registry_ok_disable:
  assumes ok: "registry_ok d"
  shows "registry_ok (disable_canonical_public_proof h d)"
proof (cases "active_public_proof (normalize_stored_file_hash h) d")
  case None
  with ok show ?thesis by (simp add: disable_canonical_public_proof_def Let_def)
next
  case (Some r)
  let ?P = "\<lambda>q. r_public_proof_id q = r_public_proof_id r" and ?f = "\<lambda>q. q\<lparr> r_enabled := False \<rparr>"
  let ?Q = "\<lambda>m. m_public_proof_id m = Some (r_public_proof_id r)" and ?g = "\<lambda>m. m\<lparr> m_sticky_disabled := True \<rparr>"
  define rs where "rs = public_proof_registry d"
  define ms where "ms = public_proof_materialization d"
  have d': "public_proof_registry (disable_canonical_public_proof h d) = update_where ?P ?f rs"
      "public_proof_materialization (disable_canonical_public_proof h d) = update_where ?Q ?g ms"
    using Some by (simp_all add: disable_canonical_public_proof_def Let_def rs_def ms_def)
  have "distinct (map r_public_proof_id (update_where ?P ?f rs))"
    using ok by (subst map_update_where) (simp_all add: registry_ok_def rs_def)
  moreover have "unique_active (update_where ?P ?f rs)"
    using ok unfolding unique_active_def update_where_def registry_ok_def rs_def
    by (intro distinct_filter_shrink) (auto split: if_splits)
  moreover have "materials_ok (update_where ?P ?f rs) (update_where ?Q ?g ms)"
    unfolding materials_ok_def
  proof (intro conjI ballI allI impI)
    have "map m_internal_proof_id (update_where ?Q ?g ms) = map m_internal_proof_id ms"
      by (rule map_update_where) simp
    then show "distinct (map m_internal_proof_id (update_where ?Q ?g ms))"
      using ok by (simp add: registry_ok_def materials_ok_def ms_def)
  next
    fix m p assume m: "m \<in> set (update_where ?Q ?g ms)" "m_public_proof_id m = Some p"
    from in_update_where [OF m(1)] obtain m0 where m0: "m0 \<in> set ms" "m = (if ?Q m0 then ?g m0 else m0)"
      by blast
    then have "m_public_proof_id m0 = Some p" "m_file_hash m = m_file_hash m0"
      and sticky: "m_sticky_disabled m \<longleftrightarrow> m_sticky_disabled m0 \<or> ?Q m0" using m(2) by (auto split: if_splits)
    with ok m0(1) obtain q where q: "q \<in> set rs" "r_public_proof_id q = p" "r_file_hash q = m_file_hash m"
      "\<not> r_enabled q \<longrightarrow> m_sticky_disabled m0"
      unfolding registry_ok_def materials_ok_def rs_def ms_def by metis
    let ?q = "if ?P q then ?f q else q"
    have "?q \<in> set (update_where ?P ?f rs)" using q(1) by (auto simp: set_update_where)
    moreover have "r_public_proof_id ?q = p" "r_file_hash ?q = m_file_hash m" using q by auto
    moreover have "\<not> r_enabled ?q \<longrightarrow> m_sticky_disabled m"
      using q sticky \<open>m_public_proof_id m0 = Some p\<close> by auto
    ultimately show "\<exists>q\<in>set (update_where ?P ?f rs). r_public_proof_id q = p \<and> r_file_hash q = m_file_hash m \<and>
        (\<not> r_enabled q \<longrightarrow> m_sticky_disabled m)" by blast
  qed
  ultimately show ?thesis by (simp add: registry_ok_def d')
qed

lemma anchored_other_tables:
  "chains (on_proof_anchored x rnd now p h cls d) = chains d"
  "events (on_proof_anchored x rnd now p h cls d) = events d"
  "tsa_tokens (on_proof_anchored x rnd now p h cls d) = tsa_tokens d"
  "accounts (on_proof_anchored x rnd now p h cls d) = accounts d"
  "tariff_plans (on_proof_anchored x rnd now p h cls d) = tariff_plans d"
  "usage_monthly (on_proof_anchored x rnd now p h cls d) = usage_monthly d"
  "idempotency_records (on_proof_anchored x rnd now p h cls d) = idempotency_records d"
  "identity_keys (on_proof_anchored x rnd now p h cls d) = identity_keys d"
  by (simp_all add: on_proof_anchored_def Let_def sync_canonical_public_proof_in_tx_def
      insert_materialization_def split: option.splits)

text \<open>What the invariant says of one file hash, and what disabling does.\<close>

lemma unique_active_count:
  "unique_active rs \<Longrightarrow> length (filter (\<lambda>r. r_enabled r \<and> r_file_hash r = h) rs) \<le> 1"
  by (induction rs) (auto simp: unique_active_def filter_empty_conv image_iff split: if_splits)

lemma disable_effect:
  assumes ok: "registry_ok d" and r: "active_public_proof (normalize_stored_file_hash f) d = Some r"
  defines "d1 \<equiv> disable_canonical_public_proof f d"
  shows "active_public_proof (normalize_stored_file_hash f) d1 = None"
    and "q \<in> set (public_proof_registry d1) \<Longrightarrow> r_public_proof_id q = r_public_proof_id r \<Longrightarrow> \<not> r_enabled q"
    and "m \<in> set (public_proof_materialization d1) \<Longrightarrow> m_public_proof_id m = Some (r_public_proof_id r) \<Longrightarrow>
      m_sticky_disabled m"
proof -
  let ?h = "normalize_stored_file_hash f"
  have r': "r \<in> set (public_proof_registry d)" "r_file_hash r = ?h" "r_enabled r"
    using r by (auto simp: active_public_proof_def dest: find_SomeD)
  have d1: "public_proof_registry d1 = update_where (\<lambda>q. r_public_proof_id q = r_public_proof_id r)
      (\<lambda>q. q\<lparr> r_enabled := False \<rparr>) (public_proof_registry d)"
    "public_proof_materialization d1 = update_where (\<lambda>m. m_public_proof_id m = Some (r_public_proof_id r))
      (\<lambda>m. m\<lparr> m_sticky_disabled := True \<rparr>) (public_proof_materialization d)"
    by (simp_all add: d1_def disable_canonical_public_proof_def r Let_def)
  have same: "q = r" if "q \<in> set (public_proof_registry d)" "r_enabled q" "r_file_hash q = ?h" for q
  proof (rule distinct_key_eq [where f = r_file_hash])
    show "distinct (map r_file_hash (filter r_enabled (public_proof_registry d)))"
      using ok by (simp add: registry_ok_def unique_active_def)
  qed (use that r' in auto)
  show "active_public_proof ?h d1 = None"
    using same by (auto simp: active_public_proof_def find_None_iff d1 set_update_where)
  show "q \<in> set (public_proof_registry d1) \<Longrightarrow> r_public_proof_id q = r_public_proof_id r \<Longrightarrow> \<not> r_enabled q"
    by (auto simp: d1 set_update_where split: if_splits)
  show "m \<in> set (public_proof_materialization d1) \<Longrightarrow> m_public_proof_id m = Some (r_public_proof_id r) \<Longrightarrow>
      m_sticky_disabled m"
    by (auto simp: d1 set_update_where split: if_splits)
qed

text \<open>An anchored proof makes the hash of its file public: under the row that was enabled before, or else
  under a new one.\<close>

lemma candidate_exists:
  assumes "m \<in> set (public_proof_materialization d)" "m_file_hash m = h" "\<not> m_sticky_disabled m"
  shows "canonical_candidate h d \<noteq> None"
proof -
  let ?F = "filter (\<lambda>m. m_file_hash m = h \<and> \<not> m_sticky_disabled m) (public_proof_materialization d)"
  have "m \<in> set (sort_key m_materialized_at ?F)" using assms by simp
  then have "sort_key m_materialized_at ?F \<noteq> []" by (metis list.distinct(1) list.set_cases)
  then show ?thesis by (simp add: canonical_candidate_def split: list.split)
qed

lemma anchored_publishes:
  assumes "p \<notin> m_internal_proof_id ` set (public_proof_materialization d)"
    and "generate_public_id x rnd \<notin> r_public_proof_id ` set (public_proof_registry d)"
  shows "active_public_proof (normalize_stored_file_hash f) (on_proof_anchored x rnd now p f cls d) =
    Some (case active_public_proof (normalize_stored_file_hash f) d of Some r \<Rightarrow> r
      | None \<Rightarrow> \<lparr> r_public_proof_id = generate_public_id x rnd, r_file_hash = normalize_stored_file_hash f,
          r_proof_status = ''REGISTERED'', r_registered_at = now, r_tsa_class = cls,
          r_integrity_state = ''VALID'', r_enabled = True \<rparr>)"
proof -
  let ?h = "normalize_stored_file_hash f" and ?d = "insert_materialization now p (normalize_stored_file_hash f) d"
  have same: "public_proof_registry ?d = public_proof_registry d" by (simp add: insert_materialization_def)
  then have active: "active_public_proof ?h ?d = active_public_proof ?h d" by (simp add: active_public_proof_def)
  have "canonical_candidate ?h ?d \<noteq> None"
    by (rule candidate_exists [of "\<lparr> m_internal_proof_id = p, m_file_hash = ?h, m_public_proof_id = None,
           m_materialized_at = now, m_sticky_disabled = False \<rparr>"]) (use assms(1) in \<open>simp_all add: insert_materialization_def\<close>)
  then obtain c where c: "canonical_candidate ?h ?d = Some c" by blast
  show ?thesis
  proof (cases "active_public_proof ?h d")
    case (Some r)
    then show ?thesis using active
      by (simp add: on_proof_anchored_def Let_def sync_canonical_public_proof_in_tx_def)
  next
    case None
    moreover have "find (\<lambda>r. r_file_hash r = ?h \<and> r_enabled r) (public_proof_registry d @ [r]) = Some r"
      if "r_file_hash r = ?h" "r_enabled r" for r
      using None that by (simp add: find_append active_public_proof_def)
    ultimately show ?thesis using c active assms(2)
      by (simp add: on_proof_anchored_def Let_def sync_canonical_public_proof_in_tx_def same)
        (simp add: active_public_proof_def)
  qed
qed

end
