(* ===== verification/Capabilities.thy ===== *)
theory Capabilities
  imports Database
begin

text \<open>
  Tariff plans: \<open>src/service/capabilities.rs\<close>, \<open>src/service/entitlements.rs\<close>,
  \<open>src/service/tariff.rs\<close>, and the four plans the migrations insert.
\<close>

section \<open>Model\<close>

datatype TsaMode = Machine | Qualified

definition tsa_mode_from_db :: "string \<Rightarrow> TsaMode" where
  "tsa_mode_from_db s = (if s = ''qualified'' then Qualified else Machine)"

record AccountCapabilities =
  cap_plan_name :: string
  cap_tsa_mode :: TsaMode
  cap_server_backup :: bool
  cap_history_recovery :: bool
  cap_identity_enabled :: bool
  cap_monthly_commits_limit :: "int option"
  cap_monthly_tsa_limit :: "int option"

definition can_commit :: "AccountCapabilities \<Rightarrow> int \<Rightarrow> bool" where
  "can_commit c current_commits = (case cap_monthly_commits_limit c of
     Some limit \<Rightarrow> current_commits < limit | None \<Rightarrow> True)"

definition can_use_tsa :: "AccountCapabilities \<Rightarrow> int \<Rightarrow> bool" where
  "can_use_tsa c current_tsa_requests = (case cap_monthly_tsa_limit c of
     Some limit \<Rightarrow> current_tsa_requests < limit | None \<Rightarrow> True)"

definition tsa_available :: "AccountCapabilities \<Rightarrow> bool" where
  "tsa_available c \<longleftrightarrow> cap_tsa_mode c = Machine"

text \<open>\<open>accounts a JOIN tariff_plans tp ON tp.plan_id = a.tariff_plan_id WHERE a.account_id = $1\<close>.\<close>

definition account_plan :: "uuid \<Rightarrow> db \<Rightarrow> sqlx_error + (account_row \<times> plan_row)" where
  "account_plan account_id d =
     bind_res (fetch_one (\<lambda>a. a_account_id a = account_id) (accounts d)) (\<lambda>a.
     bind_res (fetch_one (\<lambda>p. p_plan_id p = a_tariff_plan_id a) (tariff_plans d)) (\<lambda>p.
     Inr (a, p)))"

definition plan_capabilities :: "plan_row \<Rightarrow> AccountCapabilities" where
  "plan_capabilities p = \<lparr> cap_plan_name = p_name p, cap_tsa_mode = tsa_mode_from_db (p_tsa_mode p),
     cap_server_backup = p_server_backup p, cap_history_recovery = p_history_recovery p,
     cap_identity_enabled = p_identity_enabled p,
     cap_monthly_commits_limit = p_monthly_commits_limit p,
     cap_monthly_tsa_limit = p_monthly_tsa_limit p \<rparr>"

definition get_account_capabilities :: "uuid \<Rightarrow> db \<Rightarrow> sqlx_error + AccountCapabilities" where
  "get_account_capabilities account_id d =
     bind_res (account_plan account_id d) (\<lambda>(a, p). Inr (plan_capabilities p))"

datatype Feature = Tsa | ServerBackup | Identity | HistoryRecovery

datatype EntitlementError = Missing | EntitlementDatabase sqlx_error

fun allowed :: "AccountCapabilities \<Rightarrow> Feature \<Rightarrow> bool" where
  "allowed c Tsa = tsa_available c"
| "allowed c ServerBackup = cap_server_backup c"
| "allowed c Identity = cap_identity_enabled c"
| "allowed c HistoryRecovery = cap_history_recovery c"

definition require_feature :: "uuid \<Rightarrow> Feature \<Rightarrow> db \<Rightarrow> EntitlementError + unit" where
  "require_feature account_id feature d =
     bind_res (map_err EntitlementDatabase (get_account_capabilities account_id d)) (\<lambda>caps.
     if allowed caps feature then Inr () else Inl Missing)"

record PlanPreview =
  pv_name :: string
  pv_display_name :: string

text \<open>The subquery for the current priority is NULL when the account has no row: nothing is listed.\<close>

definition list_upgradeable_plans :: "uuid \<Rightarrow> db \<Rightarrow> PlanPreview list" where
  "list_upgradeable_plans account_id d = (case account_plan account_id d of
     Inl _ \<Rightarrow> []
   | Inr (a, cur) \<Rightarrow>
       map (\<lambda>p. \<lparr> pv_name = p_name p, pv_display_name = p_display_name p \<rparr>)
         (sort_key p_priority
           (filter (\<lambda>p. p_priority p > p_priority cur \<and> p_paddle_price_id p \<noteq> None) (tariff_plans d))))"

text \<open>The rows of \<open>migrations/20260629221400\<close>, with the priorities set later; the ids are arguments.\<close>

definition seed_plans :: "uuid \<Rightarrow> uuid \<Rightarrow> uuid \<Rightarrow> uuid \<Rightarrow> plan_row list" where
  "seed_plans free legal vault ident =
     [\<lparr> p_plan_id = free, p_name = ''free'', p_display_name = ''Free'', p_tsa_mode = ''machine'',
        p_server_backup = False, p_history_recovery = False, p_identity_enabled = False,
        p_monthly_commits_limit = Some 100, p_monthly_tsa_limit = Some 100,
        p_paddle_price_id = None, p_priority = 0 \<rparr>,
      \<lparr> p_plan_id = legal, p_name = ''legal'', p_display_name = ''Legal'', p_tsa_mode = ''qualified'',
        p_server_backup = False, p_history_recovery = False, p_identity_enabled = False,
        p_monthly_commits_limit = Some 5000, p_monthly_tsa_limit = Some 5000,
        p_paddle_price_id = None, p_priority = 1 \<rparr>,
      \<lparr> p_plan_id = vault, p_name = ''vault'', p_display_name = ''Vault'', p_tsa_mode = ''qualified'',
        p_server_backup = True, p_history_recovery = True, p_identity_enabled = False,
        p_monthly_commits_limit = Some 50000, p_monthly_tsa_limit = Some 50000,
        p_paddle_price_id = None, p_priority = 2 \<rparr>,
      \<lparr> p_plan_id = ident, p_name = ''identity'', p_display_name = ''Identity'', p_tsa_mode = ''qualified'',
        p_server_backup = True, p_history_recovery = True, p_identity_enabled = True,
        p_monthly_commits_limit = None, p_monthly_tsa_limit = None,
        p_paddle_price_id = None, p_priority = 3 \<rparr>]"

section \<open>Lemmas\<close>

lemma account_plan_Inr [res_iff]:
  "account_plan account_id d = Inr (a, p) \<longleftrightarrow>
     find (\<lambda>a. a_account_id a = account_id) (accounts d) = Some a \<and>
     find (\<lambda>p. p_plan_id p = a_tariff_plan_id a) (tariff_plans d) = Some p"
  by (auto simp: account_plan_def res_iff)

lemma get_account_capabilities_Inr [res_iff]:
  "get_account_capabilities account_id d = Inr c \<longleftrightarrow>
     (\<exists>a p. account_plan account_id d = Inr (a, p) \<and> c = plan_capabilities p)"
  by (auto simp: get_account_capabilities_def bind_res_Inr)

lemma account_plan_cong:
  "accounts d = accounts d' \<Longrightarrow> tariff_plans d = tariff_plans d' \<Longrightarrow>
   account_plan account_id d = account_plan account_id d'"
  by (simp add: account_plan_def)

lemma get_account_capabilities_cong:
  "accounts d = accounts d' \<Longrightarrow> tariff_plans d = tariff_plans d' \<Longrightarrow>
   get_account_capabilities account_id d = get_account_capabilities account_id d'"
  by (simp add: get_account_capabilities_def account_plan_cong [of d d'])

lemma require_feature_Inr [res_iff]:
  "require_feature account_id f d = Inr u \<longleftrightarrow>
     (\<exists>c. get_account_capabilities account_id d = Inr c \<and> allowed c f)"
  by (auto simp: require_feature_def bind_res_Inr map_err_Inr)

text \<open>On the plans of the migrations no plan has both the identity feature and an available TSA.\<close>

lemma seed_identity_qualified:
  "p \<in> set (seed_plans f l v i) \<Longrightarrow> p_identity_enabled p \<Longrightarrow> \<not> tsa_available (plan_capabilities p)"
  by (auto simp: seed_plans_def tsa_available_def plan_capabilities_def tsa_mode_from_db_def)

lemma seed_available_free:
  "p \<in> set (seed_plans f l v i) \<Longrightarrow> tsa_available (plan_capabilities p) \<longleftrightarrow> p_name p = ''free''"
  by (auto simp: seed_plans_def tsa_available_def plan_capabilities_def tsa_mode_from_db_def)

end
