(* ===== verification/Subscription.thy ===== *)
theory Subscription
  imports Errors Capabilities
begin

text \<open>
  Billing enforcement: \<open>src/service/subscription_enforcement.rs\<close> (the lazy transitions, the block
  on overdue subscriptions, the usage gate) and the middleware of
  \<open>src/middleware/subscription_enforcement.rs\<close> that runs them before every handler.
\<close>

section \<open>Model\<close>

record AccountBillingState =
  bs_plan_name :: string
  bs_subscription_status :: string
  bs_current_period_end :: "timestamp option"
  bs_monthly_commits_limit :: "int option"

text \<open>The two conditions of the statement; a comparison with NULL is not true.\<close>

definition period_over :: "timestamp \<Rightarrow> account_row \<Rightarrow> bool" where
  "period_over now a = (case a_current_period_end a of Some t \<Rightarrow> t < now | None \<Rightarrow> False)"

definition pending_due :: "timestamp \<Rightarrow> account_row \<Rightarrow> bool" where
  "pending_due now a \<longleftrightarrow> a_pending_tariff_plan_id a \<noteq> None \<and> period_over now a"

definition canceled_due :: "timestamp \<Rightarrow> account_row \<Rightarrow> bool" where
  "canceled_due now a \<longleftrightarrow> a_subscription_status a = ''canceled'' \<and> period_over now a"

definition free_plan_id :: "db \<Rightarrow> uuid option" where
  "free_plan_id d = map_option p_plan_id (find (\<lambda>p. p_name p = ''free'') (tariff_plans d))"

text \<open>The \<open>SET\<close> clauses, evaluated on the old row; \<open>free\<close> is the value of the subquery.\<close>

definition lazy_update :: "ext \<Rightarrow> uuid \<Rightarrow> timestamp \<Rightarrow> account_row \<Rightarrow> account_row" where
  "lazy_update x free now a = a\<lparr>
     a_tariff_plan_id := (if pending_due now a then the (a_pending_tariff_plan_id a)
        else if canceled_due now a then free else a_tariff_plan_id a),
     a_pending_tariff_plan_id :=
       (if pending_due now a \<or> canceled_due now a then None else a_pending_tariff_plan_id a),
     a_subscription_status := (if canceled_due now a then ''none'' else a_subscription_status a),
     a_current_period_end := (if pending_due now a then map_option (x_plus_month x) (a_current_period_end a)
        else if canceled_due now a then None else a_current_period_end a) \<rparr>"

text \<open>The \<open>WHERE\<close> clause.\<close>

definition lazy_due :: "timestamp \<Rightarrow> uuid \<Rightarrow> account_row \<Rightarrow> bool" where
  "lazy_due now account_id a \<longleftrightarrow>
     a_account_id a = account_id \<and> (pending_due now a \<or> canceled_due now a)"

definition apply_lazy_billing_transitions ::
  "ext \<Rightarrow> timestamp \<Rightarrow> uuid \<Rightarrow> db \<Rightarrow> sqlx_error + db" where
  "apply_lazy_billing_transitions x now account_id d =
     (case free_plan_id d of
        Some free \<Rightarrow>
          Inr (d\<lparr> accounts := update_where (lazy_due now account_id) (lazy_update x free now) (accounts d) \<rparr>)
      | None \<Rightarrow>
          if list_ex (\<lambda>a. lazy_due now account_id a \<and> \<not> pending_due now a) (accounts d)
          then Inl NotNullViolation
          else Inr (d\<lparr> accounts := update_where (lazy_due now account_id) (lazy_update x 0 now) (accounts d) \<rparr>))"

definition load_billing_state :: "uuid \<Rightarrow> db \<Rightarrow> sqlx_error + AccountBillingState" where
  "load_billing_state account_id d =
     bind_res (account_plan account_id d) (\<lambda>(a, p).
     Inr \<lparr> bs_plan_name = p_name p, bs_subscription_status = a_subscription_status a,
        bs_current_period_end = a_current_period_end a,
        bs_monthly_commits_limit = p_monthly_commits_limit p \<rparr>)"

definition write_blocked_by_subscription :: "AccountBillingState \<Rightarrow> bool" where
  "write_blocked_by_subscription s =
     (if bs_plan_name s = ''free'' then False else bs_subscription_status s = ''past_due'')"

text \<open>The usage row of the current month.\<close>

definition current_usage :: "ext \<Rightarrow> timestamp \<Rightarrow> uuid \<Rightarrow> db \<Rightarrow> usage_row option" where
  "current_usage x now account_id d =
     find (\<lambda>u. u_account_id u = account_id \<and> u_period_start u = x_month_start x now) (usage_monthly d)"

definition usage_limit_exceeded :: "ext \<Rightarrow> timestamp \<Rightarrow> uuid \<Rightarrow> db \<Rightarrow> sqlx_error + bool" where
  "usage_limit_exceeded x now account_id d =
     bind_res (account_plan account_id d) (\<lambda>(a, p).
     let usage = (case current_usage x now account_id d of Some u \<Rightarrow> u_server_commits u | None \<Rightarrow> 0) in
     Inr (case p_monthly_commits_limit p of Some limit \<Rightarrow> usage \<ge> limit | None \<Rightarrow> False))"

datatype Method = GET | HEAD | OPTIONS | POST | PUT | PATCH | DELETE

definition is_read_method :: "Method \<Rightarrow> bool" where
  "is_read_method m \<longleftrightarrow> m \<in> {GET, HEAD, OPTIONS}"

definition account_plan_name :: "uuid \<Rightarrow> db \<Rightarrow> sqlx_error + string" where
  "account_plan_name account_id d = bind_res (account_plan account_id d) (\<lambda>(a, p). Inr (p_name p))"

definition account_subscription_status :: "uuid \<Rightarrow> db \<Rightarrow> sqlx_error + string" where
  "account_subscription_status account_id d =
     bind_res (fetch_one (\<lambda>a. a_account_id a = account_id) (accounts d)) (\<lambda>a. Inr (a_subscription_status a))"

text \<open>The middleware: the error it answers with, or the request goes on (\<open>Inr ()\<close>), and the
  database afterwards.\<close>

definition subscription_enforcement_middleware ::
  "ext \<Rightarrow> timestamp \<Rightarrow> uuid option \<Rightarrow> Method \<Rightarrow> db \<Rightarrow> (ApiError + unit) \<times> db" where
  "subscription_enforcement_middleware x now auth m d = (case auth of
     None \<Rightarrow> (Inl Internal, d)
   | Some account_id \<Rightarrow>
       let is_write = (\<not> is_read_method m) in
       (case apply_lazy_billing_transitions x now account_id d of
          Inl _ \<Rightarrow> (Inl Internal, d)
        | Inr d' \<Rightarrow>
            (case load_billing_state account_id d' of
               Inl _ \<Rightarrow> (Inl Internal, d')
             | Inr billing \<Rightarrow>
                 if is_write \<and> write_blocked_by_subscription billing then (Inl PaymentRequired, d')
                 else if is_write then
                   (case usage_limit_exceeded x now account_id d' of
                      Inl _ \<Rightarrow> (Inl Internal, d')
                    | Inr True \<Rightarrow> (Inl UsageLimitExceeded, d')
                    | Inr False \<Rightarrow> (Inr (), d'))
                 else (Inr (), d'))))"

section \<open>Lemmas\<close>

lemma lazy_not_due:
  assumes "pending_due now a \<or> canceled_due now a"
  shows "\<not> pending_due now (lazy_update x free now a)" "\<not> canceled_due now (lazy_update x free now a)"
  using assms by (auto simp: pending_due_def canceled_due_def lazy_update_def)

lemma lazy_account_id [simp]: "a_account_id (lazy_update x free now a) = a_account_id a"
  by (simp add: lazy_update_def)

text \<open>Where the free plan exists, as the migrations see to, the statement cannot fail.\<close>

lemma apply_lazy_free:
  "free_plan_id d = Some free \<Longrightarrow>
   apply_lazy_billing_transitions x now account_id d =
     Inr (d\<lparr> accounts := update_where (lazy_due now account_id) (lazy_update x free now) (accounts d) \<rparr>)"
  by (simp add: apply_lazy_billing_transitions_def)

lemma apply_lazy_tables:
  assumes "apply_lazy_billing_transitions x now account_id d = Inr d'"
  shows "d' = d\<lparr> accounts := accounts d' \<rparr> \<and> map a_account_id (accounts d') = map a_account_id (accounts d)"
proof -
  have "d\<lparr> accounts := update_where (lazy_due now account_id)
      (lazy_update x (case free_plan_id d of Some f \<Rightarrow> f | None \<Rightarrow> 0) now) (accounts d) \<rparr> = d'"
    using assms unfolding apply_lazy_billing_transitions_def
    by (cases "free_plan_id d") (simp_all only: option.case sum.inject sum.distinct split: if_split_asm)
  from this [symmetric] show ?thesis by (simp add: map_update_where)
qed

lemma apply_lazy_idem:
  assumes "free_plan_id d = Some free" "apply_lazy_billing_transitions x now account_id d = Inr d'"
  shows "apply_lazy_billing_transitions x now account_id d' = Inr d'"
proof -
  let ?due = "lazy_due now account_id"
  have d': "d' = d\<lparr> accounts := update_where ?due (lazy_update x free now) (accounts d) \<rparr>"
    using assms by (simp add: apply_lazy_free)
  then have "free_plan_id d' = Some free" using assms(1) by (simp add: free_plan_id_def)
  moreover have "update_where ?due (lazy_update x free now) (accounts d') = accounts d'"
  proof -
    have "\<not> ?due (lazy_update x free now a)" if "?due a" for a
      using lazy_not_due [of now a x free] that unfolding lazy_due_def by blast
    then show ?thesis by (simp add: d' update_where_twice)
  qed
  ultimately show ?thesis by (simp add: apply_lazy_free)
qed

lemma middleware_write_passes:
  assumes "subscription_enforcement_middleware x now (Some acc) m d = (Inr u, d')" "\<not> is_read_method m"
  obtains a p where "account_plan acc d' = Inr (a, p)"
    "p_name p = ''free'' \<or> a_subscription_status a \<noteq> ''past_due''"
    "\<And>limit. p_monthly_commits_limit p = Some limit \<Longrightarrow>
       (case current_usage x now acc d' of Some u \<Rightarrow> u_server_commits u | None \<Rightarrow> 0) < limit"
proof -
  from assms obtain billing where lazy: "apply_lazy_billing_transitions x now acc d = Inr d'"
    and b: "load_billing_state acc d' = Inr billing" "\<not> write_blocked_by_subscription billing"
    and u: "usage_limit_exceeded x now acc d' = Inr False"
    by (auto simp: subscription_enforcement_middleware_def Let_def
        split: sum.splits if_splits bool.splits)
  from b(1) obtain a p where ap: "account_plan acc d' = Inr (a, p)"
    and billing: "bs_plan_name billing = p_name p" "bs_subscription_status billing = a_subscription_status a"
    by (auto simp: load_billing_state_def bind_res_Inr)
  show thesis
  proof (rule that [OF ap])
    show "p_name p = ''free'' \<or> a_subscription_status a \<noteq> ''past_due''"
      using b(2) billing by (auto simp: write_blocked_by_subscription_def split: if_splits)
    show "(case current_usage x now acc d' of Some u \<Rightarrow> u_server_commits u | None \<Rightarrow> 0) < limit"
      if "p_monthly_commits_limit p = Some limit" for limit
      using u ap that by (auto simp: usage_limit_exceeded_def)
  qed
qed

end
