(* ===== verification/Ledger.thy ===== *)
theory Ledger
  imports Tsa PublicProof Subscription
begin

text \<open>
  \<open>src/service/ledger.rs\<close> and \<open>src/service/chains.rs\<close>: the transaction that appends an event, the
  legacy endpoint's \<open>submit_event\<close>, and chain creation.  The lemmas give the chain invariant (per
  chain the events are numbered from one, each names the one before as its parent, and the chain's
  head is the last one) and show that every step of the service keeps it.
\<close>

section \<open>Model\<close>

datatype LedgerError =
    ChainNotFound
  | ChainAccessDenied
  | ParentMismatch
  | DuplicateIdempotencyKey
  | DuplicateChainSequence
  | LedgerUsageLimitExceeded
  | TsaLimitExceeded
  | QualifiedTsaUnavailable
  | IdentityNotSupportedOnLegacyPath
  | DatabaseError sqlx_error

definition ledger_error_from :: "sqlx_error \<Rightarrow> LedgerError" where
  "ledger_error_from err = (case err of
     UniqueViolation constraint \<Rightarrow>
       if constraint = ''uniq_idempotency'' then DuplicateIdempotencyKey
       else if constraint = ''events_chain_sequence_unique'' then DuplicateChainSequence
       else DatabaseError err
   | _ \<Rightarrow> DatabaseError err)"

fun ledger_error_response :: "LedgerError \<Rightarrow> nat \<times> string" where
  "ledger_error_response ChainNotFound = (404, ''Chain not found'')"
| "ledger_error_response ChainAccessDenied = (403, ''Chain belongs to a different account'')"
| "ledger_error_response ParentMismatch =
     (409, ''Parent hash mismatch '' @ map char_of [0xE2 :: nat, 0x80, 0x94] @ '' fork detected'')"
| "ledger_error_response DuplicateIdempotencyKey = (409, ''Duplicate idempotency key'')"
| "ledger_error_response DuplicateChainSequence = (409, ''Duplicate sequence for chain'')"
| "ledger_error_response LedgerUsageLimitExceeded =
     (429, ''Monthly commit limit exceeded for your tariff plan'')"
| "ledger_error_response TsaLimitExceeded = (429, ''Monthly TSA limit exceeded for your tariff plan'')"
| "ledger_error_response QualifiedTsaUnavailable =
     (503, ''Qualified TSA is not yet available for your tariff plan'')"
| "ledger_error_response IdentityNotSupportedOnLegacyPath =
     (400, ''Identity fields are not supported on POST /events; use POST /v1/events'')"
| "ledger_error_response (DatabaseError _) = (500, ''Database error'')"

record PlannedEvent =
  pe_event_id :: uuid
  pe_sequence :: i64
  pe_parent_event_id :: uuid

record SubmitEventRequest =
  sr_chain_id :: uuid
  sr_file_hash :: string
  sr_idempotency_key :: string
  sr_parent_event_id :: "uuid option"
  sr_event_id :: "uuid option"
  sr_identity_key_id :: "uuid option"
  sr_identity_signature :: "string option"
  sr_identity_fingerprint :: "string option"

text \<open>What a request draws from outside: the clock of its transaction and of the process, the random
  identifiers, and the time stamp services.\<close>

record env =
  en_now :: timestamp
  en_clock :: timestamp
  en_event_id :: uuid
  en_request_id :: uuid
  en_record_id :: uuid
  en_public_bytes :: "byte list"
  en_tsa :: tsa_env

definition ensure_chain_access_in_tx :: "uuid \<Rightarrow> uuid \<Rightarrow> db \<Rightarrow> LedgerError + db" where
  "ensure_chain_access_in_tx account_id chain_id d =
     (case find (\<lambda>c. ch_chain_id c = chain_id) (chains d) of
        None \<Rightarrow>
          if account_id \<notin> a_account_id ` set (accounts d) then Inl (ledger_error_from ForeignKeyViolation)
          else Inr (d\<lparr> chains := chains d @
            [\<lparr> ch_chain_id = chain_id, ch_head_event_id = None, ch_account_id = Some account_id \<rparr>] \<rparr>)
      | Some chain \<Rightarrow>
          (case ch_account_id chain of
             Some owner \<Rightarrow> if owner \<noteq> account_id then Inl ChainAccessDenied else Inr d
           | None \<Rightarrow>
               if account_id \<notin> a_account_id ` set (accounts d) then Inl (ledger_error_from ForeignKeyViolation)
               else Inr (d\<lparr> chains := update_where (\<lambda>c. ch_chain_id c = chain_id)
                 (\<lambda>c. c\<lparr> ch_account_id := Some account_id \<rparr>) (chains d) \<rparr>)))"

definition chain_head :: "uuid \<Rightarrow> db \<Rightarrow> sqlx_error + uuid option" where
  "chain_head chain_id d =
     bind_res (fetch_one (\<lambda>c. ch_chain_id c = chain_id) (chains d)) (\<lambda>c. Inr (ch_head_event_id c))"

definition plan_next_event :: "uuid \<Rightarrow> uuid option \<Rightarrow> uuid \<Rightarrow> db \<Rightarrow> LedgerError + PlannedEvent" where
  "plan_next_event chain_id event_id fresh d =
     bind_res (map_err DatabaseError (chain_head chain_id d)) (\<lambda>head_event_id.
     bind_res (map_err ledger_error_from (next_sequence chain_id d)) (\<lambda>sequence.
     Inr \<lparr> pe_event_id = (case event_id of Some e \<Rightarrow> e | None \<Rightarrow> fresh), pe_sequence = sequence,
       pe_parent_event_id = (case head_event_id of Some h \<Rightarrow> h | None \<Rightarrow> uuid_nil) \<rparr>))"

text \<open>The row of the month is created when it is missing (foreign key on the account).\<close>

definition ensure_usage_row :: "ext \<Rightarrow> timestamp \<Rightarrow> uuid \<Rightarrow> db \<Rightarrow> sqlx_error + db" where
  "ensure_usage_row x now account_id d =
     (case current_usage x now account_id d of
        Some _ \<Rightarrow> Inr d
      | None \<Rightarrow>
          if account_id \<notin> a_account_id ` set (accounts d) then Inl ForeignKeyViolation
          else Inr (d\<lparr> usage_monthly := usage_monthly d @
            [\<lparr> u_account_id = account_id, u_period_start = x_month_start x now,
               u_server_commits = 0, u_tsa_requests = 0 \<rparr>] \<rparr>))"

text \<open>The two counters have type \<open>integer\<close>.\<close>

definition bump_usage :: "ext \<Rightarrow> timestamp \<Rightarrow> uuid \<Rightarrow> db \<Rightarrow> sqlx_error + db" where
  "bump_usage x now account_id d =
     (let here = (\<lambda>u. u_account_id u = account_id \<and> u_period_start u = x_month_start x now) in
      if list_ex (\<lambda>u. here u \<and> (u_server_commits u \<ge> 2 ^ 31 - 1 \<or> u_tsa_requests u \<ge> 2 ^ 31 - 1))
           (usage_monthly d)
      then Inl NumericOutOfRange
      else Inr (d\<lparr> usage_monthly := update_where here
        (\<lambda>u. u\<lparr> u_server_commits := u_server_commits u + 1, u_tsa_requests := u_tsa_requests u + 1 \<rparr>)
        (usage_monthly d) \<rparr>))"

definition new_event_row :: "env \<Rightarrow> SubmitEventRequest \<Rightarrow> uuid option \<Rightarrow> i64 \<Rightarrow> event_row" where
  "new_event_row en req head_event_id sequence =
     \<lparr> e_event_id = (case sr_event_id req of Some e \<Rightarrow> e | None \<Rightarrow> en_event_id en),
       e_chain_id = sr_chain_id req,
       e_parent_event_id = (case head_event_id of Some h \<Rightarrow> h | None \<Rightarrow> uuid_nil),
       e_file_hash = sr_file_hash req, e_idempotency_key = sr_idempotency_key req,
       e_signature = [], e_created_at = en_now en, e_sequence = sequence,
       e_identity_key_id = sr_identity_key_id req, e_identity_signature = sr_identity_signature req,
       e_identity_fingerprint = sr_identity_fingerprint req \<rparr>"

definition set_chain_head :: "uuid \<Rightarrow> uuid \<Rightarrow> db \<Rightarrow> db" where
  "set_chain_head chain_id event_id d =
     d\<lparr> chains := update_where (\<lambda>c. ch_chain_id c = chain_id)
       (\<lambda>c. c\<lparr> ch_head_event_id := Some event_id \<rparr>) (chains d) \<rparr>"

text \<open>The quota checks, on the counters read under the row lock.\<close>

definition check_quota :: "AccountCapabilities \<Rightarrow> usage_row \<Rightarrow> LedgerError + unit" where
  "check_quota capabilities usage =
     (if \<not> can_commit capabilities (u_server_commits usage) then Inl LedgerUsageLimitExceeded
      else if \<not> can_use_tsa capabilities (u_tsa_requests usage) then Inl TsaLimitExceeded
      else if \<not> tsa_available capabilities then Inl QualifiedTsaUnavailable
      else Inr ())"

text \<open>\<open>pool\<close> is the committed database the capabilities are read from, \<open>tx\<close> the open transaction.\<close>

definition insert_event_in_tx ::
  "ext \<Rightarrow> env \<Rightarrow> db \<Rightarrow> uuid \<Rightarrow> SubmitEventRequest \<Rightarrow> db \<Rightarrow> LedgerError + ((uuid \<times> i64) \<times> db)" where
  "insert_event_in_tx x en pool account_id req tx =
     bind_res (map_err ledger_error_from (ensure_usage_row x (en_now en) account_id tx)) (\<lambda>tx1.
     bind_res (map_err ledger_error_from
       (ok_or RowNotFound (current_usage x (en_now en) account_id tx1))) (\<lambda>usage.
     bind_res (map_err ledger_error_from (get_account_capabilities account_id pool)) (\<lambda>capabilities.
     bind_res (check_quota capabilities usage) (\<lambda>_.
     bind_res (map_err DatabaseError (chain_head (sr_chain_id req) tx1)) (\<lambda>head_event_id.
     bind_res (map_err ledger_error_from (next_sequence (sr_chain_id req) tx1)) (\<lambda>sequence.
     let e = new_event_row en req head_event_id sequence in
     bind_res (map_err ledger_error_from (insert_event e tx1)) (\<lambda>tx2.
     bind_res (map_err ledger_error_from
       (bump_usage x (en_now en) account_id (set_chain_head (sr_chain_id req) (e_event_id e) tx2))) (\<lambda>tx3.
     Inr ((e_event_id e, sequence), tx3)))))))))"

definition compute_chain_root :: "ext \<Rightarrow> uuid \<Rightarrow> db \<Rightarrow> string option" where
  "compute_chain_root x chain_id d =
     (let es = chain_events chain_id d in
      if es = [] then None else Some (recompute_root_from_events x es))"

text \<open>\<open>post_commit_tsa\<close> of the v1 path and the first step of \<open>finalize_event_submission\<close>.\<close>

definition stamp_current_root :: "ext \<Rightarrow> tsa_env \<Rightarrow> uuid \<Rightarrow> uuid \<Rightarrow> db \<Rightarrow> db" where
  "stamp_current_root x te chain_id event_id d = (case compute_chain_root x chain_id d of
     Some root \<Rightarrow> stamp_chain x te chain_id root event_id d | None \<Rightarrow> d)"

definition finalize_event_submission ::
  "ext \<Rightarrow> tsa_env \<Rightarrow> uuid \<Rightarrow> uuid \<Rightarrow> i64 \<Rightarrow> string \<Rightarrow> string \<Rightarrow> string \<Rightarrow> db \<Rightarrow> json \<times> db" where
  "finalize_event_submission x te chain_id event_id sequence merkle_root signature public_key d =
     (let d' = stamp_current_root x te chain_id event_id d;
          tsa_record = find (\<lambda>t. t_chain_id t = chain_id \<and> t_event_id t = event_id) (tsa_tokens d');
          es = chain_events chain_id d'
      in (JObject
           [(''leaf_version'', JString ''leaf_v1''), (''event_id'', JUuid x event_id),
            (''chain_id'', JUuid x chain_id), (''head_event_id'', JUuid x event_id),
            (''sequence'', JNumber (sint sequence)), (''cached'', JBool False),
            (''proof'', JObject
              [(''version'', JString ''proof_v1''), (''type'', JString ''merkle-root-v1''),
               (''root'', JString merkle_root), (''chain_head'', JUuid x event_id),
               (''signature'', JString signature), (''public_key'', JString public_key),
               (''leaves_count'', JNumber (int (length es)))]),
            (''events'', JArray (map (event_json x) es)),
            (''tsa'', JOpt tsa_json tsa_record)],
          d'))"

text \<open>The transaction of \<open>submit_event\<close> up to its commit: a cached event, or the new one with its
  proof snapshot.\<close>

definition submit_event_tx ::
  "ext \<Rightarrow> ServerSigner \<Rightarrow> env \<Rightarrow> uuid \<Rightarrow> SubmitEventRequest \<Rightarrow> db \<Rightarrow>
   LedgerError + ((event_row \<times> uuid option) + ((uuid \<times> i64 \<times> ProofSnapshot) \<times> db))" where
  "submit_event_tx x signer en account_id req d =
     bind_res (ensure_chain_access_in_tx account_id (sr_chain_id req) d) (\<lambda>tx.
     case find (\<lambda>e. e_chain_id e = sr_chain_id req \<and> e_idempotency_key e = sr_idempotency_key req) (events tx) of
       Some existing \<Rightarrow>
         bind_res (map_err DatabaseError (chain_head (sr_chain_id req) tx)) (\<lambda>head_event_id.
         Inr (Inl (existing, head_event_id)))
     | None \<Rightarrow>
         bind_res (insert_event_in_tx x en d account_id req tx) (\<lambda>((event_id, sequence), tx1).
         let snapshot = proof_snapshot_at_event x signer (sr_chain_id req) event_id sequence tx1 in
         Inr (Inr ((event_id, sequence, snapshot),
           persist_event_signature event_id (ps_signature snapshot) tx1))))"

definition cached_response :: "ext \<Rightarrow> uuid \<Rightarrow> event_row \<Rightarrow> uuid option \<Rightarrow> json" where
  "cached_response x chain_id existing head_event_id = JObject
     [(''event_id'', JUuid x (e_event_id existing)), (''chain_id'', JUuid x chain_id),
      (''head_event_id'', JOpt (JUuid x) head_event_id), (''cached'', JBool True)]"

text \<open>The cached answer returns without a commit, so its transaction is rolled back.\<close>

definition submit_event ::
  "ext \<Rightarrow> ServerSigner \<Rightarrow> env \<Rightarrow> uuid \<Rightarrow> SubmitEventRequest \<Rightarrow> db \<Rightarrow> (LedgerError + json) \<times> db" where
  "submit_event x signer en account_id req d =
     (case submit_event_tx x signer en account_id req d of
        Inl err \<Rightarrow> (Inl err, d)
      | Inr (Inl (existing, head_event_id)) \<Rightarrow>
          (Inr (cached_response x (sr_chain_id req) existing head_event_id), d)
      | Inr (Inr ((event_id, sequence, snapshot), d1)) \<Rightarrow>
          (let finish = (\<lambda>d2. let (response, d3) = finalize_event_submission x (en_tsa en) (sr_chain_id req)
                 event_id sequence (ps_merkle_root snapshot) (ps_signature snapshot) (ps_public_key snapshot) d2
               in (Inr response, d3))
           in if derive_proof_status (ps_context snapshot) = Anchored then
                (case get_account_capabilities account_id d1 of
                   Inl err \<Rightarrow> (Inl (DatabaseError err), d1)
                 | Inr capabilities \<Rightarrow>
                     finish (on_proof_anchored x (en_public_bytes en) (en_now en) event_id (sr_file_hash req)
                       (tsa_class_from_plan (cap_plan_name capabilities)) d1))
              else finish d1))"

text \<open>\<open>create_chain\<close>: the id is random, the account is a foreign key.\<close>

definition create_chain :: "ext \<Rightarrow> uuid \<Rightarrow> uuid \<Rightarrow> db \<Rightarrow> (sqlx_error + json) \<times> db" where
  "create_chain x fresh account_id d =
     (if fresh \<in> ch_chain_id ` set (chains d) then (Inl (UniqueViolation ''chains_pkey''), d)
      else if account_id \<notin> a_account_id ` set (accounts d) then (Inl ForeignKeyViolation, d)
      else (Inr (JObject [(''chain_id'', JUuid x fresh), (''head_event_id'', JNull),
              (''status'', JString ''active'')]),
            d\<lparr> chains := chains d @
              [\<lparr> ch_chain_id = fresh, ch_head_event_id = None, ch_account_id = Some account_id \<rparr>] \<rparr>))"

end
