(* ===== verification/LedgerInv.thy ===== *)
theory LedgerInv
  imports Ledger
begin

text \<open>
  The chain invariant of the ledger and its preservation by the operations of \<^theory_text>\<open>Ledger\<close>; what a
  successful insertion did; prefixes of a chain that has grown.
\<close>

section \<open>Numbered rows\<close>

definition numbered :: "event_row list \<Rightarrow> bool" where
  "numbered rows \<longleftrightarrow> (\<forall>i<length rows. sint (e_sequence (rows ! i)) = int (Suc i))"

lemma numbered_Nil [simp]: "numbered []"
  by (simp add: numbered_def)

lemma numbered_snoc:
  "numbered (rows @ [e]) \<longleftrightarrow> numbered rows \<and> sint (e_sequence e) = int (Suc (length rows))"
  by (auto simp: numbered_def nth_append less_Suc_eq)

lemma numbered_in: "numbered rows \<Longrightarrow> e \<in> set rows \<Longrightarrow> 1 \<le> sint (e_sequence e) \<and> sint (e_sequence e) \<le> int (length rows)"
  by (force simp: numbered_def in_set_conv_nth)

lemma numbered_max: "numbered rows \<Longrightarrow> max_sequence rows = int (length rows)"
proof (cases rows rule: rev_cases)
  case (snoc es e)
  assume n: "numbered rows"
  then have "sint (e_sequence e) = int (length rows)" by (simp add: snoc numbered_snoc)
  moreover have "sint (e_sequence e) \<le> max_sequence rows" by (rule max_sequence_upper) (simp add: snoc)
  moreover have "max_sequence rows \<le> int (length rows)"
    using max_sequence_in [of rows] numbered_in [OF n] by (auto simp: snoc)
  ultimately show ?thesis by simp
qed (simp add: max_sequence_def)

lemma numbered_sorted: "numbered rows \<Longrightarrow> sorted (map (\<lambda>e. sint (e_sequence e)) rows)"
  by (simp add: numbered_def sorted_iff_nth_mono)

lemma numbered_filter_le:
  "numbered rows \<Longrightarrow> filter (\<lambda>e. sint (e_sequence e) \<le> int k) rows = take k rows"
proof (induction rows rule: rev_induct)
  case (snoc e rows)
  then show ?case by (auto simp: numbered_snoc)
qed simp

lemma sint_of_nat_small: "k < 2 ^ 63 \<Longrightarrow> sint (of_nat k :: i64) = int k"
proof -
  assume "k < 2 ^ 63"
  then have "signed_take_bit 63 (int k) = int k" by (intro signed_take_bit_int_eq_self) auto
  moreover have "sint (of_nat k :: i64) = signed_take_bit 63 (int k)"
    by (simp add: signed_of_nat)
  ultimately show ?thesis by simp
qed

lemma shape_numbered:
  assumes "chain_shape (map to_EventRow rows)" "length rows < 2 ^ 63"
  shows "numbered rows"
  unfolding numbered_def
proof (intro allI impI)
  fix i assume i: "i < length rows"
  have "e_sequence (rows ! i) = of_nat (Suc i)"
    using chain_shape_sequence [OF assms(1), of i] i by simp
  then show "sint (e_sequence (rows ! i)) = int (Suc i)"
    using sint_of_nat_small [of "Suc i"] i assms(2) by simp
qed

section \<open>The invariant\<close>

abbreviation chain_rows :: "uuid \<Rightarrow> db \<Rightarrow> event_row list" where
  "chain_rows c d \<equiv> filter (\<lambda>e. e_chain_id e = c) (events d)"

definition last_id :: "event_row list \<Rightarrow> uuid option" where
  "last_id rows = (if rows = [] then None else Some (e_event_id (last rows)))"

definition chain_inv :: "uuid \<Rightarrow> db \<Rightarrow> bool" where
  "chain_inv c d \<longleftrightarrow>
     chain_shape (map to_EventRow (chain_rows c d)) \<and> length (chain_rows c d) < 2 ^ 63 \<and>
     (case find (\<lambda>r. ch_chain_id r = c) (chains d) of
        None \<Rightarrow> chain_rows c d = []
      | Some r \<Rightarrow> ch_head_event_id r = last_id (chain_rows c d))"

definition ledger_ok :: "db \<Rightarrow> bool" where
  "ledger_ok d \<longleftrightarrow> distinct (map e_event_id (events d)) \<and> (\<forall>c. chain_inv c d)"

lemma ledger_okD: "ledger_ok d \<Longrightarrow> chain_inv c d"
  by (simp add: ledger_ok_def)

lemma chain_inv_numbered: "chain_inv c d \<Longrightarrow> numbered (chain_rows c d)"
  by (simp add: chain_inv_def shape_numbered)

lemma chain_events_rows: "chain_inv c d \<Longrightarrow> chain_events c d = map to_EventRow (chain_rows c d)"
  by (simp add: chain_events_def select_events_sorted numbered_sorted chain_inv_numbered)

lemma chain_inv_shape: "chain_inv c d \<Longrightarrow> chain_shape (chain_events c d)"
  by (simp add: chain_events_rows) (simp add: chain_inv_def)

lemma load_prefix_rows:
  assumes "chain_inv c d" "sint n = int k"
  shows "load_event_prefix c n d = map to_EventRow (take k (chain_rows c d))"
proof -
  let ?P = "\<lambda>e. e_chain_id e = c \<and> e_sequence e <=s n"
  have "filter ?P (events d) = filter (\<lambda>e. sint (e_sequence e) \<le> int k) (chain_rows c d)"
    by (simp add: word_sle_eq assms(2) conj_commute)
  also have "\<dots> = take k (chain_rows c d)"
    by (rule numbered_filter_le) (rule chain_inv_numbered [OF assms(1)])
  finally have f: "filter ?P (events d) = take k (chain_rows c d)" .
  have "sorted (map (\<lambda>e. sint (e_sequence e)) (filter ?P (events d)))"
    using numbered_sorted [OF chain_inv_numbered [OF assms(1)]]
    by (simp only: f take_map [symmetric] sorted_wrt_take)
  then show ?thesis by (simp only: load_event_prefix_def select_events_sorted f)
qed

lemma next_sequence_inv:
  assumes "chain_inv c d"
  shows "next_sequence c d =
    (if length (chain_rows c d) < 2 ^ 63 - 1 then Inr (of_nat (Suc (length (chain_rows c d))))
     else Inl NumericOutOfRange)"
proof -
  have "max_sequence (chain_rows c d) = int (length (chain_rows c d))"
    by (rule numbered_max) (rule chain_inv_numbered [OF assms])
  moreover have "word_of_int (int n + 1) = (of_nat (Suc n) :: i64)" for n
    by simp
  ultimately show ?thesis by (auto simp: next_sequence_def Let_def)
qed

lemma chain_inv_cong:
  assumes "chain_rows c d' = chain_rows c d"
    and "find (\<lambda>r. ch_chain_id r = c) (chains d') = find (\<lambda>r. ch_chain_id r = c) (chains d)"
  shows "chain_inv c d' = chain_inv c d"
  by (simp add: chain_inv_def assms split: option.split)

lemma ledger_ok_cong:
  "events d' = events d \<Longrightarrow> chains d' = chains d \<Longrightarrow> ledger_ok d' = ledger_ok d"
  by (simp add: ledger_ok_def chain_inv_def split: option.split)

section \<open>Operations\<close>

lemma ensure_chain_access_effect:
  assumes "ensure_chain_access_in_tx acc c d = Inr d'"
  shows "d' = d\<lparr> chains := chains d' \<rparr>"
    and "\<exists>r. find (\<lambda>r. ch_chain_id r = c) (chains d') = Some r \<and> ch_account_id r = Some acc \<and>
      ch_head_event_id r = (case find (\<lambda>r. ch_chain_id r = c) (chains d) of
        Some r0 \<Rightarrow> ch_head_event_id r0 | None \<Rightarrow> None)"
    and "c' \<noteq> c \<Longrightarrow> find (\<lambda>r. ch_chain_id r = c') (chains d') = find (\<lambda>r. ch_chain_id r = c') (chains d)"
proof -
  let ?find = "find (\<lambda>r. ch_chain_id r = c) (chains d)"
  consider (new) "?find = None" "d' = d\<lparr> chains := chains d @
        [\<lparr> ch_chain_id = c, ch_head_event_id = None, ch_account_id = Some acc \<rparr>] \<rparr>"
    | (own) r where "?find = Some r" "ch_account_id r = Some acc" "d' = d"
    | (adopt) r where "?find = Some r" "ch_account_id r = None"
        "d' = d\<lparr> chains := update_where (\<lambda>q. ch_chain_id q = c) (\<lambda>q. q\<lparr> ch_account_id := Some acc \<rparr>) (chains d) \<rparr>"
    using assms by (auto simp: ensure_chain_access_in_tx_def split: option.splits if_splits)
  then have "d' = d\<lparr> chains := chains d' \<rparr> \<and>
    (\<exists>r. find (\<lambda>r. ch_chain_id r = c) (chains d') = Some r \<and> ch_account_id r = Some acc \<and>
      ch_head_event_id r = (case ?find of Some r0 \<Rightarrow> ch_head_event_id r0 | None \<Rightarrow> None)) \<and>
    (c' \<noteq> c \<longrightarrow> find (\<lambda>r. ch_chain_id r = c') (chains d') = find (\<lambda>r. ch_chain_id r = c') (chains d))"
  proof cases
    case new
    then show ?thesis by (simp add: find_append split: option.splits)
  next
    case own
    then show ?thesis by simp
  next
    case adopt
    then show ?thesis by (simp add: find_update_where_same find_update_where_other)
  qed
  then show "d' = d\<lparr> chains := chains d' \<rparr>"
    and "\<exists>r. find (\<lambda>r. ch_chain_id r = c) (chains d') = Some r \<and> ch_account_id r = Some acc \<and>
      ch_head_event_id r = (case find (\<lambda>r. ch_chain_id r = c) (chains d) of
        Some r0 \<Rightarrow> ch_head_event_id r0 | None \<Rightarrow> None)"
    and "c' \<noteq> c \<Longrightarrow> find (\<lambda>r. ch_chain_id r = c') (chains d') = find (\<lambda>r. ch_chain_id r = c') (chains d)"
    by blast+
qed

lemma ensure_chain_events: "ensure_chain_access_in_tx acc c d = Inr d' \<Longrightarrow> events d' = events d"
  using ensure_chain_access_effect(1) [of acc c d d'] by (metis db.select_convs(2) db.surjective db.update_convs(1))

lemma ensure_chain_ledger_ok:
  assumes "ledger_ok d" "ensure_chain_access_in_tx acc c d = Inr d'"
  shows "ledger_ok d'"
proof -
  note ev = ensure_chain_events [OF assms(2)]
  have "chain_inv c' d'" for c'
  proof (cases "c' = c")
    case False
    have "chain_inv c' d' = chain_inv c' d"
      by (rule chain_inv_cong) (simp_all add: ev ensure_chain_access_effect(3) [OF assms(2) False])
    then show ?thesis using ledger_okD [OF assms(1)] by simp
  next
    case True
    from ensure_chain_access_effect(2) [OF assms(2)] ledger_okD [OF assms(1), of c] True show ?thesis
      by (auto simp: chain_inv_def ev last_id_def split: option.splits)
  qed
  with assms(1) show ?thesis by (simp add: ledger_ok_def ev)
qed


lemma ensure_usage_row_effect:
  assumes "ensure_usage_row x now acc d = Inr d'"
  shows "chains d' = chains d" "events d' = events d" "accounts d' = accounts d"
    "tariff_plans d' = tariff_plans d" "identity_keys d' = identity_keys d"
    "idempotency_records d' = idempotency_records d" "tsa_tokens d' = tsa_tokens d"
    "public_proof_registry d' = public_proof_registry d"
    "public_proof_materialization d' = public_proof_materialization d"
    "current_usage x now acc d' \<noteq> None"
    "u_server_commits (the (current_usage x now acc d')) =
       (case current_usage x now acc d of Some u \<Rightarrow> u_server_commits u | None \<Rightarrow> 0)"
    "u_tsa_requests (the (current_usage x now acc d')) =
       (case current_usage x now acc d of Some u \<Rightarrow> u_tsa_requests u | None \<Rightarrow> 0)"
  using assms
  by (auto simp: ensure_usage_row_def current_usage_def find_append split: option.splits if_splits)

lemma bump_usage_effect:
  assumes "bump_usage x now acc d = Inr d'"
  shows "chains d' = chains d" "events d' = events d" "accounts d' = accounts d"
    "tariff_plans d' = tariff_plans d" "identity_keys d' = identity_keys d"
    "idempotency_records d' = idempotency_records d" "tsa_tokens d' = tsa_tokens d"
    "public_proof_registry d' = public_proof_registry d"
    "public_proof_materialization d' = public_proof_materialization d"
    "current_usage x now acc d' = map_option
       (\<lambda>u. u\<lparr> u_server_commits := u_server_commits u + 1, u_tsa_requests := u_tsa_requests u + 1 \<rparr>)
       (current_usage x now acc d)"
  using assms
  by (auto simp: bump_usage_def Let_def current_usage_def find_update_where_same split: if_splits)

lemma chain_head_Inr [res_iff]:
  "chain_head c d = Inr h \<longleftrightarrow>
     (\<exists>r. find (\<lambda>r. ch_chain_id r = c) (chains d) = Some r \<and> h = ch_head_event_id r)"
  by (auto simp: chain_head_def bind_res_Inr fetch_one_Inr)

lemma check_quota_Inr [res_iff]:
  "check_quota caps u = Inr v \<longleftrightarrow>
     can_commit caps (u_server_commits u) \<and> can_use_tsa caps (u_tsa_requests u) \<and> tsa_available caps"
  by (auto simp: check_quota_def)

text \<open>Everything a successful insertion did.\<close>

lemma insert_event_in_tx_steps:
  assumes "insert_event_in_tx x en pool acc req tx = Inr ((eid, seq), tx')"
  obtains tx1 usage caps head_id tx2 where
    "ensure_usage_row x (en_now en) acc tx = Inr tx1"
    "current_usage x (en_now en) acc tx1 = Some usage"
    "get_account_capabilities acc pool = Inr caps"
    "check_quota caps usage = Inr ()"
    "chain_head (sr_chain_id req) tx1 = Inr head_id"
    "next_sequence (sr_chain_id req) tx1 = Inr seq"
    "insert_event (new_event_row en req head_id seq) tx1 = Inr tx2"
    "bump_usage x (en_now en) acc (set_chain_head (sr_chain_id req) eid tx2) = Inr tx'"
    "eid = e_event_id (new_event_row en req head_id seq)"
  using assms
  by (auto simp: insert_event_in_tx_def bind_res_Inr map_err_Inr ok_or_Inr Let_def split: prod.splits)

text \<open>The same as one equation on the tables an append touches.\<close>

definition appended :: "event_row \<Rightarrow> db \<Rightarrow> db \<Rightarrow> bool" where
  "appended e d d' \<longleftrightarrow>
     events d' = events d @ [e] \<and>
     chains d' = update_where (\<lambda>c. ch_chain_id c = e_chain_id e)
       (\<lambda>c. c\<lparr> ch_head_event_id := Some (e_event_id e) \<rparr>) (chains d)"

lemma new_event_row_simps [simp]:
  "e_chain_id (new_event_row en req h s) = sr_chain_id req"
  "e_sequence (new_event_row en req h s) = s"
  "e_file_hash (new_event_row en req h s) = sr_file_hash req"
  "e_idempotency_key (new_event_row en req h s) = sr_idempotency_key req"
  "e_identity_key_id (new_event_row en req h s) = sr_identity_key_id req"
  "e_identity_signature (new_event_row en req h s) = sr_identity_signature req"
  "e_identity_fingerprint (new_event_row en req h s) = sr_identity_fingerprint req"
  "e_event_id (new_event_row en req h s) = (case sr_event_id req of Some e \<Rightarrow> e | None \<Rightarrow> en_event_id en)"
  "e_parent_event_id (new_event_row en req h s) = (case h of Some p \<Rightarrow> p | None \<Rightarrow> uuid_nil)"
  by (simp_all add: new_event_row_def)

lemma insert_event_in_tx_effect:
  assumes "insert_event_in_tx x en pool acc req tx = Inr ((eid, seq), tx')"
  obtains r where
    "find (\<lambda>r. ch_chain_id r = sr_chain_id req) (chains tx) = Some r"
    "next_sequence (sr_chain_id req) tx = Inr seq"
    "eid = e_event_id (new_event_row en req (ch_head_event_id r) seq)"
    "appended (new_event_row en req (ch_head_event_id r) seq) tx tx'"
    "eid \<notin> e_event_id ` set (events tx)"
    "(sr_chain_id req, sr_idempotency_key req) \<notin> (\<lambda>f. (e_chain_id f, e_idempotency_key f)) ` set (events tx)"
proof -
  from assms obtain tx1 usage caps h tx2 where
    u: "ensure_usage_row x (en_now en) acc tx = Inr tx1"
    and h: "chain_head (sr_chain_id req) tx1 = Inr h"
    and s: "next_sequence (sr_chain_id req) tx1 = Inr seq"
    and i: "insert_event (new_event_row en req h seq) tx1 = Inr tx2"
    and b: "bump_usage x (en_now en) acc (set_chain_head (sr_chain_id req) eid tx2) = Inr tx'"
    and eid: "eid = e_event_id (new_event_row en req h seq)"
    by (rule insert_event_in_tx_steps)
  note u' = ensure_usage_row_effect [OF u] and b' = bump_usage_effect [OF b]
  from h obtain r where r: "find (\<lambda>r. ch_chain_id r = sr_chain_id req) (chains tx) = Some r"
    "h = ch_head_event_id r" by (auto simp: chain_head_Inr u')
  have s': "next_sequence (sr_chain_id req) tx = Inr seq" using s by (simp add: next_sequence_def u')
  have ap: "appended (new_event_row en req h seq) tx tx'"
    using i by (simp add: appended_def b' set_chain_head_def insert_event_Inr u' eid)
  from i have fresh: "eid \<notin> e_event_id ` set (events tx)"
    "(sr_chain_id req, sr_idempotency_key req) \<notin> (\<lambda>f. (e_chain_id f, e_idempotency_key f)) ` set (events tx)"
    unfolding insert_event_Inr by (simp_all add: u' eid)
  show thesis
    by (rule that [OF r(1) s' _ _ fresh]) (use ap eid r(2) in simp_all)
qed

text \<open>Appending a row with the next number and the head as its parent keeps the invariant.\<close>

lemma appended_chain_rows:
  "appended e d d' \<Longrightarrow> chain_rows c d' = chain_rows c d @ (if e_chain_id e = c then [e] else [])"
  by (simp add: appended_def)

lemma appended_ledger_ok:
  assumes ok: "ledger_ok d" and ap: "appended e d d'"
    and fresh: "e_event_id e \<notin> e_event_id ` set (events d)"
    and r: "find (\<lambda>r. ch_chain_id r = e_chain_id e) (chains d) = Some r"
    and seq: "next_sequence (e_chain_id e) d = Inr (e_sequence e)"
    and parent: "e_parent_event_id e = (case ch_head_event_id r of Some h \<Rightarrow> h | None \<Rightarrow> uuid_nil)"
  shows "ledger_ok d'"
proof -
  define c where "c = e_chain_id e"
  have "chain_inv c' d'" for c'
  proof (cases "c' = c")
    case False
    have "find (\<lambda>r. ch_chain_id r = c') (chains d') = find (\<lambda>r. ch_chain_id r = c') (chains d)"
      using ap False by (auto simp: appended_def c_def intro!: find_update_where_other)
    moreover have "chain_rows c' d' = chain_rows c' d"
      using False by (simp add: appended_chain_rows [OF ap] c_def)
    ultimately have "chain_inv c' d' = chain_inv c' d" by (intro chain_inv_cong)
    then show ?thesis using ledger_okD [OF ok, of c'] by (rule iffD2)
  next
    case True
    let ?rows = "chain_rows c d"
    have inv: "chain_inv c d" by (rule ledger_okD [OF ok])
    have rows': "chain_rows c d' = ?rows @ [e]" by (simp add: appended_chain_rows [OF ap] c_def)
    have len: "length ?rows < 2 ^ 63 - 1" and seq': "e_sequence e = of_nat (Suc (length ?rows))"
      using seq by (simp_all add: next_sequence_inv [OF inv, unfolded c_def] c_def split: if_splits)
    have head: "ch_head_event_id r = last_id ?rows"
      using inv r by (simp add: chain_inv_def c_def)
    have "link_ok (map to_EventRow (?rows @ [e])) (length ?rows)"
    proof (cases "?rows = []")
      case True
      then show ?thesis using seq' parent head by (simp add: link_ok_def last_id_def)
    next
      case False
      then have n: "0 < length ?rows" by simp
      have "e_sequence (?rows ! (length ?rows - 1)) = of_nat (length ?rows)"
        using chain_shape_sequence [of "map to_EventRow ?rows" "length ?rows - 1"] inv n
        by (simp add: chain_inv_def)
      moreover have "last ?rows = ?rows ! (length ?rows - 1)" by (simp add: last_conv_nth False)
      ultimately show ?thesis
        using n seq' parent head False
        by (simp add: link_ok_def last_id_def nth_append)
    qed
    with inv have "chain_shape (map to_EventRow (?rows @ [e]))"
      by (simp add: chain_shape_snoc chain_inv_def)
    moreover have "find (\<lambda>r. ch_chain_id r = c) (chains d') = Some (r\<lparr> ch_head_event_id := Some (e_event_id e) \<rparr>)"
      using ap r by (simp add: appended_def c_def find_update_where_same)
    ultimately show ?thesis
      using len True by (simp add: chain_inv_def rows' last_id_def)
  qed
  moreover have "distinct (map e_event_id (events d'))"
    using ok fresh ap by (simp add: ledger_ok_def appended_def)
  ultimately show ?thesis by (simp add: ledger_ok_def)
qed

lemma insert_event_in_tx_ledger_ok:
  assumes ok: "ledger_ok tx" and ins: "insert_event_in_tx x en pool acc req tx = Inr ((eid, seq), tx')"
  shows "ledger_ok tx'"
proof -
  from ins obtain r where r: "find (\<lambda>r. ch_chain_id r = sr_chain_id req) (chains tx) = Some r"
    "next_sequence (sr_chain_id req) tx = Inr seq"
    "eid = e_event_id (new_event_row en req (ch_head_event_id r) seq)"
    "appended (new_event_row en req (ch_head_event_id r) seq) tx tx'"
    "eid \<notin> e_event_id ` set (events tx)"
    by (rule insert_event_in_tx_effect)
  show ?thesis
    by (rule appended_ledger_ok [OF ok r(4)]) (use r in simp_all)
qed

lemma persist_ledger_ok:
  assumes "ledger_ok d"
  shows "ledger_ok (persist_event_signature eid sig d)"
proof -
  let ?d' = "persist_event_signature eid sig d"
  let ?u = "update_where (\<lambda>e. e_event_id e = eid) (\<lambda>e. e\<lparr> e_signature := sig \<rparr>)"
  have rows: "chain_rows c ?d' = ?u (chain_rows c d)" for c
    by (simp add: persist_event_signature_def filter_update_where)
  have ids: "map e_event_id (?u rs) = map e_event_id rs" for rs
    by (rule map_update_where) simp
  have "last_id (?u rs) = last_id rs" for rs
    using ids [of rs] by (cases rs rule: rev_cases) (auto simp: last_id_def update_where_def)
  moreover have "chains ?d' = chains d" by (simp add: persist_event_signature_def)
  ultimately have "chain_inv c ?d' = chain_inv c d" for c
    by (simp add: chain_inv_def rows split: option.split)
  moreover have "map e_event_id (events ?d') = map e_event_id (events d)"
    by (simp add: persist_event_signature_def ids)
  ultimately show ?thesis using assms by (simp add: ledger_ok_def)
qed

end
