(* ===== verification/Identity.thy ===== *)
theory Identity
  imports ProofMaterial Capabilities Errors
begin

text \<open>
  User identity keys: challenges (\<open>src/service/identity_challenge.rs\<close>), the key repository
  (\<open>identity_keys.rs\<close>), signing and verification of events (\<open>identity_signing.rs\<close>,
  \<open>identity_verification.rs\<close>), registration (\<open>src/api/identity_keys.rs\<close>), revocation with its audit
  entry (\<open>src/api/v1/identity_key_revoke.rs\<close>) and the paged event list of a key
  (\<open>identity_dashboard.rs\<close>).
\<close>

section \<open>Signatures\<close>

definition verify_ed25519_signature :: "ext \<Rightarrow> string \<Rightarrow> byte list \<Rightarrow> string \<Rightarrow> bool" where
  "verify_ed25519_signature x pk_hex msg signature_hex =
     (case x_hex_decode x pk_hex of
        None \<Rightarrow> False
      | Some pk_bytes \<Rightarrow>
     (case x_hex_decode x signature_hex of
        None \<Rightarrow> False
      | Some sig_bytes \<Rightarrow>
          if length pk_bytes \<noteq> 32 then False
          else if length sig_bytes \<noteq> 64 then False
          else if \<not> x_ed_valid x pk_bytes then False
          else x_ed_verify x pk_bytes msg sig_bytes))"

datatype IdentitySigningError =
  KeyNotFound | KeyRevoked | KeyNotVerified | InvalidSignature | InvalidEventHash

record SigningKeyRow =
  sk_id :: uuid
  sk_public_key :: string
  sk_fingerprint :: string
  sk_verified_at :: "timestamp option"
  sk_revoked_at :: "timestamp option"

text \<open>The column \<open>verified_at\<close> is NOT NULL; the row type of the query has it as an option.\<close>

definition signing_key_row :: "identity_key_row \<Rightarrow> SigningKeyRow" where
  "signing_key_row k = \<lparr> sk_id = k_id k, sk_public_key = k_public_key k, sk_fingerprint = k_fingerprint k,
     sk_verified_at = Some (k_verified_at k), sk_revoked_at = k_revoked_at k \<rparr>"

definition validate_and_prepare ::
  "ext \<Rightarrow> uuid \<Rightarrow> uuid \<Rightarrow> string \<Rightarrow> string \<Rightarrow> db \<Rightarrow> IdentitySigningError + (uuid \<times> string \<times> string)" where
  "validate_and_prepare x account_id identity_key_id signature_hex canonical_event_hash_hex d =
     bind_res (ok_or KeyNotFound (map_option signing_key_row
       (find (\<lambda>k. k_id k = identity_key_id \<and> k_account_id k = account_id) (identity_keys d)))) (\<lambda>key.
     if sk_revoked_at key \<noteq> None then Inl KeyRevoked
     else if sk_verified_at key = None then Inl KeyNotVerified
     else bind_res (ok_or InvalidEventHash (x_hex_decode x canonical_event_hash_hex)) (\<lambda>raw_hash.
     if length raw_hash \<noteq> 32 then Inl InvalidEventHash
     else if \<not> verify_ed25519_signature x (sk_public_key key) raw_hash signature_hex then Inl InvalidSignature
     else Inr (sk_id key, signature_hex, sk_fingerprint key)))"

record IdentityVerificationResult =
  iv_present :: bool
  iv_valid :: bool
  iv_reason :: "string option"
  iv_fingerprint :: "string option"
  iv_key_id :: "uuid option"

text \<open>\<open>IdentityVerificationService::verify\<close>; \<open>Inl ()\<close> is \<open>InvalidEventHash\<close>.\<close>

definition verify_identity :: "ext \<Rightarrow> event_row \<Rightarrow> string \<Rightarrow> db \<Rightarrow> unit + IdentityVerificationResult" where
  "verify_identity x event canonical_event_hash_hex d =
     (case e_identity_signature event of
        None \<Rightarrow> Inr \<lparr> iv_present = False, iv_valid = False, iv_reason = None, iv_fingerprint = None,
                   iv_key_id = None \<rparr>
      | Some signature_hex \<Rightarrow>
     (case e_identity_key_id event of
        None \<Rightarrow> Inr \<lparr> iv_present = True, iv_valid = False, iv_reason = Some ''key_not_found'',
                   iv_fingerprint = e_identity_fingerprint event, iv_key_id = None \<rparr>
      | Some key_id \<Rightarrow>
     (case find (\<lambda>k. k_id k = key_id) (identity_keys d) of
        None \<Rightarrow> Inr \<lparr> iv_present = True, iv_valid = False, iv_reason = Some ''key_not_found'',
                   iv_fingerprint = e_identity_fingerprint event, iv_key_id = Some key_id \<rparr>
      | Some key \<Rightarrow>
     (case x_hex_decode x canonical_event_hash_hex of
        None \<Rightarrow> Inl ()
      | Some raw_hash \<Rightarrow>
          if length raw_hash \<noteq> 32 then Inl ()
          else
            let valid = verify_ed25519_signature x (k_public_key key) raw_hash signature_hex in
            Inr \<lparr> iv_present = True, iv_valid = valid,
                  iv_reason = (if valid then None else Some ''signature_mismatch''),
                  iv_fingerprint = e_identity_fingerprint event, iv_key_id = Some key_id \<rparr>))))"

section \<open>Keys and challenges\<close>

definition fingerprint_from_public_key_hex :: "ext \<Rightarrow> string \<Rightarrow> string option" where
  "fingerprint_from_public_key_hex x pk_hex =
     map_option (\<lambda>bytes. x_hex_encode x (x_sha256 x bytes)) (x_hex_decode x pk_hex)"

datatype IdentityKeyError =
    FingerprintAlreadyExists | RepoKeyNotFound | RepoEntitlementMissing | KeyDatabase sqlx_error

definition find_by_fingerprint :: "string \<Rightarrow> db \<Rightarrow> identity_key_row option" where
  "find_by_fingerprint fingerprint d = find (\<lambda>k. k_fingerprint k = fingerprint) (identity_keys d)"

definition find_by_id :: "uuid \<Rightarrow> db \<Rightarrow> identity_key_row option" where
  "find_by_id i d = find (\<lambda>k. k_id k = i) (identity_keys d)"

definition list_by_account :: "uuid \<Rightarrow> db \<Rightarrow> identity_key_row list" where
  "list_by_account account_id d =
     sort_key k_created_at (filter (\<lambda>k. k_account_id k = account_id) (identity_keys d))"

text \<open>\<open>fresh\<close> is \<open>gen_random_uuid()\<close>; a clash on the primary key is a unique violation as well.\<close>

definition create_identity_key ::
  "timestamp \<Rightarrow> uuid \<Rightarrow> uuid \<Rightarrow> string \<Rightarrow> string \<Rightarrow> string option \<Rightarrow> db \<Rightarrow>
   IdentityKeyError + (identity_key_row \<times> db)" where
  "create_identity_key now fresh account_id pub fingerprint label d =
     (if find_by_fingerprint fingerprint d \<noteq> None then Inl FingerprintAlreadyExists
      else if fresh \<in> k_id ` set (identity_keys d) then Inl FingerprintAlreadyExists
      else if account_id \<notin> a_account_id ` set (accounts d) then Inl (KeyDatabase ForeignKeyViolation)
      else
        let k = \<lparr> k_id = fresh, k_account_id = account_id, k_public_key = pub, k_fingerprint = fingerprint,
                  k_label = label, k_created_at = now, k_verified_at = now, k_revoked_at = None \<rparr>
        in Inr (k, d\<lparr> identity_keys := identity_keys d @ [k] \<rparr>))"

text \<open>\<open>IdentityKeyRepository::revoke\<close>: the conditional update and the row it returns.\<close>

definition revoke_key_repo :: "timestamp \<Rightarrow> uuid \<Rightarrow> uuid \<Rightarrow> db \<Rightarrow> IdentityKeyError + (identity_key_row \<times> db)" where
  "revoke_key_repo now i account_id d =
     (let P = (\<lambda>k. k_id k = i \<and> k_account_id k = account_id \<and> k_revoked_at k = None);
          f = (\<lambda>k. k\<lparr> k_revoked_at := Some now \<rparr>)
      in case find P (identity_keys d) of
           None \<Rightarrow> Inl RepoKeyNotFound
         | Some k \<Rightarrow> Inr (f k, d\<lparr> identity_keys := update_where P f (identity_keys d) \<rparr>))"

definition check_entitlement :: "uuid \<Rightarrow> db \<Rightarrow> IdentityKeyError + unit" where
  "check_entitlement account_id d =
     map_err (\<lambda>e. case e of Missing \<Rightarrow> RepoEntitlementMissing | EntitlementDatabase err \<Rightarrow> KeyDatabase err)
       (require_feature account_id Identity d)"

datatype IdentityChallengeError =
    ChallengeNotFound | ChallengeExpired | ChallengeAlreadyUsed | ChallengeDatabase sqlx_error

text \<open>The column default \<open>now() + interval '5 minutes'\<close>.\<close>

definition create_challenge ::
  "ext \<Rightarrow> timestamp \<Rightarrow> uuid \<Rightarrow> byte list \<Rightarrow> uuid \<Rightarrow> db \<Rightarrow> IdentityChallengeError + (challenge_row \<times> db)" where
  "create_challenge x now fresh rnd account_id d =
     (if fresh \<in> c_id ` set (identity_challenges d)
      then Inl (ChallengeDatabase (UniqueViolation ''identity_challenges_pkey''))
      else if account_id \<notin> a_account_id ` set (accounts d) then Inl (ChallengeDatabase ForeignKeyViolation)
      else
        let c = \<lparr> c_id = fresh, c_account_id = account_id, c_challenge = x_hex_encode x rnd,
                  c_created_at = now, c_expires_at = now + 5 * 60 * 1000000, c_used_at = None \<rparr>
        in Inr (c, d\<lparr> identity_challenges := identity_challenges d @ [c] \<rparr>))"

definition find_challenge :: "uuid \<Rightarrow> uuid \<Rightarrow> db \<Rightarrow> challenge_row option" where
  "find_challenge challenge_id account_id d =
     find (\<lambda>c. c_id c = challenge_id \<and> c_account_id c = account_id) (identity_challenges d)"

definition challenge_is_expired :: "timestamp \<Rightarrow> challenge_row \<Rightarrow> bool" where
  "challenge_is_expired clock c \<longleftrightarrow> clock > c_expires_at c"

definition challenge_is_used :: "challenge_row \<Rightarrow> bool" where
  "challenge_is_used c \<longleftrightarrow> c_used_at c \<noteq> None"

definition validate_challenge :: "timestamp \<Rightarrow> challenge_row \<Rightarrow> IdentityChallengeError + unit" where
  "validate_challenge clock c =
     (if challenge_is_used c then Inl ChallengeAlreadyUsed
      else if challenge_is_expired clock c then Inl ChallengeExpired
      else Inr ())"

definition mark_used :: "timestamp \<Rightarrow> uuid \<Rightarrow> db \<Rightarrow> IdentityChallengeError + db" where
  "mark_used now challenge_id d =
     (let P = (\<lambda>c. c_id c = challenge_id \<and> c_used_at c = None) in
      if find P (identity_challenges d) = None then Inl ChallengeAlreadyUsed
      else Inr (d\<lparr> identity_challenges :=
        update_where P (\<lambda>c. c\<lparr> c_used_at := Some now \<rparr>) (identity_challenges d) \<rparr>))"

section \<open>Registration\<close>

text \<open>An error answer: status and code (the message is determined by the code).\<close>

type_synonym http_error = "nat \<times> string"

fun map_challenge_error :: "IdentityChallengeError \<Rightarrow> http_error" where
  "map_challenge_error ChallengeExpired = (410, ''challenge_expired'')"
| "map_challenge_error ChallengeAlreadyUsed = (409, ''challenge_already_used'')"
| "map_challenge_error ChallengeNotFound = (404, ''challenge_not_found'')"
| "map_challenge_error (ChallengeDatabase _) = (500, ''internal_error'')"

definition check_identity_entitlement :: "uuid \<Rightarrow> db \<Rightarrow> http_error + unit" where
  "check_identity_entitlement account_id d =
     map_err (\<lambda>_. (403, ''entitlement_missing'')) (require_feature account_id Identity d)"

definition challenge_handler ::
  "ext \<Rightarrow> timestamp \<Rightarrow> uuid \<Rightarrow> byte list \<Rightarrow> uuid \<Rightarrow> db \<Rightarrow> (http_error + challenge_row) \<times> db" where
  "challenge_handler x now fresh rnd account_id d =
     (case check_identity_entitlement account_id d of
        Inl e \<Rightarrow> (Inl e, d)
      | Inr _ \<Rightarrow>
          (case create_challenge x now fresh rnd account_id d of
             Inl _ \<Rightarrow> (Inl (500, ''internal_error''), d)
           | Inr (c, d') \<Rightarrow> (Inr c, d')))"

record RegisterKeyRequest =
  rk_challenge_id :: uuid
  rk_public_key :: string
  rk_signature :: string
  rk_label :: "string option"

definition clean_label :: "string option \<Rightarrow> string option" where
  "clean_label l = (case map_option trim l of
     Some s \<Rightarrow> if s = [] then None else Some s | None \<Rightarrow> None)"

text \<open>The key is stored before the challenge is consumed, each statement on its own.  A challenge that
  is not valid hex makes the handler panic: the request ends without an answer (status 0 here)
  and nothing was written.\<close>

definition register_handler ::
  "ext \<Rightarrow> timestamp \<Rightarrow> timestamp \<Rightarrow> uuid \<Rightarrow> uuid \<Rightarrow> RegisterKeyRequest \<Rightarrow> db \<Rightarrow>
   (http_error + identity_key_row) \<times> db" where
  "register_handler x now clock fresh account_id body d =
     (case check_identity_entitlement account_id d of
        Inl e \<Rightarrow> (Inl e, d)
      | Inr _ \<Rightarrow>
     (case find_challenge (rk_challenge_id body) account_id d of
        None \<Rightarrow> (Inl (404, ''challenge_not_found''), d)
      | Some challenge \<Rightarrow>
     (case validate_challenge clock challenge of
        Inl err \<Rightarrow> (Inl (map_challenge_error err), d)
      | Inr _ \<Rightarrow>
     (case x_hex_decode x (c_challenge challenge) of
        None \<Rightarrow> (Inl (0, ''panic''), d)
      | Some raw_challenge \<Rightarrow>
          if \<not> verify_ed25519_signature x (rk_public_key body) raw_challenge (rk_signature body)
          then (Inl (401, ''invalid_signature''), d)
          else
     (case fingerprint_from_public_key_hex x (rk_public_key body) of
        None \<Rightarrow> (Inl (400, ''invalid_request''), d)
      | Some fingerprint \<Rightarrow>
     (case create_identity_key now fresh account_id (rk_public_key body) fingerprint
             (clean_label (rk_label body)) d of
        Inl FingerprintAlreadyExists \<Rightarrow> (Inl (409, ''conflict''), d)
      | Inl RepoEntitlementMissing \<Rightarrow> (Inl (403, ''entitlement_missing''), d)
      | Inl _ \<Rightarrow> (Inl (500, ''internal_error''), d)
      | Inr (key, d1) \<Rightarrow>
     (case mark_used now (c_id challenge) d1 of
        Inl err \<Rightarrow> (Inl (map_challenge_error err), d1)
      | Inr d2 \<Rightarrow> (Inr key, d2))))))))"

section \<open>Revocation\<close>

datatype IdentityAuditError = InvalidActorType | AuditDatabase sqlx_error

definition append_audit ::
  "timestamp \<Rightarrow> uuid \<Rightarrow> string \<Rightarrow> uuid \<Rightarrow> string \<Rightarrow> db \<Rightarrow> IdentityAuditError + db" where
  "append_audit now key_id actor_type actor_id action d =
     (if actor_type \<noteq> ''account'' then Inl InvalidActorType
      else if key_id \<notin> k_id ` set (identity_keys d) then Inl (AuditDatabase ForeignKeyViolation)
      else Inr (d\<lparr> identity_key_audit_events := identity_key_audit_events d @
        [\<lparr> au_key_id = key_id, au_actor_id = actor_id, au_action = action, au_created_at = now \<rparr>] \<rparr>))"

text \<open>\<open>revoke_identity_key\<close>: one transaction; the answer is the key and its time of revocation.\<close>

definition revoke_identity_key ::
  "timestamp \<Rightarrow> uuid \<Rightarrow> uuid \<Rightarrow> db \<Rightarrow> (ApiError + (uuid \<times> timestamp)) \<times> db" where
  "revoke_identity_key now account_id key_id d =
     (case find (\<lambda>k. k_id k = key_id) (identity_keys d) of
        None \<Rightarrow> (Inl IdentityKeyNotFound, d)
      | Some k \<Rightarrow>
          if k_account_id k \<noteq> account_id then (Inl IdentityKeyNotFound, d)
          else if k_revoked_at k \<noteq> None then (Inl IdentityKeyAlreadyRevoked, d)
          else
            let d1 = d\<lparr> identity_keys := update_where (\<lambda>r. k_id r = k_id k)
                   (\<lambda>r. r\<lparr> k_revoked_at := Some now \<rparr>) (identity_keys d) \<rparr>
            in (case append_audit now (k_id k) ''account'' account_id ''revoked'' d1 of
                  Inl _ \<Rightarrow> (Inl Internal, d)
                | Inr d2 \<Rightarrow> (Inr (k_id k, now), d2)))"

section \<open>Lemmas\<close>

lemma validate_and_prepare_Inr:
  "validate_and_prepare x acc kid sig h d = Inr r \<longleftrightarrow>
     (\<exists>k raw. find (\<lambda>k. k_id k = kid \<and> k_account_id k = acc) (identity_keys d) = Some k \<and>
        k_revoked_at k = None \<and> x_hex_decode x h = Some raw \<and> length raw = 32 \<and>
        verify_ed25519_signature x (k_public_key k) raw sig \<and> r = (k_id k, sig, k_fingerprint k))"
  by (cases "find (\<lambda>k. k_id k = kid \<and> k_account_id k = acc) (identity_keys d)"; cases "x_hex_decode x h")
    (auto simp: validate_and_prepare_def signing_key_row_def)

text \<open>The two checks of a signature, at submission and later, agree; a later revocation of the key
  does not matter.\<close>

lemma verify_identity_present:
  assumes "e_identity_signature e = Some sig" "e_identity_key_id e = Some kid"
    and "find (\<lambda>k. k_id k = kid) (identity_keys d) = Some k"
    and "x_hex_decode x h = Some raw" "length raw = 32"
  shows "verify_identity x e h d = Inr \<lparr> iv_present = True,
      iv_valid = verify_ed25519_signature x (k_public_key k) raw sig,
      iv_reason = (if verify_ed25519_signature x (k_public_key k) raw sig then None else Some ''signature_mismatch''),
      iv_fingerprint = e_identity_fingerprint e, iv_key_id = Some kid \<rparr>"
  using assms by (simp add: verify_identity_def Let_def)

lemma register_handler_Inr:
  assumes "register_handler x now clock fresh acc body d = (Inr key, d')"
  obtains challenge raw d1 where
    "find_challenge (rk_challenge_id body) acc d = Some challenge"
    "\<not> challenge_is_used challenge" "\<not> challenge_is_expired clock challenge"
    "x_hex_decode x (c_challenge challenge) = Some raw"
    "verify_ed25519_signature x (rk_public_key body) raw (rk_signature body)"
    "fingerprint_from_public_key_hex x (rk_public_key body) = Some (k_fingerprint key)"
    "create_identity_key now fresh acc (rk_public_key body) (k_fingerprint key) (clean_label (rk_label body)) d
       = Inr (key, d1)"
    "mark_used now (c_id challenge) d1 = Inr d'"
proof -
  have fp: "f = k_fingerprint key" if "create_identity_key now fresh acc p f l d = Inr (key, d1)" for p f l d1
    using that by (auto simp: create_identity_key_def Let_def split: if_splits)
  from assms show thesis
    by (auto simp: register_handler_def validate_challenge_def
        split: sum.splits option.splits if_splits prod.splits IdentityKeyError.splits
        intro!: that dest: fp)
qed

lemma revoke_find:
  assumes "revoke_identity_key now acc kid d = (Inr r, d')"
  shows "find (\<lambda>k. k_id k = kid) (identity_keys d') =
    map_option (\<lambda>k. k\<lparr> k_revoked_at := Some now \<rparr>) (find (\<lambda>k. k_id k = kid) (identity_keys d))"
proof -
  from assms obtain k where k: "find (\<lambda>k. k_id k = kid) (identity_keys d) = Some k"
    "identity_keys d' = update_where (\<lambda>r. k_id r = k_id k) (\<lambda>r. r\<lparr> k_revoked_at := Some now \<rparr>) (identity_keys d)"
    by (auto simp: revoke_identity_key_def append_audit_def Let_def split: option.splits if_splits sum.splits)
  have "k_id k = kid" using find_SomeD [OF k(1)] by simp
  with k(2) show ?thesis by (simp add: find_update_where_same)
qed

end
