(* ===== verification/Idempotency.thy ===== *)
theory Idempotency
  imports Database
begin

text \<open>
  \<open>src/api/v1/idempotency/\<close>: the record (\<open>model.rs\<close>), the repository contract with its in-memory
  implementation (\<open>repository.rs\<close>) and the Postgres one (\<open>postgres.rs\<close>).  The locale states
  the contract a client relies on; both implementations interpret it.
\<close>

section \<open>Model\<close>

definition IDEMPOTENCY_TTL_HOURS :: int where
  "IDEMPOTENCY_TTL_HOURS = 24"

definition is_expired :: "idempotency_row \<Rightarrow> timestamp \<Rightarrow> bool" where
  "is_expired r now \<longleftrightarrow> now \<ge> i_expires_at r"

definition record_key :: "idempotency_row \<Rightarrow> uuid \<times> string" where
  "record_key r = (i_account_id r, i_idempotency_key r)"

text \<open>\<open>InMemoryIdempotencyRepository\<close>: the map under the lock.\<close>

type_synonym memory_store = "uuid \<times> string \<Rightarrow> idempotency_row option"

datatype IdempotencyStoreError = StoreConflict

definition memory_find :: "memory_store \<Rightarrow> uuid \<Rightarrow> string \<Rightarrow> idempotency_row option" where
  "memory_find records account_id idempotency_key = records (account_id, idempotency_key)"

definition memory_insert :: "idempotency_row \<Rightarrow> memory_store \<Rightarrow> IdempotencyStoreError + memory_store" where
  "memory_insert r records =
     (let key = record_key r in
      if records key \<noteq> None then Inl StoreConflict else Inr (records(key \<mapsto> r)))"

text \<open>The statements of \<open>postgres.rs\<close>.\<close>

definition find_active_in_tx :: "timestamp \<Rightarrow> uuid \<Rightarrow> string \<Rightarrow> db \<Rightarrow> idempotency_row option" where
  "find_active_in_tx now account_id idempotency_key d =
     find (\<lambda>r. i_account_id r = account_id \<and> i_idempotency_key r = idempotency_key \<and> i_expires_at r > now)
       (idempotency_records d)"

definition insert_in_tx :: "idempotency_row \<Rightarrow> db \<Rightarrow> sqlx_error + db" where
  "insert_in_tx r d =
     (if i_id r \<in> i_id ` set (idempotency_records d)
      then Inl (UniqueViolation ''idempotency_records_pkey'')
      else if record_key r \<in> record_key ` set (idempotency_records d)
      then Inl (UniqueViolation ''uniq_idempotency_account_key'')
      else if i_account_id r \<notin> a_account_id ` set (accounts d) then Inl ForeignKeyViolation
      else Inr (d\<lparr> idempotency_records := idempotency_records d @ [r] \<rparr>))"

section \<open>The contract\<close>

text \<open>\<open>live\<close> are the records a lookup may return (all of them in memory; in Postgres those that have
  not expired).\<close>

locale idempotency_store =
  fixes lookup :: "'s \<Rightarrow> uuid \<Rightarrow> string \<Rightarrow> idempotency_row option"
    and put :: "idempotency_row \<Rightarrow> 's \<Rightarrow> 's option"
    and live :: "idempotency_row \<Rightarrow> bool"
  assumes lookup_put_same:
      "put r s = Some s' \<Longrightarrow> live r \<Longrightarrow> lookup s' (i_account_id r) (i_idempotency_key r) = Some r"
    and lookup_put_other:
      "put r s = Some s' \<Longrightarrow> (a, k) \<noteq> record_key r \<Longrightarrow> lookup s' a k = lookup s a k"
    and put_conflict:
      "lookup s (i_account_id r) (i_idempotency_key r) \<noteq> None \<Longrightarrow> put r s = None"
begin

text \<open>Insertions in sequence; a refused one leaves the store as it is.\<close>

definition put_or_keep :: "idempotency_row \<Rightarrow> 's \<Rightarrow> 's" where
  "put_or_keep r s = (case put r s of Some s' \<Rightarrow> s' | None \<Rightarrow> s)"

lemma put_keeps: "lookup s a k = Some q \<Longrightarrow> lookup (put_or_keep r s) a k = Some q"
proof (cases "put r s")
  case (Some s')
  assume q: "lookup s a k = Some q"
  have "(a, k) \<noteq> record_key r"
  proof
    assume "(a, k) = record_key r"
    then have "lookup s (i_account_id r) (i_idempotency_key r) \<noteq> None" using q by (simp add: record_key_def)
    from put_conflict [OF this] Some show False by simp
  qed
  from lookup_put_other [OF Some this] q Some show ?thesis by (simp add: put_or_keep_def)
qed (simp add: put_or_keep_def)

lemma put_all_keeps: "lookup s a k = Some q \<Longrightarrow> lookup (fold put_or_keep rs s) a k = Some q"
  by (induction rs arbitrary: s) (simp_all add: put_keeps)

text \<open>First writer wins: once a live record is stored, no later insertion under its key succeeds
  and every lookup returns it.\<close>

lemma first_wins:
  assumes "put r s = Some s'" "live r" "record_key q = record_key r"
  shows "lookup (fold put_or_keep rs s') (i_account_id r) (i_idempotency_key r) = Some r"
    and "put q (fold put_or_keep rs s') = None"
proof -
  show l: "lookup (fold put_or_keep rs s') (i_account_id r) (i_idempotency_key r) = Some r"
    by (rule put_all_keeps) (rule lookup_put_same [OF assms(1,2)])
  show "put q (fold put_or_keep rs s') = None"
    by (rule put_conflict) (use l assms(3) in \<open>simp add: record_key_def\<close>)
qed

end

definition right_opt :: "'e + 'a \<Rightarrow> 'a option" where
  "right_opt m = (case m of Inl _ \<Rightarrow> None | Inr a \<Rightarrow> Some a)"

lemma right_opt_simps [simp]: "right_opt (Inl e) = None" "right_opt (Inr a) = Some a"
  by (simp_all add: right_opt_def)

lemma right_opt_Some: "right_opt m = Some a \<longleftrightarrow> m = Inr a"
  by (cases m) simp_all

interpretation mem: idempotency_store memory_find "\<lambda>r s. right_opt (memory_insert r s)" "\<lambda>_. True"
  by unfold_locales (auto simp: memory_find_def memory_insert_def record_key_def Let_def split: if_splits)

interpretation pg: idempotency_store
  "\<lambda>d a k. find_active_in_tx now a k d" "\<lambda>r d. right_opt (insert_in_tx r d)" "\<lambda>r. i_expires_at r > now"
  for now
proof
  fix r s s' assume "right_opt (insert_in_tx r s) = Some s'" "i_expires_at r > now"
  then have "s' = s\<lparr> idempotency_records := idempotency_records s @ [r] \<rparr>"
    and new: "record_key r \<notin> record_key ` set (idempotency_records s)"
    by (auto simp: right_opt_Some insert_in_tx_def split: if_splits)
  moreover have "find (\<lambda>q. i_account_id q = i_account_id r \<and> i_idempotency_key q = i_idempotency_key r \<and>
      i_expires_at q > now) (idempotency_records s) = None"
  proof -
    have "record_key q \<noteq> record_key r" if "q \<in> set (idempotency_records s)" for q
      using new that by (metis imageI)
    then show ?thesis by (auto simp: find_None_iff record_key_def)
  qed
  ultimately show "find_active_in_tx now (i_account_id r) (i_idempotency_key r) s' = Some r"
    using \<open>i_expires_at r > now\<close> by (simp add: find_active_in_tx_def find_append)
next
  fix r s s' a k assume "right_opt (insert_in_tx r s) = Some s'" and ne: "(a, k) \<noteq> record_key r"
  then have "s' = s\<lparr> idempotency_records := idempotency_records s @ [r] \<rparr>"
    by (auto simp: right_opt_Some insert_in_tx_def split: if_splits)
  then show "find_active_in_tx now a k s' = find_active_in_tx now a k s"
    using ne by (auto simp: find_active_in_tx_def find_append record_key_def split: option.splits)
next
  fix s and r :: idempotency_row assume "find_active_in_tx now (i_account_id r) (i_idempotency_key r) s \<noteq> None"
  then obtain q where "q \<in> set (idempotency_records s)" "record_key q = record_key r"
    by (auto simp: find_active_in_tx_def record_key_def dest!: find_SomeD)
  then have "record_key r \<in> record_key ` set (idempotency_records s)" by (metis imageI)
  then show "right_opt (insert_in_tx r s) = None" by (simp add: insert_in_tx_def)
qed

lemma insert_in_tx_Inr [res_iff]:
  "insert_in_tx r d = Inr d' \<longleftrightarrow>
     i_id r \<notin> i_id ` set (idempotency_records d) \<and>
     record_key r \<notin> record_key ` set (idempotency_records d) \<and>
     i_account_id r \<in> a_account_id ` set (accounts d) \<and>
     d' = d\<lparr> idempotency_records := idempotency_records d @ [r] \<rparr>"
  unfolding insert_in_tx_def by (simp add: eq_commute)

end
