(* ===== verification/SubmitV1.thy ===== *)
theory SubmitV1
  imports LedgerInv Identity Idempotency
begin

text \<open>
  \<open>POST /v1/events\<close>: request validation (\<open>src/api/v1/validation.rs\<close>), the header of the handler
  (\<open>events.rs\<close>) and \<open>submit_v1_event\<close> (\<open>submit_event.rs\<close>), with the legacy handler of
  \<open>src/api/events.rs\<close>.
\<close>

section \<open>Model\<close>

record V1IdentitySignature =
  vs_key_id :: uuid
  vs_signature :: string

record V1SubmitEventRequest =
  vq_chain_id :: uuid
  vq_file_hash :: string
  vq_event_type :: string
  vq_event_id :: "uuid option"
  vq_identity_signature :: "V1IdentitySignature option"

definition is_valid_file_hash :: "string \<Rightarrow> bool" where
  "is_valid_file_hash file_hash =
     (let hash = trim file_hash in length hash = 64 \<and> list_all is_ascii_hexdigit hash)"

definition allowed_event_types :: "string list" where
  "allowed_event_types = [''submission'', ''amendment'', ''cancellation'']"

definition is_valid_event_type :: "string \<Rightarrow> bool" where
  "is_valid_event_type event_type = List.member allowed_event_types event_type"

definition request_payload :: "ext \<Rightarrow> V1SubmitEventRequest \<Rightarrow> json" where
  "request_payload x body = JObject [(''chain_id'', JUuid x (vq_chain_id body)),
     (''file_hash'', JString (vq_file_hash body)), (''event_type'', JString (vq_event_type body))]"

definition request_hash :: "ext \<Rightarrow> V1SubmitEventRequest \<Rightarrow> string" where
  "request_hash x body = canonical_json_sha256 x (request_payload x body)"

definition validate_submit_request :: "V1SubmitEventRequest \<Rightarrow> ApiError + unit" where
  "validate_submit_request body =
     (if \<not> is_valid_event_type (vq_event_type body) then Inl InvalidRequest
      else if \<not> is_valid_file_hash (vq_file_hash body) then Inl InvalidRequest
      else if vq_identity_signature body \<noteq> None \<and> vq_event_id body = None then Inl InvalidRequest
      else Inr ())"

definition normalized_file_hash :: "string \<Rightarrow> string" where
  "normalized_file_hash file_hash = to_ascii_lowercase (trim file_hash)"

definition trust_level_from_plan :: "string \<Rightarrow> string" where
  "trust_level_from_plan plan_name =
     (if plan_name = ''identity'' then ''IDENTITY''
      else if plan_name = ''vault'' then ''VAULT''
      else if plan_name = ''legal'' then ''ENHANCED''
      else ''BASIC'')"

definition build_v1_response ::
  "ext \<Rightarrow> uuid \<Rightarrow> uuid \<Rightarrow> i64 \<Rightarrow> ProofStatus \<Rightarrow> string \<Rightarrow> uuid \<Rightarrow> json" where
  "build_v1_response x event_id chain_id sequence proof_status trust_level request_id = JObject
     [(''event_id'', JUuid x event_id), (''chain_id'', JUuid x chain_id),
      (''sequence'', JNumber (sint sequence)), (''proof_status'', JString (proof_status_str proof_status)),
      (''trust_level'', JString trust_level), (''request_id'', JUuid x request_id)]"

definition proof_context_for_event ::
  "ext \<Rightarrow> ServerSigner \<Rightarrow> uuid \<Rightarrow> uuid \<Rightarrow> i64 \<Rightarrow> db \<Rightarrow> (ProofStatus \<times> string) \<times> db" where
  "proof_context_for_event x signer chain_id event_id sequence tx =
     (let snapshot = proof_snapshot_at_event x signer chain_id event_id sequence tx in
      ((derive_proof_status (ps_context snapshot), ps_signature snapshot),
       persist_event_signature event_id (ps_signature snapshot) tx))"

fun map_ledger_error :: "LedgerError \<Rightarrow> ApiError" where
  "map_ledger_error ChainNotFound = NotFound"
| "map_ledger_error ChainAccessDenied = NotFound"
| "map_ledger_error LedgerUsageLimitExceeded = UsageLimitExceeded"
| "map_ledger_error TsaLimitExceeded = Internal"
| "map_ledger_error QualifiedTsaUnavailable = Internal"
| "map_ledger_error ParentMismatch = Conflict"
| "map_ledger_error DuplicateIdempotencyKey = Conflict"
| "map_ledger_error DuplicateChainSequence = Conflict"
| "map_ledger_error IdentityNotSupportedOnLegacyPath = Internal"
| "map_ledger_error (DatabaseError _) = Internal"

fun map_identity_signing_error :: "IdentitySigningError \<Rightarrow> ApiError" where
  "map_identity_signing_error KeyNotFound = IdentityKeyNotFound"
| "map_identity_signing_error KeyRevoked = IdentityKeyRevoked"
| "map_identity_signing_error KeyNotVerified = IdentityKeyNotVerified"
| "map_identity_signing_error InvalidSignature = InvalidIdentitySignature"
| "map_identity_signing_error InvalidEventHash = Internal"

text \<open>The identity fields of the event, from the optional signature of the request.\<close>

definition identity_fields ::
  "ext \<Rightarrow> uuid \<Rightarrow> V1SubmitEventRequest \<Rightarrow> string \<Rightarrow> db \<Rightarrow> ApiError + (uuid \<times> string \<times> string) option" where
  "identity_fields x account_id body canonical_event_hash pool =
     (case vq_identity_signature body of
        None \<Rightarrow> Inr None
      | Some isig \<Rightarrow>
          bind_res (map_err (\<lambda>_. EntitlementMissing) (require_feature account_id Identity pool)) (\<lambda>_.
          bind_res (map_err map_identity_signing_error
            (validate_and_prepare x account_id (vs_key_id isig) (vs_signature isig) canonical_event_hash pool))
          (\<lambda>idf. Inr (Some idf))))"

definition ledger_request ::
  "V1SubmitEventRequest \<Rightarrow> string \<Rightarrow> string \<Rightarrow> PlannedEvent \<Rightarrow> (uuid \<times> string \<times> string) option \<Rightarrow>
   SubmitEventRequest" where
  "ledger_request body file_hash idempotency_key planned idf =
     \<lparr> sr_chain_id = vq_chain_id body, sr_file_hash = file_hash, sr_idempotency_key = idempotency_key,
       sr_parent_event_id = None, sr_event_id = Some (pe_event_id planned),
       sr_identity_key_id = map_option (\<lambda>(k, _, _). k) idf,
       sr_identity_signature = map_option (\<lambda>(_, s, _). s) idf,
       sr_identity_fingerprint = map_option (\<lambda>(_, _, f). f) idf \<rparr>"

definition insert_record_error :: "sqlx_error \<Rightarrow> ApiError" where
  "insert_record_error err =
     (if err = UniqueViolation ''uniq_idempotency_account_key'' then Conflict else Internal)"

text \<open>The open transaction after the replay check: the event, its proof, the stored answer.\<close>

record v1_commit =
  vc_event_id :: uuid
  vc_proof_status :: ProofStatus
  vc_response :: json
  vc_db :: db

definition submit_v1_new ::
  "ext \<Rightarrow> ServerSigner \<Rightarrow> env \<Rightarrow> uuid \<Rightarrow> string \<Rightarrow> V1SubmitEventRequest \<Rightarrow> string \<Rightarrow> string \<Rightarrow> string \<Rightarrow> db \<Rightarrow>
   ApiError + v1_commit" where
  "submit_v1_new x signer en account_id idempotency_key body file_hash rhash trust_level d =
     bind_res (map_err map_ledger_error (ensure_chain_access_in_tx account_id (vq_chain_id body) d)) (\<lambda>tx.
     bind_res (map_err map_ledger_error
       (plan_next_event (vq_chain_id body) (vq_event_id body) (en_event_id en) tx)) (\<lambda>planned.
     let canonical_event_hash = build_leaf x (pe_sequence planned) (pe_event_id planned)
           (pe_parent_event_id planned) file_hash in
     bind_res (identity_fields x account_id body canonical_event_hash d) (\<lambda>idf.
     bind_res (map_err map_ledger_error (insert_event_in_tx x en d account_id
       (ledger_request body file_hash idempotency_key planned idf) tx)) (\<lambda>((event_id, sequence), tx1).
     let ((proof_status, _), tx2) =
           proof_context_for_event x signer (vq_chain_id body) event_id sequence tx1;
         response = build_v1_response x event_id (vq_chain_id body) sequence proof_status trust_level
           (en_request_id en);
         record = \<lparr> i_id = en_record_id en, i_account_id = account_id, i_idempotency_key = idempotency_key,
           i_request_hash = rhash, i_response_json = response, i_created_at = en_clock en,
           i_expires_at = en_clock en + IDEMPOTENCY_TTL_HOURS * 3600 * 1000000 \<rparr> in
     bind_res (map_err insert_record_error (insert_in_tx record tx2)) (\<lambda>tx3.
     Inr \<lparr> vc_event_id = event_id, vc_proof_status = proof_status, vc_response = response, vc_db = tx3 \<rparr>)))))"

definition submit_v1_event ::
  "ext \<Rightarrow> ServerSigner \<Rightarrow> env \<Rightarrow> uuid \<Rightarrow> string \<Rightarrow> V1SubmitEventRequest \<Rightarrow> db \<Rightarrow> (ApiError + json) \<times> db" where
  "submit_v1_event x signer en account_id idempotency_key body d =
     (case validate_submit_request body of Inl e \<Rightarrow> (Inl e, d) | Inr _ \<Rightarrow>
     (case get_account_capabilities account_id d of Inl _ \<Rightarrow> (Inl Internal, d) | Inr capabilities \<Rightarrow>
      let trust_level = trust_level_from_plan (cap_plan_name capabilities);
          tsa_class = tsa_class_from_plan (cap_plan_name capabilities);
          file_hash = normalized_file_hash (vq_file_hash body);
          rhash = request_hash x (body\<lparr> vq_file_hash := file_hash, vq_identity_signature := None \<rparr>)
      in (case find_active_in_tx (en_now en) account_id idempotency_key d of
            Some record \<Rightarrow>
              if i_request_hash record \<noteq> rhash then (Inl Conflict, d)
              else (Inr (i_response_json record), d)
          | None \<Rightarrow>
              (case submit_v1_new x signer en account_id idempotency_key body file_hash rhash trust_level d of
                 Inl e \<Rightarrow> (Inl e, d)
               | Inr c \<Rightarrow>
                   let d1 = vc_db c;
                       d2 = (if vc_proof_status c = Anchored
                             then on_proof_anchored x (en_public_bytes en) (en_now en) (vc_event_id c)
                               file_hash tsa_class d1
                             else d1);
                       d3 = stamp_current_root x (en_tsa en) (vq_chain_id body) (vc_event_id c) d2
                   in (Inr (vc_response c), d3)))))"

text \<open>The handler: \<open>header\<close> is the value of \<open>Idempotency-Key\<close> where it is present and visible ASCII.\<close>

definition v1_events_handler ::
  "ext \<Rightarrow> ServerSigner \<Rightarrow> env \<Rightarrow> uuid \<Rightarrow> string option \<Rightarrow> V1SubmitEventRequest \<Rightarrow> db \<Rightarrow>
   (ApiError + json) \<times> db" where
  "v1_events_handler x signer en account_id header body d =
     (case map_option trim header of
        None \<Rightarrow> (Inl InvalidRequest, d)
      | Some idempotency_key \<Rightarrow>
          if idempotency_key = [] then (Inl InvalidRequest, d)
          else submit_v1_event x signer en account_id idempotency_key body d)"

section \<open>The legacy handler\<close>

definition reject_identity_fields_on_legacy :: "SubmitEventRequest \<Rightarrow> LedgerError + unit" where
  "reject_identity_fields_on_legacy req =
     (if sr_identity_key_id req \<noteq> None \<or> sr_identity_signature req \<noteq> None \<or>
         sr_identity_fingerprint req \<noteq> None
      then Inl IdentityNotSupportedOnLegacyPath else Inr ())"

definition map_legacy_events_error :: "LedgerError \<Rightarrow> nat \<times> json" where
  "map_legacy_events_error err =
     (if err = ChainAccessDenied \<or> err = ChainNotFound
      then (404, JObject [(''error'', JString ''not_found'')])
      else (fst (ledger_error_response err),
        JObject [(''error'', JString (snd (ledger_error_response err)))]))"

definition legacy_events_handler ::
  "ext \<Rightarrow> ServerSigner \<Rightarrow> env \<Rightarrow> uuid \<Rightarrow> SubmitEventRequest \<Rightarrow> db \<Rightarrow> (nat \<times> json) \<times> db" where
  "legacy_events_handler x signer en account_id req d =
     (case reject_identity_fields_on_legacy req of
        Inl err \<Rightarrow> (map_legacy_events_error err, d)
      | Inr _ \<Rightarrow>
          (case submit_event x signer en account_id req d of
             (Inr value, d') \<Rightarrow> ((200, value), d')
           | (Inl err, d') \<Rightarrow> (map_legacy_events_error err, d')))"

end
