(* ===== verification/SubmitInv.thy ===== *)
theory SubmitInv
  imports SubmitV1
begin

text \<open>
  What the two submission paths preserve and achieve: the chain invariant, the invariant that every
  stored event carries the server's signature over its own prefix, the registry invariant, the
  quotas, and the replay of stored answers.
\<close>

section \<open>Every event is signed over its prefix\<close>

definition signed_event :: "ext \<Rightarrow> ServerSigner \<Rightarrow> db \<Rightarrow> event_row \<Rightarrow> bool" where
  "signed_event x s d e \<longleftrightarrow> e_signature e =
     sign_root x s (x_uuid_str x (e_chain_id e))
       (recompute_root_from_events x (load_event_prefix (e_chain_id e) (e_sequence e) d))
       (x_uuid_str x (e_event_id e))"

definition signed_ok :: "ext \<Rightarrow> ServerSigner \<Rightarrow> db \<Rightarrow> bool" where
  "signed_ok x s d \<longleftrightarrow> list_all (signed_event x s d) (events d)"

lemma load_prefix_cong: "events d' = events d \<Longrightarrow> load_event_prefix c n d' = load_event_prefix c n d"
  by (simp add: load_event_prefix_def)

lemma signed_ok_cong: "events d' = events d \<Longrightarrow> signed_ok x s d' = signed_ok x s d"
  by (simp add: signed_ok_def list_all_iff signed_event_def load_prefix_cong [of d' d])

lemma event_number:
  assumes "ledger_ok d" "f \<in> set (events d)"
  obtains k where "sint (e_sequence f) = int k" "1 \<le> k" "k \<le> length (chain_rows (e_chain_id f) d)"
proof -
  have "f \<in> set (chain_rows (e_chain_id f) d)" using assms(2) by simp
  from numbered_in [OF chain_inv_numbered [OF ledger_okD [OF assms(1)]] this] show thesis
    by (intro that [of "nat (sint (e_sequence f))"]) auto
qed

text \<open>The prefix of a stored event does not change when its chain, or another one, grows.\<close>

lemma prefix_stable:
  assumes "ledger_ok d" "ledger_ok d'" "appended e d d'" "f \<in> set (events d)"
  shows "load_event_prefix (e_chain_id f) (e_sequence f) d' = load_event_prefix (e_chain_id f) (e_sequence f) d"
proof -
  let ?c = "e_chain_id f"
  obtain k where k: "sint (e_sequence f) = int k" "k \<le> length (chain_rows ?c d)"
    using event_number [OF assms(1,4)] by blast
  have "take k (chain_rows ?c d') = take k (chain_rows ?c d)"
    using k(2) by (simp add: appended_chain_rows [OF assms(3)])
  then show ?thesis
    by (simp only: load_prefix_rows [OF ledger_okD [OF assms(1)] k(1)]
        load_prefix_rows [OF ledger_okD [OF assms(2)] k(1)])
qed

text \<open>The new event with its signature.\<close>

lemma persist_new_event:
  assumes "events tx1 = rows @ [e]" "e_event_id e = eid" "eid \<notin> e_event_id ` set rows"
  shows "events (persist_event_signature eid sig tx1) = rows @ [e\<lparr> e_signature := sig \<rparr>]"
proof -
  have "update_where (\<lambda>f. e_event_id f = eid) (\<lambda>f. f\<lparr> e_signature := sig \<rparr>) rows = rows"
    by (rule update_where_id) (use assms(3) in force)
  then show ?thesis
    using assms(1,2) by (simp add: persist_event_signature_def update_where_def)
qed

lemma new_event_prefix:
  assumes "ledger_ok tx" "ledger_ok tx1" "appended e tx tx1"
    and "next_sequence (e_chain_id e) tx = Inr (e_sequence e)"
  shows "load_event_prefix (e_chain_id e) (e_sequence e) tx1 =
    map to_EventRow (chain_rows (e_chain_id e) tx @ [e])"
proof -
  let ?rows = "chain_rows (e_chain_id e) tx"
  have "length ?rows < 2 ^ 63 - 1" "e_sequence e = of_nat (Suc (length ?rows))"
    using assms(4) by (simp_all add: next_sequence_inv [OF ledger_okD [OF assms(1)]] split: if_splits)
  then have "sint (e_sequence e) = int (Suc (length ?rows))"
    using sint_of_nat_small [of "Suc (length ?rows)"] by simp
  from load_prefix_rows [OF ledger_okD [OF assms(2)] this] show ?thesis
    by (simp add: appended_chain_rows [OF assms(3)])
qed

text \<open>Both submission paths end their transaction with an insertion and the signature.\<close>

lemma commit_effect:
  assumes ok: "ledger_ok tx" and signed: "signed_ok x s tx"
    and ins: "insert_event_in_tx x en pool acc req tx = Inr ((eid, seq), tx1)"
    and snap: "snap = proof_snapshot_at_event x s (sr_chain_id req) eid seq tx1"
  obtains r e where
    "find (\<lambda>r. ch_chain_id r = sr_chain_id req) (chains tx) = Some r"
    "e = new_event_row en req (ch_head_event_id r) seq" "eid = e_event_id e" "appended e tx tx1"
    "events (persist_event_signature eid (ps_signature snap) tx1) =
       events tx @ [e\<lparr> e_signature := ps_signature snap \<rparr>]"
    "ledger_ok (persist_event_signature eid (ps_signature snap) tx1)"
    "signed_ok x s (persist_event_signature eid (ps_signature snap) tx1)"
    "load_event_prefix (sr_chain_id req) seq tx1 = map to_EventRow (chain_rows (sr_chain_id req) tx @ [e])"
    "seq = of_nat (Suc (length (chain_rows (sr_chain_id req) tx)))"
proof -
  from ins obtain r where r: "find (\<lambda>r. ch_chain_id r = sr_chain_id req) (chains tx) = Some r"
    "next_sequence (sr_chain_id req) tx = Inr seq"
    "eid = e_event_id (new_event_row en req (ch_head_event_id r) seq)"
    "appended (new_event_row en req (ch_head_event_id r) seq) tx tx1"
    "eid \<notin> e_event_id ` set (events tx)"
    by (rule insert_event_in_tx_effect)
  define e where "e = new_event_row en req (ch_head_event_id r) seq"
  have e: "e_chain_id e = sr_chain_id req" "e_sequence e = seq" "e_event_id e = eid"
    using r(3) by (simp_all add: e_def)
  have ap: "appended e tx tx1" using r(4) by (simp only: e_def)
  have ok1: "ledger_ok tx1" by (rule insert_event_in_tx_ledger_ok [OF ok ins])
  let ?sig = "ps_signature snap"
  let ?d1 = "persist_event_signature eid ?sig tx1"
  have ev1: "events tx1 = events tx @ [e]" using ap by (simp add: appended_def)
  have ev: "events ?d1 = events tx @ [e\<lparr> e_signature := ?sig \<rparr>]"
    by (rule persist_new_event [OF ev1 e(3) r(5)])
  have pre: "load_event_prefix (sr_chain_id req) seq tx1 = map to_EventRow (chain_rows (sr_chain_id req) tx @ [e])"
    using new_event_prefix [OF ok ok1 ap] r(2) e by simp
  have "signed_event x s ?d1 f" if "f \<in> set (events tx)" for f
  proof -
    have "signed_event x s tx f" using signed that by (simp add: signed_ok_def list_all_iff)
    then show ?thesis by (simp add: signed_event_def prefix_stable [OF ok ok1 ap that])
  qed
  moreover have "signed_event x s ?d1 (e\<lparr> e_signature := ?sig \<rparr>)"
    by (simp add: signed_event_def e snap proof_snapshot_at_event_def snapshot_signature)
  ultimately have "signed_ok x s ?d1" by (simp add: signed_ok_def ev list_all_iff)
  moreover have "seq = of_nat (Suc (length (chain_rows (sr_chain_id req) tx)))"
    using r(2) by (simp add: next_sequence_inv [OF ledger_okD [OF ok]] split: if_splits)
  ultimately show thesis
    using that [OF r(1) e_def e(3) [symmetric] ap ev persist_ledger_ok [OF ok1] _ pre] by blast
qed

lemma commit_anchored:
  assumes "ext_ok x" "signer_ok x s" "ledger_ok tx"
    and "insert_event_in_tx x en pool acc req tx = Inr ((eid, seq), tx1)"
  shows "derive_proof_status (ps_context (proof_snapshot_at_event x s (sr_chain_id req) eid seq tx1)) = Anchored"
proof -
  from assms(4) obtain r where "find (\<lambda>r. ch_chain_id r = sr_chain_id req) (chains tx) = Some r"
    and r: "next_sequence (sr_chain_id req) tx = Inr seq"
    "appended (new_event_row en req (ch_head_event_id r) seq) tx tx1"
    by (rule insert_event_in_tx_effect)
  let ?e = "new_event_row en req (ch_head_event_id r) seq"
  have "load_event_prefix (e_chain_id ?e) (e_sequence ?e) tx1 =
      map to_EventRow (chain_rows (e_chain_id ?e) tx @ [?e])"
    by (rule new_event_prefix [OF assms(3) insert_event_in_tx_ledger_ok [OF assms(3,4)] r(2)])
      (simp add: r(1))
  then show ?thesis
    unfolding proof_snapshot_at_event_def by (intro snapshot_anchored assms(1,2)) simp
qed

section \<open>Registry along the insertion\<close>

lemma registry_ok_cong:
  "public_proof_registry d' = public_proof_registry d \<Longrightarrow>
   public_proof_materialization d' = public_proof_materialization d \<Longrightarrow> registry_ok d' = registry_ok d"
  by (simp add: registry_ok_def)

lemma ensure_chain_tables:
  assumes "ensure_chain_access_in_tx acc c d = Inr d'"
  shows "public_proof_registry d' = public_proof_registry d"
    "public_proof_materialization d' = public_proof_materialization d"
    "accounts d' = accounts d" "tariff_plans d' = tariff_plans d" "usage_monthly d' = usage_monthly d"
    "identity_keys d' = identity_keys d" "idempotency_records d' = idempotency_records d"
    "tsa_tokens d' = tsa_tokens d"
  using assms by (auto simp: ensure_chain_access_in_tx_def split: option.splits if_splits)

lemma insert_event_tables:
  assumes "insert_event_in_tx x en pool acc req tx = Inr ((eid, seq), tx1)"
  shows "public_proof_registry tx1 = public_proof_registry tx"
    "public_proof_materialization tx1 = public_proof_materialization tx"
    "accounts tx1 = accounts tx" "tariff_plans tx1 = tariff_plans tx"
    "identity_keys tx1 = identity_keys tx" "idempotency_records tx1 = idempotency_records tx"
    "tsa_tokens tx1 = tsa_tokens tx"
proof -
  from assms obtain tx' usage caps h tx2 where
    u: "ensure_usage_row x (en_now en) acc tx = Inr tx'"
    and i: "insert_event (new_event_row en req h seq) tx' = Inr tx2"
    and b: "bump_usage x (en_now en) acc (set_chain_head (sr_chain_id req) eid tx2) = Inr tx1"
    by (rule insert_event_in_tx_steps)
  have "tx2 = tx'\<lparr> events := events tx' @ [new_event_row en req h seq] \<rparr>"
    using i unfolding insert_event_Inr by blast
  then show "public_proof_registry tx1 = public_proof_registry tx"
    "public_proof_materialization tx1 = public_proof_materialization tx"
    "accounts tx1 = accounts tx" "tariff_plans tx1 = tariff_plans tx"
    "identity_keys tx1 = identity_keys tx" "idempotency_records tx1 = idempotency_records tx"
    "tsa_tokens tx1 = tsa_tokens tx"
    by (simp_all add: bump_usage_effect [OF b] ensure_usage_row_effect [OF u] set_chain_head_def)
qed

lemma persist_tables [simp]:
  "public_proof_registry (persist_event_signature e s d) = public_proof_registry d"
  "public_proof_materialization (persist_event_signature e s d) = public_proof_materialization d"
  "accounts (persist_event_signature e s d) = accounts d"
  "tariff_plans (persist_event_signature e s d) = tariff_plans d"
  "usage_monthly (persist_event_signature e s d) = usage_monthly d"
  "idempotency_records (persist_event_signature e s d) = idempotency_records d"
  "chains (persist_event_signature e s d) = chains d"
  by (simp_all add: persist_event_signature_def)

lemma stamp_current_tables [simp]:
  "chains (stamp_current_root x te c e d) = chains d"
  "events (stamp_current_root x te c e d) = events d"
  "accounts (stamp_current_root x te c e d) = accounts d"
  "tariff_plans (stamp_current_root x te c e d) = tariff_plans d"
  "usage_monthly (stamp_current_root x te c e d) = usage_monthly d"
  "idempotency_records (stamp_current_root x te c e d) = idempotency_records d"
  "public_proof_registry (stamp_current_root x te c e d) = public_proof_registry d"
  "public_proof_materialization (stamp_current_root x te c e d) = public_proof_materialization d"
  by (simp_all add: stamp_current_root_def split: option.splits)

section \<open>The invariant of the service\<close>

definition service_ok :: "ext \<Rightarrow> ServerSigner \<Rightarrow> db \<Rightarrow> bool" where
  "service_ok x s d \<longleftrightarrow> ledger_ok d \<and> signed_ok x s d \<and> registry_ok d"

lemma service_ok_cong:
  assumes "events d' = events d" "chains d' = chains d"
    "public_proof_registry d' = public_proof_registry d"
    "public_proof_materialization d' = public_proof_materialization d"
  shows "service_ok x s d' = service_ok x s d"
  by (simp add: service_ok_def ledger_ok_cong [OF assms(1,2)] signed_ok_cong [OF assms(1)]
      registry_ok_cong [OF assms(3,4)])

lemma service_ok_ensure:
  assumes "service_ok x s d" "ensure_chain_access_in_tx acc c d = Inr d'"
  shows "service_ok x s d'"
  using assms ensure_chain_ledger_ok [OF _ assms(2)] signed_ok_cong [OF ensure_chain_events [OF assms(2)]]
    registry_ok_cong [OF ensure_chain_tables(1,2) [OF assms(2)]]
  by (simp add: service_ok_def)

lemma service_ok_commit:
  assumes "service_ok x s tx" "insert_event_in_tx x en pool acc req tx = Inr ((eid, seq), tx1)"
    and "snap = proof_snapshot_at_event x s (sr_chain_id req) eid seq tx1"
  shows "service_ok x s (persist_event_signature eid (ps_signature snap) tx1)"
proof -
  have "ledger_ok tx" "signed_ok x s tx" using assms(1) by (simp_all add: service_ok_def)
  from this assms(2,3) have "ledger_ok (persist_event_signature eid (ps_signature snap) tx1)"
      "signed_ok x s (persist_event_signature eid (ps_signature snap) tx1)"
    by (auto elim: commit_effect)
  moreover have "registry_ok (persist_event_signature eid (ps_signature snap) tx1) = registry_ok tx"
    by (rule registry_ok_cong) (simp_all add: insert_event_tables [OF assms(2)])
  ultimately show ?thesis using assms(1) by (simp add: service_ok_def)
qed

lemma service_ok_anchored:
  assumes "service_ok x s d"
  shows "service_ok x s (on_proof_anchored x rnd now p h cls d)"
  using assms registry_ok_anchored
  by (simp add: service_ok_def ledger_ok_cong [of "on_proof_anchored x rnd now p h cls d" d]
      signed_ok_cong [of "on_proof_anchored x rnd now p h cls d" d] anchored_other_tables)

lemma service_ok_stamp: "service_ok x s d \<Longrightarrow> service_ok x s (stamp_current_root x te c e d)"
  using service_ok_cong [of "stamp_current_root x te c e d" d] by simp


section \<open>The v1 path\<close>

lemma submit_v1_new_steps:
  assumes "submit_v1_new x s en acc key body fh rh tlv d = Inr c"
  obtains tx planned idf eid seq tx1 snap where
    "ensure_chain_access_in_tx acc (vq_chain_id body) d = Inr tx"
    "plan_next_event (vq_chain_id body) (vq_event_id body) (en_event_id en) tx = Inr planned"
    "identity_fields x acc body (build_leaf x (pe_sequence planned) (pe_event_id planned)
       (pe_parent_event_id planned) fh) d = Inr idf"
    "insert_event_in_tx x en d acc (ledger_request body fh key planned idf) tx = Inr ((eid, seq), tx1)"
    "snap = proof_snapshot_at_event x s (vq_chain_id body) eid seq tx1"
    "vc_event_id c = eid" "vc_proof_status c = derive_proof_status (ps_context snap)"
    "vc_response c = build_v1_response x eid (vq_chain_id body) seq (vc_proof_status c) tlv (en_request_id en)"
    "insert_in_tx \<lparr> i_id = en_record_id en, i_account_id = acc, i_idempotency_key = key,
       i_request_hash = rh, i_response_json = vc_response c, i_created_at = en_clock en,
       i_expires_at = en_clock en + IDEMPOTENCY_TTL_HOURS * 3600 * 1000000 \<rparr>
       (persist_event_signature eid (ps_signature snap) tx1) = Inr (vc_db c)"
proof -
  from assms obtain tx planned idf eid seq tx1 tx3 where
    1: "ensure_chain_access_in_tx acc (vq_chain_id body) d = Inr tx"
    and 2: "plan_next_event (vq_chain_id body) (vq_event_id body) (en_event_id en) tx = Inr planned"
    and 3: "identity_fields x acc body (build_leaf x (pe_sequence planned) (pe_event_id planned)
       (pe_parent_event_id planned) fh) d = Inr idf"
    and 4: "insert_event_in_tx x en d acc (ledger_request body fh key planned idf) tx = Inr ((eid, seq), tx1)"
    and rest: "(let ((proof_status, _), tx2) = proof_context_for_event x s (vq_chain_id body) eid seq tx1;
         response = build_v1_response x eid (vq_chain_id body) seq proof_status tlv (en_request_id en);
         record = \<lparr> i_id = en_record_id en, i_account_id = acc, i_idempotency_key = key,
           i_request_hash = rh, i_response_json = response, i_created_at = en_clock en,
           i_expires_at = en_clock en + IDEMPOTENCY_TTL_HOURS * 3600 * 1000000 \<rparr> in
     bind_res (map_err insert_record_error (insert_in_tx record tx2)) (\<lambda>tx3.
     Inr \<lparr> vc_event_id = eid, vc_proof_status = proof_status, vc_response = response, vc_db = tx3 \<rparr>)) = Inr c"
    unfolding submit_v1_new_def by (auto simp: bind_res_Inr map_err_Inr Let_def)
  define snap where "snap = proof_snapshot_at_event x s (vq_chain_id body) eid seq tx1"
  have "vc_event_id c = eid" "vc_proof_status c = derive_proof_status (ps_context snap)"
    "vc_response c = build_v1_response x eid (vq_chain_id body) seq (vc_proof_status c) tlv (en_request_id en)"
    "insert_in_tx \<lparr> i_id = en_record_id en, i_account_id = acc, i_idempotency_key = key,
       i_request_hash = rh, i_response_json = vc_response c, i_created_at = en_clock en,
       i_expires_at = en_clock en + IDEMPOTENCY_TTL_HOURS * 3600 * 1000000 \<rparr>
       (persist_event_signature eid (ps_signature snap) tx1) = Inr (vc_db c)"
    using rest by (auto simp: proof_context_for_event_def Let_def bind_res_Inr map_err_Inr snap_def)
  with 1 2 3 4 snap_def show thesis by (rule that)
qed

lemma submit_v1_new_cases:
  assumes "submit_v1_event x s en acc key body d = (Inr resp, d')"
    and "find_active_in_tx (en_now en) acc key d = None"
  obtains caps c d2 where
    "validate_submit_request body = Inr ()" "get_account_capabilities acc d = Inr caps"
    "submit_v1_new x s en acc key body (normalized_file_hash (vq_file_hash body))
       (request_hash x (body\<lparr> vq_file_hash := normalized_file_hash (vq_file_hash body),
          vq_identity_signature := None \<rparr>)) (trust_level_from_plan (cap_plan_name caps)) d = Inr c"
    "resp = vc_response c"
    "d2 = (if vc_proof_status c = Anchored
        then on_proof_anchored x (en_public_bytes en) (en_now en) (vc_event_id c)
          (normalized_file_hash (vq_file_hash body)) (tsa_class_from_plan (cap_plan_name caps)) (vc_db c)
        else vc_db c)"
    "d' = stamp_current_root x (en_tsa en) (vq_chain_id body) (vc_event_id c) d2"
  using assms by (auto simp: submit_v1_event_def Let_def split: sum.splits)

lemma submit_v1_error_unchanged: "fst (submit_v1_event x s en acc key body d) = Inl e \<Longrightarrow>
    snd (submit_v1_event x s en acc key body d) = d"
  by (auto simp: submit_v1_event_def Let_def split: sum.splits option.splits if_splits)

lemma submit_v1_replay:
  assumes "find_active_in_tx (en_now en) acc key d = Some r"
  shows "submit_v1_event x s en acc key body d =
    (case validate_submit_request body of Inl e \<Rightarrow> (Inl e, d) | Inr _ \<Rightarrow>
     case get_account_capabilities acc d of Inl _ \<Rightarrow> (Inl Internal, d) | Inr _ \<Rightarrow>
       (if i_request_hash r \<noteq> request_hash x (body\<lparr> vq_file_hash := normalized_file_hash (vq_file_hash body),
              vq_identity_signature := None \<rparr>)
        then Inl Conflict else Inr (i_response_json r), d))"
  using assms by (auto simp: submit_v1_event_def Let_def split: sum.splits)

lemma service_ok_submit_v1_new:
  assumes ok: "service_ok x s d" and new: "submit_v1_new x s en acc key body fh rh tlv d = Inr c"
  shows "service_ok x s (vc_db c)"
proof -
  from new obtain tx planned idf eid seq tx1 snap where
    1: "ensure_chain_access_in_tx acc (vq_chain_id body) d = Inr tx"
    and 4: "insert_event_in_tx x en d acc (ledger_request body fh key planned idf) tx = Inr ((eid, seq), tx1)"
    and snap: "snap = proof_snapshot_at_event x s (vq_chain_id body) eid seq tx1"
    and ins: "insert_in_tx \<lparr> i_id = en_record_id en, i_account_id = acc, i_idempotency_key = key,
       i_request_hash = rh, i_response_json = vc_response c, i_created_at = en_clock en,
       i_expires_at = en_clock en + IDEMPOTENCY_TTL_HOURS * 3600 * 1000000 \<rparr>
       (persist_event_signature eid (ps_signature snap) tx1) = Inr (vc_db c)"
    by (rule submit_v1_new_steps)
  have "service_ok x s (persist_event_signature eid (ps_signature snap) tx1)"
    by (rule service_ok_commit [OF service_ok_ensure [OF ok 1] 4]) (simp add: snap ledger_request_def)
  moreover have "service_ok x s (vc_db c) = service_ok x s (persist_event_signature eid (ps_signature snap) tx1)"
    by (rule service_ok_cong) (use ins in \<open>auto simp: insert_in_tx_Inr\<close>)
  ultimately show ?thesis by simp
qed

lemma service_ok_submit_v1:
  assumes ok: "service_ok x s d"
  shows "service_ok x s (snd (submit_v1_event x s en acc key body d))"
proof (cases "submit_v1_event x s en acc key body d")
  case (Pair r d')
  show ?thesis
  proof (cases r)
    case (Inl e)
    with submit_v1_error_unchanged [of x s en acc key body d e] Pair ok show ?thesis by simp
  next
    case (Inr resp)
    show ?thesis
    proof (cases "find_active_in_tx (en_now en) acc key d")
      case (Some rec)
      with Pair ok show ?thesis
        by (auto simp: submit_v1_replay split: sum.splits if_splits)
    next
      case None
      from Pair Inr have "submit_v1_event x s en acc key body d = (Inr resp, d')" by simp
      from this None obtain caps c d2 where
        "validate_submit_request body = Inr ()" "get_account_capabilities acc d = Inr caps" and
        c: "submit_v1_new x s en acc key body (normalized_file_hash (vq_file_hash body))
       (request_hash x (body\<lparr> vq_file_hash := normalized_file_hash (vq_file_hash body),
          vq_identity_signature := None \<rparr>)) (trust_level_from_plan (cap_plan_name caps)) d = Inr c"
        and "resp = vc_response c" and d2: "d2 = (if vc_proof_status c = Anchored
        then on_proof_anchored x (en_public_bytes en) (en_now en) (vc_event_id c)
          (normalized_file_hash (vq_file_hash body)) (tsa_class_from_plan (cap_plan_name caps)) (vc_db c)
        else vc_db c)"
        and d': "d' = stamp_current_root x (en_tsa en) (vq_chain_id body) (vc_event_id c) d2"
        by (rule submit_v1_new_cases)
      have "service_ok x s (vc_db c)" by (rule service_ok_submit_v1_new [OF ok c])
      then have "service_ok x s d2" by (simp add: d2 service_ok_anchored)
      then show ?thesis by (simp add: Pair d' service_ok_stamp)
    qed
  qed
qed

section \<open>The legacy path\<close>

lemma submit_event_tx_new:
  assumes "submit_event_tx x s en acc req d = Inr (Inr ((eid, seq, snap), d1))"
  obtains tx tx1 where "ensure_chain_access_in_tx acc (sr_chain_id req) d = Inr tx"
    "insert_event_in_tx x en d acc req tx = Inr ((eid, seq), tx1)"
    "snap = proof_snapshot_at_event x s (sr_chain_id req) eid seq tx1"
    "d1 = persist_event_signature eid (ps_signature snap) tx1"
  using assms by (auto simp: submit_event_tx_def bind_res_Inr Let_def split: option.splits)

lemma service_ok_finalize:
  "service_ok x s d \<Longrightarrow> service_ok x s (snd (finalize_event_submission x te c e n r g p d))"
  by (simp add: finalize_event_submission_def Let_def service_ok_stamp)

lemma service_ok_submit_event:
  assumes ok: "service_ok x s d"
  shows "service_ok x s (snd (submit_event x s en acc req d))"
proof (cases "submit_event_tx x s en acc req d")
  case (Inl e)
  with ok show ?thesis by (simp add: submit_event_def)
next
  case (Inr r)
  show ?thesis
  proof (cases r)
    case (Inl c)
    with Inr ok show ?thesis by (cases c) (simp add: submit_event_def)
  next
    case new: (Inr n)
    obtain eid seq snap d1 where n: "n = ((eid, seq, snap), d1)" by (metis prod.exhaust)
    with Inr new have "submit_event_tx x s en acc req d = Inr (Inr ((eid, seq, snap), d1))" by simp
    then obtain tx tx1 where tx: "ensure_chain_access_in_tx acc (sr_chain_id req) d = Inr tx"
      "insert_event_in_tx x en d acc req tx = Inr ((eid, seq), tx1)"
      "snap = proof_snapshot_at_event x s (sr_chain_id req) eid seq tx1"
      "d1 = persist_event_signature eid (ps_signature snap) tx1"
      by (rule submit_event_tx_new)
    have d1: "service_ok x s d1"
      using service_ok_commit [OF service_ok_ensure [OF ok tx(1)] tx(2,3)] tx(4) by simp
    with Inr new n show ?thesis
      by (auto simp: submit_event_def Let_def service_ok_finalize service_ok_anchored split: sum.splits prod.splits)
        (metis service_ok_finalize service_ok_anchored snd_conv)+
  qed
qed

text \<open>An error of the legacy path leaves the database alone: the capabilities that are read again
  after the commit were readable before it.\<close>

lemma submit_event_error_unchanged:
  assumes "fst (submit_event x s en acc req d) = Inl err"
  shows "snd (submit_event x s en acc req d) = d"
proof (cases "submit_event_tx x s en acc req d")
  case (Inl e)
  then show ?thesis by (simp add: submit_event_def)
next
  case (Inr r)
  show ?thesis
  proof (cases r)
    case (Inl c)
    with Inr show ?thesis by (cases c) (simp add: submit_event_def)
  next
    case new: (Inr n)
    obtain eid seq snap d1 where n: "n = ((eid, seq, snap), d1)" by (metis prod.exhaust)
    with Inr new have "submit_event_tx x s en acc req d = Inr (Inr ((eid, seq, snap), d1))" by simp
    then obtain tx tx1 where tx: "ensure_chain_access_in_tx acc (sr_chain_id req) d = Inr tx"
      "insert_event_in_tx x en d acc req tx = Inr ((eid, seq), tx1)"
      "snap = proof_snapshot_at_event x s (sr_chain_id req) eid seq tx1"
      "d1 = persist_event_signature eid (ps_signature snap) tx1"
      by (rule submit_event_tx_new)
    from tx(2) obtain tx' usage caps h tx2 where
      "ensure_usage_row x (en_now en) acc tx = Inr tx'"
      "current_usage x (en_now en) acc tx' = Some usage"
      and caps: "get_account_capabilities acc d = Inr caps"
      by (rule insert_event_in_tx_steps)
    have "get_account_capabilities acc d1 = get_account_capabilities acc d"
      by (rule get_account_capabilities_cong)
        (simp_all add: tx(4) insert_event_tables [OF tx(2)] ensure_chain_tables [OF tx(1)])
    with caps assms Inr new n show ?thesis
      by (auto simp: submit_event_def Let_def split: if_splits prod.splits)
  qed
qed

lemma service_ok_create_chain:
  assumes ok: "service_ok x s d"
  shows "service_ok x s (snd (create_chain x fresh acc d))"
proof (cases "fresh \<in> ch_chain_id ` set (chains d) \<or> acc \<notin> a_account_id ` set (accounts d)")
  case True
  with ok show ?thesis by (auto simp: create_chain_def)
next
  case False
  let ?d' = "snd (create_chain x fresh acc d)"
  have d': "?d' = d\<lparr> chains := chains d @
      [\<lparr> ch_chain_id = fresh, ch_head_event_id = None, ch_account_id = Some acc \<rparr>] \<rparr>"
    using False by (simp add: create_chain_def)
  have none: "find (\<lambda>r. ch_chain_id r = fresh) (chains d) = None"
    using False by (auto simp: find_None_iff)
  have inv: "chain_inv c d" for c using ok by (simp add: service_ok_def ledger_ok_def)
  have "chain_inv c ?d'" for c
  proof (cases "c = fresh")
    case True
    have "chain_rows c d = []" using inv [of c] none True by (simp add: chain_inv_def)
    then show ?thesis using none True by (simp add: chain_inv_def d' find_append last_id_def)
  next
    case False
    have "chain_inv c ?d' = chain_inv c d"
      by (rule chain_inv_cong) (use False in \<open>simp_all add: d' find_append split: option.split\<close>)
    then show ?thesis using inv by simp
  qed
  moreover have "signed_ok x s ?d' = signed_ok x s d" by (rule signed_ok_cong) (simp add: d')
  moreover have "registry_ok ?d' = registry_ok d" by (rule registry_ok_cong) (simp_all add: d')
  ultimately show ?thesis using ok by (simp add: service_ok_def ledger_ok_def d')
qed

end
