(* ===== verification/ReadApi.thy ===== *)
theory ReadApi
  imports SubmitInv
begin

text \<open>
  The read endpoints: ownership (\<open>src/api/v1/event_access.rs\<close>), \<open>GET /v1/proof/{event_id}\<close>
  (\<open>build_proof_response\<close> of \<open>proof_material.rs\<close>), the file hash claim (\<open>file_verification.rs\<close>)
  and \<open>GET /v1/verify/{event_id}\<close> (\<open>verify.rs\<close>).  The lemmas show that an event the service
  stored stays provable: only a time stamp that fails its own check can turn the answer.
\<close>

section \<open>Access\<close>

text \<open>\<open>events e INNER JOIN chains c ON c.chain_id = e.chain_id WHERE e.event_id = $1\<close>; the event the
  handlers go on with is the row.\<close>

definition verify_event_access :: "uuid \<Rightarrow> uuid \<Rightarrow> db \<Rightarrow> ApiError + event_row" where
  "verify_event_access account_id event_id d =
     (case find (\<lambda>e. e_event_id e = event_id) (events d) of
        None \<Rightarrow> Inl NotFound
      | Some row \<Rightarrow>
     (case find (\<lambda>c. ch_chain_id c = e_chain_id row) (chains d) of
        None \<Rightarrow> Inl NotFound
      | Some c \<Rightarrow>
     (case ch_account_id c of
        None \<Rightarrow> Inl NotFound
      | Some owner_id \<Rightarrow> if owner_id \<noteq> account_id then Inl NotFound else Inr row)))"

section \<open>Proof\<close>

definition pending_proof_response :: "ext \<Rightarrow> event_row \<Rightarrow> ProofStatus \<Rightarrow> uuid \<Rightarrow> json" where
  "pending_proof_response x event status request_id = JObject
     [(''event_id'', JUuid x (e_event_id event)), (''chain_id'', JUuid x (e_chain_id event)),
      (''sequence'', JNumber (sint (e_sequence event))), (''proof_status'', JString (proof_status_str status)),
      (''request_id'', JUuid x request_id)]"

definition anchored_proof_response ::
  "ext \<Rightarrow> event_row \<Rightarrow> ProofSnapshot \<Rightarrow> json option \<Rightarrow> uuid \<Rightarrow> json" where
  "anchored_proof_response x event snapshot tsa request_id = JObject
     [(''proof_version'', JString ''proof_v1''), (''proof_type'', JString ''merkle-root-v1''),
      (''leaf_version'', JString ''leaf_v1''), (''event_id'', JUuid x (e_event_id event)),
      (''chain_id'', JUuid x (e_chain_id event)), (''sequence'', JNumber (sint (e_sequence event))),
      (''parent_event_id'', JUuid x (e_parent_event_id event)), (''file_hash'', JString (e_file_hash event)),
      (''merkle_root'', JString (ps_merkle_root snapshot)), (''signature'', JString (ps_signature snapshot)),
      (''public_key'', JString (ps_public_key snapshot)), (''tsa'', JOpt id tsa),
      (''created_at'', JString (x_rfc3339 x (e_created_at event))),
      (''proof_status'', JString (proof_status_str Anchored)), (''request_id'', JUuid x request_id)]"

definition build_proof_response ::
  "ext \<Rightarrow> tsa_env \<Rightarrow> timestamp \<Rightarrow> ServerSigner \<Rightarrow> uuid \<Rightarrow> event_row \<Rightarrow> db \<Rightarrow> json \<times> db" where
  "build_proof_response x te now signer request_id event d =
     (let pre = load_event_prefix (e_chain_id event) (e_sequence event) d;
          public_key = public_key_hex x signer;
          snapshot = build_proof_snapshot_read x (e_chain_id event) (e_event_id event) pre
            (e_signature event) public_key;
          (resolved, d') = resolve_proof_state x te now (e_chain_id event) snapshot d
      in (case rp_status resolved of
            Pending \<Rightarrow> pending_proof_response x event Pending request_id
          | Failed \<Rightarrow> pending_proof_response x event Failed request_id
          | Anchored \<Rightarrow> anchored_proof_response x event snapshot (rp_tsa resolved) request_id, d'))"

definition proof_handler ::
  "ext \<Rightarrow> tsa_env \<Rightarrow> timestamp \<Rightarrow> ServerSigner \<Rightarrow> uuid \<Rightarrow> uuid \<Rightarrow> uuid \<Rightarrow> db \<Rightarrow> (ApiError + json) \<times> db" where
  "proof_handler x te now signer request_id account_id event_id d =
     (case verify_event_access account_id event_id d of
        Inl e \<Rightarrow> (Inl e, d)
      | Inr event \<Rightarrow> (case build_proof_response x te now signer request_id event d of
            (response, d') \<Rightarrow> (Inr response, d')))"

section \<open>File hash claim\<close>

record FileVerification =
  fv_provided :: bool
  fv_provided_hash :: "string option"
  fv_is_valid_file_hash :: "bool option"

definition normalize_query_file_hash :: "string option \<Rightarrow> unit + string option" where
  "normalize_query_file_hash raw = (case raw of
     None \<Rightarrow> Inr None
   | Some raw \<Rightarrow>
       let normalized = to_ascii_lowercase (trim raw) in
       if length normalized \<noteq> 64 then Inl ()
       else if \<not> list_all is_lower_hex normalized then Inl ()
       else Inr (Some normalized))"

definition verify_file_hash :: "string option \<Rightarrow> string \<Rightarrow> FileVerification" where
  "verify_file_hash provided stored = (case provided of
     None \<Rightarrow> \<lparr> fv_provided = False, fv_provided_hash = None, fv_is_valid_file_hash = None \<rparr>
   | Some hash \<Rightarrow>
       if hash = stored
       then \<lparr> fv_provided = True, fv_provided_hash = Some hash, fv_is_valid_file_hash = Some True \<rparr>
       else \<lparr> fv_provided = True, fv_provided_hash = Some hash, fv_is_valid_file_hash = Some False \<rparr>)"

section \<open>Verification\<close>

definition JBoolOpt :: "bool option \<Rightarrow> json" where
  "JBoolOpt b = JOpt JBool b"

definition identity_json :: "ext \<Rightarrow> IdentityVerificationResult \<Rightarrow> json" where
  "identity_json x r =
     (if iv_present r then JObject
        [(''present'', JBool True), (''valid'', JBool (iv_valid r)), (''reason'', JOpt JString (iv_reason r)),
         (''fingerprint'', JOpt JString (iv_fingerprint r)), (''key_id'', JOpt (JUuid x) (iv_key_id r))]
      else JNull)"

definition chain_json :: "ChainVerification \<Rightarrow> json" where
  "chain_json c = JObject [(''valid'', JBool (cv_valid c)), (''merkle_valid'', JBool (cv_merkle_valid c)),
     (''signature_valid'', JBool (cv_signature_valid c)), (''errors'', JArray (map JString (cv_errors c)))]"

definition file_json :: "FileVerification \<Rightarrow> json" where
  "file_json f = JObject [(''provided'', JBool (fv_provided f)),
     (''provided_hash'', JOpt JString (fv_provided_hash f)),
     (''is_valid_file_hash'', JBoolOpt (fv_is_valid_file_hash f))]"

text \<open>What the anchored answer of the handler is made of, and the handler.\<close>

record verify_answer =
  va_event :: event_row
  va_chain :: ChainVerification
  va_file :: FileVerification
  va_identity :: IdentityVerificationResult

definition verify_answer_json :: "ext \<Rightarrow> uuid \<Rightarrow> verify_answer \<Rightarrow> json" where
  "verify_answer_json x request_id a = JObject
     [(''event_id'', JUuid x (e_event_id (va_event a))), (''chain_id'', JUuid x (e_chain_id (va_event a))),
      (''sequence'', JNumber (sint (e_sequence (va_event a)))),
      (''proof_status'', JString (proof_status_str Anchored)), (''chain'', chain_json (va_chain a)),
      (''file'', file_json (va_file a)), (''identity_signature'', identity_json x (va_identity a)),
      (''request_id'', JUuid x request_id)]"

definition verify_handler ::
  "ext \<Rightarrow> tsa_env \<Rightarrow> timestamp \<Rightarrow> ServerSigner \<Rightarrow> uuid \<Rightarrow> uuid \<Rightarrow> string option \<Rightarrow> db \<Rightarrow>
   (ApiError + verify_answer) \<times> db" where
  "verify_handler x te now signer account_id event_id query_file_hash d =
     (case verify_event_access account_id event_id d of
        Inl e \<Rightarrow> (Inl e, d)
      | Inr event \<Rightarrow>
     (case normalize_query_file_hash query_file_hash of
        Inl _ \<Rightarrow> (Inl InvalidVerifyFileHash, d)
      | Inr provided_file_hash \<Rightarrow>
          let pre = load_event_prefix (e_chain_id event) (e_sequence event) d;
              public_key = public_key_hex x signer;
              snapshot = build_proof_snapshot_read x (e_chain_id event) (e_event_id event) pre
                (e_signature event) public_key;
              (resolved, d') = resolve_proof_state x te now (e_chain_id event) snapshot d
          in (case rp_status resolved of
                Pending \<Rightarrow> (Inl ProofNotReady, d')
              | Failed \<Rightarrow> (Inl ProofGenerationFailed, d')
              | Anchored \<Rightarrow>
                  let chain = verify_chain_prefix x (e_chain_id event) (e_event_id event)
                        (e_signature event) public_key pre (rp_resolved_root resolved);
                      file = verify_file_hash provided_file_hash (e_file_hash event);
                      canonical_event_hash_hex = build_leaf x (e_sequence event) (e_event_id event)
                        (e_parent_event_id event) (e_file_hash event)
                  in (case verify_identity x event canonical_event_hash_hex d' of
                        Inl _ \<Rightarrow> (Inl Internal, d')
                      | Inr identity_verification \<Rightarrow>
                          (Inr \<lparr> va_event = event, va_chain = chain, va_file = file,
                             va_identity = identity_verification \<rparr>, d')))))"

section \<open>Lemmas\<close>

lemma verify_event_access_Inr [res_iff]:
  "verify_event_access acc eid d = Inr e \<longleftrightarrow>
     find (\<lambda>e. e_event_id e = eid) (events d) = Some e \<and>
     (\<exists>c. find (\<lambda>c. ch_chain_id c = e_chain_id e) (chains d) = Some c \<and> ch_account_id c = Some acc)"
  by (auto simp: verify_event_access_def split: option.splits if_splits)

lemma verify_event_access_Inl: "verify_event_access acc eid d = Inl err \<Longrightarrow> err = NotFound"
  by (auto simp: verify_event_access_def split: option.splits if_splits)

text \<open>Reading back what the service stored.\<close>

lemma stored_prefix:
  assumes ok: "service_ok x s d" and e: "e \<in> set (events d)"
  obtains k where "load_event_prefix (e_chain_id e) (e_sequence e) d =
      map to_EventRow (take k (chain_rows (e_chain_id e) d))" "1 \<le> k" "k \<le> length (chain_rows (e_chain_id e) d)"
proof -
  have l: "ledger_ok d" using ok by (simp add: service_ok_def)
  obtain k where k: "sint (e_sequence e) = int k" "1 \<le> k" "k \<le> length (chain_rows (e_chain_id e) d)"
    by (rule event_number [OF l e])
  show thesis by (rule that [OF load_prefix_rows [OF ledger_okD [OF l] k(1)] k(2,3)])
qed

lemma stored_prefix_shape:
  assumes "service_ok x s d" "e \<in> set (events d)"
  shows "chain_shape (load_event_prefix (e_chain_id e) (e_sequence e) d)"
    and "load_event_prefix (e_chain_id e) (e_sequence e) d \<noteq> []"
proof -
  obtain k where k: "load_event_prefix (e_chain_id e) (e_sequence e) d =
      map to_EventRow (take k (chain_rows (e_chain_id e) d))" "1 \<le> k" "k \<le> length (chain_rows (e_chain_id e) d)"
    by (rule stored_prefix [OF assms])
  have "chain_shape (map to_EventRow (chain_rows (e_chain_id e) d))"
    using assms(1) by (simp add: service_ok_def ledger_ok_def chain_inv_def)
  from chain_shape_take [OF this, of k] show "chain_shape (load_event_prefix (e_chain_id e) (e_sequence e) d)"
    by (simp add: k(1) take_map)
  show "load_event_prefix (e_chain_id e) (e_sequence e) d \<noteq> []"
    using k(2,3) by (auto simp: k(1))
qed

lemma stored_snapshot:
  assumes "service_ok x s d" "e \<in> set (events d)"
  shows "build_proof_snapshot_read x (e_chain_id e) (e_event_id e)
      (load_event_prefix (e_chain_id e) (e_sequence e) d) (e_signature e) (public_key_hex x s)
    = build_proof_snapshot x s (e_chain_id e) (e_event_id e) (load_event_prefix (e_chain_id e) (e_sequence e) d)"
proof -
  have "e_signature e = ps_signature (build_proof_snapshot x s (e_chain_id e) (e_event_id e)
      (load_event_prefix (e_chain_id e) (e_sequence e) d))"
    using assms by (simp add: service_ok_def signed_ok_def list_all_iff signed_event_def snapshot_signature)
  then show ?thesis by (simp only: snapshot_read_context)
qed

lemma stored_anchored:
  assumes "ext_ok x" "signer_ok x s" "service_ok x s d" "e \<in> set (events d)"
  shows "derive_proof_status (ps_context (build_proof_snapshot_read x (e_chain_id e) (e_event_id e)
      (load_event_prefix (e_chain_id e) (e_sequence e) d) (e_signature e) (public_key_hex x s))) = Anchored"
  unfolding stored_snapshot [OF assms(3,4)]
  by (rule snapshot_anchored [OF assms(1,2) stored_prefix_shape(2) [OF assms(3,4)]])

lemma stored_prefix_valid:
  assumes ok: "ext_ok x" "signer_ok x s" and st: "service_ok x s d" "e \<in> set (events d)"
  shows "cv_valid (verify_chain_prefix x (e_chain_id e) (e_event_id e) (e_signature e) (public_key_hex x s)
    (load_event_prefix (e_chain_id e) (e_sequence e) d)
    (recompute_root_from_events x (load_event_prefix (e_chain_id e) (e_sequence e) d)))"
proof -
  have x: "sha_ok x" "hex_ok x" "ed_ok x" using ok(1) by auto
  have "e_signature e = sign_root x s (x_uuid_str x (e_chain_id e))
       (recompute_root_from_events x (load_event_prefix (e_chain_id e) (e_sequence e) d))
       (x_uuid_str x (e_event_id e))"
    using st by (simp add: service_ok_def signed_ok_def list_all_iff signed_event_def)
  then show ?thesis
    using stored_prefix_shape [OF st] sign_root_nonempty [OF x(2,3) ok(2)] verify_sign [OF x(2,3) ok(2)]
    by (simp add: verify_chain_prefix_valid [OF x(1,2)])
qed

lemma snapshot_read_root [simp]:
  "ps_merkle_root (build_proof_snapshot_read x c e es sig pk) = recompute_root_from_events x es"
  by (simp add: build_proof_snapshot_read_def Let_def)

text \<open>The canonical event hash is always 32 bytes of hex, so that the identity check cannot fail on it.\<close>

lemma leaf_decodes:
  assumes "sha_ok x" "hex_ok x"
  shows "\<exists>raw. x_hex_decode x (build_leaf x n e p h) = Some raw \<and> length raw = 32"
  using assms by (auto simp: build_leaf_def sha_hex_def hex_ok_def sha_ok_def)

lemma verify_identity_total:
  assumes "sha_ok x" "hex_ok x"
  shows "\<exists>r. verify_identity x e (build_leaf x n i p h) d = Inr r"
  using leaf_decodes [OF assms, of n i p h]
  by (auto simp: verify_identity_def Let_def split: option.splits)

lemma to_ascii_lowercase_hex: "list_all is_ascii_hexdigit s \<Longrightarrow> list_all is_lower_hex (to_ascii_lowercase s)"
  by (simp add: to_ascii_lowercase_def list_all_iff ascii_lower_hex)

lemma is_lower_hex_lower: "is_lower_hex (ascii_lower c) \<Longrightarrow> is_ascii_hexdigit c"
  by (auto simp: is_ascii_hexdigit_def is_lower_hex_def ascii_lower_def Let_def take_bit_nat_def split: if_splits)

text \<open>The query accepts exactly the hashes that submission accepts, and normalises them alike.\<close>

lemma query_accepts:
  "normalize_query_file_hash (Some raw) = Inr (Some (normalized_file_hash raw)) \<longleftrightarrow> is_valid_file_hash raw"
  using to_ascii_lowercase_hex [of "trim raw"]
  by (auto simp: normalize_query_file_hash_def normalized_file_hash_def is_valid_file_hash_def Let_def
      to_ascii_lowercase_def list_all_iff dest: is_lower_hex_lower)

text \<open>What the owner of a stored event gets, when no time stamp is stored for its prefix.\<close>

lemma verify_handler_owner:
  assumes ok: "ext_ok x" "signer_ok x s" and st: "service_ok x s d"
    and acc: "verify_event_access acc eid d = Inr e" and q: "normalize_query_file_hash q = Inr h"
    and root: "root = recompute_root_from_events x (load_event_prefix (e_chain_id e) (e_sequence e) d)"
  shows "if \<exists>t. load_tsa_row_for_root (e_chain_id e) root d = Some t \<and> stored_token_fails x te t root
    then fst (verify_handler x te now s acc eid q d) = Inl ProofGenerationFailed
    else \<exists>a. fst (verify_handler x te now s acc eid q d) = Inr a \<and> va_event a = e \<and>
      cv_valid (va_chain a) \<and> va_file a = verify_file_hash h (e_file_hash e)"
    and "\<exists>ts. snd (verify_handler x te now s acc eid q d) = d\<lparr> tsa_tokens := ts \<rparr>"
proof -
  let ?pre = "load_event_prefix (e_chain_id e) (e_sequence e) d"
  let ?snap = "build_proof_snapshot_read x (e_chain_id e) (e_event_id e) ?pre (e_signature e) (public_key_hex x s)"
  have e: "e \<in> set (events d)" using acc by (auto simp: verify_event_access_Inr dest: find_SomeD)
  have sha: "sha_ok x" "hex_ok x" using ok by (auto dest: ext_okD)
  obtain r d' where r: "resolve_proof_state x te now (e_chain_id e) ?snap d = (r, d')" by fastforce
  obtain i where i: "verify_identity x e (build_leaf x (e_sequence e) (e_event_id e) (e_parent_event_id e)
      (e_file_hash e)) d' = Inr i" using verify_identity_total [OF sha] by blast
  have status: "rp_status r = (if \<exists>t. load_tsa_row_for_root (e_chain_id e) root d = Some t \<and> stored_token_fails x te t root
      then Failed else Anchored)"
    using resolve_status [of x te now "e_chain_id e" ?snap d] r stored_anchored [OF ok st e] by (simp add: root)
  have rr: "rp_resolved_root r = recompute_root_from_events x ?pre"
    using resolve_root [of x te now "e_chain_id e" ?snap d] r by simp
  show "if \<exists>t. load_tsa_row_for_root (e_chain_id e) root d = Some t \<and> stored_token_fails x te t root
    then fst (verify_handler x te now s acc eid q d) = Inl ProofGenerationFailed
    else \<exists>a. fst (verify_handler x te now s acc eid q d) = Inr a \<and> va_event a = e \<and>
      cv_valid (va_chain a) \<and> va_file a = verify_file_hash h (e_file_hash e)"
    using stored_prefix_valid [OF ok st e] status rr by (simp add: verify_handler_def acc q r i Let_def)
  have "snd (verify_handler x te now s acc eid q d) = d'"
    using status by (simp add: verify_handler_def acc q r i Let_def)
  then show "\<exists>ts. snd (verify_handler x te now s acc eid q d) = d\<lparr> tsa_tokens := ts \<rparr>"
    using resolve_writes_tokens [of x te now "e_chain_id e" ?snap d] r by simp
qed

end
