(* ===== verification/SubmitLive.thy ===== *)
theory SubmitLive
  imports ReadApi
begin

text \<open>
  When a submission succeeds: the account has a plan with an available time stamp and free quota, the
  chain is free or owned, the identifiers are fresh and the idempotency key is unused.  The other
  theories say what a success does; this one says that it happens.
\<close>

definition quota_free :: "ext \<Rightarrow> timestamp \<Rightarrow> uuid \<Rightarrow> AccountCapabilities \<Rightarrow> db \<Rightarrow> bool" where
  "quota_free x now acc caps d \<longleftrightarrow>
     (case current_usage x now acc d of
        None \<Rightarrow> can_commit caps 0 \<and> can_use_tsa caps 0 \<and> tsa_available caps
      | Some u \<Rightarrow> can_commit caps (u_server_commits u) \<and> can_use_tsa caps (u_tsa_requests u) \<and>
          tsa_available caps) \<and>
     list_all (\<lambda>u. u_server_commits u < 2 ^ 31 - 1 \<and> u_tsa_requests u < 2 ^ 31 - 1) (usage_monthly d)"

definition chain_open :: "uuid \<Rightarrow> uuid \<Rightarrow> db \<Rightarrow> bool" where
  "chain_open acc c d \<longleftrightarrow>
     (case find (\<lambda>r. ch_chain_id r = c) (chains d) of
        None \<Rightarrow> True | Some r \<Rightarrow> ch_account_id r = None \<or> ch_account_id r = Some acc) \<and>
     length (chain_rows c d) < 2 ^ 63 - 1"

definition event_fresh :: "uuid \<Rightarrow> uuid \<Rightarrow> string \<Rightarrow> db \<Rightarrow> bool" where
  "event_fresh eid c key d \<longleftrightarrow>
     list_all (\<lambda>e. e_event_id e \<noteq> eid \<and> (e_chain_id e, e_idempotency_key e) \<noteq> (c, key)) (events d)"

definition record_fresh :: "uuid \<Rightarrow> uuid \<Rightarrow> string \<Rightarrow> db \<Rightarrow> bool" where
  "record_fresh rid acc key d \<longleftrightarrow>
     list_all (\<lambda>r. i_id r \<noteq> rid \<and> record_key r \<noteq> (acc, key)) (idempotency_records d)"

lemma ensure_chain_access_succeeds:
  assumes "acc \<in> a_account_id ` set (accounts d)" "chain_open acc c d"
  shows "\<exists>tx. ensure_chain_access_in_tx acc c d = Inr tx"
  using assms by (auto simp: ensure_chain_access_in_tx_def chain_open_def split: option.splits)

lemma ensure_usage_row_succeeds:
  assumes "acc \<in> a_account_id ` set (accounts d)"
  shows "\<exists>tx. ensure_usage_row x now acc d = Inr tx"
  using assms by (auto simp: ensure_usage_row_def split: option.splits)

lemma ensure_usage_row_small:
  assumes "ensure_usage_row x now acc d = Inr d'"
    and "list_all (\<lambda>u. u_server_commits u < 2 ^ 31 - 1 \<and> u_tsa_requests u < 2 ^ 31 - 1) (usage_monthly d)"
  shows "list_all (\<lambda>u. u_server_commits u < 2 ^ 31 - 1 \<and> u_tsa_requests u < 2 ^ 31 - 1) (usage_monthly d')"
  using assms by (auto simp: ensure_usage_row_def split: option.splits if_splits)

lemma bump_usage_succeeds:
  assumes "list_all (\<lambda>u. u_server_commits u < 2 ^ 31 - 1 \<and> u_tsa_requests u < 2 ^ 31 - 1) (usage_monthly d)"
  shows "\<exists>tx. bump_usage x now acc d = Inr tx"
  using assms by (fastforce simp: bump_usage_def Let_def list_ex_iff list_all_iff)

lemma insert_event_in_tx_succeeds:
  assumes acc: "acc \<in> a_account_id ` set (accounts tx)"
    and caps: "get_account_capabilities acc pool = Inr caps"
    and quota: "quota_free x (en_now en) acc caps tx"
    and ok: "ledger_ok tx" "find (\<lambda>r. ch_chain_id r = sr_chain_id req) (chains tx) = Some r"
      "length (chain_rows (sr_chain_id req) tx) < 2 ^ 63 - 1"
    and fresh: "event_fresh (case sr_event_id req of Some e \<Rightarrow> e | None \<Rightarrow> en_event_id en)
      (sr_chain_id req) (sr_idempotency_key req) tx"
    and key: "\<forall>k. sr_identity_key_id req = Some k \<longrightarrow> k \<in> k_id ` set (identity_keys tx)"
  shows "\<exists>r. insert_event_in_tx x en pool acc req tx = Inr r"
proof -
  let ?c = "sr_chain_id req"
  obtain tx1 where tx1: "ensure_usage_row x (en_now en) acc tx = Inr tx1"
    using ensure_usage_row_succeeds [OF acc] by blast
  note eff = ensure_usage_row_effect [OF tx1]
  obtain u where u: "current_usage x (en_now en) acc tx1 = Some u" using eff(10) by auto
  have q: "check_quota caps u = Inr ()"
    using quota eff(11,12) u by (auto simp: quota_free_def check_quota_Inr split: option.splits)
  have inv: "chain_inv ?c tx1"
    using ledger_okD [OF ok(1), of ?c] chain_inv_cong [of ?c tx1 tx] eff(1,2) by simp
  define seq where "seq = (of_nat (Suc (length (chain_rows ?c tx))) :: i64)"
  have rows: "chain_rows ?c tx1 = chain_rows ?c tx" by (simp add: eff(2))
  have seq: "next_sequence ?c tx1 = Inr seq"
    using next_sequence_inv [OF inv] ok(3) by (simp add: rows seq_def)
  have sint_seq: "sint seq = int (Suc (length (chain_rows ?c tx)))"
    using ok(3) by (simp only: seq_def sint_of_nat_small)
  have head: "chain_head ?c tx1 = Inr (ch_head_event_id r)"
    using ok(2) by (simp add: chain_head_Inr eff(1))
  define e where "e = new_event_row en req (ch_head_event_id r) seq"
  have seq_fresh: "(?c, seq) \<notin> (\<lambda>f. (e_chain_id f, e_sequence f)) ` set (events tx)"
  proof
    assume "(?c, seq) \<in> (\<lambda>f. (e_chain_id f, e_sequence f)) ` set (events tx)"
    then obtain f where "f \<in> set (chain_rows ?c tx)" "e_sequence f = seq"
      by auto
    then show False
      using numbered_in [OF chain_inv_numbered [OF ledger_okD [OF ok(1)]], of f ?c] sint_seq by simp
  qed
  have ids: "e_event_id e \<notin> e_event_id ` set (events tx)"
    "(?c, sr_idempotency_key req) \<notin> (\<lambda>f. (e_chain_id f, e_idempotency_key f)) ` set (events tx)"
    using fresh by (auto simp: event_fresh_def list_all_iff e_def)
  have ins: "insert_event e tx1 = Inr (tx1\<lparr> events := events tx1 @ [e] \<rparr>)"
    unfolding insert_event_Inr using ids seq_fresh key
    by (simp add: e_def eff(2,5))
  obtain tx3 where bump: "bump_usage x (en_now en) acc
      (set_chain_head ?c (e_event_id e) (tx1\<lparr> events := events tx1 @ [e] \<rparr>)) = Inr tx3"
    using bump_usage_succeeds [where x = x and now = "en_now en" and acc = acc
        and d = "set_chain_head ?c (e_event_id e) (tx1\<lparr> events := events tx1 @ [e] \<rparr>)"]
      ensure_usage_row_small [OF tx1] quota
    by (auto simp: quota_free_def set_chain_head_def)
  have "insert_event_in_tx x en pool acc req tx = Inr ((e_event_id e, seq), tx3)"
    using ins bump by (simp add: insert_event_in_tx_def tx1 u caps q head seq ok_or_def map_err_def e_def Let_def)
  then show ?thesis by blast
qed


text \<open>A v1 request without an identity signature, under a key that was never used.\<close>

lemma submit_v1_event_succeeds:
  assumes ok: "ledger_ok d" and valid: "validate_submit_request body = Inr ()"
    and plain: "vq_identity_signature body = None"
    and caps: "get_account_capabilities acc d = Inr caps"
    and quota: "quota_free x (en_now en) acc caps d"
    and open_: "chain_open acc (vq_chain_id body) d"
    and fresh: "event_fresh (case vq_event_id body of Some e \<Rightarrow> e | None \<Rightarrow> en_event_id en)
      (vq_chain_id body) key d"
    and unused_key: "record_fresh (en_record_id en) acc key d"
  shows "\<exists>resp d'. submit_v1_event x s en acc key body d = (Inr resp, d')"
proof -
  let ?c = "vq_chain_id body" and ?h = "normalized_file_hash (vq_file_hash body)"
  have acc: "acc \<in> a_account_id ` set (accounts d)"
    using caps by (auto simp: res_iff dest!: find_SomeD)
  obtain tx where tx: "ensure_chain_access_in_tx acc ?c d = Inr tx"
    using ensure_chain_access_succeeds [OF acc open_] by blast
  note same = ensure_chain_tables [OF tx] ensure_chain_events [OF tx]
  have ok_tx: "ledger_ok tx" using ok tx by (rule ensure_chain_ledger_ok)
  obtain r where r: "find (\<lambda>r. ch_chain_id r = ?c) (chains tx) = Some r"
    using ensure_chain_access_effect(2) [OF tx] by blast
  have small: "length (chain_rows ?c tx) < 2 ^ 63 - 1" using open_ by (simp add: chain_open_def same)
  define planned where "planned = \<lparr> pe_event_id = (case vq_event_id body of Some e \<Rightarrow> e | None \<Rightarrow> en_event_id en),
    pe_sequence = of_nat (Suc (length (chain_rows ?c tx))),
    pe_parent_event_id = (case ch_head_event_id r of Some h \<Rightarrow> h | None \<Rightarrow> uuid_nil) \<rparr>"
  have plan: "plan_next_event ?c (vq_event_id body) (en_event_id en) tx = Inr planned"
    using next_sequence_inv [OF ledger_okD [OF ok_tx], of ?c] small r
    by (simp add: plan_next_event_def chain_head_def fetch_one_def ok_or_def planned_def)
  define req where "req = ledger_request body ?h key planned None"
  have req: "sr_chain_id req = ?c" "sr_idempotency_key req = key" "sr_identity_key_id req = None"
    "sr_event_id req = Some (pe_event_id planned)"
    by (simp_all add: req_def ledger_request_def)
  have "quota_free x (en_now en) acc caps tx"
    using quota by (simp add: quota_free_def current_usage_def same)
  then have "\<exists>v. insert_event_in_tx x en d acc req tx = Inr v"
    using acc caps ok_tx r small fresh
    by (intro insert_event_in_tx_succeeds [where caps = caps and r = r])
      (simp_all add: same req planned_def event_fresh_def)
  then obtain eid seq tx1 where ins: "insert_event_in_tx x en d acc req tx = Inr ((eid, seq), tx1)"
    by (metis prod.exhaust)
  define rh where "rh = request_hash x (body\<lparr> vq_file_hash := ?h, vq_identity_signature := None \<rparr>)"
  define snap where "snap = proof_snapshot_at_event x s ?c eid seq tx1"
  define tx2 where "tx2 = persist_event_signature eid (ps_signature snap) tx1"
  define tlv where "tlv = trust_level_from_plan (cap_plan_name caps)"
  have unused: "(acc, key) \<notin> record_key ` set (idempotency_records d)"
    using unused_key by (auto simp: record_fresh_def list_all_iff)
  have new_id: "en_record_id en \<notin> i_id ` set (idempotency_records d)"
    using unused_key by (auto simp: record_fresh_def list_all_iff)
  have put: "\<exists>tx3. insert_in_tx \<lparr> i_id = en_record_id en, i_account_id = acc, i_idempotency_key = key,
      i_request_hash = rh, i_response_json = resp, i_created_at = t, i_expires_at = u \<rparr> tx2 = Inr tx3" for resp t u
    using new_id unused acc
    by (simp add: insert_in_tx_def tx2_def insert_event_tables [OF ins] same record_key_def)
  have idf: "identity_fields x acc body leaf d = Inr None" for leaf by (simp add: identity_fields_def plain)
  have "\<exists>c. submit_v1_new x s en acc key body ?h rh tlv d = Inr c"
    using put by (simp add: submit_v1_new_def tx plan idf req_def [symmetric] ins Let_def
        proof_context_for_event_def snap_def [symmetric] tx2_def [symmetric] bind_res_Inr map_err_Inr)
  moreover have "find_active_in_tx (en_now en) acc key d = None"
    using unused_key by (auto simp: find_active_in_tx_def find_None_iff record_fresh_def list_all_iff record_key_def)
  ultimately show ?thesis
    by (auto simp: submit_v1_event_def valid caps rh_def [symmetric] tlv_def [symmetric] Let_def)
qed

text \<open>The legacy endpoint, under a key that its chain has not used.\<close>

lemma submit_event_succeeds:
  assumes ok: "ledger_ok d" and caps: "get_account_capabilities acc d = Inr caps"
    and quota: "quota_free x (en_now en) acc caps d"
    and open_: "chain_open acc (sr_chain_id req) d"
    and fresh: "event_fresh (case sr_event_id req of Some e \<Rightarrow> e | None \<Rightarrow> en_event_id en)
      (sr_chain_id req) (sr_idempotency_key req) d"
    and key: "\<forall>k. sr_identity_key_id req = Some k \<longrightarrow> k \<in> k_id ` set (identity_keys d)"
  shows "\<exists>value d'. submit_event x s en acc req d = (Inr value, d')"
proof -
  let ?c = "sr_chain_id req"
  have acc: "acc \<in> a_account_id ` set (accounts d)"
    using caps by (auto simp: res_iff dest!: find_SomeD)
  obtain tx where tx: "ensure_chain_access_in_tx acc ?c d = Inr tx"
    using ensure_chain_access_succeeds [OF acc open_] by blast
  note same = ensure_chain_tables [OF tx] ensure_chain_events [OF tx]
  have ok_tx: "ledger_ok tx" using ok tx by (rule ensure_chain_ledger_ok)
  obtain r where r: "find (\<lambda>r. ch_chain_id r = ?c) (chains tx) = Some r"
    using ensure_chain_access_effect(2) [OF tx] by blast
  have small: "length (chain_rows ?c tx) < 2 ^ 63 - 1" using open_ by (simp add: chain_open_def same)
  have "quota_free x (en_now en) acc caps tx"
    using quota by (simp add: quota_free_def current_usage_def same)
  then have "\<exists>v. insert_event_in_tx x en d acc req tx = Inr v"
    using acc caps ok_tx r small fresh key
    by (intro insert_event_in_tx_succeeds [where caps = caps and r = r]) (simp_all add: same event_fresh_def)
  then obtain eid seq tx1 where ins: "insert_event_in_tx x en d acc req tx = Inr ((eid, seq), tx1)"
    by (metis prod.exhaust)
  have unused: "find (\<lambda>e. e_chain_id e = ?c \<and> e_idempotency_key e = sr_idempotency_key req) (events tx) = None"
    using fresh by (auto simp: find_None_iff event_fresh_def list_all_iff same)
  define snap where "snap = proof_snapshot_at_event x s ?c eid seq tx1"
  define d1 where "d1 = persist_event_signature eid (ps_signature snap) tx1"
  have run: "submit_event_tx x s en acc req d = Inr (Inr ((eid, seq, snap), d1))"
    by (simp add: submit_event_tx_def tx unused ins snap_def d1_def Let_def)
  have "get_account_capabilities acc d1 = Inr caps"
    using caps get_account_capabilities_cong [of d1 d acc]
    by (simp add: d1_def insert_event_tables [OF ins] same)
  then show ?thesis by (simp add: submit_event_def run Let_def split: prod.split)
qed

end
