(* ===== verification/Service.thy ===== *)
theory Service
  imports SubmitLive Transition
begin

text \<open>
  The service as a transition system: a step is one request of the API that writes to the ledger's
  tables (submissions on both endpoints, chain creation), or that touches the database beside it (the
  read path's cache, the public proof registry, the billing middleware, the identity keys).  Every
  run keeps \<open>service_ok\<close> and only ever appends events.
\<close>

inductive service_step :: "ext \<Rightarrow> ServerSigner \<Rightarrow> db \<Rightarrow> db \<Rightarrow> bool" for x s where
  submit_v1: "service_step x s d (snd (v1_events_handler x s en acc header body d))"
| submit_legacy: "service_step x s d (snd (legacy_events_handler x s en acc req d))"
| create: "service_step x s d (snd (create_chain x fresh acc d))"
| read_proof: "service_step x s d (snd (build_proof_response x te now s rid e d))"
| read_verify: "service_step x s d (snd (verify_handler x te now s acc eid q d))"
| middleware: "service_step x s d (snd (subscription_enforcement_middleware x now auth m d))"
| disable_proof: "service_step x s d (disable_canonical_public_proof h d)"
| enable_proof: "service_step x s d (sync_canonical_public_proof x rnd now h cls d)"
| challenge: "service_step x s d (snd (challenge_handler x now fresh rnd acc d))"
| register: "service_step x s d (snd (register_handler x now clock fresh acc rk d))"
| revoke: "service_step x s d (snd (revoke_identity_key now acc kid d))"

inductive_cases service_stepE: "service_step x s d d'"

section \<open>Frames of the steps that do not submit\<close>

definition same_ledger :: "db \<Rightarrow> db \<Rightarrow> bool" where
  "same_ledger d d' \<longleftrightarrow> events d' = events d \<and> chains d' = chains d \<and>
     idempotency_records d' = idempotency_records d"

definition same_registry :: "db \<Rightarrow> db \<Rightarrow> bool" where
  "same_registry d d' \<longleftrightarrow> public_proof_registry d' = public_proof_registry d \<and>
     public_proof_materialization d' = public_proof_materialization d"

lemma service_ok_frame: "service_ok x s d \<Longrightarrow> same_ledger d d' \<Longrightarrow> same_registry d d' \<Longrightarrow> service_ok x s d'"
  using service_ok_cong [of d' d x s] by (simp add: same_ledger_def same_registry_def)

lemma service_ok_registry:
  assumes "service_ok x s d" "same_ledger d d'" "registry_ok d'"
  shows "service_ok x s d'"
  using assms ledger_ok_cong [of d' d] signed_ok_cong [of d' d x s]
  by (simp add: service_ok_def same_ledger_def)

lemma persist_cache_registry:
  "same_registry d (persist_verification_cache now c r sha out d)"
  by (simp add: same_registry_def persist_verification_cache_def split: option.split)

lemma persist_cache_records [simp]:
  "idempotency_records (persist_verification_cache now c r sha out d) = idempotency_records d"
  by (simp add: persist_verification_cache_def split: option.split)

lemma resolve_frame:
  "same_ledger d (snd (resolve_proof_state x te now c snap d)) \<and>
   same_registry d (snd (resolve_proof_state x te now c snap d))"
  using persist_cache_registry
  by (auto simp: same_ledger_def same_registry_def resolve_proof_state_def
      resolve_and_cache_tsa_verification_def Let_def split: option.splits prod.splits if_splits)

lemma frame_refl [simp]: "same_ledger d d" "same_registry d d"
  by (simp_all add: same_ledger_def same_registry_def)

lemma read_proof_frame:
  "same_ledger d (snd (build_proof_response x te now s rid e d)) \<and>
   same_registry d (snd (build_proof_response x te now s rid e d))"
  using resolve_frame by (simp add: build_proof_response_def Let_def split: prod.split) (metis snd_conv)

lemma read_verify_frame:
  "same_ledger d (snd (verify_handler x te now s acc eid q d)) \<and>
   same_registry d (snd (verify_handler x te now s acc eid q d))"
proof -
  have "snd (verify_handler x te now s acc eid q d) = d \<or>
    (\<exists>c snap. snd (verify_handler x te now s acc eid q d) = snd (resolve_proof_state x te now c snap d))"
    unfolding verify_handler_def Let_def
    by (simp split: sum.split prod.split ProofStatus.split) (metis snd_conv)
  then show ?thesis using resolve_frame by (metis frame_refl)
qed

lemma accounts_frame: "d' = d\<lparr> accounts := as \<rparr> \<Longrightarrow> same_ledger d d' \<and> same_registry d d'"
  by (simp add: same_ledger_def same_registry_def)

lemma lazy_frame:
  "apply_lazy_billing_transitions x now acc d = Inr d' \<Longrightarrow> same_ledger d d' \<and> same_registry d d'"
  by (rule accounts_frame, erule apply_lazy_tables [THEN conjunct1])

lemma middleware_frame:
  "same_ledger d (snd (subscription_enforcement_middleware x now auth m d)) \<and>
   same_registry d (snd (subscription_enforcement_middleware x now auth m d))"
  unfolding subscription_enforcement_middleware_def Let_def
  by (simp split: option.split sum.split bool.split) (simp add: lazy_frame)

lemma challenge_frame:
  "same_ledger d (snd (challenge_handler x now fresh rnd acc d)) \<and>
   same_registry d (snd (challenge_handler x now fresh rnd acc d))"
  by (auto simp: challenge_handler_def create_challenge_def Let_def same_ledger_def same_registry_def
      split: sum.splits if_splits)

lemma create_key_frame:
  "create_identity_key now fresh acc pub fp l d = Inr (k, d') \<Longrightarrow> same_ledger d d' \<and> same_registry d d'"
  by (auto simp: create_identity_key_def Let_def same_ledger_def same_registry_def split: if_splits)

lemma mark_used_frame: "mark_used now c d = Inr d' \<Longrightarrow> same_ledger d d' \<and> same_registry d d'"
  by (auto simp: mark_used_def Let_def same_ledger_def same_registry_def split: if_splits)

lemma register_frame:
  "same_ledger d (snd (register_handler x now clock fresh acc rk d)) \<and>
   same_registry d (snd (register_handler x now clock fresh acc rk d))"
  unfolding register_handler_def
  by (auto split: sum.split option.split prod.split IdentityKeyError.split
      simp: same_ledger_def same_registry_def
      dest!: create_key_frame [unfolded same_ledger_def same_registry_def]
        mark_used_frame [unfolded same_ledger_def same_registry_def])

lemma revoke_frame:
  "same_ledger d (snd (revoke_identity_key now acc kid d)) \<and>
   same_registry d (snd (revoke_identity_key now acc kid d))"
  by (auto simp: revoke_identity_key_def append_audit_def Let_def same_ledger_def same_registry_def
      split: option.split sum.splits if_splits)

section \<open>Submissions only append\<close>

definition extends :: "db \<Rightarrow> db \<Rightarrow> bool" where
  "extends d d' \<longleftrightarrow> prefix (events d) (events d') \<and>
     prefix (idempotency_records d) (idempotency_records d')"

lemma extends_refl [simp]: "extends d d"
  by (simp add: extends_def)

lemma extends_frame: "same_ledger d d' \<Longrightarrow> extends d d'"
  by (simp add: extends_def same_ledger_def)

lemma service_okD: "service_ok x s d \<Longrightarrow> ledger_ok d \<and> signed_ok x s d \<and> registry_ok d"
  by (simp add: service_ok_def)

lemma insert_in_tx_events: "insert_in_tx r d = Inr d' \<Longrightarrow> events d' = events d \<and> chains d' = chains d"
  by (auto simp: insert_in_tx_def split: if_splits)

lemma insert_in_tx_frame:
  "insert_in_tx r d = Inr d' \<Longrightarrow> events d' = events d \<and> chains d' = chains d \<and>
     tsa_tokens d' = tsa_tokens d \<and> usage_monthly d' = usage_monthly d"
  by (auto simp: insert_in_tx_def split: if_splits)

lemma commit_sequence:
  assumes "ledger_ok tx" "insert_event_in_tx x en pool acc req tx = Inr ((eid, seq), tx1)"
  shows "sint seq = int (Suc (length (chain_rows (sr_chain_id req) tx)))"
proof -
  have inv: "chain_inv (sr_chain_id req) tx" using assms(1) by (rule ledger_okD)
  have next_seq: "next_sequence (sr_chain_id req) tx = Inr seq"
    using assms(2) by (auto elim: insert_event_in_tx_effect)
  then have "length (chain_rows (sr_chain_id req) tx) < 2 ^ 63 - 1"
    and "seq = of_nat (Suc (length (chain_rows (sr_chain_id req) tx)))"
    using next_sequence_inv [OF inv] by (auto split: if_splits)
  then show ?thesis
    using sint_of_nat_small [of "Suc (length (chain_rows (sr_chain_id req) tx))"] by (simp del: of_nat_Suc)
qed

text \<open>What the transaction of either endpoint leaves: one more event, at the next sequence number of its
  chain, signed over its prefix, and the chain's head set to it.\<close>

lemma commit_appends:
  assumes ok: "service_ok x s d" and acc: "ensure_chain_access_in_tx acc (sr_chain_id req) d = Inr tx"
    and ins: "insert_event_in_tx x en pool acc req tx = Inr ((eid, seq), tx1)"
    and snap: "snap = proof_snapshot_at_event x s (sr_chain_id req) eid seq tx1"
    and d1: "d1 = persist_event_signature eid (ps_signature snap) tx1"
  obtains e where
    "events d1 = events d @ [e]" "e_event_id e = eid" "e_sequence e = seq"
    "e_chain_id e = sr_chain_id req" "e_idempotency_key e = sr_idempotency_key req"
    "e_file_hash e = sr_file_hash req" "e_signature e = ps_signature snap"
    "eid = (case sr_event_id req of Some i \<Rightarrow> i | None \<Rightarrow> en_event_id en)"
    "sint seq = int (Suc (length (chain_rows (sr_chain_id req) d)))"
    "chains d1 = update_where (\<lambda>r. ch_chain_id r = sr_chain_id req)
       (\<lambda>r. r\<lparr> ch_head_event_id := Some eid \<rparr>) (chains tx)"
    "eid \<notin> e_event_id ` set (events d)"
proof -
  have tx: "ledger_ok tx" "signed_ok x s tx" "events tx = events d"
    using service_okD [OF service_ok_ensure [OF ok acc]] ensure_chain_events [OF acc] by auto
  obtain r e where "find (\<lambda>r. ch_chain_id r = sr_chain_id req) (chains tx) = Some r"
    and e: "e = new_event_row en req (ch_head_event_id r) seq" "eid = e_event_id e"
      "appended e tx tx1" "events (persist_event_signature eid (ps_signature snap) tx1) =
         events tx @ [e\<lparr> e_signature := ps_signature snap \<rparr>]"
    and "ledger_ok (persist_event_signature eid (ps_signature snap) tx1)"
      "signed_ok x s (persist_event_signature eid (ps_signature snap) tx1)"
      "load_event_prefix (sr_chain_id req) seq tx1 = map to_EventRow (chain_rows (sr_chain_id req) tx @ [e])"
      "seq = of_nat (Suc (length (chain_rows (sr_chain_id req) tx)))"
    by (rule commit_effect [OF tx(1,2) ins snap])
  have fresh: "eid \<notin> e_event_id ` set (events d)"
    unfolding tx(3) [symmetric] by (rule insert_event_in_tx_effect [OF ins])
  have flds: "e_sequence e = seq" "e_chain_id e = sr_chain_id req" "e_idempotency_key e = sr_idempotency_key req"
    "e_file_hash e = sr_file_hash req"
    "e_event_id e = (case sr_event_id req of Some i \<Rightarrow> i | None \<Rightarrow> en_event_id en)"
    by (simp_all only: e(1) new_event_row_simps)
  have ch: "chains tx1 = update_where (\<lambda>r. ch_chain_id r = sr_chain_id req)
      (\<lambda>r. r\<lparr> ch_head_event_id := Some eid \<rparr>) (chains tx)"
    using e(3) by (simp only: appended_def e(2) flds(2))
  have seq: "sint seq = int (Suc (length (chain_rows (sr_chain_id req) d)))"
    using commit_sequence [OF tx(1) ins] by (simp only: tx(3))
  show thesis
  proof (rule that [of "e\<lparr> e_signature := ps_signature snap \<rparr>"])
    show "events d1 = events d @ [e\<lparr> e_signature := ps_signature snap \<rparr>]" by (simp only: d1 e(4) tx(3))
    show "chains d1 = update_where (\<lambda>r. ch_chain_id r = sr_chain_id req)
        (\<lambda>r. r\<lparr> ch_head_event_id := Some eid \<rparr>) (chains tx)" using ch by (simp add: d1)
    show "eid = (case sr_event_id req of Some i \<Rightarrow> i | None \<Rightarrow> en_event_id en)" by (simp only: e(2) flds)
  qed (simp_all add: flds(1-4) e(2)[symmetric] seq fresh)
qed

lemma submit_v1_new_appends:
  assumes ok: "service_ok x s d" and new: "submit_v1_new x s en acc key body fh rh tlv d = Inr c"
  obtains e tx where
    "events (vc_db c) = events d @ [e]" "e_event_id e = vc_event_id c"
    "e_chain_id e = vq_chain_id body" "e_idempotency_key e = key" "e_file_hash e = fh"
    "e_event_id e = (case vq_event_id body of Some i \<Rightarrow> i | None \<Rightarrow> en_event_id en)"
    "sint (e_sequence e) = int (Suc (length (chain_rows (vq_chain_id body) d)))"
    "vc_proof_status c = derive_proof_status (ps_context (proof_snapshot_at_event x s (vq_chain_id body)
       (e_event_id e) (e_sequence e) (vc_db c)))"
    "vc_response c = build_v1_response x (e_event_id e) (vq_chain_id body) (e_sequence e)
       (vc_proof_status c) tlv (en_request_id en)"
    "ensure_chain_access_in_tx acc (vq_chain_id body) d = Inr tx"
    "chains (vc_db c) = update_where (\<lambda>r. ch_chain_id r = vq_chain_id body)
       (\<lambda>r. r\<lparr> ch_head_event_id := Some (e_event_id e) \<rparr>) (chains tx)"
    "e_event_id e \<notin> e_event_id ` set (events d)" "tsa_tokens (vc_db c) = tsa_tokens d"
proof -
  from new obtain tx planned idf eid seq tx1 snap where
    acc: "ensure_chain_access_in_tx acc (vq_chain_id body) d = Inr tx"
    and plan: "plan_next_event (vq_chain_id body) (vq_event_id body) (en_event_id en) tx = Inr planned"
    and "identity_fields x acc body (build_leaf x (pe_sequence planned) (pe_event_id planned)
       (pe_parent_event_id planned) fh) d = Inr idf"
    and ins: "insert_event_in_tx x en d acc (ledger_request body fh key planned idf) tx = Inr ((eid, seq), tx1)"
    and snap: "snap = proof_snapshot_at_event x s (vq_chain_id body) eid seq tx1"
    and vc: "vc_event_id c = eid" "vc_proof_status c = derive_proof_status (ps_context snap)"
      "vc_response c = build_v1_response x eid (vq_chain_id body) seq (vc_proof_status c) tlv (en_request_id en)"
    and rec: "insert_in_tx \<lparr> i_id = en_record_id en, i_account_id = acc, i_idempotency_key = key,
       i_request_hash = rh, i_response_json = vc_response c, i_created_at = en_clock en,
       i_expires_at = en_clock en + IDEMPOTENCY_TTL_HOURS * 3600 * 1000000 \<rparr>
       (persist_event_signature eid (ps_signature snap) tx1) = Inr (vc_db c)"
    by (rule submit_v1_new_steps)
  let ?req = "ledger_request body fh key planned idf" and ?d1 = "persist_event_signature eid (ps_signature snap) tx1"
  have req: "sr_chain_id ?req = vq_chain_id body" "sr_event_id ?req = Some (pe_event_id planned)"
    "sr_file_hash ?req = fh" "sr_idempotency_key ?req = key" by (simp_all add: ledger_request_def)
  note frame = insert_in_tx_frame [OF rec]
  have pe: "pe_event_id planned = (case vq_event_id body of Some i \<Rightarrow> i | None \<Rightarrow> en_event_id en)"
    using plan by (auto simp: plan_next_event_def res_iff)
  have tsa: "tsa_tokens (vc_db c) = tsa_tokens d"
    using frame insert_event_tables(7) [OF ins] ensure_chain_tables(8) [OF acc]
    by (simp add: persist_event_signature_def)
  have "load_event_prefix (vq_chain_id body) seq (vc_db c) = load_event_prefix (vq_chain_id body) seq tx1"
    using load_prefix_cong [of "vc_db c" ?d1] frame by simp
  then have same: "proof_snapshot_at_event x s (vq_chain_id body) eid seq (vc_db c) = snap"
    by (simp add: snap proof_snapshot_at_event_def)
  from acc have acc': "ensure_chain_access_in_tx acc (sr_chain_id ?req) d = Inr tx" by (simp only: req)
  from snap have snap': "snap = proof_snapshot_at_event x s (sr_chain_id ?req) eid seq tx1" by (simp only: req)
  obtain e where e: "events ?d1 = events d @ [e]" "e_event_id e = eid" "e_sequence e = seq"
      "e_chain_id e = sr_chain_id ?req" "e_idempotency_key e = sr_idempotency_key ?req"
      "e_file_hash e = sr_file_hash ?req" "e_signature e = ps_signature snap"
      "eid = (case sr_event_id ?req of Some i \<Rightarrow> i | None \<Rightarrow> en_event_id en)"
      "sint seq = int (Suc (length (chain_rows (sr_chain_id ?req) d)))"
      "chains ?d1 = update_where (\<lambda>r. ch_chain_id r = sr_chain_id ?req)
         (\<lambda>r. r\<lparr> ch_head_event_id := Some eid \<rparr>) (chains tx)"
      "eid \<notin> e_event_id ` set (events d)"
    by (rule commit_appends [OF ok acc' ins snap' HOL.refl])
  show thesis
    by (rule that [of e tx]) (use e acc tsa frame same in \<open>simp_all add: req pe vc del: of_nat_Suc\<close>)
qed

text \<open>A successful v1 request under a key with no live record appends one event; the response names it.\<close>

lemma submit_v1_event_new:
  assumes ok: "service_ok x s d"
    and sub: "submit_v1_event x s en acc key body d = (Inr resp, d')"
    and none: "find_active_in_tx (en_now en) acc key d = None"
  obtains e tx caps d2 where
    "events d' = events d @ [e]" "e_chain_id e = vq_chain_id body" "e_idempotency_key e = key"
    "e_file_hash e = normalized_file_hash (vq_file_hash body)"
    "e_event_id e = (case vq_event_id body of Some i \<Rightarrow> i | None \<Rightarrow> en_event_id en)"
    "sint (e_sequence e) = int (Suc (length (chain_rows (vq_chain_id body) d)))"
    "get_account_capabilities acc d = Inr caps"
    "resp = build_v1_response x (e_event_id e) (vq_chain_id body) (e_sequence e)
       (derive_proof_status (ps_context (proof_snapshot_at_event x s (vq_chain_id body) (e_event_id e)
          (e_sequence e) d'))) (trust_level_from_plan (cap_plan_name caps)) (en_request_id en)"
    "ensure_chain_access_in_tx acc (vq_chain_id body) d = Inr tx"
    "chains d' = update_where (\<lambda>r. ch_chain_id r = vq_chain_id body)
       (\<lambda>r. r\<lparr> ch_head_event_id := Some (e_event_id e) \<rparr>) (chains tx)"
    "e_event_id e \<notin> e_event_id ` set (events d)"
    "d' = stamp_current_root x (en_tsa en) (vq_chain_id body) (e_event_id e) d2" "tsa_tokens d2 = tsa_tokens d"
proof -
  from sub none obtain caps c d2 where
    caps: "validate_submit_request body = Inr ()" "get_account_capabilities acc d = Inr caps"
    and new: "submit_v1_new x s en acc key body (normalized_file_hash (vq_file_hash body))
       (request_hash x (body\<lparr> vq_file_hash := normalized_file_hash (vq_file_hash body),
          vq_identity_signature := None \<rparr>)) (trust_level_from_plan (cap_plan_name caps)) d = Inr c"
    and resp: "resp = vc_response c"
    and d2: "d2 = (if vc_proof_status c = Anchored
        then on_proof_anchored x (en_public_bytes en) (en_now en) (vc_event_id c)
          (normalized_file_hash (vq_file_hash body)) (tsa_class_from_plan (cap_plan_name caps)) (vc_db c)
        else vc_db c)"
    and d': "d' = stamp_current_root x (en_tsa en) (vq_chain_id body) (vc_event_id c) d2"
    by (rule submit_v1_new_cases)
  have after: "events d' = events (vc_db c)" "chains d' = chains (vc_db c)" "tsa_tokens d2 = tsa_tokens (vc_db c)"
    by (simp_all add: d' d2 anchored_other_tables)
  have snap: "proof_snapshot_at_event x s (vq_chain_id body) e n (vc_db c) =
      proof_snapshot_at_event x s (vq_chain_id body) e n d'" for e n
    using load_prefix_cong [OF after(1)] by (simp add: proof_snapshot_at_event_def)
  show thesis
  proof (rule submit_v1_new_appends [OF ok new])
    fix e tx
    assume *: "events (vc_db c) = events d @ [e]" "e_event_id e = vc_event_id c"
      "e_chain_id e = vq_chain_id body" "e_idempotency_key e = key"
      "e_file_hash e = normalized_file_hash (vq_file_hash body)"
      "e_event_id e = (case vq_event_id body of Some i \<Rightarrow> i | None \<Rightarrow> en_event_id en)"
      "sint (e_sequence e) = int (Suc (length (chain_rows (vq_chain_id body) d)))"
      "vc_proof_status c = derive_proof_status (ps_context (proof_snapshot_at_event x s (vq_chain_id body)
         (e_event_id e) (e_sequence e) (vc_db c)))"
      "vc_response c = build_v1_response x (e_event_id e) (vq_chain_id body) (e_sequence e)
         (vc_proof_status c) (trust_level_from_plan (cap_plan_name caps)) (en_request_id en)"
      "ensure_chain_access_in_tx acc (vq_chain_id body) d = Inr tx"
      "chains (vc_db c) = update_where (\<lambda>r. ch_chain_id r = vq_chain_id body)
         (\<lambda>r. r\<lparr> ch_head_event_id := Some (e_event_id e) \<rparr>) (chains tx)"
      "e_event_id e \<notin> e_event_id ` set (events d)" "tsa_tokens (vc_db c) = tsa_tokens d"
    show thesis
    proof (rule that [OF _ *(3-7) caps(2) _ *(10) _ *(12)])
      show "events d' = events d @ [e]" using *(1) by (simp only: after)
      show "chains d' = update_where (\<lambda>r. ch_chain_id r = vq_chain_id body)
         (\<lambda>r. r\<lparr> ch_head_event_id := Some (e_event_id e) \<rparr>) (chains tx)" using *(11) by (simp only: after)
      show "d' = stamp_current_root x (en_tsa en) (vq_chain_id body) (e_event_id e) d2" by (simp only: d' *(2))
      show "tsa_tokens d2 = tsa_tokens d" using *(13) by (simp only: after)
    qed (simp only: resp *(8,9) snap)
  qed
qed

text \<open>The record the submission leaves: the response under the key, no earlier record has the key.\<close>

definition v1_record :: "ext \<Rightarrow> env \<Rightarrow> uuid \<Rightarrow> string \<Rightarrow> V1SubmitEventRequest \<Rightarrow> json \<Rightarrow> idempotency_row" where
  "v1_record x en acc key body resp = \<lparr> i_id = en_record_id en, i_account_id = acc, i_idempotency_key = key,
     i_request_hash = request_hash x (body\<lparr> vq_file_hash := normalized_file_hash (vq_file_hash body),
        vq_identity_signature := None \<rparr>),
     i_response_json = resp, i_created_at = en_clock en,
     i_expires_at = en_clock en + IDEMPOTENCY_TTL_HOURS * 3600 * 1000000 \<rparr>"

lemma submit_v1_event_record:
  assumes sub: "submit_v1_event x s en acc key body d = (Inr resp, d')"
    and none: "find_active_in_tx (en_now en) acc key d = None"
  shows "idempotency_records d' = idempotency_records d @ [v1_record x en acc key body resp]"
    and "(acc, key) \<notin> record_key ` set (idempotency_records d)"
proof -
  from sub none obtain caps c d2 where
    "validate_submit_request body = Inr ()" "get_account_capabilities acc d = Inr caps"
    and new: "submit_v1_new x s en acc key body (normalized_file_hash (vq_file_hash body))
       (request_hash x (body\<lparr> vq_file_hash := normalized_file_hash (vq_file_hash body),
          vq_identity_signature := None \<rparr>)) (trust_level_from_plan (cap_plan_name caps)) d = Inr c"
    and resp: "resp = vc_response c"
    and d2: "d2 = (if vc_proof_status c = Anchored
        then on_proof_anchored x (en_public_bytes en) (en_now en) (vc_event_id c)
          (normalized_file_hash (vq_file_hash body)) (tsa_class_from_plan (cap_plan_name caps)) (vc_db c)
        else vc_db c)"
    and d': "d' = stamp_current_root x (en_tsa en) (vq_chain_id body) (vc_event_id c) d2"
    by (rule submit_v1_new_cases)
  have "idempotency_records d' = idempotency_records (vc_db c)" by (simp add: d' d2 anchored_other_tables)
  moreover have "idempotency_records (vc_db c) = idempotency_records d @ [v1_record x en acc key body resp] \<and>
      (acc, key) \<notin> record_key ` set (idempotency_records d)"
    by (rule submit_v1_new_steps [OF new])
      (simp add: insert_in_tx_Inr insert_event_tables ensure_chain_tables v1_record_def resp record_key_def)
  ultimately show "idempotency_records d' = idempotency_records d @ [v1_record x en acc key body resp]"
    and "(acc, key) \<notin> record_key ` set (idempotency_records d)" by simp_all
qed

lemma extends_submit_v1:
  assumes "service_ok x s d"
  shows "extends d (snd (submit_v1_event x s en acc key body d))"
proof (cases "submit_v1_event x s en acc key body d")
  case (Pair r d')
  show ?thesis
  proof (cases r)
    case (Inl e)
    then show ?thesis using submit_v1_error_unchanged [of x s en acc key body d e] by (simp add: Pair)
  next
    case (Inr resp)
    show ?thesis
    proof (cases "find_active_in_tx (en_now en) acc key d")
      case None
      with Pair Inr have "submit_v1_event x s en acc key body d = (Inr resp, d')" by simp
      from submit_v1_event_new [OF assms this None] submit_v1_event_record(1) [OF this None] show ?thesis
        unfolding extends_def Pair snd_conv by (metis prefixI)
    next
      case (Some q)
      from submit_v1_replay [OF this, of x s body] show ?thesis by (simp split: sum.split)
    qed
  qed
qed

lemma extends_v1_handler:
  "service_ok x s d \<Longrightarrow> extends d (snd (v1_events_handler x s en acc header body d))"
  by (simp add: v1_events_handler_def extends_submit_v1 split: option.split)

lemma service_ok_v1_handler:
  "service_ok x s d \<Longrightarrow> service_ok x s (snd (v1_events_handler x s en acc header body d))"
  by (simp add: v1_events_handler_def service_ok_submit_v1 split: option.split)

lemma finalize_events [simp]:
  "events (snd (finalize_event_submission x te c e n r g p d)) = events d"
  "idempotency_records (snd (finalize_event_submission x te c e n r g p d)) = idempotency_records d"
  by (simp_all add: finalize_event_submission_def Let_def)

lemma extends_submit_event:
  assumes ok: "service_ok x s d"
  shows "extends d (snd (submit_event x s en acc req d))"
proof (cases "submit_event_tx x s en acc req d")
  case (Inl err)
  then show ?thesis by (simp add: submit_event_def)
next
  case (Inr r)
  show ?thesis
  proof (cases r)
    case (Inl old)
    then show ?thesis by (simp add: submit_event_def Inr split: prod.split)
  next
    case new: (Inr q)
    obtain eid seq snap d1 where q: "q = ((eid, seq, snap), d1)" by (metis prod.exhaust)
    from Inr new q have tx: "submit_event_tx x s en acc req d = Inr (Inr ((eid, seq, snap), d1))" by simp
    then obtain tx tx1 where acc: "ensure_chain_access_in_tx acc (sr_chain_id req) d = Inr tx"
      and ins: "insert_event_in_tx x en d acc req tx = Inr ((eid, seq), tx1)"
      and snap: "snap = proof_snapshot_at_event x s (sr_chain_id req) eid seq tx1"
      and d1: "d1 = persist_event_signature eid (ps_signature snap) tx1"
      by (rule submit_event_tx_new)
    from acc ok have "ledger_ok tx" "signed_ok x s tx" "events tx = events d"
      using service_okD [OF service_ok_ensure [OF ok]] ensure_chain_events by blast+
    then have "extends d d1"
      using commit_effect [OF _ _ ins snap] insert_event_tables(6) [OF ins] ensure_chain_tables(7) [OF acc]
      by (simp add: extends_def d1) (metis prefixI)
    moreover have "events (snd (submit_event x s en acc req d)) = events d1 \<and>
        idempotency_records (snd (submit_event x s en acc req d)) = idempotency_records d1"
      by (simp add: submit_event_def tx anchored_other_tables Let_def split: sum.split prod.split)
        (metis anchored_other_tables(2,7) finalize_events snd_conv)
    ultimately show ?thesis by (simp add: extends_def)
  qed
qed

lemma extends_legacy_handler:
  "service_ok x s d \<Longrightarrow> extends d (snd (legacy_events_handler x s en acc req d))"
  using extends_submit_event [of x s d en acc req]
  by (auto simp: legacy_events_handler_def split: sum.split prod.split)

lemma service_ok_legacy_handler:
  "service_ok x s d \<Longrightarrow> service_ok x s (snd (legacy_events_handler x s en acc req d))"
  using service_ok_submit_event [of x s d en acc req]
  by (auto simp: legacy_events_handler_def split: sum.split prod.split)

lemma disable_frame: "same_ledger d (disable_canonical_public_proof h d)"
  by (simp add: same_ledger_def disable_canonical_public_proof_def Let_def split: option.split)

lemma sync_tx_frame: "sync_canonical_public_proof_in_tx pid now h cls d = Some d' \<Longrightarrow> same_ledger d d'"
  by (auto simp: same_ledger_def sync_canonical_public_proof_in_tx_def split: option.splits if_splits)

lemma sync_frame: "same_ledger d (sync_canonical_public_proof x rnd now h cls d)"
  using sync_tx_frame by (simp add: sync_canonical_public_proof_def Let_def split: option.split)

lemma extends_create_chain: "extends d (snd (create_chain x fresh acc d))"
  by (simp add: create_chain_def extends_def)

section \<open>The invariant along every run\<close>

lemma service_step_ok: "service_ok x s d \<Longrightarrow> service_step x s d d' \<Longrightarrow> service_ok x s d'"
proof (erule service_stepE)
qed (auto intro: service_ok_v1_handler service_ok_legacy_handler service_ok_create_chain
    service_ok_frame [OF _ read_proof_frame [THEN conjunct1] read_proof_frame [THEN conjunct2]]
    service_ok_frame [OF _ read_verify_frame [THEN conjunct1] read_verify_frame [THEN conjunct2]]
    service_ok_frame [OF _ middleware_frame [THEN conjunct1] middleware_frame [THEN conjunct2]]
    service_ok_frame [OF _ challenge_frame [THEN conjunct1] challenge_frame [THEN conjunct2]]
    service_ok_frame [OF _ register_frame [THEN conjunct1] register_frame [THEN conjunct2]]
    service_ok_frame [OF _ revoke_frame [THEN conjunct1] revoke_frame [THEN conjunct2]]
    service_ok_registry [OF _ disable_frame registry_ok_disable]
    service_ok_registry [OF _ sync_frame registry_ok_sync_public] dest: service_okD)

lemma service_step_extends: "service_ok x s d \<Longrightarrow> service_step x s d d' \<Longrightarrow> extends d d'"
proof (erule service_stepE)
qed (auto intro: extends_v1_handler extends_legacy_handler
    extends_frame [OF read_proof_frame [THEN conjunct1]] extends_frame [OF read_verify_frame [THEN conjunct1]]
    extends_frame [OF middleware_frame [THEN conjunct1]] extends_frame [OF challenge_frame [THEN conjunct1]]
    extends_frame [OF register_frame [THEN conjunct1]] extends_frame [OF revoke_frame [THEN conjunct1]]
    extends_frame [OF disable_frame] extends_frame [OF sync_frame]
    extends_create_chain)

interpretation service: growing "service_step x s" "service_ok x s" extends
  for x s
proof
  show "extends d e" if "extends d d'" "extends d' e" for d d' e
    using that by (auto simp: extends_def intro: prefix_order.trans)
qed (auto intro: service_step_ok service_step_extends)

text \<open>The prefix an event's proof is computed from never changes once the event is stored.\<close>

lemma extends_prefix_same:
  assumes "service_ok x s d" "service_ok x s d'" "extends d d'" "f \<in> set (events d)"
  shows "load_event_prefix (e_chain_id f) (e_sequence f) d' = load_event_prefix (e_chain_id f) (e_sequence f) d"
proof -
  let ?c = "e_chain_id f"
  have inv: "ledger_ok d" "chain_inv ?c d" "chain_inv ?c d'"
    using assms(1,2) by (simp_all add: service_ok_def ledger_okD)
  obtain k where k: "sint (e_sequence f) = int k" "1 \<le> k" "k \<le> length (chain_rows ?c d)"
    using inv(1) assms(4) by (rule event_number)
  obtain new where "events d' = events d @ new" using assms(3) by (auto simp: extends_def prefix_def)
  then have "take k (chain_rows ?c d') = take k (chain_rows ?c d)" using k(3) by simp
  then show ?thesis by (simp add: load_prefix_rows [OF inv(2) k(1)] load_prefix_rows [OF inv(3) k(1)])
qed

end
