(* ===== verification/Promises.thy ===== *)
theory Promises
  imports Service
begin

text \<open>
  What a client may rely on after a successful submission: the event is there and accessible to its
  owner, the quota was free and is one lower, the idempotency key answers the same from then on.  And
  what an account may not do: touch the chain of another one.
\<close>

section \<open>The new event\<close>

lemma claimed_chain_owner:
  assumes "ensure_chain_access_in_tx acc c d = Inr tx"
    and "chains d' = update_where (\<lambda>r. ch_chain_id r = c) (\<lambda>r. r\<lparr> ch_head_event_id := h \<rparr>) (chains tx)"
  shows "\<exists>r. find (\<lambda>r. ch_chain_id r = c) (chains d') = Some r \<and> ch_account_id r = Some acc"
  using ensure_chain_access_effect(2) [OF assms(1)]
  by (auto simp: assms(2) find_update_where_same)

lemma find_fresh_event:
  assumes "eid \<notin> e_event_id ` set es" "e_event_id e = eid"
  shows "find (\<lambda>e. e_event_id e = eid) (es @ [e]) = Some e"
proof -
  have "find (\<lambda>e. e_event_id e = eid) es = None" using assms(1) by (auto simp: find_None_iff)
  then show ?thesis using assms(2) by (simp add: find_append)
qed

lemma stored_snapshot_anchored:
  assumes ok: "ext_ok x" "signer_ok x s" and st: "service_ok x s d" "e \<in> set (events d)"
  shows "derive_proof_status (ps_context (proof_snapshot_at_event x s (e_chain_id e) (e_event_id e) (e_sequence e) d))
    = Anchored"
  using stored_prefix_shape(2) [OF st] ok by (simp add: proof_snapshot_at_event_def snapshot_anchored)

lemma new_submission:
  assumes ok: "ext_ok x" "signer_ok x s" and st: "service_ok x s d"
    and sub: "submit_v1_event x s en acc key body d = (Inr resp, d')"
    and none: "find_active_in_tx (en_now en) acc key d = None"
  shows "\<exists>e caps. events d' = events d @ [e] \<and> verify_event_access acc (e_event_id e) d' = Inr e \<and>
     e_chain_id e = vq_chain_id body \<and> e_file_hash e = normalized_file_hash (vq_file_hash body) \<and>
     sint (e_sequence e) = int (Suc (length (chain_rows (vq_chain_id body) d))) \<and>
     signed_event x s d' e \<and> get_account_capabilities acc d = Inr caps \<and>
     resp = build_v1_response x (e_event_id e) (vq_chain_id body) (e_sequence e) Anchored
       (trust_level_from_plan (cap_plan_name caps)) (en_request_id en)"
proof (rule submit_v1_event_new [OF st sub none])
  fix e tx caps d2
  assume *: "events d' = events d @ [e]" "e_chain_id e = vq_chain_id body"
    "e_file_hash e = normalized_file_hash (vq_file_hash body)"
    "sint (e_sequence e) = int (Suc (length (chain_rows (vq_chain_id body) d)))"
    "get_account_capabilities acc d = Inr caps"
    "resp = build_v1_response x (e_event_id e) (vq_chain_id body) (e_sequence e)
       (derive_proof_status (ps_context (proof_snapshot_at_event x s (vq_chain_id body) (e_event_id e)
          (e_sequence e) d'))) (trust_level_from_plan (cap_plan_name caps)) (en_request_id en)"
    "ensure_chain_access_in_tx acc (vq_chain_id body) d = Inr tx"
    "chains d' = update_where (\<lambda>r. ch_chain_id r = vq_chain_id body)
       (\<lambda>r. r\<lparr> ch_head_event_id := Some (e_event_id e) \<rparr>) (chains tx)"
    "e_event_id e \<notin> e_event_id ` set (events d)"
  have ok': "service_ok x s d'" using service_ok_submit_v1 [OF st, of en acc key body] sub by simp
  have e: "e \<in> set (events d')" by (simp add: *(1))
  have "verify_event_access acc (e_event_id e) d' = Inr e"
    using claimed_chain_owner [OF *(7,8)] find_fresh_event [OF *(9) HOL.refl]
    by (simp add: verify_event_access_Inr *(1,2))
  moreover have "signed_event x s d' e" using ok' e by (simp add: service_ok_def signed_ok_def list_all_iff)
  moreover have "derive_proof_status (ps_context (proof_snapshot_at_event x s (vq_chain_id body) (e_event_id e)
      (e_sequence e) d')) = Anchored"
    using stored_snapshot_anchored [OF ok ok' e] by (simp only: *(2))
  ultimately show ?thesis using *(1-6) by auto
qed

section \<open>The public proof\<close>

text \<open>After a new submission the hash of the file is public: under the row it had, or else a new one.\<close>

lemma new_submission_public:
  assumes ok: "ext_ok x" "signer_ok x s" and st: "service_ok x s d"
    and sub: "submit_v1_event x s en acc key body d = (Inr resp, d')"
    and none: "find_active_in_tx (en_now en) acc key d = None"
    and fresh: "(case vq_event_id body of Some i \<Rightarrow> i | None \<Rightarrow> en_event_id en) \<notin>
        m_internal_proof_id ` set (public_proof_materialization d)"
      "generate_public_id x (en_public_bytes en) \<notin> r_public_proof_id ` set (public_proof_registry d)"
    and hash: "normalize_stored_file_hash (normalized_file_hash (vq_file_hash body)) = fh"
  shows "\<exists>caps. get_account_capabilities acc d = Inr caps \<and> active_public_proof fh d' =
    Some (case active_public_proof fh d of Some r \<Rightarrow> r
      | None \<Rightarrow> \<lparr> r_public_proof_id = generate_public_id x (en_public_bytes en), r_file_hash = fh,
          r_proof_status = ''REGISTERED'', r_registered_at = en_now en,
          r_tsa_class = tsa_class_from_plan (cap_plan_name caps), r_integrity_state = ''VALID'', r_enabled = True \<rparr>)"
proof (rule submit_v1_new_cases [OF sub none])
  fix caps c d2
  assume caps: "get_account_capabilities acc d = Inr caps"
    and new: "submit_v1_new x s en acc key body (normalized_file_hash (vq_file_hash body))
       (request_hash x (body\<lparr> vq_file_hash := normalized_file_hash (vq_file_hash body),
          vq_identity_signature := None \<rparr>)) (trust_level_from_plan (cap_plan_name caps)) d = Inr c"
    and d2: "d2 = (if vc_proof_status c = Anchored
        then on_proof_anchored x (en_public_bytes en) (en_now en) (vc_event_id c)
          (normalized_file_hash (vq_file_hash body)) (tsa_class_from_plan (cap_plan_name caps)) (vc_db c)
        else vc_db c)"
    and d': "d' = stamp_current_root x (en_tsa en) (vq_chain_id body) (vc_event_id c) d2"
  have tables: "public_proof_registry (vc_db c) = public_proof_registry d"
    "public_proof_materialization (vc_db c) = public_proof_materialization d"
    by (rule submit_v1_new_steps [OF new], simp add: insert_in_tx_Inr insert_event_tables ensure_chain_tables)+
  have ok': "service_ok x s d'" using service_ok_submit_v1 [OF st, of en acc key body] sub by simp
  show ?thesis
  proof (rule submit_v1_new_appends [OF st new])
    fix e
    assume e: "events (vc_db c) = events d @ [e]" "e_event_id e = vc_event_id c" "e_chain_id e = vq_chain_id body"
      "e_event_id e = (case vq_event_id body of Some i \<Rightarrow> i | None \<Rightarrow> en_event_id en)"
      "vc_proof_status c = derive_proof_status (ps_context (proof_snapshot_at_event x s (vq_chain_id body)
         (e_event_id e) (e_sequence e) (vc_db c)))"
    have same: "events d' = events (vc_db c)" by (simp add: d' d2 anchored_other_tables)
    then have "load_event_prefix (vq_chain_id body) (e_sequence e) d' = load_event_prefix (vq_chain_id body) (e_sequence e) (vc_db c)"
      by (rule load_prefix_cong)
    then have "vc_proof_status c = Anchored"
      using stored_snapshot_anchored [OF ok ok', of e] e same by (simp add: proof_snapshot_at_event_def)
    moreover have "public_proof_registry d' = public_proof_registry d2"
      by (simp add: d' stamp_current_root_def split: option.split)
    ultimately show ?thesis
      using anchored_publishes [of "vc_event_id c" "vc_db c" x "en_public_bytes en" "normalized_file_hash (vq_file_hash body)"
          "en_now en" "tsa_class_from_plan (cap_plan_name caps)", unfolded hash] fresh caps e(2,4)
      by (simp add: d2 tables active_public_proof_def)
  qed
qed

section \<open>Quota\<close>

definition used :: "(usage_row \<Rightarrow> int) \<Rightarrow> ext \<Rightarrow> timestamp \<Rightarrow> uuid \<Rightarrow> db \<Rightarrow> int" where
  "used f x now acc d = (case current_usage x now acc d of Some u \<Rightarrow> f u | None \<Rightarrow> 0)"

lemma used_cong: "usage_monthly d' = usage_monthly d \<Longrightarrow> used f x now acc d' = used f x now acc d"
  by (simp add: used_def current_usage_def)

lemma insert_event_quota:
  assumes "insert_event_in_tx x en pool acc req tx = Inr ((eid, seq), tx')"
  shows "\<exists>caps. get_account_capabilities acc pool = Inr caps \<and> tsa_available caps \<and>
     can_commit caps (used u_server_commits x (en_now en) acc tx) \<and>
     can_use_tsa caps (used u_tsa_requests x (en_now en) acc tx) \<and>
     used u_server_commits x (en_now en) acc tx' = used u_server_commits x (en_now en) acc tx + 1 \<and>
     used u_tsa_requests x (en_now en) acc tx' = used u_tsa_requests x (en_now en) acc tx + 1"
proof -
  from assms obtain tx1 usage caps head_id tx2 where
    s: "ensure_usage_row x (en_now en) acc tx = Inr tx1"
    "current_usage x (en_now en) acc tx1 = Some usage"
    "get_account_capabilities acc pool = Inr caps"
    "check_quota caps usage = Inr ()"
    "chain_head (sr_chain_id req) tx1 = Inr head_id"
    "next_sequence (sr_chain_id req) tx1 = Inr seq"
    "insert_event (new_event_row en req head_id seq) tx1 = Inr tx2"
    "bump_usage x (en_now en) acc (set_chain_head (sr_chain_id req) eid tx2) = Inr tx'"
    "eid = e_event_id (new_event_row en req head_id seq)"
    by (rule insert_event_in_tx_steps)
  note u = ensure_usage_row_effect(11,12) [OF s(1)]
  have "usage_monthly (set_chain_head (sr_chain_id req) eid tx2) = usage_monthly tx1"
    using s(7) by (auto simp: insert_event_Inr set_chain_head_def)
  then have "current_usage x (en_now en) acc (set_chain_head (sr_chain_id req) eid tx2) = Some usage"
    using s(2) by (simp add: current_usage_def)
  then have "current_usage x (en_now en) acc tx' = Some (usage\<lparr> u_server_commits := u_server_commits usage + 1,
      u_tsa_requests := u_tsa_requests usage + 1 \<rparr>)"
    using bump_usage_effect(10) [OF s(8)] by simp
  then show ?thesis using s(2,3,4) u by (auto simp: used_def check_quota_Inr)
qed

lemma submit_v1_event_quota:
  assumes sub: "submit_v1_event x s en acc key body d = (Inr resp, d')"
    and none: "find_active_in_tx (en_now en) acc key d = None"
  shows "\<exists>caps. get_account_capabilities acc d = Inr caps \<and> tsa_available caps \<and>
     can_commit caps (used u_server_commits x (en_now en) acc d) \<and>
     can_use_tsa caps (used u_tsa_requests x (en_now en) acc d) \<and>
     used u_server_commits x (en_now en) acc d' = used u_server_commits x (en_now en) acc d + 1 \<and>
     used u_tsa_requests x (en_now en) acc d' = used u_tsa_requests x (en_now en) acc d + 1"
proof -
  from sub none obtain caps c d2 where
    "validate_submit_request body = Inr ()" "get_account_capabilities acc d = Inr caps"
    and new: "submit_v1_new x s en acc key body (normalized_file_hash (vq_file_hash body))
       (request_hash x (body\<lparr> vq_file_hash := normalized_file_hash (vq_file_hash body),
          vq_identity_signature := None \<rparr>)) (trust_level_from_plan (cap_plan_name caps)) d = Inr c"
    and "resp = vc_response c"
    and d2: "d2 = (if vc_proof_status c = Anchored
        then on_proof_anchored x (en_public_bytes en) (en_now en) (vc_event_id c)
          (normalized_file_hash (vq_file_hash body)) (tsa_class_from_plan (cap_plan_name caps)) (vc_db c)
        else vc_db c)"
    and d': "d' = stamp_current_root x (en_tsa en) (vq_chain_id body) (vc_event_id c) d2"
    by (rule submit_v1_new_cases)
  have after: "used f x now acc d' = used f x now acc (vc_db c)" for f now
    by (rule used_cong) (simp add: d' d2 anchored_other_tables)
  show ?thesis
  proof (rule submit_v1_new_steps [OF new])
    fix tx planned idf eid seq tx1 snap rec
    assume acc: "ensure_chain_access_in_tx acc (vq_chain_id body) d = Inr tx"
      and ins: "insert_event_in_tx x en d acc (ledger_request body (normalized_file_hash (vq_file_hash body)) key
          planned idf) tx = Inr ((eid, seq), tx1)"
      and rec: "insert_in_tx \<lparr> i_id = en_record_id en, i_account_id = acc, i_idempotency_key = key,
       i_request_hash = request_hash x (body\<lparr> vq_file_hash := normalized_file_hash (vq_file_hash body),
          vq_identity_signature := None \<rparr>), i_response_json = vc_response c, i_created_at = en_clock en,
       i_expires_at = en_clock en + IDEMPOTENCY_TTL_HOURS * 3600 * 1000000 \<rparr>
       (persist_event_signature eid (ps_signature snap) tx1) = Inr (vc_db c)"
    have "used f x now acc (vc_db c) = used f x now acc tx1" "used f x now acc tx = used f x now acc d" for f now
      using insert_in_tx_frame [OF rec] ensure_chain_tables(5) [OF acc] by (auto intro!: used_cong)
    then show ?thesis using insert_event_quota [OF ins] by (simp add: after)
  qed
qed

text \<open>Accounts and plans are not touched.\<close>

lemma submit_v1_event_accounts:
  assumes sub: "submit_v1_event x s en acc key body d = (Inr resp, d')"
    and none: "find_active_in_tx (en_now en) acc key d = None"
  shows "accounts d' = accounts d \<and> tariff_plans d' = tariff_plans d"
proof (rule submit_v1_new_cases [OF sub none])
  fix caps c d2
  assume new: "submit_v1_new x s en acc key body (normalized_file_hash (vq_file_hash body))
       (request_hash x (body\<lparr> vq_file_hash := normalized_file_hash (vq_file_hash body),
          vq_identity_signature := None \<rparr>)) (trust_level_from_plan (cap_plan_name caps)) d = Inr c"
    and d2: "d2 = (if vc_proof_status c = Anchored
        then on_proof_anchored x (en_public_bytes en) (en_now en) (vc_event_id c)
          (normalized_file_hash (vq_file_hash body)) (tsa_class_from_plan (cap_plan_name caps)) (vc_db c)
        else vc_db c)"
    and d': "d' = stamp_current_root x (en_tsa en) (vq_chain_id body) (vc_event_id c) d2"
  have "accounts d' = accounts (vc_db c)" "tariff_plans d' = tariff_plans (vc_db c)"
    by (simp_all add: d' d2 anchored_other_tables)
  moreover have "accounts (vc_db c) = accounts d \<and> tariff_plans (vc_db c) = tariff_plans d"
    by (rule submit_v1_new_steps [OF new])
      (simp add: insert_in_tx_Inr insert_event_tables ensure_chain_tables)
  ultimately show ?thesis by simp
qed

section \<open>The idempotency key\<close>

text \<open>What of a request enters its hash.\<close>

definition hashed_fields :: "V1SubmitEventRequest \<Rightarrow> uuid \<times> string \<times> string" where
  "hashed_fields body = (vq_chain_id body, normalized_file_hash (vq_file_hash body), vq_event_type body)"

definition hashed_bytes :: "ext \<Rightarrow> V1SubmitEventRequest \<Rightarrow> byte list" where
  "hashed_bytes x body = str_bytes (canonicalize_value (request_payload x
     (body\<lparr> vq_file_hash := normalized_file_hash (vq_file_hash body), vq_identity_signature := None \<rparr>)))"

lemma request_hash_bytes:
  "request_hash x (body\<lparr> vq_file_hash := normalized_file_hash (vq_file_hash body), vq_identity_signature := None \<rparr>)
     = sha_hex x (hashed_bytes x body)"
  by (simp add: request_hash_def canonical_json_sha256_def hashed_bytes_def)

lemma payload_text:
  "canonicalize_value (request_payload x body) =
     ''{'' @ json_string ''chain_id'' @ '':'' @ json_string (x_uuid_str x (vq_chain_id body)) @ '','' @
     json_string ''event_type'' @ '':'' @ json_string (vq_event_type body) @ '','' @
     json_string ''file_hash'' @ '':'' @ json_string (vq_file_hash body) @ ''}''"
proof -
  have "sort_key fst [(''chain_id'', a), (''file_hash'', b), (''event_type'', c :: string)] =
      [(''chain_id'', a), (''event_type'', c), (''file_hash'', b)]" for a b c
    by (simp add: sort_key_def insort_key_def)
  then show ?thesis by (simp add: request_payload_def JUuid_def render_object_def)
qed

lemma payload_fields:
  assumes "uuid_ok x" "canonicalize_value (request_payload x a) = canonicalize_value (request_payload x b)"
  shows "vq_chain_id a = vq_chain_id b \<and> vq_file_hash a = vq_file_hash b \<and> vq_event_type a = vq_event_type b"
proof -
  let ?k = "json_string ''file_hash'' @ '':''" and ?t = "'','' @ json_string ''event_type'' @ '':''"
  have "json_string (x_uuid_str x (vq_chain_id a)) @ ?t @ json_string (vq_event_type a) @ '','' @ ?k @
      json_string (vq_file_hash a) @ ''}'' = json_string (x_uuid_str x (vq_chain_id b)) @ ?t @
      json_string (vq_event_type b) @ '','' @ ?k @ json_string (vq_file_hash b) @ ''}''"
    using assms(2) by (simp add: payload_text)
  from json_string_prefix_free [OF this] have c: "x_uuid_str x (vq_chain_id a) = x_uuid_str x (vq_chain_id b)"
    and "json_string (vq_event_type a) @ '','' @ ?k @ json_string (vq_file_hash a) @ ''}'' =
      json_string (vq_event_type b) @ '','' @ ?k @ json_string (vq_file_hash b) @ ''}''" by simp_all
  from json_string_prefix_free [OF this(2)] have t: "vq_event_type a = vq_event_type b"
    and "json_string (vq_file_hash a) @ ''}'' = json_string (vq_file_hash b) @ ''}''" by simp_all
  from json_string_prefix_free [OF this(2)] have "vq_file_hash a = vq_file_hash b" by simp
  with c t show ?thesis using assms(1) by (simp add: uuid_str_inj)
qed

lemma hashed_bytes_fields:
  "uuid_ok x \<Longrightarrow> hashed_bytes x a = hashed_bytes x b \<longleftrightarrow> hashed_fields a = hashed_fields b"
  using payload_fields [of x "a\<lparr> vq_file_hash := normalized_file_hash (vq_file_hash a), vq_identity_signature := None \<rparr>"
      "b\<lparr> vq_file_hash := normalized_file_hash (vq_file_hash b), vq_identity_signature := None \<rparr>"]
  by (auto simp: hashed_bytes_def hashed_fields_def request_payload_def)

text \<open>From the successful submission on, the key finds its record in every later state, until it expires.\<close>

lemma record_stays:
  assumes "submit_v1_event x s en acc key body d = (Inr resp, d')"
    and "find_active_in_tx (en_now en) acc key d = None" and "extends d' d''"
    and "now < en_clock en + IDEMPOTENCY_TTL_HOURS * 3600 * 1000000"
  shows "find_active_in_tx now acc key d'' = Some (v1_record x en acc key body resp)"
proof -
  note rec = submit_v1_event_record [OF assms(1,2)]
  obtain later where later: "idempotency_records d'' = idempotency_records d @ [v1_record x en acc key body resp] @ later"
    using assms(3) rec(1) by (auto simp: extends_def prefix_def)
  have "find (\<lambda>r. i_account_id r = acc \<and> i_idempotency_key r = key \<and> i_expires_at r > now) (idempotency_records d) = None"
    using rec(2) by (force simp: find_None_iff record_key_def image_iff)
  then show ?thesis
    using assms(4) by (simp add: find_active_in_tx_def later find_append v1_record_def)
qed

lemma replay_answer:
  assumes ok: "uuid_ok x" "hex_ok x"
    and sub: "submit_v1_event x s en acc key body d = (Inr resp, d')"
    and none: "find_active_in_tx (en_now en) acc key d = None" and later: "extends d' d''"
    and time: "en_now en' < en_clock en + IDEMPOTENCY_TTL_HOURS * 3600 * 1000000"
    and valid: "validate_submit_request body' = Inr ()" and plan: "get_account_capabilities acc d'' = Inr caps"
  shows "submit_v1_event x s en' acc key body' d'' =
      (if x_sha256 x (hashed_bytes x body') = x_sha256 x (hashed_bytes x body) then Inr resp else Inl Conflict, d'')"
proof -
  have "sha_hex x a = sha_hex x b \<longleftrightarrow> x_sha256 x a = x_sha256 x b" for a b
    using ok(2) unfolding sha_hex_def hex_ok_def by (metis option.inject)
  then show ?thesis
    using submit_v1_replay [OF record_stays [OF sub none later time], of x s body']
    by (simp add: valid plan v1_record_def request_hash_bytes)
qed

section \<open>Chains of other accounts\<close>

lemma foreign_chain_denied:
  "find (\<lambda>r. ch_chain_id r = c) (chains d) = Some r \<Longrightarrow> ch_account_id r = Some owner \<Longrightarrow> owner \<noteq> acc \<Longrightarrow>
   ensure_chain_access_in_tx acc c d = Inl ChainAccessDenied"
  by (simp add: ensure_chain_access_in_tx_def)

lemma foreign_submit_v1:
  assumes "find (\<lambda>r. ch_chain_id r = vq_chain_id body) (chains d) = Some r" "ch_account_id r = Some owner" "owner \<noteq> acc"
    and "find_active_in_tx (en_now en) acc key d = None"
  shows "fst (submit_v1_event x s en acc key body d) \<in> {Inl InvalidRequest, Inl Internal, Inl NotFound} \<and>
     snd (submit_v1_event x s en acc key body d) = d"
proof -
  have "submit_v1_new x s en acc key body fh rh tlv d = Inl NotFound" for fh rh tlv
    by (simp add: submit_v1_new_def foreign_chain_denied [OF assms(1-3)])
  moreover have "validate_submit_request body = Inl e \<Longrightarrow> e = InvalidRequest" for e
    by (auto simp: validate_submit_request_def split: if_splits)
  ultimately show ?thesis by (auto simp: submit_v1_event_def assms(4) Let_def split: sum.splits)
qed

lemma foreign_legacy:
  assumes "find (\<lambda>r. ch_chain_id r = sr_chain_id req) (chains d) = Some r" "ch_account_id r = Some owner" "owner \<noteq> acc"
    and "reject_identity_fields_on_legacy req = Inr ()"
  shows "legacy_events_handler x s en acc req d = ((404, JObject [(''error'', JString ''not_found'')]), d)"
  by (simp add: legacy_events_handler_def assms(4) submit_event_def submit_event_tx_def
      foreign_chain_denied [OF assms(1-3)] map_legacy_events_error_def)

lemma foreign_event:
  assumes "find (\<lambda>e. e_event_id e = eid) (events d) = Some e"
    and "find (\<lambda>r. ch_chain_id r = e_chain_id e) (chains d) = Some r" "ch_account_id r = Some owner" "owner \<noteq> acc"
  shows "verify_handler x te now s acc eid q d = (Inl NotFound, d)"
  by (simp add: verify_handler_def verify_event_access_def assms)

lemma foreign_proof:
  assumes "find (\<lambda>e. e_event_id e = eid) (events d) = Some e"
    and "find (\<lambda>r. ch_chain_id r = e_chain_id e) (chains d) = Some r" "ch_account_id r = Some owner" "owner \<noteq> acc"
  shows "proof_handler x te now s rid acc eid d = (Inl NotFound, d)"
  by (simp add: proof_handler_def verify_event_access_def assms)

section \<open>A used key on the legacy endpoint\<close>

lemma legacy_replay:
  assumes "find (\<lambda>e. e_chain_id e = sr_chain_id req \<and> e_idempotency_key e = sr_idempotency_key req) (events d) = Some e"
    and "prefix (events d) (events d')" "reject_identity_fields_on_legacy req = Inr ()"
    and "find (\<lambda>r. ch_chain_id r = sr_chain_id req) (chains d') = Some r" "ch_account_id r = Some acc"
  shows "legacy_events_handler x s en acc req d' = ((200, cached_response x (sr_chain_id req) e (ch_head_event_id r)), d')"
proof -
  obtain later where "events d' = events d @ later" using assms(2) by (auto simp: prefix_def)
  then have "find (\<lambda>e. e_chain_id e = sr_chain_id req \<and> e_idempotency_key e = sr_idempotency_key req) (events d') = Some e"
    using assms(1) by (simp add: find_append)
  moreover have "ensure_chain_access_in_tx acc (sr_chain_id req) d' = Inr d'"
    using assms(4,5) by (simp add: ensure_chain_access_in_tx_def)
  ultimately show ?thesis
    using assms(3,4) by (simp add: legacy_events_handler_def submit_event_def submit_event_tx_def chain_head_def fetch_one_def)
qed

section \<open>Identity signatures on the plans of the migrations\<close>

lemma identity_fields_entitled:
  assumes "identity_fields x acc body h d = Inr (Some f)"
  shows "require_feature acc Identity d = Inr ()"
  using assms by (auto simp: identity_fields_def res_iff split: option.splits)

lemma identity_submission_refused:
  assumes plans: "tariff_plans d = seed_plans f l v i"
    and signed: "vq_identity_signature body \<noteq> None"
    and none: "find_active_in_tx (en_now en) acc key d = None"
  shows "\<exists>e. submit_v1_event x s en acc key body d = (Inl e, d)"
proof (cases "submit_v1_event x s en acc key body d")
  case (Pair r d')
  show ?thesis
  proof (cases r)
    case (Inl e)
    then show ?thesis using submit_v1_error_unchanged [of x s en acc key body d e] Pair by simp
  next
    case (Inr resp)
    with Pair have sub: "submit_v1_event x s en acc key body d = (Inr resp, d')" by simp
    obtain caps where caps: "get_account_capabilities acc d = Inr caps" "tsa_available caps"
      using submit_v1_event_quota [OF sub none] by blast
    from caps(1) obtain a p where p: "account_plan acc d = Inr (a, p)" "caps = plan_capabilities p"
      by (auto simp: get_account_capabilities_Inr)
    then have "p \<in> set (seed_plans f l v i)" using plans by (auto simp: account_plan_Inr dest: find_SomeD)
    moreover have "p_identity_enabled p"
    proof (rule submit_v1_new_cases [OF sub none])
      fix caps' c
      assume "submit_v1_new x s en acc key body (normalized_file_hash (vq_file_hash body))
         (request_hash x (body\<lparr> vq_file_hash := normalized_file_hash (vq_file_hash body),
            vq_identity_signature := None \<rparr>)) (trust_level_from_plan (cap_plan_name caps')) d = Inr c"
      then obtain idf h where "identity_fields x acc body h d = Inr idf" by (rule submit_v1_new_steps) blast
      moreover from this have "idf \<noteq> None" using signed by (auto simp: identity_fields_def res_iff split: option.splits)
      ultimately have "require_feature acc Identity d = Inr ()" using identity_fields_entitled by auto
      then show "p_identity_enabled p" using caps(1) p by (auto simp: require_feature_Inr plan_capabilities_def)
    qed
    ultimately show ?thesis using seed_identity_qualified caps(2) p(2) by blast
  qed
qed

end
