(* ===== verification/KeyPromises.thy ===== *)
theory KeyPromises
  imports Promises
begin

text \<open>
  The same for keys and hashes: what a signature of the server shows, what a registered or revoked
  identity key allows, which file hashes the read path accepts, and which errors of the ledger cannot
  happen.
\<close>

section \<open>Signatures of the server\<close>

lemma classify_valid_iff:
  "classify_signature x pk pin c r h sig = SigValid \<longleftrightarrow>
     normalize_public_key_hex pk = normalize_public_key_hex pin \<and>
     verify_root x c r h sig (normalize_public_key_hex pin)"
  by (simp add: classify_signature_def Let_def)

lemma lower_hex_no_colon: "list_all is_lower_hex r \<Longrightarrow> CHR '':'' \<notin> set r"
  using lower_hex_chars by (auto simp: list_all_iff)

lemma signed_message_parts:
  assumes "uuid_ok x" "list_all is_lower_hex r" "list_all is_lower_hex r'"
    and "root_message (x_uuid_str x c) r (x_uuid_str x h) = root_message (x_uuid_str x c') r' (x_uuid_str x h')"
  shows "c = c' \<and> r = r' \<and> h = h'"
proof -
  have "CHR '':'' \<notin> set (x_uuid_str x u)" for u using assms(1) by (simp add: uuid_ok_def)
  from root_message_inj [OF this this lower_hex_no_colon [OF assms(2)] lower_hex_no_colon [OF assms(3)] assms(4)]
  show ?thesis using assms(1) by (simp add: uuid_str_inj)
qed

section \<open>File hashes of the read path\<close>

lemma normalize_query_exact:
  "normalize_query_file_hash (Some raw) =
     (if is_valid_file_hash raw then Inr (Some (normalized_file_hash raw)) else Inl ())"
  using query_accepts [of raw]
  by (auto simp: normalize_query_file_hash_def normalized_file_hash_def Let_def split: if_splits)

section \<open>Identity keys\<close>

lemma challenge_used_after:
  assumes "find_challenge cid acc d = Some c" "c_used_at c = None"
    and "mark_used now cid d1 = Inr d'" "identity_challenges d1 = identity_challenges d"
  shows "\<exists>c'. find_challenge cid acc d' = Some c' \<and> challenge_is_used c'"
proof -
  let ?P = "\<lambda>c. c_id c = cid \<and> c_used_at c = None" and ?f = "\<lambda>c. c\<lparr> c_used_at := Some now \<rparr>"
  have d': "identity_challenges d' = update_where ?P ?f (identity_challenges d)"
    using assms(3,4) by (auto simp: mark_used_def Let_def split: if_splits)
  have upd: "find (\<lambda>c. c_id c = cid \<and> c_account_id c = acc) (update_where ?P ?f rows) =
      map_option (\<lambda>c. if ?P c then ?f c else c) (find (\<lambda>c. c_id c = cid \<and> c_account_id c = acc) rows)" for rows
    by (induction rows) (auto simp: update_where_def)
  have "c_id c = cid" using assms(1) by (auto simp: find_challenge_def dest: find_SomeD)
  then show ?thesis using assms(1,2) by (simp add: find_challenge_def d' challenge_is_used_def upd)
qed

lemma create_key_challenges:
  "create_identity_key now fresh acc pub fp l d = Inr (k, d') \<Longrightarrow>
     identity_challenges d' = identity_challenges d \<and> identity_keys d' = identity_keys d @ [k] \<and>
     find_by_fingerprint fp d = None \<and> k_account_id k = acc \<and> k_public_key k = pub \<and> k_revoked_at k = None"
  by (auto simp: create_identity_key_def Let_def split: if_splits)

lemma register_effect:
  assumes reg: "register_handler x now clock fresh acc body d = (Inr key, d')"
  shows "\<exists>c raw. find_challenge (rk_challenge_id body) acc d = Some c \<and> \<not> challenge_is_used c \<and>
       \<not> challenge_is_expired clock c \<and> x_hex_decode x (c_challenge c) = Some raw \<and>
       verify_ed25519_signature x (rk_public_key body) raw (rk_signature body)"
    and "find_by_fingerprint (k_fingerprint key) d = None" "identity_keys d' = identity_keys d @ [key]"
    and "\<exists>c'. find_challenge (rk_challenge_id body) acc d' = Some c' \<and> challenge_is_used c'"
    and "k_account_id key = acc" "k_public_key key = rk_public_key body"
proof -
  from reg obtain c raw d1 where
    r: "find_challenge (rk_challenge_id body) acc d = Some c" "\<not> challenge_is_used c" "\<not> challenge_is_expired clock c"
    "x_hex_decode x (c_challenge c) = Some raw"
    "verify_ed25519_signature x (rk_public_key body) raw (rk_signature body)"
    "fingerprint_from_public_key_hex x (rk_public_key body) = Some (k_fingerprint key)"
    "create_identity_key now fresh acc (rk_public_key body) (k_fingerprint key) (clean_label (rk_label body)) d
       = Inr (key, d1)"
    "mark_used now (c_id c) d1 = Inr d'"
    by (rule register_handler_Inr)
  have k: "identity_challenges d1 = identity_challenges d" "identity_keys d1 = identity_keys d @ [key]"
    "find_by_fingerprint (k_fingerprint key) d = None" "k_account_id key = acc" "k_public_key key = rk_public_key body"
    using create_key_challenges [OF r(7)] by simp_all
  have cid: "c_id c = rk_challenge_id body" using r(1) by (auto simp: find_challenge_def dest: find_SomeD)
  show "\<exists>c'. find_challenge (rk_challenge_id body) acc d' = Some c' \<and> challenge_is_used c'"
    using challenge_used_after [OF r(1) _ r(8)[unfolded cid]] r(2) k by (simp add: challenge_is_used_def)
  have "identity_keys d' = identity_keys d1" using r(8) by (auto simp: mark_used_def Let_def split: if_splits)
  then show "identity_keys d' = identity_keys d @ [key]" using k by simp
  show "\<exists>c raw. find_challenge (rk_challenge_id body) acc d = Some c \<and> \<not> challenge_is_used c \<and>
       \<not> challenge_is_expired clock c \<and> x_hex_decode x (c_challenge c) = Some raw \<and>
       verify_ed25519_signature x (rk_public_key body) raw (rk_signature body)" using r(1-5) by blast
  show "find_by_fingerprint (k_fingerprint key) d = None" "k_account_id key = acc" "k_public_key key = rk_public_key body"
    by (rule k)+
qed

lemma register_used_challenge:
  assumes "find_challenge (rk_challenge_id body) acc d = Some c" "challenge_is_used c"
  shows "\<exists>e. register_handler x now clock fresh acc body d = (Inl e, d)"
  using assms by (auto simp: register_handler_def validate_challenge_def split: sum.split)

lemma revoke_steps:
  assumes "revoke_identity_key now acc kid d = (Inr r, d')"
  shows "identity_keys d' = update_where (\<lambda>r. k_id r = kid) (\<lambda>r. r\<lparr> k_revoked_at := Some now \<rparr>) (identity_keys d)"
proof -
  from assms obtain k where "find (\<lambda>k. k_id k = kid) (identity_keys d) = Some k"
    and "identity_keys d' = update_where (\<lambda>r. k_id r = k_id k) (\<lambda>r. r\<lparr> k_revoked_at := Some now \<rparr>) (identity_keys d)"
    by (auto simp: revoke_identity_key_def append_audit_def Let_def split: option.splits if_splits sum.splits)
  then show ?thesis by (auto dest: find_SomeD)
qed

lemma revoked_key_refused:
  assumes "revoke_identity_key now acc kid d = (Inr r, d')"
  shows "validate_and_prepare x acc' kid sig h d' \<in> {Inl KeyRevoked, Inl KeyNotFound}"
proof -
  have "k_revoked_at q \<noteq> None" if "find (\<lambda>k. k_id k = kid \<and> k_account_id k = acc') (identity_keys d') = Some q" for q
  proof -
    have q: "q \<in> set (identity_keys d')" "k_id q = kid" using find_SomeD [OF that] by simp_all
    obtain p where "q = (if k_id p = kid then p\<lparr> k_revoked_at := Some now \<rparr> else p)"
      using in_update_where [OF q(1) [unfolded revoke_steps [OF assms]]] by blast
    then show ?thesis using q(2) by (cases "k_id p = kid") simp_all
  qed
  then show ?thesis
    by (auto simp: validate_and_prepare_def signing_key_row_def ok_or_def split: option.splits)
qed

text \<open>Verification reads only the public key of the key it finds.\<close>

definition verify_with_key :: "ext \<Rightarrow> event_row \<Rightarrow> string \<Rightarrow> uuid \<Rightarrow> string \<Rightarrow> string option \<Rightarrow> unit + IdentityVerificationResult"
  where
  "verify_with_key x e h i sig pk = (case pk of
     None \<Rightarrow> Inr \<lparr> iv_present = True, iv_valid = False, iv_reason = Some ''key_not_found'',
       iv_fingerprint = e_identity_fingerprint e, iv_key_id = Some i \<rparr>
   | Some pk \<Rightarrow> (case x_hex_decode x h of
       None \<Rightarrow> Inl ()
     | Some raw \<Rightarrow> if length raw \<noteq> 32 then Inl ()
         else Inr \<lparr> iv_present = True, iv_valid = verify_ed25519_signature x pk raw sig,
           iv_reason = (if verify_ed25519_signature x pk raw sig then None else Some ''signature_mismatch''),
           iv_fingerprint = e_identity_fingerprint e, iv_key_id = Some i \<rparr>))"

lemma verify_identity_by_public_key:
  "verify_identity x e h d = (case e_identity_signature e of
     None \<Rightarrow> Inr \<lparr> iv_present = False, iv_valid = False, iv_reason = None, iv_fingerprint = None, iv_key_id = None \<rparr>
   | Some sig \<Rightarrow> (case e_identity_key_id e of
       None \<Rightarrow> Inr \<lparr> iv_present = True, iv_valid = False, iv_reason = Some ''key_not_found'',
         iv_fingerprint = e_identity_fingerprint e, iv_key_id = None \<rparr>
     | Some i \<Rightarrow> verify_with_key x e h i sig (map_option k_public_key (find (\<lambda>k. k_id k = i) (identity_keys d)))))"
  by (simp add: verify_identity_def verify_with_key_def Let_def split: option.split)

lemma revocation_keeps_verification:
  assumes "revoke_identity_key now acc kid d = (Inr r, d')"
  shows "verify_identity x e h d' = verify_identity x e h d"
proof -
  have "map_option k_public_key (find (\<lambda>k. k_id k = i) (update_where (\<lambda>r. k_id r = kid)
      (\<lambda>r. r\<lparr> k_revoked_at := Some now \<rparr>) rows)) = map_option k_public_key (find (\<lambda>k. k_id k = i) rows)" for i rows
    by (induction rows) (auto simp: update_where_def)
  then have same: "map_option k_public_key (find (\<lambda>k. k_id k = i) (identity_keys d')) =
      map_option k_public_key (find (\<lambda>k. k_id k = i) (identity_keys d))" for i
    by (simp add: revoke_steps [OF assms])
  show ?thesis by (simp only: verify_identity_by_public_key same)
qed

section \<open>An error that cannot happen\<close>

text \<open>Past the endpoints' own lookup of the key, the unique constraint refuses a used key under a name the
  conversion of errors does not look for.\<close>

lemma no_duplicate_key_error:
  "insert_event e d = Inl err \<Longrightarrow> ledger_error_from err \<noteq> DuplicateIdempotencyKey"
  by (auto simp: insert_event_def ledger_error_from_def split: if_splits option.splits)

lemma key_reuse_is_an_internal_error:
  assumes "e_event_id e \<notin> e_event_id ` set (events d)"
    and "(e_chain_id e, e_idempotency_key e) \<in> (\<lambda>f. (e_chain_id f, e_idempotency_key f)) ` set (events d)"
  shows "map_err ledger_error_from (insert_event e d) = Inl (DatabaseError (UniqueViolation ''uniq_idem''))"
  using assms by (simp add: insert_event_def ledger_error_from_def)

end
