(* ===== verification/Demo.thy ===== *)
theory Demo
  imports KeyPromises
begin

text \<open>
  A concrete service for the witnesses: the migrations' plans, one account on the free plan and one
  on the identity plan, a signing key, and the outside world of a request.
\<close>

definition demo_seed :: "byte list" where
  "demo_seed = replicate 32 7"

definition demo_signer :: ServerSigner where
  "demo_signer = signer_from_bytes demo_ext demo_seed"

definition demo_account :: "uuid \<Rightarrow> uuid \<Rightarrow> account_row" where
  "demo_account acc plan = \<lparr> a_account_id = acc, a_email = ''a'', a_tariff_plan_id = plan,
     a_paddle_customer_id = None, a_subscription_status = ''none'', a_current_period_end = None,
     a_pending_tariff_plan_id = None, a_paddle_subscription_id = None, a_password_hash = None,
     a_created_at = 0, a_email_verified_at = None \<rparr>"

definition demo_db :: db where
  "demo_db = \<lparr> chains = [], events = [], tsa_tokens = [],
     accounts = [demo_account 1 11, demo_account 2 14],
     tariff_plans = seed_plans 11 12 13 14, usage_monthly = [], idempotency_records = [],
     public_proof_registry = [], public_proof_materialization = [], identity_keys = [],
     identity_challenges = [], identity_key_audit_events = [], paddle_webhook_events = [],
     paddle_pending_links = [], api_keys = [], sessions = [], desktop_tokens = [], backups = [] \<rparr>"

definition demo_timestamp :: "'b \<Rightarrow> 'a option" where
  "demo_timestamp s = None"

definition demo_is_file :: "string \<Rightarrow> bool" where
  "demo_is_file p \<longleftrightarrow> False"

definition demo_validate_tsr :: "'a \<Rightarrow> 'b \<Rightarrow> bool" where
  "demo_validate_tsr a b \<longleftrightarrow> False"

definition demo_verify_tsr :: "'a \<Rightarrow> 'b \<Rightarrow> 'c \<Rightarrow> 'd \<Rightarrow> bool" where
  "demo_verify_tsr a b c d \<longleftrightarrow> False"

definition demo_parse_json :: "'a \<Rightarrow> 'b option" where
  "demo_parse_json s = None"

text \<open>An outside world with no time stamping authority and no trusted certificates.\<close>

definition demo_tsa :: tsa_env where
  "demo_tsa = \<lparr> te_timestamp = demo_timestamp, te_dev_mode = None, te_app_env = None, te_ca_path = None,
     te_untrusted_path = None, te_is_file = demo_is_file, te_parse_json = demo_parse_json,
     te_validate_tsr = demo_validate_tsr, te_verify_tsr = demo_verify_tsr \<rparr>"

definition demo_env :: "uuid \<Rightarrow> env" where
  "demo_env n = \<lparr> en_now = 9, en_clock = 9, en_event_id = n, en_request_id = n + 1,
     en_record_id = n + 2, en_public_bytes = replicate 16 (ucast n), en_tsa = demo_tsa \<rparr>"

definition demo_body :: "uuid \<Rightarrow> V1SubmitEventRequest" where
  "demo_body c = \<lparr> vq_chain_id = c, vq_file_hash = replicate 64 (CHR ''A''), vq_event_type = ''submission'',
     vq_event_id = None, vq_identity_signature = None \<rparr>"

definition demo_req :: "uuid \<Rightarrow> SubmitEventRequest" where
  "demo_req c = \<lparr> sr_chain_id = c, sr_file_hash = replicate 64 (CHR ''A''), sr_idempotency_key = ''k'',
     sr_parent_event_id = None, sr_event_id = None, sr_identity_key_id = None,
     sr_identity_signature = None, sr_identity_fingerprint = None \<rparr>"

lemma demo_signer_ok: "signer_ok demo_ext demo_signer"
  by (simp add: demo_signer_def demo_seed_def signer_ok_from_bytes)

lemma demo_service_ok: "service_ok demo_ext demo_signer demo_db"
  by (simp add: service_ok_def ledger_ok_def signed_ok_def registry_ok_def unique_active_def materials_ok_def
      chain_inv_def demo_db_def)

lemma demo_capabilities:
  "get_account_capabilities 1 demo_db = Inr (plan_capabilities (hd (seed_plans 11 12 13 14)))"
  by (simp add: get_account_capabilities_Inr account_plan_Inr demo_db_def demo_account_def seed_plans_def)

text \<open>The first submission of account 1, to the new chain 3, under an unused key.\<close>

lemma demo_body_simps [simp]:
  "vq_chain_id (demo_body c) = c" "vq_event_type (demo_body c) = ''submission''"
  "vq_event_id (demo_body c) = None" "vq_identity_signature (demo_body c) = None"
  by (simp_all add: demo_body_def)

lemma demo_body_valid: "validate_submit_request (demo_body c) = Inr ()"
proof -
  have "is_valid_file_hash (replicate 64 (CHR ''A''))" "is_valid_event_type ''submission''" by code_simp+
  then show ?thesis by (simp add: validate_submit_request_def demo_body_def)
qed

lemma demo_submit_succeeds:
  "\<exists>resp d'. submit_v1_event demo_ext demo_signer (demo_env 5) 1 ''key'' (demo_body 3) demo_db = (Inr resp, d')"
proof (rule submit_v1_event_succeeds)
  show "ledger_ok demo_db" using demo_service_ok by (simp add: service_ok_def)
  show "get_account_capabilities 1 demo_db = Inr (plan_capabilities (hd (seed_plans 11 12 13 14)))"
    by (rule demo_capabilities)
qed (simp_all add: demo_body_valid demo_db_def quota_free_def chain_open_def event_fresh_def record_fresh_def
    current_usage_def seed_plans_def plan_capabilities_def can_commit_def can_use_tsa_def tsa_available_def
    tsa_mode_from_db_def)

definition demo_response :: json where
  "demo_response = projr (fst
     (submit_v1_event demo_ext demo_signer (demo_env 5) 1 ''key'' (demo_body 3) demo_db))"

definition demo_after :: db where
  "demo_after = snd (submit_v1_event demo_ext demo_signer (demo_env 5) 1 ''key'' (demo_body 3) demo_db)"

lemma demo_submit:
  "submit_v1_event demo_ext demo_signer (demo_env 5) 1 ''key'' (demo_body 3) demo_db = (Inr demo_response, demo_after)"
  using demo_submit_succeeds by (auto simp: demo_response_def demo_after_def)

lemma demo_key_unused: "find_active_in_tx (en_now (demo_env 5)) 1 ''key'' demo_db = None"
  by (simp add: find_active_in_tx_def demo_db_def)

lemma demo_after_ok: "service_ok demo_ext demo_signer demo_after"
  using service_ok_submit_v1 [OF demo_service_ok] by (simp add: demo_after_def)

definition demo_event :: "timestamp \<Rightarrow> EventRow" where
  "demo_event t = \<lparr> er_event_id = 5, er_parent_event_id = uuid_nil, er_file_hash = ''ab'',
     er_created_at = t, er_sequence = 1 \<rparr>"

lemma demo_step: "service_step demo_ext demo_signer demo_db demo_after"
proof -
  have "trim ''key'' = ''key''" by code_simp
  then have "demo_after = snd (v1_events_handler demo_ext demo_signer (demo_env 5) 1 (Some ''key'') (demo_body 3) demo_db)"
    by (simp add: demo_after_def v1_events_handler_def)
  then show ?thesis by (metis service_step.submit_v1)
qed

lemma demo_run: "(service_step demo_ext demo_signer)\<^sup>*\<^sup>* demo_db demo_after"
  by (rule r_into_rtranclp) (rule demo_step)

lemma demo_stamp [simp]: "stamp_current_root x demo_tsa c e d = d"
  by (simp add: stamp_current_root_def stamp_chain_def demo_tsa_def demo_timestamp_def split: option.split)

lemma demo_env_simps [simp]: "en_tsa (demo_env n) = demo_tsa" "en_event_id (demo_env n) = n"
  "en_now (demo_env n) = 9"
  by (simp_all add: demo_env_def)

lemma demo_after_tables:
  obtains e where "events demo_after = [e]" "verify_event_access 1 5 demo_after = Inr e" "e_chain_id e = 3"
    "e_event_id e = 5" "e_file_hash e = normalized_file_hash (vq_file_hash (demo_body 3))" "tsa_tokens demo_after = []"
proof (rule submit_v1_event_new [OF demo_service_ok demo_submit demo_key_unused])
  fix e tx caps d2
  assume *: "events demo_after = events demo_db @ [e]" "e_chain_id e = vq_chain_id (demo_body 3)"
    "e_file_hash e = normalized_file_hash (vq_file_hash (demo_body 3))"
    "e_event_id e = (case vq_event_id (demo_body 3) of None \<Rightarrow> en_event_id (demo_env 5) | Some i \<Rightarrow> i)"
    "ensure_chain_access_in_tx 1 (vq_chain_id (demo_body 3)) demo_db = Inr tx"
    "chains demo_after = update_where (\<lambda>r. ch_chain_id r = vq_chain_id (demo_body 3))
       (\<lambda>r. r\<lparr> ch_head_event_id := Some (e_event_id e) \<rparr>) (chains tx)"
    "demo_after = stamp_current_root demo_ext (en_tsa (demo_env 5)) (vq_chain_id (demo_body 3)) (e_event_id e) d2"
    "tsa_tokens d2 = tsa_tokens demo_db"
  have ev: "events demo_after = [e]" "e_chain_id e = 3" "e_event_id e = 5" "tsa_tokens demo_after = []"
    using *(1,2,4,7,8) by (simp_all add: demo_db_def)
  have "chains demo_after = [\<lparr> ch_chain_id = 3, ch_head_event_id = Some 5, ch_account_id = Some 1 \<rparr>]"
    using *(5,6) ev(3) by (auto simp: ensure_chain_access_in_tx_def demo_db_def demo_account_def update_where_def)
  then have "verify_event_access 1 5 demo_after = Inr e" using ev by (simp add: verify_event_access_def)
  with ev *(3) that show thesis by blast
qed

lemma demo_after_no_tsa: "load_tsa_row_for_root c r demo_after = None"
  by (rule demo_after_tables) (simp add: load_tsa_row_for_root_def)

lemma demo_after_chain: "chain_events 3 demo_after \<noteq> []"
  by (rule demo_after_tables) (simp add: chain_events_def select_events_def)

lemma demo_after_capabilities:
  "get_account_capabilities 1 demo_after = Inr (plan_capabilities (hd (seed_plans 11 12 13 14)))"
  using get_account_capabilities_cong [of demo_after demo_db 1] submit_v1_event_accounts [OF demo_submit demo_key_unused]
    demo_capabilities by simp

lemma demo_after_owner:
  obtains r where "find (\<lambda>r. ch_chain_id r = 3) (chains demo_after) = Some r" "ch_account_id r = Some 1"
proof (rule submit_v1_event_new [OF demo_service_ok demo_submit demo_key_unused])
  fix e tx caps d2
  assume "ensure_chain_access_in_tx 1 (vq_chain_id (demo_body 3)) demo_db = Inr tx"
    "chains demo_after = update_where (\<lambda>r. ch_chain_id r = vq_chain_id (demo_body 3))
       (\<lambda>r. r\<lparr> ch_head_event_id := Some (e_event_id e) \<rparr>) (chains tx)"
  from claimed_chain_owner [OF this] that show thesis by auto
qed

lemma demo_nothing_used: "used f x now acc demo_db = 0"
  by (simp add: used_def current_usage_def demo_db_def)

text \<open>A database with one published file hash.\<close>

definition demo_registry_row :: registry_row where
  "demo_registry_row = \<lparr> r_public_proof_id = ''pv_1'', r_file_hash = ''ab'', r_proof_status = ''REGISTERED'',
     r_registered_at = 1, r_tsa_class = ''basic'', r_integrity_state = ''VALID'', r_enabled = True \<rparr>"

definition demo_published :: db where
  "demo_published = demo_db\<lparr> public_proof_registry := [demo_registry_row] \<rparr>"

section \<open>An identity key\<close>

definition demo_challenged :: db where
  "demo_challenged = demo_db\<lparr> identity_challenges := [\<lparr> c_id = 77, c_account_id = 2, c_challenge = ''0102'',
     c_created_at = 1, c_expires_at = 100, c_used_at = None \<rparr>] \<rparr>"

definition demo_public_key :: string where
  "demo_public_key = demo_hex (replicate 32 1)"

definition demo_register :: RegisterKeyRequest where
  "demo_register = \<lparr> rk_challenge_id = 77, rk_public_key = demo_public_key,
     rk_signature = demo_hex (replicate 32 1 @ demo_sha [1, 2]), rk_label = None \<rparr>"

definition demo_key :: identity_key_row where
  "demo_key = \<lparr> k_id = 99, k_account_id = 2, k_public_key = demo_public_key, k_fingerprint = ''f'',
     k_label = None, k_created_at = 1, k_verified_at = 1, k_revoked_at = None \<rparr>"

definition demo_keyed :: db where
  "demo_keyed = demo_db\<lparr> identity_keys := [demo_key] \<rparr>"

lemma demo_register_succeeds:
  "\<exists>k d'. register_handler demo_ext 10 10 99 2 demo_register demo_challenged = (Inr k, d')"
proof -
  have ent: "check_identity_entitlement 2 demo_challenged = Inr ()"
    by (simp add: check_identity_entitlement_def require_feature_def get_account_capabilities_def account_plan_def
        fetch_one_def ok_or_def demo_challenged_def demo_db_def demo_account_def seed_plans_def plan_capabilities_def)
  have ch: "x_hex_decode demo_ext ''0102'' = Some [1, 2]" by code_simp
  have sig: "verify_ed25519_signature demo_ext demo_public_key [1, 2] (demo_hex (replicate 32 1 @ demo_sha [1, 2]))"
    by code_simp
  obtain fp where fp: "fingerprint_from_public_key_hex demo_ext demo_public_key = Some fp"
    by (simp add: fingerprint_from_public_key_hex_def demo_public_key_def demo_ext_def demo_unhex_hex)
  show ?thesis
    by (simp add: register_handler_def ent)
      (simp add: demo_challenged_def demo_register_def find_challenge_def validate_challenge_def challenge_is_used_def
        challenge_is_expired_def ch sig fp create_identity_key_def find_by_fingerprint_def demo_db_def demo_account_def
        mark_used_def Let_def)
qed

lemma demo_revoke_succeeds: "\<exists>r d'. revoke_identity_key 5 2 99 demo_keyed = (Inr r, d')"
  by (simp add: revoke_identity_key_def append_audit_def demo_keyed_def demo_key_def Let_def update_where_def)

section \<open>A stamped chain in development mode\<close>

definition demo_token :: "byte list" where
  "demo_token = str_bytes (stub_marker @ ''ab'')"

definition demo_parse_stub :: "string \<Rightarrow> json option" where
  "demo_parse_stub s = Some (JObject [(''sha256'', JString ''ab'')])"

definition demo_dev_tsa :: tsa_env where
  "demo_dev_tsa = demo_tsa\<lparr> te_dev_mode := Some ''1'', te_parse_json := demo_parse_stub \<rparr>"

definition demo_token_row :: tsa_row where
  "demo_token_row = \<lparr> t_chain_id = 3, t_event_id = 5, t_merkle_root = ''ab'', t_tsa_token = demo_token,
     t_tsa_timestamp = 0, t_tsa_serial = ''1'', t_verified_at = None, t_verification_status = None,
     t_token_sha256 = None \<rparr>"

definition demo_stamped :: db where
  "demo_stamped = demo_db\<lparr> tsa_tokens := [demo_token_row] \<rparr>"

lemma demo_token_verifies: "vo_status (verify_token_fresh demo_ext demo_dev_tsa demo_token ''ab'') = Verified"
  by code_simp

section \<open>A lapsed subscription, and an event row\<close>

definition demo_lapsed :: db where
  "demo_lapsed = demo_db\<lparr> accounts := [(demo_account 1 12)\<lparr> a_subscription_status := ''canceled'',
     a_current_period_end := Some 5 \<rparr>] \<rparr>"

definition demo_lapsed_after :: db where
  "demo_lapsed_after = projr (apply_lazy_billing_transitions demo_ext 10 1 demo_lapsed)"

lemma demo_lapsed_free: "free_plan_id demo_lapsed = Some 11"
  by (simp add: free_plan_id_def demo_lapsed_def demo_db_def seed_plans_def)

lemma demo_lapsed_step: "apply_lazy_billing_transitions demo_ext 10 1 demo_lapsed = Inr demo_lapsed_after"
  by (simp add: demo_lapsed_after_def apply_lazy_free [OF demo_lapsed_free])

definition demo_row :: "uuid \<Rightarrow> event_row" where
  "demo_row i = \<lparr> e_event_id = i, e_chain_id = 3, e_parent_event_id = 0, e_file_hash = ''ab'',
     e_idempotency_key = ''k'', e_signature = [], e_created_at = 1, e_sequence = 1, e_identity_key_id = None,
     e_identity_signature = None, e_identity_fingerprint = None \<rparr>"

end
