(* ===== verification/Paddle.thy ===== *)
theory Paddle
  imports Subscription Transition
begin

text \<open>
  The billing webhook: \<open>src/api/paddle_webhook.rs\<close>, \<open>src/paddle/processor.rs\<close>,
  \<open>src/paddle/webhook_store.rs\<close>, \<open>src/paddle/models.rs\<close>, \<open>src/paddle/linking.rs\<close> and
  \<open>src/paddle/signature.rs\<close>.  A delivery is a task that advances by one database interaction at a time,
  so deliveries interleave the way the code allows; \<open>process_paddle_webhook\<close> is one delivery on its own.
  The transaction of a linked event takes two steps, since under READ COMMITTED its read of the newest
  processed event sees what others have committed until then and locks nothing: the first step claims
  the row of the event and reads, the second applies the event to the accounts as they are then and
  commits.
\<close>

section \<open>Signatures\<close>

fun header_parts :: "string list \<Rightarrow> string option \<Rightarrow> string list \<Rightarrow> string option \<times> string list" where
  "header_parts [] timestamp signatures = (timestamp, signatures)"
| "header_parts (p # ps) timestamp signatures = (let part = trim p in
     case strip_prefix ''ts='' part of
       Some ts \<Rightarrow> header_parts ps (Some ts) signatures
     | None \<Rightarrow> (case strip_prefix ''h1='' part of
         Some h1 \<Rightarrow> header_parts ps timestamp (signatures @ [h1])
       | None \<Rightarrow> header_parts ps timestamp signatures))"

definition parse_signature_header :: "string \<Rightarrow> (string \<times> string list) option" where
  "parse_signature_header header =
     (case header_parts (split_char (CHR '';'') header) None [] of
        (None, _) \<Rightarrow> None
      | (Some ts, signatures) \<Rightarrow> if signatures = [] then None else Some (ts, signatures))"

definition constant_time_eq :: "byte list \<Rightarrow> byte list \<Rightarrow> bool" where
  "constant_time_eq a b =
     (if length a \<noteq> length b then False
      else foldl (\<lambda>acc (x, y). or acc (xor x y)) 0 (zip a b) = 0)"

text \<open>\<open>hmac secret message\<close> is HMAC-SHA256 (crate \<open>hmac\<close>), which takes keys of every length.\<close>

definition verify_paddle_signature ::
  "ext \<Rightarrow> (byte list \<Rightarrow> byte list \<Rightarrow> byte list) \<Rightarrow> byte list \<Rightarrow> string \<Rightarrow> string \<Rightarrow> bool" where
  "verify_paddle_signature x hmac raw_body signature_header secret =
     (case parse_signature_header signature_header of
        None \<Rightarrow> False
      | Some (timestamp, signatures) \<Rightarrow>
          if \<not> is_utf8 raw_body then False
          else let computed = hmac (str_bytes secret) (str_bytes timestamp @ str_bytes '':'' @ raw_body) in
            list_ex (\<lambda>sig_hex. case x_hex_decode x sig_hex of
                None \<Rightarrow> False | Some expected \<Rightarrow> constant_time_eq computed expected) signatures)"

definition sign_payload_for_test ::
  "ext \<Rightarrow> (byte list \<Rightarrow> byte list \<Rightarrow> byte list) \<Rightarrow> string \<Rightarrow> string \<Rightarrow> i64 \<Rightarrow> string" where
  "sign_payload_for_test x hmac secret raw_body timestamp =
     (let ts = show_int (sint timestamp);
          digest = x_hex_encode x (hmac (str_bytes secret) (str_bytes (ts @ '':'' @ raw_body)))
      in ''ts='' @ ts @ '';h1='' @ digest)"

section \<open>Events\<close>

record PaddleCustomerRef =
  pc_id :: "string option"
  pc_email :: "string option"

record PaddleEventData =
  pd_id :: "string option"
  pd_customer_id :: "string option"
  pd_customer :: "PaddleCustomerRef option"
  pd_ends_at :: "timestamp option"
  pd_items :: "string option list option"

record PaddleWebhookEvent =
  pe_event_id :: string
  pe_event_type :: string
  pe_occurred_at :: timestamp
  pe_data :: PaddleEventData

text \<open>\<open>replace('.', "_").to_lowercase()\<close>.  The types that are handled are ASCII, and no other character
  lowercases to one of theirs, so lowering the ASCII letters decides the same.\<close>

definition normalized_event_type :: "PaddleWebhookEvent \<Rightarrow> string" where
  "normalized_event_type e =
     to_ascii_lowercase (map (\<lambda>c. if c = CHR ''.'' then CHR ''_'' else c) (pe_event_type e))"

definition customer_id :: "PaddleWebhookEvent \<Rightarrow> string option" where
  "customer_id e = (case pd_customer_id (pe_data e) of
     Some c \<Rightarrow> Some c
   | None \<Rightarrow> Option.bind (pd_customer (pe_data e)) pc_id)"

definition customer_email :: "PaddleWebhookEvent \<Rightarrow> string option" where
  "customer_email e = Option.bind (pd_customer (pe_data e)) pc_email"

definition subscription_id :: "PaddleWebhookEvent \<Rightarrow> string option" where
  "subscription_id e = pd_id (pe_data e)"

definition price_id :: "PaddleWebhookEvent \<Rightarrow> string option" where
  "price_id e = Option.bind (pd_items (pe_data e)) (\<lambda>items. case items of [] \<Rightarrow> None | i # _ \<Rightarrow> i)"

definition period_end :: "PaddleWebhookEvent \<Rightarrow> timestamp option" where
  "period_end e = pd_ends_at (pe_data e)"

definition is_upgrade :: "plan_row \<Rightarrow> plan_row \<Rightarrow> bool" where
  "is_upgrade old new \<longleftrightarrow> p_priority new > p_priority old"

definition is_downgrade :: "plan_row \<Rightarrow> plan_row \<Rightarrow> bool" where
  "is_downgrade old new \<longleftrightarrow> p_priority new < p_priority old"

section \<open>Store\<close>

definition payload_hash :: "ext \<Rightarrow> byte list \<Rightarrow> string" where
  "payload_hash x raw_body = sha_hex x raw_body"

definition find_by_paddle_event_id :: "string \<Rightarrow> db \<Rightarrow> webhook_row option" where
  "find_by_paddle_event_id pid d = find (\<lambda>w. w_paddle_event_id w = pid) (paddle_webhook_events d)"

text \<open>\<open>MAX(event_occurred_at)\<close> over the processed rows of the account, NULL when there is none.\<close>

definition last_processed_occurred_at :: "uuid \<Rightarrow> db \<Rightarrow> timestamp option" where
  "last_processed_occurred_at acc d =
     (case map w_event_occurred_at
          (filter (\<lambda>w. w_account_id w = Some acc \<and> w_status w = ''processed'') (paddle_webhook_events d)) of
        [] \<Rightarrow> None | t # ts \<Rightarrow> Some (foldl max t ts))"

definition insert_webhook :: "webhook_row \<Rightarrow> db \<Rightarrow> sqlx_error + db" where
  "insert_webhook w d =
     (if w_id w \<in> w_id ` set (paddle_webhook_events d)
      then Inl (UniqueViolation ''paddle_webhook_events_pkey'')
      else if w_paddle_event_id w \<in> w_paddle_event_id ` set (paddle_webhook_events d)
      then Inl (UniqueViolation ''paddle_webhook_events_paddle_event_id_key'')
      else if (case w_account_id w of None \<Rightarrow> False | Some a \<Rightarrow> a \<notin> a_account_id ` set (accounts d))
      then Inl ForeignKeyViolation
      else Inr (d\<lparr> paddle_webhook_events := paddle_webhook_events d @ [w] \<rparr>))"

definition received_row ::
  "uuid \<Rightarrow> string \<Rightarrow> string \<Rightarrow> string \<Rightarrow> uuid option \<Rightarrow> string option \<Rightarrow> timestamp \<Rightarrow> webhook_row" where
  "received_row fresh pid event_type hash acc sub occurred =
     \<lparr> w_id = fresh, w_paddle_event_id = pid, w_event_type = event_type, w_payload_hash = hash,
       w_account_id = acc, w_subscription_id = sub, w_event_occurred_at = occurred,
       w_status = ''received'', w_error_message = None, w_processing_started_at = None,
       w_processed_at = None \<rparr>"

definition insert_received ::
  "uuid \<Rightarrow> string \<Rightarrow> string \<Rightarrow> string \<Rightarrow> uuid \<Rightarrow> string option \<Rightarrow> timestamp \<Rightarrow> db \<Rightarrow> sqlx_error + db" where
  "insert_received fresh pid event_type hash acc sub occurred d =
     insert_webhook (received_row fresh pid event_type hash (Some acc) sub occurred) d"

definition insert_received_unlinked ::
  "uuid \<Rightarrow> string \<Rightarrow> string \<Rightarrow> string \<Rightarrow> string option \<Rightarrow> timestamp \<Rightarrow> db \<Rightarrow> sqlx_error + db" where
  "insert_received_unlinked fresh pid event_type hash sub occurred d =
     insert_webhook (received_row fresh pid event_type hash None sub occurred) d"

text \<open>\<open>id\<close> is the primary key: \<open>rows_affected() == 1\<close> when a row matches.\<close>

definition mark_processing :: "timestamp \<Rightarrow> uuid \<Rightarrow> db \<Rightarrow> bool \<times> db" where
  "mark_processing now i d =
     (let claim = (\<lambda>w. w_id w = i \<and> w_status w \<in> {''received'', ''failed''}) in
      (list_ex claim (paddle_webhook_events d),
       d\<lparr> paddle_webhook_events := update_where claim
         (\<lambda>w. w\<lparr> w_status := ''processing'', w_processing_started_at := Some now \<rparr>) (paddle_webhook_events d) \<rparr>))"

definition mark_done :: "string \<Rightarrow> string option \<Rightarrow> timestamp \<Rightarrow> uuid \<Rightarrow> db \<Rightarrow> db" where
  "mark_done status msg now i d =
     d\<lparr> paddle_webhook_events := update_where (\<lambda>w. w_id w = i \<and> w_status w = ''processing'')
         (\<lambda>w. w\<lparr> w_status := status, w_processed_at := Some now, w_error_message := msg \<rparr>)
         (paddle_webhook_events d) \<rparr>"

definition mark_processed :: "timestamp \<Rightarrow> uuid \<Rightarrow> db \<Rightarrow> db" where
  "mark_processed = mark_done ''processed'' None"

definition mark_waiting_for_account_link :: "timestamp \<Rightarrow> uuid \<Rightarrow> db \<Rightarrow> db" where
  "mark_waiting_for_account_link = mark_done ''waiting_for_account_link'' None"

definition mark_failed :: "string \<Rightarrow> timestamp \<Rightarrow> uuid \<Rightarrow> db \<Rightarrow> db" where
  "mark_failed msg = mark_done ''failed'' (Some msg)"

definition insert_pending_link :: "timestamp \<Rightarrow> uuid \<Rightarrow> string \<Rightarrow> string \<Rightarrow> db \<Rightarrow> sqlx_error + db" where
  "insert_pending_link now fresh customer email d =
     (if fresh \<in> l_id ` set (paddle_pending_links d)
      then Inl (UniqueViolation ''paddle_pending_links_pkey'')
      else Inr (d\<lparr> paddle_pending_links := paddle_pending_links d @
        [\<lparr> l_id = fresh, l_paddle_customer_id = customer, l_paddle_email = email, l_account_id = None,
           l_created_at = now, l_resolved_at = None \<rparr>] \<rparr>))"

definition pending_link_exists :: "string \<Rightarrow> db \<Rightarrow> bool" where
  "pending_link_exists customer d =
     list_ex (\<lambda>l. l_paddle_customer_id l = customer \<and> l_resolved_at l = None) (paddle_pending_links d)"

section \<open>Processing\<close>

datatype WebhookOutcome = Processed | Idempotent | WaitingForAccountLink | Ignored

datatype WebhookError =
    PayloadHashConflict
  | InvalidStatusTransition
  | PlanNotFound
  | MissingField string
  | WebhookDatabase sqlx_error

fun is_temporary :: "WebhookError \<Rightarrow> bool" where
  "is_temporary (WebhookDatabase _) = True"
| "is_temporary InvalidStatusTransition = True"
| "is_temporary PlanNotFound = True"
| "is_temporary (MissingField _) = False"
| "is_temporary PayloadHashConflict = False"

fun error_type_name :: "WebhookError \<Rightarrow> string" where
  "error_type_name PayloadHashConflict = ''payload_hash_conflict''"
| "error_type_name InvalidStatusTransition = ''invalid_status_transition''"
| "error_type_name PlanNotFound = ''plan_not_found''"
| "error_type_name (MissingField _) = ''missing_field''"
| "error_type_name (WebhookDatabase _) = ''database''"

text \<open>\<open>format!("{e:?}")\<close>; \<open>show_sqlx\<close> is the text of a database error.\<close>

fun debug_error :: "(sqlx_error \<Rightarrow> string) \<Rightarrow> WebhookError \<Rightarrow> string" where
  "debug_error show_sqlx PayloadHashConflict = ''PayloadHashConflict''"
| "debug_error show_sqlx InvalidStatusTransition = ''InvalidStatusTransition''"
| "debug_error show_sqlx PlanNotFound = ''PlanNotFound''"
| "debug_error show_sqlx (MissingField f) = ''MissingField('' @ [CHR 0x22] @ f @ [CHR 0x22] @ '')''"
| "debug_error show_sqlx (WebhookDatabase e) = ''Database('' @ [CHR 0x22] @ show_sqlx e @ [CHR 0x22] @ '')''"

record AccountBillingRow =
  ab_account_id :: uuid
  ab_tariff_plan_id :: uuid
  ab_subscription_status :: string
  ab_current_period_end :: "timestamp option"
  ab_pending_tariff_plan_id :: "uuid option"

definition resolve_account_by_paddle_customer :: "string \<Rightarrow> db \<Rightarrow> AccountBillingRow option" where
  "resolve_account_by_paddle_customer customer d =
     map_option (\<lambda>a. \<lparr> ab_account_id = a_account_id a, ab_tariff_plan_id = a_tariff_plan_id a,
         ab_subscription_status = a_subscription_status a, ab_current_period_end = a_current_period_end a,
         ab_pending_tariff_plan_id = a_pending_tariff_plan_id a \<rparr>)
       (find (\<lambda>a. a_paddle_customer_id a = Some customer) (accounts d))"

definition is_handled_event_type :: "string \<Rightarrow> bool" where
  "is_handled_event_type t \<longleftrightarrow>
     t \<in> {''subscription_created'', ''subscription_updated'', ''subscription_past_due'', ''subscription_canceled''}"

definition should_skip_out_of_order :: "uuid \<Rightarrow> timestamp \<Rightarrow> db \<Rightarrow> bool" where
  "should_skip_out_of_order acc occurred d =
     (case last_processed_occurred_at acc d of None \<Rightarrow> False | Some ts \<Rightarrow> occurred < ts)"

definition load_plan_by_price_id :: "string \<Rightarrow> db \<Rightarrow> WebhookError + plan_row" where
  "load_plan_by_price_id price d =
     ok_or PlanNotFound (find (\<lambda>p. p_paddle_price_id p = Some price) (tariff_plans d))"

definition load_plan_by_id :: "uuid \<Rightarrow> db \<Rightarrow> WebhookError + plan_row" where
  "load_plan_by_id plan_id d = map_err WebhookDatabase (fetch_one (\<lambda>p. p_plan_id p = plan_id) (tariff_plans d))"

text \<open>\<open>UPDATE accounts ... WHERE account_id = $1\<close>; the second form writes the subscription id, which has
  a unique index where it is not NULL.\<close>

definition update_account :: "uuid \<Rightarrow> (account_row \<Rightarrow> account_row) \<Rightarrow> db \<Rightarrow> db" where
  "update_account acc f d = d\<lparr> accounts := update_where (\<lambda>a. a_account_id a = acc) f (accounts d) \<rparr>"

definition subscriptions_distinct :: "account_row list \<Rightarrow> bool" where
  "subscriptions_distinct rows \<longleftrightarrow> distinct (List.map_filter a_paddle_subscription_id rows)"

definition update_subscription :: "uuid \<Rightarrow> (account_row \<Rightarrow> account_row) \<Rightarrow> db \<Rightarrow> WebhookError + db" where
  "update_subscription acc f d = (let d' = update_account acc f d in
     if subscriptions_distinct (accounts d') then Inr d'
     else Inl (WebhookDatabase (UniqueViolation ''idx_accounts_paddle_subscription_id'')))"

definition coalesce :: "'a option \<Rightarrow> 'a option \<Rightarrow> 'a option" where
  "coalesce a b = (case a of Some v \<Rightarrow> Some v | None \<Rightarrow> b)"

definition subscription_created :: "uuid \<Rightarrow> PaddleWebhookEvent \<Rightarrow> db \<Rightarrow> WebhookError + db" where
  "subscription_created acc event d =
     bind_res (ok_or (MissingField ''price_id'') (price_id event)) (\<lambda>price.
     bind_res (load_plan_by_price_id price d) (\<lambda>plan.
     bind_res (ok_or (MissingField ''current_period_end'') (period_end event)) (\<lambda>ends.
     update_subscription acc (\<lambda>a. a\<lparr> a_tariff_plan_id := p_plan_id plan, a_pending_tariff_plan_id := None,
       a_subscription_status := ''active'', a_current_period_end := Some ends,
       a_paddle_subscription_id := coalesce (subscription_id event) (a_paddle_subscription_id a) \<rparr>) d)))"

definition subscription_updated :: "AccountBillingRow \<Rightarrow> PaddleWebhookEvent \<Rightarrow> db \<Rightarrow> WebhookError + db" where
  "subscription_updated account event d =
     bind_res (ok_or (MissingField ''price_id'') (price_id event)) (\<lambda>price.
     bind_res (load_plan_by_price_id price d) (\<lambda>new_plan.
     bind_res (load_plan_by_id (ab_tariff_plan_id account) d) (\<lambda>current_plan.
     bind_res (ok_or (MissingField ''current_period_end'') (period_end event)) (\<lambda>ends.
     if is_upgrade current_plan new_plan then
       update_subscription (ab_account_id account) (\<lambda>a. a\<lparr> a_tariff_plan_id := p_plan_id new_plan,
         a_pending_tariff_plan_id := None, a_subscription_status := ''active'',
         a_current_period_end := Some ends,
         a_paddle_subscription_id := coalesce (subscription_id event) (a_paddle_subscription_id a) \<rparr>) d
     else if is_downgrade current_plan new_plan then
       Inr (update_account (ab_account_id account)
         (\<lambda>a. a\<lparr> a_pending_tariff_plan_id := Some (p_plan_id new_plan) \<rparr>) d)
     else
       update_subscription (ab_account_id account) (\<lambda>a. a\<lparr> a_subscription_status := ''active'',
         a_current_period_end := Some ends,
         a_paddle_subscription_id := coalesce (subscription_id event) (a_paddle_subscription_id a) \<rparr>) d))))"

definition subscription_past_due :: "uuid \<Rightarrow> db \<Rightarrow> WebhookError + db" where
  "subscription_past_due acc d = Inr (update_account acc (\<lambda>a. a\<lparr> a_subscription_status := ''past_due'' \<rparr>) d)"

definition subscription_canceled :: "uuid \<Rightarrow> PaddleWebhookEvent \<Rightarrow> db \<Rightarrow> WebhookError + db" where
  "subscription_canceled acc event d =
     bind_res (ok_or (MissingField ''current_period_end'') (period_end event)) (\<lambda>ends.
     Inr (update_account acc
       (\<lambda>a. a\<lparr> a_subscription_status := ''canceled'', a_current_period_end := Some ends \<rparr>) d))"

text \<open>The last branch is not reached: the types are filtered on entry.\<close>

definition apply_event :: "AccountBillingRow \<Rightarrow> PaddleWebhookEvent \<Rightarrow> db \<Rightarrow> WebhookError + db" where
  "apply_event account event d =
     (let t = normalized_event_type event in
      if t = ''subscription_created'' then subscription_created (ab_account_id account) event d
      else if t = ''subscription_updated'' then subscription_updated account event d
      else if t = ''subscription_past_due'' then subscription_past_due (ab_account_id account) d
      else if t = ''subscription_canceled'' then subscription_canceled (ab_account_id account) event d
      else Inl (WebhookDatabase RowNotFound))"

text \<open>Postgres aborts the transaction of a statement that fails; a row \<open>sqlx\<close> did not find does not.\<close>

fun aborts_transaction :: "WebhookError \<Rightarrow> bool" where
  "aborts_transaction (WebhookDatabase RowNotFound) = False"
| "aborts_transaction (WebhookDatabase _) = True"
| "aborts_transaction _ = False"

text \<open>The open transaction of a linked event, between its read of the newest processed event and the
  statements that apply the event: the row it claims, the time it began (what \<open>NOW()\<close> is in all of it),
  the account and \<open>skip_state\<close>.\<close>

record linked_tx =
  tx_row :: uuid
  tx_now :: timestamp
  tx_account :: AccountBillingRow
  tx_skip :: bool

text \<open>The first half of the transaction, after the insertion where there is one.  \<open>None\<close>: another delivery
  has the row.\<close>

definition open_linked ::
  "timestamp \<Rightarrow> uuid \<Rightarrow> AccountBillingRow \<Rightarrow> PaddleWebhookEvent \<Rightarrow> db \<Rightarrow> linked_tx option" where
  "open_linked now i account event d =
     (case mark_processing now i d of (False, _) \<Rightarrow> None
      | (True, d1) \<Rightarrow> Some \<lparr> tx_row = i, tx_now = now, tx_account = account,
          tx_skip = should_skip_out_of_order (ab_account_id account) (pe_occurred_at event) d1 \<rparr>)"

text \<open>The second half, on the database as it is by then; \<open>d0\<close> is that database without what the transaction
  has written, which only the transaction itself has seen so far, so the claim is made on it again.  A
  claim that another delivery's commit has overtaken fails here: in the code the claim waits for that
  commit and then fails (\<open>None\<close>, or the unique constraint of the insertion).  Where the commit leaves the
  row claimable, the code reads after the wait; the model also lets the read come before it, so it has
  every interleaving of the code and a few more.  Where a statement aborted
  the transaction, \<open>mark_failed\<close> fails, its error is ignored and the commit rolls back.\<close>

definition finish_linked ::
  "(sqlx_error \<Rightarrow> string) \<Rightarrow> linked_tx \<Rightarrow> PaddleWebhookEvent \<Rightarrow> db \<Rightarrow> db
    \<Rightarrow> ((WebhookError + WebhookOutcome) \<times> db) option" where
  "finish_linked show_sqlx tx event d0 d =
     (case mark_processing (tx_now tx) (tx_row tx) d of (False, _) \<Rightarrow> None
      | (True, d1) \<Rightarrow> Some
          (if tx_skip tx then (Inr Processed, mark_processed (tx_now tx) (tx_row tx) d1)
           else case apply_event (tx_account tx) event d1 of
               Inl e \<Rightarrow> (Inl e, if aborts_transaction e then d0
                 else mark_failed (debug_error show_sqlx e) (tx_now tx) (tx_row tx) d1)
             | Inr d2 \<Rightarrow> (Inr Processed, mark_processed (tx_now tx) (tx_row tx) d2)))"

definition finish_unlinked ::
  "timestamp \<Rightarrow> uuid \<Rightarrow> uuid \<Rightarrow> string \<Rightarrow> PaddleWebhookEvent \<Rightarrow> db \<Rightarrow> db
    \<Rightarrow> ((WebhookError + WebhookOutcome) \<times> db) option" where
  "finish_unlinked now link i customer event d0 d =
     (case mark_processing now i d of (False, _) \<Rightarrow> None
      | (True, d1) \<Rightarrow> Some
          (case insert_pending_link now link customer (case customer_email event of Some m \<Rightarrow> m | None \<Rightarrow> []) d1 of
             Inl e \<Rightarrow> (Inl (WebhookDatabase e), d0)
           | Inr d2 \<Rightarrow> (Inr WaitingForAccountLink, mark_waiting_for_account_link now i d2)))"

datatype ExistingEventAction = ExistingIdempotent WebhookOutcome | Reprocess

definition classify_existing_event :: "webhook_row \<Rightarrow> string \<Rightarrow> WebhookError + ExistingEventAction" where
  "classify_existing_event existing hash =
     (if w_payload_hash existing \<noteq> hash then Inl PayloadHashConflict
      else if w_status existing \<in> {''processed'', ''waiting_for_account_link''}
        then Inr (ExistingIdempotent Idempotent)
      else if w_status existing \<in> {''failed'', ''received''} then Inr Reprocess
      else Inl InvalidStatusTransition)"

fun is_unique_violation :: "sqlx_error \<Rightarrow> bool" where
  "is_unique_violation (UniqueViolation _) = True"
| "is_unique_violation _ = False"

section \<open>Deliveries\<close>

text \<open>The points between the database interactions of \<open>process_paddle_webhook\<close>: what is left to do.\<close>

datatype task =
    Begin PaddleWebhookEvent "byte list"
  | Resolve PaddleWebhookEvent string string
  | StoreLinked PaddleWebhookEvent string AccountBillingRow
  | CommitStored PaddleWebhookEvent string linked_tx
  | StoreUnlinked PaddleWebhookEvent string string
  | Refind PaddleWebhookEvent string sqlx_error
  | ResolveAgain PaddleWebhookEvent uuid string
  | ReLinked PaddleWebhookEvent uuid AccountBillingRow
  | CommitAgain PaddleWebhookEvent linked_tx
  | ReUnlinked PaddleWebhookEvent uuid string
  | LostRace PaddleWebhookEvent
  | Done "WebhookError + WebhookOutcome"

text \<open>The environment of a step: the current time and the ids the database generates.\<close>

record webhook_env =
  we_ext :: ext
  we_show :: "sqlx_error \<Rightarrow> string"
  we_now :: timestamp
  we_id :: uuid
  we_link :: uuid

text \<open>\<open>classify_existing_event\<close> and what its callers do with the answer.\<close>

definition after_classify :: "PaddleWebhookEvent \<Rightarrow> string \<Rightarrow> webhook_row \<Rightarrow> task" where
  "after_classify event hash existing =
     (case classify_existing_event existing hash of
        Inl e \<Rightarrow> Done (Inl e)
      | Inr (ExistingIdempotent oc) \<Rightarrow> Done (Inr oc)
      | Inr Reprocess \<Rightarrow> (case customer_id event of
            None \<Rightarrow> Done (Inl (MissingField ''customer_id''))
          | Some customer \<Rightarrow> ResolveAgain event (w_id existing) customer))"

definition begin_webhook :: "ext \<Rightarrow> PaddleWebhookEvent \<Rightarrow> byte list \<Rightarrow> db \<Rightarrow> task" where
  "begin_webhook x event raw_body d =
     (if \<not> is_handled_event_type (normalized_event_type event) then Done (Inr Ignored)
      else let hash = payload_hash x raw_body in
        case find_by_paddle_event_id (pe_event_id event) d of
          Some existing \<Rightarrow> after_classify event hash existing
        | None \<Rightarrow> (case customer_id event of
              None \<Rightarrow> Done (Inl (MissingField ''customer_id''))
            | Some customer \<Rightarrow> Resolve event hash customer))"

fun settle :: "PaddleWebhookEvent \<Rightarrow> ((WebhookError + WebhookOutcome) \<times> db) option \<Rightarrow> db \<Rightarrow> task \<times> db" where
  "settle event None d = (LostRace event, d)"
| "settle event (Some (r, d')) d = (Done r, d')"

text \<open>An insertion that violates a unique constraint sends the delivery back to look for the row.\<close>

definition insert_failed :: "PaddleWebhookEvent \<Rightarrow> string \<Rightarrow> sqlx_error \<Rightarrow> task" where
  "insert_failed event hash e =
     (if is_unique_violation e then Refind event hash e else Done (Inl (WebhookDatabase e)))"

definition insert_linked :: "PaddleWebhookEvent \<Rightarrow> string \<Rightarrow> AccountBillingRow \<Rightarrow> uuid \<Rightarrow> db \<Rightarrow> sqlx_error + db" where
  "insert_linked event hash account fresh d =
     insert_received fresh (pe_event_id event) (normalized_event_type event) hash
       (ab_account_id account) (subscription_id event) (pe_occurred_at event) d"

definition process_linked_webhook ::
  "webhook_env \<Rightarrow> PaddleWebhookEvent \<Rightarrow> string \<Rightarrow> AccountBillingRow \<Rightarrow> db \<Rightarrow> task" where
  "process_linked_webhook v event hash account d =
     (case insert_linked event hash account (we_id v) d of
        Inl e \<Rightarrow> insert_failed event hash e
      | Inr d1 \<Rightarrow> (case open_linked (we_now v) (we_id v) account event d1 of
            None \<Rightarrow> LostRace event
          | Some tx \<Rightarrow> CommitStored event hash tx))"

definition commit_linked_webhook ::
  "webhook_env \<Rightarrow> PaddleWebhookEvent \<Rightarrow> string \<Rightarrow> linked_tx \<Rightarrow> db \<Rightarrow> task \<times> db" where
  "commit_linked_webhook v event hash tx d =
     (case insert_linked event hash (tx_account tx) (tx_row tx) d of
        Inl e \<Rightarrow> (insert_failed event hash e, d)
      | Inr d1 \<Rightarrow> settle event (finish_linked (we_show v) tx event d d1) d)"

definition store_unlinked_webhook ::
  "webhook_env \<Rightarrow> PaddleWebhookEvent \<Rightarrow> string \<Rightarrow> string \<Rightarrow> db \<Rightarrow> task \<times> db" where
  "store_unlinked_webhook v event hash customer d =
     (case insert_received_unlinked (we_id v) (pe_event_id event) (normalized_event_type event) hash
         (subscription_id event) (pe_occurred_at event) d of
        Inl e \<Rightarrow> (insert_failed event hash e, d)
      | Inr d1 \<Rightarrow> settle event (finish_unlinked (we_now v) (we_link v) (we_id v) customer event d d1) d)"

definition reprocess_linked ::
  "webhook_env \<Rightarrow> PaddleWebhookEvent \<Rightarrow> uuid \<Rightarrow> AccountBillingRow \<Rightarrow> db \<Rightarrow> task" where
  "reprocess_linked v event i account d =
     (case open_linked (we_now v) i account event d of
        None \<Rightarrow> LostRace event
      | Some tx \<Rightarrow> CommitAgain event tx)"

definition commit_reprocessed :: "webhook_env \<Rightarrow> PaddleWebhookEvent \<Rightarrow> linked_tx \<Rightarrow> db \<Rightarrow> task \<times> db" where
  "commit_reprocessed v event tx d = settle event (finish_linked (we_show v) tx event d d) d"

definition reprocess_unlinked_webhook ::
  "webhook_env \<Rightarrow> PaddleWebhookEvent \<Rightarrow> uuid \<Rightarrow> string \<Rightarrow> db \<Rightarrow> task \<times> db" where
  "reprocess_unlinked_webhook v event i customer d =
     settle event (finish_unlinked (we_now v) (we_link v) i customer event d d) d"

definition resolve_lost_processing_race :: "string \<Rightarrow> db \<Rightarrow> WebhookError + WebhookOutcome" where
  "resolve_lost_processing_race pid d =
     (case find_by_paddle_event_id pid d of
        Some row \<Rightarrow> if w_status row \<in> {''processed'', ''waiting_for_account_link''} then Inr Idempotent
          else Inl InvalidStatusTransition
      | None \<Rightarrow> Inl InvalidStatusTransition)"

fun webhook_step :: "webhook_env \<Rightarrow> task \<Rightarrow> db \<Rightarrow> task \<times> db" where
  "webhook_step v (Begin event raw_body) d = (begin_webhook (we_ext v) event raw_body d, d)"
| "webhook_step v (Resolve event hash customer) d =
     (case resolve_account_by_paddle_customer customer d of
        None \<Rightarrow> StoreUnlinked event hash customer
      | Some account \<Rightarrow> StoreLinked event hash account, d)"
| "webhook_step v (StoreLinked event hash account) d = (process_linked_webhook v event hash account d, d)"
| "webhook_step v (CommitStored event hash tx) d = commit_linked_webhook v event hash tx d"
| "webhook_step v (StoreUnlinked event hash customer) d = store_unlinked_webhook v event hash customer d"
| "webhook_step v (Refind event hash e) d =
     (case find_by_paddle_event_id (pe_event_id event) d of
        Some existing \<Rightarrow> after_classify event hash existing
      | None \<Rightarrow> Done (Inl (WebhookDatabase e)), d)"
| "webhook_step v (ResolveAgain event i customer) d =
     (case resolve_account_by_paddle_customer customer d of
        None \<Rightarrow> ReUnlinked event i customer
      | Some account \<Rightarrow> ReLinked event i account, d)"
| "webhook_step v (ReLinked event i account) d = (reprocess_linked v event i account d, d)"
| "webhook_step v (CommitAgain event tx) d = commit_reprocessed v event tx d"
| "webhook_step v (ReUnlinked event i customer) d = reprocess_unlinked_webhook v event i customer d"
| "webhook_step v (LostRace event) d = (Done (resolve_lost_processing_race (pe_event_id event) d), d)"
| "webhook_step v (Done r) d = (Done r, d)"

text \<open>Every step brings a delivery closer to its end.\<close>

fun remaining :: "task \<Rightarrow> nat" where
  "remaining (Begin _ _) = 9"
| "remaining (Resolve _ _ _) = 8"
| "remaining (StoreLinked _ _ _) = 7"
| "remaining (StoreUnlinked _ _ _) = 7"
| "remaining (CommitStored _ _ _) = 6"
| "remaining (Refind _ _ _) = 5"
| "remaining (ResolveAgain _ _ _) = 4"
| "remaining (ReLinked _ _ _) = 3"
| "remaining (ReUnlinked _ _ _) = 3"
| "remaining (CommitAgain _ _) = 2"
| "remaining (LostRace _) = 1"
| "remaining (Done _) = 0"

fun outcome :: "task \<Rightarrow> (WebhookError + WebhookOutcome) option" where
  "outcome (Done r) = Some r"
| "outcome _ = None"

lemma remaining_settle: "remaining (fst (settle event m d)) \<le> 1"
  by (cases "(event, m, d)" rule: settle.cases) simp_all

lemma remaining_classify: "remaining (after_classify event hash w) \<le> 4"
  by (simp add: after_classify_def split: sum.split ExistingEventAction.split option.split)

lemma remaining_insert_failed: "remaining (insert_failed event hash e) \<le> 5"
  by (simp add: insert_failed_def)

lemma remaining_step: "outcome t = None \<Longrightarrow> remaining (fst (webhook_step v t d)) < remaining t"
proof (cases t)
  case (Begin event raw)
  then show ?thesis
    by (auto simp: begin_webhook_def Let_def split: option.split intro: le_less_trans [OF remaining_classify])
next
  case (StoreLinked event hash account)
  then show ?thesis
    by (auto simp: process_linked_webhook_def split: sum.split option.split
        intro: le_less_trans [OF remaining_insert_failed])
next
  case (CommitStored event hash tx)
  then show ?thesis
    by (auto simp: commit_linked_webhook_def split: sum.split
        intro: le_less_trans [OF remaining_settle] le_less_trans [OF remaining_insert_failed])
next
  case (StoreUnlinked event hash customer)
  then show ?thesis
    by (auto simp: store_unlinked_webhook_def split: sum.split
        intro: le_less_trans [OF remaining_settle] le_less_trans [OF remaining_insert_failed])
next
  case (Refind event hash e)
  then show ?thesis by (auto split: option.split intro: le_less_trans [OF remaining_classify])
qed (auto simp: reprocess_linked_def commit_reprocessed_def reprocess_unlinked_webhook_def split: option.split
    intro: le_less_trans [OF remaining_settle])

text \<open>One delivery on its own, and the handler.\<close>

function drive :: "webhook_env \<Rightarrow> task \<Rightarrow> db \<Rightarrow> (WebhookError + WebhookOutcome) \<times> db" where
  "drive v t d = (case outcome t of Some r \<Rightarrow> (r, d)
     | None \<Rightarrow> drive v (fst (webhook_step v t d)) (snd (webhook_step v t d)))"
  by pat_completeness auto
termination
  by (relation "measure (\<lambda>(v, t, d). remaining t)") (simp_all add: remaining_step case_prod_beta)

declare drive.simps [simp del]

definition process_paddle_webhook ::
  "webhook_env \<Rightarrow> PaddleWebhookEvent \<Rightarrow> byte list \<Rightarrow> db \<Rightarrow> (WebhookError + WebhookOutcome) \<times> db" where
  "process_paddle_webhook v event raw_body d = drive v (Begin event raw_body) d"

fun outcome_status :: "WebhookOutcome \<Rightarrow> string" where
  "outcome_status Processed = ''processed''"
| "outcome_status Idempotent = ''idempotent''"
| "outcome_status WaitingForAccountLink = ''waiting_for_account_link''"
| "outcome_status Ignored = ''ignored''"

definition map_processing_error :: "WebhookError \<Rightarrow> nat \<times> json" where
  "map_processing_error err =
     (if is_temporary err then (500, JObject [(''error'', JString ''temporary_failure'')])
      else case err of
        PayloadHashConflict \<Rightarrow> (409, JObject [(''error'', JString ''conflict'')])
      | MissingField field \<Rightarrow> (400, JObject [(''error'', JString ''invalid_payload''), (''field'', JString field)])
      | _ \<Rightarrow> (400, JObject [(''error'', JString ''invalid_payload'')]))"

text \<open>\<open>parse\<close> is \<open>serde_json\<close> on the event type.\<close>

definition webhook_handler ::
  "webhook_env \<Rightarrow> (byte list \<Rightarrow> byte list \<Rightarrow> byte list) \<Rightarrow> (byte list \<Rightarrow> PaddleWebhookEvent option) \<Rightarrow> string
    \<Rightarrow> string option \<Rightarrow> byte list \<Rightarrow> db \<Rightarrow> (nat \<times> json) \<times> db" where
  "webhook_handler v hmac parse secret signature body d =
     (let signature = (case signature of Some s \<Rightarrow> s | None \<Rightarrow> []) in
      if \<not> verify_paddle_signature (we_ext v) hmac body signature secret
      then ((401, JObject [(''error'', JString ''invalid_signature'')]), d)
      else case parse body of
          None \<Rightarrow> ((400, JObject [(''error'', JString ''invalid_payload'')]), d)
        | Some event \<Rightarrow> (case process_paddle_webhook v event body d of
            (Inr oc, d') \<Rightarrow> ((200, JObject [(''status'', JString (outcome_status oc))]), d')
          | (Inl err, d') \<Rightarrow> (map_processing_error err, d')))"

section \<open>Effects of a step\<close>

definition row_settled :: "webhook_row \<Rightarrow> bool" where
  "row_settled w \<longleftrightarrow> w_status w \<in> {''processed'', ''waiting_for_account_link''}"

text \<open>What the table holds between transactions: the two keys, and only final states.\<close>

definition webhooks_ok :: "db \<Rightarrow> bool" where
  "webhooks_ok d \<longleftrightarrow> distinct (map w_id (paddle_webhook_events d)) \<and>
     distinct (map w_paddle_event_id (paddle_webhook_events d)) \<and>
     list_all (\<lambda>w. row_settled w \<or> w_status w = ''failed'') (paddle_webhook_events d)"

fun task_event :: "task \<Rightarrow> string option" where
  "task_event (Begin event _) = Some (pe_event_id event)"
| "task_event (Resolve event _ _) = Some (pe_event_id event)"
| "task_event (StoreLinked event _ _) = Some (pe_event_id event)"
| "task_event (StoreUnlinked event _ _) = Some (pe_event_id event)"
| "task_event (CommitStored event _ _) = Some (pe_event_id event)"
| "task_event (Refind event _ _) = Some (pe_event_id event)"
| "task_event (ResolveAgain event _ _) = Some (pe_event_id event)"
| "task_event (ReLinked event _ _) = Some (pe_event_id event)"
| "task_event (CommitAgain event _) = Some (pe_event_id event)"
| "task_event (ReUnlinked event _ _) = Some (pe_event_id event)"
| "task_event (LostRace event) = Some (pe_event_id event)"
| "task_event (Done _) = None"

text \<open>A delivery that goes back to a stored row holds the id of its event's row.\<close>

definition row_key :: "webhook_row \<Rightarrow> uuid \<times> string" where
  "row_key w = (w_id w, w_paddle_event_id w)"

fun task_ok :: "task \<Rightarrow> db \<Rightarrow> bool" where
  "task_ok (ResolveAgain event i _) d = ((i, pe_event_id event) \<in> row_key ` set (paddle_webhook_events d))"
| "task_ok (ReLinked event i _) d = ((i, pe_event_id event) \<in> row_key ` set (paddle_webhook_events d))"
| "task_ok (CommitAgain event tx) d = ((tx_row tx, pe_event_id event) \<in> row_key ` set (paddle_webhook_events d))"
| "task_ok (ReUnlinked event i _) d = ((i, pe_event_id event) \<in> row_key ` set (paddle_webhook_events d))"
| "task_ok _ d = True"

definition put_row :: "webhook_row \<Rightarrow> webhook_row list \<Rightarrow> webhook_row list" where
  "put_row w rows = (if w_id w \<in> w_id ` set rows
     then update_where (\<lambda>v. w_id v = w_id w) (\<lambda>v. w) rows else rows @ [w])"

definition billing_only :: "(account_row \<Rightarrow> account_row) \<Rightarrow> bool" where
  "billing_only f \<longleftrightarrow> (\<forall>a. a_account_id (f a) = a_account_id a \<and> a_email (f a) = a_email a \<and>
     a_paddle_customer_id (f a) = a_paddle_customer_id a \<and> a_password_hash (f a) = a_password_hash a)"

text \<open>One transaction of a delivery that commits: it closes the row of its event, which was not settled,
  and touches the billing state of one account, only if it closes the row as processed.\<close>

definition webhook_effect :: "PaddleWebhookEvent \<Rightarrow> db \<Rightarrow> db \<Rightarrow> bool" where
  "webhook_effect event d d' \<longleftrightarrow> (\<exists>w A L.
     d' = d\<lparr> accounts := A, paddle_pending_links := L,
       paddle_webhook_events := put_row w (paddle_webhook_events d) \<rparr> \<and>
     w_paddle_event_id w = pe_event_id event \<and> (row_settled w \<or> w_status w = ''failed'') \<and>
     (\<forall>v\<in>set (paddle_webhook_events d). w_id v = w_id w \<or> w_paddle_event_id v = pe_event_id event \<longrightarrow>
        row_key v = row_key w \<and> \<not> row_settled v) \<and>
     (A = accounts d \<or> w_status w = ''processed'' \<and>
        (\<exists>acc f. A = update_where (\<lambda>a. a_account_id a = acc) f (accounts d) \<and> billing_only f)))"

definition close_row :: "string \<Rightarrow> string option \<Rightarrow> timestamp \<Rightarrow> webhook_row \<Rightarrow> webhook_row" where
  "close_row status msg now w = w\<lparr> w_status := status, w_processing_started_at := Some now,
     w_processed_at := Some now, w_error_message := msg \<rparr>"

lemma close_row_simps [simp]:
  "w_id (close_row s m now w) = w_id w"
  "w_paddle_event_id (close_row s m now w) = w_paddle_event_id w"
  "w_status (close_row s m now w) = s"
  "row_key (close_row s m now w) = row_key w"
  by (simp_all add: close_row_def row_key_def)

text \<open>A transaction that claims the row \<open>w\<close> and closes it leaves the closed row in its place.\<close>

definition claimed :: "webhook_row \<Rightarrow> timestamp \<Rightarrow> webhook_row" where
  "claimed w now = w\<lparr> w_status := ''processing'', w_processing_started_at := Some now \<rparr>"

lemma claim_unique:
  assumes "distinct (map w_id rows)" "w \<in> set rows" "w_status w \<in> {''received'', ''failed''}"
  shows "update_where (\<lambda>v. w_id v = w_id w \<and> w_status v \<in> {''received'', ''failed''})
      (\<lambda>v. v\<lparr> w_status := ''processing'', w_processing_started_at := Some now \<rparr>) rows =
     update_where (\<lambda>v. w_id v = w_id w) (\<lambda>v. claimed w now) rows"
  unfolding update_where_def claimed_def
  by (rule map_cong [OF HOL.refl]) (use assms(3) distinct_key_eq [OF assms(1) _ assms(2)] in auto)

lemma close_claimed:
  assumes "distinct (map w_id rows)"
  shows "update_where (\<lambda>v. w_id v = w_id w \<and> w_status v = ''processing'')
      (\<lambda>v. v\<lparr> w_status := s, w_processed_at := Some now, w_error_message := m \<rparr>)
      (update_where (\<lambda>v. w_id v = w_id w) (\<lambda>v. claimed w now) rows) =
     update_where (\<lambda>v. w_id v = w_id w) (\<lambda>v. close_row s m now w) rows"
  by (simp add: update_where_def claimed_def close_row_def)

definition claim :: "webhook_row \<Rightarrow> timestamp \<Rightarrow> db \<Rightarrow> db" where
  "claim w now d = d\<lparr> paddle_webhook_events :=
     update_where (\<lambda>v. w_id v = w_id w) (\<lambda>v. claimed w now) (paddle_webhook_events d) \<rparr>"

lemma mark_processing_claim:
  assumes "distinct (map w_id (paddle_webhook_events d))" "w \<in> set (paddle_webhook_events d)"
    "w_status w \<in> {''received'', ''failed''}"
  shows "mark_processing now (w_id w) d = (True, claim w now d)"
  using claim_unique [OF assms] assms(2,3) by (auto simp: mark_processing_def claim_def Let_def list_ex_iff)

lemma mark_done_claim:
  assumes "distinct (map w_id (paddle_webhook_events d))"
    "paddle_webhook_events d2 = paddle_webhook_events (claim w now d)"
  shows "mark_done s m now (w_id w) d2 = d2\<lparr> paddle_webhook_events :=
     update_where (\<lambda>v. w_id v = w_id w) (\<lambda>v. close_row s m now w) (paddle_webhook_events d) \<rparr>"
  using close_claimed [OF assms(1)] assms(2) by (simp add: mark_done_def claim_def)

lemma mark_processing_settled:
  assumes "distinct (map w_id (paddle_webhook_events d))" "w \<in> set (paddle_webhook_events d)"
    "w_status w \<notin> {''received'', ''failed''}"
  shows "fst (mark_processing now (w_id w) d) = False"
  using distinct_key_eq [OF assms(1) _ assms(2)] assms(3) by (auto simp: mark_processing_def Let_def list_ex_iff)

lemma filter_update_hidden:
  "(\<And>v. v \<in> set rows \<Longrightarrow> Q v \<Longrightarrow> \<not> P v) \<Longrightarrow> (\<And>v. \<not> P (f v)) \<Longrightarrow> filter P (update_where Q f rows) = filter P rows"
  by (induction rows) (simp_all add: update_where_def)

lemma skip_claim:
  assumes "distinct (map w_id (paddle_webhook_events d))" "w \<in> set (paddle_webhook_events d)"
    "w_status w \<noteq> ''processed''"
  shows "should_skip_out_of_order acc occurred (claim w now d) = should_skip_out_of_order acc occurred d"
proof -
  have "filter (\<lambda>v. w_account_id v = Some acc \<and> w_status v = ''processed'')
      (update_where (\<lambda>v. w_id v = w_id w) (\<lambda>v. claimed w now) (paddle_webhook_events d)) =
    filter (\<lambda>v. w_account_id v = Some acc \<and> w_status v = ''processed'') (paddle_webhook_events d)"
    by (rule filter_update_hidden) (use assms(3) distinct_key_eq [OF assms(1) _ assms(2)] in \<open>auto simp: claimed_def\<close>)
  then show ?thesis
    by (simp add: should_skip_out_of_order_def last_processed_occurred_at_def claim_def)
qed

lemma update_subscription_Inr:
  "update_subscription acc f d = Inr d2 \<Longrightarrow> d2 = update_account acc f d"
  by (simp add: update_subscription_def Let_def split: if_splits)

lemma apply_event_frame:
  assumes "apply_event account event d = Inr d2"
  shows "\<exists>f. billing_only f \<and> d2 = update_account (ab_account_id account) f d"
proof -
  have upd: "billing_only f \<Longrightarrow> \<exists>g. billing_only g \<and>
      update_account (ab_account_id account) f d = update_account (ab_account_id account) g d" for f by blast
  show ?thesis
    using assms
    by (auto simp: apply_event_def Let_def subscription_created_def subscription_updated_def
        subscription_past_due_def subscription_canceled_def bind_res_Inr
        billing_only_def [symmetric] dest!: update_subscription_Inr split: if_splits
        intro!: upd) (simp_all add: billing_only_def)
qed

lemma finish_linked_effect:
  assumes "distinct (map w_id (paddle_webhook_events d))" "w \<in> set (paddle_webhook_events d)"
    "w_status w \<in> {''received'', ''failed''}" "tx_row tx = w_id w"
    and "finish_linked show_sqlx tx event d0 d = res"
  obtains r where "res = Some (r, d0)"
  | r s m where "s \<in> {''processed'', ''failed''}"
      "res = Some (r, d\<lparr> paddle_webhook_events := update_where (\<lambda>v. w_id v = w_id w)
        (\<lambda>v. close_row s m (tx_now tx) w) (paddle_webhook_events d) \<rparr>)"
  | m f where "billing_only f" "\<not> tx_skip tx"
      "res = Some (Inr Processed, d\<lparr>
         accounts := update_where (\<lambda>a. a_account_id a = ab_account_id (tx_account tx)) f (accounts d),
         paddle_webhook_events := update_where (\<lambda>v. w_id v = w_id w)
           (\<lambda>v. close_row ''processed'' m (tx_now tx) w) (paddle_webhook_events d) \<rparr>)"
proof -
  define now where "now = tx_now tx"
  note mp = mark_processing_claim [OF assms(1-3)] and done_row = mark_done_claim [OF assms(1)]
  have d1: "(claim w now d)\<lparr> paddle_webhook_events := W \<rparr> = d\<lparr> paddle_webhook_events := W \<rparr>" for W
    by (simp add: claim_def)
  show thesis
  proof (cases "tx_skip tx")
    case True
    then show thesis
      using assms(5) that(2) [of "''processed''" "Inr Processed" None]
      by (auto simp: finish_linked_def assms(4) mp mark_processed_def done_row d1 now_def [symmetric])
  next
    case no_skip: False
    show thesis
    proof (cases "apply_event (tx_account tx) event (claim w now d)")
      case (Inl e)
      then show thesis
        using assms(5) no_skip that(1) [of "Inl e"] that(2) [of "''failed''" "Inl e" "Some (debug_error show_sqlx e)"]
        by (cases "aborts_transaction e")
          (auto simp: finish_linked_def assms(4) mp mark_failed_def done_row d1 now_def [symmetric])
    next
      case (Inr d2)
      obtain f where f: "billing_only f" "d2 = update_account (ab_account_id (tx_account tx)) f (claim w now d)"
        using apply_event_frame [OF Inr] by blast
      have same: "paddle_webhook_events d2 = paddle_webhook_events (claim w now d)"
        by (simp add: f(2) update_account_def)
      have "res = Some (Inr Processed, mark_done ''processed'' None now (w_id w) d2)"
        using assms(5) no_skip
        by (simp add: finish_linked_def assms(4) mp mark_processed_def Inr now_def [symmetric])
      moreover have "mark_done ''processed'' None now (w_id w) d2 =
          d\<lparr> accounts := update_where (\<lambda>a. a_account_id a = ab_account_id (tx_account tx)) f (accounts d),
            paddle_webhook_events := update_where (\<lambda>v. w_id v = w_id w) (\<lambda>v. close_row ''processed'' None now w)
              (paddle_webhook_events d) \<rparr>"
        unfolding done_row [OF same] by (simp add: f(2) update_account_def claim_def)
      ultimately show thesis using f(1) no_skip that(3) [of f None] by (simp add: now_def)
    qed
  qed
qed

lemma finish_unlinked_effect:
  assumes "distinct (map w_id (paddle_webhook_events d))" "w \<in> set (paddle_webhook_events d)"
    "w_status w \<in> {''received'', ''failed''}"
    and "finish_unlinked now link (w_id w) customer event d0 d = res"
  obtains r where "res = Some (r, d0)"
  | L where "res = Some (Inr WaitingForAccountLink, d\<lparr> paddle_pending_links := L, paddle_webhook_events :=
        update_where (\<lambda>v. w_id v = w_id w) (\<lambda>v. close_row ''waiting_for_account_link'' None now w)
        (paddle_webhook_events d) \<rparr>)"
proof (cases "insert_pending_link now link customer (case customer_email event of Some m \<Rightarrow> m | None \<Rightarrow> []) (claim w now d)")
  case (Inl e)
  with assms(4) that(1) show thesis by (auto simp: finish_unlinked_def mark_processing_claim [OF assms(1-3)])
next
  case (Inr d2)
  then obtain L where L: "d2 = (claim w now d)\<lparr> paddle_pending_links := L \<rparr>"
    by (auto simp: insert_pending_link_def split: if_splits)
  then have "paddle_webhook_events d2 = paddle_webhook_events (claim w now d)" by simp
  from mark_done_claim [OF assms(1) this, where s = "''waiting_for_account_link''" and m = None] show thesis
    using assms(4) that(2) [of L] Inr L
    by (simp add: finish_unlinked_def mark_processing_claim [OF assms(1-3)] mark_waiting_for_account_link_def claim_def)
qed

text \<open>Both ways into the transaction start from the table with the row \<open>w\<close> put into it.\<close>

definition claimable :: "PaddleWebhookEvent \<Rightarrow> webhook_row \<Rightarrow> db \<Rightarrow> bool" where
  "claimable event w d \<longleftrightarrow> w_paddle_event_id w = pe_event_id event \<and> w_status w \<in> {''received'', ''failed''} \<and>
     (\<forall>v\<in>set (paddle_webhook_events d). w_id v = w_id w \<or> w_paddle_event_id v = pe_event_id event \<longrightarrow>
        row_key v = row_key w \<and> \<not> row_settled v)"

lemma put_row_facts:
  assumes "distinct (map w_id rows)"
  shows "distinct (map w_id (put_row w rows))" "w \<in> set (put_row w rows)"
    "w_id c = w_id w \<Longrightarrow> update_where (\<lambda>v. w_id v = w_id w) (\<lambda>v. c) (put_row w rows) = put_row c rows"
proof -
  have "map w_id (update_where (\<lambda>v. w_id v = w_id w) (\<lambda>v. w) rows) = map w_id rows"
    by (simp add: update_where_def)
  with assms show "distinct (map w_id (put_row w rows))" by (auto simp: put_row_def)
  show "w \<in> set (put_row w rows)" by (auto simp: put_row_def set_update_where)
  assume "w_id c = w_id w"
  moreover have "w_id w \<notin> w_id ` set rows \<Longrightarrow> update_where (\<lambda>v. w_id v = w_id w) (\<lambda>v. c) rows = rows"
    by (rule update_where_id) (metis image_eqI)
  ultimately show "update_where (\<lambda>v. w_id v = w_id w) (\<lambda>v. c) (put_row w rows) = put_row c rows"
    by (auto simp: put_row_def update_where_def)
qed

lemma skip_put:
  assumes "\<And>v. v \<in> set (paddle_webhook_events d) \<Longrightarrow> w_id v = w_id w \<Longrightarrow> \<not> row_settled v" "w_status w \<noteq> ''processed''"
  shows "should_skip_out_of_order acc occurred (d\<lparr> paddle_webhook_events := put_row w (paddle_webhook_events d) \<rparr>) =
     should_skip_out_of_order acc occurred d"
proof -
  have "filter (\<lambda>v. w_account_id v = Some acc \<and> w_status v = ''processed'')
      (update_where (\<lambda>v. w_id v = w_id w) (\<lambda>v. w) (paddle_webhook_events d)) =
    filter (\<lambda>v. w_account_id v = Some acc \<and> w_status v = ''processed'') (paddle_webhook_events d)"
    by (rule filter_update_hidden) (use assms in \<open>auto simp: row_settled_def\<close>)
  then show ?thesis
    using assms(2) by (simp add: should_skip_out_of_order_def last_processed_occurred_at_def put_row_def)
qed

lemma finish_linked_webhook:
  assumes "webhooks_ok d" "claimable event w d" "tx_row tx = w_id w"
    and "settle event (finish_linked show_sqlx tx event d
      (d\<lparr> paddle_webhook_events := put_row w (paddle_webhook_events d) \<rparr>)) d = (t, d')"
  shows "d' = d \<or> webhook_effect event d d'"
proof -
  define dw where "dw = d\<lparr> paddle_webhook_events := put_row w (paddle_webhook_events d) \<rparr>"
  define now where "now = tx_now tx"
  have ids: "distinct (map w_id (paddle_webhook_events d))" using assms(1) by (simp add: webhooks_ok_def)
  note put = put_row_facts [OF ids]
  have dw: "distinct (map w_id (paddle_webhook_events dw))" "w \<in> set (paddle_webhook_events dw)"
    using put(1,2) by (simp_all add: dw_def)
  have c: "w_status w \<in> {''received'', ''failed''}" "w_paddle_event_id w = pe_event_id event"
    "\<And>v. v \<in> set (paddle_webhook_events d) \<Longrightarrow> w_id v = w_id w \<or> w_paddle_event_id v = pe_event_id event \<Longrightarrow>
       row_key v = row_key w \<and> \<not> row_settled v"
    using assms(2) by (auto simp: claimable_def)
  have closed: "update_where (\<lambda>v. w_id v = w_id w) (\<lambda>v. close_row s m now w) (paddle_webhook_events dw) =
      put_row (close_row s m now w) (paddle_webhook_events d)" for s m
    using put(3) [of "close_row s m now w" w] by (simp add: dw_def)
  note eff = assms(4) [folded dw_def]
  show ?thesis
  proof (rule finish_linked_effect [OF dw c(1) assms(3) HOL.refl, of show_sqlx event d, folded now_def])
    fix r
    assume "finish_linked show_sqlx tx event d dw = Some (r, d)"
    then show ?thesis using eff by simp
  next
    fix r s m
    assume s: "s \<in> {''processed'', ''failed''}" and "finish_linked show_sqlx tx event d dw =
      Some (r, dw\<lparr> paddle_webhook_events := update_where (\<lambda>v. w_id v = w_id w) (\<lambda>v. close_row s m now w)
        (paddle_webhook_events dw) \<rparr>)"
    then have "d' = d\<lparr> paddle_webhook_events := put_row (close_row s m now w) (paddle_webhook_events d) \<rparr>"
      using eff by (simp add: closed) (simp add: dw_def)
    then have "webhook_effect event d d'"
      unfolding webhook_effect_def using c s
      by (intro exI [of _ "close_row s m now w"] exI [of _ "accounts d"] exI [of _ "paddle_pending_links d"])
        (auto simp: row_settled_def)
    then show ?thesis ..
  next
    fix m f
    assume f: "billing_only f"
      and "finish_linked show_sqlx tx event d dw =
      Some (Inr Processed, dw\<lparr>
        accounts := update_where (\<lambda>a. a_account_id a = ab_account_id (tx_account tx)) f (accounts dw),
        paddle_webhook_events := update_where (\<lambda>v. w_id v = w_id w) (\<lambda>v. close_row ''processed'' m now w)
        (paddle_webhook_events dw) \<rparr>)"
    then have "d' = d\<lparr> accounts := update_where (\<lambda>a. a_account_id a = ab_account_id (tx_account tx)) f (accounts d),
        paddle_webhook_events := put_row (close_row ''processed'' m now w) (paddle_webhook_events d) \<rparr>"
      using eff by (simp add: closed) (simp add: dw_def)
    then have "webhook_effect event d d'"
      unfolding webhook_effect_def using c f
      by (intro exI [of _ "close_row ''processed'' m now w"]
          exI [of _ "update_where (\<lambda>a. a_account_id a = ab_account_id (tx_account tx)) f (accounts d)"]
          exI [of _ "paddle_pending_links d"])
        (auto simp: row_settled_def)
    then show ?thesis ..
  qed
qed

lemma finish_unlinked_webhook:
  assumes "webhooks_ok d" "claimable event w d"
    and "settle event (finish_unlinked now link (w_id w) customer event d
      (d\<lparr> paddle_webhook_events := put_row w (paddle_webhook_events d) \<rparr>)) d = (t, d')"
  shows "d' = d \<or> webhook_effect event d d'"
proof -
  define dw where "dw = d\<lparr> paddle_webhook_events := put_row w (paddle_webhook_events d) \<rparr>"
  have ids: "distinct (map w_id (paddle_webhook_events d))" using assms(1) by (simp add: webhooks_ok_def)
  note put = put_row_facts [OF ids]
  have dw: "distinct (map w_id (paddle_webhook_events dw))" "w \<in> set (paddle_webhook_events dw)"
    using put(1,2) by (simp_all add: dw_def)
  have c: "w_status w \<in> {''received'', ''failed''}" using assms(2) by (simp add: claimable_def)
  note eff = assms(3) [folded dw_def]
  show ?thesis
  proof (rule finish_unlinked_effect [OF dw c HOL.refl, of now link customer event d])
    fix r
    assume "finish_unlinked now link (w_id w) customer event d dw = Some (r, d)"
    then show ?thesis using eff by simp
  next
    fix L
    assume "finish_unlinked now link (w_id w) customer event d dw = Some (Inr WaitingForAccountLink,
      dw\<lparr> paddle_pending_links := L, paddle_webhook_events := update_where (\<lambda>v. w_id v = w_id w)
        (\<lambda>v. close_row ''waiting_for_account_link'' None now w) (paddle_webhook_events dw) \<rparr>)"
    then have "d' = d\<lparr> paddle_pending_links := L, paddle_webhook_events :=
        put_row (close_row ''waiting_for_account_link'' None now w) (paddle_webhook_events d) \<rparr>"
      using eff put(3) [of "close_row ''waiting_for_account_link'' None now w" w] by (simp add: dw_def)
    then have "webhook_effect event d d'"
      unfolding webhook_effect_def using assms(2)
      by (intro exI [of _ "close_row ''waiting_for_account_link'' None now w"] exI [of _ "accounts d"] exI [of _ L])
        (auto simp: row_settled_def claimable_def)
    then show ?thesis ..
  qed
qed

lemma put_row_same:
  assumes "distinct (map w_id rows)" "w \<in> set rows"
  shows "put_row w rows = rows"
proof -
  have "w = v" if "v \<in> set rows" "w_id v = w_id w" for v
    using distinct_key_eq [OF assms(1) that(1) assms(2) that(2)] by (rule sym)
  then show ?thesis using assms(2) by (auto simp: put_row_def update_where_def intro!: map_idI)
qed

lemma key_row:
  assumes "webhooks_ok d" "w \<in> set (paddle_webhook_events d)" "v \<in> set (paddle_webhook_events d)"
    "w_id v = w_id w \<or> w_paddle_event_id v = w_paddle_event_id w"
  shows "v = w"
proof -
  have d: "distinct (map w_id (paddle_webhook_events d))" "distinct (map w_paddle_event_id (paddle_webhook_events d))"
    using assms(1) by (simp_all add: webhooks_ok_def)
  show ?thesis
    using assms(4) distinct_key_eq [OF d(1) assms(3,2)] distinct_key_eq [OF d(2) assms(3,2)] by blast
qed

text \<open>Going back to a stored row: it is settled and nothing happens, or it can be claimed.\<close>

lemma stored_row:
  assumes "webhooks_ok d" "(i, pe_event_id event) \<in> row_key ` set (paddle_webhook_events d)"
  obtains "\<And>now. fst (mark_processing now i d) = False"
  | w where "w_id w = i" "claimable event w d" "put_row w (paddle_webhook_events d) = paddle_webhook_events d"
proof -
  obtain w where w: "w \<in> set (paddle_webhook_events d)" "w_id w = i" "w_paddle_event_id w = pe_event_id event"
    using assms(2) by (auto simp: row_key_def)
  have ids: "distinct (map w_id (paddle_webhook_events d))" using assms(1) by (simp add: webhooks_ok_def)
  show thesis
  proof (cases "w_status w \<in> {''received'', ''failed''}")
    case True
    then have "\<not> row_settled w" by (auto simp: row_settled_def)
    moreover have "x = w" if "x \<in> set (paddle_webhook_events d)" "w_id x = w_id w \<or> w_paddle_event_id x = pe_event_id event" for x
      using key_row [OF assms(1) w(1) that(1)] that(2) w(3) by simp
    ultimately have "claimable event w d" using w(3) True unfolding claimable_def by blast
    then show thesis using that(2) w(2) put_row_same [OF ids w(1)] by blast
  next
    case False
    then show thesis using that(1) mark_processing_settled [OF ids w(1)] w(2) by blast
  qed
qed

lemma fresh_row:
  assumes "insert_webhook w d = Inr d1" "w_status w = ''received''" "w_paddle_event_id w = pe_event_id event"
  shows "claimable event w d" "d1 = d\<lparr> paddle_webhook_events := put_row w (paddle_webhook_events d) \<rparr>"
proof -
  have new: "w_id w \<notin> w_id ` set (paddle_webhook_events d)"
    "w_paddle_event_id w \<notin> w_paddle_event_id ` set (paddle_webhook_events d)"
    "d1 = d\<lparr> paddle_webhook_events := paddle_webhook_events d @ [w] \<rparr>"
    using assms(1) by (auto simp: insert_webhook_def split: if_splits)
  have "w_id v \<noteq> w_id w \<and> w_paddle_event_id v \<noteq> pe_event_id event" if "v \<in> set (paddle_webhook_events d)" for v
    using that new(1,2) assms(3) by (metis image_eqI)
  then show "claimable event w d" using assms(2,3) by (auto simp: claimable_def)
  show "d1 = d\<lparr> paddle_webhook_events := put_row w (paddle_webhook_events d) \<rparr>"
    using new(1,3) by (simp add: put_row_def)
qed

lemma received_row_simps [simp]:
  "w_id (received_row i pid ty h acc sub oc) = i"
  "w_paddle_event_id (received_row i pid ty h acc sub oc) = pid"
  "w_status (received_row i pid ty h acc sub oc) = ''received''"
  "w_payload_hash (received_row i pid ty h acc sub oc) = h"
  by (simp_all add: received_row_def)

lemma open_linked_Some:
  assumes "open_linked now i account event d = Some tx"
  shows "tx_row tx = i" "tx_now tx = now" "tx_account tx = account"
    "tx_skip tx = should_skip_out_of_order (ab_account_id account) (pe_occurred_at event) (snd (mark_processing now i d))"
    "fst (mark_processing now i d)"
  using assms by (auto simp: open_linked_def split: prod.splits bool.splits)

lemma webhook_step_effect:
  assumes "webhooks_ok d" "task_ok t d" "webhook_step v t d = (t', d')"
  shows "d' = d \<or> (\<exists>event. task_event t = Some (pe_event_id event) \<and> webhook_effect event d d')"
proof (cases t)
  case (CommitStored event hash tx)
  show ?thesis
  proof (cases "insert_linked event hash (tx_account tx) (tx_row tx) d")
    case (Inl e)
    then show ?thesis using assms(3) by (simp add: CommitStored commit_linked_webhook_def)
  next
    case (Inr d1)
    note fresh = fresh_row [OF Inr [unfolded insert_linked_def insert_received_def], of event]
    have "settle event (finish_linked (we_show v) tx event d d1) d = (t', d')"
      using assms(3) Inr by (simp add: CommitStored commit_linked_webhook_def)
    then have "d' = d \<or> webhook_effect event d d'"
      using finish_linked_webhook [OF assms(1) fresh(1)] fresh(2) by simp
    then show ?thesis using CommitStored by auto
  qed
next
  case (StoreUnlinked event hash customer)
  show ?thesis
  proof (cases "insert_received_unlinked (we_id v) (pe_event_id event) (normalized_event_type event) hash
      (subscription_id event) (pe_occurred_at event) d")
    case (Inl e)
    then show ?thesis using assms(3) by (simp add: StoreUnlinked store_unlinked_webhook_def)
  next
    case (Inr d1)
    note fresh = fresh_row [OF Inr [unfolded insert_received_unlinked_def], of event]
    have "settle event (finish_unlinked (we_now v) (we_link v) (we_id v) customer event d d1) d = (t', d')"
      using assms(3) Inr by (simp add: StoreUnlinked store_unlinked_webhook_def)
    then have "d' = d \<or> webhook_effect event d d'"
      using finish_unlinked_webhook [OF assms(1) fresh(1)] fresh(2) by simp
    then show ?thesis using StoreUnlinked by auto
  qed
next
  case (CommitAgain event tx)
  have key: "(tx_row tx, pe_event_id event) \<in> row_key ` set (paddle_webhook_events d)"
    using assms(2) CommitAgain by simp
  show ?thesis
  proof (rule stored_row [OF assms(1) key])
    assume "\<And>now. fst (mark_processing now (tx_row tx) d) = False"
    then have "finish_linked (we_show v) tx event d d = None"
      by (cases "mark_processing (tx_now tx) (tx_row tx) d") (simp add: finish_linked_def split: bool.split, metis fst_conv)
    then show ?thesis using assms(3) by (simp add: CommitAgain commit_reprocessed_def)
  next
    fix w
    assume w: "w_id w = tx_row tx" "claimable event w d" "put_row w (paddle_webhook_events d) = paddle_webhook_events d"
    then have "settle event (finish_linked (we_show v) tx event d
        (d\<lparr> paddle_webhook_events := put_row w (paddle_webhook_events d) \<rparr>)) d = (t', d')"
      using assms(3) by (simp add: CommitAgain commit_reprocessed_def)
    from finish_linked_webhook [OF assms(1) w(2) w(1) [symmetric] this] show ?thesis using CommitAgain by auto
  qed
next
  case (ReUnlinked event i customer)
  have key: "(i, pe_event_id event) \<in> row_key ` set (paddle_webhook_events d)" using assms(2) ReUnlinked by simp
  show ?thesis
  proof (rule stored_row [OF assms(1) key])
    assume "\<And>now. fst (mark_processing now i d) = False"
    then have "finish_unlinked (we_now v) (we_link v) i customer event d d = None"
      by (cases "mark_processing (we_now v) i d") (simp add: finish_unlinked_def split: bool.split, metis fst_conv)
    then show ?thesis using assms(3) by (simp add: ReUnlinked reprocess_unlinked_webhook_def)
  next
    fix w
    assume w: "w_id w = i" "claimable event w d" "put_row w (paddle_webhook_events d) = paddle_webhook_events d"
    then have "settle event (finish_unlinked (we_now v) (we_link v) (w_id w) customer event d
        (d\<lparr> paddle_webhook_events := put_row w (paddle_webhook_events d) \<rparr>)) d = (t', d')"
      using assms(3) by (simp add: ReUnlinked reprocess_unlinked_webhook_def)
    from finish_unlinked_webhook [OF assms(1) w(2) this] show ?thesis using ReUnlinked by auto
  qed
qed (use assms(3) in auto)

section \<open>What every step keeps\<close>

lemma put_row_cases:
  assumes "distinct (map w_id rows)" "distinct (map w_paddle_event_id rows)"
    and "\<And>v. v \<in> set rows \<Longrightarrow> w_id v = w_id w \<or> w_paddle_event_id v = w_paddle_event_id w \<Longrightarrow> row_key v = row_key w \<and> \<not> row_settled v"
  shows "map row_key (put_row w rows) = map row_key rows \<and> row_key w \<in> row_key ` set rows \<or>
     put_row w rows = rows @ [w] \<and> w_id w \<notin> w_id ` set rows \<and> w_paddle_event_id w \<notin> w_paddle_event_id ` set rows"
proof (cases "w_id w \<in> w_id ` set rows")
  case True
  then obtain v where "v \<in> set rows" "w_id v = w_id w" by auto
  then have "row_key w \<in> row_key ` set rows" using assms(3) [of v] by (metis image_eqI)
  moreover have "map row_key (put_row w rows) = map row_key rows"
    using True assms(3) by (simp add: put_row_def update_where_def)
  ultimately show ?thesis by blast
next
  case False
  have "w_paddle_event_id w \<notin> w_paddle_event_id ` set rows"
  proof
    assume "w_paddle_event_id w \<in> w_paddle_event_id ` set rows"
    then obtain v where v: "v \<in> set rows" "w_paddle_event_id v = w_paddle_event_id w" by auto
    then have "w_id v = w_id w" using assms(3) [of v] by (simp add: row_key_def)
    then show False using v(1) False by (metis image_eqI)
  qed
  with False show ?thesis by (simp add: put_row_def)
qed

lemma map_row_key: "map w_id rows = map fst (map row_key rows)" "map w_paddle_event_id rows = map snd (map row_key rows)"
  by (simp_all add: row_key_def)

lemma in_put_row: "v \<in> set (put_row w rows) \<Longrightarrow> v = w \<or> v \<in> set rows"
  by (auto simp: put_row_def set_update_where split: if_splits)

lemma put_row_keeps: "v \<in> set rows \<Longrightarrow> w_id v \<noteq> w_id w \<Longrightarrow> v \<in> set (put_row w rows)"
  by (auto simp: put_row_def set_update_where image_iff)

text \<open>What deliveries never undo: settled rows, and the keys of the table.\<close>

definition webhooks_grow :: "db \<Rightarrow> db \<Rightarrow> bool" where
  "webhooks_grow d d' \<longleftrightarrow>
     (\<forall>w\<in>set (paddle_webhook_events d). row_settled w \<longrightarrow> w \<in> set (paddle_webhook_events d')) \<and>
     row_key ` set (paddle_webhook_events d) \<subseteq> row_key ` set (paddle_webhook_events d')"

lemma webhooks_grow_refl: "webhooks_grow d d"
  by (simp add: webhooks_grow_def)

lemma webhooks_grow_trans: "webhooks_grow d e \<Longrightarrow> webhooks_grow e f \<Longrightarrow> webhooks_grow d f"
  unfolding webhooks_grow_def by blast

lemma webhook_effect_keeps:
  assumes "webhooks_ok d" "webhook_effect event d d'"
  shows "webhooks_ok d'" "webhooks_grow d d'"
proof -
  obtain w A L where d': "d' = d\<lparr> accounts := A, paddle_pending_links := L,
      paddle_webhook_events := put_row w (paddle_webhook_events d) \<rparr>"
    and w: "w_paddle_event_id w = pe_event_id event" "row_settled w \<or> w_status w = ''failed''"
    and free: "\<And>v. v \<in> set (paddle_webhook_events d) \<Longrightarrow> w_id v = w_id w \<or> w_paddle_event_id v = pe_event_id event \<Longrightarrow>
        row_key v = row_key w \<and> \<not> row_settled v"
    using assms(2) unfolding webhook_effect_def by blast
  have ok: "distinct (map w_id (paddle_webhook_events d))" "distinct (map w_paddle_event_id (paddle_webhook_events d))"
    "\<And>v. v \<in> set (paddle_webhook_events d) \<Longrightarrow> row_settled v \<or> w_status v = ''failed''"
    using assms(1) by (auto simp: webhooks_ok_def list_all_iff)
  have cases: "map row_key (put_row w (paddle_webhook_events d)) = map row_key (paddle_webhook_events d) \<and>
      row_key w \<in> row_key ` set (paddle_webhook_events d) \<or>
     put_row w (paddle_webhook_events d) = paddle_webhook_events d @ [w] \<and>
      w_id w \<notin> w_id ` set (paddle_webhook_events d) \<and>
      w_paddle_event_id w \<notin> w_paddle_event_id ` set (paddle_webhook_events d)"
  proof (rule put_row_cases [OF ok(1,2)])
    fix v
    assume "v \<in> set (paddle_webhook_events d)" "w_id v = w_id w \<or> w_paddle_event_id v = w_paddle_event_id w"
    then show "row_key v = row_key w \<and> \<not> row_settled v" using free [of v] w(1) by simp
  qed
  have "distinct (map w_id (put_row w (paddle_webhook_events d))) \<and>
    distinct (map w_paddle_event_id (put_row w (paddle_webhook_events d)))"
    using cases
  proof
    assume "map row_key (put_row w (paddle_webhook_events d)) = map row_key (paddle_webhook_events d) \<and>
      row_key w \<in> row_key ` set (paddle_webhook_events d)"
    then have "map w_id (put_row w (paddle_webhook_events d)) = map w_id (paddle_webhook_events d)"
      "map w_paddle_event_id (put_row w (paddle_webhook_events d)) = map w_paddle_event_id (paddle_webhook_events d)"
      by (simp_all only: map_row_key)
    with ok(1,2) show ?thesis by simp
  qed (use ok(1,2) in simp)
  moreover have "row_settled v \<or> w_status v = ''failed''" if "v \<in> set (put_row w (paddle_webhook_events d))" for v
    using in_put_row [OF that] w(2) ok(3) by blast
  ultimately show "webhooks_ok d'" by (simp add: d' webhooks_ok_def list_all_iff)
  have "row_key ` set (paddle_webhook_events d) \<subseteq> row_key ` set (put_row w (paddle_webhook_events d))"
    using cases by (metis (no_types) set_append image_mono Un_upper1 list.set_map order_refl)
  moreover have "v \<in> set (put_row w (paddle_webhook_events d))"
    if "v \<in> set (paddle_webhook_events d)" "row_settled v" for v
    using that put_row_keeps free by blast
  ultimately show "webhooks_grow d d'" by (simp add: d' webhooks_grow_def)
qed

lemma webhook_step_keeps:
  assumes "webhooks_ok d" "task_ok t d"
  shows "webhooks_ok (snd (webhook_step v t d))" "webhooks_grow d (snd (webhook_step v t d))"
proof -
  have "webhook_step v t d = (fst (webhook_step v t d), snd (webhook_step v t d))" by simp
  from webhook_step_effect [OF assms this]
  have "snd (webhook_step v t d) = d \<or> (\<exists>event. webhook_effect event d (snd (webhook_step v t d)))" by blast
  then show "webhooks_ok (snd (webhook_step v t d))" "webhooks_grow d (snd (webhook_step v t d))"
    using webhook_effect_keeps [OF assms(1)] webhooks_grow_refl assms(1) by (metis, metis)
qed

text \<open>A step on an event whose row is settled changes nothing.\<close>

definition event_settled :: "string \<Rightarrow> db \<Rightarrow> bool" where
  "event_settled pid d \<longleftrightarrow> list_ex (\<lambda>w. w_paddle_event_id w = pid \<and> row_settled w) (paddle_webhook_events d)"

lemma effect_unsettled:
  assumes "webhook_effect event d d'" "v \<in> set (paddle_webhook_events d)" "w_paddle_event_id v = pe_event_id event"
  shows "\<not> row_settled v"
proof -
  obtain w where "\<forall>v\<in>set (paddle_webhook_events d). w_id v = w_id w \<or> w_paddle_event_id v = pe_event_id event \<longrightarrow>
        row_key v = row_key w \<and> \<not> row_settled v"
    using assms(1) unfolding webhook_effect_def by (elim exE conjE)
  with assms(2,3) show ?thesis by simp
qed

lemma settled_step:
  assumes "webhooks_ok d" "task_ok t d" "task_event t = Some pid" "event_settled pid d"
  shows "snd (webhook_step v t d) = d"
proof -
  obtain w where w: "w \<in> set (paddle_webhook_events d)" "w_paddle_event_id w = pid" "row_settled w"
    using assms(4) by (auto simp: event_settled_def list_ex_iff)
  have no: False if "webhook_effect event d d'" "pe_event_id event = pid" for event d'
    using effect_unsettled [OF that(1) w(1)] w(2,3) that(2) by simp
  have "webhook_step v t d = (fst (webhook_step v t d), snd (webhook_step v t d))" by simp
  from webhook_step_effect [OF assms(1,2) this] show ?thesis
  proof
    assume "\<exists>event. task_event t = Some (pe_event_id event) \<and> webhook_effect event d (snd (webhook_step v t d))"
    then show ?thesis using no assms(3) by auto
  qed
qed

lemma settled_grows: "event_settled pid d \<Longrightarrow> webhooks_grow d d' \<Longrightarrow> event_settled pid d'"
  unfolding event_settled_def webhooks_grow_def list_ex_iff by blast

text \<open>The task a delivery goes on with is in order too, and stays so while others run.\<close>

lemma find_webhook: "find_by_paddle_event_id pid d = Some w \<Longrightarrow> w \<in> set (paddle_webhook_events d) \<and> w_paddle_event_id w = pid"
  unfolding find_by_paddle_event_id_def by (drule find_SomeD) simp

lemma task_ok_grows: "task_ok t d \<Longrightarrow> webhooks_grow d d' \<Longrightarrow> task_ok t d'"
  by (cases t) (auto simp: webhooks_grow_def)

lemma after_classify_ok:
  assumes "find_by_paddle_event_id (pe_event_id event) d = Some w"
  shows "task_ok (after_classify event hash w) d" "task_event (after_classify event hash w) \<in> {None, Some (pe_event_id event)}"
  using find_webhook [OF assms]
  by (auto simp: after_classify_def row_key_def image_iff split: sum.split ExistingEventAction.split option.split)

lemma settle_ok: "task_ok (fst (settle event m d)) d'" "task_event (fst (settle event m d)) \<in> {None, Some (pe_event_id event)}"
  by (cases "(event, m, d)" rule: settle.cases; simp)+

lemma insert_failed_ok: "task_ok (insert_failed event hash e) d" "task_event (insert_failed event hash e) \<in> {None, Some (pe_event_id event)}"
  by (simp_all add: insert_failed_def)

lemma begin_webhook_ok:
  "task_ok (begin_webhook x event raw d) d" "task_event (begin_webhook x event raw d) \<in> {None, Some (pe_event_id event)}"
  using after_classify_ok [of event d _ "payload_hash x raw"]
  by (auto simp: begin_webhook_def Let_def split: option.split)

lemma webhook_step_task:
  assumes "webhooks_ok d" "task_ok t d"
  shows "task_ok (fst (webhook_step v t d)) (snd (webhook_step v t d))"
    "task_event (fst (webhook_step v t d)) \<in> {None, task_event t}"
proof -
  have "task_ok (fst (webhook_step v t d)) (snd (webhook_step v t d)) \<and>
    task_event (fst (webhook_step v t d)) \<in> {None, task_event t}"
  proof (cases t)
    case (Begin event raw)
    then show ?thesis using begin_webhook_ok by simp
  next
    case (StoreLinked event hash account)
    then show ?thesis
      using insert_failed_ok by (simp add: process_linked_webhook_def split: sum.split option.split)
  next
    case (CommitStored event hash tx)
    then show ?thesis
      using settle_ok insert_failed_ok by (simp add: commit_linked_webhook_def split: sum.split)
  next
    case (StoreUnlinked event hash customer)
    then show ?thesis
      using settle_ok insert_failed_ok by (simp add: store_unlinked_webhook_def split: sum.split)
  next
    case (Refind event hash e)
    then show ?thesis using after_classify_ok [of event d _ hash] by (auto split: option.split)
  next
    case (ReLinked event i account)
    then show ?thesis
      using assms(2) by (auto simp: reprocess_linked_def split: option.split dest: open_linked_Some)
  next
    case (CommitAgain event tx)
    then show ?thesis using settle_ok by (simp add: commit_reprocessed_def)
  next
    case (ReUnlinked event i customer)
    then show ?thesis using settle_ok by (simp add: reprocess_unlinked_webhook_def)
  qed (use assms(2) in \<open>auto split: option.split\<close>)
  then show "task_ok (fst (webhook_step v t d)) (snd (webhook_step v t d))"
    "task_event (fst (webhook_step v t d)) \<in> {None, task_event t}" by blast+
qed

end
