(* ===== verification/Credentials.thy ===== *)
theory Credentials
  imports Errors Database
begin

text \<open>
  What a request authenticates with: API keys (\<open>src/auth/api_key.rs\<close>), desktop tokens
  (\<open>src/auth/desktop_token.rs\<close>, \<open>src/service/desktop_tokens.rs\<close>), sessions
  (\<open>src/auth/session_store.rs\<close>, \<open>src/middleware/session_auth.rs\<close>), and the resolution of the
  headers to an account (\<open>src/auth/mod.rs\<close>, \<open>src/api/v1/auth.rs\<close>).  Random bytes are arguments.
\<close>

section \<open>API keys\<close>

definition api_key_prefix :: string where
  "api_key_prefix = ''ev_''"

definition legacy_key_prefix_stored :: string where
  "legacy_key_prefix_stored = ''legacy:no-prefix''"

definition legacy_key_prefix_stored_v1 :: string where
  "legacy_key_prefix_stored_v1 = ''ev_legacy''"

text \<open>The label has an em dash (UTF-8), the display prefix an ellipsis.\<close>

definition legacy_key_prefix_display :: string where
  "legacy_key_prefix_display =
     ''legacy key '' @ map char_of [0xE2 :: nat, 0x80, 0x94] @ '' prefix unavailable''"

record GeneratedApiKey =
  g_full_key :: string
  g_key_hash :: string
  g_key_prefix :: string

definition hash_secret_hex :: "ext \<Rightarrow> string \<Rightarrow> string" where
  "hash_secret_hex x secret = sha_hex x (str_bytes secret)"

text \<open>The key is ASCII, so \<open>chars().take(8)\<close> takes bytes.\<close>

definition display_prefix :: "string \<Rightarrow> string" where
  "display_prefix full_key = take 8 full_key @ map char_of [0xE2 :: nat, 0x80, 0xA6]"

definition build_from_secret :: "ext \<Rightarrow> string \<Rightarrow> GeneratedApiKey" where
  "build_from_secret x secret = (let full_key = api_key_prefix @ secret in
     \<lparr> g_full_key = full_key, g_key_hash = hash_secret_hex x secret, g_key_prefix = display_prefix full_key \<rparr>)"

definition generate_api_key :: "ext \<Rightarrow> byte list \<Rightarrow> GeneratedApiKey" where
  "generate_api_key x secret_bytes = build_from_secret x (x_hex_encode x secret_bytes)"

definition is_secret :: "string \<Rightarrow> bool" where
  "is_secret s \<longleftrightarrow> length s = 32 \<and> list_all is_ascii_hexdigit s"

definition hash_api_key_for_lookup :: "ext \<Rightarrow> string \<Rightarrow> string" where
  "hash_api_key_for_lookup x raw_key = (case strip_prefix api_key_prefix raw_key of
       Some secret \<Rightarrow> if is_secret secret then hash_secret_hex x secret else sha_hex x (str_bytes raw_key)
     | None \<Rightarrow> sha_hex x (str_bytes raw_key))"

definition key_prefix_for_listing :: "string \<Rightarrow> string" where
  "key_prefix_for_listing stored =
     (if stored = legacy_key_prefix_stored \<or> stored = legacy_key_prefix_stored_v1
      then legacy_key_prefix_display else stored)"

definition is_legacy_lookup_key :: "string \<Rightarrow> bool" where
  "is_legacy_lookup_key raw_key \<longleftrightarrow>
     \<not> (prefix api_key_prefix raw_key \<and> length raw_key = 3 + 32 \<and> list_all is_ascii_hexdigit (drop 3 raw_key))"

text \<open>The row of a new key, and the insertion: the primary key, the unique hash, the account.\<close>

definition api_key_row_of :: "timestamp \<Rightarrow> uuid \<Rightarrow> uuid \<Rightarrow> GeneratedApiKey \<Rightarrow> string \<Rightarrow> api_key_row" where
  "api_key_row_of now fresh acc g label =
     \<lparr> ak_api_key_id = fresh, ak_account_id = acc, ak_key_hash = g_key_hash g, ak_label = label,
       ak_key_prefix = g_key_prefix g, ak_created_at = now, ak_revoked_at = None \<rparr>"

definition insert_api_key ::
  "timestamp \<Rightarrow> uuid \<Rightarrow> uuid \<Rightarrow> GeneratedApiKey \<Rightarrow> string \<Rightarrow> db \<Rightarrow> sqlx_error + db" where
  "insert_api_key now fresh acc g label d =
     (if fresh \<in> ak_api_key_id ` set (api_keys d) then Inl (UniqueViolation ''api_keys_pkey'')
      else if g_key_hash g \<in> ak_key_hash ` set (api_keys d) then Inl (UniqueViolation ''api_keys_key_hash_key'')
      else if acc \<notin> a_account_id ` set (accounts d) then Inl ForeignKeyViolation
      else Inr (d\<lparr> api_keys := api_keys d @ [api_key_row_of now fresh acc g label] \<rparr>))"

definition create_api_key ::
  "ext \<Rightarrow> timestamp \<Rightarrow> uuid \<Rightarrow> byte list \<Rightarrow> uuid \<Rightarrow> string \<Rightarrow> db
    \<Rightarrow> (sqlx_error + (GeneratedApiKey \<times> api_key_row)) \<times> db" where
  "create_api_key x now fresh secret_bytes acc label d =
     (let generated = generate_api_key x secret_bytes in
      case insert_api_key now fresh acc generated label d of
        Inl e \<Rightarrow> (Inl e, d)
      | Inr d' \<Rightarrow> (case fetch_one (\<lambda>k. ak_key_hash k = g_key_hash generated) (api_keys d') of
            Inl e \<Rightarrow> (Inl e, d)
          | Inr r \<Rightarrow> (Inr (generated, r), d')))"

text \<open>\<open>ORDER BY created_at\<close>; rows of the same instant in table order.\<close>

definition list_api_keys :: "uuid \<Rightarrow> db \<Rightarrow> api_key_row list" where
  "list_api_keys acc d = sort_key ak_created_at (filter (\<lambda>k. ak_account_id k = acc) (api_keys d))"

definition active_key :: "uuid \<Rightarrow> api_key_row \<Rightarrow> bool" where
  "active_key acc k \<longleftrightarrow> ak_account_id k = acc \<and> ak_revoked_at k = None"

datatype RevokeApiKeyError = LastActiveKey | RevokeNotFound

text \<open>The two reads, then the update; other requests can run in between.\<close>

definition revoke_check :: "uuid \<Rightarrow> uuid \<Rightarrow> db \<Rightarrow> RevokeApiKeyError + unit" where
  "revoke_check acc kid d =
     (let active_count = length (filter (active_key acc) (api_keys d));
          owns_key = list_ex (\<lambda>k. ak_api_key_id k = kid \<and> active_key acc k) (api_keys d)
      in if \<not> owns_key then Inl RevokeNotFound
         else if active_count \<le> 1 then Inl LastActiveKey else Inr ())"

definition revoke_update :: "timestamp \<Rightarrow> uuid \<Rightarrow> uuid \<Rightarrow> db \<Rightarrow> (RevokeApiKeyError + unit) \<times> db" where
  "revoke_update now acc kid d =
     (let this_key = (\<lambda>k. ak_api_key_id k = kid \<and> active_key acc k) in
      if list_ex this_key (api_keys d)
      then (Inr (), d\<lparr> api_keys := update_where this_key (\<lambda>k. k\<lparr> ak_revoked_at := Some now \<rparr>) (api_keys d) \<rparr>)
      else (Inl RevokeNotFound, d))"

definition revoke_api_key :: "timestamp \<Rightarrow> uuid \<Rightarrow> uuid \<Rightarrow> db \<Rightarrow> (RevokeApiKeyError + unit) \<times> db" where
  "revoke_api_key now acc kid d = (case revoke_check acc kid d of
     Inl e \<Rightarrow> (Inl e, d) | Inr _ \<Rightarrow> revoke_update now acc kid d)"

section \<open>Desktop tokens\<close>

definition desktop_token_prefix :: string where
  "desktop_token_prefix = ''desktop_''"

text \<open>\<open>generate_desktop_token\<close>: the plain text and its hash.\<close>

definition generate_desktop_token :: "ext \<Rightarrow> byte list \<Rightarrow> string \<times> string" where
  "generate_desktop_token x secret_bytes = (let secret = x_hex_encode x secret_bytes in
     (desktop_token_prefix @ secret, hash_secret_hex x secret))"

definition hash_desktop_token_for_lookup :: "ext \<Rightarrow> string \<Rightarrow> string option" where
  "hash_desktop_token_for_lookup x raw = Option.bind (strip_prefix desktop_token_prefix raw)
     (\<lambda>secret. if is_secret secret then Some (hash_secret_hex x secret) else None)"

definition is_desktop_bearer_token :: "ext \<Rightarrow> string \<Rightarrow> bool" where
  "is_desktop_bearer_token x raw \<longleftrightarrow> hash_desktop_token_for_lookup x raw \<noteq> None"

definition day :: int where
  "day = 24 * 60 * 60 * 1000000"

record CreatedDesktopToken =
  cd_id :: uuid
  cd_plaintext :: string
  cd_expires_at :: timestamp

definition create_desktop_token ::
  "ext \<Rightarrow> timestamp \<Rightarrow> timestamp \<Rightarrow> uuid \<Rightarrow> byte list \<Rightarrow> uuid \<Rightarrow> db
    \<Rightarrow> (sqlx_error + CreatedDesktopToken) \<times> db" where
  "create_desktop_token x now clock fresh secret_bytes acc d =
     (case generate_desktop_token x secret_bytes of (plaintext, token_hash) \<Rightarrow>
      let expires_at = clock + 30 * day in
      if fresh \<in> d_id ` set (desktop_tokens d) then (Inl (UniqueViolation ''desktop_tokens_pkey''), d)
      else if token_hash \<in> d_token_hash ` set (desktop_tokens d)
        then (Inl (UniqueViolation ''desktop_tokens_token_hash_key''), d)
      else if acc \<notin> a_account_id ` set (accounts d) then (Inl ForeignKeyViolation, d)
      else (Inr \<lparr> cd_id = fresh, cd_plaintext = plaintext, cd_expires_at = expires_at \<rparr>,
        d\<lparr> desktop_tokens := desktop_tokens d @ [\<lparr> d_id = fresh, d_account_id = acc, d_token_hash = token_hash,
          d_created_at = now, d_expires_at = expires_at, d_revoked_at = None, d_last_used_at = None \<rparr>] \<rparr>))"

definition find_active_by_token_hash :: "timestamp \<Rightarrow> string \<Rightarrow> db \<Rightarrow> desktop_token_row option" where
  "find_active_by_token_hash now token_hash d =
     find (\<lambda>t. d_token_hash t = token_hash \<and> d_revoked_at t = None \<and> d_expires_at t > now) (desktop_tokens d)"

definition touch_last_used :: "timestamp \<Rightarrow> uuid \<Rightarrow> db \<Rightarrow> db" where
  "touch_last_used now token_id d = d\<lparr> desktop_tokens :=
     update_where (\<lambda>t. d_id t = token_id) (\<lambda>t. t\<lparr> d_last_used_at := Some now \<rparr>) (desktop_tokens d) \<rparr>"

definition revoke_tokens :: "timestamp \<Rightarrow> (desktop_token_row \<Rightarrow> bool) \<Rightarrow> db \<Rightarrow> bool \<times> db" where
  "revoke_tokens now which d = (list_ex which (desktop_tokens d), d\<lparr> desktop_tokens :=
     update_where which (\<lambda>t. t\<lparr> d_revoked_at := Some now \<rparr>) (desktop_tokens d) \<rparr>)"

definition revoke_desktop_token :: "timestamp \<Rightarrow> uuid \<Rightarrow> uuid \<Rightarrow> db \<Rightarrow> bool \<times> db" where
  "revoke_desktop_token now acc token_id =
     revoke_tokens now (\<lambda>t. d_id t = token_id \<and> d_account_id t = acc \<and> d_revoked_at t = None)"

definition revoke_by_token_hash :: "timestamp \<Rightarrow> string \<Rightarrow> db \<Rightarrow> bool \<times> db" where
  "revoke_by_token_hash now token_hash =
     revoke_tokens now (\<lambda>t. d_token_hash t = token_hash \<and> d_revoked_at t = None)"

section \<open>Sessions\<close>

definition hash_session_token :: "ext \<Rightarrow> string \<Rightarrow> string" where
  "hash_session_token x token = sha_hex x (str_bytes token)"

definition cleanup_expired_sessions :: "timestamp \<Rightarrow> db \<Rightarrow> db" where
  "cleanup_expired_sessions now d = d\<lparr> sessions := filter (\<lambda>s. \<not> s_expires_at s < now) (sessions d) \<rparr>"

definition delete_sessions_for_account :: "uuid \<Rightarrow> db \<Rightarrow> db" where
  "delete_sessions_for_account acc d = d\<lparr> sessions := filter (\<lambda>s. s_account_id s \<noteq> acc) (sessions d) \<rparr>"

text \<open>The statements are separate: the deletions stay when the insertion fails.\<close>

definition create_session ::
  "ext \<Rightarrow> timestamp \<Rightarrow> timestamp \<Rightarrow> uuid \<Rightarrow> byte list \<Rightarrow> uuid \<Rightarrow> db \<Rightarrow> (sqlx_error + string) \<times> db" where
  "create_session x now clock fresh random acc d =
     (let d = delete_sessions_for_account acc (cleanup_expired_sessions now d);
          token = x_hex_encode x random;
          token_hash = hash_session_token x token;
          expires_at = clock + 30 * day
      in if fresh \<in> s_id ` set (sessions d) then (Inl (UniqueViolation ''sessions_pkey''), d)
         else if token_hash \<in> s_token_hash ` set (sessions d)
           then (Inl (UniqueViolation ''sessions_token_hash_key''), d)
         else if acc \<notin> a_account_id ` set (accounts d) then (Inl ForeignKeyViolation, d)
         else (Inr token, d\<lparr> sessions := sessions d @ [\<lparr> s_id = fresh, s_account_id = acc,
           s_token_hash = token_hash, s_expires_at = expires_at, s_created_at = now, s_last_used_at = now \<rparr>] \<rparr>))"

definition delete_session_by_token :: "ext \<Rightarrow> timestamp \<Rightarrow> string \<Rightarrow> db \<Rightarrow> db" where
  "delete_session_by_token x now token d = (let d = cleanup_expired_sessions now d in
     d\<lparr> sessions := filter (\<lambda>s. s_token_hash s \<noteq> hash_session_token x token) (sessions d) \<rparr>)"

definition resolve_session_account_id :: "ext \<Rightarrow> timestamp \<Rightarrow> string \<Rightarrow> db \<Rightarrow> uuid option \<times> db" where
  "resolve_session_account_id x now token d =
     (let d = cleanup_expired_sessions now d in
      case find (\<lambda>s. s_token_hash s = hash_session_token x token \<and> s_expires_at s \<ge> now) (sessions d) of
        None \<Rightarrow> (None, d)
      | Some r \<Rightarrow> (Some (s_account_id r), d\<lparr> sessions :=
          update_where (\<lambda>s. s_id s = s_id r) (\<lambda>s. s\<lparr> s_last_used_at := now \<rparr>) (sessions d) \<rparr>))"

definition session_cookie_name :: string where
  "session_cookie_name = ''evident_session''"

definition session_cookie_value :: "string \<Rightarrow> bool \<Rightarrow> string" where
  "session_cookie_value token secure = session_cookie_name @ ''='' @ token @ ''; HttpOnly; Path=/; Max-Age='' @
     show_int (30 * 24 * 60 * 60) @ ''; SameSite=Lax'' @ (if secure then ''; Secure'' else [])"

definition clear_session_cookie :: "bool \<Rightarrow> string" where
  "clear_session_cookie secure = session_cookie_name @ ''=; HttpOnly; Path=/; Max-Age=0; SameSite=Lax'' @
     (if secure then ''; Secure'' else [])"

text \<open>\<open>find_map\<close> over the parts of the header.\<close>

fun find_cookie :: "string list \<Rightarrow> string option" where
  "find_cookie [] = None"
| "find_cookie (p # ps) = (case strip_prefix (session_cookie_name @ ''='') (trim p) of
     Some value \<Rightarrow> if value \<noteq> [] then Some value else find_cookie ps
   | None \<Rightarrow> find_cookie ps)"

definition parse_session_cookie :: "string \<Rightarrow> string option" where
  "parse_session_cookie cookie_header = find_cookie (split_char (CHR '';'') cookie_header)"

definition optional_session_user :: "ext \<Rightarrow> timestamp \<Rightarrow> string option \<Rightarrow> db \<Rightarrow> uuid option \<times> db" where
  "optional_session_user x now cookie d = (case Option.bind cookie parse_session_cookie of
     None \<Rightarrow> (None, d) | Some token \<Rightarrow> resolve_session_account_id x now token d)"

text \<open>The session middleware: the account a request runs as, or 401.\<close>

definition session_auth_middleware :: "ext \<Rightarrow> timestamp \<Rightarrow> string option \<Rightarrow> db \<Rightarrow> (ApiError + uuid) \<times> db" where
  "session_auth_middleware x now cookie d = (case optional_session_user x now cookie d of
     (Some acc, d') \<Rightarrow> (Inr acc, d') | (None, d') \<Rightarrow> (Inl Unauthorized, d'))"

definition require_web_session :: "ext \<Rightarrow> timestamp \<Rightarrow> string option \<Rightarrow> db \<Rightarrow> (ApiError + uuid) \<times> db" where
  "require_web_session x now cookie d = (case cookie of
     None \<Rightarrow> (Inl Unauthorized, d)
   | Some header \<Rightarrow> (case parse_session_cookie header of
       None \<Rightarrow> (Inl Unauthorized, d)
     | Some token \<Rightarrow> (case resolve_session_account_id x now token d of
         (None, d') \<Rightarrow> (Inl Unauthorized, d') | (Some acc, d') \<Rightarrow> (Inr acc, d'))))"

text \<open>\<open>percent_encode\<close> (and \<open>urlencoding_encode\<close>): uppercase hex of the bytes outside the unreserved set.\<close>

definition upper_hex_digit :: "nat \<Rightarrow> char" where
  "upper_hex_digit n = char_of (if n < 10 then 48 + n else 55 + n)"

definition is_unreserved :: "char \<Rightarrow> bool" where
  "is_unreserved c = (let n = (of_char c :: nat) in (65 \<le> n \<and> n \<le> 90) \<or> (97 \<le> n \<and> n \<le> 122) \<or>
     (48 \<le> n \<and> n \<le> 57) \<or> c \<in> {CHR ''-'', CHR ''_'', CHR ''.'', CHR ''~''})"

definition percent_byte :: "char \<Rightarrow> string" where
  "percent_byte c = (if is_unreserved c then [c]
     else let n = of_char c in [CHR ''%'', upper_hex_digit (n div 16), upper_hex_digit (n mod 16)])"

definition percent_encode :: "string \<Rightarrow> string" where
  "percent_encode s = concat (map percent_byte s)"

text \<open>The middleware of the pages sends the browser to the login page instead; \<open>path\<close> is the path and
  query of the request.\<close>

definition session_ui_auth_middleware ::
  "ext \<Rightarrow> timestamp \<Rightarrow> string option \<Rightarrow> string option \<Rightarrow> db \<Rightarrow> (string + uuid) \<times> db" where
  "session_ui_auth_middleware x now cookie path d = (case optional_session_user x now cookie d of
     (Some acc, d') \<Rightarrow> (Inr acc, d')
   | (None, d') \<Rightarrow> (Inl (''/login?next='' @ percent_encode (case path of Some p \<Rightarrow> p | None \<Rightarrow> ''/dashboard/ui'')), d'))"

section \<open>Resolution of a request\<close>

record AuthedAccount =
  auth_account_id :: uuid
  auth_key_hash :: string

datatype AuthError = MissingCredentials | InvalidCredential

definition bearer_token :: "string \<Rightarrow> string option" where
  "bearer_token value =
     Option.bind (case strip_prefix ''Bearer '' value of Some r \<Rightarrow> Some r | None \<Rightarrow> strip_prefix ''bearer '' value)
       (\<lambda>r. let t = trim r in if t = [] then None else Some t)"

text \<open>Other bearer schemes are ignored, so the API key can still apply.\<close>

definition resolve_desktop_bearer ::
  "ext \<Rightarrow> timestamp \<Rightarrow> string option \<Rightarrow> db \<Rightarrow> (AuthError + AuthedAccount option) \<times> db" where
  "resolve_desktop_bearer x now authorization d =
     (case Option.bind (Option.bind authorization bearer_token) (hash_desktop_token_for_lookup x) of
        None \<Rightarrow> (Inr None, d)
      | Some token_hash \<Rightarrow> (case find_active_by_token_hash now token_hash d of
            None \<Rightarrow> (Inl InvalidCredential, d)
          | Some r \<Rightarrow> (Inr (Some \<lparr> auth_account_id = d_account_id r, auth_key_hash = d_token_hash r \<rparr>),
              touch_last_used now (d_id r) d)))"

definition resolve_authed_account ::
  "ext \<Rightarrow> timestamp \<Rightarrow> string option \<Rightarrow> string option \<Rightarrow> db \<Rightarrow> (AuthError + AuthedAccount) \<times> db" where
  "resolve_authed_account x now authorization api_key d =
     (case resolve_desktop_bearer x now authorization d of
        (Inl e, d') \<Rightarrow> (Inl e, d')
      | (Inr (Some auth), d') \<Rightarrow> (Inr auth, d')
      | (Inr None, d') \<Rightarrow> (case api_key of
            None \<Rightarrow> (Inl MissingCredentials, d')
          | Some raw_key \<Rightarrow> (case find (\<lambda>k. ak_key_hash k = hash_api_key_for_lookup x raw_key \<and> ak_revoked_at k = None)
                (api_keys d') of
              None \<Rightarrow> (Inl InvalidCredential, d')
            | Some k \<Rightarrow> (Inr \<lparr> auth_account_id = ak_account_id k, auth_key_hash = ak_key_hash k \<rparr>, d'))))"

fun auth_error_response :: "AuthError \<Rightarrow> nat \<times> json" where
  "auth_error_response MissingCredentials =
     (401, JObject [(''error'', JString ''Missing credentials (X-API-KEY or Authorization Bearer)'')])"
| "auth_error_response InvalidCredential = (401, JObject [(''error'', JString ''Invalid or revoked credentials'')])"

definition v1_auth_middleware ::
  "ext \<Rightarrow> timestamp \<Rightarrow> string option \<Rightarrow> string option \<Rightarrow> db \<Rightarrow> (ApiError + AuthedAccount) \<times> db" where
  "v1_auth_middleware x now authorization api_key d =
     (case resolve_authed_account x now authorization api_key d of
        (r, d') \<Rightarrow> (map_err (\<lambda>_. Unauthorized) r, d'))"

section \<open>Lookups\<close>

lemma find_unique:
  assumes "distinct (map f xs)" "r \<in> set xs" "P r"
  shows "find (\<lambda>y. f y = f r \<and> P y) xs = Some r"
proof (cases "find (\<lambda>y. f y = f r \<and> P y) xs")
  case None
  then show ?thesis using assms(2,3) by (auto simp: find_None_iff)
next
  case (Some y)
  then have "y \<in> set xs" "f y = f r" by (auto dest: find_SomeD)
  then show ?thesis using Some distinct_key_eq [OF assms(1) _ assms(2)] by blast
qed

text \<open>The hashes under which each kind of credential is stored are unique.\<close>

definition credentials_ok :: "db \<Rightarrow> bool" where
  "credentials_ok d \<longleftrightarrow> distinct (map ak_api_key_id (api_keys d)) \<and> distinct (map ak_key_hash (api_keys d)) \<and>
     distinct (map s_token_hash (sessions d)) \<and> distinct (map d_id (desktop_tokens d)) \<and>
     distinct (map d_token_hash (desktop_tokens d))"

lemma lower_hex_is_hexdigit: "is_lower_hex c \<Longrightarrow> is_ascii_hexdigit c"
  by (auto simp: is_lower_hex_def is_ascii_hexdigit_def Let_def)

lemma encoded_secret: "hex_ok x \<Longrightarrow> length b = 16 \<Longrightarrow> is_secret (x_hex_encode x b)"
  unfolding hex_ok_def is_secret_def by (metis (mono_tags, lifting) lower_hex_is_hexdigit list.pred_mono_strong mult_2 numeral_Bit0)

lemma generated_lookup:
  assumes "hex_ok x" "length b = 16"
  shows "hash_api_key_for_lookup x (g_full_key (generate_api_key x b)) = g_key_hash (generate_api_key x b)"
  using encoded_secret [OF assms]
  by (simp add: generate_api_key_def build_from_secret_def hash_api_key_for_lookup_def Let_def)

lemma legacy_lookup:
  "hash_api_key_for_lookup x k =
     (if is_legacy_lookup_key k then sha_hex x (str_bytes k) else hash_secret_hex x (drop 3 k))"
  by (auto simp: hash_api_key_for_lookup_def strip_prefix_def is_legacy_lookup_key_def is_secret_def
      api_key_prefix_def prefix_def)

lemma insert_api_key_Inr [res_iff]:
  "insert_api_key now fresh acc g label d = Inr d' \<longleftrightarrow>
     fresh \<notin> ak_api_key_id ` set (api_keys d) \<and> g_key_hash g \<notin> ak_key_hash ` set (api_keys d) \<and>
     acc \<in> a_account_id ` set (accounts d) \<and>
     d' = d\<lparr> api_keys := api_keys d @ [api_key_row_of now fresh acc g label] \<rparr>"
  by (auto simp: insert_api_key_def)

lemma api_key_row_of_simps [simp]:
  "ak_api_key_id (api_key_row_of now fresh acc g label) = fresh"
  "ak_account_id (api_key_row_of now fresh acc g label) = acc"
  "ak_key_hash (api_key_row_of now fresh acc g label) = g_key_hash g"
  "ak_revoked_at (api_key_row_of now fresh acc g label) = None"
  by (simp_all add: api_key_row_of_def)

lemma create_api_key_Inr:
  assumes "credentials_ok d" "create_api_key x now fresh b acc label d = (Inr (g, r), d')"
  shows "g = generate_api_key x b" "r = api_key_row_of now fresh acc g label"
    "insert_api_key now fresh acc g label d = Inr d'" "credentials_ok d'"
proof -
  show g: "g = generate_api_key x b" using assms(2) by (auto simp: create_api_key_def Let_def split: sum.splits)
  show ins: "insert_api_key now fresh acc g label d = Inr d'"
    using assms(2) g by (auto simp: create_api_key_def Let_def split: sum.splits)
  then have d': "d' = d\<lparr> api_keys := api_keys d @ [api_key_row_of now fresh acc g label] \<rparr>"
    and new: "g_key_hash g \<notin> ak_key_hash ` set (api_keys d)" "fresh \<notin> ak_api_key_id ` set (api_keys d)"
    by (simp_all add: res_iff)
  show "credentials_ok d'" using assms(1) new by (simp add: d' credentials_ok_def)
  have "find (\<lambda>k. ak_key_hash k = g_key_hash g) (api_keys d) = None"
    using new(1) by (force simp: find_None_iff)
  then have "fetch_one (\<lambda>k. ak_key_hash k = g_key_hash g) (api_keys d') = Inr (api_key_row_of now fresh acc g label)"
    by (simp add: d' fetch_one_def find_append)
  then show "r = api_key_row_of now fresh acc g label"
    using assms(2) ins g by (auto simp: create_api_key_def Let_def)
qed

text \<open>A request that carries only an API key runs as the account of the row that has its hash.\<close>

lemma resolve_api_key:
  assumes "credentials_ok d" "k \<in> set (api_keys d)" "ak_key_hash k = hash_api_key_for_lookup x raw"
  shows "resolve_authed_account x now None (Some raw) d =
     (if ak_revoked_at k = None
      then (Inr \<lparr> auth_account_id = ak_account_id k, auth_key_hash = ak_key_hash k \<rparr>, d)
      else (Inl InvalidCredential, d))"
proof -
  have keys: "distinct (map ak_key_hash (api_keys d))" using assms(1) by (simp add: credentials_ok_def)
  show ?thesis
  proof (cases "ak_revoked_at k = None")
    case True
    then have "find (\<lambda>y. ak_key_hash y = ak_key_hash k \<and> ak_revoked_at y = None) (api_keys d) = Some k"
      using find_unique [OF keys assms(2), of "\<lambda>y. ak_revoked_at y = None"] by blast
    with True show ?thesis
      by (simp add: resolve_authed_account_def resolve_desktop_bearer_def assms(3) [symmetric])
  next
    case False
    then have "find (\<lambda>y. ak_key_hash y = ak_key_hash k \<and> ak_revoked_at y = None) (api_keys d) = None"
      using distinct_key_eq [OF keys _ assms(2)] by (auto simp: find_None_iff)
    with False show ?thesis
      by (simp add: resolve_authed_account_def resolve_desktop_bearer_def assms(3) [symmetric])
  qed
qed

lemma created_key_resolves:
  assumes "credentials_ok d" "hex_ok x" "length b = 16"
    and "create_api_key x now fresh b acc label d = (Inr (g, r), d')"
  shows "resolve_authed_account x now' None (Some (g_full_key g)) d' =
     (Inr \<lparr> auth_account_id = acc, auth_key_hash = g_key_hash g \<rparr>, d')"
proof -
  note c = create_api_key_Inr [OF assms(1,4)]
  have "r \<in> set (api_keys d')" using c(3) by (simp add: res_iff c(2))
  moreover have "ak_key_hash r = hash_api_key_for_lookup x (g_full_key g)"
    using generated_lookup [OF assms(2,3)] c(1) by (simp add: c(2))
  ultimately show ?thesis using resolve_api_key [OF c(4)] by (simp add: c(2))
qed

section \<open>Revocation of API keys\<close>

lemma revoke_update_Inr:
  assumes "revoke_update now acc kid d = (Inr u, d')"
  shows "d' = d\<lparr> api_keys := update_where (\<lambda>k. ak_api_key_id k = kid \<and> active_key acc k)
     (\<lambda>k. k\<lparr> ak_revoked_at := Some now \<rparr>) (api_keys d) \<rparr>"
    "\<exists>k\<in>set (api_keys d). ak_api_key_id k = kid \<and> active_key acc k"
  using assms by (auto simp: revoke_update_def Let_def list_ex_iff split: if_splits)

lemma revoke_api_key_Inr:
  assumes "revoke_api_key now acc kid d = (Inr u, d')"
  shows "revoke_update now acc kid d = (Inr u, d')" "2 \<le> length (filter (active_key acc) (api_keys d))"
  using assms by (auto simp: revoke_api_key_def revoke_check_def Let_def split: if_splits sum.splits)

lemma revoke_api_key_Inl: "revoke_api_key now acc kid d = (Inl e, d') \<Longrightarrow> d' = d"
  by (auto simp: revoke_api_key_def revoke_update_def Let_def split: if_splits sum.splits)

lemma filter_update_count:
  assumes "distinct (map f rows)" "r \<in> set rows" "P r" "\<And>y. \<not> P (g y)"
  shows "length (filter P (update_where (\<lambda>y. f y = f r \<and> P y) g rows)) = length (filter P rows) - 1"
  using assms(1-3)
proof (induction rows)
  case (Cons a rows)
  show ?case
  proof (cases "a = r")
    case True
    have "update_where (\<lambda>y. f y = f r \<and> P y) g rows = rows"
      by (rule update_where_id) (use Cons.prems(1) True in \<open>auto simp: image_iff\<close>)
    then show ?thesis using True Cons.prems(3) assms(4) by (simp add: update_where_def)
  next
    case False
    then have r: "r \<in> set rows" using Cons.prems(2) by simp
    then have "f a \<noteq> f r" using Cons.prems(1) by (auto simp: image_iff)
    moreover have "0 < length (filter P rows)" using r Cons.prems(3) by (auto simp: filter_empty_conv)
    ultimately show ?thesis using Cons r by (simp add: update_where_def)
  qed
qed simp

lemma revoke_update_count:
  assumes "credentials_ok d" "revoke_update now acc kid d = (Inr u, d')"
  shows "length (filter (active_key acc) (api_keys d')) = length (filter (active_key acc) (api_keys d)) - 1"
    "acc' \<noteq> acc \<Longrightarrow> filter (active_key acc') (api_keys d') = filter (active_key acc') (api_keys d)"
    "credentials_ok d'"
proof -
  have ids: "distinct (map ak_api_key_id (api_keys d))" using assms(1) by (simp add: credentials_ok_def)
  obtain k where k: "k \<in> set (api_keys d)" "ak_api_key_id k = kid" "active_key acc k"
    using revoke_update_Inr(2) [OF assms(2)] by blast
  note d' = revoke_update_Inr(1) [OF assms(2)]
  have no: "\<not> active_key acc'' (y\<lparr> ak_revoked_at := Some now \<rparr>)" for acc'' y by (simp add: active_key_def)
  show "length (filter (active_key acc) (api_keys d')) = length (filter (active_key acc) (api_keys d)) - 1"
    using filter_update_count [where P = "active_key acc", OF ids k(1,3) no [where acc'' = acc]] by (simp add: d' k(2))
  show "filter (active_key acc') (api_keys d') = filter (active_key acc') (api_keys d)" if "acc' \<noteq> acc"
  proof -
    have "filter (active_key acc') (update_where (\<lambda>k. ak_api_key_id k = kid \<and> active_key acc k)
        (\<lambda>k. k\<lparr> ak_revoked_at := Some now \<rparr>) rows) = filter (active_key acc') rows" for rows
      using that by (induction rows) (auto simp: update_where_def active_key_def)
    then show ?thesis by (simp add: d')
  qed
  show "credentials_ok d'" using assms(1) by (simp add: d' credentials_ok_def map_update_where)
qed

lemma revoked_key_resolves_to_nobody:
  assumes "credentials_ok d" "revoke_update now acc kid d = (Inr u, d')"
    and "k \<in> set (api_keys d)" "ak_api_key_id k = kid" "ak_key_hash k = hash_api_key_for_lookup x raw"
  shows "resolve_authed_account x now' None (Some raw) d' = (Inl InvalidCredential, d')"
proof -
  have ids: "distinct (map ak_api_key_id (api_keys d))" using assms(1) by (simp add: credentials_ok_def)
  obtain k' where k': "k' \<in> set (api_keys d)" "ak_api_key_id k' = kid" "active_key acc k'"
    using revoke_update_Inr(2) [OF assms(2)] by blast
  have "k' = k" by (rule distinct_key_eq [OF ids k'(1) assms(3)]) (simp add: k'(2) assms(4))
  then have "active_key acc k" using k'(3) by simp
  then have "k\<lparr> ak_revoked_at := Some now \<rparr> \<in> set (api_keys d')"
    using assms(3,4) by (auto simp: revoke_update_Inr(1) [OF assms(2)] set_update_where image_iff)
  from resolve_api_key [OF revoke_update_count(3) [OF assms(1,2)] this] assms(5) show ?thesis by simp
qed

text \<open>Two revocations whose checks both run before either update.\<close>

lemma concurrent_revocations:
  assumes "credentials_ok d" "filter (active_key acc) (api_keys d) = [k, l]"
  shows "revoke_check acc (ak_api_key_id k) d = Inr ()" "revoke_check acc (ak_api_key_id l) d = Inr ()"
    "\<exists>d1 d2. revoke_update now acc (ak_api_key_id k) d = (Inr (), d1) \<and>
       revoke_update now acc (ak_api_key_id l) d1 = (Inr (), d2) \<and> filter (active_key acc) (api_keys d2) = []"
proof -
  have "k \<in> set (filter (active_key acc) (api_keys d))" "l \<in> set (filter (active_key acc) (api_keys d))"
    by (simp_all add: assms(2))
  then have kl: "k \<in> set (api_keys d)" "active_key acc k" "l \<in> set (api_keys d)" "active_key acc l" by simp_all
  show "revoke_check acc (ak_api_key_id k) d = Inr ()" "revoke_check acc (ak_api_key_id l) d = Inr ()"
    using kl by (auto simp: revoke_check_def assms(2) list_ex_iff)
  have ids: "distinct (map ak_api_key_id (api_keys d))" using assms(1) by (simp add: credentials_ok_def)
  then have "distinct (map ak_api_key_id (filter (active_key acc) (api_keys d)))" by (rule distinct_map_filter)
  then have neq: "ak_api_key_id l \<noteq> ak_api_key_id k" by (simp add: assms(2))
  define d1 where "d1 = d\<lparr> api_keys := update_where (\<lambda>y. ak_api_key_id y = ak_api_key_id k \<and> active_key acc y)
      (\<lambda>y. y\<lparr> ak_revoked_at := Some now \<rparr>) (api_keys d) \<rparr>"
  have one: "revoke_update now acc (ak_api_key_id k) d = (Inr (), d1)"
    using kl by (auto simp: revoke_update_def d1_def list_ex_iff Let_def)
  have "l \<in> set (api_keys d1)" using kl(3) neq by (auto simp: d1_def set_update_where image_iff)
  then have "\<exists>d2. revoke_update now acc (ak_api_key_id l) d1 = (Inr (), d2)"
    using kl(4) by (auto simp: revoke_update_def list_ex_iff Let_def)
  then obtain d2 where two: "revoke_update now acc (ak_api_key_id l) d1 = (Inr (), d2)" ..
  have "length (filter (active_key acc) (api_keys d2)) = 0"
    using revoke_update_count(1) [OF revoke_update_count(3) [OF assms(1) one] two]
      revoke_update_count(1) [OF assms(1) one] by (simp add: assms(2))
  with one two show "\<exists>d1 d2. revoke_update now acc (ak_api_key_id k) d = (Inr (), d1) \<and>
       revoke_update now acc (ak_api_key_id l) d1 = (Inr (), d2) \<and> filter (active_key acc) (api_keys d2) = []"
    by blast
qed

section \<open>Life of a session and of a desktop token\<close>

definition other_sessions :: "uuid \<Rightarrow> timestamp \<Rightarrow> db \<Rightarrow> session_row list" where
  "other_sessions acc now d = filter (\<lambda>s. s_account_id s \<noteq> acc) (filter (\<lambda>s. \<not> s_expires_at s < now) (sessions d))"

lemma create_session_Inr:
  assumes "create_session x now clock fresh random acc d = (Inr token, d')"
  shows "token = x_hex_encode x random"
    "hash_session_token x token \<notin> s_token_hash ` set (other_sessions acc now d)"
    "d' = d\<lparr> sessions := other_sessions acc now d @
       [\<lparr> s_id = fresh, s_account_id = acc, s_token_hash = hash_session_token x token,
          s_expires_at = clock + 30 * day, s_created_at = now, s_last_used_at = now \<rparr>] \<rparr>"
  using assms
  by (auto simp: create_session_def Let_def delete_sessions_for_account_def cleanup_expired_sessions_def
      other_sessions_def split: if_splits)

lemma find_filter_id: "(\<And>r. P r \<Longrightarrow> Q r) \<Longrightarrow> find P (filter Q xs) = find P xs"
  by (induction xs) auto

lemma resolve_session:
  "fst (resolve_session_account_id x t token d) =
     map_option s_account_id (find (\<lambda>s. s_token_hash s = hash_session_token x token \<and> t \<le> s_expires_at s) (sessions d))"
proof -
  have "find (\<lambda>s. s_token_hash s = hash_session_token x token \<and> t \<le> s_expires_at s)
      (filter (\<lambda>s. \<not> s_expires_at s < t) (sessions d)) =
    find (\<lambda>s. s_token_hash s = hash_session_token x token \<and> t \<le> s_expires_at s) (sessions d)"
    by (rule find_filter_id) auto
  then show ?thesis
    by (simp add: resolve_session_account_id_def cleanup_expired_sessions_def Let_def split: option.split)
qed

lemma session_lifecycle:
  assumes "create_session x now clock fresh random acc d = (Inr token, d')"
  shows "fst (resolve_session_account_id x t token d') = (if t \<le> clock + 30 * day then Some acc else None)"
    "hash_session_token x other \<noteq> hash_session_token x token \<Longrightarrow>
     fst (resolve_session_account_id x t other d') \<noteq> Some acc"
    "fst (resolve_session_account_id x t token (delete_session_by_token x t' token d')) = None"
proof -
  note c = create_session_Inr [OF assms]
  have "find (\<lambda>s. s_token_hash s = hash_session_token x token \<and> t \<le> s_expires_at s) (other_sessions acc now d) = None"
    using c(2) unfolding find_None_iff by (metis image_eqI)
  then show "fst (resolve_session_account_id x t token d') = (if t \<le> clock + 30 * day then Some acc else None)"
    unfolding resolve_session by (simp add: c(3) find_append)
  show "fst (resolve_session_account_id x t other d') \<noteq> Some acc"
    if "hash_session_token x other \<noteq> hash_session_token x token"
    using that unfolding resolve_session
    by (auto simp: c(3) find_append other_sessions_def split: option.splits if_splits dest!: find_SomeD)
  have "find (\<lambda>s. s_token_hash s = hash_session_token x token \<and> t \<le> s_expires_at s)
      (filter (\<lambda>s. s_token_hash s \<noteq> hash_session_token x token) rows) = None" for rows
    by (auto simp: find_None_iff)
  then show "fst (resolve_session_account_id x t token (delete_session_by_token x t' token d')) = None"
    unfolding resolve_session
    by (simp add: delete_session_by_token_def cleanup_expired_sessions_def Let_def del: filter_filter)
qed

lemma create_desktop_token_Inr:
  assumes "credentials_ok d" "create_desktop_token x now clock fresh b acc d = (Inr c, d')"
  shows "cd_plaintext c = desktop_token_prefix @ x_hex_encode x b"
    "\<lparr> d_id = cd_id c, d_account_id = acc, d_token_hash = hash_secret_hex x (x_hex_encode x b), d_created_at = now,
       d_expires_at = clock + 30 * day, d_revoked_at = None, d_last_used_at = None \<rparr> \<in> set (desktop_tokens d')"
    "credentials_ok d'" "cd_id c = fresh" "api_keys d' = api_keys d"
  using assms
  by (auto simp: create_desktop_token_def generate_desktop_token_def Let_def credentials_ok_def split: if_splits)

lemma resolve_desktop:
  assumes "credentials_ok d" "t \<in> set (desktop_tokens d)" "bearer_token auth = Some raw"
    "hash_desktop_token_for_lookup x raw = Some (d_token_hash t)"
  shows "fst (resolve_authed_account x now (Some auth) key d) =
     (if d_revoked_at t = None \<and> d_expires_at t > now
      then Inr \<lparr> auth_account_id = d_account_id t, auth_key_hash = d_token_hash t \<rparr> else Inl InvalidCredential)"
proof -
  have hashes: "distinct (map d_token_hash (desktop_tokens d))" using assms(1) by (simp add: credentials_ok_def)
  have "find_active_by_token_hash now (d_token_hash t) d =
      (if d_revoked_at t = None \<and> d_expires_at t > now then Some t else None)"
  proof (cases "d_revoked_at t = None \<and> d_expires_at t > now")
    case True
    then show ?thesis
      using find_unique [where P = "\<lambda>y. d_revoked_at y = None \<and> d_expires_at y > now", OF hashes assms(2)]
      by (simp add: find_active_by_token_hash_def)
  next
    case False
    then show ?thesis
      using distinct_key_eq [OF hashes _ assms(2)] by (auto simp: find_active_by_token_hash_def find_None_iff)
  qed
  then show ?thesis by (simp add: resolve_authed_account_def resolve_desktop_bearer_def assms(3,4))
qed

text \<open>The header \<open>Bearer desktop_...\<close> of a created token.\<close>

lemma desktop_header:
  assumes "hex_ok x" "length b = 16"
  shows "bearer_token (''Bearer '' @ desktop_token_prefix @ x_hex_encode x b) = Some (desktop_token_prefix @ x_hex_encode x b)"
    "hash_desktop_token_for_lookup x (desktop_token_prefix @ x_hex_encode x b) = Some (hash_secret_hex x (x_hex_encode x b))"
proof -
  have "list_all is_graph (desktop_token_prefix @ x_hex_encode x b)"
    using assms(1) is_lower_hex_graph
    by (auto simp: hex_ok_def list_all_iff desktop_token_prefix_def is_graph_def)
  moreover have "desktop_token_prefix @ x_hex_encode x b \<noteq> []" by (simp add: desktop_token_prefix_def)
  moreover have "strip_prefix ''Bearer '' (''Bearer '' @ s) = Some s" for s by (rule strip_prefix_append)
  ultimately show "bearer_token (''Bearer '' @ desktop_token_prefix @ x_hex_encode x b) = Some (desktop_token_prefix @ x_hex_encode x b)"
    unfolding bearer_token_def by (simp only: option.case Option.bind.simps Let_def trim_graph if_False)
  show "hash_desktop_token_for_lookup x (desktop_token_prefix @ x_hex_encode x b) = Some (hash_secret_hex x (x_hex_encode x b))"
    using encoded_secret [OF assms] by (simp add: hash_desktop_token_for_lookup_def)
qed

lemma desktop_token_lifecycle:
  assumes "credentials_ok d" "hex_ok x" "length b = 16" "create_desktop_token x now clock fresh b acc d = (Inr c, d')"
  shows "fst (resolve_authed_account x t (Some (''Bearer '' @ cd_plaintext c)) key d') =
      (if t < clock + 30 * day then Inr \<lparr> auth_account_id = acc, auth_key_hash = hash_secret_hex x (x_hex_encode x b) \<rparr>
       else Inl InvalidCredential)"
    "fst (resolve_authed_account x t (Some (''Bearer '' @ cd_plaintext c)) key
       (snd (revoke_desktop_token now' acc (cd_id c) d'))) = Inl InvalidCredential"
    "acc' \<noteq> acc \<Longrightarrow> revoke_desktop_token now' acc' (cd_id c) d' = (False, d')"
proof -
  note c = create_desktop_token_Inr [OF assms(1,4)] and header = desktop_header [OF assms(2,3)]
  define row where "row = \<lparr> d_id = cd_id c, d_account_id = acc, d_token_hash = hash_secret_hex x (x_hex_encode x b),
    d_created_at = now, d_expires_at = clock + 30 * day, d_revoked_at = None, d_last_used_at = None \<rparr>"
  have row: "row \<in> set (desktop_tokens d')" using c(2) by (simp add: row_def)
  have hash: "hash_desktop_token_for_lookup x (cd_plaintext c) = Some (d_token_hash row)"
    using header(2) by (simp add: c(1) row_def)
  have bearer: "bearer_token (''Bearer '' @ cd_plaintext c) = Some (cd_plaintext c)" unfolding c(1) by (rule header(1))
  show "fst (resolve_authed_account x t (Some (''Bearer '' @ cd_plaintext c)) key d') =
      (if t < clock + 30 * day then Inr \<lparr> auth_account_id = acc, auth_key_hash = hash_secret_hex x (x_hex_encode x b) \<rparr>
       else Inl InvalidCredential)"
    unfolding resolve_desktop [OF c(3) row bearer hash] by (simp add: row_def)
  define d2 where "d2 = snd (revoke_desktop_token now' acc (cd_id c) d')"
  have "row\<lparr> d_revoked_at := Some now' \<rparr> \<in> set (desktop_tokens d2)"
    using row by (auto simp: d2_def revoke_desktop_token_def revoke_tokens_def set_update_where image_iff row_def
        intro!: bexI [of _ row])
  moreover have "credentials_ok d2"
    using c(3) by (simp add: d2_def revoke_desktop_token_def revoke_tokens_def credentials_ok_def map_update_where)
  ultimately show "fst (resolve_authed_account x t (Some (''Bearer '' @ cd_plaintext c)) key
       (snd (revoke_desktop_token now' acc (cd_id c) d'))) = Inl InvalidCredential"
    using resolve_desktop [of d2 "row\<lparr> d_revoked_at := Some now' \<rparr>"] bearer hash unfolding d2_def by simp
  show "revoke_desktop_token now' acc' (cd_id c) d' = (False, d')" if other: "acc' \<noteq> acc"
  proof -
    have ids: "distinct (map d_id (desktop_tokens d'))" using c(3) by (simp add: credentials_ok_def)
    have no: "\<not> (d_id t = cd_id c \<and> d_account_id t = acc' \<and> d_revoked_at t = None)" if "t \<in> set (desktop_tokens d')" for t
      using distinct_key_eq [OF ids that row] other by (auto simp: row_def)
    then show ?thesis
      by (simp add: revoke_desktop_token_def revoke_tokens_def update_where_id list_ex_iff)
  qed
qed

end
