(* ===== verification/Accounts.thy ===== *)
theory Accounts
  imports Credentials Subscription
begin

text \<open>
  Accounts: \<open>src/service/accounts.rs\<close>, \<open>src/service/account.rs\<close>, \<open>src/auth/web_auth.rs\<close>,
  \<open>src/auth/web_me.rs\<close>, \<open>src/auth/password.rs\<close>, and the handlers of \<open>src/api/accounts.rs\<close>,
  \<open>src/api/account.rs\<close>, \<open>src/api/dashboard.rs\<close>, \<open>src/api/v1/me.rs\<close> and
  \<open>src/api/dashboard_desktop.rs\<close>.  Argon2 and the Unicode tables of \<open>to_lowercase\<close> are parameters.
\<close>

section \<open>Parameters\<close>

text \<open>\<open>None\<close> from the hash function is a failure of it, \<open>None\<close> from the verification a text that is
  no password hash.\<close>

record web_env =
  we_lower :: "string \<Rightarrow> string"
  we_hash :: "string \<Rightarrow> string option"
  we_verify :: "string \<Rightarrow> string \<Rightarrow> bool option"

definition web_env_ok :: "web_env \<Rightarrow> bool" where
  "web_env_ok v \<longleftrightarrow> (\<forall>p h. we_hash v p = Some h \<longrightarrow> we_verify v p h = Some True)"

section \<open>Registration\<close>

definition is_valid_email :: "string \<Rightarrow> bool" where
  "is_valid_email raw = (let email = trim raw in
     if email = [] \<or> length email > 254 then False
     else case split_once (CHR ''@'') email of
         None \<Rightarrow> False
       | Some (local_part, domain) \<Rightarrow> local_part \<noteq> [] \<and> domain \<noteq> [] \<and> CHR ''.'' \<in> set domain \<and>
           \<not> prefix ''.'' domain \<and> \<not> suffix ''.'' domain)"

text \<open>\<open>chars().count()\<close>: the bytes that do not continue a character.\<close>

definition chars_count :: "string \<Rightarrow> nat" where
  "chars_count s = length (filter (\<lambda>c. \<not> (128 \<le> (of_char c :: nat) \<and> (of_char c :: nat) < 192)) s)"

definition validate_password :: "string \<Rightarrow> bool" where
  "validate_password password \<longleftrightarrow> chars_count password \<ge> 12"

datatype RegisterError = EmailTaken | RegisterDatabase sqlx_error | FreePlanMissing

record RegisterResult =
  rr_account_id :: uuid
  rr_api_key :: string
  rr_tariff_plan_id :: uuid
  rr_plan_name :: string
  rr_created_at :: timestamp
  rr_email :: string

definition email_exists :: "string \<Rightarrow> db \<Rightarrow> bool" where
  "email_exists email d = list_ex (\<lambda>a. a_email a = email) (accounts d)"

definition new_account :: "timestamp \<Rightarrow> uuid \<Rightarrow> string \<Rightarrow> uuid \<Rightarrow> string option \<Rightarrow> account_row" where
  "new_account now acc email plan password_hash =
     \<lparr> a_account_id = acc, a_email = email, a_tariff_plan_id = plan, a_paddle_customer_id = None,
       a_subscription_status = ''none'', a_current_period_end = None, a_pending_tariff_plan_id = None,
       a_paddle_subscription_id = None, a_password_hash = password_hash, a_created_at = now,
       a_email_verified_at = None \<rparr>"

definition insert_account :: "account_row \<Rightarrow> db \<Rightarrow> sqlx_error + db" where
  "insert_account a d =
     (if a_account_id a \<in> a_account_id ` set (accounts d) then Inl (UniqueViolation ''accounts_pkey'')
      else if a_email a \<in> a_email ` set (accounts d) then Inl (UniqueViolation ''accounts_email_key'')
      else if a_tariff_plan_id a \<notin> p_plan_id ` set (tariff_plans d) then Inl ForeignKeyViolation
      else Inr (d\<lparr> accounts := accounts d @ [a] \<rparr>))"

text \<open>The transaction both registrations run; they differ in the password hash only.\<close>

definition register_tx ::
  "ext \<Rightarrow> timestamp \<Rightarrow> uuid \<Rightarrow> uuid \<Rightarrow> byte list \<Rightarrow> string \<Rightarrow> string option \<Rightarrow> db
    \<Rightarrow> RegisterError + (RegisterResult \<times> db)" where
  "register_tx x now acc key_id secret email password_hash d =
     (if email_exists email d then Inl EmailTaken
      else bind_res (ok_or FreePlanMissing (find (\<lambda>p. p_name p = ''free'') (tariff_plans d))) (\<lambda>free_plan.
        bind_res (map_err RegisterDatabase
          (insert_account (new_account now acc email (p_plan_id free_plan) password_hash) d)) (\<lambda>d1.
        let generated = generate_api_key x secret in
        bind_res (map_err RegisterDatabase (insert_api_key now key_id acc generated ''default'' d1)) (\<lambda>d2.
        Inr (\<lparr> rr_account_id = acc, rr_api_key = g_full_key generated, rr_tariff_plan_id = p_plan_id free_plan,
               rr_plan_name = p_name free_plan, rr_created_at = now, rr_email = email \<rparr>, d2)))))"

definition register_account ::
  "ext \<Rightarrow> web_env \<Rightarrow> timestamp \<Rightarrow> uuid \<Rightarrow> uuid \<Rightarrow> byte list \<Rightarrow> string \<Rightarrow> db
    \<Rightarrow> (RegisterError + RegisterResult) \<times> db" where
  "register_account x v now acc key_id secret email d =
     (case register_tx x now acc key_id secret (we_lower v (trim email)) None d of
        Inl e \<Rightarrow> (Inl e, d) | Inr (r, d') \<Rightarrow> (Inr r, d'))"

definition register_web_account ::
  "ext \<Rightarrow> web_env \<Rightarrow> timestamp \<Rightarrow> uuid \<Rightarrow> uuid \<Rightarrow> byte list \<Rightarrow> string \<Rightarrow> string \<Rightarrow> db
    \<Rightarrow> (RegisterError + RegisterResult) \<times> db" where
  "register_web_account x v now acc key_id secret email password_hash d =
     (case register_tx x now acc key_id secret (we_lower v (trim email)) (Some password_hash) d of
        Inl e \<Rightarrow> (Inl e, d) | Inr (r, d') \<Rightarrow> (Inr r, d'))"

datatype SetPasswordError = AlreadySet | SetPasswordNotFound

definition set_account_password :: "uuid \<Rightarrow> string \<Rightarrow> db \<Rightarrow> (SetPasswordError + unit) \<times> db" where
  "set_account_password acc password_hash d =
     (let unset = (\<lambda>a. a_account_id a = acc \<and> a_password_hash a = None) in
      if list_ex unset (accounts d)
      then (Inr (), d\<lparr> accounts := update_where unset (\<lambda>a. a\<lparr> a_password_hash := Some password_hash \<rparr>) (accounts d) \<rparr>)
      else case find (\<lambda>a. a_account_id a = acc) (accounts d) of
          None \<Rightarrow> (Inl SetPasswordNotFound, d)
        | Some a \<Rightarrow> (Inl (if a_password_hash a \<noteq> None then AlreadySet else SetPasswordNotFound), d))"

section \<open>Reads\<close>

text \<open>\<open>get_account_profile\<close> and \<open>get_dashboard_profile\<close> select columns of the account and its plan.\<close>

definition get_profile :: "uuid \<Rightarrow> db \<Rightarrow> (account_row \<times> plan_row) option" where
  "get_profile acc d = (case account_plan acc d of Inl _ \<Rightarrow> None | Inr ap \<Rightarrow> Some ap)"

record SubscriptionSnapshot =
  ss_plan :: plan_row
  ss_subscription_status :: string
  ss_current_period_end :: "timestamp option"
  ss_pending_plan :: "plan_row option"

definition get_subscription_snapshot :: "uuid \<Rightarrow> db \<Rightarrow> SubscriptionSnapshot option" where
  "get_subscription_snapshot acc d = map_option (\<lambda>(a, p). \<lparr> ss_plan = p,
       ss_subscription_status = a_subscription_status a, ss_current_period_end = a_current_period_end a,
       ss_pending_plan = Option.bind (a_pending_tariff_plan_id a)
         (\<lambda>i. find (\<lambda>q. p_plan_id q = i) (tariff_plans d)) \<rparr>) (get_profile acc d)"

text \<open>The period, the commits of the month and the limit; \<open>get_usage\<close> also reads the time stamps.\<close>

record UsageSnapshot =
  us_plan :: string
  us_period_start :: timestamp
  us_server_commits :: int
  us_monthly_commits_limit :: "int option"
  us_tsa_requests :: int
  us_monthly_tsa_limit :: "int option"

definition get_monthly_usage_snapshot :: "ext \<Rightarrow> timestamp \<Rightarrow> uuid \<Rightarrow> db \<Rightarrow> UsageSnapshot option" where
  "get_monthly_usage_snapshot x now acc d = map_option (\<lambda>(a, p).
       let u = current_usage x now acc d in
       \<lparr> us_plan = p_name p, us_period_start = x_month_start x now,
         us_server_commits = (case u of None \<Rightarrow> 0 | Some r \<Rightarrow> u_server_commits r),
         us_monthly_commits_limit = p_monthly_commits_limit p,
         us_tsa_requests = (case u of None \<Rightarrow> 0 | Some r \<Rightarrow> u_tsa_requests r),
         us_monthly_tsa_limit = p_monthly_tsa_limit p \<rparr>) (get_profile acc d)"

definition get_key_status :: "string \<Rightarrow> db \<Rightarrow> sqlx_error + (string \<times> string \<times> timestamp \<times> timestamp option)" where
  "get_key_status key_hash d = bind_res (fetch_one (\<lambda>k. ak_key_hash k = key_hash) (api_keys d)) (\<lambda>r.
     Inr (ak_label r, if ak_revoked_at r \<noteq> None then ''revoked'' else ''active'', ak_created_at r, ak_revoked_at r))"

datatype DevChangePlanError = DevPlanNotFound | DevAccountNotFound

definition is_valid_dev_plan_name :: "string \<Rightarrow> bool" where
  "is_valid_dev_plan_name plan \<longleftrightarrow> plan \<in> {''free'', ''legal'', ''vault'', ''identity''}"

definition change_dev_plan :: "uuid \<Rightarrow> string \<Rightarrow> db \<Rightarrow> (DevChangePlanError + (string \<times> string)) \<times> db" where
  "change_dev_plan acc plan d =
     (if \<not> is_valid_dev_plan_name plan then (Inl DevPlanNotFound, d)
      else case account_plan acc d of
          Inl _ \<Rightarrow> (Inl DevAccountNotFound, d)
        | Inr (a, old) \<Rightarrow> (case find (\<lambda>p. p_name p = plan) (tariff_plans d) of
            None \<Rightarrow> (Inl DevPlanNotFound, d)
          | Some new \<Rightarrow> (Inr (p_name old, plan), d\<lparr> accounts :=
              update_where (\<lambda>a. a_account_id a = acc) (\<lambda>a. a\<lparr> a_tariff_plan_id := p_plan_id new \<rparr>) (accounts d) \<rparr>)))"

section \<open>Handlers of the browser\<close>

definition JTime :: "ext \<Rightarrow> timestamp \<Rightarrow> json" where
  "JTime x t = JString (x_rfc3339 x t)"

definition web_register_handler ::
  "ext \<Rightarrow> web_env \<Rightarrow> timestamp \<Rightarrow> uuid \<Rightarrow> uuid \<Rightarrow> byte list \<Rightarrow> string \<Rightarrow> string \<Rightarrow> db \<Rightarrow> (ApiError + json) \<times> db" where
  "web_register_handler x v now acc key_id secret email password d =
     (if \<not> is_valid_email email \<or> \<not> validate_password password then (Inl InvalidRequest, d)
      else case we_hash v password of
          None \<Rightarrow> (Inl Internal, d)
        | Some password_hash \<Rightarrow>
            (case register_web_account x v now acc key_id secret email password_hash d of
               (Inl EmailTaken, d') \<Rightarrow> (Inl EmailAlreadyRegistered, d')
             | (Inl _, d') \<Rightarrow> (Inl Internal, d')
             | (Inr r, d') \<Rightarrow> (Inr (JObject [(''account_id'', JUuid x (rr_account_id r)), (''email'', JString (rr_email r)),
                 (''plan'', JString (rr_plan_name r)), (''created_at'', JTime x (rr_created_at r))]), d')))"

text \<open>The answer of a login: the token (it goes into the cookie) and the body.\<close>

definition login_handler ::
  "ext \<Rightarrow> web_env \<Rightarrow> timestamp \<Rightarrow> timestamp \<Rightarrow> uuid \<Rightarrow> byte list \<Rightarrow> bool \<Rightarrow> string \<Rightarrow> string \<Rightarrow> db
    \<Rightarrow> (ApiError + (string \<times> json)) \<times> db" where
  "login_handler x v now clock fresh random dev_mode email password d =
     (if \<not> is_valid_email email then (Inl InvalidCredentials, d)
      else case find (\<lambda>a. a_email a = we_lower v (trim email) \<and>
            a_tariff_plan_id a \<in> p_plan_id ` set (tariff_plans d)) (accounts d) of
          None \<Rightarrow> (Inl InvalidCredentials, d)
        | Some a \<Rightarrow> (case a_password_hash a of
            None \<Rightarrow> (Inl InvalidCredentials, d)
          | Some stored_hash \<Rightarrow> (case we_verify v password stored_hash of
              None \<Rightarrow> (Inl Internal, d)
            | Some valid \<Rightarrow>
                if \<not> valid then (Inl InvalidCredentials, d)
                else case create_session x now clock fresh random (a_account_id a) d of
                    (Inl _, d') \<Rightarrow> (Inl Internal, d')
                  | (Inr token, d') \<Rightarrow> (Inr (session_cookie_value token (\<not> dev_mode), JObject
                      [(''account_id'', JUuid x (a_account_id a)), (''email'', JString (a_email a)),
                       (''plan'', JOpt (\<lambda>p. JString (p_name p)) (find (\<lambda>p. p_plan_id p = a_tariff_plan_id a) (tariff_plans d))),
                       (''subscription_status'', JString (a_subscription_status a))]), d'))))"

definition logout_handler ::
  "ext \<Rightarrow> timestamp \<Rightarrow> bool \<Rightarrow> string option \<Rightarrow> db \<Rightarrow> (ApiError + (string \<times> string)) \<times> db" where
  "logout_handler x now dev_mode cookie d = (case Option.bind cookie parse_session_cookie of
     None \<Rightarrow> (Inl Unauthorized, d)
   | Some token \<Rightarrow> (case require_web_session x now cookie d of
       (Inl e, d') \<Rightarrow> (Inl e, d')
     | (Inr _, d') \<Rightarrow> (Inr (''/login'', clear_session_cookie (\<not> dev_mode)), delete_session_by_token x now token d')))"

definition set_password_handler ::
  "ext \<Rightarrow> web_env \<Rightarrow> timestamp \<Rightarrow> string option \<Rightarrow> string option \<Rightarrow> string \<Rightarrow> db \<Rightarrow> (ApiError + json) \<times> db" where
  "set_password_handler x v now authorization api_key password d =
     (case resolve_authed_account x now authorization api_key d of
        (Inl _, d') \<Rightarrow> (Inl Unauthorized, d')
      | (Inr auth, d') \<Rightarrow>
          if \<not> validate_password password then (Inl InvalidRequest, d')
          else case we_hash v password of
              None \<Rightarrow> (Inl Internal, d')
            | Some password_hash \<Rightarrow> (case set_account_password (auth_account_id auth) password_hash d' of
                (Inl AlreadySet, d2) \<Rightarrow> (Inl PasswordAlreadySet, d2)
              | (Inl SetPasswordNotFound, d2) \<Rightarrow> (Inl NotFound, d2)
              | (Inr _, d2) \<Rightarrow> (Inr (JObject [(''account_id'', JUuid x (auth_account_id auth)),
                  (''message'', JString ''Password set successfully'')]), d2)))"

definition web_get_me :: "ext \<Rightarrow> timestamp \<Rightarrow> string option \<Rightarrow> db \<Rightarrow> (ApiError + json) \<times> db" where
  "web_get_me x now cookie d = (case require_web_session x now cookie d of
     (Inl e, d') \<Rightarrow> (Inl e, d')
   | (Inr acc, d') \<Rightarrow> (case get_profile acc d' of
       None \<Rightarrow> (Inl Unauthorized, d')
     | Some (a, p) \<Rightarrow> (Inr (JObject [(''account_id'', JUuid x acc), (''email'', JString (a_email a)),
         (''plan'', JString (p_name p)), (''subscription_status'', JString (a_subscription_status a)),
         (''created_at'', JTime x (a_created_at a))]), d')))"

section \<open>Handlers of the API and the dashboard\<close>

text \<open>\<open>error_response\<close> of \<open>src/api/accounts.rs\<close>: its own envelope.\<close>

definition accounts_error :: "ext \<Rightarrow> uuid \<Rightarrow> nat \<Rightarrow> string \<Rightarrow> string \<Rightarrow> nat \<times> json" where
  "accounts_error x request_id status c msg = (status, JObject [(''error'', JObject
     [(''code'', JString c), (''message'', JString msg), (''request_id'', JUuid x request_id)])])"

definition register_handler_api ::
  "ext \<Rightarrow> web_env \<Rightarrow> uuid \<Rightarrow> timestamp \<Rightarrow> uuid \<Rightarrow> uuid \<Rightarrow> byte list \<Rightarrow> string \<Rightarrow> string option \<Rightarrow> db
    \<Rightarrow> (nat \<times> json) \<times> db" where
  "register_handler_api x v request_id now acc key_id secret email company_name d =
     (if \<not> is_valid_email email \<or> (case company_name of None \<Rightarrow> False | Some n \<Rightarrow> trim n = [])
      then (accounts_error x request_id 400 ''invalid_request'' ''Invalid request'', d)
      else case register_account x v now acc key_id secret email d of
          (Inl EmailTaken, d') \<Rightarrow> (accounts_error x request_id 409 ''conflict'' ''Request conflict'', d')
        | (Inl _, d') \<Rightarrow> (accounts_error x request_id 500 ''internal_error'' ''Internal server error'', d')
        | (Inr r, d') \<Rightarrow> ((201, JObject [(''account_id'', JUuid x (rr_account_id r)),
            (''api_key'', JString (rr_api_key r)), (''tariff_plan_id'', JUuid x (rr_tariff_plan_id r)),
            (''plan_name'', JString (rr_plan_name r)), (''created_at'', JTime x (rr_created_at r))]), d'))"

definition account_me_handler :: "ext \<Rightarrow> uuid \<Rightarrow> uuid \<Rightarrow> db \<Rightarrow> nat \<times> json" where
  "account_me_handler x request_id acc d = (case get_profile acc d of
     None \<Rightarrow> accounts_error x request_id 404 ''not_found'' ''Resource not found''
   | Some (a, p) \<Rightarrow> (200, JObject [(''account_id'', JUuid x (a_account_id a)), (''email'', JString (a_email a)),
       (''tariff_plan_id'', JUuid x (a_tariff_plan_id a)), (''plan_name'', JString (p_name p)),
       (''subscription_status'', JString (a_subscription_status a)), (''created_at'', JTime x (a_created_at a))]))"

definition map_key_record :: "ext \<Rightarrow> api_key_row \<Rightarrow> json" where
  "map_key_record x k = JObject [(''id'', JUuid x (ak_api_key_id k)),
     (''key_prefix'', JString (key_prefix_for_listing (ak_key_prefix k))), (''label'', JString (ak_label k)),
     (''created_at'', JTime x (ak_created_at k)), (''revoked_at'', JOpt (JTime x) (ak_revoked_at k))]"

definition list_keys_handler :: "ext \<Rightarrow> uuid \<Rightarrow> db \<Rightarrow> nat \<times> json" where
  "list_keys_handler x acc d = (200, JObject [(''api_keys'', JArray (map (map_key_record x) (list_api_keys acc d)))])"

definition create_key_handler ::
  "ext \<Rightarrow> uuid \<Rightarrow> timestamp \<Rightarrow> uuid \<Rightarrow> byte list \<Rightarrow> uuid \<Rightarrow> string option \<Rightarrow> db \<Rightarrow> (nat \<times> json) \<times> db" where
  "create_key_handler x request_id now fresh secret acc label d =
     (let label = (case label of Some l \<Rightarrow> if trim l \<noteq> [] then l else ''default'' | None \<Rightarrow> ''default'') in
      case create_api_key x now fresh secret acc label d of
        (Inl _, d') \<Rightarrow> (accounts_error x request_id 500 ''internal_error'' ''Internal server error'', d')
      | (Inr (g, r), d') \<Rightarrow> ((201, JObject [(''id'', JUuid x (ak_api_key_id r)), (''api_key'', JString (g_full_key g)),
          (''key_prefix'', JString (key_prefix_for_listing (ak_key_prefix r))), (''label'', JString (ak_label r)),
          (''created_at'', JTime x (ak_created_at r))]), d'))"

definition revoke_key_handler :: "ext \<Rightarrow> uuid \<Rightarrow> timestamp \<Rightarrow> uuid \<Rightarrow> uuid \<Rightarrow> db \<Rightarrow> (nat \<times> json) \<times> db" where
  "revoke_key_handler x request_id now acc kid d = (case revoke_api_key now acc kid d of
     (Inr _, d') \<Rightarrow> ((204, JNull), d')
   | (Inl LastActiveKey, d') \<Rightarrow> (accounts_error x request_id 409 ''last_api_key''
       ''Cannot delete the last active API key. Create a new key first.'', d')
   | (Inl RevokeNotFound, d') \<Rightarrow> (accounts_error x request_id 404 ''not_found'' ''Resource not found'', d'))"

definition dev_change_plan_handler ::
  "web_env \<Rightarrow> bool \<Rightarrow> uuid \<Rightarrow> uuid \<Rightarrow> string \<Rightarrow> db \<Rightarrow> (nat \<times> json) \<times> db" where
  "dev_change_plan_handler v dev_mode auth_acc acc plan d =
     (let err = (\<lambda>st m. (st :: nat, JObject [(''error'', JString m)])) in
      if \<not> dev_mode then (err 403 ''Dev tools are not available in this environment'', d)
      else if acc \<noteq> auth_acc then (err 403 ''account_id does not match authenticated account'', d)
      else case change_dev_plan acc (we_lower v plan) d of
          (Inl DevPlanNotFound, d') \<Rightarrow> (err 400 ''Unknown tariff plan'', d')
        | (Inl DevAccountNotFound, d') \<Rightarrow> (err 404 ''Account not found'', d')
        | (Inr (old, new), d') \<Rightarrow> ((200, JObject [(''success'', JBool True), (''old_plan'', JString old),
            (''new_plan'', JString new)]), d'))"

definition v1_me_handler :: "ext \<Rightarrow> uuid \<Rightarrow> db \<Rightarrow> ApiError + json" where
  "v1_me_handler x acc d = (case get_profile acc d of
     None \<Rightarrow> Inl NotFound
   | Some (a, p) \<Rightarrow> Inr (JObject [(''account_id'', JUuid x (a_account_id a)), (''email'', JString (a_email a)),
       (''plan'', JString (p_name p)), (''plan_display'', JString (p_display_name p)),
       (''subscription_status'', JString (a_subscription_status a)), (''created_at'', JTime x (a_created_at a))]))"

definition dashboard_me_handler :: "ext \<Rightarrow> uuid \<Rightarrow> db \<Rightarrow> ApiError + json" where
  "dashboard_me_handler x acc d = (case get_profile acc d of
     None \<Rightarrow> Inl NotFound
   | Some (a, p) \<Rightarrow> Inr (JObject [(''account_id'', JUuid x (a_account_id a)), (''email'', JString (a_email a)),
       (''plan'', JString (p_name p)), (''plan_display'', JString (p_display_name p)),
       (''subscription_status'', JString (a_subscription_status a)), (''created_at'', JTime x (a_created_at a)),
       (''email_verified'', JBool (a_email_verified_at a \<noteq> None))]))"

definition dashboard_subscription_handler :: "ext \<Rightarrow> uuid \<Rightarrow> db \<Rightarrow> ApiError + json" where
  "dashboard_subscription_handler x acc d = (case get_subscription_snapshot acc d of
     None \<Rightarrow> Inl NotFound
   | Some s \<Rightarrow> Inr (JObject [(''plan'', JString (p_name (ss_plan s))), (''plan_display'', JString (p_display_name (ss_plan s))),
       (''subscription_status'', JString (ss_subscription_status s)),
       (''current_period_end'', JOpt (JTime x) (ss_current_period_end s)),
       (''pending_plan'', JOpt (\<lambda>p. JString (p_name p)) (ss_pending_plan s)),
       (''pending_plan_display'', JOpt (\<lambda>p. JString (p_display_name p)) (ss_pending_plan s))]))"

text \<open>\<open>i32\<close>: the product saturates, the quotient rounds toward zero and its divisor is at least 1.\<close>

definition usage_percentage :: "int \<Rightarrow> int \<Rightarrow> int" where
  "usage_percentage commits limit =
     (let p = max (- (2 ^ 31)) (min (2 ^ 31 - 1) (commits * 100)); l = max limit 1
      in if p < 0 then - ((- p) div l) else p div l)"

definition dashboard_usage_handler :: "ext \<Rightarrow> (timestamp \<Rightarrow> string) \<Rightarrow> timestamp \<Rightarrow> uuid \<Rightarrow> db \<Rightarrow> ApiError + json" where
  "dashboard_usage_handler x year_month now acc d = (case get_monthly_usage_snapshot x now acc d of
     None \<Rightarrow> Inl NotFound
   | Some u \<Rightarrow> Inr (JObject [(''period'', JString (year_month (us_period_start u))),
       (''server_commits'', JNumber (us_server_commits u)),
       (''monthly_limit'', JOpt JNumber (us_monthly_commits_limit u)),
       (''percentage'', JOpt (\<lambda>l. JNumber (usage_percentage (us_server_commits u) l)) (us_monthly_commits_limit u))]))"

definition dashboard_list_api_keys_handler :: "ext \<Rightarrow> uuid \<Rightarrow> db \<Rightarrow> json" where
  "dashboard_list_api_keys_handler x acc d = JObject [(''api_keys'', JArray (map (\<lambda>k. JObject
     [(''key_id'', JUuid x (ak_api_key_id k)), (''prefix'', JString (key_prefix_for_listing (ak_key_prefix k))),
      (''created_at'', JTime x (ak_created_at k)), (''last_used_at'', JNull),
      (''revoked_at'', JOpt (JTime x) (ak_revoked_at k)), (''is_active'', JBool (ak_revoked_at k = None))])
     (list_api_keys acc d)))]"

definition dashboard_create_api_key_handler ::
  "ext \<Rightarrow> timestamp \<Rightarrow> uuid \<Rightarrow> byte list \<Rightarrow> uuid \<Rightarrow> db \<Rightarrow> (ApiError + json) \<times> db" where
  "dashboard_create_api_key_handler x now fresh secret acc d =
     (case create_api_key x now fresh secret acc ''dashboard'' d of
        (Inl _, d') \<Rightarrow> (Inl Internal, d')
      | (Inr (g, r), d') \<Rightarrow> (Inr (JObject [(''api_key'', JString (g_full_key g)), (''key_id'', JUuid x (ak_api_key_id r)),
          (''created_at'', JTime x (ak_created_at r))]), d'))"

definition dashboard_revoke_api_key_handler :: "timestamp \<Rightarrow> uuid \<Rightarrow> uuid \<Rightarrow> db \<Rightarrow> (ApiError + nat) \<times> db" where
  "dashboard_revoke_api_key_handler now acc kid d = (case revoke_api_key now acc kid d of
     (Inr _, d') \<Rightarrow> (Inr 204, d')
   | (Inl RevokeNotFound, d') \<Rightarrow> (Inl NotFound, d')
   | (Inl LastActiveKey, d') \<Rightarrow> (Inl Conflict, d'))"

section \<open>Pairing of the desktop application\<close>

definition is_allowed_redirect_uri :: "string \<Rightarrow> bool" where
  "is_allowed_redirect_uri raw = (let uri = trim raw in
     case (case strip_prefix ''http://127.0.0.1:'' uri of
             Some r \<Rightarrow> Some r | None \<Rightarrow> strip_prefix ''http://localhost:'' uri) of
       None \<Rightarrow> False
     | Some rest \<Rightarrow> (case split_once (CHR ''/'') rest of
         None \<Rightarrow> False
       | Some (port, path) \<Rightarrow>
           if port = [] \<or> \<not> list_all is_ascii_digit port then False
           else let path = hd (split_char (CHR ''?'') path) in path = ''callback'' \<or> path = ''callback/''))"

definition append_query :: "string \<Rightarrow> string \<Rightarrow> string \<Rightarrow> string" where
  "append_query base token expires_at =
     base @ (if CHR ''?'' \<in> set base then ''&'' else ''?'') @ ''token='' @ percent_encode token @
     ''&expires_at='' @ percent_encode expires_at"

definition desktop_create_token_handler ::
  "ext \<Rightarrow> timestamp \<Rightarrow> timestamp \<Rightarrow> uuid \<Rightarrow> byte list \<Rightarrow> uuid \<Rightarrow> db \<Rightarrow> (ApiError + json) \<times> db" where
  "desktop_create_token_handler x now clock fresh secret acc d =
     (case create_desktop_token x now clock fresh secret acc d of
        (Inl _, d') \<Rightarrow> (Inl Internal, d')
      | (Inr c, d') \<Rightarrow> (Inr (JObject [(''token'', JString (cd_plaintext c)),
          (''expires_at'', JTime x (cd_expires_at c)), (''token_id'', JUuid x (cd_id c))]), d'))"

definition desktop_revoke_token_handler :: "timestamp \<Rightarrow> uuid \<Rightarrow> uuid \<Rightarrow> db \<Rightarrow> (ApiError + nat) \<times> db" where
  "desktop_revoke_token_handler now acc token_id d = (case revoke_desktop_token now acc token_id d of
     (revoked, d') \<Rightarrow> (if revoked then Inr 204 else Inl NotFound, d'))"

datatype connect_answer = RedirectTo string | ShowToken string timestamp

text \<open>The token is created before the address is checked.\<close>

definition connect_form ::
  "ext \<Rightarrow> timestamp \<Rightarrow> timestamp \<Rightarrow> uuid \<Rightarrow> byte list \<Rightarrow> uuid \<Rightarrow> string option \<Rightarrow> db
    \<Rightarrow> (ApiError + connect_answer) \<times> db" where
  "connect_form x now clock fresh secret acc redirect_uri d =
     (case create_desktop_token x now clock fresh secret acc d of
        (Inl _, d') \<Rightarrow> (Inl Internal, d')
      | (Inr c, d') \<Rightarrow>
          (case Option.bind redirect_uri (\<lambda>u. let t = trim u in if t = [] then None else Some t) of
             None \<Rightarrow> (Inr (ShowToken (cd_plaintext c) (cd_expires_at c)), d')
           | Some redirect \<Rightarrow>
               if \<not> is_allowed_redirect_uri redirect then (Inl InvalidRequest, d')
               else (Inr (RedirectTo (append_query redirect (cd_plaintext c) (x_rfc3339 x (cd_expires_at c)))), d')))"

section \<open>Registration and login\<close>

definition accounts_ok :: "db \<Rightarrow> bool" where
  "accounts_ok d \<longleftrightarrow> distinct (map a_account_id (accounts d)) \<and> distinct (map a_email (accounts d)) \<and>
     list_all (\<lambda>a. a_tariff_plan_id a \<in> p_plan_id ` set (tariff_plans d)) (accounts d)"

lemma register_tx_Inr:
  assumes "register_tx x now acc key_id secret email pw d = Inr (r, d')"
  obtains p where "find (\<lambda>p. p_name p = ''free'') (tariff_plans d) = Some p"
    "insert_account (new_account now acc email (p_plan_id p) pw) d =
       Inr (d\<lparr> accounts := accounts d @ [new_account now acc email (p_plan_id p) pw] \<rparr>)"
    "d' = d\<lparr> accounts := accounts d @ [new_account now acc email (p_plan_id p) pw],
       api_keys := api_keys d @ [api_key_row_of now key_id acc (generate_api_key x secret) ''default''] \<rparr>"
    "r = \<lparr> rr_account_id = acc, rr_api_key = g_full_key (generate_api_key x secret), rr_tariff_plan_id = p_plan_id p,
       rr_plan_name = ''free'', rr_created_at = now, rr_email = email \<rparr>"
    "g_key_hash (generate_api_key x secret) \<notin> ak_key_hash ` set (api_keys d)"
    "key_id \<notin> ak_api_key_id ` set (api_keys d)" "\<not> email_exists email d"
proof -
  obtain p d1 where p: "find (\<lambda>p. p_name p = ''free'') (tariff_plans d) = Some p"
    and d1: "insert_account (new_account now acc email (p_plan_id p) pw) d = Inr d1"
    and key: "insert_api_key now key_id acc (generate_api_key x secret) ''default'' d1 = Inr d'"
    and r: "r = \<lparr> rr_account_id = acc, rr_api_key = g_full_key (generate_api_key x secret),
       rr_tariff_plan_id = p_plan_id p, rr_plan_name = p_name p, rr_created_at = now, rr_email = email \<rparr>"
    and e: "\<not> email_exists email d"
    using assms by (auto simp: register_tx_def Let_def bind_res_Inr map_err_Inr ok_or_Inr split: if_splits)
  have d1': "d1 = d\<lparr> accounts := accounts d @ [new_account now acc email (p_plan_id p) pw] \<rparr>"
    using d1 by (simp add: insert_account_def split: if_splits)
  have "p_name p = ''free''" using find_SomeD [OF p] by simp
  with p d1 d1' key r e that show thesis by (simp add: insert_api_key_Inr)
qed

lemma insert_account_new:
  assumes "insert_account a d = Inr d'"
  shows "a_account_id a \<notin> a_account_id ` set (accounts d)" "a_email a \<notin> a_email ` set (accounts d)"
    "a_tariff_plan_id a \<in> p_plan_id ` set (tariff_plans d)"
  using assms by (auto simp: insert_account_def split: if_splits)

lemma new_account_simps [simp]:
  "a_account_id (new_account now acc email plan pw) = acc"
  "a_email (new_account now acc email plan pw) = email"
  "a_tariff_plan_id (new_account now acc email plan pw) = plan"
  "a_password_hash (new_account now acc email plan pw) = pw"
  by (simp_all add: new_account_def)

lemma register_keeps_ok:
  assumes "accounts_ok d" "credentials_ok d" "register_tx x now acc key_id secret email pw d = Inr (r, d')"
  shows "accounts_ok d'" "credentials_ok d'"
proof -
  obtain p where "find (\<lambda>p. p_name p = ''free'') (tariff_plans d) = Some p"
    and p: "insert_account (new_account now acc email (p_plan_id p) pw) d =
       Inr (d\<lparr> accounts := accounts d @ [new_account now acc email (p_plan_id p) pw] \<rparr>)"
    and d': "d' = d\<lparr> accounts := accounts d @ [new_account now acc email (p_plan_id p) pw],
       api_keys := api_keys d @ [api_key_row_of now key_id acc (generate_api_key x secret) ''default''] \<rparr>"
    and "r = \<lparr> rr_account_id = acc, rr_api_key = g_full_key (generate_api_key x secret), rr_tariff_plan_id = p_plan_id p,
       rr_plan_name = ''free'', rr_created_at = now, rr_email = email \<rparr>"
    and new: "g_key_hash (generate_api_key x secret) \<notin> ak_key_hash ` set (api_keys d)"
      "key_id \<notin> ak_api_key_id ` set (api_keys d)" "\<not> email_exists email d"
    by (rule register_tx_Inr [OF assms(3)])
  note n = insert_account_new [OF p, unfolded new_account_simps]
  show "accounts_ok d'" using assms(1) n by (simp add: accounts_ok_def d')
  show "credentials_ok d'" using assms(2) new by (simp add: credentials_ok_def d')
qed

lemma web_register_Inr:
  assumes "web_register_handler x v now acc key_id secret email password d = (Inr body, d')"
  obtains h r where "is_valid_email email" "validate_password password" "we_hash v password = Some h"
    "register_tx x now acc key_id secret (we_lower v (trim email)) (Some h) d = Inr (r, d')"
  using assms
  by (auto simp: web_register_handler_def register_web_account_def split: if_splits option.splits sum.splits RegisterError.splits)

text \<open>The registered address and password log in; the cookie of the answer runs requests as the account.\<close>

lemma registered_account_logs_in:
  assumes "accounts_ok d" "web_env_ok v" "web_register_handler x v now acc key_id secret email password d = (Inr body, d')"
    and "is_valid_email email'" "we_lower v (trim email') = we_lower v (trim email)"
    and "create_session x now' clock fresh random acc d' = (Inr token, d2)"
  shows "\<exists>answer. login_handler x v now' clock fresh random dev_mode email' password d' =
     (Inr (session_cookie_value token (\<not> dev_mode), answer), d2)"
proof -
  obtain h r where "is_valid_email email" "validate_password password" and h: "we_hash v password = Some h"
    and reg: "register_tx x now acc key_id secret (we_lower v (trim email)) (Some h) d = Inr (r, d')"
    by (rule web_register_Inr [OF assms(3)])
  obtain p where "find (\<lambda>p. p_name p = ''free'') (tariff_plans d) = Some p"
    and ins: "insert_account (new_account now acc (we_lower v (trim email)) (p_plan_id p) (Some h)) d =
       Inr (d\<lparr> accounts := accounts d @ [new_account now acc (we_lower v (trim email)) (p_plan_id p) (Some h)] \<rparr>)"
    and d': "d' = d\<lparr> accounts := accounts d @ [new_account now acc (we_lower v (trim email)) (p_plan_id p) (Some h)],
       api_keys := api_keys d @ [api_key_row_of now key_id acc (generate_api_key x secret) ''default''] \<rparr>"
    and "r = \<lparr> rr_account_id = acc, rr_api_key = g_full_key (generate_api_key x secret), rr_tariff_plan_id = p_plan_id p,
       rr_plan_name = ''free'', rr_created_at = now, rr_email = (we_lower v (trim email)) \<rparr>"
    and "g_key_hash (generate_api_key x secret) \<notin> ak_key_hash ` set (api_keys d)"
      "key_id \<notin> ak_api_key_id ` set (api_keys d)" "\<not> email_exists (we_lower v (trim email)) d"
    by (rule register_tx_Inr [OF reg])
  define a where "a = new_account now acc (we_lower v (trim email)) (p_plan_id p) (Some h)"
  note n = insert_account_new [OF ins, unfolded new_account_simps]
  have "find (\<lambda>b. a_email b = we_lower v (trim email) \<and> a_tariff_plan_id b \<in> p_plan_id ` set (tariff_plans d'))
      (accounts d) = None"
    using n(2) unfolding find_None_iff by (metis image_eqI)
  then have found: "find (\<lambda>b. a_email b = we_lower v (trim email) \<and> a_tariff_plan_id b \<in> p_plan_id ` set (tariff_plans d'))
      (accounts d') = Some a"
    using n(3) by (simp add: d' find_append a_def)
  have "we_verify v password h = Some True" using assms(2) h by (simp add: web_env_ok_def)
  then show ?thesis
    unfolding login_handler_def assms(5) found using assms(4,6) by (simp add: a_def)
qed

lemma session_cookie_parses:
  assumes "hex_ok x" "random \<noteq> []"
  shows "parse_session_cookie (session_cookie_name @ ''='' @ x_hex_encode x random) = Some (x_hex_encode x random)"
proof -
  let ?c = "session_cookie_name @ ''='' @ x_hex_encode x random"
  have hex: "list_all is_lower_hex (x_hex_encode x random)" using assms(1) by (simp add: hex_ok_def)
  have "list_all is_graph ?c"
    using hex is_lower_hex_graph by (auto simp: list_all_iff session_cookie_name_def is_graph_def)
  then have trim: "trim ?c = ?c" by (rule trim_graph)
  have "CHR '';'' \<notin> set (x_hex_encode x random)" using hex by (auto simp: list_all_iff is_lower_hex_def)
  then have "CHR '';'' \<notin> set ?c" by (simp add: session_cookie_name_def)
  then have split: "split_char (CHR '';'') ?c = [?c]" by (rule split_char_no)
  have "length (x_hex_encode x random) = 2 * length random" using assms(1) by (simp add: hex_ok_def)
  then have "x_hex_encode x random \<noteq> []" using assms(2) by auto
  moreover have "strip_prefix (session_cookie_name @ ''='') ?c = Some (x_hex_encode x random)"
    using strip_prefix_append [of "session_cookie_name @ ''=''" "x_hex_encode x random"] by simp
  ultimately show ?thesis unfolding parse_session_cookie_def split find_cookie.simps trim by simp
qed

lemma session_request:
  assumes "hex_ok x" "random \<noteq> []" "create_session x now clock fresh random acc d = (Inr token, d')"
  shows "fst (session_auth_middleware x t (Some (session_cookie_name @ ''='' @ token)) d') =
     (if t \<le> clock + 30 * day then Inr acc else Inl Unauthorized)"
proof -
  have token: "token = x_hex_encode x random" by (rule create_session_Inr(1) [OF assms(3)])
  have "session_auth_middleware x t (Some (session_cookie_name @ ''='' @ token)) d' =
      (case resolve_session_account_id x t token d' of (Some a, d2) \<Rightarrow> (Inr a, d2) | (None, d2) \<Rightarrow> (Inl Unauthorized, d2))"
    by (simp add: session_auth_middleware_def optional_session_user_def token session_cookie_parses [OF assms(1,2), simplified])
  then show ?thesis
    using session_lifecycle(1) [OF assms(3), of t]
    by (cases "resolve_session_account_id x t token d'") (simp split: option.split)
qed

text \<open>A second registration under an address that normalises to a stored one is refused.\<close>

lemma taken_email_refused:
  assumes "a \<in> set (accounts d)" "we_lower v (trim email) = a_email a"
  shows "register_web_account x v now acc key_id secret email h d = (Inl EmailTaken, d)"
    "register_account x v now acc key_id secret email d = (Inl EmailTaken, d)"
  using assms by (auto simp: register_web_account_def register_account_def register_tx_def email_exists_def list_ex_iff)

lemma register_error_unchanged:
  "register_web_account x v now acc key_id secret email h d = (Inl e, d') \<Longrightarrow> d' = d"
  "register_account x v now acc key_id secret email d = (Inl e, d') \<Longrightarrow> d' = d"
  by (auto simp: register_web_account_def register_account_def split: sum.splits)

section \<open>Addresses a token is sent to\<close>

text \<open>Trimming strips all there is to strip.\<close>

lemma strip_many_done:
  assumes "length s \<le> n" "[] \<notin> set ws"
  shows "find (\<lambda>w. prefix w (strip_many n ws s)) ws = None"
  using assms
proof (induction n arbitrary: s)
  case 0
  then show ?case by (auto simp: find_None_iff)
next
  case (Suc n)
  show ?case
  proof (cases "find (\<lambda>w. prefix w s) ws")
    case None
    then show ?thesis by (simp add: strip_enc_def)
  next
    case (Some w)
    then have "w \<noteq> []" "prefix w s" using find_SomeD [OF Some] Suc.prems(2) by auto
    then have "length (drop (length w) s) \<le> n" using Suc.prems(1) by (cases w) (auto simp: prefix_def)
    then show ?thesis using Suc.IH Suc.prems(2) Some by (simp add: strip_enc_def)
  qed
qed

lemma strip_none: "find (\<lambda>w. prefix w s) ws = None \<Longrightarrow> strip_many n ws s = s"
  by (cases n) (simp_all add: strip_enc_def)

lemma strip_many_suffix: "\<exists>p. s = p @ strip_many n ws s"
proof (induction n arbitrary: s)
  case (Suc n)
  show ?case
  proof (cases "find (\<lambda>w. prefix w s) ws")
    case (Some w)
    then have "s = w @ drop (length w) s" using find_SomeD [OF Some] by (auto simp: prefix_def)
    then show ?thesis using Suc [of "drop (length w) s"] Some by (simp add: strip_enc_def) (metis append.assoc)
  qed (simp add: strip_enc_def)
qed simp

lemma trim_trim: "trim (trim s) = trim s"
proof -
  have ne: "[] \<notin> set ws_encodings" "[] \<notin> set (map rev ws_encodings)" using ws_encodings_nonempty by auto
  define t where "t = trim_start s"
  have t: "find (\<lambda>w. prefix w t) ws_encodings = None"
    unfolding t_def trim_start_def by (rule strip_many_done [OF _ ne(1)]) simp
  obtain p where p: "rev t = p @ rev (trim_end t)"
    using strip_many_suffix [of "rev t" "length t" "map rev ws_encodings"] by (auto simp: trim_end_def)
  then have "prefix (trim_end t) t" by (metis prefixI rev_append rev_rev_ident)
  then have "find (\<lambda>w. prefix w (trim_end t)) ws_encodings = None"
    using t by (auto simp: find_None_iff dest: prefix_order.trans)
  then have start: "trim_start (trim_end t) = trim_end t" by (simp add: trim_start_def strip_none)
  have "find (\<lambda>w. prefix w (rev (trim_end t))) (map rev ws_encodings) = None"
    using strip_many_done [OF _ ne(2), of "rev t" "length t"] by (simp add: trim_end_def)
  then have "trim_end (trim_end t) = trim_end t" by (simp add: trim_end_def [of "trim_end t"] strip_none)
  then show ?thesis by (simp add: trim_def t_def [symmetric] start)
qed

definition loopback_callback :: "string \<Rightarrow> bool" where
  "loopback_callback u \<longleftrightarrow> (\<exists>host port path query. host \<in> {''127.0.0.1'', ''localhost''} \<and>
     port \<noteq> [] \<and> list_all is_ascii_digit port \<and> path \<in> {''callback'', ''callback/''} \<and>
     (query = [] \<or> (\<exists>q. query = CHR ''?'' # q)) \<and>
     u = ''http://'' @ host @ '':'' @ port @ ''/'' @ path @ query)"

lemma hd_split_char: "hd (split_char c s) = takeWhile (\<lambda>a. a \<noteq> c) s"
proof (induction s)
  case (Cons a s)
  have "split_char c s \<noteq> []" by (induction s) (auto split: list.split)
  with Cons show ?case by (cases "split_char c s") auto
qed simp

lemma query_split: "takeWhile (\<lambda>a. a \<noteq> c) s = p \<Longrightarrow> \<exists>q. s = p @ q \<and> (q = [] \<or> (\<exists>r. q = c # r))"
proof -
  assume p: "takeWhile (\<lambda>a. a \<noteq> c) s = p"
  have "dropWhile (\<lambda>a. a \<noteq> c) s = [] \<or> (\<exists>r. dropWhile (\<lambda>a. a \<noteq> c) s = c # r)"
  proof (cases "dropWhile (\<lambda>a. a \<noteq> c) s")
    case (Cons b r)
    then have "b = c" using hd_dropWhile [of "\<lambda>a. a \<noteq> c" s] by simp
    with Cons show ?thesis by simp
  qed simp
  moreover have "s = p @ dropWhile (\<lambda>a. a \<noteq> c) s" using takeWhile_dropWhile_id [of "\<lambda>a. a \<noteq> c" s] p by simp
  ultimately show ?thesis by blast
qed

lemma allowed_redirect: "is_allowed_redirect_uri u \<longleftrightarrow> loopback_callback (trim u)"
proof
  assume a: "is_allowed_redirect_uri u"
  have "\<exists>host rest. host \<in> {''127.0.0.1'', ''localhost''} \<and> trim u = ''http://'' @ host @ '':'' @ rest \<and>
    (case split_once (CHR ''/'') rest of None \<Rightarrow> False
       | Some (port, path) \<Rightarrow> if port = [] \<or> \<not> list_all is_ascii_digit port then False
           else let path = hd (split_char (CHR ''?'') path) in path = ''callback'' \<or> path = ''callback/'')"
  proof (cases "strip_prefix ''http://127.0.0.1:'' (trim u)")
    case (Some r)
    then have "trim u = ''http://'' @ ''127.0.0.1'' @ '':'' @ r" by (simp add: strip_prefix_Some)
    then show ?thesis
      using a Some unfolding is_allowed_redirect_uri_def Let_def
      by (intro exI [of _ "''127.0.0.1''"] exI [of _ r] conjI) simp_all
  next
    case None
    then obtain r where r: "strip_prefix ''http://localhost:'' (trim u) = Some r"
      using a unfolding is_allowed_redirect_uri_def Let_def by (auto split: option.splits)
    then have "trim u = ''http://'' @ ''localhost'' @ '':'' @ r" by (simp add: strip_prefix_Some)
    then show ?thesis
      using a r None unfolding is_allowed_redirect_uri_def Let_def
      by (intro exI [of _ "''localhost''"] exI [of _ r] conjI) simp_all
  qed
  then obtain host rest where host: "host \<in> {''127.0.0.1'', ''localhost''}" "trim u = ''http://'' @ host @ '':'' @ rest"
    and rest: "case split_once (CHR ''/'') rest of None \<Rightarrow> False
       | Some (port, path) \<Rightarrow> if port = [] \<or> \<not> list_all is_ascii_digit port then False
           else let path = hd (split_char (CHR ''?'') path) in path = ''callback'' \<or> path = ''callback/''"
    by blast
  then obtain port path where s: "split_once (CHR ''/'') rest = Some (port, path)"
    "port \<noteq> []" "list_all is_ascii_digit port"
    "hd (split_char (CHR ''?'') path) \<in> {''callback'', ''callback/''}"
    by (auto simp: Let_def split: option.splits if_splits)
  obtain q where q: "path = hd (split_char (CHR ''?'') path) @ q" "q = [] \<or> (\<exists>r. q = CHR ''?'' # r)"
    using query_split [of "CHR ''?''" path] by (metis hd_split_char)
  have "rest = port @ ''/'' @ hd (split_char (CHR ''?'') path) @ q"
    using s(1) q(1) by (simp add: split_once_Some)
  then show "loopback_callback (trim u)"
    unfolding loopback_callback_def using host s q(2) by metis
next
  assume "loopback_callback (trim u)"
  then obtain host port path query where h: "host \<in> {''127.0.0.1'', ''localhost''}"
    and p: "port \<noteq> []" "list_all is_ascii_digit port" and path: "path \<in> {''callback'', ''callback/''}"
    and query: "query = [] \<or> (\<exists>q. query = CHR ''?'' # q)"
    and u: "trim u = ''http://'' @ host @ '':'' @ port @ ''/'' @ path @ query"
    unfolding loopback_callback_def by blast
  have "CHR ''/'' \<notin> set port" using p(2) by (auto simp: list_all_iff is_ascii_digit_def)
  then have s: "split_once (CHR ''/'') (port @ ''/'' @ path @ query) = Some (port, path @ query)" by simp
  have "takeWhile (\<lambda>a. a \<noteq> CHR ''?'') (path @ query) = path" using path query by auto
  then have hd: "hd (split_char (CHR ''?'') (path @ query)) = path" by (simp only: hd_split_char)
  show "is_allowed_redirect_uri u"
    using h
  proof
    assume "host = ''127.0.0.1''"
    then have "strip_prefix ''http://127.0.0.1:'' (trim u) = Some (port @ ''/'' @ path @ query)"
      by (simp add: u strip_prefix_Some)
    then show ?thesis unfolding is_allowed_redirect_uri_def Let_def using s p hd path by auto
  next
    assume "host \<in> {''localhost''}"
    then have "strip_prefix ''http://localhost:'' (trim u) = Some (port @ ''/'' @ path @ query)"
      "strip_prefix ''http://127.0.0.1:'' (trim u) = None"
      by (simp_all add: u strip_prefix_Some strip_prefix_def)
    then show ?thesis unfolding is_allowed_redirect_uri_def Let_def using s p hd path by auto
  qed
qed

text \<open>Adding the token to such an address leads to the same page.\<close>

lemma append_query_loopback:
  assumes "loopback_callback u"
  shows "loopback_callback (append_query u token ends)"
proof -
  obtain host port path query where u: "host \<in> {''127.0.0.1'', ''localhost''}" "port \<noteq> []" "list_all is_ascii_digit port"
    "path \<in> {''callback'', ''callback/''}" "query = [] \<or> (\<exists>q. query = CHR ''?'' # q)"
    "u = ''http://'' @ host @ '':'' @ port @ ''/'' @ path @ query"
    using assms unfolding loopback_callback_def by blast
  have "CHR ''?'' \<notin> set port" using u(3) by (auto simp: list_all_iff is_ascii_digit_def Let_def)
  then have mark: "CHR ''?'' \<in> set u \<longleftrightarrow> query \<noteq> []" using u(1,4-6) by auto
  define rest where "rest = ''token='' @ percent_encode token @ ''&expires_at='' @ percent_encode ends"
  have "append_query u token ends = ''http://'' @ host @ '':'' @ port @ ''/'' @ path @
      (query @ (if query \<noteq> [] then ''&'' else ''?'') @ rest)"
    by (simp add: append_query_def mark rest_def) (simp add: u(6))
  moreover have "\<exists>q. query @ (if query \<noteq> [] then ''&'' else ''?'') @ rest = CHR ''?'' # q" using u(5) by auto
  ultimately show ?thesis using u(1-4) unfolding loopback_callback_def by blast
qed

lemma connect_form_answer:
  "case connect_form x now clock fresh secret acc redirect d of
     (Inr (RedirectTo target), d') \<Rightarrow> loopback_callback target \<and> (\<exists>u c. redirect = Some u \<and> loopback_callback (trim u) \<and>
        create_desktop_token x now clock fresh secret acc d = (Inr c, d') \<and>
        target = append_query (trim u) (cd_plaintext c) (x_rfc3339 x (cd_expires_at c)))
   | (Inr (ShowToken _ _), d') \<Rightarrow> redirect = None \<or> (\<exists>u. redirect = Some u \<and> trim u = [])
   | (Inl e, d') \<Rightarrow> e = Internal \<or> e = InvalidRequest \<and>
        (\<exists>u. redirect = Some u \<and> trim u \<noteq> [] \<and> \<not> loopback_callback (trim u))"
proof -
  obtain r d' where c: "create_desktop_token x now clock fresh secret acc d = (r, d')" by fastforce
  have allowed: "is_allowed_redirect_uri (trim u) \<longleftrightarrow> loopback_callback (trim u)" for u
    by (simp add: allowed_redirect trim_trim)
  show ?thesis
    using append_query_loopback
    by (cases r; cases redirect) (simp_all add: connect_form_def c allowed Let_def split: if_split)
qed

end
