(* ===== verification/Billing.thy ===== *)
theory Billing
  imports Paddle Accounts
begin

text \<open>
  Payments: the customer link (\<open>src/paddle/linking.rs\<close>), the client of the payment provider
  (\<open>src/paddle/client.rs\<close>), the upgrade (\<open>src/service/billing.rs\<close>,
  \<open>src/api/dashboard_billing.rs\<close>), and the system in which webhook deliveries, links, upgrades
  and the lazy transitions interleave.  The answers of the provider are arguments.
\<close>

section \<open>Linking\<close>

datatype LinkCustomerError = CustomerAlreadyLinkedToOtherAccount | AccountAlreadyLinkedToOtherCustomer | LinkDatabase

text \<open>\<open>UPDATE accounts SET paddle_customer_id = $1 WHERE account_id = $2 AND (... IS NULL OR ... = $1)\<close>.\<close>

definition linkable :: "uuid \<Rightarrow> string \<Rightarrow> account_row \<Rightarrow> bool" where
  "linkable acc customer a \<longleftrightarrow> a_account_id a = acc \<and>
     (a_paddle_customer_id a = None \<or> a_paddle_customer_id a = Some customer)"

definition set_customer :: "uuid \<Rightarrow> string \<Rightarrow> db \<Rightarrow> db" where
  "set_customer acc customer d = d\<lparr> accounts :=
     update_where (linkable acc customer) (\<lambda>a. a\<lparr> a_paddle_customer_id := Some customer \<rparr>) (accounts d) \<rparr>"

definition customer_owner :: "string \<Rightarrow> db \<Rightarrow> uuid option" where
  "customer_owner customer d = map_option a_account_id (find (\<lambda>a. a_paddle_customer_id a = Some customer) (accounts d))"

definition current_customer :: "uuid \<Rightarrow> db \<Rightarrow> string option" where
  "current_customer acc d = Option.bind (find (\<lambda>a. a_account_id a = acc) (accounts d)) a_paddle_customer_id"

definition link_paddle_customer_to_account :: "uuid \<Rightarrow> string \<Rightarrow> db \<Rightarrow> (LinkCustomerError + unit) \<times> db" where
  "link_paddle_customer_to_account acc customer d =
     (case customer_owner customer d of
        Some other \<Rightarrow> (if other = acc then Inr () else Inl CustomerAlreadyLinkedToOtherAccount, d)
      | None \<Rightarrow>
          if list_ex (linkable acc customer) (accounts d) then (Inr (), set_customer acc customer d)
          else let current = current_customer acc d in
            (if current = Some customer then Inr ()
             else if current \<noteq> None then Inl AccountAlreadyLinkedToOtherCustomer else Inl LinkDatabase, d))"

section \<open>The provider's answers\<close>

datatype PaddleClientError = ClientTimeout | ClientNetworkError string | ClientApiError nat string | ClientInvalidResponse

text \<open>\<open>Value::pointer\<close>; the only index used is 0.\<close>

fun json_pointer :: "string list \<Rightarrow> json \<Rightarrow> json option" where
  "json_pointer [] v = Some v"
| "json_pointer (k # ks) (JObject kvs) = Option.bind (map_of kvs k) (json_pointer ks)"
| "json_pointer (k # ks) (JArray vs) = (if k = ''0'' \<and> vs \<noteq> [] then json_pointer ks (hd vs) else None)"
| "json_pointer (k # ks) _ = None"

definition pointer_str :: "string list \<Rightarrow> json \<Rightarrow> string option" where
  "pointer_str path v = Option.bind (json_pointer path v) json_str"

definition format_paddle_error_message :: "(string \<Rightarrow> json option) \<Rightarrow> nat \<Rightarrow> string \<Rightarrow> string" where
  "format_paddle_error_message parse status body =
     (let st = ''status='' @ digits status; tail = '' body='' @ body in
      case parse body of
        None \<Rightarrow> st @ tail
      | Some json \<Rightarrow> (case (pointer_str [''error'', ''code''] json, pointer_str [''error'', ''detail''] json) of
            (Some c, Some detail) \<Rightarrow> st @ '' code='' @ c @ '' detail='' @ detail @ tail
          | (Some c, None) \<Rightarrow> st @ '' code='' @ c @ tail
          | (None, Some detail) \<Rightarrow> st @ '' detail='' @ detail @ tail
          | (None, None) \<Rightarrow> st @ tail))"

text \<open>The part the three parsers share: errors, and the JSON of a success.\<close>

definition reply_json :: "(string \<Rightarrow> json option) \<Rightarrow> http_reply \<Rightarrow> PaddleClientError + json" where
  "reply_json parse reply = (case reply of
     RequestTimeout \<Rightarrow> Inl ClientTimeout
   | RequestFailed msg \<Rightarrow> Inl (ClientNetworkError msg)
   | BodyFailed _ msg \<Rightarrow> Inl (ClientNetworkError msg)
   | HttpReply status body \<Rightarrow>
       if \<not> is_success status then Inl (ClientApiError status (format_paddle_error_message parse status body))
       else ok_or ClientInvalidResponse (parse body))"

definition parse_customer_response :: "(string \<Rightarrow> json option) \<Rightarrow> http_reply \<Rightarrow> PaddleClientError + string" where
  "parse_customer_response parse reply =
     bind_res (reply_json parse reply) (\<lambda>json. ok_or ClientInvalidResponse (pointer_str [''data'', ''id''] json))"

definition find_customer_id_by_email :: "(string \<Rightarrow> json option) \<Rightarrow> http_reply \<Rightarrow> PaddleClientError + string" where
  "find_customer_id_by_email parse reply =
     bind_res (reply_json parse reply) (\<lambda>json. ok_or ClientInvalidResponse (pointer_str [''data'', ''0'', ''id''] json))"

text \<open>The second request runs when the provider reports a conflict.\<close>

definition create_customer ::
  "(string \<Rightarrow> json option) \<Rightarrow> http_reply \<Rightarrow> http_reply \<Rightarrow> PaddleClientError + string" where
  "create_customer parse post_reply get_reply = (case parse_customer_response parse post_reply of
     Inr i \<Rightarrow> Inr i
   | Inl (ClientApiError status msg) \<Rightarrow>
       if status = 409 \<or> contains ''conflicts with customer'' msg then find_customer_id_by_email parse get_reply
       else Inl (ClientApiError status msg)
   | Inl e \<Rightarrow> Inl e)"

definition extract_checkout_url :: "json \<Rightarrow> string option" where
  "extract_checkout_url json =
     (let candidates = [[''data'', ''checkout'', ''url''], [''data'', ''details'', ''checkout'', ''url''], [''checkout'', ''url'']]
      in Option.bind (find (\<lambda>p. case pointer_str p json of None \<Rightarrow> False | Some u \<Rightarrow> u \<noteq> []) candidates)
           (\<lambda>p. pointer_str p json))"

record CheckoutSession =
  cs_checkout_url :: string
  cs_transaction_id :: string

definition parse_checkout_response :: "(string \<Rightarrow> json option) \<Rightarrow> http_reply \<Rightarrow> PaddleClientError + CheckoutSession" where
  "parse_checkout_response parse reply = bind_res (reply_json parse reply) (\<lambda>json.
     case (extract_checkout_url json, Option.bind (pointer_str [''data'', ''id''] json) (\<lambda>t. if t \<noteq> [] then Some t else None)) of
       (Some url, Some txn) \<Rightarrow> Inr \<lparr> cs_checkout_url = url, cs_transaction_id = txn \<rparr>
     | _ \<Rightarrow> Inl ClientInvalidResponse)"

fun paddle_client_error_is_unavailable :: "PaddleClientError \<Rightarrow> bool" where
  "paddle_client_error_is_unavailable ClientTimeout = True"
| "paddle_client_error_is_unavailable (ClientNetworkError _) = True"
| "paddle_client_error_is_unavailable (ClientApiError status _) = (status \<ge> 500)"
| "paddle_client_error_is_unavailable ClientInvalidResponse = False"

section \<open>Upgrades\<close>

datatype BillingError =
    CustomerCreationFailed | CheckoutCreationFailed | AlreadyActive | BillingAccountNotFound
  | PaddleUnavailable | InvalidPlan | PlanNotPurchasable | BillingInternal

definition map_create_customer_error :: "PaddleClientError \<Rightarrow> BillingError" where
  "map_create_customer_error e = (if paddle_client_error_is_unavailable e then PaddleUnavailable else CustomerCreationFailed)"

definition map_checkout_error :: "PaddleClientError \<Rightarrow> BillingError" where
  "map_checkout_error e = (if paddle_client_error_is_unavailable e then PaddleUnavailable else CheckoutCreationFailed)"

definition has_active_subscription :: "uuid \<Rightarrow> db \<Rightarrow> BillingError + bool" where
  "has_active_subscription acc d = (case find (\<lambda>a. a_account_id a = acc) (accounts d) of
     Some a \<Rightarrow> Inr (a_subscription_status a = ''active'') | None \<Rightarrow> Inl BillingAccountNotFound)"

definition resolve_purchasable_plan :: "string \<Rightarrow> db \<Rightarrow> BillingError + string" where
  "resolve_purchasable_plan plan_name d = (case find (\<lambda>p. p_name p = plan_name) (tariff_plans d) of
     None \<Rightarrow> Inl InvalidPlan
   | Some p \<Rightarrow> if p_name p = ''free'' then Inl InvalidPlan
       else ok_or PlanNotPurchasable (p_paddle_price_id p))"

definition save_paddle_customer_id :: "uuid \<Rightarrow> string \<Rightarrow> db \<Rightarrow> BillingError + db" where
  "save_paddle_customer_id acc customer d =
     (case customer_owner customer d of
        Some other \<Rightarrow> if other \<noteq> acc then Inl BillingInternal else Inr d
      | None \<Rightarrow>
          if list_ex (linkable acc customer) (accounts d) then Inr (set_customer acc customer d)
          else if current_customer acc d = Some customer then Inr d else Inl BillingInternal)"

text \<open>The row of the account is locked for the whole transaction, the request to the provider included.\<close>

definition ensure_paddle_customer ::
  "PaddleClientError + string \<Rightarrow> uuid \<Rightarrow> db \<Rightarrow> (BillingError + string) \<times> db" where
  "ensure_paddle_customer created acc d =
     (case find (\<lambda>a. a_account_id a = acc) (accounts d) of
        None \<Rightarrow> (Inl BillingAccountNotFound, d)
      | Some a \<Rightarrow> (case a_paddle_customer_id a of
          Some customer \<Rightarrow> (Inr customer, d)
        | None \<Rightarrow> (case map_err map_create_customer_error created of
            Inl e \<Rightarrow> (Inl e, d)
          | Inr customer \<Rightarrow> (case save_paddle_customer_id acc customer d of
              Inl e \<Rightarrow> (Inl e, d) | Inr d' \<Rightarrow> (Inr customer, d')))))"

text \<open>\<open>checkout\<close> answers for a customer and a price.\<close>

definition create_checkout ::
  "(string \<Rightarrow> string \<Rightarrow> PaddleClientError + CheckoutSession) \<Rightarrow> uuid \<Rightarrow> string \<Rightarrow> db \<Rightarrow> BillingError + CheckoutSession" where
  "create_checkout checkout acc plan_name d =
     bind_res (resolve_purchasable_plan plan_name d) (\<lambda>price.
     bind_res (ok_or CustomerCreationFailed (current_customer acc d)) (\<lambda>customer.
     map_err map_checkout_error (checkout customer price)))"

definition initiate_upgrade ::
  "(PaddleClientError + string) \<Rightarrow> (string \<Rightarrow> string \<Rightarrow> PaddleClientError + CheckoutSession) \<Rightarrow> uuid \<Rightarrow> string \<Rightarrow> db
    \<Rightarrow> (BillingError + CheckoutSession) \<times> db" where
  "initiate_upgrade created checkout acc plan_name d =
     (case has_active_subscription acc d of
        Inl e \<Rightarrow> (Inl e, d)
      | Inr True \<Rightarrow> (Inl AlreadyActive, d)
      | Inr False \<Rightarrow> (case resolve_purchasable_plan plan_name d of
          Inl e \<Rightarrow> (Inl e, d)
        | Inr price \<Rightarrow> (case ensure_paddle_customer created acc d of
            (Inl e, d') \<Rightarrow> (Inl e, d')
          | (Inr customer, d') \<Rightarrow> (map_err map_checkout_error (checkout customer price), d'))))"

definition billing_response :: "ext \<Rightarrow> uuid \<Rightarrow> BillingError \<Rightarrow> nat \<times> json" where
  "billing_response x request_id e = (case e of
     AlreadyActive \<Rightarrow> (409, JObject [(''status'', JString ''already_active''), (''message'', JString
       ''You already have an active subscription. To change your plan, please contact support.'')])
   | InvalidPlan \<Rightarrow> (400, JObject [(''error'', JString ''invalid_plan'')])
   | PlanNotPurchasable \<Rightarrow> (400, JObject [(''error'', JString ''plan_not_purchasable'')])
   | PaddleUnavailable \<Rightarrow> (502, JObject [(''error'', JObject [(''code'', JString ''paddle_unavailable''),
       (''message'', JString ''Payment provider temporarily unavailable''), (''request_id'', JUuid x request_id)])])
   | BillingAccountNotFound \<Rightarrow> error_response x request_id NotFound
   | _ \<Rightarrow> error_response x request_id Internal)"

definition upgrade_handler ::
  "ext \<Rightarrow> uuid \<Rightarrow> (PaddleClientError + string) \<Rightarrow> (string \<Rightarrow> string \<Rightarrow> PaddleClientError + CheckoutSession)
    \<Rightarrow> uuid \<Rightarrow> string \<Rightarrow> db \<Rightarrow> (nat \<times> json) \<times> db" where
  "upgrade_handler x request_id created checkout acc plan d =
     (case get_profile acc d of
        None \<Rightarrow> (error_response x request_id NotFound, d)
      | Some _ \<Rightarrow>
          let plan_name = trim plan in
          if plan_name = [] then (billing_response x request_id InvalidPlan, d)
          else case initiate_upgrade created checkout acc plan_name d of
              (Inl e, d') \<Rightarrow> (billing_response x request_id e, d')
            | (Inr s, d') \<Rightarrow> ((200, JObject [(''checkout_url'', JString (cs_checkout_url s)),
                (''transaction_id'', JString (cs_transaction_id s))]), d'))"

section \<open>The system\<close>

text \<open>Deliveries in flight and the database; the deliveries advance in any order.\<close>

type_synonym billing_world = "task list \<times> db"

inductive billing_step :: "billing_world \<Rightarrow> billing_world \<Rightarrow> bool" where
  arrive: "billing_step (ts, d) (Begin event raw # ts, d)"
| advance: "i < length ts \<Longrightarrow> webhook_step v (ts ! i) d = (t, d') \<Longrightarrow> billing_step (ts, d) (ts[i := t], d')"
| link: "link_paddle_customer_to_account acc customer d = (r, d') \<Longrightarrow> billing_step (ts, d) (ts, d')"
| upgrade: "initiate_upgrade created checkout acc plan d = (r, d') \<Longrightarrow> billing_step (ts, d) (ts, d')"
| lazy: "apply_lazy_billing_transitions x now acc d = Inr d' \<Longrightarrow> billing_step (ts, d) (ts, d')"

inductive_cases billing_stepE: "billing_step w w'"

section \<open>Invariants of the system\<close>

definition account_key :: "account_row \<Rightarrow> uuid \<times> string option" where
  "account_key a = (a_account_id a, a_paddle_customer_id a)"

text \<open>A customer of the provider belongs to one account.\<close>

definition customers_ok :: "db \<Rightarrow> bool" where
  "customers_ok d \<longleftrightarrow> distinct (map a_account_id (accounts d)) \<and>
     (\<forall>p\<in>account_key ` set (accounts d). \<forall>q\<in>account_key ` set (accounts d).
        snd p = snd q \<and> snd p \<noteq> None \<longrightarrow> fst p = fst q)"

definition account_kept :: "account_row \<Rightarrow> account_row \<Rightarrow> bool" where
  "account_kept a b \<longleftrightarrow> a_account_id b = a_account_id a \<and> a_email b = a_email a \<and>
     a_password_hash b = a_password_hash a \<and>
     (a_paddle_customer_id a = None \<or> a_paddle_customer_id b = a_paddle_customer_id a)"

fun billing_ok :: "billing_world \<Rightarrow> bool" where
  "billing_ok (ts, d) \<longleftrightarrow> webhooks_ok d \<and> customers_ok d \<and> list_all (\<lambda>t. task_ok t d) ts"

fun billing_below :: "billing_world \<Rightarrow> billing_world \<Rightarrow> bool" where
  "billing_below (ts, d) (ts', d') \<longleftrightarrow> webhooks_grow d d' \<and> list_all2 account_kept (accounts d) (accounts d')"

lemma account_kept_refl [simp]: "account_kept a a"
  by (simp add: account_kept_def)

lemma account_kept_trans: "account_kept a b \<Longrightarrow> account_kept b c \<Longrightarrow> account_kept a c"
  by (auto simp: account_kept_def)

lemma accounts_kept_refl: "list_all2 account_kept rows rows"
  by (rule list.rel_refl) simp

lemma accounts_kept_trans:
  "list_all2 account_kept xs ys \<Longrightarrow> list_all2 account_kept ys zs \<Longrightarrow> list_all2 account_kept xs zs"
  by (rule list_all2_trans [of account_kept account_kept account_kept]) (rule account_kept_trans)

lemma accounts_kept_update: "(\<And>a. P a \<Longrightarrow> account_kept a (f a)) \<Longrightarrow> list_all2 account_kept rows (update_where P f rows)"
  by (simp add: update_where_def list_all2_conv_all_nth)

lemma customers_ok_keys:
  "map account_key (accounts d') = map account_key (accounts d) \<Longrightarrow> customers_ok d \<Longrightarrow> customers_ok d'"
proof -
  assume eq: "map account_key (accounts d') = map account_key (accounts d)" and ok: "customers_ok d"
  have "map a_account_id rows = map fst (map account_key rows)" for rows by (simp add: account_key_def)
  then have "map a_account_id (accounts d') = map a_account_id (accounts d)" using eq by metis
  moreover have "account_key ` set (accounts d') = account_key ` set (accounts d)"
    using arg_cong [OF eq, of set] by simp
  ultimately show "customers_ok d'" using ok unfolding customers_ok_def by (metis (no_types))
qed

lemma billing_only_update:
  assumes "billing_only f"
  shows "map account_key (update_where P f rows) = map account_key rows" "list_all2 account_kept rows (update_where P f rows)"
  using assms by (auto simp: billing_only_def account_key_def account_kept_def intro!: map_update_where accounts_kept_update)

lemma webhook_effect_accounts:
  assumes "webhook_effect event d d'"
  shows "map account_key (accounts d') = map account_key (accounts d)" "list_all2 account_kept (accounts d) (accounts d')"
proof -
  have "accounts d' = accounts d \<or> (\<exists>acc f. accounts d' = update_where (\<lambda>a. a_account_id a = acc) f (accounts d) \<and> billing_only f)"
    using assms unfolding webhook_effect_def by (elim exE conjE disjE) auto
  then show "map account_key (accounts d') = map account_key (accounts d)" "list_all2 account_kept (accounts d) (accounts d')"
    using billing_only_update accounts_kept_refl by (metis, metis)
qed

lemma set_customer_keeps:
  assumes "customers_ok d" "customer_owner customer d = None"
  shows "customers_ok (set_customer acc customer d)" "list_all2 account_kept (accounts d) (accounts (set_customer acc customer d))"
proof -
  have none: "a_paddle_customer_id a \<noteq> Some customer" if "a \<in> set (accounts d)" for a
    using assms(2) that by (auto simp: customer_owner_def find_None_iff)
  have ids: "map a_account_id (accounts (set_customer acc customer d)) = map a_account_id (accounts d)"
    by (simp add: set_customer_def map_update_where)
  have key: "p = (acc, Some customer) \<or> p \<in> account_key ` set (accounts d) \<and> snd p \<noteq> Some customer"
    if "p \<in> account_key ` set (accounts (set_customer acc customer d))" for p
    using that none by (auto simp: set_customer_def set_update_where account_key_def linkable_def image_iff)
  show "customers_ok (set_customer acc customer d)"
    using assms(1) unfolding customers_ok_def ids
    by (intro conjI ballI impI, blast) (metis key snd_conv)
  show "list_all2 account_kept (accounts d) (accounts (set_customer acc customer d))"
    by (auto simp: set_customer_def linkable_def account_kept_def intro!: accounts_kept_update)
qed

lemma link_cases:
  assumes "link_paddle_customer_to_account acc customer d = (r, d')"
  shows "d' = d \<or> customer_owner customer d = None \<and> d' = set_customer acc customer d"
  using assms by (auto simp: link_paddle_customer_to_account_def Let_def split: option.splits if_splits)

lemma save_cases:
  assumes "save_paddle_customer_id acc customer d = Inr d'"
  shows "d' = d \<or> customer_owner customer d = None \<and> d' = set_customer acc customer d"
  using assms by (auto simp: save_paddle_customer_id_def split: option.splits if_splits)

lemma upgrade_cases:
  assumes "initiate_upgrade created checkout acc plan d = (r, d')"
  shows "d' = d \<or> (\<exists>customer. customer_owner customer d = None \<and> d' = set_customer acc customer d)"
  using assms
  by (auto simp: initiate_upgrade_def ensure_paddle_customer_def map_err_def
      split: option.splits if_splits sum.splits bool.splits dest!: save_cases)

lemma set_customer_webhooks: "webhooks_ok (set_customer acc customer d) = webhooks_ok d"
  "webhooks_grow d (set_customer acc customer d)" "task_ok t (set_customer acc customer d) = task_ok t d"
  by (simp_all add: set_customer_def webhooks_ok_def webhooks_grow_def, cases t, simp_all)

lemma customer_change_keeps:
  assumes "billing_ok (ts, d)" "d' = d \<or> (\<exists>acc customer. customer_owner customer d = None \<and> d' = set_customer acc customer d)"
  shows "billing_ok (ts, d')" "billing_below (ts, d) (ts, d')"
  using assms set_customer_keeps set_customer_webhooks accounts_kept_refl webhooks_grow_refl by auto

lemma lazy_keeps:
  assumes "billing_ok (ts, d)" "apply_lazy_billing_transitions x now acc d = Inr d'"
  shows "billing_ok (ts, d')" "billing_below (ts, d) (ts, d')"
proof -
  obtain free where d': "d' = d\<lparr> accounts := update_where (lazy_due now acc) (lazy_update x free now) (accounts d) \<rparr>"
    using assms(2) by (auto simp: apply_lazy_billing_transitions_def split: option.splits if_splits)
  have "map account_key (accounts d') = map account_key (accounts d)"
    by (simp add: d' map_update_where account_key_def lazy_update_def)
  then have "customers_ok d'" using assms(1) by (auto intro: customers_ok_keys)
  moreover have "task_ok t d' = task_ok t d" for t by (cases t) (simp_all add: d')
  moreover have "webhooks_ok d' = webhooks_ok d" by (simp add: d' webhooks_ok_def)
  ultimately show "billing_ok (ts, d')" using assms(1) by simp
  have "list_all2 account_kept (accounts d) (accounts d')"
    by (auto simp: d' account_kept_def lazy_update_def intro!: accounts_kept_update)
  moreover have "webhooks_grow d d'" by (simp add: d' webhooks_grow_def)
  ultimately show "billing_below (ts, d) (ts, d')" by simp
qed

lemma advance_keeps:
  assumes "billing_ok (ts, d)" "i < length ts" "webhook_step v (ts ! i) d = (t, d')"
  shows "billing_ok (ts[i := t], d')" "billing_below (ts, d) (ts[i := t], d')"
proof -
  have ok: "webhooks_ok d" "customers_ok d" "list_all (\<lambda>t. task_ok t d) ts" "task_ok (ts ! i) d"
    using assms(1,2) by (auto simp: list_all_length)
  note keeps = webhook_step_keeps [OF ok(1,4), of v, unfolded assms(3) snd_conv]
  have acc: "customers_ok d'" "list_all2 account_kept (accounts d) (accounts d')"
    using webhook_step_effect [OF ok(1,4) assms(3)] webhook_effect_accounts accounts_kept_refl customers_ok_keys ok(2)
    by metis+
  have "task_ok t d'" using webhook_step_task(1) [OF ok(1,4), of v] assms(3) by simp
  then have "list_all (\<lambda>t. task_ok t d') (ts[i := t])"
    using ok(3) task_ok_grows [OF _ keeps(2)]
    by (auto simp: list_all_iff dest!: set_update_subset_insert [THEN subsetD])
  then show "billing_ok (ts[i := t], d')" using keeps(1) acc(1) by simp
  show "billing_below (ts, d) (ts[i := t], d')" using keeps acc by simp
qed

lemma billing_step_keeps:
  assumes "billing_step w w'" "billing_ok w"
  shows "billing_ok w'" "billing_below w w'"
  using assms
proof (induction rule: billing_step.induct)
  case (arrive ts d event raw)
  { case 1 then show ?case by simp }
  { case 2 then show ?case by (simp add: webhooks_grow_refl accounts_kept_refl) }
next
  case (advance i ts v d t d')
  { case 1 then show ?case using advance_keeps [OF 1 advance] by blast }
  { case 2 then show ?case using advance_keeps [OF 2 advance] by blast }
next
  case (link acc customer d r d' ts)
  { case 1 then show ?case using customer_change_keeps [OF 1] link_cases [OF link] by blast }
  { case 2 then show ?case using customer_change_keeps [OF 2] link_cases [OF link] by blast }
next
  case (upgrade created checkout acc plan d r d' ts)
  { case 1 then show ?case using customer_change_keeps [OF 1] upgrade_cases [OF upgrade] by blast }
  { case 2 then show ?case using customer_change_keeps [OF 2] upgrade_cases [OF upgrade] by blast }
next
  case (lazy x now acc d d' ts)
  { case 1 then show ?case using lazy_keeps [OF 1 lazy] by blast }
  { case 2 then show ?case using lazy_keeps [OF 2 lazy] by blast }
qed

interpretation billing: growing billing_step billing_ok billing_below
proof unfold_locales
  show "billing_ok w \<Longrightarrow> billing_step w w' \<Longrightarrow> billing_ok w'" for w w' using billing_step_keeps(1) by blast
  show "billing_ok w \<Longrightarrow> billing_step w w' \<Longrightarrow> billing_below w w'" for w w' using billing_step_keeps(2) by blast
  show "billing_below w w" for w by (cases w) (simp add: webhooks_grow_refl accounts_kept_refl)
  show "billing_below w u \<Longrightarrow> billing_below u w' \<Longrightarrow> billing_below w w'" for w u w'
    by (cases w; cases u; cases w') (auto intro: webhooks_grow_trans accounts_kept_trans)
qed

section \<open>Each event is applied once\<close>

text \<open>A step that changes an account's billing settles its event, which was not settled before; after any
  further run no delivery of the same event changes anything.\<close>

lemma effect_settles:
  assumes "webhook_effect event d d'" "accounts d' \<noteq> accounts d"
  shows "event_settled (pe_event_id event) d'"
proof -
  obtain w A L where d': "d' = d\<lparr> accounts := A, paddle_pending_links := L,
      paddle_webhook_events := put_row w (paddle_webhook_events d) \<rparr>"
    and w: "w_paddle_event_id w = pe_event_id event"
    and A: "A = accounts d \<or> w_status w = ''processed''"
    using assms(1) unfolding webhook_effect_def by (elim exE conjE) blast
  have "w_status w = ''processed''" using A assms(2) by (auto simp: d')
  moreover have "w \<in> set (put_row w (paddle_webhook_events d))" by (auto simp: put_row_def set_update_where)
  ultimately show "event_settled (pe_event_id event) d'"
    using w by (auto simp: d' event_settled_def list_ex_iff row_settled_def)
qed

lemma applied_once:
  assumes "billing_ok (ts, d)" "i < length ts" "webhook_step v (ts ! i) d = (t, d')" "accounts d' \<noteq> accounts d"
    and "billing_step\<^sup>*\<^sup>* (ts[i := t], d') (us, e)" "j < length us" "task_event (us ! j) = task_event (ts ! i)"
  shows "\<exists>pid. task_event (ts ! i) = Some pid \<and> \<not> event_settled pid d \<and> event_settled pid d' \<and>
     snd (webhook_step v' (us ! j) e) = e"
proof -
  have ok: "webhooks_ok d" "task_ok (ts ! i) d" using assms(1,2) by (auto simp: list_all_length)
  obtain event where e: "task_event (ts ! i) = Some (pe_event_id event)" "webhook_effect event d d'"
    using webhook_step_effect [OF ok assms(3)] assms(4) by auto
  have settled: "event_settled (pe_event_id event) d'" by (rule effect_settles [OF e(2) assms(4)])
  have "\<not> event_settled (pe_event_id event) d"
    using settled_step [OF ok e(1), of v] assms(3,4) by auto
  moreover have ok': "billing_ok (ts[i := t], d')" using advance_keeps [OF assms(1-3)] by blast
  have "billing_below (ts[i := t], d') (us, e)" by (rule billing.run_below [OF assms(5) ok'])
  then have "event_settled (pe_event_id event) e" using settled settled_grows by auto
  moreover have "billing_ok (us, e)" by (rule billing.run_inv [OF assms(5) ok'])
  then have "webhooks_ok e" "task_ok (us ! j) e" using assms(6) by (auto simp: list_all_length)
  ultimately have "snd (webhook_step v' (us ! j) e) = e" using settled_step [of e "us ! j"] assms(7) e(1) by simp
  then show ?thesis using e(1) settled \<open>\<not> event_settled (pe_event_id event) d\<close> by blast
qed

section \<open>Order\<close>

lemma foldl_max_start: "(a :: int) \<le> foldl max a ts"
  by (induction ts arbitrary: a) (auto intro: order_trans [OF max.cobounded1])

lemma foldl_max_le: "t \<in> set ts \<Longrightarrow> t \<le> foldl max (a :: int) ts"
  by (induction ts arbitrary: a) (auto intro: order_trans [OF max.cobounded2 foldl_max_start])

text \<open>An event is skipped exactly when a newer one of its account has been processed.\<close>

lemma skip_iff:
  "should_skip_out_of_order acc occurred d \<longleftrightarrow>
     list_ex (\<lambda>w. w_account_id w = Some acc \<and> w_status w = ''processed'' \<and> occurred < w_event_occurred_at w)
       (paddle_webhook_events d)"
proof -
  define ts where "ts = map w_event_occurred_at
    (filter (\<lambda>w. w_account_id w = Some acc \<and> w_status w = ''processed'') (paddle_webhook_events d))"
  have ex: "list_ex (\<lambda>w. w_account_id w = Some acc \<and> w_status w = ''processed'' \<and> occurred < w_event_occurred_at w)
      (paddle_webhook_events d) \<longleftrightarrow> (\<exists>t\<in>set ts. occurred < t)"
    by (auto simp: ts_def list_ex_iff)
  have max_in: "foldl max (a :: int) us \<in> insert a (set us)" for a us
    by (induction us arbitrary: a) (auto simp: max_def)
  show ?thesis
  proof (cases ts)
    case Nil
    then show ?thesis
      unfolding ex by (simp add: should_skip_out_of_order_def last_processed_occurred_at_def ts_def [symmetric])
  next
    case (Cons t us)
    have "occurred < foldl max t us \<longleftrightarrow> (\<exists>s\<in>set ts. occurred < s)"
      using max_in [of t us] foldl_max_le [of _ us t] foldl_max_start [of t us] Cons by fastforce
    then show ?thesis
      unfolding ex by (simp add: should_skip_out_of_order_def last_processed_occurred_at_def ts_def [symmetric] Cons)
  qed
qed

text \<open>What the transaction itself has written does not bear on its decision.\<close>

lemma skip_marked [simp]:
  "should_skip_out_of_order acc occurred (snd (mark_processing now i d)) = should_skip_out_of_order acc occurred d"
proof -
  have "filter (\<lambda>w. w_account_id w = Some acc \<and> w_status w = ''processed'')
      (update_where (\<lambda>w. w_id w = i \<and> w_status w \<in> {''received'', ''failed''})
        (\<lambda>w. w\<lparr> w_status := ''processing'', w_processing_started_at := Some now \<rparr>) (paddle_webhook_events d)) =
    filter (\<lambda>w. w_account_id w = Some acc \<and> w_status w = ''processed'') (paddle_webhook_events d)"
    by (rule filter_update_hidden) auto
  then show ?thesis
    by (simp add: mark_processing_def Let_def should_skip_out_of_order_def last_processed_occurred_at_def)
qed

lemma skip_inserted:
  "insert_linked event hash account i d = Inr d1 \<Longrightarrow>
     should_skip_out_of_order acc occurred d1 = should_skip_out_of_order acc occurred d"
  by (auto simp: insert_linked_def insert_received_def insert_webhook_def should_skip_out_of_order_def
      last_processed_occurred_at_def split: if_splits)

text \<open>The transaction a delivery has open, and whether its decision is the one the database now calls for.\<close>

fun open_tx :: "task \<Rightarrow> (PaddleWebhookEvent \<times> linked_tx) option" where
  "open_tx (CommitStored event _ tx) = Some (event, tx)"
| "open_tx (CommitAgain event tx) = Some (event, tx)"
| "open_tx _ = None"

definition decided :: "task \<Rightarrow> db \<Rightarrow> bool" where
  "decided t d \<longleftrightarrow> (case open_tx t of None \<Rightarrow> True | Some (event, tx) \<Rightarrow>
     tx_skip tx = should_skip_out_of_order (ab_account_id (tx_account tx)) (pe_occurred_at event) d)"

lemma opened_decides:
  assumes "open_linked now i account event d = Some tx"
  shows "tx_skip tx = should_skip_out_of_order (ab_account_id (tx_account tx)) (pe_occurred_at event) d"
  using open_linked_Some [OF assms] by simp

lemma open_tx_ends [simp]:
  "open_tx (fst (settle event m d)) = None" "open_tx (insert_failed event hash e) = None"
  "open_tx (after_classify event hash w) = None" "open_tx (begin_webhook x event raw d) = None"
  by (cases "(event, m, d)" rule: settle.cases, simp, simp)
    (simp_all add: insert_failed_def after_classify_def begin_webhook_def Let_def
      split: sum.split ExistingEventAction.split option.split)

text \<open>The step that opens a transaction decides on the database as it is.\<close>

lemma step_decides: "decided (fst (webhook_step v t d)) (snd (webhook_step v t d))"
proof (cases t)
  case (StoreLinked event hash account)
  then show ?thesis
    by (auto simp: process_linked_webhook_def decided_def skip_inserted dest!: opened_decides split: sum.split option.split)
next
  case (CommitStored event hash tx)
  then show ?thesis by (simp add: commit_linked_webhook_def decided_def split: sum.split)
next
  case (StoreUnlinked event hash customer)
  then show ?thesis by (simp add: store_unlinked_webhook_def decided_def split: sum.split)
next
  case (ReLinked event i account)
  then show ?thesis by (auto simp: reprocess_linked_def decided_def dest!: opened_decides split: option.split)
qed (simp_all add: decided_def commit_reprocessed_def reprocess_unlinked_webhook_def split: option.split)

text \<open>Only the step that ends a transaction changes an account, and only if the transaction has decided not to
  skip the event.\<close>

lemma mark_accounts [simp]:
  "accounts (snd (mark_processing now i d)) = accounts d" "accounts (mark_done s m now i d) = accounts d"
  by (simp_all add: mark_processing_def mark_done_def Let_def)

lemma finish_linked_accounts:
  assumes "finish_linked show_sqlx tx event d0 d = Some (r, d')" "accounts d0 = accounts d"
  shows "accounts d' = accounts d \<or> \<not> tx_skip tx \<and> r = Inr Processed \<and>
    (\<exists>f. billing_only f \<and> accounts d' = update_where (\<lambda>a. a_account_id a = ab_account_id (tx_account tx)) f (accounts d))"
proof -
  obtain b d1 where m: "mark_processing (tx_now tx) (tx_row tx) d = (b, d1)" by fastforce
  then have acc: "accounts d1 = accounts d" using mark_accounts(1) [of "tx_now tx" "tx_row tx" d] by simp
  show ?thesis
    using assms m acc
    by (auto simp: finish_linked_def mark_processed_def mark_failed_def update_account_def
        split: bool.splits if_splits sum.splits dest!: apply_event_frame)
qed

lemma finish_unlinked_accounts:
  assumes "finish_unlinked now link i customer event d0 d = Some (r, d')" "accounts d0 = accounts d"
  shows "accounts d' = accounts d"
proof -
  obtain b d1 where m: "mark_processing now i d = (b, d1)" by fastforce
  then have "accounts d1 = accounts d" using mark_accounts(1) [of now i d] by simp
  then show ?thesis
    using assms m
    by (auto simp: finish_unlinked_def mark_waiting_for_account_link_def insert_pending_link_def
        split: bool.splits if_splits sum.splits)
qed

lemma inserted_accounts:
  "insert_linked event hash account i d = Inr d1 \<Longrightarrow> accounts d1 = accounts d"
  "insert_received_unlinked i pid ty hash sub oc d = Inr d1 \<Longrightarrow> accounts d1 = accounts d"
  by (auto simp: insert_linked_def insert_received_def insert_received_unlinked_def insert_webhook_def split: if_splits)

lemma settle_cases:
  assumes "settle event m d = (t', d')"
  obtains "m = None" "t' = LostRace event" "d' = d" | r where "m = Some (r, d')" "t' = Done r"
  using assms by (cases "(event, m, d)" rule: settle.cases) auto

lemma step_changes:
  assumes "webhook_step v t d = (t', d')" "accounts d' \<noteq> accounts d"
  shows "\<exists>event tx f. open_tx t = Some (event, tx) \<and> \<not> tx_skip tx \<and> t' = Done (Inr Processed) \<and> billing_only f \<and>
     accounts d' = update_where (\<lambda>a. a_account_id a = ab_account_id (tx_account tx)) f (accounts d)"
proof (cases t)
  case (CommitStored event hash tx)
  then obtain d1 where d1: "insert_linked event hash (tx_account tx) (tx_row tx) d = Inr d1"
    "settle event (finish_linked (we_show v) tx event d d1) d = (t', d')"
    using assms by (auto simp: commit_linked_webhook_def split: sum.splits)
  show ?thesis
    using settle_cases [OF d1(2)] finish_linked_accounts inserted_accounts(1) [OF d1(1)] assms(2) CommitStored
    by (metis open_tx.simps(1))
next
  case (CommitAgain event tx)
  then have "settle event (finish_linked (we_show v) tx event d d) d = (t', d')"
    using assms(1) by (simp add: commit_reprocessed_def)
  then show ?thesis
    using settle_cases finish_linked_accounts assms(2) CommitAgain by (metis open_tx.simps(2))
next
  case (StoreUnlinked event hash customer)
  then obtain d1 where d1: "insert_received_unlinked (we_id v) (pe_event_id event) (normalized_event_type event) hash
      (subscription_id event) (pe_occurred_at event) d = Inr d1"
    "settle event (finish_unlinked (we_now v) (we_link v) (we_id v) customer event d d1) d = (t', d')"
    using assms by (auto simp: store_unlinked_webhook_def split: sum.splits)
  show ?thesis
    using settle_cases [OF d1(2)] finish_unlinked_accounts inserted_accounts(2) [OF d1(1)] assms(2) by metis
next
  case (ReUnlinked event i customer)
  then have "settle event (finish_unlinked (we_now v) (we_link v) i customer event d d) d = (t', d')"
    using assms(1) by (simp add: reprocess_unlinked_webhook_def)
  then show ?thesis using settle_cases finish_unlinked_accounts assms(2) by metis
qed (use assms in auto)

text \<open>A step that writes ends the delivery.\<close>

lemma step_ends:
  assumes "webhook_step v t d = (t', d')" "d' \<noteq> d"
  shows "\<exists>r. t' = Done r"
proof -
  have "settle event m d = (t', d') \<Longrightarrow> ?thesis" for event m using assms(2) by (elim settle_cases) auto
  then show ?thesis
    using assms
    by (cases t) (auto simp: commit_linked_webhook_def store_unlinked_webhook_def commit_reprocessed_def
        reprocess_unlinked_webhook_def split: sum.splits)
qed

text \<open>The event a delivery is about stays the same.\<close>

fun delivered :: "task \<Rightarrow> PaddleWebhookEvent option" where
  "delivered (Begin event _) = Some event"
| "delivered (Resolve event _ _) = Some event"
| "delivered (StoreLinked event _ _) = Some event"
| "delivered (CommitStored event _ _) = Some event"
| "delivered (StoreUnlinked event _ _) = Some event"
| "delivered (Refind event _ _) = Some event"
| "delivered (ResolveAgain event _ _) = Some event"
| "delivered (ReLinked event _ _) = Some event"
| "delivered (CommitAgain event _) = Some event"
| "delivered (ReUnlinked event _ _) = Some event"
| "delivered (LostRace event) = Some event"
| "delivered (Done _) = None"

lemma delivered_parts:
  "delivered (after_classify event hash w) \<in> {None, Some event}"
  "delivered (fst (settle event m d)) \<in> {None, Some event}"
  "delivered (insert_failed event hash e) \<in> {None, Some event}"
  by (auto simp: after_classify_def insert_failed_def split: sum.split ExistingEventAction.split option.split)
    (cases "(event, m, d)" rule: settle.cases, simp, simp)

lemma step_delivers: "delivered (fst (webhook_step v t d)) \<in> {None, delivered t}"
  using delivered_parts
  by (cases t) (auto simp: begin_webhook_def process_linked_webhook_def commit_linked_webhook_def store_unlinked_webhook_def
      reprocess_linked_def commit_reprocessed_def reprocess_unlinked_webhook_def Let_def
      split: option.split sum.split)

lemma open_delivers: "open_tx t = Some (event, tx) \<Longrightarrow> delivered t = Some event"
  by (cases t) simp_all

text \<open>A delivery that runs without another one in between.\<close>

lemma drive_follows_order:
  assumes "decided t d" "drive v t d = (r, d')" "accounts d' \<noteq> accounts d"
  shows "\<exists>event acc f. delivered t = Some event \<and> r = Inr Processed \<and> billing_only f \<and>
     accounts d' = update_where (\<lambda>a. a_account_id a = acc) f (accounts d) \<and>
     \<not> should_skip_out_of_order acc (pe_occurred_at event) d"
  using assms
proof (induction v t d rule: drive.induct)
  case (1 v t d)
  show ?case
  proof (cases "outcome t")
    case (Some r)
    then show ?thesis using 1 by (simp add: drive.simps)
  next
    case None
    obtain t1 d1 where s: "webhook_step v t d = (t1, d1)" by fastforce
    have dr: "drive v t1 d1 = (r, d')" using 1(3) None s by (simp add: drive.simps [of v t])
    show ?thesis
    proof (cases "d1 = d")
      case True
      have dec: "decided t1 d" using step_decides [of v t d] s True by simp
      obtain event where e: "delivered t1 = Some event" "\<exists>acc f. r = Inr Processed \<and> billing_only f \<and>
         accounts d' = update_where (\<lambda>a. a_account_id a = acc) f (accounts d) \<and>
         \<not> should_skip_out_of_order acc (pe_occurred_at event) d"
        using 1(1) [OF None] dec dr 1(4) s True by auto
      have "delivered t1 \<in> {None, delivered t}" using step_delivers [of v t d] s by simp
      then have "delivered t = Some event" using e(1) by simp
      then show ?thesis using e(2) by blast
    next
      case False
      then obtain r1 where "t1 = Done r1" using step_ends [OF s] by blast
      then have last: "r = r1" "d' = d1" using dr by (simp_all add: drive.simps)
      obtain event tx f where c: "open_tx t = Some (event, tx)" "\<not> tx_skip tx" "t1 = Done (Inr Processed)" "billing_only f"
        "accounts d1 = update_where (\<lambda>a. a_account_id a = ab_account_id (tx_account tx)) f (accounts d)"
        using step_changes [OF s] 1(4) last(2) by blast
      have "\<not> should_skip_out_of_order (ab_account_id (tx_account tx)) (pe_occurred_at event) d"
        using 1(2) c(1,2) by (simp add: decided_def)
      then show ?thesis using c open_delivers [OF c(1)] last \<open>t1 = Done r1\<close> by auto
    qed
  qed
qed

lemma delivery_follows_order:
  assumes "process_paddle_webhook v event raw d = (r, d')" "accounts d' \<noteq> accounts d"
  shows "r = Inr Processed \<and> (\<exists>acc f. billing_only f \<and>
     accounts d' = update_where (\<lambda>a. a_account_id a = acc) f (accounts d) \<and>
     (\<forall>w\<in>set (paddle_webhook_events d). w_account_id w = Some acc \<and> w_status w = ''processed'' \<longrightarrow>
        w_event_occurred_at w \<le> pe_occurred_at event))"
proof -
  have "decided (Begin event raw) d" by (simp add: decided_def)
  from drive_follows_order [OF this assms(1) [unfolded process_paddle_webhook_def] assms(2)]
  show ?thesis by (force simp: skip_iff list_ex_iff not_less)
qed

text \<open>Deliveries that overlap.  Two deliveries of new events that have both read before either commits do not
  see each other, and are applied in the order in which they commit.\<close>

lemma load_plan_cong: "tariff_plans d = tariff_plans e \<Longrightarrow> load_plan_by_price_id price d = load_plan_by_price_id price e"
  "tariff_plans d = tariff_plans e \<Longrightarrow> load_plan_by_id plan_id d = load_plan_by_id plan_id e"
  by (simp_all add: load_plan_by_price_id_def load_plan_by_id_def)

definition agree :: "WebhookError + db \<Rightarrow> WebhookError + db \<Rightarrow> bool" where
  "agree r s \<longleftrightarrow> (\<forall>d. r = Inr d \<longrightarrow> (\<exists>e. s = Inr e \<and> accounts e = accounts d))"

lemma agree_bind: "(\<And>x. agree (f x) (g x)) \<Longrightarrow> agree (bind_res m f) (bind_res m g)"
  by (cases m) (simp_all add: agree_def)

lemma agree_update:
  assumes "accounts d = accounts e"
  shows "agree (update_subscription acc f d) (update_subscription acc f e)" "agree (Inr (update_account acc f d)) (Inr (update_account acc f e))"
  using assms by (auto simp: agree_def update_subscription_def update_account_def Let_def)

lemma apply_event_cong:
  assumes "apply_event account event d = Inr d1" "accounts d = accounts e" "tariff_plans d = tariff_plans e"
  shows "\<exists>e1. apply_event account event e = Inr e1 \<and> accounts e1 = accounts d1"
proof -
  have "agree (apply_event account event d) (apply_event account event e)"
    unfolding apply_event_def Let_def subscription_created_def subscription_updated_def
      subscription_past_due_def subscription_canceled_def load_plan_cong [OF assms(3)]
    using agree_update [OF assms(2)] by (simp add: agree_bind) (simp add: agree_def)
  then show ?thesis using assms(1) by (simp add: agree_def)
qed

definition unseen :: "uuid \<Rightarrow> string \<Rightarrow> db \<Rightarrow> bool" where
  "unseen i pid d \<longleftrightarrow> i \<notin> w_id ` set (paddle_webhook_events d) \<and> pid \<notin> w_paddle_event_id ` set (paddle_webhook_events d)"

lemma unseen_inserts:
  assumes "unseen i (pe_event_id event) d" "ab_account_id account \<in> a_account_id ` set (accounts d)"
  shows "insert_linked event hash account i d = Inr (d\<lparr> paddle_webhook_events := paddle_webhook_events d @
     [received_row i (pe_event_id event) (normalized_event_type event) hash (Some (ab_account_id account))
       (subscription_id event) (pe_occurred_at event)] \<rparr>)"
  using assms by (simp add: unseen_def insert_linked_def insert_received_def insert_webhook_def)
    (simp add: received_row_def)

lemma appended_claimed:
  assumes "unseen i pid d"
  shows "mark_processing now i (d\<lparr> paddle_webhook_events := paddle_webhook_events d @ [received_row i pid ty h acc sub oc] \<rparr>) =
     (True, d\<lparr> paddle_webhook_events := paddle_webhook_events d @ [claimed (received_row i pid ty h acc sub oc) now] \<rparr>)"
proof -
  have "update_where (\<lambda>w. w_id w = i \<and> w_status w \<in> {''received'', ''failed''}) g (paddle_webhook_events d) = paddle_webhook_events d" for g
    by (rule update_where_id) (use assms in \<open>auto simp: unseen_def\<close>)
  then show ?thesis by (simp add: mark_processing_def Let_def) (simp add: update_where_def claimed_def)
qed

lemma unseen_opens:
  assumes "unseen (we_id v) (pe_event_id event) d" "ab_account_id account \<in> a_account_id ` set (accounts d)"
  shows "process_linked_webhook v event hash account d = CommitStored event hash
     \<lparr> tx_row = we_id v, tx_now = we_now v, tx_account = account,
       tx_skip = should_skip_out_of_order (ab_account_id account) (pe_occurred_at event) d \<rparr>"
proof -
  note ins = unseen_inserts [OF assms, of hash]
  define d1 where "d1 = d\<lparr> paddle_webhook_events := paddle_webhook_events d @
     [received_row (we_id v) (pe_event_id event) (normalized_event_type event) hash (Some (ab_account_id account))
       (subscription_id event) (pe_occurred_at event)] \<rparr>"
  obtain d2 where mp: "mark_processing (we_now v) (we_id v) d1 = (True, d2)"
    unfolding d1_def appended_claimed [OF assms(1)] by blast
  have skip: "should_skip_out_of_order acc oc (snd (mark_processing (we_now v) (we_id v) d1)) =
      should_skip_out_of_order acc oc d" for acc oc
    using skip_inserted [OF ins] by (simp add: d1_def)
  show ?thesis
    using ins [folded d1_def] skip [unfolded mp snd_conv] by (simp add: process_linked_webhook_def open_linked_def mp)
qed

text \<open>The first three steps of the delivery of a new event of a linked customer.\<close>

lemma new_delivery_opens:
  assumes "is_handled_event_type (normalized_event_type event)" "unseen (we_id v) (pe_event_id event) d"
    "customer_id event = Some customer" "resolve_account_by_paddle_customer customer d = Some account"
    "\<not> should_skip_out_of_order (ab_account_id account) (pe_occurred_at event) d"
  shows "webhook_step v (Begin event raw) d = (Resolve event (payload_hash (we_ext v) raw) customer, d)"
    "webhook_step v (Resolve event hash customer) d = (StoreLinked event hash account, d)"
    "webhook_step v (StoreLinked event hash account) d = (CommitStored event hash
       \<lparr> tx_row = we_id v, tx_now = we_now v, tx_account = account, tx_skip = False \<rparr>, d)"
    "ab_account_id account \<in> a_account_id ` set (accounts d)"
proof -
  have "find_by_paddle_event_id (pe_event_id event) d = None"
    using assms(2) by (force simp: find_by_paddle_event_id_def unseen_def find_None_iff)
  then show "webhook_step v (Begin event raw) d = (Resolve event (payload_hash (we_ext v) raw) customer, d)"
    using assms(1,3) by (simp add: begin_webhook_def Let_def)
  show "webhook_step v (Resolve event hash customer) d = (StoreLinked event hash account, d)" using assms(4) by simp
  show acc: "ab_account_id account \<in> a_account_id ` set (accounts d)"
    using assms(4) by (auto simp: resolve_account_by_paddle_customer_def dest: find_SomeD)
  show "webhook_step v (StoreLinked event hash account) d = (CommitStored event hash
       \<lparr> tx_row = we_id v, tx_now = we_now v, tx_account = account, tx_skip = False \<rparr>, d)"
    using unseen_opens [OF assms(2) acc] assms(5) by simp
qed

lemma unseen_commits:
  assumes "unseen (tx_row tx) (pe_event_id event) d" "ab_account_id (tx_account tx) \<in> a_account_id ` set (accounts d)"
    "\<not> tx_skip tx" "apply_event (tx_account tx) event d = Inr d1"
  shows "\<exists>d'. webhook_step v (CommitStored event hash tx) d = (Done (Inr Processed), d') \<and> accounts d' = accounts d1 \<and>
     tariff_plans d' = tariff_plans d \<and> a_account_id ` set (accounts d') = a_account_id ` set (accounts d) \<and>
     (\<forall>i pid. unseen i pid d \<and> i \<noteq> tx_row tx \<and> pid \<noteq> pe_event_id event \<longrightarrow> unseen i pid d')"
proof -
  define row where "row = received_row (tx_row tx) (pe_event_id event) (normalized_event_type event) hash
    (Some (ab_account_id (tx_account tx))) (subscription_id event) (pe_occurred_at event)"
  define dc where "dc = d\<lparr> paddle_webhook_events := paddle_webhook_events d @ [claimed row (tx_now tx)] \<rparr>"
  note ins = unseen_inserts [OF assms(1,2), of hash, folded row_def]
  note mp = appended_claimed [OF assms(1), of "tx_now tx" "normalized_event_type event" hash
      "Some (ab_account_id (tx_account tx))" "subscription_id event" "pe_occurred_at event", folded row_def dc_def]
  obtain d2 where d2: "apply_event (tx_account tx) event dc = Inr d2" "accounts d2 = accounts d1"
    using apply_event_cong [OF assms(4), of dc] by (auto simp: dc_def)
  obtain f where f: "billing_only f" "d2 = update_account (ab_account_id (tx_account tx)) f dc"
    using apply_event_frame [OF d2(1)] by blast
  define d' where "d' = mark_processed (tx_now tx) (tx_row tx) d2"
  have "webhook_step v (CommitStored event hash tx) d = (Done (Inr Processed), d')"
    using assms(3) by (simp add: commit_linked_webhook_def ins finish_linked_def mp d2(1) d'_def)
  moreover have "accounts d' = accounts d1" by (simp add: d'_def mark_processed_def d2(2))
  moreover have "tariff_plans d' = tariff_plans d"
    by (simp add: d'_def mark_processed_def mark_done_def f(2) update_account_def dc_def)
  moreover have "map a_account_id (accounts d') = map a_account_id (accounts d)"
    using f(1) by (simp add: d'_def mark_processed_def f(2) update_account_def dc_def map_update_where billing_only_def)
  then have "a_account_id ` set (accounts d') = a_account_id ` set (accounts d)" by (metis list.set_map)
  moreover have rows: "paddle_webhook_events d2 = paddle_webhook_events d @ [claimed row (tx_now tx)]"
    by (simp add: f(2) update_account_def dc_def)
  have keys: "map row_key (paddle_webhook_events d') = map row_key (paddle_webhook_events d) @ [(tx_row tx, pe_event_id event)]"
    by (simp add: d'_def mark_processed_def mark_done_def rows map_update_where row_key_def row_def claimed_def)
  have "w_id ` set (paddle_webhook_events d') = insert (tx_row tx) (w_id ` set (paddle_webhook_events d))"
    "w_paddle_event_id ` set (paddle_webhook_events d') = insert (pe_event_id event) (w_paddle_event_id ` set (paddle_webhook_events d))"
    using arg_cong [OF keys, of "\<lambda>ks. set (map fst ks)"] arg_cong [OF keys, of "\<lambda>ks. set (map snd ks)"]
    by (simp_all add: row_key_def image_image)
  then have "\<forall>i pid. unseen i pid d \<and> i \<noteq> tx_row tx \<and> pid \<noteq> pe_event_id event \<longrightarrow> unseen i pid d'"
    by (simp add: unseen_def)
  ultimately show ?thesis by blast
qed

text \<open>The delivery of a new event that runs alone applies it.\<close>

lemma new_delivery_applies:
  assumes "is_handled_event_type (normalized_event_type event)" "unseen (we_id v) (pe_event_id event) d"
    "customer_id event = Some customer" "resolve_account_by_paddle_customer customer d = Some account"
    "\<not> should_skip_out_of_order (ab_account_id account) (pe_occurred_at event) d"
    "apply_event account event d = Inr d1"
  shows "\<exists>d'. process_paddle_webhook v event raw d = (Inr Processed, d') \<and> accounts d' = accounts d1"
proof -
  define tx where "tx = \<lparr> tx_row = we_id v, tx_now = we_now v, tx_account = account, tx_skip = False \<rparr>"
  note opened = new_delivery_opens [OF assms(1-5), folded tx_def]
  obtain d' where "webhook_step v (CommitStored event (payload_hash (we_ext v) raw) tx) d = (Done (Inr Processed), d')"
    "accounts d' = accounts d1"
    using unseen_commits [of tx event d d1 v "payload_hash (we_ext v) raw"] assms(2,6) opened(4) by (auto simp: tx_def)
  then show ?thesis
    using opened(1-3) by (simp add: process_paddle_webhook_def drive.simps del: webhook_step.simps)
qed

lemma advance_first:
  "webhook_step v t d = (t', e) \<Longrightarrow> billing_step\<^sup>*\<^sup>* ([t', u], e) w \<Longrightarrow> billing_step\<^sup>*\<^sup>* ([t, u], d) w"
  using billing_step.advance [of 0 "[t, u]" v d t' e] by (simp add: converse_rtranclp_into_rtranclp)

lemma advance_second:
  "webhook_step v u d = (u', e) \<Longrightarrow> billing_step\<^sup>*\<^sup>* ([t, u'], e) w \<Longrightarrow> billing_step\<^sup>*\<^sup>* ([t, u], d) w"
  using billing_step.advance [of 1 "[t, u]" v d u' e] by (simp add: converse_rtranclp_into_rtranclp)

lemma overlapping_run:
  fixes v w :: webhook_env
  assumes "is_handled_event_type (normalized_event_type older)" "is_handled_event_type (normalized_event_type newer)"
    and "unseen (we_id v) (pe_event_id older) d" "unseen (we_id w) (pe_event_id newer) d"
    and "we_id v \<noteq> we_id w" "pe_event_id older \<noteq> pe_event_id newer"
    and "customer_id older = Some customer" "customer_id newer = Some customer"
    and "resolve_account_by_paddle_customer customer d = Some account"
    and "\<not> should_skip_out_of_order (ab_account_id account) (pe_occurred_at older) d"
    and "\<not> should_skip_out_of_order (ab_account_id account) (pe_occurred_at newer) d"
    and "apply_event account newer d = Inr d1" "apply_event account older d1 = Inr d2"
  shows "\<exists>d'. billing_step\<^sup>*\<^sup>* ([Begin older raw, Begin newer raw'], d) ([Done (Inr Processed), Done (Inr Processed)], d') \<and>
     accounts d' = accounts d2"
proof -
  define h1 h2 where "h1 = payload_hash (we_ext v) raw" and "h2 = payload_hash (we_ext w) raw'"
  define tx1 where "tx1 = \<lparr> tx_row = we_id v, tx_now = we_now v, tx_account = account, tx_skip = False \<rparr>"
  define tx2 where "tx2 = \<lparr> tx_row = we_id w, tx_now = we_now w, tx_account = account, tx_skip = False \<rparr>"
  note first = new_delivery_opens [OF assms(1,3,7,9,10), folded tx1_def]
  note second = new_delivery_opens [OF assms(2,4,8,9,11), folded tx2_def]
  obtain e where e: "webhook_step w (CommitStored newer h2 tx2) d = (Done (Inr Processed), e)" "accounts e = accounts d1"
    "tariff_plans e = tariff_plans d" "a_account_id ` set (accounts e) = a_account_id ` set (accounts d)"
    "unseen (we_id v) (pe_event_id older) e"
    using unseen_commits [of tx2 newer d d1 w h2] assms(3-6,12) second(4) by (auto simp: tx2_def)
  have plans: "tariff_plans d1 = tariff_plans d"
    using apply_event_frame [OF assms(12)] by (auto simp: update_account_def)
  obtain e1 where e1: "apply_event account older e = Inr e1" "accounts e1 = accounts d2"
    using apply_event_cong [OF assms(13), of e] e(2,3) plans by auto
  obtain d' where d': "webhook_step v (CommitStored older h1 tx1) e = (Done (Inr Processed), d')" "accounts d' = accounts e1"
    using unseen_commits [of tx1 older e e1 v h1] e(4,5) e1(1) first(4) by (auto simp: tx1_def)
  have "billing_step\<^sup>*\<^sup>* ([Begin older raw, Begin newer raw'], d) ([Done (Inr Processed), Done (Inr Processed)], d')"
    by (rule advance_first [OF first(1)], rule advance_first [OF first(2)], rule advance_first [OF first(3)],
        rule advance_second [OF second(1)], rule advance_second [OF second(2)], rule advance_second [OF second(3)],
        rule advance_second [OF e(1) [unfolded h2_def]], rule advance_first [OF d'(1) [unfolded h1_def]], rule rtranclp.rtrancl_refl)
  then show ?thesis using d'(2) e1(2) by auto
qed

section \<open>Downgrades\<close>

text \<open>A downgrade changes nothing but the pending plan; when the paid period is over the next request of
  the account moves it to that plan.\<close>

lemma downgrade_waits:
  assumes "find (\<lambda>a. a_account_id a = acc) (accounts d) = Some a" "a_current_period_end a = Some ends"
    and "ab_account_id account = acc" "ab_tariff_plan_id account = p_plan_id cur" "price_id event = Some price"
    and "find (\<lambda>p. p_paddle_price_id p = Some price) (tariff_plans d) = Some new"
    and "find (\<lambda>p. p_plan_id p = p_plan_id cur) (tariff_plans d) = Some cur" "is_downgrade cur new"
    and "period_end event \<noteq> None" "free_plan_id d = Some free"
    and "a_subscription_status a \<noteq> ''canceled''"
  shows "\<exists>d1. subscription_updated account event d = Inr d1 \<and>
     find (\<lambda>a. a_account_id a = acc) (accounts d1) = Some (a\<lparr> a_pending_tariff_plan_id := Some (p_plan_id new) \<rparr>) \<and>
     (\<forall>now. \<exists>d2. apply_lazy_billing_transitions x now acc d1 = Inr d2 \<and>
        map_option a_tariff_plan_id (find (\<lambda>a. a_account_id a = acc) (accounts d2)) =
          Some (if ends < now then p_plan_id new else a_tariff_plan_id a))"
proof -
  define b where "b = a\<lparr> a_pending_tariff_plan_id := Some (p_plan_id new) \<rparr>"
  define d1 where "d1 = update_account acc (\<lambda>a. a\<lparr> a_pending_tariff_plan_id := Some (p_plan_id new) \<rparr>) d"
  obtain pe where pe: "period_end event = Some pe" using assms(9) by blast
  have "\<not> is_upgrade cur new" using assms(8) by (simp add: is_upgrade_def is_downgrade_def)
  then have upd: "subscription_updated account event d = Inr d1"
    using assms(3-8) pe
    by (simp add: subscription_updated_def load_plan_by_price_id_def load_plan_by_id_def fetch_one_def d1_def)
  have found: "find (\<lambda>a. a_account_id a = acc) (accounts d1) = Some b"
    using assms(1) unfolding d1_def update_account_def b_def
    by (simp add: find_update_where_same [where f = "\<lambda>a. a\<lparr> a_pending_tariff_plan_id := Some (p_plan_id new) \<rparr>"])
  have "\<exists>d2. apply_lazy_billing_transitions x now acc d1 = Inr d2 \<and>
        map_option a_tariff_plan_id (find (\<lambda>a. a_account_id a = acc) (accounts d2)) =
          Some (if ends < now then p_plan_id new else a_tariff_plan_id a)" for now
  proof -
    have free: "free_plan_id d1 = Some free" using assms(10) by (simp add: d1_def update_account_def free_plan_id_def)
    have due: "pending_due now b = (ends < now)" "\<not> canceled_due now b"
      using assms(2,11) by (simp_all add: b_def pending_due_def canceled_due_def period_over_def)
    define rows where "rows = accounts d1"
    have "map_option a_tariff_plan_id (find (\<lambda>a. a_account_id a = acc)
        (update_where (lazy_due now acc) (lazy_update x free now) rows)) =
      Some (if ends < now then p_plan_id new else a_tariff_plan_id a)"
      using found [folded rows_def]
    proof (induction rows)
      case (Cons r rows)
      show ?case
      proof (cases "a_account_id r = acc")
        case True
        then have "r = b" using Cons.prems by simp
        then show ?thesis using True due by (simp add: update_where_def lazy_due_def lazy_update_def) (simp add: b_def)
      next
        case False
        then show ?thesis using Cons by (simp add: update_where_def lazy_due_def)
      qed
    qed simp
    then show ?thesis by (simp add: apply_lazy_free [OF free] rows_def)
  qed
  with upd found show ?thesis unfolding b_def by blast
qed

section \<open>Redelivery\<close>

text \<open>An event that failed is applied by a later delivery, once its application succeeds.\<close>

lemma redelivery_applies:
  assumes "webhooks_ok d" "find_by_paddle_event_id (pe_event_id event) d = Some w" "w_status w = ''failed''"
    and "is_handled_event_type (normalized_event_type event)" "w_payload_hash w = payload_hash (we_ext v) raw"
    and "customer_id event = Some customer" "resolve_account_by_paddle_customer customer d = Some account"
    and "\<not> should_skip_out_of_order (ab_account_id account) (pe_occurred_at event) d"
    and "apply_event account event (claim w (we_now v) d) = Inr d1"
  shows "\<exists>d'. process_paddle_webhook v event raw d = (Inr Processed, d') \<and> accounts d' = accounts d1 \<and>
     event_settled (pe_event_id event) d'"
proof -
  have w: "w \<in> set (paddle_webhook_events d)" "w_paddle_event_id w = pe_event_id event"
    using find_webhook [OF assms(2)] by auto
  have ids: "distinct (map w_id (paddle_webhook_events d))" using assms(1) by (simp add: webhooks_ok_def)
  have "w_status w \<in> {''received'', ''failed''}" by (simp add: assms(3))
  note mp = mark_processing_claim [OF ids w(1) this]
  have "w_status w \<noteq> ''processed''" by (simp add: assms(3))
  note skip = skip_claim [OF ids w(1) this]
  define d' where "d' = mark_processed (we_now v) (w_id w) d1"
  obtain f where f: "d1 = update_account (ab_account_id account) f (claim w (we_now v) d)"
    using apply_event_frame [OF assms(9)] by blast
  then have same: "paddle_webhook_events d1 = paddle_webhook_events (claim w (we_now v) d)"
    by (simp add: update_account_def)
  define tx where "tx = \<lparr> tx_row = w_id w, tx_now = we_now v, tx_account = account, tx_skip = False \<rparr>"
  have opened: "open_linked (we_now v) (w_id w) account event d = Some tx"
    using assms(8) by (simp add: open_linked_def mp skip tx_def)
  have fin: "finish_linked (we_show v) tx event d d = Some (Inr Processed, d')"
    using assms(9) by (simp add: finish_linked_def mp tx_def d'_def)
  have "process_paddle_webhook v event raw d = (Inr Processed, d')"
    using assms(2-7) opened fin
    by (simp add: process_paddle_webhook_def drive.simps begin_webhook_def after_classify_def
        classify_existing_event_def Let_def reprocess_linked_def commit_reprocessed_def)
  moreover have "accounts d' = accounts d1" by (simp add: d'_def mark_processed_def mark_done_def)
  moreover have "close_row ''processed'' None (we_now v) w \<in> set (paddle_webhook_events d')"
    unfolding d'_def mark_processed_def mark_done_claim [OF ids same]
    using w(1) by (auto simp: set_update_where image_iff)
  then have "event_settled (pe_event_id event) d'"
    unfolding event_settled_def list_ex_iff by (rule bexI [rotated]) (simp add: w(2) row_settled_def)
  ultimately show ?thesis by blast
qed

section \<open>Signatures\<close>

lemma xor_zero: "xor a b = 0 \<longleftrightarrow> a = (b :: 'a::len word)"
proof
  assume z: "xor a b = 0"
  have "b = xor (xor a b) a" by (simp add: ac_simps)
  then show "a = b" by (simp add: z)
qed simp

lemma constant_time_eq_iff: "constant_time_eq a b \<longleftrightarrow> a = b"
proof -
  have "foldl (\<lambda>acc (x, y). or acc (xor x y)) c zs = 0 \<longleftrightarrow> c = 0 \<and> list_all (\<lambda>(x, y). x = y) zs" for c :: byte and zs
    by (induction zs arbitrary: c) (simp_all add: or_eq_0_iff xor_zero case_prod_beta conj_assoc)
  then show ?thesis
    unfolding constant_time_eq_def list_all_iff list_eq_iff_zip_eq by (simp add: case_prod_beta)
qed

lemma list_ex_option: "list_ex (\<lambda>s. case f s of None \<Rightarrow> False | Some e \<Rightarrow> c = e) ss \<longleftrightarrow> (\<exists>s\<in>set ss. f s = Some c)"
  by (auto simp: list_ex_iff split: option.splits)

lemma show_int_graph: "list_all is_graph (show_int i)" "CHR '';'' \<notin> set (show_int i)"
proof -
  have digit: "is_graph (char_of (48 + n mod 10 :: nat)) \<and> char_of (48 + n mod 10 :: nat) \<noteq> CHR '';''" for n
  proof -
    have "n mod 10 < 10" by simp
    then have code: "(of_char (char_of (48 + n mod 10 :: nat)) :: nat) = 48 + n mod 10" by simp
    have "char_of (48 + n mod 10 :: nat) \<noteq> CHR '';''"
    proof
      assume semicolon: "char_of (48 + n mod 10 :: nat) = CHR '';''"
      have "48 + n mod 10 = 59" using code unfolding semicolon by simp
      with \<open>n mod 10 < 10\<close> show False by simp
    qed
    then show ?thesis using code \<open>n mod 10 < 10\<close> by (simp add: is_graph_def)
  qed
  have "list_all is_graph (digits n) \<and> CHR '';'' \<notin> set (digits n)" for n
  proof (induction n rule: digits.induct)
    case (1 n)
    then show ?case using digit [of n] by (subst (1 2) digits.simps) auto
  qed
  moreover have "is_graph (CHR ''-'')" by (simp add: is_graph_def)
  ultimately show "list_all is_graph (show_int i)" "CHR '';'' \<notin> set (show_int i)" by (simp_all add: show_int_def)
qed

lemma parse_signed_header:
  assumes "list_all is_graph ts" "CHR '';'' \<notin> set ts" "list_all is_lower_hex sig"
  shows "parse_signature_header (''ts='' @ ts @ '';h1='' @ sig) = Some (ts, [sig])"
proof -
  have graph: "list_all is_graph (''ts='' @ ts)" "list_all is_graph (''h1='' @ sig)"
    using assms is_lower_hex_graph by (auto simp: list_all_iff is_graph_def)
  have "CHR '';'' \<notin> set (''h1='' @ sig)" using assms(3) by (auto simp: list_all_iff is_lower_hex_def Let_def)
  moreover have "CHR '';'' \<notin> set (''ts='' @ ts)" using assms(2) by simp
  ultimately have "split_char (CHR '';'') (''ts='' @ ts @ '';h1='' @ sig) = [''ts='' @ ts, ''h1='' @ sig]"
    using split_char_append [of "CHR '';''" "''ts='' @ ts" "''h1='' @ sig"] split_char_no [of "CHR '';''" "''h1='' @ sig"]
    by simp
  moreover have "strip_prefix ''ts='' (''h1='' @ sig) = None" by (simp add: strip_prefix_def)
  ultimately show ?thesis
    using strip_prefix_append [of "''ts=''" ts] strip_prefix_append [of "''h1=''" sig] trim_graph [OF graph(1)] trim_graph [OF graph(2)]
    by (simp add: parse_signature_header_def Let_def)
qed

lemma signature_accepted:
  "verify_paddle_signature x hmac body header secret \<longleftrightarrow> is_utf8 body \<and>
     (\<exists>ts sigs sig. parse_signature_header header = Some (ts, sigs) \<and> sig \<in> set sigs \<and>
        x_hex_decode x sig = Some (hmac (str_bytes secret) (str_bytes ts @ str_bytes '':'' @ body)))"
  unfolding verify_paddle_signature_def Let_def constant_time_eq_iff list_ex_option
  by (cases "parse_signature_header header") auto

end
