(* ===== verification/BillingSpec.thy ===== *)
theory BillingSpec
  imports Billing
begin

text \<open>
  What the billing system promises.  Its accounts stay within the types of the schema: plans that
  exist and statuses the CHECK constraint allows.  Seen as the set of settled events and the accounts,
  it is a system of atomic steps in which an event settles once and only then changes an account.
\<close>

lemma customer_owner_unique:
  assumes "customers_ok d" "a \<in> set (accounts d)" "b \<in> set (accounts d)"
    and "a_paddle_customer_id a = Some c" "a_paddle_customer_id b = Some c"
  shows "a_account_id a = a_account_id b"
proof -
  have "account_key a \<in> account_key ` set (accounts d)" "account_key b \<in> account_key ` set (accounts d)"
    using assms(2,3) by simp_all
  then have "snd (account_key a) = snd (account_key b) \<and> snd (account_key a) \<noteq> None \<longrightarrow>
      fst (account_key a) = fst (account_key b)"
    using assms(1) unfolding customers_ok_def by blast
  then show ?thesis using assms(4,5) by (simp add: account_key_def)
qed

section \<open>Types\<close>

definition account_typed :: "uuid set \<Rightarrow> account_row \<Rightarrow> bool" where
  "account_typed plans a \<longleftrightarrow> a_tariff_plan_id a \<in> plans \<and>
     (case a_pending_tariff_plan_id a of None \<Rightarrow> True | Some p \<Rightarrow> p \<in> plans) \<and>
     a_subscription_status a \<in> {''none'', ''active'', ''past_due'', ''canceled''}"

definition types_ok :: "db \<Rightarrow> bool" where
  "types_ok d \<longleftrightarrow> list_all (account_typed (p_plan_id ` set (tariff_plans d))) (accounts d)"

text \<open>Every operation on accounts: the billing system, registration, the first password and the plan
  change of development mode.\<close>

inductive account_step :: "billing_world \<Rightarrow> billing_world \<Rightarrow> bool" where
  billing: "billing_step w w' \<Longrightarrow> account_step w w'"
| register: "register_tx x now acc key_id secret email pw d = Inr (r, d') \<Longrightarrow> account_step (ts, d) (ts, d')"
| password: "set_account_password acc h d = (r, d') \<Longrightarrow> account_step (ts, d) (ts, d')"
| dev_plan: "change_dev_plan acc plan d = (r, d') \<Longrightarrow> account_step (ts, d) (ts, d')"

lemma types_ok_update:
  assumes "types_ok d"
    and "\<And>a. a \<in> set (accounts d) \<Longrightarrow> P a \<Longrightarrow> account_typed (p_plan_id ` set (tariff_plans d)) a \<Longrightarrow>
        account_typed (p_plan_id ` set (tariff_plans d)) (f a)"
    and "accounts d' = update_where P f (accounts d)" "tariff_plans d' = tariff_plans d"
  shows "types_ok d'"
  using assms by (auto simp: types_ok_def list_all_iff set_update_where)

lemma types_ok_same: "accounts d' = accounts d \<Longrightarrow> tariff_plans d' = tariff_plans d \<Longrightarrow> types_ok d' = types_ok d"
  by (simp add: types_ok_def)

lemma find_plan: "find P rows = Some p \<Longrightarrow> p_plan_id p \<in> p_plan_id ` set rows"
  by (auto simp: find_Some_iff)

lemma load_plan_typed: "load_plan_by_price_id price d = Inr p \<Longrightarrow> p_plan_id p \<in> p_plan_id ` set (tariff_plans d)"
  by (auto simp: load_plan_by_price_id_def ok_or_def fetch_one_def map_err_def find_plan split: option.splits sum.splits)

lemma apply_event_types:
  assumes "apply_event account event d = Inr d'" "types_ok d"
  shows "types_ok d'"
  using assms(1)
  by (auto simp: apply_event_def Let_def subscription_created_def subscription_updated_def
      subscription_past_due_def subscription_canceled_def bind_res_Inr split: if_splits
      dest!: update_subscription_Inr load_plan_typed)
    (rule types_ok_update [OF assms(2)], auto simp: update_account_def account_typed_def)+

lemma mark_types [simp]:
  "types_ok (snd (mark_processing now i d)) = types_ok d" "types_ok (mark_processed now i d) = types_ok d"
  "types_ok (mark_failed msg now i d) = types_ok d" "types_ok (mark_waiting_for_account_link now i d) = types_ok d"
  by (simp_all add: types_ok_def mark_processing_def mark_processed_def mark_done_def mark_failed_def
      mark_waiting_for_account_link_def Let_def)

lemma finish_types:
  assumes "types_ok d" "types_ok d0"
  shows "finish_linked show_sqlx tx event d0 d = Some (r, d') \<Longrightarrow> types_ok d'"
    "finish_unlinked now link i customer event d0 d = Some (r, d') \<Longrightarrow> types_ok d'"
proof -
  have mp: "types_ok d1" if "mark_processing now' i' d = (b, d1)" for now' i' b d1
    using mark_types(1) [of now' i' d] that assms(1) by simp
  show "types_ok d'" if "finish_linked show_sqlx tx event d0 d = Some (r, d')"
    using that assms(2)
    by (auto simp: finish_linked_def split: prod.splits bool.splits if_splits sum.splits
        dest: mp dest!: apply_event_types)
  show "types_ok d'" if "finish_unlinked now link i customer event d0 d = Some (r, d')"
    using that assms(2)
    by (auto simp: finish_unlinked_def insert_pending_link_def split: prod.splits bool.splits if_splits sum.splits
        dest: mp) (auto simp: types_ok_def dest!: mp)
qed

lemma settle_types:
  "types_ok d \<Longrightarrow> (\<And>r d'. m = Some (r, d') \<Longrightarrow> types_ok d') \<Longrightarrow> types_ok (snd (settle event m d))"
  by (cases "(event, m, d)" rule: settle.cases) auto

lemma insert_types:
  "insert_webhook w d = Inr d' \<Longrightarrow> types_ok d' = types_ok d"
  by (auto simp: insert_webhook_def types_ok_def split: if_splits)

lemma received_types:
  "insert_received fresh pid et hash acc sub occurred d = Inr d' \<Longrightarrow> types_ok d' = types_ok d"
  "insert_received_unlinked fresh pid et hash sub occurred d = Inr d' \<Longrightarrow> types_ok d' = types_ok d"
  by (simp_all add: insert_received_def insert_received_unlinked_def insert_types)

lemma finish_settle_types:
  assumes "types_ok d" "types_ok d0"
  shows "types_ok (snd (settle event (finish_linked show_sqlx tx event d0 d) d0))"
    "types_ok (snd (settle event (finish_unlinked now link i customer event d0 d) d0))"
  using finish_types [OF assms] assms(2) by (blast intro: settle_types)+

lemma webhook_step_types:
  assumes "types_ok d"
  shows "types_ok (snd (webhook_step v t d))"
proof (cases t)
  case (CommitStored event hash tx)
  then show ?thesis
    using assms
    by (simp add: commit_linked_webhook_def insert_linked_def received_types finish_settle_types split: sum.split)
next
  case (StoreUnlinked event hash customer)
  then show ?thesis
    using assms by (simp add: store_unlinked_webhook_def received_types finish_settle_types split: sum.split)
qed (simp_all add: assms commit_reprocessed_def reprocess_unlinked_webhook_def finish_settle_types)

lemma set_customer_types: "types_ok d \<Longrightarrow> types_ok (set_customer acc customer d)"
  by (rule types_ok_update [where P = "linkable acc customer"]) (auto simp: set_customer_def account_typed_def)

lemma lazy_types:
  assumes "apply_lazy_billing_transitions x now acc d = Inr d'" "types_ok d"
  shows "types_ok d'"
proof (cases "free_plan_id d")
  case (Some free)
  then have "free \<in> p_plan_id ` set (tariff_plans d)" by (auto simp: free_plan_id_def find_plan)
  then show ?thesis
    using assms(1) Some
    by (auto simp: apply_lazy_billing_transitions_def account_typed_def lazy_update_def pending_due_def
        intro!: types_ok_update [OF assms(2), where P = "lazy_due now acc" and f = "lazy_update x free now"])
next
  case None
  then show ?thesis
    using assms(1)
    by (auto simp: apply_lazy_billing_transitions_def account_typed_def lazy_update_def pending_due_def list_ex_iff
        split: if_splits intro!: types_ok_update [OF assms(2), where P = "lazy_due now acc" and f = "lazy_update x 0 now"])
qed

lemma billing_step_types: "billing_step w w' \<Longrightarrow> types_ok (snd w) \<Longrightarrow> types_ok (snd w')"
proof (induction rule: billing_step.induct)
  case (advance i ts v d t d')
  then show ?case using webhook_step_types [of d v "ts ! i"] by simp
next
  case (link acc customer d r d' ts)
  then show ?case using link_cases set_customer_types by fastforce
next
  case (upgrade created checkout acc plan d r d' ts)
  then show ?case using upgrade_cases [OF upgrade.hyps] set_customer_types by fastforce
next
  case (lazy x now acc d d' ts)
  then show ?case using lazy_types by simp
qed simp

lemma account_step_types: "account_step w w' \<Longrightarrow> types_ok (snd w) \<Longrightarrow> types_ok (snd w')"
proof (induction rule: account_step.induct)
  case (billing w w')
  then show ?case by (rule billing_step_types)
next
  case (register x now acc key_id secret email pw d r d' ts)
  from register.hyps show ?case
  proof (rule register_tx_Inr)
    fix p
    assume "find (\<lambda>p. p_name p = ''free'') (tariff_plans d) = Some p"
      and "d' = d\<lparr> accounts := accounts d @ [new_account now acc email (p_plan_id p) pw],
        api_keys := api_keys d @ [api_key_row_of now key_id acc (generate_api_key x secret) ''default''] \<rparr>"
    then show "types_ok (snd (ts, d'))"
      using register.prems find_plan by (auto simp: types_ok_def new_account_def account_typed_def)
  qed
next
  case (password acc h d r d' ts)
  then show ?case
    by (auto simp: set_account_password_def Let_def split: if_splits option.splits)
      (rule types_ok_update [where P = "\<lambda>a. a_account_id a = acc \<and> a_password_hash a = None"
          and f = "\<lambda>a. a\<lparr> a_password_hash := Some h \<rparr>"], auto simp: account_typed_def)
next
  case (dev_plan acc plan d r d' ts)
  then show ?case
    by (auto simp: change_dev_plan_def split: if_splits option.splits sum.splits)
      (rule types_ok_update [where P = "\<lambda>a. a_account_id a = acc"], auto simp: account_typed_def find_plan)
qed

interpretation typed: kept account_step "\<lambda>w. types_ok (snd w)"
  by unfold_locales (rule account_step_types)

section \<open>Specification\<close>

text \<open>The view of the system: the events that are settled, and the accounts.\<close>

definition settled_events :: "db \<Rightarrow> string set" where
  "settled_events d = w_paddle_event_id ` {w \<in> set (paddle_webhook_events d). row_settled w}"

fun billing_view :: "billing_world \<Rightarrow> string set \<times> account_row list" where
  "billing_view (ts, d) = (settled_events d, accounts d)"

text \<open>An event settles once, and changes at most the billing columns of one account as it does; a customer
  that has no account gets one that has no customer; time ends the periods of an account.\<close>

inductive spec_step :: "string set \<times> account_row list \<Rightarrow> string set \<times> account_row list \<Rightarrow> bool" where
  settle: "pid \<notin> S \<Longrightarrow> billing_only f \<Longrightarrow>
    spec_step (S, A) (insert pid S, update_where (\<lambda>a. acc = Some (a_account_id a)) f A)"
| assign: "\<forall>a\<in>set A. a_paddle_customer_id a \<noteq> Some customer \<Longrightarrow>
    spec_step (S, A) (S, update_where (linkable acc customer) (\<lambda>a. a\<lparr> a_paddle_customer_id := Some customer \<rparr>) A)"
| lapse: "spec_step (S, A) (S, update_where (lazy_due now acc) (lazy_update x free now) A)"

lemma spec_settle_none: "pid \<notin> S \<Longrightarrow> spec_step (S, A) (insert pid S, A)"
  using spec_step.settle [of pid S "\<lambda>a. a" A None] by (simp add: billing_only_def update_where_def)

lemma spec_settle_some:
  "pid \<notin> S \<Longrightarrow> billing_only f \<Longrightarrow> spec_step (S, A) (insert pid S, update_where (\<lambda>a. a_account_id a = acc) f A)"
  using spec_step.settle [of pid S f A "Some acc"] by (simp add: eq_commute)

lemma set_put_row: "distinct (map w_id rows) \<Longrightarrow> set (put_row w rows) = insert w {v \<in> set rows. w_id v \<noteq> w_id w}"
  by (auto simp: put_row_def set_update_where image_iff)

lemma effect_view:
  assumes "webhooks_ok d" "webhook_effect event d d'"
  shows "billing_view (ts, d) = billing_view (ts', d') \<or> spec_step (billing_view (ts, d)) (billing_view (ts', d'))"
proof -
  obtain w A L where d': "d' = d\<lparr> accounts := A, paddle_pending_links := L,
      paddle_webhook_events := put_row w (paddle_webhook_events d) \<rparr>"
    and w: "w_paddle_event_id w = pe_event_id event" "row_settled w \<or> w_status w = ''failed''"
    and rows: "\<forall>v\<in>set (paddle_webhook_events d). w_id v = w_id w \<or> w_paddle_event_id v = pe_event_id event \<longrightarrow>
        row_key v = row_key w \<and> \<not> row_settled v"
    and A: "A = accounts d \<or> w_status w = ''processed'' \<and>
        (\<exists>acc f. A = update_where (\<lambda>a. a_account_id a = acc) f (accounts d) \<and> billing_only f)"
    using assms(2) unfolding webhook_effect_def by (elim exE conjE) blast
  have ids: "distinct (map w_id (paddle_webhook_events d))" using assms(1) by (simp add: webhooks_ok_def)
  have fresh: "pe_event_id event \<notin> settled_events d" using rows by (auto simp: settled_events_def)
  have events: "settled_events d' =
      (if row_settled w then insert (pe_event_id event) (settled_events d) else settled_events d)"
    using rows w(1) by (auto simp: settled_events_def d' set_put_row [OF ids] image_iff) metis
  have unsettled: "A = accounts d" if "\<not> row_settled w" using A that by (auto simp: row_settled_def)
  have acc: "accounts d' = A" by (simp add: d')
  show ?thesis
  proof (cases "row_settled w")
    case True
    then show ?thesis
      using A fresh spec_settle_none spec_settle_some by (auto simp: events acc)
  qed (simp add: events acc unsettled)
qed

lemma set_customer_view:
  assumes "d' = d \<or> (\<exists>acc customer. customer_owner customer d = None \<and> d' = set_customer acc customer d)"
  shows "billing_view (ts, d) = billing_view (ts, d') \<or> spec_step (billing_view (ts, d)) (billing_view (ts, d'))"
  using assms
proof (elim disjE exE conjE)
  fix acc customer
  assume "customer_owner customer d = None" "d' = set_customer acc customer d"
  then have "\<forall>a\<in>set (accounts d). a_paddle_customer_id a \<noteq> Some customer"
    and "billing_view (ts, d') = (settled_events d, update_where (linkable acc customer)
      (\<lambda>a. a\<lparr> a_paddle_customer_id := Some customer \<rparr>) (accounts d))"
    by (auto simp: customer_owner_def find_None_iff set_customer_def settled_events_def)
  then show ?thesis using spec_step.assign by simp
qed simp

lemma billing_step_view:
  assumes "billing_step w w'" "billing_ok w"
  shows "billing_view w = billing_view w' \<or> spec_step (billing_view w) (billing_view w')"
  using assms
proof (induction rule: billing_step.induct)
  case (advance i ts v d t d')
  then have ok: "webhooks_ok d" "task_ok (ts ! i) d" by (auto simp: list_all_length)
  show ?case using webhook_step_effect [OF ok advance.hyps(2)]
  proof
    assume "d' = d"
    then show ?thesis by simp
  next
    assume "\<exists>event. task_event (ts ! i) = Some (pe_event_id event) \<and> webhook_effect event d d'"
    then show ?thesis using effect_view [OF ok(1)] by blast
  qed
next
  case (link acc customer d r d' ts)
  show ?case by (rule set_customer_view) (use link_cases [OF link.hyps] in blast)
next
  case (upgrade created checkout acc plan d r d' ts)
  show ?case by (rule set_customer_view) (use upgrade_cases [OF upgrade.hyps] in blast)
next
  case (lazy x now acc d d' ts)
  obtain free where d': "d' = d\<lparr> accounts := update_where (lazy_due now acc) (lazy_update x free now) (accounts d) \<rparr>"
    using lazy.hyps by (auto simp: apply_lazy_billing_transitions_def split: option.splits if_splits)
  then have "billing_view (ts, d') = (settled_events d, update_where (lazy_due now acc) (lazy_update x free now) (accounts d))"
    by (simp add: settled_events_def)
  then show ?case using spec_step.lapse by simp
qed simp

interpretation billing_spec: refines billing_step billing_ok billing_view spec_step
  by unfold_locales (rule billing_step_view)

end
