(* ===== verification/BillingPromises.thy ===== *)
theory BillingPromises
  imports Demo BillingSpec
begin

text \<open>
  The properties of the payment side, with a paying account and its deliveries as the concrete case.
\<close>

section \<open>A paying account\<close>

definition demo_customer :: account_row where
  "demo_customer = (demo_account 1 11)\<lparr> a_paddle_customer_id := Some ''c'' \<rparr>"

definition demo_paying :: db where
  "demo_paying = demo_db\<lparr> accounts := [demo_customer, demo_account 2 14] \<rparr>"

definition demo_cancel :: "string \<Rightarrow> PaddleWebhookEvent" where
  "demo_cancel i = \<lparr> pe_event_id = i, pe_event_type = ''subscription.canceled'', pe_occurred_at = 5,
     pe_data = \<lparr> pd_id = None, pd_customer_id = Some ''c'', pd_customer = None, pd_ends_at = Some 50, pd_items = None \<rparr> \<rparr>"

definition demo_show :: "sqlx_error \<Rightarrow> string" where
  "demo_show e = []"

definition demo_webhook :: webhook_env where
  "demo_webhook = \<lparr> we_ext = demo_ext, we_show = demo_show, we_now = 9, we_id = 21, we_link = 22 \<rparr>"

definition demo_billing_row :: AccountBillingRow where
  "demo_billing_row = \<lparr> ab_account_id = 1, ab_tariff_plan_id = 11, ab_subscription_status = ''none'',
     ab_current_period_end = None, ab_pending_tariff_plan_id = None \<rparr>"

text \<open>A delivery that is about to end its transaction.\<close>

definition demo_delivery :: task where
  "demo_delivery = CommitStored (demo_cancel ''e'') ''h''
     \<lparr> tx_row = 21, tx_now = 9, tx_account = demo_billing_row, tx_skip = False \<rparr>"

definition demo_past_due :: PaddleWebhookEvent where
  "demo_past_due = \<lparr> pe_event_id = ''o'', pe_event_type = ''subscription.past_due'', pe_occurred_at = 4,
     pe_data = \<lparr> pd_id = None, pd_customer_id = Some ''c'', pd_customer = None, pd_ends_at = None, pd_items = None \<rparr> \<rparr>"

definition demo_canceled :: db where
  "demo_canceled = demo_paying\<lparr> accounts := [demo_customer\<lparr> a_subscription_status := ''canceled'',
       a_current_period_end := Some 50 \<rparr>, demo_account 2 14],
     paddle_webhook_events := [close_row ''processed'' None 9
       (received_row 21 ''e'' ''subscription_canceled'' ''h'' (Some 1) None 5)] \<rparr>"

definition demo_failed_row :: webhook_row where
  "demo_failed_row = close_row ''failed'' (Some ''PlanNotFound'') 9
     (received_row 21 ''e'' ''subscription_canceled'' (payload_hash demo_ext []) (Some 1) None 5)"

definition demo_failed :: db where
  "demo_failed = demo_paying\<lparr> paddle_webhook_events := [demo_failed_row] \<rparr>"

definition demo_hmac :: "byte list \<Rightarrow> byte list \<Rightarrow> byte list" where
  "demo_hmac k m = demo_sha (k @ m)"

lemma demo_cancel_type: "normalized_event_type (demo_cancel i) = ''subscription_canceled''"
  by (simp add: normalized_event_type_def demo_cancel_def) code_simp

lemma demo_webhook_step: "webhook_step demo_webhook demo_delivery demo_paying = (Done (Inr Processed), demo_canceled)"
  by (simp add: demo_delivery_def commit_linked_webhook_def insert_linked_def insert_received_def insert_webhook_def received_row_def
      demo_webhook_def demo_paying_def demo_db_def demo_customer_def demo_account_def finish_linked_def
      mark_processing_def demo_billing_row_def
      apply_event_def demo_cancel_type subscription_canceled_def period_end_def mark_processed_def mark_done_def
      update_account_def update_where_def Let_def demo_canceled_def close_row_def subscription_id_def)
    (simp add: demo_cancel_def mark_processed_def mark_done_def update_where_def)

lemma demo_new: "unseen i pid demo_paying" "\<not> should_skip_out_of_order acc oc demo_paying"
  by (simp_all add: unseen_def should_skip_out_of_order_def last_processed_occurred_at_def demo_paying_def demo_db_def)

lemma demo_linked: "resolve_account_by_paddle_customer ''c'' demo_paying = Some demo_billing_row"
  by (simp add: resolve_account_by_paddle_customer_def demo_paying_def demo_customer_def demo_account_def demo_billing_row_def)

lemma demo_cancel_facts:
  "is_handled_event_type (normalized_event_type (demo_cancel i))" "customer_id (demo_cancel i) = Some ''c''"
  "apply_event demo_billing_row (demo_cancel i) d =
     Inr (update_account 1 (\<lambda>a. a\<lparr> a_subscription_status := ''canceled'', a_current_period_end := Some 50 \<rparr>) d)"
  by (simp_all add: demo_cancel_type is_handled_event_type_def customer_id_def apply_event_def subscription_canceled_def
      period_end_def Let_def demo_billing_row_def) (simp_all add: demo_cancel_def)

lemma demo_past_due_type: "normalized_event_type demo_past_due = ''subscription_past_due''"
  by (simp add: normalized_event_type_def demo_past_due_def) code_simp

lemma demo_past_due_facts:
  "is_handled_event_type (normalized_event_type demo_past_due)" "customer_id demo_past_due = Some ''c''"
  "apply_event demo_billing_row demo_past_due d =
     Inr (update_account 1 (\<lambda>a. a\<lparr> a_subscription_status := ''past_due'' \<rparr>) d)"
  by (simp_all add: demo_past_due_type is_handled_event_type_def customer_id_def apply_event_def subscription_past_due_def
      Let_def demo_billing_row_def) (simp_all add: demo_past_due_def)

lemma demo_delivery_opens:
  "webhook_step demo_webhook (StoreLinked (demo_cancel ''e'') ''h'' demo_billing_row) demo_paying = (demo_delivery, demo_paying)"
  using new_delivery_opens(3) [OF demo_cancel_facts(1) demo_new(1) demo_cancel_facts(2) demo_linked demo_new(2), of demo_webhook "''e''"]
  by (simp add: demo_delivery_def demo_webhook_def)

lemma demo_paying_ok: "billing_ok (replicate n demo_delivery, demo_paying)"
  by (simp add: webhooks_ok_def customers_ok_def account_key_def demo_paying_def demo_db_def demo_customer_def
      demo_account_def demo_delivery_def list_all_iff)

lemma demo_paying_types: "types_ok demo_paying"
  by (simp add: types_ok_def account_typed_def demo_paying_def demo_db_def demo_customer_def demo_account_def seed_plans_def)

lemma demo_delivery_settles: "billing_step (replicate 2 demo_delivery, demo_paying) ([Done (Inr Processed), demo_delivery], demo_canceled)"
  using billing_step.advance [of 0 "replicate 2 demo_delivery", OF _ _ ] demo_webhook_step
  by (fastforce simp: numeral_2_eq_2)

lemma demo_accounts_change: "accounts demo_canceled \<noteq> accounts demo_paying"
  by (simp add: demo_canceled_def demo_paying_def demo_customer_def demo_account_def)

section \<open>Properties\<close>

text \<open>C26: an event changes an account at most once.  In a system of interleaved deliveries, customer links,
  upgrades and lazy transitions, a step that changes an account settles its event, which was not settled
  before; after any further run, no step of any delivery of the same event changes the database.\<close>

theorem webhook_applied_once:
  assumes "billing_ok (ts, d)" "i < length ts" "webhook_step v (ts ! i) d = (t, d')" "accounts d' \<noteq> accounts d"
    and "billing_step\<^sup>*\<^sup>* (ts[i := t], d') (us, e)" "j < length us" "task_event (us ! j) = task_event (ts ! i)"
  shows "\<exists>pid. task_event (ts ! i) = Some pid \<and> \<not> event_settled pid d \<and> event_settled pid d' \<and>
     snd (webhook_step v' (us ! j) e) = e"
  by (rule applied_once [OF assms])

theorem webhook_applied_once_witness:
  "\<not> event_settled ''e'' demo_paying \<and> event_settled ''e'' demo_canceled \<and>
   snd (webhook_step demo_webhook demo_delivery demo_canceled) = demo_canceled"
proof -
  have e: "task_event demo_delivery = Some ''e''" by (simp add: demo_delivery_def demo_cancel_def)
  have run: "billing_step\<^sup>*\<^sup>* ((replicate 2 demo_delivery)[0 := Done (Inr Processed)], demo_canceled)
      ([Done (Inr Processed), demo_delivery], demo_canceled)"
    by (simp add: numeral_2_eq_2)
  have "\<exists>pid. task_event (replicate 2 demo_delivery ! 0) = Some pid \<and> \<not> event_settled pid demo_paying \<and>
      event_settled pid demo_canceled \<and>
      snd (webhook_step demo_webhook ([Done (Inr Processed), demo_delivery] ! 1) demo_canceled) = demo_canceled"
    by (rule webhook_applied_once [OF demo_paying_ok _ _ demo_accounts_change run, where v = demo_webhook])
      (simp_all add: demo_webhook_step)
  then show ?thesis using e by simp
qed

text \<open>C27: billing follows the order in which events occurred, as long as deliveries do not overlap.  A delivery
  that runs from its start to its outcome without another one in between changes the accounts only when
  it answers that the event was processed, changes the billing of one account and nothing else of it, and
  only if no event of that account processed before occurred later.\<close>

theorem lone_delivery_follows_order:
  assumes "process_paddle_webhook v event raw d = (r, d')" "accounts d' \<noteq> accounts d"
  shows "r = Inr Processed \<and> (\<exists>acc f. billing_only f \<and>
     accounts d' = update_where (\<lambda>a. a_account_id a = acc) f (accounts d) \<and>
     (\<forall>w\<in>set (paddle_webhook_events d). w_account_id w = Some acc \<and> w_status w = ''processed'' \<longrightarrow>
        w_event_occurred_at w \<le> pe_occurred_at event))"
  by (rule delivery_follows_order [OF assms])

theorem lone_delivery_follows_order_witness:
  "\<exists>d' acc f. process_paddle_webhook demo_webhook (demo_cancel ''e'') [] demo_paying = (Inr Processed, d') \<and>
     accounts d' \<noteq> accounts demo_paying \<and> billing_only f \<and>
     accounts d' = update_where (\<lambda>a. a_account_id a = acc) f (accounts demo_paying)"
proof -
  obtain d' where d': "process_paddle_webhook demo_webhook (demo_cancel ''e'') [] demo_paying = (Inr Processed, d')"
    "accounts d' = accounts (update_account 1 (\<lambda>a. a\<lparr> a_subscription_status := ''canceled'', a_current_period_end := Some 50 \<rparr>) demo_paying)"
    using new_delivery_applies [OF demo_cancel_facts(1) demo_new(1) demo_cancel_facts(2) demo_linked demo_new(2) demo_cancel_facts(3)]
    by blast
  have "accounts d' \<noteq> accounts demo_paying"
    by (simp add: d'(2) update_account_def demo_paying_def demo_customer_def demo_account_def update_where_def)
  with lone_delivery_follows_order [OF d'(1)] d'(1) show ?thesis by blast
qed

text \<open>C28: along every run of the billing system a customer of the provider belongs to one account at most,
  and an account keeps its identity, its password and, once it has one, its customer.\<close>

theorem customers_belong_to_one_account:
  assumes "billing_ok (ts, d)" "billing_step\<^sup>*\<^sup>* (ts, d) (us, e)"
  shows "(\<forall>a\<in>set (accounts e). \<forall>b\<in>set (accounts e). a_paddle_customer_id a \<noteq> None \<and>
        a_paddle_customer_id b = a_paddle_customer_id a \<longrightarrow> a_account_id a = a_account_id b) \<and>
     list_all2 account_kept (accounts d) (accounts e)"
proof -
  have "customers_ok e" using billing.run_inv [OF assms(2,1)] by simp
  then have "\<forall>a\<in>set (accounts e). \<forall>b\<in>set (accounts e). a_paddle_customer_id a \<noteq> None \<and>
      a_paddle_customer_id b = a_paddle_customer_id a \<longrightarrow> a_account_id a = a_account_id b"
    by (intro ballI impI) (elim conjE exE, auto intro: customer_owner_unique)
  moreover have "list_all2 account_kept (accounts d) (accounts e)"
    using billing.run_below [OF assms(2,1)] by simp
  ultimately show ?thesis by blast
qed

theorem customers_belong_to_one_account_witness:
  "list_all2 account_kept (accounts demo_paying) (accounts demo_canceled) \<and>
   \<not> (\<exists>a\<in>set (accounts demo_canceled). \<exists>b\<in>set (accounts demo_canceled). a_paddle_customer_id a \<noteq> None \<and>
     a_paddle_customer_id b = a_paddle_customer_id a \<and> a_account_id a \<noteq> a_account_id b)"
  using customers_belong_to_one_account [OF demo_paying_ok r_into_rtranclp [of billing_step, OF demo_delivery_settles]]
  by blast

text \<open>C29: the billing system refines its specification.  Seen as the set of settled events and the accounts,
  every run, however its deliveries, links, upgrades and lazy transitions interleave, is a run of atomic
  steps each of which settles one new event and changes the billing of one account at most, gives a free
  customer to an account without one, or ends the periods of an account.\<close>

theorem billing_refines_spec:
  assumes "billing_ok w" "billing_step\<^sup>*\<^sup>* w w'"
  shows "spec_step\<^sup>*\<^sup>* (billing_view w) (billing_view w')"
  using assms(2,1) by (rule billing_spec.run_view)

theorem billing_refines_spec_witness:
  "spec_step\<^sup>*\<^sup>* ({}, accounts demo_paying) ({''e''}, accounts demo_canceled)"
proof -
  have "settled_events demo_paying = {}" by (simp add: settled_events_def demo_paying_def demo_db_def)
  moreover have "settled_events demo_canceled = {''e''}"
    by (auto simp: settled_events_def demo_canceled_def row_settled_def received_row_def)
  ultimately show ?thesis
    using billing_refines_spec [OF demo_paying_ok [of 2] r_into_rtranclp [of billing_step, OF demo_delivery_settles]]
    by simp
qed

text \<open>C30: along every run of registrations, password and plan changes and billing steps, every account stays
  within the types of the schema: its plan and its pending plan exist, and its status is one the CHECK
  constraint allows.\<close>

theorem accounts_stay_typed:
  assumes "types_ok (snd w)" "account_step\<^sup>*\<^sup>* w w'" "a \<in> set (accounts (snd w'))"
  shows "account_typed (p_plan_id ` set (tariff_plans (snd w'))) a"
  using typed.run_inv [OF assms(2,1)] assms(3) by (simp add: types_ok_def list_all_iff)

theorem accounts_stay_typed_witness:
  "account_typed (p_plan_id ` set (tariff_plans demo_canceled)) (hd (accounts demo_canceled))"
proof -
  have "account_step\<^sup>*\<^sup>* (replicate 2 demo_delivery, demo_paying) ([Done (Inr Processed), demo_delivery], demo_canceled)"
    using account_step.billing [OF demo_delivery_settles] by blast
  moreover have "hd (accounts demo_canceled) \<in> set (accounts demo_canceled)" by (simp add: demo_canceled_def)
  ultimately show ?thesis using accounts_stay_typed demo_paying_types by (metis snd_conv)
qed

text \<open>C31: the order is not kept where deliveries overlap.  Two new events of one account, neither older than
  what is processed, can be delivered so that both transactions read before either commits; both answer
  that they were processed, and the accounts are those of the events applied in the order in which the
  transactions commit, here the older one last, whichever event occurred first.\<close>

theorem overlapping_deliveries_apply_in_commit_order:
  fixes v w :: webhook_env
  assumes "is_handled_event_type (normalized_event_type older)" "is_handled_event_type (normalized_event_type newer)"
    and "unseen (we_id v) (pe_event_id older) d" "unseen (we_id w) (pe_event_id newer) d"
    and "we_id v \<noteq> we_id w" "pe_event_id older \<noteq> pe_event_id newer"
    and "customer_id older = Some customer" "customer_id newer = Some customer"
    and "resolve_account_by_paddle_customer customer d = Some account"
    and "\<not> should_skip_out_of_order (ab_account_id account) (pe_occurred_at older) d"
    and "\<not> should_skip_out_of_order (ab_account_id account) (pe_occurred_at newer) d"
    and "apply_event account newer d = Inr d1" "apply_event account older d1 = Inr d2"
  shows "\<exists>d'. billing_step\<^sup>*\<^sup>* ([Begin older raw, Begin newer raw'], d) ([Done (Inr Processed), Done (Inr Processed)], d') \<and>
     accounts d' = accounts d2"
  by (rule overlapping_run [OF assms])

text \<open>A payment that became overdue and then a cancellation: the account ends as overdue.\<close>

theorem overlapping_deliveries_apply_in_commit_order_witness:
  "pe_occurred_at demo_past_due < pe_occurred_at (demo_cancel ''e'') \<and>
   (\<exists>d'. billing_step\<^sup>*\<^sup>* ([Begin demo_past_due [], Begin (demo_cancel ''e'') []], demo_paying)
      ([Done (Inr Processed), Done (Inr Processed)], d') \<and>
     a_subscription_status (hd (accounts d')) = ''past_due'')"
proof -
  have ids: "we_id demo_webhook \<noteq> we_id (demo_webhook\<lparr> we_id := 23 \<rparr>)" "pe_event_id demo_past_due \<noteq> pe_event_id (demo_cancel ''e'')"
    by (simp_all add: demo_webhook_def demo_past_due_def demo_cancel_def)
  obtain d' where d': "billing_step\<^sup>*\<^sup>* ([Begin demo_past_due [], Begin (demo_cancel ''e'') []], demo_paying)
      ([Done (Inr Processed), Done (Inr Processed)], d')"
    "accounts d' = accounts (update_account 1 (\<lambda>a. a\<lparr> a_subscription_status := ''past_due'' \<rparr>)
      (update_account 1 (\<lambda>a. a\<lparr> a_subscription_status := ''canceled'', a_current_period_end := Some 50 \<rparr>) demo_paying))"
    using overlapping_deliveries_apply_in_commit_order [OF demo_past_due_facts(1) demo_cancel_facts(1) demo_new(1) demo_new(1)
        ids demo_past_due_facts(2) demo_cancel_facts(2) demo_linked demo_new(2) demo_new(2) demo_cancel_facts(3)
        demo_past_due_facts(3)] by blast
  have "a_subscription_status (hd (accounts d')) = ''past_due''"
    by (simp add: d'(2) update_account_def demo_paying_def demo_customer_def demo_account_def update_where_def)
  moreover have "pe_occurred_at demo_past_due < pe_occurred_at (demo_cancel ''e'')"
    by (simp add: demo_past_due_def demo_cancel_def)
  ultimately show ?thesis using d'(1) by blast
qed

text \<open>C32: a failed event is not lost.  When the application of a failed event succeeds on a later delivery with the
  same payload, that delivery answers that it was processed, the accounts are the ones the application
  computes, and the event is settled.\<close>

theorem failed_event_recovers:
  assumes "webhooks_ok d" "find_by_paddle_event_id (pe_event_id event) d = Some w" "w_status w = ''failed''"
    and "is_handled_event_type (normalized_event_type event)" "w_payload_hash w = payload_hash (we_ext v) raw"
    and "customer_id event = Some customer" "resolve_account_by_paddle_customer customer d = Some account"
    and "\<not> should_skip_out_of_order (ab_account_id account) (pe_occurred_at event) d"
    and "apply_event account event (claim w (we_now v) d) = Inr d1"
  shows "\<exists>d'. process_paddle_webhook v event raw d = (Inr Processed, d') \<and> accounts d' = accounts d1 \<and>
     event_settled (pe_event_id event) d'"
  by (rule redelivery_applies [OF assms])

theorem failed_event_recovers_witness:
  "\<exists>d'. process_paddle_webhook demo_webhook (demo_cancel ''e'') [] demo_failed = (Inr Processed, d') \<and>
     event_settled ''e'' d'"
proof -
  have id: "pe_event_id (demo_cancel ''e'') = ''e''" by (simp add: demo_cancel_def)
  have ok: "webhooks_ok demo_failed"
    by (simp add: webhooks_ok_def demo_failed_def demo_failed_row_def)
  have found: "find_by_paddle_event_id (pe_event_id (demo_cancel ''e'')) demo_failed = Some demo_failed_row"
    by (simp add: find_by_paddle_event_id_def demo_failed_def demo_failed_row_def id received_row_def)
  have customer: "customer_id (demo_cancel ''e'') = Some ''c''" by (simp add: customer_id_def demo_cancel_def)
  have account: "resolve_account_by_paddle_customer ''c'' demo_failed = Some demo_billing_row"
    by (simp add: resolve_account_by_paddle_customer_def demo_failed_def demo_paying_def demo_customer_def
        demo_account_def demo_billing_row_def)
  have order: "\<not> should_skip_out_of_order (ab_account_id demo_billing_row) (pe_occurred_at (demo_cancel ''e'')) demo_failed"
    by (simp add: skip_iff demo_failed_def demo_failed_row_def)
  have applied: "apply_event demo_billing_row (demo_cancel ''e'') (claim demo_failed_row (we_now demo_webhook) demo_failed) =
      subscription_canceled 1 (demo_cancel ''e'') (claim demo_failed_row (we_now demo_webhook) demo_failed)"
    by (simp add: apply_event_def Let_def demo_cancel_type demo_billing_row_def)
  obtain d1 where d1: "subscription_canceled 1 (demo_cancel ''e'')
      (claim demo_failed_row (we_now demo_webhook) demo_failed) = Inr d1"
    by (simp add: subscription_canceled_def period_end_def demo_cancel_def)
  have handled: "is_handled_event_type (normalized_event_type (demo_cancel ''e''))"
    by (simp add: demo_cancel_type is_handled_event_type_def)
  have status: "w_status demo_failed_row = ''failed''" by (simp add: demo_failed_row_def)
  have hash: "w_payload_hash demo_failed_row = payload_hash (we_ext demo_webhook) []"
    by (simp add: demo_failed_row_def close_row_def received_row_def demo_webhook_def)
  show ?thesis
    using failed_event_recovers [OF ok found status handled hash customer account order applied [unfolded d1]] id
    by auto
qed

text \<open>C33: the signature of the payment provider binds the timestamp and the body.  A body is accepted under the header
  that was signed for another one exactly when it is UTF-8 and the two have the same MAC under that
  timestamp; a body is accepted under its own header.\<close>

theorem webhook_signature_binds_the_body:
  assumes "hex_ok x"
  shows "verify_paddle_signature x hmac body (sign_payload_for_test x hmac secret original t) secret \<longleftrightarrow>
     is_utf8 body \<and> hmac (str_bytes secret) (str_bytes (show_int (sint t)) @ str_bytes '':'' @ body) =
       hmac (str_bytes secret) (str_bytes (show_int (sint t)) @ str_bytes '':'' @ str_bytes original)"
proof -
  define m where "m = hmac (str_bytes secret) (str_bytes (show_int (sint t)) @ str_bytes '':'' @ str_bytes original)"
  have header: "sign_payload_for_test x hmac secret original t = ''ts='' @ show_int (sint t) @ '';h1='' @ x_hex_encode x m"
    by (simp add: sign_payload_for_test_def Let_def m_def str_bytes_def)
  have "list_all is_lower_hex (x_hex_encode x m)" "x_hex_decode x (x_hex_encode x m) = Some m"
    using assms by (simp_all add: hex_ok_def)
  then show ?thesis
    unfolding signature_accepted header parse_signed_header [OF show_int_graph \<open>list_all is_lower_hex (x_hex_encode x m)\<close>]
    by (auto simp: m_def [symmetric])
qed

theorem webhook_signature_binds_the_body_witness:
  "verify_paddle_signature demo_ext demo_hmac (str_bytes ''{}'')
     (sign_payload_for_test demo_ext demo_hmac ''k'' ''{}'' 5) ''k''"
proof -
  have "is_utf8 (str_bytes ''{}'')" by code_simp
  moreover have "hex_ok demo_ext" using demo_ext_ok by (simp add: ext_ok_def)
  ultimately show ?thesis by (simp add: webhook_signature_binds_the_body)
qed

end
