(* ===== verification/RateLimiter.thy ===== *)
theory RateLimiter
  imports Errors Transition "HOL-Library.AList" "HOL-Library.Multiset"
begin

text \<open>
  \<open>src/state/rate_limiter.rs\<close>, \<open>src/middleware/public_rate_limit.rs\<close>,
  \<open>src/middleware/login_rate_limit.rs\<close> and \<open>src/public_verification_audit.rs\<close>: the fixed-window
  limiter, its key and the two middlewares.  An \<open>Instant\<close> is a number of nanoseconds, the table an
  association list with distinct keys.  The order in which \<open>HashMap\<close> lists its keys is the argument
  \<open>order\<close>, a permutation; the texts of IP addresses (\<open>std::net\<close>) are the arguments \<open>ip_str\<close> and
  \<open>ip_parse\<close>.
\<close>

section \<open>Model\<close>

type_synonym instant = int

record RateLimitConfig =
  max_requests :: u32
  window_secs :: u64
  max_entries :: nat

definition verify_config :: RateLimitConfig where
  "verify_config = \<lparr> max_requests = 100, window_secs = 60, max_entries = 10000 \<rparr>"

definition certificate_config :: RateLimitConfig where
  "certificate_config = \<lparr> max_requests = 20, window_secs = 60, max_entries = 10000 \<rparr>"

definition register_config :: RateLimitConfig where
  "register_config = \<lparr> max_requests = 10, window_secs = 60, max_entries = 10000 \<rparr>"

definition login_config :: RateLimitConfig where
  "login_config = \<lparr> max_requests = 10, window_secs = 60, max_entries = 10000 \<rparr>"

definition second :: int where
  "second = 1000000000"

definition window :: "RateLimitConfig \<Rightarrow> int" where
  "window c = uint (window_secs c) * second"

record RateLimitDecision =
  rl_allowed :: bool
  rl_retry_after_secs :: u64
  rl_remaining :: u32
  rl_reset_unix :: u64

record WindowEntry =
  window_start :: instant
  hits :: u32

type_synonym entries = "(byte list \<times> WindowEntry) list"

text \<open>\<open>Instant::duration_since\<close> and \<open>Duration::saturating_sub\<close> saturate at zero; \<open>checked_sub\<close> is
  \<open>None\<close> below it.\<close>

definition duration_since :: "instant \<Rightarrow> instant \<Rightarrow> int" where
  "duration_since now earlier = max 0 (now - earlier)"

definition as_secs :: "int \<Rightarrow> u64" where
  "as_secs d = word_of_int (d div second)"

definition evict_expired :: "int \<Rightarrow> instant \<Rightarrow> entries \<Rightarrow> entries" where
  "evict_expired w now es = filter (\<lambda>(k, e). duration_since now (window_start e) < w) es"

definition enforce_capacity :: "(byte list list \<Rightarrow> byte list list) \<Rightarrow> nat \<Rightarrow> entries \<Rightarrow> entries" where
  "enforce_capacity order capacity es =
     (if length es \<le> capacity then es
      else let keys = sort_key (\<lambda>k. case map_of es k of None \<Rightarrow> 0 | Some e \<Rightarrow> window_start e) (order (map fst es))
      in foldl (\<lambda>t k. AList.delete k t) es (take (length es - capacity) keys))"

text \<open>The clock of \<open>unix_after\<close>: \<open>SystemTime::now()\<close> in seconds and the \<open>Instant\<close> of its own reading.\<close>

definition unix_after :: "u64 \<times> instant \<Rightarrow> instant \<Rightarrow> int \<Rightarrow> u64" where
  "unix_after clock start w = fst clock + as_secs (max 0 (w - duration_since (snd clock) start))"

definition check_at ::
  "(byte list list \<Rightarrow> byte list list) \<Rightarrow> u64 \<times> instant \<Rightarrow> RateLimitConfig \<Rightarrow> byte list \<Rightarrow> instant \<Rightarrow> entries
    \<Rightarrow> RateLimitDecision \<times> entries" where
  "check_at order clock c key now es =
     (let w = window c;
          es = enforce_capacity order (max_entries c) (evict_expired w now es);
          entry = (case map_of es key of None \<Rightarrow> \<lparr> window_start = now, hits = 0 \<rparr> | Some e \<Rightarrow> e);
          entry = (if duration_since now (window_start entry) \<ge> w
                   then \<lparr> window_start = now, hits = 0 \<rparr> else entry);
          elapsed = duration_since now (window_start entry);
          retry_after = (if elapsed \<le> w then max (as_secs (w - elapsed)) 1 else window_secs c);
          reset_unix = unix_after clock (window_start entry) w
      in if hits entry \<ge> max_requests c
         then (\<lparr> rl_allowed = False, rl_retry_after_secs = retry_after, rl_remaining = 0,
                 rl_reset_unix = reset_unix \<rparr>, AList.update key entry es)
         else let entry = entry\<lparr> hits := hits entry + 1 \<rparr> in
           (\<lparr> rl_allowed = True, rl_retry_after_secs = retry_after,
              rl_remaining = (if hits entry \<le> max_requests c then max_requests c - hits entry else 0),
              rl_reset_unix = reset_unix \<rparr>, AList.update key entry es))"

text \<open>\<open>reset\<close>: the table is cleared.\<close>

definition reset_limiter :: "entries \<Rightarrow> entries" where
  "reset_limiter es = []"

definition rate_limit_scoped_client_key ::
  "ext \<Rightarrow> ('ip \<Rightarrow> string) \<Rightarrow> 'ip \<Rightarrow> string option \<Rightarrow> string option \<Rightarrow> byte list" where
  "rate_limit_scoped_client_key x ip_str ip user_agent scope =
     x_sha256 x ((case scope of None \<Rightarrow> [] | Some s \<Rightarrow> str_bytes s @ str_bytes '':'')
       @ str_bytes (ip_str ip) @ (case user_agent of None \<Rightarrow> [] | Some ua \<Rightarrow> str_bytes ua))"

definition rate_limit_client_key :: "ext \<Rightarrow> ('ip \<Rightarrow> string) \<Rightarrow> 'ip \<Rightarrow> string option \<Rightarrow> byte list" where
  "rate_limit_client_key x ip_str ip user_agent = rate_limit_scoped_client_key x ip_str ip user_agent None"

text \<open>The headers a request carries, as \<open>get(..).and_then(|v| v.to_str().ok())\<close> reads them.\<close>

record headers =
  h_forwarded_for :: "string option"
  h_real_ip :: "string option"
  h_user_agent :: "string option"

definition forwarded_client_ip :: "(string \<Rightarrow> 'ip option) \<Rightarrow> headers \<Rightarrow> 'ip option" where
  "forwarded_client_ip ip_parse h =
     (case Option.bind (h_forwarded_for h) (\<lambda>v. ip_parse (trim (takeWhile (\<lambda>c. c \<noteq> CHR '','') v))) of
        Some ip \<Rightarrow> Some ip
      | None \<Rightarrow> Option.bind (h_real_ip h) (\<lambda>v. ip_parse (trim v)))"

definition client_ip_from_request :: "(string \<Rightarrow> 'ip option) \<Rightarrow> headers \<Rightarrow> 'ip \<Rightarrow> bool \<Rightarrow> 'ip" where
  "client_ip_from_request ip_parse h peer trust_proxy_headers =
     (if trust_proxy_headers then (case forwarded_client_ip ip_parse h of Some ip \<Rightarrow> ip | None \<Rightarrow> peer) else peer)"

datatype PublicVerificationRequestType = PvVerify | PvCertificatePdf
datatype PublicVerificationOutcome = PvSuccess | PvNotFound | PvInvalidRequest | PvRateLimited
datatype PublicVerificationRateLimitAction = PvAllowed | PvBlocked

record PublicVerificationAuditEvent =
  pa_timestamp :: timestamp
  pa_request_type :: PublicVerificationRequestType
  pa_outcome :: PublicVerificationOutcome
  pa_rate_limit_action :: PublicVerificationRateLimitAction
  pa_request_id :: uuid
  pa_client_ip_hash :: "string option"

record PublicRateLimitMiddlewareState =
  ms_config :: RateLimitConfig
  ms_trust_proxy_headers :: bool
  ms_include_user_agent_in_key :: bool
  ms_request_type :: PublicVerificationRequestType
  ms_rate_limit_scope :: "string option"
  ms_rate_limit_message :: string
  ms_audit_enabled :: bool

definition verify_middleware :: "bool \<Rightarrow> bool \<Rightarrow> PublicRateLimitMiddlewareState" where
  "verify_middleware trust ua = \<lparr> ms_config = verify_config, ms_trust_proxy_headers = trust,
     ms_include_user_agent_in_key = ua, ms_request_type = PvVerify, ms_rate_limit_scope = None,
     ms_rate_limit_message = ''Too many requests. Please try again later.'', ms_audit_enabled = True \<rparr>"

definition certificate_middleware :: "bool \<Rightarrow> bool \<Rightarrow> PublicRateLimitMiddlewareState" where
  "certificate_middleware trust ua = \<lparr> ms_config = certificate_config, ms_trust_proxy_headers = trust,
     ms_include_user_agent_in_key = ua, ms_request_type = PvCertificatePdf, ms_rate_limit_scope = None,
     ms_rate_limit_message = ''Too many requests. Please try again later.'', ms_audit_enabled = True \<rparr>"

definition register_middleware :: "bool \<Rightarrow> bool \<Rightarrow> PublicRateLimitMiddlewareState" where
  "register_middleware trust ua = \<lparr> ms_config = register_config, ms_trust_proxy_headers = trust,
     ms_include_user_agent_in_key = ua, ms_request_type = PvVerify, ms_rate_limit_scope = Some ''register'',
     ms_rate_limit_message = ''Too many registration attempts. Please try again later.'',
     ms_audit_enabled = False \<rparr>"

text \<open>A middleware answers a blocked request itself (status, \<open>Retry-After\<close>, body); otherwise it runs
  the handler with the hash of the client's address and adds the three headers (limit, remaining,
  reset).  The audit log gets an entry for a blocked request.\<close>

datatype limit_outcome =
    Blocked nat u64 json
  | Pass "string option" u32 u32 u64

definition public_rate_limit_middleware ::
  "ext \<Rightarrow> ('ip \<Rightarrow> string) \<Rightarrow> (string \<Rightarrow> 'ip option) \<Rightarrow> (byte list list \<Rightarrow> byte list list) \<Rightarrow> u64 \<times> instant
    \<Rightarrow> timestamp \<Rightarrow> uuid \<Rightarrow> 'ip \<Rightarrow> PublicRateLimitMiddlewareState \<Rightarrow> headers \<Rightarrow> instant \<Rightarrow> entries
    \<Rightarrow> limit_outcome \<times> entries \<times> PublicVerificationAuditEvent list" where
  "public_rate_limit_middleware x ip_str ip_parse order clock utc request_id peer st h now es =
     (let user_agent = (if ms_include_user_agent_in_key st then h_user_agent h else None);
          ip = client_ip_from_request ip_parse h peer (ms_trust_proxy_headers st);
          client_key = rate_limit_scoped_client_key x ip_str ip user_agent (ms_rate_limit_scope st);
          client_ip_hash = x_hex_encode x client_key
      in case check_at order clock (ms_config st) client_key now es of (d, es') \<Rightarrow>
        if \<not> rl_allowed d then
          (Blocked 429 (rl_retry_after_secs d) (JObject [(''error'', JObject
             [(''code'', JString ''rate_limited''), (''message'', JString (ms_rate_limit_message st)),
              (''request_id'', JUuid x request_id)])]), es',
           (if ms_audit_enabled st then
              [\<lparr> pa_timestamp = utc, pa_request_type = ms_request_type st, pa_outcome = PvRateLimited,
                 pa_rate_limit_action = PvBlocked, pa_request_id = request_id,
                 pa_client_ip_hash = Some client_ip_hash \<rparr>] else []))
        else (Pass (Some client_ip_hash) (max_requests (ms_config st)) (rl_remaining d) (rl_reset_unix d), es', []))"

definition login_rate_limit_middleware ::
  "ext \<Rightarrow> ('ip \<Rightarrow> string) \<Rightarrow> (string \<Rightarrow> 'ip option) \<Rightarrow> (byte list list \<Rightarrow> byte list list) \<Rightarrow> u64 \<times> instant
    \<Rightarrow> uuid \<Rightarrow> 'ip \<Rightarrow> bool \<Rightarrow> headers \<Rightarrow> instant \<Rightarrow> entries \<Rightarrow> limit_outcome \<times> entries" where
  "login_rate_limit_middleware x ip_str ip_parse order clock request_id peer trust h now es =
     (let ip = client_ip_from_request ip_parse h peer trust;
          client_key = rate_limit_scoped_client_key x ip_str ip None (Some ''login'')
      in case check_at order clock login_config client_key now es of (d, es') \<Rightarrow>
        if \<not> rl_allowed d
        then (Blocked (status_code RateLimited) (rl_retry_after_secs d) (envelope x RateLimited request_id), es')
        else (Pass None (max_requests login_config) (rl_remaining d) (rl_reset_unix d), es'))"

section \<open>Capacity and eviction\<close>

definition permutes :: "(byte list list \<Rightarrow> byte list list) \<Rightarrow> bool" where
  "permutes order \<longleftrightarrow> (\<forall>ks. mset (order ks) = mset ks)"

definition limiter_ok :: "RateLimitConfig \<Rightarrow> entries \<Rightarrow> bool" where
  "limiter_ok c es \<longleftrightarrow> distinct (map fst es) \<and> length es \<le> max_entries c + 1 \<and>
     list_all (\<lambda>(k, e). hits e \<le> max_requests c) es"

lemma delete_many: "foldl (\<lambda>t k. AList.delete k t) es ks = filter (\<lambda>p. fst p \<notin> set ks) es"
  by (induction ks arbitrary: es) (auto simp: AList.delete_eq case_prod_beta intro!: filter_cong)

lemma enforce_capacity_filter: "\<exists>R. enforce_capacity order n es = filter (\<lambda>p. fst p \<notin> R) es"
proof (cases "length es \<le> n")
  case True
  then have "enforce_capacity order n es = filter (\<lambda>p. fst p \<notin> {}) es" by (simp add: enforce_capacity_def)
  then show ?thesis by blast
next
  case False
  then show ?thesis by (simp add: enforce_capacity_def Let_def delete_many) blast
qed

lemma length_enforce_capacity:
  assumes "permutes order" "distinct (map fst es)"
  shows "length (enforce_capacity order n es) = min n (length es)"
proof (cases "length es \<le> n")
  case True
  then show ?thesis by (simp add: enforce_capacity_def)
next
  case False
  define keys where
    "keys = sort_key (\<lambda>k. case map_of es k of None \<Rightarrow> 0 | Some e \<Rightarrow> window_start e) (order (map fst es))"
  define R where "R = take (length es - n) keys"
  have m: "mset keys = mset (map fst es)" using assms(1) by (simp add: keys_def permutes_def)
  then have len: "length keys = length es" using mset_eq_length by fastforce
  have "distinct keys" using m assms(2) mset_eq_imp_distinct_iff by blast
  then have card: "card (set R) = length es - n" using len by (simp add: R_def distinct_card)
  have sub: "set R \<subseteq> fst ` set es"
    using m set_take_subset [of "length es - n" keys] mset_eq_setD [OF m] by (simp add: R_def)
  have d: "distinct (map fst (filter (\<lambda>p. fst p \<notin> set R) es))" using assms(2) by (rule distinct_map_filter)
  have "fst ` set (filter (\<lambda>p. fst p \<notin> set R) es) = fst ` set es - set R" by auto
  then have "card (fst ` set (filter (\<lambda>p. fst p \<notin> set R) es)) = length es - (length es - n)"
    using card sub distinct_card [OF assms(2)] by (simp add: card_Diff_subset)
  moreover have "card (fst ` set (filter (\<lambda>p. fst p \<notin> set R) es)) = length (filter (\<lambda>p. fst p \<notin> set R) es)"
    using distinct_card [OF d] by simp
  ultimately have "length (filter (\<lambda>p. fst p \<notin> set R) es) = n" using False by simp
  moreover have "enforce_capacity order n es = filter (\<lambda>p. fst p \<notin> set R) es"
    using False by (simp add: enforce_capacity_def Let_def delete_many keys_def R_def)
  ultimately show ?thesis using False by simp
qed

lemma kept_after_eviction:
  assumes "distinct (map fst es)"
  shows "distinct (map fst (evict_expired w now es))"
    "distinct (map fst (enforce_capacity order n es))"
    "set (evict_expired w now es) \<subseteq> set es" "set (enforce_capacity order n es) \<subseteq> set es"
    "length (evict_expired w now es) \<le> length es"
  using assms enforce_capacity_filter [of order n es]
  by (auto simp: evict_expired_def distinct_map_filter)

lemma enforce_capacity_id: "length es \<le> n \<Longrightarrow> enforce_capacity order n es = es"
  by (simp add: enforce_capacity_def)

lemma update_keys_distinct: "distinct (map fst es) \<Longrightarrow> distinct (map fst (AList.update k v es))"
  by (rule distinct_update)

lemma length_update_alist: "length (AList.update k v es) \<le> length es + 1"
  by (induction es) auto

lemma set_update_alist: "set (AList.update k v es) \<subseteq> insert (k, v) (set es)"
  by (induction es) auto

section \<open>Invariant\<close>

definition limiter_step :: "RateLimitConfig \<Rightarrow> entries \<Rightarrow> entries \<Rightarrow> bool" where
  "limiter_step c es es' \<longleftrightarrow> es' = reset_limiter es \<or>
     (\<exists>order clock key now. permutes order \<and> es' = snd (check_at order clock c key now es))"

text \<open>The table and the entry \<open>check_at\<close> decides on.\<close>

definition live_table :: "(byte list list \<Rightarrow> byte list list) \<Rightarrow> RateLimitConfig \<Rightarrow> instant \<Rightarrow> entries \<Rightarrow> entries" where
  "live_table order c now es = enforce_capacity order (max_entries c) (evict_expired (window c) now es)"

definition slot :: "(byte list list \<Rightarrow> byte list list) \<Rightarrow> RateLimitConfig \<Rightarrow> byte list \<Rightarrow> instant \<Rightarrow> entries \<Rightarrow> WindowEntry" where
  "slot order c key now es =
     (let e = (case map_of (live_table order c now es) key of
          None \<Rightarrow> \<lparr> window_start = now, hits = 0 \<rparr> | Some e \<Rightarrow> e)
      in if duration_since now (window_start e) \<ge> window c then \<lparr> window_start = now, hits = 0 \<rparr> else e)"

definition retry_after :: "RateLimitConfig \<Rightarrow> instant \<Rightarrow> WindowEntry \<Rightarrow> u64" where
  "retry_after c now e = (let elapsed = duration_since now (window_start e) in
     if elapsed \<le> window c then max (as_secs (window c - elapsed)) 1 else window_secs c)"

lemma check_at_slot:
  "check_at order clock c key now es =
     (let e = slot order c key now es; f = e\<lparr> hits := hits e + 1 \<rparr>;
          u = live_table order c now es; reset = unix_after clock (window_start e) (window c) in
      if hits e \<ge> max_requests c
      then (\<lparr> rl_allowed = False, rl_retry_after_secs = retry_after c now e, rl_remaining = 0,
              rl_reset_unix = reset \<rparr>, AList.update key e u)
      else (\<lparr> rl_allowed = True, rl_retry_after_secs = retry_after c now e,
              rl_remaining = (if hits f \<le> max_requests c then max_requests c - hits f else 0),
              rl_reset_unix = reset \<rparr>, AList.update key f u))"
  unfolding check_at_def slot_def live_table_def retry_after_def Let_def by (rule HOL.refl)

lemma slot_cases: "slot order c key now es = \<lparr> window_start = now, hits = 0 \<rparr> \<or>
    map_of (live_table order c now es) key = Some (slot order c key now es)"
  by (simp add: slot_def Let_def split: option.split)

lemma check_at_state:
  "\<exists>e. snd (check_at order clock c key now es) = AList.update key e (live_table order c now es) \<and>
   (e \<in> ran (map_of (live_table order c now es)) \<or> hits e \<le> max_requests c)"
proof (cases "hits (slot order c key now es) \<ge> max_requests c")
  case True
  moreover have "slot order c key now es \<in> ran (map_of (live_table order c now es)) \<or> hits (slot order c key now es) \<le> max_requests c"
    using slot_cases [of order c key now es]
  proof (elim disjE)
    assume "slot order c key now es = \<lparr> window_start = now, hits = 0 \<rparr>"
    then show ?thesis by simp
  next
    assume "map_of (live_table order c now es) key = Some (slot order c key now es)"
    then show ?thesis by (blast intro: ranI)
  qed
  ultimately show ?thesis
    by (intro exI [of _ "slot order c key now es"] conjI) (simp add: check_at_slot Let_def, assumption)
next
  case False
  then have "hits (slot order c key now es) + 1 \<le> max_requests c" using inc_le by (simp add: not_le)
  with False show ?thesis
    by (intro exI [of _ "slot order c key now es\<lparr> hits := hits (slot order c key now es) + 1 \<rparr>"])
      (simp add: check_at_slot Let_def)
qed

lemma limiter_ok_step:
  assumes "limiter_ok c es" "limiter_step c es es'"
  shows "limiter_ok c es'"
  using assms(2) unfolding limiter_step_def
proof (elim disjE exE conjE)
  assume "es' = reset_limiter es"
  then show ?thesis by (simp add: reset_limiter_def limiter_ok_def)
next
  fix order clock key now
  assume p: "permutes order" and es': "es' = snd (check_at order clock c key now es)"
  define u where "u = live_table order c now es"
  have d: "distinct (map fst es)" and h: "\<And>k e. (k, e) \<in> set es \<Longrightarrow> hits e \<le> max_requests c"
    using assms(1) by (auto simp: limiter_ok_def list_all_iff)
  note evicted = kept_after_eviction [OF d] and capped = kept_after_eviction [OF kept_after_eviction(1) [OF d]]
  have du: "distinct (map fst u)" unfolding u_def live_table_def by (rule capped(2))
  have su: "set u \<subseteq> set es" unfolding u_def live_table_def by (rule order_trans [OF capped(4) evicted(3)])
  have lu: "length u \<le> max_entries c"
    using length_enforce_capacity [OF p kept_after_eviction(1) [OF d]] by (simp add: u_def live_table_def)
  obtain e where e: "es' = AList.update key e u" "e \<in> ran (map_of u) \<or> hits e \<le> max_requests c"
    using check_at_state [of order clock c key now es] es' unfolding u_def by blast
  have "hits e \<le> max_requests c"
    using e(2) h su by (auto simp: ran_def dest!: map_of_SomeD)
  then have "hits v \<le> max_requests c" if "(k, v) \<in> set es'" for k v
    using that e(1) h su set_update_alist [of key e u] by blast
  moreover have "length es' \<le> max_entries c + 1"
    using e(1) length_update_alist [of key e u] lu by simp
  ultimately show ?thesis
    using e(1) update_keys_distinct [OF du] by (auto simp: limiter_ok_def list_all_iff)
qed

interpretation limiter: kept "limiter_step c" "limiter_ok c" for c
  by unfold_locales (rule limiter_ok_step)

section \<open>The quota of a window\<close>

lemma map_of_evict:
  "distinct (map fst es) \<Longrightarrow> map_of (evict_expired w now es) k =
     (case map_of es k of None \<Rightarrow> None | Some e \<Rightarrow> if duration_since now (window_start e) < w then Some e else None)"
proof (induction es)
  case (Cons p es)
  have "map_of es (fst p) = None" using Cons.prems by (simp add: map_of_eq_None_iff)
  then show ?case using Cons by (auto simp: evict_expired_def split: option.splits)
qed (simp add: evict_expired_def)

lemma live_table_roomy:
  assumes "length es \<le> max_entries c"
  shows "live_table order c now es = evict_expired (window c) now es"
proof -
  have "length (evict_expired (window c) now es) \<le> length es" by (simp add: evict_expired_def)
  with assms show ?thesis by (simp add: live_table_def enforce_capacity_id)
qed

lemma slot_roomy:
  assumes "distinct (map fst es)" "length es \<le> max_entries c"
  shows "slot order c key now es = (case map_of es key of None \<Rightarrow> \<lparr> window_start = now, hits = 0 \<rparr>
     | Some e \<Rightarrow> if duration_since now (window_start e) < window c then e else \<lparr> window_start = now, hits = 0 \<rparr>)"
  by (simp add: slot_def Let_def live_table_roomy [OF assms(2)] map_of_evict [OF assms(1)] not_le
      split: option.split)

lemma check_at_lookup:
  assumes "distinct (map fst es)" "length es \<le> max_entries c"
  shows "map_of (snd (check_at order clock c key now es)) k =
     (if k = key then Some (let e = slot order c key now es in
          if hits e \<ge> max_requests c then e else e\<lparr> hits := hits e + 1 \<rparr>)
      else map_of (evict_expired (window c) now es) k)"
  by (simp add: check_at_slot Let_def live_table_roomy [OF assms(2)] update_conv)

lemma check_at_keys:
  assumes "distinct (map fst es)"
  shows "distinct (map fst (snd (check_at order clock c key now es)))"
    "fst ` set (snd (check_at order clock c key now es)) \<subseteq> insert key (fst ` set es)"
proof -
  note evicted = kept_after_eviction [OF assms] and capped = kept_after_eviction [OF kept_after_eviction(1) [OF assms]]
  obtain e where e: "snd (check_at order clock c key now es) = AList.update key e (live_table order c now es)"
    using check_at_state by blast
  show "distinct (map fst (snd (check_at order clock c key now es)))"
    unfolding e live_table_def by (rule distinct_update) (rule capped(2))
  have "fst ` set (live_table order c now es) \<subseteq> fst ` set es"
    unfolding live_table_def by (rule image_mono) (rule order_trans [OF capped(4) evicted(3)])
  then show "fst ` set (snd (check_at order clock c key now es)) \<subseteq> insert key (fst ` set es)"
    unfolding e using set_update_alist [of key e "live_table order c now es"] by force
qed

lemma check_at_allowed:
  "rl_allowed (fst (check_at order clock c key now es)) \<longleftrightarrow> hits (slot order c key now es) < max_requests c"
  by (simp add: check_at_slot Let_def linorder_not_le [symmetric])

text \<open>A sequence of requests to one limiter: the key, the time and the clock of each; the answers are
  listed with their keys.\<close>

fun serve ::
  "(byte list list \<Rightarrow> byte list list) \<Rightarrow> RateLimitConfig \<Rightarrow> (byte list \<times> instant \<times> u64 \<times> instant) list
    \<Rightarrow> entries \<Rightarrow> (byte list \<times> bool) list" where
  "serve order c [] es = []"
| "serve order c ((key, now, clock) # reqs) es = (case check_at order clock c key now es of
     (d, es') \<Rightarrow> (key, rl_allowed d) # serve order c reqs es')"

abbreviation answers_for :: "byte list \<Rightarrow> (byte list \<times> bool) list \<Rightarrow> bool list" where
  "answers_for k as \<equiv> map snd (filter (\<lambda>p. fst p = k) as)"

text \<open>While the window of an entry lasts and the table has room, the entry's key is admitted until the
  entry's count reaches the limit.\<close>

lemma distinct_length: "distinct (map fst es) \<Longrightarrow> length es = card (fst ` set es)"
  using distinct_card [of "map fst es"] by simp

lemma unat_Suc_less: "(n :: 'a::len word) < m \<Longrightarrow> unat (n + 1) = Suc (unat n)"
proof -
  assume "n < m"
  then have "Suc (unat n) \<le> unat m" by (simp add: word_less_nat_alt Suc_leI)
  also have "\<dots> < 2 ^ LENGTH('a)" by (rule unsigned_less)
  finally show "unat (n + 1) = Suc (unat n)" by (simp add: unat_word_ariths)
qed

lemma serve_window:
  assumes "map_of es k = Some \<lparr> window_start = t0, hits = n \<rparr>" "n \<le> max_requests c"
    and "list_all (\<lambda>(key, now, clock). now - t0 < window c) reqs" "0 < window c"
    and "distinct (map fst es)" "card (fst ` set es \<union> fst ` set reqs) \<le> max_entries c"
  shows "answers_for k (serve order c reqs es) =
     map (\<lambda>i. unat n + i < unat (max_requests c)) [0..<length (filter (\<lambda>r. fst r = k) reqs)]"
  using assms
proof (induction reqs arbitrary: es n)
  case (Cons r reqs)
  obtain key now clock where r: "r = (key, now, clock)" by (cases r)
  define es' where "es' = snd (check_at order clock c key now es)"
  have room: "length es \<le> max_entries c"
    unfolding distinct_length [OF Cons.prems(5)]
    by (rule order_trans [OF card_mono Cons.prems(6)]) auto
  have live: "duration_since now t0 < window c" using Cons.prems(3,4) by (simp add: r duration_since_def)
  note lookup = check_at_lookup [OF Cons.prems(5) room, of order clock key now, folded es'_def]
  have keys: "distinct (map fst es')" "fst ` set es' \<subseteq> insert key (fst ` set es)"
    unfolding es'_def by (rule check_at_keys [OF Cons.prems(5)])+
  have "fst ` set es' \<union> fst ` set reqs \<subseteq> fst ` set es \<union> fst ` set (r # reqs)" using keys(2) r by auto
  then have "card (fst ` set es' \<union> fst ` set reqs) \<le> card (fst ` set es \<union> fst ` set (r # reqs))"
    by (intro card_mono) simp_all
  then have cap: "card (fst ` set es' \<union> fst ` set reqs) \<le> max_entries c" using Cons.prems(6) by linarith
  have later: "list_all (\<lambda>(key, now, clock). now - t0 < window c) reqs" using Cons.prems(3) by simp
  note IH = Cons.IH [OF _ _ later Cons.prems(4) keys(1) cap]
  have serve: "serve order c (r # reqs) es =
      (key, rl_allowed (fst (check_at order clock c key now es))) # serve order c reqs es'"
    by (simp add: r es'_def case_prod_beta)
  show ?case
  proof (cases "key = k")
    case False
    have "map_of es' k = Some \<lparr> window_start = t0, hits = n \<rparr>"
      using False live Cons.prems(1) by (simp add: lookup map_of_evict [OF Cons.prems(5)])
    from IH [OF this Cons.prems(2)] False show ?thesis unfolding serve by (simp add: r)
  next
    case True
    have slot: "slot order c key now es = \<lparr> window_start = t0, hits = n \<rparr>"
      using True live Cons.prems(1) by (simp add: slot_roomy [OF Cons.prems(5) room])
    then have entry: "map_of es' k = Some (if n \<ge> max_requests c then \<lparr> window_start = t0, hits = n \<rparr>
        else \<lparr> window_start = t0, hits = n + 1 \<rparr>)"
      unfolding lookup Let_def by (simp add: True)
    have head: "rl_allowed (fst (check_at order clock c key now es)) \<longleftrightarrow> unat n < unat (max_requests c)"
      by (simp add: check_at_allowed slot word_less_nat_alt)
    have step: "map (\<lambda>i. unat n + i < m) [0..<Suc l] = (unat n < m) # map (\<lambda>i. Suc (unat n + i) < m) [0..<l]" for m l
      by (simp add: upt_conv_Cons map_Suc_upt [symmetric] del: upt_Suc)
    show ?thesis
    proof (cases "n < max_requests c")
      case less: True
      have "map_of es' k = Some \<lparr> window_start = t0, hits = n + 1 \<rparr>"
        using less by (simp add: entry not_le)
      moreover have "n + 1 \<le> max_requests c" using less by (rule inc_le)
      moreover have "unat (n + 1) = Suc (unat n)" using less by (rule unat_Suc_less)
      ultimately show ?thesis unfolding serve using IH True by (simp add: r head [unfolded True] step del: upt_Suc)
    next
      case False
      then have full: "n = max_requests c" using Cons.prems(2) by simp
      then have "map_of es' k = Some \<lparr> window_start = t0, hits = n \<rparr>" by (simp add: entry)
      from IH [OF this Cons.prems(2)] show ?thesis unfolding serve using True full
        by (simp add: r head [unfolded True] map_replicate_const)
    qed
  qed
qed simp

lemma window_quota:
  assumes "distinct (map fst es)" "\<And>e. map_of es k = Some e \<Longrightarrow> window c \<le> duration_since t0 (window_start e)"
    and "list_all (\<lambda>(key, now, clock). now - t0 < window c) reqs" "0 < window c"
    and "card (fst ` set es \<union> insert k (fst ` set reqs)) \<le> max_entries c"
  shows "answers_for k (serve order c ((k, t0, clock) # reqs) es) =
     map (\<lambda>i. i < unat (max_requests c)) [0..<Suc (length (filter (\<lambda>r. fst r = k) reqs))]"
proof -
  define es' where "es' = snd (check_at order clock c k t0 es)"
  have room: "length es \<le> max_entries c"
    unfolding distinct_length [OF assms(1)] by (rule order_trans [OF card_mono assms(5)]) auto
  have slot: "slot order c k t0 es = \<lparr> window_start = t0, hits = 0 \<rparr>"
    using assms(2) by (auto simp: slot_roomy [OF assms(1) room] not_less split: option.split)
  have keys: "distinct (map fst es')" "fst ` set es' \<subseteq> insert k (fst ` set es)"
    unfolding es'_def by (rule check_at_keys [OF assms(1)])+
  then have cap: "card (fst ` set es' \<union> fst ` set reqs) \<le> max_entries c"
    by (intro order_trans [OF card_mono assms(5)]) auto
  have head: "rl_allowed (fst (check_at order clock c k t0 es)) \<longleftrightarrow> 0 < unat (max_requests c)"
    by (simp add: check_at_allowed slot word_less_nat_alt)
  define n where "n = (if max_requests c = 0 then 0 else 1 :: u32)"
  have "map_of es' k = Some \<lparr> window_start = t0, hits = n \<rparr>"
    unfolding es'_def check_at_lookup [OF assms(1) room] by (simp add: slot n_def Let_def)
  moreover have "n \<le> max_requests c" by (cases "max_requests c = 0") (simp_all add: n_def word_le_nat_alt unat_gt_0 Suc_leI)
  ultimately have "answers_for k (serve order c reqs es') =
      map (\<lambda>i. unat n + i < unat (max_requests c)) [0..<length (filter (\<lambda>r. fst r = k) reqs)]"
    by (rule serve_window [OF _ _ assms(3,4) keys(1) cap])
  moreover have "(unat n + i < unat (max_requests c)) = (Suc i < unat (max_requests c))" for i
    by (cases "max_requests c = 0") (simp_all add: n_def)
  moreover have "map (\<lambda>i. i < m) [0..<Suc l] = (0 < m) # map (\<lambda>i. Suc i < m) [0..<l]" for m l :: nat
    by (simp add: upt_conv_Cons map_Suc_upt [symmetric] del: upt_Suc)
  ultimately show ?thesis by (simp add: case_prod_beta es'_def [symmetric] head del: upt_Suc)
qed

text \<open>A refused client is admitted again exactly when the rest of its window has passed; the number of
  seconds it is told is this rest rounded down, but at least one.\<close>

lemma uint_as_secs: "0 \<le> d \<Longrightarrow> d \<le> window c \<Longrightarrow> uint (as_secs d) = d div second"
proof -
  assume d: "0 \<le> d" "d \<le> window c"
  have "d div second \<le> uint (window_secs c)"
    using zdiv_mono1 [OF d(2), of second] by (simp add: window_def second_def)
  moreover have "uint (window_secs c) < 2 ^ 64" using uint_lt2p [of "window_secs c"] by simp
  moreover have "0 \<le> d div second" using d(1) by (simp add: second_def pos_imp_zdiv_nonneg_iff)
  ultimately show ?thesis by (simp add: as_secs_def uint_word_of_int)
qed

lemma denied_until:
  assumes "distinct (map fst es)" "length es \<le> max_entries c" "0 < max_requests c"
    and "\<And>e. map_of es key = Some e \<Longrightarrow> window_start e \<le> now"
    and "check_at order clock c key now es = (d, es')" "\<not> rl_allowed d"
  shows "\<exists>rest. 0 < rest \<and> rest \<le> window c \<and> uint (rl_retry_after_secs d) = max 1 (rest div second) \<and>
     (\<forall>t\<ge>now. rl_allowed (fst (check_at order clock' c key t es')) \<longleftrightarrow> rest \<le> t - now)"
proof -
  define e where "e = slot order c key now es"
  have full: "max_requests c \<le> hits e"
    using assms(5,6) check_at_allowed [of order clock c key now es] by (simp add: e_def not_less)
  with assms(3) have "0 < hits e" by simp
  then have "map_of es key = Some e \<and> duration_since now (window_start e) < window c"
    unfolding e_def slot_roomy [OF assms(1,2)] by (auto split: option.splits if_splits)
  then have e: "map_of es key = Some e" "duration_since now (window_start e) < window c" by blast+
  then have start: "window_start e \<le> now" using assms(4) by blast
  define rest where "rest = window c - duration_since now (window_start e)"
  have rest: "0 < rest" "rest \<le> window c" using e(2) by (simp_all add: rest_def duration_since_def)
  have es': "es' = AList.update key e (live_table order c now es)" and
    retry: "rl_retry_after_secs d = retry_after c now e"
    using assms(5) full by (auto simp: check_at_slot e_def Let_def)
  have "uint (rl_retry_after_secs d) = max 1 (rest div second)"
    using e(2) rest uint_as_secs [of rest c] unfolding retry
    by (simp add: retry_after_def Let_def rest_def [symmetric] max_def word_le_def)
  moreover have "rl_allowed (fst (check_at order clock' c key t es')) \<longleftrightarrow> rest \<le> t - now" if "now \<le> t" for t
  proof -
    have live: "map_of (live_table order c now es) key = Some e"
      using e by (simp add: live_table_roomy [OF assms(2)] map_of_evict [OF assms(1)])
    have d': "distinct (map fst es')" using check_at_keys(1) [OF assms(1)] assms(5) by (metis snd_conv)
    have "fst ` set es' \<subseteq> insert key (fst ` set es)" using check_at_keys(2) [OF assms(1)] assms(5) by (metis snd_conv)
    then have "fst ` set es' \<subseteq> fst ` set es" using map_of_SomeD [OF e(1)] by (metis fst_conv image_eqI insert_absorb)
    then have "card (fst ` set es') \<le> card (fst ` set es)" by (intro card_mono) simp_all
    then have l': "length es' \<le> max_entries c"
      using assms(2) distinct_length [OF d'] distinct_length [OF assms(1)] by simp
    have "map_of es' key = Some e" by (simp add: es' update_conv)
    then have "slot order c key t es' = (if duration_since t (window_start e) < window c then e
        else \<lparr> window_start = t, hits = 0 \<rparr>)"
      by (simp add: slot_roomy [OF d' l'])
    moreover have "duration_since t (window_start e) < window c \<longleftrightarrow> \<not> rest \<le> t - now"
      using start that by (auto simp: rest_def duration_since_def)
    ultimately show ?thesis using full assms(3) by (simp add: check_at_allowed not_less)
  qed
  ultimately show ?thesis using rest by blast
qed

end
