(* ===== verification/AccessPromises.thy ===== *)
theory AccessPromises
  imports Demo RateLimiter Accounts
begin

text \<open>
  The properties of the way in: the request limits, accounts, sessions and API keys.
\<close>

section \<open>Concrete cases\<close>

definition demo_window :: WindowEntry where
  "demo_window = \<lparr> window_start = 0, hits = 10 \<rparr>"

definition demo_id :: "byte list list \<Rightarrow> byte list list" where
  "demo_id ks = ks"

definition demo_hash_password :: "string \<Rightarrow> string option" where
  "demo_hash_password p = Some (CHR ''#'' # p)"

definition demo_verify_password :: "string \<Rightarrow> string \<Rightarrow> bool option" where
  "demo_verify_password p h = Some (h = CHR ''#'' # p)"

definition demo_web :: web_env where
  "demo_web = \<lparr> we_lower = to_ascii_lowercase, we_hash = demo_hash_password, we_verify = demo_verify_password \<rparr>"

definition demo_empty :: db where
  "demo_empty = demo_db\<lparr> accounts := [] \<rparr>"

definition demo_registered :: db where
  "demo_registered = snd (web_register_handler demo_ext demo_web 1 7 8 (replicate 16 3) ''B@x.io'' (replicate 12 (CHR ''p'')) demo_empty)"

definition demo_keys :: db where
  "demo_keys = demo_db\<lparr> api_keys := [api_key_row_of 1 31 1 (generate_api_key demo_ext (replicate 16 1)) ''old''] \<rparr>"

definition demo_new_key :: GeneratedApiKey where
  "demo_new_key = generate_api_key demo_ext (replicate 16 2)"

definition demo_two_keys :: db where
  "demo_two_keys = demo_keys\<lparr> api_keys := api_keys demo_keys @ [api_key_row_of 2 32 1 demo_new_key ''new''] \<rparr>"

lemma demo_web_ok: "web_env_ok demo_web"
  by (simp add: web_env_ok_def demo_web_def demo_hash_password_def demo_verify_password_def)

lemma demo_registers:
  "\<exists>body. web_register_handler demo_ext demo_web 1 7 8 (replicate 16 3) ''B@x.io'' (replicate 12 (CHR ''p'')) demo_empty =
     (Inr body, demo_registered)"
proof -
  have "is_valid_email ''B@x.io''" "validate_password (replicate 12 (CHR ''p''))" by code_simp+
  then show ?thesis
    by (simp add: demo_registered_def web_register_handler_def demo_web_def demo_hash_password_def register_web_account_def
        register_tx_def email_exists_def demo_empty_def demo_db_def seed_plans_def insert_account_def new_account_def
        insert_api_key_def res_iff Let_def)
qed

lemma demo_registered_tables: "sessions demo_registered = [] \<and> map a_account_id (accounts demo_registered) = [7]"
proof -
  obtain body where reg: "web_register_handler demo_ext demo_web 1 7 8 (replicate 16 3) ''B@x.io''
      (replicate 12 (CHR ''p'')) demo_empty = (Inr body, demo_registered)"
    using demo_registers by blast
  obtain h r where "register_tx demo_ext 1 7 8 (replicate 16 3) (we_lower demo_web (trim ''B@x.io'')) (Some h) demo_empty
      = Inr (r, demo_registered)"
    by (rule web_register_Inr [OF reg])
  then obtain p :: plan_row where eq: "demo_registered = demo_empty\<lparr> accounts := accounts demo_empty @
        [new_account 1 7 (we_lower demo_web (trim ''B@x.io'')) (p_plan_id p) (Some h)],
      api_keys := api_keys demo_empty @ [api_key_row_of 1 8 7 (generate_api_key demo_ext (replicate 16 3)) ''default''] \<rparr>"
    by (rule register_tx_Inr) (rule that)
  show ?thesis unfolding eq by (simp add: demo_empty_def demo_db_def new_account_def)
qed

lemma demo_keys_ok: "credentials_ok demo_keys"
  by (simp add: credentials_ok_def demo_keys_def demo_db_def)

lemma demo_creates_key:
  "create_api_key demo_ext 2 32 (replicate 16 2) 1 ''new'' demo_keys =
     (Inr (demo_new_key, api_key_row_of 2 32 1 demo_new_key ''new''), demo_two_keys)"
proof -
  have "g_key_hash (generate_api_key demo_ext (replicate 16 2)) \<noteq> g_key_hash (generate_api_key demo_ext (replicate 16 1))"
    by code_simp
  then show ?thesis
    by (simp add: create_api_key_def insert_api_key_def demo_keys_def demo_two_keys_def demo_new_key_def demo_db_def
        demo_account_def Let_def fetch_one_def)
qed

lemma demo_revokes_key: "\<exists>d2. revoke_api_key 3 1 32 demo_two_keys = (Inr (), d2)"
  by (simp add: revoke_api_key_def revoke_check_def revoke_update_def active_key_def demo_two_keys_def demo_keys_def
      Let_def)

section \<open>Properties\<close>

text \<open>C34: the quota of a window.  When a key's window starts and the table has room for the keys of the requests,
  the key's requests within the window are admitted until the limit is reached and refused after it, however
  many requests of other keys come between them.\<close>

theorem window_admits_the_quota:
  assumes "distinct (map fst es)" "\<And>e. map_of es k = Some e \<Longrightarrow> window c \<le> duration_since t0 (window_start e)"
    and "list_all (\<lambda>(key, now, clock). now - t0 < window c) reqs" "0 < window c"
    and "card (fst ` set es \<union> insert k (fst ` set reqs)) \<le> max_entries c"
  shows "answers_for k (serve order c ((k, t0, clock) # reqs) es) =
     map (\<lambda>i. i < unat (max_requests c)) [0..<Suc (length (filter (\<lambda>r. fst r = k) reqs))]"
  by (rule window_quota [OF assms])

theorem window_admits_the_quota_witness:
  "answers_for [1] (serve demo_id register_config (replicate 12 ([1], 5, (0, 0))) []) = replicate 10 True @ [False, False]"
proof -
  have "answers_for [1] (serve demo_id register_config (([1], 5, (0, 0)) # replicate 11 ([1], 5, (0, 0))) []) =
      map (\<lambda>i. i < unat (max_requests register_config))
        [0..<Suc (length (filter (\<lambda>r. fst r = [1 :: byte]) (replicate 11 ([1], 5 :: instant, (0 :: u64, 0 :: instant)))))]"
    by (rule window_admits_the_quota) (simp_all add: register_config_def window_def second_def list_all_iff)
  moreover have "replicate 12 r = r # replicate 11 r" for r :: "byte list \<times> instant \<times> u64 \<times> instant"
    by (simp add: numeral_eq_Suc)
  moreover have "map (\<lambda>i. i < (10 :: nat)) [0..<12] = replicate 10 True @ [False, False]" by code_simp
  ultimately show ?thesis by (simp add: register_config_def del: upt_Suc)
qed

text \<open>A refused request is refused until its window ends, and not after.  There is a time that is left,
  positive and at most a window; the answer's Retry-After is its whole seconds, and at least one; a later
  request is admitted exactly when that time has passed.\<close>

theorem refused_until_the_window_ends:
  assumes "distinct (map fst es)" "length es \<le> max_entries c" "0 < max_requests c"
    and "\<And>e. map_of es key = Some e \<Longrightarrow> window_start e \<le> now"
    and "check_at order clock c key now es = (d, es')" "\<not> rl_allowed d"
  shows "\<exists>rest. 0 < rest \<and> rest \<le> window c \<and> uint (rl_retry_after_secs d) = max 1 (rest div second) \<and>
     (\<forall>t\<ge>now. rl_allowed (fst (check_at order clock' c key t es')) \<longleftrightarrow> rest \<le> t - now)"
  by (rule denied_until [OF assms])

theorem refused_until_the_window_ends_witness:
  "\<exists>rest>0. \<forall>t\<ge>5. rl_allowed (fst (check_at demo_id (0, 0) login_config [1] t
      (snd (check_at demo_id (0, 0) login_config [1] 5 [([1], demo_window)])))) \<longleftrightarrow> rest \<le> t - 5"
proof -
  let ?r = "check_at demo_id (0, 0) login_config [1] 5 [([1], demo_window)]"
  have "\<not> rl_allowed (fst ?r)"
    by (simp add: check_at_def Let_def evict_expired_def enforce_capacity_def login_config_def demo_window_def
        window_def second_def duration_since_def)
  then show ?thesis
    using refused_until_the_window_ends [of "[([1], demo_window)]" login_config "[1]" 5 demo_id "(0, 0)" "fst ?r" "snd ?r" "(0, 0)"]
    by (auto simp: login_config_def demo_window_def)
qed

text \<open>C36: who registers can log in, and stays logged in for thirty days.  A login with the registered password and
  an address that normalises to the registered one sets a session cookie, and a request that carries the
  cookie runs as the new account until thirty days after the login, and is refused later.\<close>

theorem registered_user_logs_in:
  assumes "accounts_ok d" "web_env_ok v" "web_register_handler x v now acc key_id secret email password d = (Inr body, d')"
    and "is_valid_email email'" "we_lower v (trim email') = we_lower v (trim email)"
    and "create_session x now' clock fresh random acc d' = (Inr token, d2)" "hex_ok x" "random \<noteq> []"
  shows "(\<exists>answer. login_handler x v now' clock fresh random dev_mode email' password d' =
      (Inr (session_cookie_value token (\<not> dev_mode), answer), d2)) \<and>
     fst (session_auth_middleware x t (Some (session_cookie_name @ ''='' @ token)) d2) =
      (if t \<le> clock + 30 * day then Inr acc else Inl Unauthorized)"
  using registered_account_logs_in [OF assms(1-6)] session_request [OF assms(7,8,6)] by (rule conjI)

theorem registered_user_logs_in_witness:
  "\<exists>token d2. fst (session_auth_middleware demo_ext 5 (Some (session_cookie_name @ ''='' @ token)) d2) = Inr 7 \<and>
     snd (login_handler demo_ext demo_web 2 2 9 [1] False ''b@x.io'' (replicate 12 (CHR ''p'')) demo_registered) = d2"
proof -
  obtain body where reg: "web_register_handler demo_ext demo_web 1 7 8 (replicate 16 3) ''B@x.io''
      (replicate 12 (CHR ''p'')) demo_empty = (Inr body, demo_registered)"
    using demo_registers by blast
  have ok: "accounts_ok demo_empty" by (simp add: accounts_ok_def demo_empty_def)
  have lower: "we_lower demo_web = to_ascii_lowercase" by (simp add: demo_web_def)
  have "trim ''b@x.io'' = ''b@x.io''" "trim ''B@x.io'' = ''B@x.io''" by (simp_all add: trim_graph is_graph_def)
  then have mail: "we_lower demo_web (trim ''b@x.io'') = we_lower demo_web (trim ''B@x.io'')"
    by (simp add: lower to_ascii_lowercase_def ascii_lower_def char_of_def bit_0)
  have valid: "is_valid_email ''b@x.io''" by code_simp
  have tables: "sessions demo_registered = []" "map a_account_id (accounts demo_registered) = [7]"
    using demo_registered_tables by blast+
  then obtain token d2 where s: "create_session demo_ext 2 2 9 [1] 7 demo_registered = (Inr token, d2)"
    by (auto simp: create_session_def Let_def delete_sessions_for_account_def cleanup_expired_sessions_def
        simp flip: set_map)
  note in_session = registered_user_logs_in [OF ok demo_web_ok reg valid mail s demo_hex_ok, simplified]
  have "fst (session_auth_middleware demo_ext 5 (Some (session_cookie_name @ ''='' @ token)) d2) = Inr 7"
    using in_session [THEN conjunct2, of 5] by (simp add: day_def)
  then show ?thesis using in_session [THEN conjunct1, of False] by (metis snd_conv)
qed

text \<open>C37: the life of an API key.  The key a request creates resolves to its account; once it is revoked it
  resolves to nobody.\<close>

theorem api_key_lifecycle:
  assumes "credentials_ok d" "hex_ok x" "length b = 16"
    and "create_api_key x now fresh b acc label d = (Inr (g, r), d')"
  shows "resolve_authed_account x t None (Some (g_full_key g)) d' =
      (Inr \<lparr> auth_account_id = acc, auth_key_hash = g_key_hash g \<rparr>, d') \<and>
     (\<forall>u d2. revoke_api_key t' acc fresh d' = (Inr u, d2) \<longrightarrow>
       fst (resolve_authed_account x t None (Some (g_full_key g)) d2) = Inl InvalidCredential)"
proof (intro conjI allI impI)
  show "resolve_authed_account x t None (Some (g_full_key g)) d' =
      (Inr \<lparr> auth_account_id = acc, auth_key_hash = g_key_hash g \<rparr>, d')"
    by (rule created_key_resolves [OF assms])
  fix u d2
  assume "revoke_api_key t' acc fresh d' = (Inr u, d2)"
  from revoke_api_key_Inr(1) [OF this] have revoked: "revoke_update t' acc fresh d' = (Inr u, d2)" .
  note c = create_api_key_Inr [OF assms(1,4)]
  have "r \<in> set (api_keys d')" using c(3) by (simp add: res_iff c(2))
  moreover have "ak_api_key_id r = fresh" "ak_key_hash r = hash_api_key_for_lookup x (g_full_key g)"
    using generated_lookup [OF assms(2,3)] c(1) by (simp_all add: c(2))
  ultimately show "fst (resolve_authed_account x t None (Some (g_full_key g)) d2) = Inl InvalidCredential"
    using revoked_key_resolves_to_nobody [OF c(4) revoked] by simp
qed

theorem api_key_lifecycle_witness:
  "fst (resolve_authed_account demo_ext 4 None (Some (g_full_key demo_new_key)) demo_two_keys) =
     Inr \<lparr> auth_account_id = 1, auth_key_hash = g_key_hash demo_new_key \<rparr> \<and>
   fst (resolve_authed_account demo_ext 4 None (Some (g_full_key demo_new_key)) (snd (revoke_api_key 3 1 32 demo_two_keys))) =
     Inl InvalidCredential"
proof -
  obtain d2 where d2: "revoke_api_key 3 1 32 demo_two_keys = (Inr (), d2)" using demo_revokes_key by blast
  have "length (replicate 16 (2 :: byte)) = 16" by simp
  note life = api_key_lifecycle [OF demo_keys_ok demo_hex_ok this demo_creates_key]
  show ?thesis
    using life [THEN conjunct1, of 4] life [THEN conjunct2, rule_format, OF d2, of 4] d2 by simp
qed

lemma demo_redirect_granted:
  "\<exists>target. fst (connect_form demo_ext 5 5 77 (replicate 16 4) 1 (Some ''http://127.0.0.1:80/callback'') demo_db) = Inr (RedirectTo target)"
proof -
  have "trim ''http://127.0.0.1:80/callback'' = ''http://127.0.0.1:80/callback''"
    "is_allowed_redirect_uri ''http://127.0.0.1:80/callback''" by code_simp+
  then show ?thesis
    by (simp add: connect_form_def create_desktop_token_def Let_def demo_db_def demo_account_def split: prod.split)
qed

text \<open>C38: a desktop token is sent to this machine only.  Whatever redirect address the form is given, the token goes
  out in a redirect only to a callback page of a port of the loopback host, namely the address the form was given
  with the new token added; it is shown on the page only when no address was given; and every other address is
  refused as an invalid request.\<close>

theorem tokens_go_to_loopback_only:
  "case connect_form x now clock fresh secret acc redirect d of
     (Inr (RedirectTo target), d') \<Rightarrow> loopback_callback target \<and> (\<exists>u c. redirect = Some u \<and> loopback_callback (trim u) \<and>
        create_desktop_token x now clock fresh secret acc d = (Inr c, d') \<and>
        target = append_query (trim u) (cd_plaintext c) (x_rfc3339 x (cd_expires_at c)))
   | (Inr (ShowToken _ _), d') \<Rightarrow> redirect = None \<or> (\<exists>u. redirect = Some u \<and> trim u = [])
   | (Inl e, d') \<Rightarrow> e = Internal \<or> e = InvalidRequest \<and>
        (\<exists>u. redirect = Some u \<and> trim u \<noteq> [] \<and> \<not> loopback_callback (trim u))"
  by (rule connect_form_answer)

theorem tokens_go_to_loopback_only_witness:
  "\<exists>target. fst (connect_form demo_ext 5 5 77 (replicate 16 4) 1 (Some ''http://127.0.0.1:80/callback'') demo_db) =
     Inr (RedirectTo target) \<and> loopback_callback target"
proof -
  obtain target where t: "fst (connect_form demo_ext 5 5 77 (replicate 16 4) 1 (Some ''http://127.0.0.1:80/callback'') demo_db) =
      Inr (RedirectTo target)"
    using demo_redirect_granted by blast
  then have "loopback_callback target"
    using tokens_go_to_loopback_only [where x = demo_ext and now = 5 and clock = 5 and fresh = 77 and secret = "replicate 16 4"
        and acc = 1 and redirect = "Some ''http://127.0.0.1:80/callback''" and d = demo_db]
    by (simp split: prod.splits)
  with t show ?thesis by blast
qed

end
