(* ===== verification/Backup.thy ===== *)
theory Backup
  imports LedgerInv Signing "HOL-Library.AList"
begin

text \<open>
  Backups: \<open>src/service/backup.rs\<close>, \<open>src/service/backup_snapshot.rs\<close>, \<open>src/api/backup.rs\<close>
  and the restore of the command line, \<open>src/service/backup_restore.rs\<close>.  The derived serialisation of
  a snapshot is a parameter, \<open>enc\<close> and \<open>dec\<close>; so is the parser of JSON values.  A write that fails
  leaves the file system as it was.
\<close>

section \<open>Snapshots\<close>

record EventSnapshot =
  es_event_id :: uuid
  es_chain_id :: uuid
  es_parent_event_id :: uuid
  es_file_hash :: string
  es_idempotency_key :: string
  es_signature :: string
  es_created_at :: timestamp
  es_sequence :: i64

record BackupSnapshot =
  bk_chain_id :: uuid
  bk_events :: "EventSnapshot list"
  bk_exported_at :: timestamp

record ChainHeadSummary =
  hs_event_count :: nat
  hs_head_event_id :: uuid

definition head_summary :: "BackupSnapshot \<Rightarrow> ChainHeadSummary option" where
  "head_summary s = (case rev (bk_events s) of [] \<Rightarrow> None
     | l # _ \<Rightarrow> Some \<lparr> hs_event_count = length (bk_events s), hs_head_event_id = es_event_id l \<rparr>)"

definition to_event_rows :: "BackupSnapshot \<Rightarrow> EventRow list" where
  "to_event_rows s = map (\<lambda>e. \<lparr> er_event_id = es_event_id e, er_parent_event_id = es_parent_event_id e,
     er_file_hash = es_file_hash e, er_created_at = es_created_at e, er_sequence = es_sequence e \<rparr>) (bk_events s)"

definition structural_integrity_error :: string where
  "structural_integrity_error = ''snapshot appears corrupted or incomplete '' @ [CHR 0xE2, CHR 0x80, CHR 0x94] @
     '' restore aborted''"

definition validate_structural_integrity :: "ext \<Rightarrow> BackupSnapshot \<Rightarrow> string + string" where
  "validate_structural_integrity x s =
     (if list_ex (\<lambda>e. es_chain_id e \<noteq> bk_chain_id s) (bk_events s) then Inl structural_integrity_error
      else case check_event_structure x (to_event_rows s) of
          Inl _ \<Rightarrow> Inl structural_integrity_error | Inr root \<Rightarrow> Inr root)"

section \<open>Server backups\<close>

datatype BackupError =
    BackupNotFound
  | FeatureNotAvailable string
  | BackupIo
  | BackupDatabase sqlx_error
  | TooManyEvents

record BackupResult =
  br_backup_id :: uuid
  br_event_count :: int

definition ensure_server_backup_allowed :: "AccountCapabilities \<Rightarrow> BackupError + unit" where
  "ensure_server_backup_allowed c =
     (if \<not> allowed c ServerBackup then Inl (FeatureNotAvailable (cap_plan_name c)) else Inr ())"

definition event_snapshot :: "event_row \<Rightarrow> EventSnapshot" where
  "event_snapshot e = \<lparr> es_event_id = e_event_id e, es_chain_id = e_chain_id e, es_parent_event_id = e_parent_event_id e,
     es_file_hash = e_file_hash e, es_idempotency_key = e_idempotency_key e, es_signature = e_signature e,
     es_created_at = e_created_at e, es_sequence = e_sequence e \<rparr>"

definition fetch_chain_events :: "uuid \<Rightarrow> uuid \<Rightarrow> db \<Rightarrow> BackupError + EventSnapshot list" where
  "fetch_chain_events acc chain_id d =
     (if \<not> list_ex (\<lambda>c. ch_chain_id c = chain_id \<and> ch_account_id c = Some acc) (chains d) then Inl BackupNotFound
      else Inr (map event_snapshot (select_events (\<lambda>e. e_chain_id e = chain_id) (events d))))"

definition fetch_owned_backup :: "uuid \<Rightarrow> uuid \<Rightarrow> db \<Rightarrow> BackupError + backup_row" where
  "fetch_owned_backup acc backup_id d =
     ok_or BackupNotFound (find (\<lambda>b. b_backup_id b = backup_id \<and> b_account_id b = acc) (backups d))"

definition export_local_snapshot :: "timestamp \<Rightarrow> uuid \<Rightarrow> uuid \<Rightarrow> db \<Rightarrow> BackupError + BackupSnapshot" where
  "export_local_snapshot now acc chain_id d =
     bind_res (fetch_chain_events acc chain_id d) (\<lambda>es.
     Inr \<lparr> bk_chain_id = chain_id, bk_events = es, bk_exported_at = now \<rparr>)"

text \<open>\<open>Path::join\<close> with a relative component.\<close>

definition path_join :: "string \<Rightarrow> string \<Rightarrow> string" where
  "path_join p q = (if p = [] \<or> last p = CHR ''/'' then p @ q else p @ ''/'' @ q)"

definition backup_path :: "ext \<Rightarrow> string \<Rightarrow> uuid \<Rightarrow> uuid \<Rightarrow> string" where
  "backup_path x root acc backup_id = path_join (path_join root (x_uuid_str x acc)) (x_uuid_str x backup_id @ ''.json'')"

definition insert_backup :: "backup_row \<Rightarrow> db \<Rightarrow> sqlx_error + db" where
  "insert_backup b d =
     (if b_backup_id b \<in> b_backup_id ` set (backups d) then Inl (UniqueViolation ''backups_pkey'')
      else if b_chain_id b \<notin> ch_chain_id ` set (chains d) \<or> b_account_id b \<notin> a_account_id ` set (accounts d)
        then Inl ForeignKeyViolation
      else Inr (d\<lparr> backups := backups d @ [b] \<rparr>))"

text \<open>\<open>root\<close> is \<open>EVIDENT_BACKUP_DIR\<close> or its default; the file is written before the row.  \<open>now\<close> is the
  clock of the database, \<open>clock\<close> that of the process.\<close>

definition create_backup ::
  "ext \<Rightarrow> (BackupSnapshot \<Rightarrow> byte list) \<Rightarrow> string \<Rightarrow> timestamp \<Rightarrow> timestamp \<Rightarrow> uuid \<Rightarrow> uuid \<Rightarrow> uuid \<Rightarrow> AccountCapabilities \<Rightarrow> filesystem \<Rightarrow> db
    \<Rightarrow> (BackupError + BackupResult) \<times> filesystem \<times> db" where
  "create_backup x enc root now clock fresh acc chain_id caps fs d =
     (case fetch_chain_events acc chain_id d of Inl e \<Rightarrow> (Inl e, fs, d) | Inr es \<Rightarrow>
     (case ensure_server_backup_allowed caps of Inl e \<Rightarrow> (Inl e, fs, d) | Inr _ \<Rightarrow>
      if length es \<ge> 2 ^ 31 then (Inl TooManyEvents, fs, d)
      else let path = backup_path x root acc fresh;
               snapshot = \<lparr> bk_chain_id = chain_id, bk_events = es, bk_exported_at = clock \<rparr> in
        if (case fs_parent fs path of Some parent \<Rightarrow> \<not> fs_mkdir_ok fs parent | None \<Rightarrow> False) then (Inl BackupIo, fs, d)
        else if \<not> fs_write_ok fs path then (Inl BackupIo, fs, d)
        else let fs' = fs\<lparr> fs_file := (fs_file fs)(path \<mapsto> enc snapshot) \<rparr> in
          case insert_backup \<lparr> b_backup_id = fresh, b_chain_id = chain_id, b_account_id = acc, b_storage_path = path,
              b_event_count = int (length es), b_created_at = now \<rparr> d of
            Inl e \<Rightarrow> (Inl (BackupDatabase e), fs', d)
          | Inr d' \<Rightarrow> (Inr \<lparr> br_backup_id = fresh, br_event_count = int (length es) \<rparr>, fs', d')))"

text \<open>\<open>ORDER BY created_at DESC\<close>; rows of the same instant in table order.\<close>

definition list_backups :: "uuid \<Rightarrow> AccountCapabilities \<Rightarrow> db \<Rightarrow> BackupError + backup_row list" where
  "list_backups acc caps d =
     bind_res (ensure_server_backup_allowed caps) (\<lambda>_.
     Inr (sort_key (\<lambda>b. - b_created_at b) (filter (\<lambda>b. b_account_id b = acc) (backups d))))"

definition get_backup_info :: "uuid \<Rightarrow> uuid \<Rightarrow> AccountCapabilities \<Rightarrow> db \<Rightarrow> BackupError + backup_row" where
  "get_backup_info acc backup_id caps d =
     bind_res (ensure_server_backup_allowed caps) (\<lambda>_. fetch_owned_backup acc backup_id d)"

definition fs_read :: "filesystem \<Rightarrow> string \<Rightarrow> byte list option" where
  "fs_read fs path = (if fs_readable fs path then fs_file fs path else None)"

definition read_backup_file :: "uuid \<Rightarrow> uuid \<Rightarrow> AccountCapabilities \<Rightarrow> filesystem \<Rightarrow> db \<Rightarrow> BackupError + byte list" where
  "read_backup_file acc backup_id caps fs d =
     bind_res (ensure_server_backup_allowed caps) (\<lambda>_.
     bind_res (fetch_owned_backup acc backup_id d) (\<lambda>row.
     ok_or BackupIo (fs_read fs (b_storage_path row))))"

section \<open>Handlers\<close>

text \<open>The texts of I/O and serialisation errors are left out; \<open>upper\<close> is \<open>str::to_uppercase\<close>.\<close>

fun backup_error_response :: "(string \<Rightarrow> string) \<Rightarrow> BackupError \<Rightarrow> nat \<times> json" where
  "backup_error_response upper BackupNotFound = (404, JObject [(''error'', JString ''not_found'')])"
| "backup_error_response upper (FeatureNotAvailable plan) =
     (403, JObject [(''error'', JString ''feature_not_available''), (''feature'', JString ''server_backup''),
        (''plan'', JString (upper plan))])"
| "backup_error_response upper (BackupDatabase _) = (500, JObject [(''error'', JString ''database error'')])"
| "backup_error_response upper TooManyEvents = (500, JObject [(''error'', JString ''database error'')])"
| "backup_error_response upper BackupIo = (500, JObject [(''error'', JString ''I/O error'')])"

definition with_capabilities :: "uuid \<Rightarrow> db \<Rightarrow> (AccountCapabilities \<Rightarrow> BackupError + 'a) \<Rightarrow> BackupError + 'a" where
  "with_capabilities acc d f = bind_res (map_err BackupDatabase (get_account_capabilities acc d)) f"

definition backup_create_handler ::
  "ext \<Rightarrow> (BackupSnapshot \<Rightarrow> byte list) \<Rightarrow> string \<Rightarrow> timestamp \<Rightarrow> timestamp \<Rightarrow> uuid \<Rightarrow> uuid \<Rightarrow> uuid \<Rightarrow> filesystem \<Rightarrow> db
    \<Rightarrow> (BackupError + json) \<times> filesystem \<times> db" where
  "backup_create_handler x enc root now clock fresh acc chain_id fs d =
     (case get_account_capabilities acc d of Inl e \<Rightarrow> (Inl (BackupDatabase e), fs, d) | Inr caps \<Rightarrow>
     (case create_backup x enc root now clock fresh acc chain_id caps fs d of
        (Inl e, s) \<Rightarrow> (Inl e, s)
      | (Inr r, s) \<Rightarrow> (Inr (JObject [(''backup_id'', JUuid x (br_backup_id r)), (''status'', JString ''created''),
           (''event_count'', JNumber (br_event_count r))]), s)))"

definition backup_export_handler :: "(BackupSnapshot \<Rightarrow> byte list) \<Rightarrow> timestamp \<Rightarrow> uuid \<Rightarrow> uuid \<Rightarrow> db \<Rightarrow> BackupError + byte list" where
  "backup_export_handler enc now acc chain_id d =
     bind_res (export_local_snapshot now acc chain_id d) (\<lambda>s. Inr (enc s))"

definition backup_item_json :: "ext \<Rightarrow> backup_row \<Rightarrow> (string \<times> json) list" where
  "backup_item_json x b = [(''backup_id'', JUuid x (b_backup_id b)), (''chain_id'', JUuid x (b_chain_id b)),
     (''created_at'', JString (x_rfc3339 x (b_created_at b))), (''event_count'', JNumber (b_event_count b))]"

definition backup_list_handler :: "ext \<Rightarrow> uuid \<Rightarrow> db \<Rightarrow> BackupError + json" where
  "backup_list_handler x acc d = with_capabilities acc d (\<lambda>caps.
     bind_res (list_backups acc caps d) (\<lambda>bs. Inr (JArray (map (\<lambda>b. JObject (backup_item_json x b)) bs))))"

definition backup_info_handler :: "ext \<Rightarrow> uuid \<Rightarrow> uuid \<Rightarrow> db \<Rightarrow> BackupError + json" where
  "backup_info_handler x acc backup_id d = with_capabilities acc d (\<lambda>caps.
     bind_res (get_backup_info acc backup_id caps d) (\<lambda>b.
     Inr (JObject (backup_item_json x b @ [(''storage_path'', JString (b_storage_path b))]))))"

definition backup_download_handler :: "uuid \<Rightarrow> uuid \<Rightarrow> filesystem \<Rightarrow> db \<Rightarrow> BackupError + byte list" where
  "backup_download_handler acc backup_id fs d = with_capabilities acc d (\<lambda>caps. read_backup_file acc backup_id caps fs d)"

section \<open>Restore\<close>

text \<open>The local directory: the entries of \<open>backups\<close> and of \<open>proofs/<chain>\<close> in the order \<open>read_dir\<close>
  yields them, \<open>None\<close> where the directory does not exist; an entry holds \<open>None\<close> where
  it cannot be read.\<close>

type_synonym entry = "string \<times> byte list option"

record local_dir =
  ld_backups :: "entry list option"
  ld_proofs :: "uuid \<Rightarrow> entry list option"
  ld_mkdir_ok :: bool
  ld_write_ok :: bool

record LocalChainState =
  ls_event_count :: nat
  ls_head_event_id :: uuid
  ls_source :: string

record RestoreSummary =
  rs_chain_id :: uuid
  rs_backup_id :: uuid
  rs_event_count :: nat
  rs_output_name :: string

datatype RestoreError = RestoreParse string | RestoreStructural string | Declined | RestoreIo

text \<open>\<open>path.extension() == Some("json")\<close>.\<close>

definition is_json_file :: "string \<Rightarrow> bool" where
  "is_json_file name \<longleftrightarrow> (case strip_suffix ''.json'' name of None \<Rightarrow> False | Some stem \<Rightarrow> stem \<noteq> [])"

definition parse_snapshot :: "(byte list \<Rightarrow> string + BackupSnapshot) \<Rightarrow> byte list \<Rightarrow> string + BackupSnapshot" where
  "parse_snapshot dec bytes = map_err (\<lambda>e. ''invalid backup JSON: '' @ e) (dec bytes)"

definition backup_state :: "(byte list \<Rightarrow> string + BackupSnapshot) \<Rightarrow> uuid \<Rightarrow> entry \<Rightarrow> LocalChainState option" where
  "backup_state dec chain_id f = (case f of
     (name, Some bytes) \<Rightarrow>
       if \<not> is_json_file name then None
       else (case parse_snapshot dec bytes of
           Inl _ \<Rightarrow> None
         | Inr s \<Rightarrow> if bk_chain_id s \<noteq> chain_id then None
             else map_option (\<lambda>h. \<lparr> ls_event_count = hs_event_count h, ls_head_event_id = hs_head_event_id h,
               ls_source = ''backups/'' @ name \<rparr>) (head_summary s))
   | (name, None) \<Rightarrow> None)"

fun scan_backups :: "(byte list \<Rightarrow> string + BackupSnapshot) \<Rightarrow> uuid \<Rightarrow> LocalChainState option \<Rightarrow> entry list \<Rightarrow> LocalChainState option" where
  "scan_backups dec chain_id best [] = best"
| "scan_backups dec chain_id best (f # fs) = scan_backups dec chain_id
     (case backup_state dec chain_id f of None \<Rightarrow> best | Some s \<Rightarrow> Some s) fs"

text \<open>\<open>json["events"].as_array()\<close> of a file that is read as text; \<open>None\<close>: the loop goes on.\<close>

definition proof_events :: "(byte list \<Rightarrow> json option) \<Rightarrow> entry \<Rightarrow> (json \<times> json list) option" where
  "proof_events parse f = (case f of
     (name, Some bytes) \<Rightarrow>
       if \<not> is_json_file name \<or> \<not> is_utf8 bytes then None
       else Option.bind (parse bytes) (\<lambda>j. case json_get j ''events'' of
           Some (JArray es) \<Rightarrow> Some (j, es) | _ \<Rightarrow> None)
   | (name, None) \<Rightarrow> None)"

definition uuid_field :: "ext \<Rightarrow> string \<Rightarrow> json \<Rightarrow> uuid option" where
  "uuid_field x key j = Option.bind (Option.bind (json_get j key) json_str) (x_uuid_parse x)"

definition proof_head :: "ext \<Rightarrow> json \<Rightarrow> json list \<Rightarrow> uuid option" where
  "proof_head x j es = (case uuid_field x ''head_event_id'' j of
     Some h \<Rightarrow> Some h
   | None \<Rightarrow> (if es = [] then None else uuid_field x ''event_id'' (last es)))"

text \<open>A file whose head is not an id ends the whole scan without a result: the outer \<open>None\<close>.\<close>

fun scan_proofs :: "ext \<Rightarrow> (byte list \<Rightarrow> json option) \<Rightarrow> uuid \<Rightarrow> LocalChainState option \<Rightarrow> entry list \<Rightarrow> LocalChainState option" where
  "scan_proofs x parse chain_id best [] = best"
| "scan_proofs x parse chain_id best (f # fs) = (case proof_events parse f of
     None \<Rightarrow> scan_proofs x parse chain_id best fs
   | Some (j, es) \<Rightarrow> (case proof_head x j es of
         None \<Rightarrow> None
       | Some h \<Rightarrow> scan_proofs x parse chain_id
           (Some \<lparr> ls_event_count = length es, ls_head_event_id = h,
              ls_source = ''proofs/'' @ x_uuid_str x chain_id @ ''/'' @ fst f \<rparr>) fs))"

definition scan_local_chain_state ::
  "ext \<Rightarrow> (byte list \<Rightarrow> string + BackupSnapshot) \<Rightarrow> (byte list \<Rightarrow> json option) \<Rightarrow> local_dir \<Rightarrow> uuid \<Rightarrow> LocalChainState option" where
  "scan_local_chain_state x dec parse ld chain_id =
     (let best = (case ld_backups ld of None \<Rightarrow> None | Some fs \<Rightarrow> scan_backups dec chain_id None fs) in
      case ld_proofs ld chain_id of None \<Rightarrow> best | Some fs \<Rightarrow> scan_proofs x parse chain_id best fs)"

definition format_conflict_message :: "ext \<Rightarrow> uuid \<Rightarrow> LocalChainState \<Rightarrow> ChainHeadSummary \<Rightarrow> string" where
  "format_conflict_message x chain_id l b =
     ''Local data already exists for chain '' @ x_uuid_str x chain_id @ '' (via '' @ ls_source l @ ''):'' @ [CHR 0x0A] @
     ''  local:  '' @ digits (ls_event_count l) @ '' events, head '' @ x_uuid_str x (ls_head_event_id l) @ [CHR 0x0A] @
     ''  backup: '' @ digits (hs_event_count b) @ '' events, head '' @ x_uuid_str x (hs_head_event_id b) @ [CHR 0x0A] @
     ''Re-run with --force to overwrite the restored backup file.''"

definition put_entry :: "string \<Rightarrow> byte list \<Rightarrow> entry list option \<Rightarrow> entry list option" where
  "put_entry name bytes fs = Some (AList.update name (Some bytes) (case fs of None \<Rightarrow> [] | Some es \<Rightarrow> es))"

text \<open>\<open>confirm\<close> answers the question on the terminal.\<close>

definition restore_snapshot_bytes ::
  "ext \<Rightarrow> (byte list \<Rightarrow> string + BackupSnapshot) \<Rightarrow> (byte list \<Rightarrow> json option) \<Rightarrow> local_dir \<Rightarrow> uuid \<Rightarrow> byte list \<Rightarrow> bool
    \<Rightarrow> (string \<Rightarrow> bool) \<Rightarrow> (RestoreError + RestoreSummary) \<times> local_dir" where
  "restore_snapshot_bytes x dec parse ld backup_id bytes force confirm =
     (case parse_snapshot dec bytes of Inl e \<Rightarrow> (Inl (RestoreParse e), ld) | Inr s \<Rightarrow>
     (case validate_structural_integrity x s of Inl e \<Rightarrow> (Inl (RestoreStructural e), ld) | Inr _ \<Rightarrow>
     (case head_summary s of None \<Rightarrow> (Inl (RestoreStructural structural_integrity_error), ld) | Some h \<Rightarrow>
      let declined = (case scan_local_chain_state x dec parse ld (bk_chain_id s) of
            None \<Rightarrow> False
          | Some l \<Rightarrow> \<not> force \<and> \<not> confirm (format_conflict_message x (bk_chain_id s) l h));
          name = x_uuid_str x backup_id @ ''.json'' in
      if declined then (Inl Declined, ld)
      else if \<not> ld_mkdir_ok ld then (Inl RestoreIo, ld)
      else if \<not> ld_write_ok ld
        then (Inl RestoreIo, ld\<lparr> ld_backups := Some (case ld_backups ld of None \<Rightarrow> [] | Some es \<Rightarrow> es) \<rparr>)
      else (Inr \<lparr> rs_chain_id = bk_chain_id s, rs_backup_id = backup_id, rs_event_count = hs_event_count h,
              rs_output_name = name \<rparr>, ld\<lparr> ld_backups := put_entry name bytes (ld_backups ld) \<rparr>))))"

text \<open>The answer to the question: \<open>line\<close> is what was typed.  Only ASCII letters lowercase to the letters
  of the two accepted answers.\<close>

definition prompt_accepts :: "string \<Rightarrow> bool" where
  "prompt_accepts line \<longleftrightarrow> to_ascii_lowercase (trim line) \<in> {''y'', ''yes''}"

section \<open>Lemmas\<close>

lemma validate_Inr [res_iff]:
  assumes "sha_ok x" "hex_ok x"
  shows "validate_structural_integrity x s = Inr root \<longleftrightarrow> (\<forall>e\<in>set (bk_events s). es_chain_id e = bk_chain_id s) \<and>
     chain_shape (to_event_rows s) \<and> root = recompute_root_from_events x (to_event_rows s)"
  using check_structure_Inr [OF assms, of "to_event_rows s"]
  by (auto simp: validate_structural_integrity_def list_ex_iff split: sum.split)

lemma fetch_chain_Inr [res_iff]:
  "fetch_chain_events acc c d = Inr es \<longleftrightarrow>
     (\<exists>r\<in>set (chains d). ch_chain_id r = c \<and> ch_account_id r = Some acc) \<and>
     es = map event_snapshot (select_events (\<lambda>e. e_chain_id e = c) (events d))"
  by (auto simp: fetch_chain_events_def list_ex_iff)

lemma snapshot_rows:
  "to_event_rows \<lparr> bk_chain_id = c, bk_events = map event_snapshot es, bk_exported_at = t \<rparr> = map to_EventRow es"
  by (simp add: to_event_rows_def event_snapshot_def to_EventRow_def)

text \<open>What the service exports is structurally sound, since the ledger keeps its invariant.\<close>

lemma exported_valid:
  assumes "ledger_ok d" "sha_ok x" "hex_ok x" "fetch_chain_events acc c d = Inr es"
  shows "validate_structural_integrity x \<lparr> bk_chain_id = c, bk_events = es, bk_exported_at = t \<rparr> =
     Inr (recompute_root_from_events x (chain_events c d))"
proof -
  have es: "es = map event_snapshot (select_events (\<lambda>e. e_chain_id e = c) (events d))"
    using assms(4) by (simp add: res_iff)
  have "to_event_rows \<lparr> bk_chain_id = c, bk_events = es, bk_exported_at = t \<rparr> = chain_events c d"
    unfolding es snapshot_rows by (simp add: chain_events_def)
  moreover have "chain_shape (chain_events c d)" using assms(1) chain_inv_shape ledger_okD by blast
  moreover have "\<forall>e\<in>set es. es_chain_id e = c" by (simp add: es select_events_def event_snapshot_def)
  ultimately show ?thesis by (simp add: validate_Inr [OF assms(2,3)])
qed

lemma create_backup_Inr:
  assumes "create_backup x enc root now clock fresh acc c caps fs d = (Inr r, fs', d')"
  obtains es where "fetch_chain_events acc c d = Inr es" "allowed caps ServerBackup" "br_backup_id r = fresh"
    "br_event_count r = int (length es)" "length es < 2 ^ 31"
    "fs' = fs\<lparr> fs_file := (fs_file fs)(backup_path x root acc fresh \<mapsto>
       enc \<lparr> bk_chain_id = c, bk_events = es, bk_exported_at = clock \<rparr>) \<rparr>"
    "fresh \<notin> b_backup_id ` set (backups d)"
    "d' = d\<lparr> backups := backups d @ [\<lparr> b_backup_id = fresh, b_chain_id = c, b_account_id = acc,
       b_storage_path = backup_path x root acc fresh, b_event_count = int (length es), b_created_at = now \<rparr>] \<rparr>"
  using assms
  by (auto simp: create_backup_def ensure_server_backup_allowed_def insert_backup_def Let_def
      split: sum.splits if_splits option.splits)

text \<open>A stored backup reads back for its owner, and for nobody else.\<close>

lemma created_backup_reads_back:
  assumes "create_backup x enc root now clock fresh acc c caps fs d = (Inr r, fs', d')"
    and "fs_readable fs (backup_path x root acc fresh)"
  obtains es where "fetch_chain_events acc c d = Inr es"
    "read_backup_file acc fresh caps fs' d' = Inr (enc \<lparr> bk_chain_id = c, bk_events = es, bk_exported_at = clock \<rparr>)"
proof (rule create_backup_Inr [OF assms(1)])
  fix es
  assume *: "fetch_chain_events acc c d = Inr es" "allowed caps ServerBackup"
    "fs' = fs\<lparr> fs_file := (fs_file fs)(backup_path x root acc fresh \<mapsto>
       enc \<lparr> bk_chain_id = c, bk_events = es, bk_exported_at = clock \<rparr>) \<rparr>"
    "fresh \<notin> b_backup_id ` set (backups d)"
    "d' = d\<lparr> backups := backups d @ [\<lparr> b_backup_id = fresh, b_chain_id = c, b_account_id = acc,
       b_storage_path = backup_path x root acc fresh, b_event_count = int (length es), b_created_at = now \<rparr>] \<rparr>"
  have "find (\<lambda>b. b_backup_id b = fresh \<and> b_account_id b = acc) (backups d) = None"
    using *(4) by (auto simp: find_None_iff)
  then have "read_backup_file acc fresh caps fs' d' =
      Inr (enc \<lparr> bk_chain_id = c, bk_events = es, bk_exported_at = clock \<rparr>)"
    using *(2,3,5) assms(2)
    by (simp add: read_backup_file_def ensure_server_backup_allowed_def fetch_owned_backup_def find_append fs_read_def)
  with *(1) show thesis by (rule that)
qed

lemma foreign_backup:
  assumes "distinct (map b_backup_id (backups d))" "b \<in> set (backups d)" "b_backup_id b = i" "b_account_id b \<noteq> acc"
  shows "fetch_owned_backup acc i d = Inl BackupNotFound"
  using distinct_key_eq [OF assms(1) _ assms(2)] assms(3,4)
  by (auto simp: fetch_owned_backup_def ok_or_def find_None_iff split: option.split dest: find_SomeD)

lemma created_backup_private:
  assumes "create_backup x enc root now clock fresh acc c caps fs d = (Inr r, fs', d')" "other \<noteq> acc"
  shows "\<exists>e. read_backup_file other fresh caps' fs' d' = Inl e"
proof (rule create_backup_Inr [OF assms(1)])
  fix es
  assume "fresh \<notin> b_backup_id ` set (backups d)"
    "d' = d\<lparr> backups := backups d @ [\<lparr> b_backup_id = fresh, b_chain_id = c, b_account_id = acc,
       b_storage_path = backup_path x root acc fresh, b_event_count = int (length es), b_created_at = now \<rparr>] \<rparr>"
  moreover from this(1) have new: "b_backup_id b \<noteq> fresh" if "b \<in> set (backups d)" for b
    using that by (metis imageI)
  have "find (\<lambda>b. b_backup_id b = fresh \<and> b_account_id b = other) (backups d) = None"
    unfolding find_None_iff using new by blast
  ultimately have "find (\<lambda>b. b_backup_id b = fresh \<and> b_account_id b = other) (backups d') = None"
    using assms(2) by (simp add: find_append)
  then show ?thesis
    by (simp add: read_backup_file_def ensure_server_backup_allowed_def fetch_owned_backup_def)
qed

lemma create_backup_error:
  assumes "create_backup x enc root now clock fresh acc c caps fs d = (Inl e, fs', d')"
  shows "d' = d"
  using assms by (auto simp: create_backup_def Let_def split: sum.splits if_splits option.splits)

subsection \<open>Restore\<close>

text \<open>A snapshot the service wrote restores where it is not declined, as the file of its backup.\<close>

lemma restore_accepts:
  assumes "dec bytes = Inr s" "validate_structural_integrity x s = Inr root" "bk_events s \<noteq> []"
    and "force \<or> scan_local_chain_state x dec parse ld (bk_chain_id s) = None \<or> (\<forall>m. confirm m)"
    and "ld_mkdir_ok ld" "ld_write_ok ld"
  shows "restore_snapshot_bytes x dec parse ld i bytes force confirm =
     (Inr \<lparr> rs_chain_id = bk_chain_id s, rs_backup_id = i, rs_event_count = length (bk_events s),
        rs_output_name = x_uuid_str x i @ ''.json'' \<rparr>,
      ld\<lparr> ld_backups := put_entry (x_uuid_str x i @ ''.json'') bytes (ld_backups ld) \<rparr>)"
proof -
  obtain h where h: "head_summary s = Some h" "hs_event_count h = length (bk_events s)"
    using assms(3) by (cases "rev (bk_events s)") (auto simp: head_summary_def)
  show ?thesis
    using assms(1,2,4-6) h
    by (auto simp: restore_snapshot_bytes_def parse_snapshot_def Let_def split: option.split)
qed

text \<open>Nothing is written over local data unless it is forced or confirmed, nor for a snapshot that is not
  sound.\<close>

lemma restore_refused:
  assumes "restore_snapshot_bytes x dec parse ld i bytes force confirm = (Inl e, ld')" "e \<noteq> RestoreIo"
  shows "ld' = ld"
  using assms by (auto simp: restore_snapshot_bytes_def Let_def split: sum.splits option.splits if_splits)

lemma restore_needs_consent:
  assumes "restore_snapshot_bytes x dec parse ld i bytes force confirm = (Inr r, ld')"
    and "scan_local_chain_state x dec parse ld (rs_chain_id r) = Some l" "\<not> force"
  shows "\<exists>m. confirm m"
  using assms by (auto simp: restore_snapshot_bytes_def Let_def split: sum.splits option.splits if_splits)

text \<open>A backup of an empty chain is stored, and cannot be restored.\<close>

lemma empty_backup_not_restored:
  assumes "dec bytes = Inr s" "bk_events s = []"
  shows "fst (restore_snapshot_bytes x dec parse ld i bytes force confirm) = Inl (RestoreStructural structural_integrity_error)"
proof -
  have "validate_structural_integrity x s = Inr ''empty''" "head_summary s = None"
    using assms(2) by (simp_all add: validate_structural_integrity_def to_event_rows_def check_event_structure_def head_summary_def)
  then show ?thesis using assms(1) by (simp add: restore_snapshot_bytes_def parse_snapshot_def)
qed

text \<open>One proof file without a head hides all local data of its chain.\<close>

lemma headless_proof_hides_local_data:
  assumes "ld_proofs ld c = Some fs" "f \<in> set fs" "proof_events parse f = Some (j, es)" "proof_head x j es = None"
  shows "scan_local_chain_state x dec parse ld c = None"
proof -
  have "scan_proofs x parse c best fs = None" for best
    using assms(2)
  proof (induction fs arbitrary: best)
    case (Cons g fs)
    then show ?case
      using assms(3,4) by (cases "g = f") (auto split: option.split prod.split)
  qed simp
  then show ?thesis using assms(1) by (simp add: scan_local_chain_state_def Let_def split: option.split)
qed

end
