(* ===== verification/ProofFile.thy ===== *)
theory ProofFile
  imports LedgerInv Signing
begin

text \<open>
  Proof files and the stand-alone verifier: \<open>src/proof_format.rs\<close>, the data of \<open>src/client.rs\<close> and
  \<open>src/bin/verify.rs\<close>.  The readers of JSON objects are the ones \<open>serde\<close> derives from the structs:
  fields by name, an absent or null field where the type is an option, integers in range.
\<close>

section \<open>Format\<close>

definition proof_version :: string where
  "proof_version = ''proof_v1''"

definition proof_type :: string where
  "proof_type = ''merkle-root-v1''"

definition leaf_version :: string where
  "leaf_version = ''leaf_v1''"

definition is_versioned :: "string option \<Rightarrow> string option \<Rightarrow> bool" where
  "is_versioned pv lv \<longleftrightarrow> (case pv of None \<Rightarrow> False | Some s \<Rightarrow> s \<noteq> []) \<and> (case lv of None \<Rightarrow> False | Some s \<Rightarrow> s \<noteq> [])"

definition is_supported :: "string option \<Rightarrow> string option \<Rightarrow> bool" where
  "is_supported pv lv \<longleftrightarrow> pv = Some proof_version \<and> lv = Some leaf_version"

section \<open>Data\<close>

record TsaData =
  td_timestamp :: "i64 option"
  td_serial :: "string option"
  td_token_bytes :: "i64 option"

record ProofPayload =
  pp_root :: string
  pp_chain_head :: string
  pp_signature :: string
  pp_public_key :: string
  pp_leaves_count :: nat
  pp_version :: "string option"
  pp_type :: "string option"

record EventLeaf =
  el_sequence :: i64
  el_event_id :: string
  el_parent_event_id :: string
  el_file_hash :: string

record CommitResponse =
  cr_event_id :: string
  cr_chain_id :: string
  cr_head_event_id :: string
  cr_sequence :: i64
  cr_proof :: ProofPayload
  cr_events :: "EventLeaf list"
  cr_tsa :: "TsaData option"
  cr_cached :: bool

record ProofFile =
  pf_leaf_version :: string
  pf_chain_id :: string
  pf_head_event_id :: string
  pf_proof :: ProofPayload
  pf_events :: "EventLeaf list"
  pf_tsa :: "TsaData option"

section \<open>Reading\<close>

definition need :: "json \<Rightarrow> string \<Rightarrow> (json \<Rightarrow> 'a option) \<Rightarrow> 'a option" where
  "need j k f = Option.bind (json_get j k) f"

definition maybe :: "json \<Rightarrow> string \<Rightarrow> (json \<Rightarrow> 'a option) \<Rightarrow> 'a option option" where
  "maybe j k f = (case json_get j k of None \<Rightarrow> Some None | Some JNull \<Rightarrow> Some None | Some v \<Rightarrow> map_option Some (f v))"

fun read_i64 :: "json \<Rightarrow> i64 option" where
  "read_i64 (JNumber n) = (if - (2 ^ 63) \<le> n \<and> n < 2 ^ 63 then Some (word_of_int n) else None)"
| "read_i64 _ = None"

fun read_usize :: "json \<Rightarrow> nat option" where
  "read_usize (JNumber n) = (if 0 \<le> n \<and> n < 2 ^ 64 then Some (nat n) else None)"
| "read_usize _ = None"

fun read_bool :: "json \<Rightarrow> bool option" where
  "read_bool (JBool b) = Some b"
| "read_bool _ = None"

fun read_all :: "('a \<Rightarrow> 'b option) \<Rightarrow> 'a list \<Rightarrow> 'b list option" where
  "read_all f [] = Some []"
| "read_all f (a # as) = Option.bind (f a) (\<lambda>b. map_option (Cons b) (read_all f as))"

fun read_vec :: "(json \<Rightarrow> 'a option) \<Rightarrow> json \<Rightarrow> 'a list option" where
  "read_vec f (JArray vs) = read_all f vs"
| "read_vec f _ = None"

definition read_tsa :: "json \<Rightarrow> TsaData option" where
  "read_tsa j =
     Option.bind (maybe j ''timestamp'' read_i64) (\<lambda>ts.
     Option.bind (maybe j ''serial'' json_str) (\<lambda>serial.
     Option.bind (maybe j ''token_bytes'' read_i64) (\<lambda>bytes.
     Some \<lparr> td_timestamp = ts, td_serial = serial, td_token_bytes = bytes \<rparr>)))"

definition read_payload :: "json \<Rightarrow> ProofPayload option" where
  "read_payload j =
     Option.bind (need j ''root'' json_str) (\<lambda>root.
     Option.bind (need j ''chain_head'' json_str) (\<lambda>head.
     Option.bind (need j ''signature'' json_str) (\<lambda>sig.
     Option.bind (need j ''public_key'' json_str) (\<lambda>key.
     Option.bind (need j ''leaves_count'' read_usize) (\<lambda>n.
     Option.bind (maybe j ''version'' json_str) (\<lambda>version.
     Option.bind (maybe j ''type'' json_str) (\<lambda>type.
     Some \<lparr> pp_root = root, pp_chain_head = head, pp_signature = sig, pp_public_key = key, pp_leaves_count = n,
       pp_version = version, pp_type = type \<rparr>)))))))"

definition read_leaf :: "json \<Rightarrow> EventLeaf option" where
  "read_leaf j =
     Option.bind (need j ''sequence'' read_i64) (\<lambda>n.
     Option.bind (need j ''event_id'' json_str) (\<lambda>i.
     Option.bind (need j ''parent_event_id'' json_str) (\<lambda>p.
     Option.bind (need j ''file_hash'' json_str) (\<lambda>h.
     Some \<lparr> el_sequence = n, el_event_id = i, el_parent_event_id = p, el_file_hash = h \<rparr>))))"

text \<open>\<open>cached\<close> has a default for an absent field only.\<close>

definition read_commit :: "json \<Rightarrow> CommitResponse option" where
  "read_commit j =
     Option.bind (need j ''event_id'' json_str) (\<lambda>i.
     Option.bind (need j ''chain_id'' json_str) (\<lambda>c.
     Option.bind (need j ''head_event_id'' json_str) (\<lambda>h.
     Option.bind (need j ''sequence'' read_i64) (\<lambda>n.
     Option.bind (need j ''proof'' read_payload) (\<lambda>p.
     Option.bind (need j ''events'' (read_vec read_leaf)) (\<lambda>es.
     Option.bind (maybe j ''tsa'' read_tsa) (\<lambda>tsa.
     Option.bind (case json_get j ''cached'' of None \<Rightarrow> Some False | Some v \<Rightarrow> read_bool v) (\<lambda>cached.
     Some \<lparr> cr_event_id = i, cr_chain_id = c, cr_head_event_id = h, cr_sequence = n, cr_proof = p, cr_events = es,
       cr_tsa = tsa, cr_cached = cached \<rparr>))))))))"

definition read_proof_file :: "json \<Rightarrow> ProofFile option" where
  "read_proof_file j =
     Option.bind (need j ''leaf_version'' json_str) (\<lambda>lv.
     Option.bind (need j ''chain_id'' json_str) (\<lambda>c.
     Option.bind (need j ''head_event_id'' json_str) (\<lambda>h.
     Option.bind (need j ''proof'' read_payload) (\<lambda>p.
     Option.bind (need j ''events'' (read_vec read_leaf)) (\<lambda>es.
     Option.bind (maybe j ''tsa'' read_tsa) (\<lambda>tsa.
     Some \<lparr> pf_leaf_version = lv, pf_chain_id = c, pf_head_event_id = h, pf_proof = p, pf_events = es, pf_tsa = tsa \<rparr>))))))"

section \<open>Writing\<close>

definition tsa_data_json :: "TsaData \<Rightarrow> json" where
  "tsa_data_json t = JObject [(''timestamp'', JOpt (\<lambda>n. JNumber (sint n)) (td_timestamp t)),
     (''serial'', JOpt JString (td_serial t)), (''token_bytes'', JOpt (\<lambda>n. JNumber (sint n)) (td_token_bytes t))]"

definition payload_json :: "ProofPayload \<Rightarrow> json" where
  "payload_json p = JObject [(''root'', JString (pp_root p)), (''chain_head'', JString (pp_chain_head p)),
     (''signature'', JString (pp_signature p)), (''public_key'', JString (pp_public_key p)),
     (''leaves_count'', JNumber (int (pp_leaves_count p))), (''version'', JOpt JString (pp_version p)),
     (''type'', JOpt JString (pp_type p))]"

definition leaf_json :: "EventLeaf \<Rightarrow> json" where
  "leaf_json e = JObject [(''sequence'', JNumber (sint (el_sequence e))), (''event_id'', JString (el_event_id e)),
     (''parent_event_id'', JString (el_parent_event_id e)), (''file_hash'', JString (el_file_hash e))]"

definition proof_file_json :: "ProofFile \<Rightarrow> json" where
  "proof_file_json f = JObject [(''leaf_version'', JString (pf_leaf_version f)), (''chain_id'', JString (pf_chain_id f)),
     (''head_event_id'', JString (pf_head_event_id f)), (''proof'', payload_json (pf_proof f)),
     (''events'', JArray (map leaf_json (pf_events f))), (''tsa'', JOpt tsa_data_json (pf_tsa f))]"

text \<open>The file the client saves for an accepted submission.\<close>

definition proof_file_of :: "CommitResponse \<Rightarrow> ProofFile" where
  "proof_file_of c =
     (let p = cr_proof c;
          p = (if pp_version p = None then p\<lparr> pp_version := Some proof_version \<rparr> else p);
          p = (if pp_type p = None then p\<lparr> pp_type := Some proof_type \<rparr> else p)
      in \<lparr> pf_leaf_version = leaf_version, pf_chain_id = cr_chain_id c, pf_head_event_id = cr_head_event_id c,
           pf_proof = p, pf_events = cr_events c, pf_tsa = cr_tsa c \<rparr>)"

section \<open>The verifier\<close>

text \<open>Its own structs: \<open>leaf_version\<close> is optional, the other fields of the file are not read.\<close>

record VerifierFile =
  vf_leaf_version :: "string option"
  vf_version :: "string option"
  vf_chain_id :: string
  vf_head_event_id :: string
  vf_root :: string
  vf_chain_head :: string
  vf_signature :: string
  vf_public_key :: string
  vf_leaves_count :: nat
  vf_events :: "EventLeaf list"

definition read_verifier_file :: "json \<Rightarrow> VerifierFile option" where
  "read_verifier_file j =
     Option.bind (maybe j ''leaf_version'' json_str) (\<lambda>lv.
     Option.bind (need j ''chain_id'' json_str) (\<lambda>c.
     Option.bind (need j ''head_event_id'' json_str) (\<lambda>h.
     Option.bind (need j ''proof'' (\<lambda>p.
       Option.bind (maybe p ''version'' json_str) (\<lambda>version.
       Option.bind (need p ''root'' json_str) (\<lambda>root.
       Option.bind (need p ''chain_head'' json_str) (\<lambda>head.
       Option.bind (need p ''signature'' json_str) (\<lambda>sig.
       Option.bind (need p ''public_key'' json_str) (\<lambda>key.
       Option.bind (need p ''leaves_count'' read_usize) (\<lambda>n.
       Some (version, root, head, sig, key, n))))))))) (\<lambda>(version, root, head, sig, key, n).
     Option.bind (need j ''events'' (read_vec read_leaf)) (\<lambda>es.
     Some \<lparr> vf_leaf_version = lv, vf_version = version, vf_chain_id = c, vf_head_event_id = h, vf_root = root,
       vf_chain_head = head, vf_signature = sig, vf_public_key = key, vf_leaves_count = n, vf_events = es \<rparr>)))))"

definition events_to_rows :: "ext \<Rightarrow> timestamp \<Rightarrow> EventLeaf list \<Rightarrow> EventRow list option" where
  "events_to_rows x now = read_all (\<lambda>e.
     Option.bind (x_uuid_parse x (el_event_id e)) (\<lambda>i.
     Option.bind (x_uuid_parse x (el_parent_event_id e)) (\<lambda>p.
     Some \<lparr> er_event_id = i, er_parent_event_id = p, er_file_hash = el_file_hash e, er_created_at = now,
       er_sequence = el_sequence e \<rparr>)))"

datatype rejection = RejectLegacy | RejectUnsupported

definition reject_unversioned :: "string option \<Rightarrow> string option \<Rightarrow> rejection option" where
  "reject_unversioned pv lv =
     (if is_versioned pv lv \<and> is_supported pv lv then None
      else if pv = None \<and> lv = None then Some RejectLegacy else Some RejectUnsupported)"

datatype verify_failure =
    UntrustedSigner
  | BadSignature
  | LeavesCountMismatch
  | HeadMismatch
  | RootMismatch
  | StructureBroken StructuralFailure

text \<open>The checks of \<open>main\<close> once the file, the pinned key and the rows are there, in the order they report.\<close>

definition verify_checks :: "ext \<Rightarrow> VerifierFile \<Rightarrow> string \<Rightarrow> EventRow list \<Rightarrow> verify_failure list" where
  "verify_checks x f trusted rows =
     (case classify_signature x (vf_public_key f) trusted (vf_chain_id f) (vf_root f) (vf_chain_head f) (vf_signature f) of
        SigValid \<Rightarrow> [] | UntrustedSignerIdentity _ _ \<Rightarrow> [UntrustedSigner] | SignatureInvalid _ \<Rightarrow> [BadSignature]) @
     (if length (vf_events f) \<noteq> vf_leaves_count f then [LeavesCountMismatch] else []) @
     (if vf_head_event_id f \<noteq> vf_chain_head f then [HeadMismatch] else []) @
     (case check_event_structure x rows of
        Inr recomputed \<Rightarrow> if recomputed \<noteq> vf_root f then [RootMismatch] else []
      | Inl failure \<Rightarrow> [StructureBroken failure])"

text \<open>The exit code.  \<open>content\<close> and \<open>pinned\<close> are what the files hold, \<open>None\<close> where one cannot be read;
  \<open>parse\<close> reads JSON.  The check of the original file only prints a line.\<close>

definition evident_verify :: "ext \<Rightarrow> (string \<Rightarrow> json option) \<Rightarrow> timestamp \<Rightarrow> string option \<Rightarrow> string option \<Rightarrow> nat" where
  "evident_verify x parse now content pinned =
     (case Option.bind (Option.bind content parse) read_verifier_file of
        None \<Rightarrow> 1
      | Some f \<Rightarrow>
          if reject_unversioned (vf_version f) (vf_leaf_version f) \<noteq> None then 4
          else case pinned of
              None \<Rightarrow> 3
            | Some key \<Rightarrow> (case events_to_rows x now (vf_events f) of
                None \<Rightarrow> 2
              | Some rows \<Rightarrow> if verify_checks x f (trim key) rows = [] then 0 else 2))"

definition original_ok :: "ext \<Rightarrow> VerifierFile \<Rightarrow> byte list option \<Rightarrow> bool" where
  "original_ok x f original =
     (case find (\<lambda>e. el_event_id e = vf_head_event_id f) (vf_events f) of
        None \<Rightarrow> False
      | Some e \<Rightarrow> (case original of None \<Rightarrow> False | Some bytes \<Rightarrow> sha_hex x bytes = el_file_hash e))"

section \<open>Lemmas\<close>

lemma read_all_map: "(\<And>a. a \<in> set as \<Longrightarrow> f (g a) = Some (h a)) \<Longrightarrow> read_all f (map g as) = Some (map h as)"
  by (induction as) auto

lemma read_all_length: "read_all f as = Some bs \<Longrightarrow> length bs = length as"
  by (induction as arbitrary: bs) (auto simp: Option.bind_eq_Some_conv)

lemma i64_bounds [simp]: "- 9223372036854775808 \<le> sint (n :: i64)" "sint (n :: i64) < 9223372036854775808"
  using sint_ge [of n] sint_lt [of n] by (simp_all only: len_num1 len_bit0 len_bit1) auto

text \<open>What the service lists as an event reads back as its leaf, and its ids as the row.\<close>

definition leaf_of :: "ext \<Rightarrow> EventRow \<Rightarrow> EventLeaf" where
  "leaf_of x e = \<lparr> el_sequence = er_sequence e, el_event_id = x_uuid_str x (er_event_id e),
     el_parent_event_id = x_uuid_str x (er_parent_event_id e), el_file_hash = er_file_hash e \<rparr>"

definition restamp :: "timestamp \<Rightarrow> EventRow \<Rightarrow> EventRow" where
  "restamp now e = e\<lparr> er_created_at := now \<rparr>"

lemma read_event_json [simp]: "read_leaf (event_json x e) = Some (leaf_of x e)"
  by (simp add: read_leaf_def need_def event_json_def leaf_of_def JUuid_def)

lemma read_events_json [simp]: "read_all read_leaf (map (event_json x) es) = Some (map (leaf_of x) es)"
  by (rule read_all_map) simp

lemma rows_of_leaves:
  assumes "uuid_ok x"
  shows "events_to_rows x now (map (leaf_of x) es) = Some (map (restamp now) es)"
  unfolding events_to_rows_def
  by (rule read_all_map) (use assms in \<open>simp add: uuid_ok_def leaf_of_def restamp_def\<close>)

lemma restamp_simps [simp]:
  "er_event_id (restamp now e) = er_event_id e" "er_parent_event_id (restamp now e) = er_parent_event_id e"
  "er_file_hash (restamp now e) = er_file_hash e" "er_sequence (restamp now e) = er_sequence e"
  "event_leaf x (restamp now e) = event_leaf x e" "event_core (restamp now e) = event_core e"
  by (simp_all add: restamp_def event_leaf_def event_core_def)

lemma restamp_root [simp]: "recompute_root_from_events x (map (restamp now) es) = recompute_root_from_events x es"
  by (simp add: recompute_root_from_events_def comp_def)

lemma restamp_shape [simp]: "chain_shape (map (restamp now) es) = chain_shape es"
  by (simp add: chain_shape_def link_ok_def list_all_iff)

section \<open>What the verifier accepts\<close>

lemma classify_valid:
  "classify_signature x key pinned c r h sig = SigValid \<longleftrightarrow>
     normalize_public_key_hex key = normalize_public_key_hex pinned \<and>
     verify_root x c r h sig (normalize_public_key_hex pinned)"
  by (simp add: classify_signature_def Let_def)

lemma verify_checks_Nil:
  assumes "sha_ok x" "hex_ok x"
  shows "verify_checks x f key rows = [] \<longleftrightarrow>
     normalize_public_key_hex (vf_public_key f) = normalize_public_key_hex key \<and>
     verify_root x (vf_chain_id f) (vf_root f) (vf_chain_head f) (vf_signature f) (normalize_public_key_hex key) \<and>
     length (vf_events f) = vf_leaves_count f \<and> vf_head_event_id f = vf_chain_head f \<and>
     chain_shape rows \<and> recompute_root_from_events x rows = vf_root f"
proof (cases "check_event_structure x rows")
  case (Inl failure)
  then have "\<not> (chain_shape rows \<and> recompute_root_from_events x rows = vf_root f)"
    using check_structure_Inr [OF assms, of rows "vf_root f"] by auto
  with Inl show ?thesis by (simp add: verify_checks_def)
next
  case (Inr root)
  then have "chain_shape rows" "root = recompute_root_from_events x rows"
    using check_structure_Inr [OF assms, of rows root] by simp_all
  with Inr show ?thesis
    unfolding classify_valid [symmetric] conj_assoc [symmetric]
    by (simp add: verify_checks_def split: SignatureCheckResult.splits)
qed

lemma not_rejected: "reject_unversioned pv lv = None \<longleftrightarrow> is_supported pv lv"
  by (auto simp: reject_unversioned_def is_supported_def is_versioned_def proof_version_def leaf_version_def)

lemma accepted_file:
  assumes "evident_verify x parse now content pinned = 0" "sha_ok x" "hex_ok x"
  obtains body j f key rows where "content = Some body" "parse body = Some j" "read_verifier_file j = Some f"
    "is_supported (vf_version f) (vf_leaf_version f)" "pinned = Some key" "events_to_rows x now (vf_events f) = Some rows"
    "verify_root x (vf_chain_id f) (vf_root f) (vf_chain_head f) (vf_signature f) (normalize_public_key_hex (trim key))"
    "length (vf_events f) = vf_leaves_count f" "vf_head_event_id f = vf_chain_head f"
    "chain_shape rows" "recompute_root_from_events x rows = vf_root f"
proof -
  obtain f where f: "Option.bind (Option.bind content parse) read_verifier_file = Some f"
    using assms(1) by (auto simp: evident_verify_def split: option.splits)
  moreover from assms(1) f obtain key rows where "is_supported (vf_version f) (vf_leaf_version f)" "pinned = Some key"
    "events_to_rows x now (vf_events f) = Some rows" "verify_checks x f (trim key) rows = []"
    by (auto simp: evident_verify_def not_rejected split: option.splits if_splits)
  ultimately show thesis
    using that verify_checks_Nil [OF assms(2,3)] by (auto simp: Option.bind_eq_Some_conv)
qed

lemma read_usize_bound: "read_usize j = Some n \<Longrightarrow> n < 2 ^ 64"
  by (cases j rule: read_usize.cases) (auto split: if_splits simp: nat_less_iff)

lemma read_leaves_count: "read_verifier_file j = Some f \<Longrightarrow> vf_leaves_count f < 2 ^ 64"
  by (auto simp: read_verifier_file_def need_def Option.bind_eq_Some_conv dest!: read_usize_bound)

lemma accepted_rows:
  assumes "evident_verify x parse now (Some body) (Some key) = 0" "sha_ok x" "hex_ok x"
    and "Option.bind (parse body) read_verifier_file = Some f"
  shows "\<exists>rows. events_to_rows x now (vf_events f) = Some rows \<and> chain_shape rows \<and> length rows < 2 ^ 64 \<and>
     recompute_root_from_events x rows = vf_root f"
proof (rule accepted_file [OF assms(1-3)])
  fix body' j g key' rows
  assume *: "Some body = Some body'" "parse body' = Some j" "read_verifier_file j = Some g"
    "events_to_rows x now (vf_events g) = Some rows" "length (vf_events g) = vf_leaves_count g"
    "chain_shape rows" "recompute_root_from_events x rows = vf_root g"
  from *(1-3) assms(4) have "g = f" by simp
  with * read_leaves_count [OF *(3)] show ?thesis
    by (auto simp: events_to_rows_def dest: read_all_length)
qed

text \<open>What the service exports.\<close>

lemma read_exported:
  assumes "chain_events c d \<noteq> []" "length (chain_events c d) < 2 ^ 64"
  defines "es \<equiv> chain_events c d"
  shows "read_verifier_file (export_proof x s c d) = Some \<lparr> vf_leaf_version = Some leaf_version,
     vf_version = Some proof_version, vf_chain_id = x_uuid_str x c, vf_head_event_id = x_uuid_str x (er_event_id (last es)),
     vf_root = recompute_root_from_events x es, vf_chain_head = x_uuid_str x (er_event_id (last es)),
     vf_signature = sign_root x s (x_uuid_str x c) (recompute_root_from_events x es) (x_uuid_str x (er_event_id (last es))),
     vf_public_key = public_key_hex x s, vf_leaves_count = length es, vf_events = map (leaf_of x) es \<rparr>"
  using assms
  by (simp add: export_proof_def Let_def read_verifier_file_def maybe_def need_def proof_json_def JUuid_def
      leaf_version_def proof_version_def)

lemma exported_accepted:
  assumes "sha_ok x" "hex_ok x" "uuid_ok x" "ed_ok x" "signer_ok x s" "ledger_ok d"
    and "chain_events c d \<noteq> []" "parse body = Some (export_proof x s c d)" "trim key = public_key_hex x s"
  shows "evident_verify x parse now (Some body) (Some key) = 0"
proof -
  have inv: "chain_inv c d" using assms(6) by (rule ledger_okD)
  have shape: "chain_shape (chain_events c d)" by (rule chain_inv_shape [OF inv])
  have "length (chain_events c d) < 2 ^ 63" using inv by (simp add: chain_events_rows chain_inv_def)
  then have len: "length (chain_events c d) < 2 ^ 64" by simp
  have "verify_root x (x_uuid_str x c) r h (sign_root x s (x_uuid_str x c) r h) (public_key_hex x s)" for r h
    by (rule verify_sign [OF assms(2,4,5)])
  then show ?thesis
    using assms(2,7-9) shape
    by (simp add: evident_verify_def read_exported [OF assms(7) len] not_rejected is_supported_def
        rows_of_leaves [OF assms(3)] verify_checks_Nil [OF assms(1,2)])
qed

end
