(* ===== verification/EvidencePromises.thy ===== *)
theory EvidencePromises
  imports Demo Backup ProofFile
begin

text \<open>
  The promises about what leaves the service: backups and proof files.
\<close>

section \<open>Concrete inputs\<close>

definition demo_one :: db where
  "demo_one = demo_db\<lparr> chains := [\<lparr> ch_chain_id = 3, ch_head_event_id = Some 5, ch_account_id = Some 2 \<rparr>],
     events := [demo_row 5] \<rparr>"

definition demo_caps :: AccountCapabilities where
  "demo_caps = plan_capabilities (last (seed_plans 11 12 13 14))"

definition demo_yes :: "'a \<Rightarrow> bool" where
  "demo_yes a \<longleftrightarrow> True"

definition demo_fs :: filesystem where
  "demo_fs = \<lparr> fs_file = Map.empty, fs_readable = demo_yes, fs_parent = Map.empty, fs_mkdir_ok = demo_yes,
     fs_write_ok = demo_yes \<rparr>"

definition demo_dir :: local_dir where
  "demo_dir = \<lparr> ld_backups = None, ld_proofs = Map.empty, ld_mkdir_ok = True, ld_write_ok = True \<rparr>"

definition demo_snapshot :: BackupSnapshot where
  "demo_snapshot = \<lparr> bk_chain_id = 3, bk_events = [event_snapshot (demo_row 5)], bk_exported_at = 9 \<rparr>"

definition demo_enc :: "BackupSnapshot \<Rightarrow> byte list" where
  "demo_enc s = [1]"

definition demo_dec :: "byte list \<Rightarrow> string + BackupSnapshot" where
  "demo_dec b = Inr demo_snapshot"

lemma demo_one_ok: "ledger_ok demo_one"
  by (auto simp: ledger_ok_def chain_inv_def demo_one_def demo_db_def demo_row_def demo_account_def
      chain_shape_def link_ok_def to_EventRow_def last_id_def)

lemma demo_one_events: "chain_events 3 demo_one = [to_EventRow (demo_row 5)]"
  by (simp add: chain_events_def select_events_def demo_one_def demo_row_def)

lemma demo_backup:
  "\<exists>r fs' d'. create_backup demo_ext demo_enc ''b'' 9 9 77 2 3 demo_caps demo_fs demo_one = (Inr r, fs', d')"
  by (simp add: create_backup_def fetch_chain_events_def ensure_server_backup_allowed_def insert_backup_def Let_def
      demo_one_def demo_db_def demo_account_def demo_caps_def seed_plans_def plan_capabilities_def demo_fs_def
      demo_yes_def demo_row_def select_events_def)

lemma demo_export: "export_local_snapshot 9 2 3 demo_one = Inr demo_snapshot"
  by (simp add: export_local_snapshot_def fetch_chain_events_def demo_one_def demo_snapshot_def demo_row_def
      select_events_def)

section \<open>The promises\<close>

text \<open>C39: a server backup of a nonempty chain comes back.  Its owner reads the bytes of the exported snapshot, no
  other account reads them, the snapshot holds the stored events of the chain, and the command line restores it
  as the one file of the backup, unless the user declines to overwrite local data.\<close>

theorem backup_restores:
  assumes "ledger_ok d" "sha_ok x" "hex_ok x" "chain_events c d \<noteq> []"
    and "create_backup x enc root now clock fresh acc c caps fs d = (Inr r, fs', d')"
    and "fs_readable fs (backup_path x root acc fresh)"
    and "export_local_snapshot clock acc c d = Inr s" "dec (enc s) = Inr s"
    and "force \<or> scan_local_chain_state x dec parse ld c = None \<or> (\<forall>m. confirm m)"
    and "ld_mkdir_ok ld" "ld_write_ok ld"
  shows "to_event_rows s = chain_events c d \<and> read_backup_file acc fresh caps fs' d' = Inr (enc s) \<and>
     (\<forall>other caps'. other \<noteq> acc \<longrightarrow> (\<exists>e. read_backup_file other fresh caps' fs' d' = Inl e)) \<and>
     restore_snapshot_bytes x dec parse ld fresh (enc s) force confirm =
      (Inr \<lparr> rs_chain_id = c, rs_backup_id = fresh, rs_event_count = length (chain_events c d),
         rs_output_name = x_uuid_str x fresh @ ''.json'' \<rparr>,
       ld\<lparr> ld_backups := put_entry (x_uuid_str x fresh @ ''.json'') (enc s) (ld_backups ld) \<rparr>)"
proof -
  obtain es where es: "fetch_chain_events acc c d = Inr es" "read_backup_file acc fresh caps fs' d' =
      Inr (enc \<lparr> bk_chain_id = c, bk_events = es, bk_exported_at = clock \<rparr>)"
    by (rule created_backup_reads_back [OF assms(5,6)])
  from assms(7) es(1) have s: "s = \<lparr> bk_chain_id = c, bk_events = es, bk_exported_at = clock \<rparr>"
    by (simp add: export_local_snapshot_def)
  have rows: "to_event_rows s = chain_events c d"
    using es(1) by (simp add: s res_iff snapshot_rows chain_events_def)
  have len: "length (bk_events s) = length (chain_events c d)"
    unfolding rows [symmetric] by (simp add: to_event_rows_def)
  then have some: "bk_events s \<noteq> []" using assms(4) by auto
  have chain: "bk_chain_id s = c" by (simp add: s)
  have consent: "force \<or> scan_local_chain_state x dec parse ld (bk_chain_id s) = None \<or> (\<forall>m. confirm m)"
    unfolding chain by (rule assms(9))
  note restored = restore_accepts [where i = fresh, OF assms(8) exported_valid [OF assms(1-3) es(1), of clock, folded s]
      some consent assms(10,11), unfolded chain len]
  show ?thesis
  proof (intro conjI allI impI)
    show "read_backup_file acc fresh caps fs' d' = Inr (enc s)" using es(2) by (simp only: s)
  qed (rule rows restored created_backup_private [OF assms(5)], assumption?)+
qed

theorem backup_restores_witness:
  "\<exists>r fs' d'. create_backup demo_ext demo_enc ''b'' 9 9 77 2 3 demo_caps demo_fs demo_one = (Inr r, fs', d') \<and>
     read_backup_file 2 77 demo_caps fs' d' = Inr [1] \<and>
     fst (restore_snapshot_bytes demo_ext demo_dec demo_parse_json demo_dir 77 [1] False demo_yes) =
       Inr \<lparr> rs_chain_id = 3, rs_backup_id = 77, rs_event_count = 1, rs_output_name = x_uuid_str demo_ext 77 @ ''.json'' \<rparr>"
proof -
  obtain r fs' d' where b: "create_backup demo_ext demo_enc ''b'' 9 9 77 2 3 demo_caps demo_fs demo_one = (Inr r, fs', d')"
    using demo_backup by blast
  have "chain_events 3 demo_one \<noteq> []" "fs_readable demo_fs (backup_path demo_ext ''b'' 2 77)"
    "demo_dec (demo_enc demo_snapshot) = Inr demo_snapshot" "ld_mkdir_ok demo_dir" "ld_write_ok demo_dir"
    "False \<or> scan_local_chain_state demo_ext demo_dec demo_parse_json demo_dir 3 = None \<or> (\<forall>m. demo_yes m)"
    by (simp_all add: demo_one_events demo_fs_def demo_yes_def demo_dec_def demo_dir_def)
  note facts = this
  have ext: "sha_ok demo_ext" "hex_ok demo_ext" using demo_ext_ok by (simp_all add: ext_ok_def)
  have "read_backup_file 2 77 demo_caps fs' d' = Inr (demo_enc demo_snapshot) \<and>
      fst (restore_snapshot_bytes demo_ext demo_dec demo_parse_json demo_dir 77 (demo_enc demo_snapshot) False demo_yes) =
       Inr \<lparr> rs_chain_id = 3, rs_backup_id = 77, rs_event_count = length (chain_events 3 demo_one),
         rs_output_name = x_uuid_str demo_ext 77 @ ''.json'' \<rparr>"
    using backup_restores [OF demo_one_ok ext facts(1) b facts(2) demo_export facts(3,6,4,5)]
    by (simp only: fst_conv simp_thms)
  with b show ?thesis by (simp add: demo_enc_def demo_one_events)
qed

text \<open>C40: what the service exports convinces the stand-alone verifier.  The proof file of a nonempty chain is
  accepted under the server's public key, at any time; and any file accepted under that key whose root is the
  exported one lists the stored events of the chain, or the hash collides on the inputs that were hashed.\<close>

theorem exported_proof_verifies:
  assumes "ext_ok x" "signer_ok x s" "ledger_ok d" "chain_events c d \<noteq> []"
    and "parse body = Some (export_proof x s c d)" "trim key = public_key_hex x s"
  shows "evident_verify x parse now (Some body) (Some key) = 0 \<and>
     (\<forall>other now' f. evident_verify x parse now' (Some other) (Some key) = 0 \<and>
        Option.bind (parse other) read_verifier_file = Some f \<and>
        vf_root f = recompute_root_from_events x (chain_events c d) \<longrightarrow>
        (\<exists>rows. events_to_rows x now' (vf_events f) = Some rows \<and>
           (map event_core rows = map event_core (chain_events c d) \<or>
            collision x (event_inputs x rows @ event_inputs x (chain_events c d)))))"
proof (intro conjI allI impI)
  have ok: "sha_ok x" "hex_ok x" "uuid_ok x" "ed_ok x" using assms(1) by (simp_all add: ext_ok_def)
  show "evident_verify x parse now (Some body) (Some key) = 0"
    by (rule exported_accepted [where parse = parse, OF ok assms(2-6)])
  fix other now' f
  assume *: "evident_verify x parse now' (Some other) (Some key) = 0 \<and>
      Option.bind (parse other) read_verifier_file = Some f \<and>
      vf_root f = recompute_root_from_events x (chain_events c d)"
  then obtain rows where rows: "events_to_rows x now' (vf_events f) = Some rows" "chain_shape rows"
    "length rows < 2 ^ 64" "recompute_root_from_events x rows = vf_root f"
    using accepted_rows [OF _ ok(1,2)] by blast
  have "chain_inv c d" using assms(3) by (rule ledger_okD)
  then have "chain_shape (chain_events c d)" "length (chain_events c d) < 2 ^ 64"
    using chain_inv_shape [of c d] by (simp_all add: chain_events_rows chain_inv_def)
  then show "\<exists>rows. events_to_rows x now' (vf_events f) = Some rows \<and>
      (map event_core rows = map event_core (chain_events c d) \<or>
       collision x (event_inputs x rows @ event_inputs x (chain_events c d)))"
    using structure_binding [OF ok(1-3) rows(2) _ rows(3), of "chain_events c d"] rows(1,4) * by metis
qed

theorem exported_proof_verifies_witness:
  "evident_verify demo_ext (\<lambda>_. Some (export_proof demo_ext demo_signer 3 demo_after)) 9 (Some [])
     (Some (public_key_hex demo_ext demo_signer)) = 0"
proof -
  have "trim (public_key_hex demo_ext demo_signer) = public_key_hex demo_ext demo_signer"
    using demo_hex_ok by (simp add: public_key_hex_def hex_ok_def trim_hex)
  moreover have "ledger_ok demo_after" using demo_after_ok by (simp add: service_ok_def)
  ultimately show ?thesis
    using exported_proof_verifies [where parse = "\<lambda>_ :: string. Some (export_proof demo_ext demo_signer 3 demo_after)",
        OF demo_ext_ok demo_signer_ok _ demo_after_chain HOL.refl] by blast
qed

end
