(* ===== verification/Attestation.thy ===== *)
theory Attestation
  imports LedgerInv Signing
begin

text \<open>
  Attestations: \<open>src/sac.rs\<close>, \<open>src/service/attestation.rs\<close>, \<open>src/hash_attestation.rs\<close> and the
  unauthenticated endpoints of \<open>src/api/verify.rs\<close>.  The PDF renderings are left out.
\<close>

section \<open>Documents\<close>

datatype SacTarget = SacChainId string | SacDocumentHash string

record SacChainState =
  sc_chain_id :: string
  sc_merkle_root :: string
  sc_head_event_id :: string
  sc_last_event_timestamp :: string

datatype SacTsaStatus = SacPresent | SacMissing

record SacTsaSnapshot =
  st_status :: SacTsaStatus
  st_provider :: "string option"
  st_timestamp :: "i64 option"
  st_serial :: "string option"

datatype SacVerificationStatus = SacVerified | SacNotFound | SacFailed

record SacVerification =
  sv_status :: SacVerificationStatus
  sv_signature :: "string option"
  sv_public_key_fingerprint :: "string option"
  sv_errors :: "string list"

record SacExclusions =
  sx_content_not_verified :: bool
  sx_authorship_not_verified :: bool
  sx_future_chain_state_not_guaranteed :: bool

definition default_exclusions :: SacExclusions where
  "default_exclusions = \<lparr> sx_content_not_verified = True, sx_authorship_not_verified = True,
     sx_future_chain_state_not_guaranteed = True \<rparr>"

record SacDocument =
  sac_version :: string
  sac_issued_at :: string
  sac_target :: SacTarget
  sac_state :: "SacChainState option"
  sac_tsa :: "SacTsaSnapshot option"
  sac_verification :: SacVerification
  sac_exclusions :: SacExclusions

section \<open>One chain\<close>

text \<open>\<open>None\<close> is the panic of \<open>expect("non-empty chain must have head")\<close>.  \<open>now\<close> is the clock.\<close>

definition tsa_snapshot :: "tsa_row option \<Rightarrow> SacTsaSnapshot" where
  "tsa_snapshot r = (case r of
     Some t \<Rightarrow> \<lparr> st_status = SacPresent, st_provider = Some ''freetsa.org/tsr'', st_timestamp = Some (t_tsa_timestamp t),
       st_serial = Some (t_tsa_serial t) \<rparr>
   | None \<Rightarrow> \<lparr> st_status = SacMissing, st_provider = None, st_timestamp = None, st_serial = None \<rparr>)"

definition build_attestation ::
  "ext \<Rightarrow> (timestamp \<Rightarrow> string) \<Rightarrow> timestamp \<Rightarrow> ServerSigner \<Rightarrow> uuid \<Rightarrow> db \<Rightarrow> SacDocument option" where
  "build_attestation x show_time now signer chain_id d =
     (let report = verify_chain_hardened x show_time chain_id d in
      if vr_blocks report = 0 then
        Some \<lparr> sac_version = ''1.0'', sac_issued_at = x_rfc3339 x now, sac_target = SacChainId (x_uuid_str x chain_id),
          sac_state = None, sac_tsa = None,
          sac_verification = \<lparr> sv_status = SacNotFound, sv_signature = None, sv_public_key_fingerprint = None,
            sv_errors = vr_errors report \<rparr>,
          sac_exclusions = default_exclusions \<rparr>
      else case vr_head_event_id report of
          None \<Rightarrow> None
        | Some head_event_id \<Rightarrow>
            let merkle_root = vr_merkle_recomputed report;
                signature = sign_root x signer (x_uuid_str x chain_id) merkle_root (x_uuid_str x head_event_id);
                public_key_fingerprint = public_key_hex x signer;
                tsa = Some (tsa_snapshot (find (\<lambda>t. t_chain_id t = chain_id \<and> t_merkle_root t = merkle_root) (tsa_tokens d)));
                last_event_timestamp = (case vr_last_event_created_at report of None \<Rightarrow> [] | Some t \<Rightarrow> x_rfc3339 x t)
            in Some \<lparr> sac_version = ''1.0'', sac_issued_at = x_rfc3339 x now,
                 sac_target = SacChainId (x_uuid_str x chain_id),
                 sac_state = Some \<lparr> sc_chain_id = x_uuid_str x chain_id, sc_merkle_root = merkle_root,
                   sc_head_event_id = x_uuid_str x head_event_id, sc_last_event_timestamp = last_event_timestamp \<rparr>,
                 sac_tsa = tsa,
                 sac_verification = \<lparr> sv_status = (if vr_valid report then SacVerified else SacFailed),
                   sv_signature = (if vr_valid report then Some signature else None),
                   sv_public_key_fingerprint = (if vr_valid report then Some public_key_fingerprint else None),
                   sv_errors = vr_errors report \<rparr>,
                 sac_exclusions = default_exclusions \<rparr>)"

section \<open>All chains that hold a hash\<close>

record HashMatchEntry =
  hm_chain_id :: string
  hm_event_id :: string
  hm_timestamp :: string
  hm_merkle_root :: "string option"
  hm_head_event_id :: "string option"
  hm_verification_status :: string
  hm_tsa_status :: string

record HashAttestationDocument =
  ha_format_version :: string
  ha_request_id :: string
  ha_issued_at :: string
  ha_hash :: string
  ha_resolution_status :: string
  ha_count :: nat
  ha_matches :: "HashMatchEntry list"

fun verification_status_label :: "SacVerificationStatus \<Rightarrow> string" where
  "verification_status_label SacVerified = ''VERIFIED''"
| "verification_status_label SacFailed = ''FAILED''"
| "verification_status_label SacNotFound = ''NOT FOUND''"

definition tsa_status_label :: "SacTsaSnapshot option \<Rightarrow> string" where
  "tsa_status_label tsa = (case tsa of Some t \<Rightarrow> if st_status t = SacPresent then ''PRESENT'' else ''MISSING'' | None \<Rightarrow> ''MISSING'')"

definition match_entry :: "ext \<Rightarrow> event_row \<Rightarrow> SacDocument \<Rightarrow> HashMatchEntry" where
  "match_entry x raw doc =
     \<lparr> hm_chain_id = x_uuid_str x (e_chain_id raw), hm_event_id = x_uuid_str x (e_event_id raw),
       hm_timestamp = x_rfc3339 x (e_created_at raw),
       hm_merkle_root = map_option sc_merkle_root (sac_state doc),
       hm_head_event_id = map_option sc_head_event_id (sac_state doc),
       hm_verification_status = verification_status_label (sv_status (sac_verification doc)),
       hm_tsa_status = tsa_status_label (sac_tsa doc) \<rparr>"

text \<open>The loop over the rows with its cache; \<open>build\<close> is \<open>build_attestation\<close> on the pool.\<close>

fun hash_matches ::
  "ext \<Rightarrow> (uuid \<Rightarrow> SacDocument option) \<Rightarrow> event_row list \<Rightarrow> (uuid \<rightharpoonup> SacDocument) \<Rightarrow> HashMatchEntry list option" where
  "hash_matches x build [] cache = Some []"
| "hash_matches x build (raw # raws) cache =
     (case cache (e_chain_id raw) of
        Some doc \<Rightarrow> map_option (Cons (match_entry x raw doc)) (hash_matches x build raws cache)
      | None \<Rightarrow> (case build (e_chain_id raw) of
          None \<Rightarrow> None
        | Some doc \<Rightarrow> map_option (Cons (match_entry x raw doc)) (hash_matches x build raws (cache(e_chain_id raw \<mapsto> doc)))))"

definition build_hash_attestation ::
  "ext \<Rightarrow> (timestamp \<Rightarrow> string) \<Rightarrow> timestamp \<Rightarrow> uuid \<Rightarrow> ServerSigner \<Rightarrow> string \<Rightarrow> db \<Rightarrow> HashAttestationDocument option" where
  "build_hash_attestation x show_time now request_id signer hash d =
     (let rows = sort_key e_created_at (filter (\<lambda>e. e_file_hash e = hash) (events d)) in
      case hash_matches x (\<lambda>c. build_attestation x show_time now signer c d) rows Map.empty of
        None \<Rightarrow> None
      | Some matches \<Rightarrow>
          let count = length matches
          in Some \<lparr> ha_format_version = ''1.0'', ha_request_id = x_uuid_str x request_id, ha_issued_at = x_rfc3339 x now,
               ha_hash = hash, ha_resolution_status = (if count > 0 then ''FOUND'' else ''NO_MATCH_FOUND''),
               ha_count = count, ha_matches = matches \<rparr>)"

section \<open>Endpoints\<close>

fun sac_target_json :: "SacTarget \<Rightarrow> json" where
  "sac_target_json (SacChainId c) = JObject [(''chain_id'', JString c)]"
| "sac_target_json (SacDocumentHash h) = JObject [(''document_hash'', JString h)]"

definition sac_state_json :: "SacChainState \<Rightarrow> json" where
  "sac_state_json s = JObject [(''chain_id'', JString (sc_chain_id s)), (''merkle_root'', JString (sc_merkle_root s)),
     (''head_event_id'', JString (sc_head_event_id s)), (''last_event_timestamp'', JString (sc_last_event_timestamp s))]"

definition sac_tsa_json :: "SacTsaSnapshot \<Rightarrow> json" where
  "sac_tsa_json t = JObject [(''status'', JString (case st_status t of SacPresent \<Rightarrow> ''present'' | SacMissing \<Rightarrow> ''missing'')),
     (''provider'', JOpt JString (st_provider t)), (''timestamp'', JOpt (\<lambda>n. JNumber (sint n)) (st_timestamp t)),
     (''serial'', JOpt JString (st_serial t))]"

fun sac_status_str :: "SacVerificationStatus \<Rightarrow> string" where
  "sac_status_str SacVerified = ''verified''"
| "sac_status_str SacNotFound = ''not_found''"
| "sac_status_str SacFailed = ''failed''"

definition sac_verification_json :: "SacVerification \<Rightarrow> json" where
  "sac_verification_json v = JObject [(''status'', JString (sac_status_str (sv_status v))),
     (''signature'', JOpt JString (sv_signature v)),
     (''public_key_fingerprint'', JOpt JString (sv_public_key_fingerprint v)),
     (''errors'', JArray (map JString (sv_errors v)))]"

definition sac_exclusions_json :: "SacExclusions \<Rightarrow> json" where
  "sac_exclusions_json e = JObject [(''content_not_verified'', JBool (sx_content_not_verified e)),
     (''authorship_not_verified'', JBool (sx_authorship_not_verified e)),
     (''future_chain_state_not_guaranteed'', JBool (sx_future_chain_state_not_guaranteed e))]"

definition sac_json :: "SacDocument \<Rightarrow> json" where
  "sac_json s = JObject [(''version'', JString (sac_version s)), (''issued_at'', JString (sac_issued_at s)),
     (''target'', sac_target_json (sac_target s)), (''state'', JOpt sac_state_json (sac_state s)),
     (''tsa'', JOpt sac_tsa_json (sac_tsa s)), (''verification'', sac_verification_json (sac_verification s)),
     (''exclusions'', sac_exclusions_json (sac_exclusions s))]"

definition legacy_verify_handler :: "ext \<Rightarrow> ServerSigner \<Rightarrow> uuid \<Rightarrow> db \<Rightarrow> json" where
  "legacy_verify_handler x signer chain_id d = verify_chain x signer chain_id d"

definition legacy_proof_handler :: "ext \<Rightarrow> ServerSigner \<Rightarrow> uuid \<Rightarrow> db \<Rightarrow> json" where
  "legacy_proof_handler x signer chain_id d = export_proof x signer chain_id d"

definition legacy_attestation_handler ::
  "ext \<Rightarrow> (timestamp \<Rightarrow> string) \<Rightarrow> timestamp \<Rightarrow> ServerSigner \<Rightarrow> uuid \<Rightarrow> db \<Rightarrow> json option" where
  "legacy_attestation_handler x show_time now signer chain_id d =
     map_option sac_json (build_attestation x show_time now signer chain_id d)"

definition deprecated_hash_lookup_response :: "ext \<Rightarrow> uuid \<Rightarrow> nat \<times> json" where
  "deprecated_hash_lookup_response x request_id = (410, JObject [(''error'', JObject
     [(''code'', JString ''endpoint_deprecated''),
      (''message'', JString ''This endpoint is no longer available. Use /public/verify for existence checks.''),
      (''request_id'', JUuid x request_id)])])"

section \<open>Lemmas\<close>

lemma hardened_nonempty:
  assumes "sha_ok x" "hex_ok x" "chain_events c d \<noteq> []"
  shows "vr_valid (verify_chain_hardened x f c d) \<longleftrightarrow> chain_shape (chain_events c d)"
    "vr_blocks (verify_chain_hardened x f c d) = length (chain_events c d)"
    "vr_head_event_id (verify_chain_hardened x f c d) = Some (er_event_id (last (chain_events c d)))"
    "vr_merkle_recomputed (verify_chain_hardened x f c d) = recompute_root_from_events x (chain_events c d)"
    "vr_last_event_created_at (verify_chain_hardened x f c d) = Some (er_created_at (last (chain_events c d)))"
    "vr_errors (verify_chain_hardened x f c d) = structural_errors x (chain_events c d)"
  using assms(3) structural_errors_Nil [OF assms(1,2), of "chain_events c d"]
    check_structure_Inr [OF assms(1,2), of "chain_events c d"]
  by (auto simp: verify_chain_hardened_def Let_def split: sum.split)

lemma attestation_empty:
  assumes "chain_events c d = []"
  shows "build_attestation x f now s c d =
     Some \<lparr> sac_version = ''1.0'', sac_issued_at = x_rfc3339 x now, sac_target = SacChainId (x_uuid_str x c),
       sac_state = None, sac_tsa = None,
       sac_verification = \<lparr> sv_status = SacNotFound, sv_signature = None, sv_public_key_fingerprint = None,
         sv_errors = [''Chain is empty''] \<rparr>,
       sac_exclusions = default_exclusions \<rparr>"
  using assms by (simp add: build_attestation_def verify_chain_hardened_def)

lemma attestation_nonempty:
  assumes "sha_ok x" "hex_ok x" "chain_events c d \<noteq> []"
  defines "es \<equiv> chain_events c d"
  defines "root \<equiv> recompute_root_from_events x es" and "head \<equiv> x_uuid_str x (er_event_id (last es))"
  shows "build_attestation x f now s c d =
     Some \<lparr> sac_version = ''1.0'', sac_issued_at = x_rfc3339 x now, sac_target = SacChainId (x_uuid_str x c),
       sac_state = Some \<lparr> sc_chain_id = x_uuid_str x c, sc_merkle_root = root, sc_head_event_id = head,
         sc_last_event_timestamp = x_rfc3339 x (er_created_at (last es)) \<rparr>,
       sac_tsa = Some (tsa_snapshot (find (\<lambda>t. t_chain_id t = c \<and> t_merkle_root t = root) (tsa_tokens d))),
       sac_verification = \<lparr> sv_status = (if chain_shape es then SacVerified else SacFailed),
         sv_signature = (if chain_shape es then Some (sign_root x s (x_uuid_str x c) root head) else None),
         sv_public_key_fingerprint = (if chain_shape es then Some (public_key_hex x s) else None),
         sv_errors = structural_errors x es \<rparr>,
       sac_exclusions = default_exclusions \<rparr>"
  using assms by (simp add: build_attestation_def hardened_nonempty Let_def)

text \<open>An attestation is always built, and it is the same for the same tables but for its date.\<close>

lemma attestation_total:
  assumes "sha_ok x" "hex_ok x"
  shows "\<exists>doc. build_attestation x f now s c d = Some doc"
  by (cases "chain_events c d = []") (simp_all add: attestation_empty attestation_nonempty [OF assms])

text \<open>On a ledger that keeps its invariant an attestation is not-found for an empty chain and verified otherwise,
  never failed; its signature is the server's and verifies.\<close>

lemma stored_chain_attested:
  assumes "ext_ok x" "signer_ok x s" "ledger_ok d" "build_attestation x f now s c d = Some doc"
  shows "sv_status (sac_verification doc) = (if chain_events c d = [] then SacNotFound else SacVerified)"
    and "chain_events c d \<noteq> [] \<Longrightarrow> sac_state doc = Some st \<Longrightarrow> sv_signature (sac_verification doc) = Some sig \<Longrightarrow>
      verify_root x (sc_chain_id st) (sc_merkle_root st) (sc_head_event_id st) sig (public_key_hex x s)"
proof -
  have ok: "sha_ok x" "hex_ok x" "ed_ok x" using assms(1) by (simp_all add: ext_ok_def)
  have shape: "chain_shape (chain_events c d)" by (rule chain_inv_shape [OF ledger_okD [OF assms(3)]])
  show "sv_status (sac_verification doc) = (if chain_events c d = [] then SacNotFound else SacVerified)"
    using assms(4) shape
    by (cases "chain_events c d = []") (auto simp: attestation_empty attestation_nonempty [OF ok(1,2)])
  show "verify_root x (sc_chain_id st) (sc_merkle_root st) (sc_head_event_id st) sig (public_key_hex x s)"
    if "chain_events c d \<noteq> []" "sac_state doc = Some st" "sv_signature (sac_verification doc) = Some sig"
    using assms(4) shape that verify_sign [OF ok(2,3) assms(2)]
    by (auto simp: attestation_nonempty [OF ok(1,2)])
qed

text \<open>The cache changes nothing: each row gets the attestation of its chain.\<close>

lemma hash_matches_uncached:
  assumes "build = (\<lambda>c. Some (doc c))" "\<And>c s. cache c = Some s \<Longrightarrow> s = doc c"
  shows "hash_matches x build raws cache = Some (map (\<lambda>raw. match_entry x raw (doc (e_chain_id raw))) raws)"
  using assms(2) unfolding assms(1)
proof (induction raws arbitrary: cache)
  case (Cons raw raws)
  have "hash_matches x (\<lambda>c. Some (doc c)) raws (cache(e_chain_id raw \<mapsto> doc (e_chain_id raw))) =
      Some (map (\<lambda>raw. match_entry x raw (doc (e_chain_id raw))) raws)"
    by (rule Cons.IH) (auto dest: Cons.prems split: if_splits)
  moreover have "hash_matches x (\<lambda>c. Some (doc c)) raws cache = Some (map (\<lambda>raw. match_entry x raw (doc (e_chain_id raw))) raws)"
    by (rule Cons.IH) (rule Cons.prems)
  ultimately show ?case using Cons.prems by (auto split: option.split)
qed simp

lemma sort_key_Nil [simp]: "sort_key f xs = [] \<longleftrightarrow> xs = []"
  by (metis set_empty set_sort)

lemma hash_attestation_lists_events:
  assumes "sha_ok x" "hex_ok x"
  obtains h where "build_hash_attestation x f now rid s hash d = Some h"
    "map hm_event_id (ha_matches h) =
       map (\<lambda>e. x_uuid_str x (e_event_id e)) (sort_key e_created_at (filter (\<lambda>e. e_file_hash e = hash) (events d)))"
    "ha_count h = length (filter (\<lambda>e. e_file_hash e = hash) (events d))"
    "ha_resolution_status h = (if \<exists>e\<in>set (events d). e_file_hash e = hash then ''FOUND'' else ''NO_MATCH_FOUND'')"
proof -
  define doc where "doc c = the (build_attestation x f now s c d)" for c
  have doc: "(\<lambda>c. build_attestation x f now s c d) = (\<lambda>c. Some (doc c))"
    using attestation_total [OF assms, of f now s _ d] by (auto simp: doc_def)
  have m: "hash_matches x (\<lambda>c. Some (doc c)) raws Map.empty = Some (map (\<lambda>raw. match_entry x raw (doc (e_chain_id raw))) raws)"
    for raws by (rule hash_matches_uncached) simp_all
  obtain h where h: "build_hash_attestation x f now rid s hash d = Some h" "ha_matches h =
      map (\<lambda>raw. match_entry x raw (doc (e_chain_id raw)))
        (sort_key e_created_at (filter (\<lambda>e. e_file_hash e = hash) (events d)))"
    "ha_count h = length (ha_matches h)"
    "ha_resolution_status h = (if ha_count h > 0 then ''FOUND'' else ''NO_MATCH_FOUND'')"
    by (simp add: build_hash_attestation_def doc m Let_def)
  show thesis
    by (rule that [OF h(1)]) (auto simp: h match_entry_def filter_empty_conv)
qed

end
