(* ===== verification/PublicVerify.thy ===== *)
theory PublicVerify
  imports RateLimiter PublicProof ReadApi
begin

text \<open>
  The public verification endpoints: \<open>src/api/public_verify.rs\<close>, \<open>src/public_verify_validation.rs\<close> and the
  events of \<open>src/public_verification_audit.rs\<close>.  Both run behind the rate limit of
  \<open>RateLimiter\<close>, which hands them the request's metadata.  The rendering of the certificate
  is a parameter.
\<close>

section \<open>Model\<close>

record PublicRequestMetadata =
  pm_client_ip_hash :: "string option"
  pm_rate_limit_action :: PublicVerificationRateLimitAction

record PublicVerifyResponse =
  pr_exists :: bool
  pr_public_proof_id :: "string option"
  pr_timestamp :: "string option"
  pr_tsa_class :: "string option"
  pr_integrity :: "string option"

definition validate_public_file_hash :: "string option \<Rightarrow> unit + string" where
  "validate_public_file_hash raw =
     bind_res (normalize_query_file_hash raw) (\<lambda>opt. ok_or () opt)"

definition invalid_request_response :: "ext \<Rightarrow> uuid \<Rightarrow> nat \<times> json" where
  "invalid_request_response x request_id = (400, JObject [(''error'', JObject
     [(''code'', JString ''invalid_request''), (''message'', JString ''Invalid request''),
      (''request_id'', JUuid x request_id)])])"

definition lookup_public_registry_entry :: "string \<Rightarrow> db \<Rightarrow> registry_row option" where
  "lookup_public_registry_entry file_hash d =
     find (\<lambda>r. r_file_hash r = file_hash \<and> r_enabled r) (public_proof_registry d)"

definition lookup_public_registry_by_id :: "string \<Rightarrow> db \<Rightarrow> registry_row option" where
  "lookup_public_registry_by_id public_proof_id d =
     find (\<lambda>r. r_public_proof_id r = public_proof_id \<and> r_enabled r) (public_proof_registry d)"

definition response_from_entry :: "ext \<Rightarrow> registry_row option \<Rightarrow> PublicVerifyResponse" where
  "response_from_entry x entry = (case entry of
     Some row \<Rightarrow> \<lparr> pr_exists = True, pr_public_proof_id = Some (r_public_proof_id row),
       pr_timestamp = Some (x_rfc3339 x (r_registered_at row)), pr_tsa_class = Some (r_tsa_class row),
       pr_integrity = Some (r_integrity_state row) \<rparr>
   | None \<Rightarrow> \<lparr> pr_exists = False, pr_public_proof_id = None, pr_timestamp = None, pr_tsa_class = None,
       pr_integrity = None \<rparr>)"

definition public_verify_json :: "PublicVerifyResponse \<Rightarrow> json" where
  "public_verify_json r = JObject [(''exists'', JBool (pr_exists r)),
     (''public_proof_id'', JOpt JString (pr_public_proof_id r)), (''timestamp'', JOpt JString (pr_timestamp r)),
     (''tsa_class'', JOpt JString (pr_tsa_class r)), (''integrity'', JOpt JString (pr_integrity r))]"

text \<open>The audit entries a handler writes, none without metadata.  \<open>utc\<close> is the clock.\<close>

definition audit_event ::
  "timestamp \<Rightarrow> PublicVerificationRequestType \<Rightarrow> PublicRequestMetadata option \<Rightarrow> uuid \<Rightarrow> PublicVerificationOutcome
    \<Rightarrow> PublicVerificationAuditEvent list" where
  "audit_event utc ty metadata request_id outcome = (case metadata of
     None \<Rightarrow> []
   | Some m \<Rightarrow> [\<lparr> pa_timestamp = utc, pa_request_type = ty, pa_outcome = outcome,
       pa_rate_limit_action = pm_rate_limit_action m, pa_request_id = request_id,
       pa_client_ip_hash = pm_client_ip_hash m \<rparr>])"

definition verify_by_hash ::
  "ext \<Rightarrow> timestamp \<Rightarrow> uuid \<Rightarrow> string option \<Rightarrow> PublicRequestMetadata option \<Rightarrow> db
    \<Rightarrow> (nat \<times> json) \<times> PublicVerificationAuditEvent list" where
  "verify_by_hash x utc request_id raw_hash metadata d =
     (case validate_public_file_hash raw_hash of
        Inl _ \<Rightarrow> (invalid_request_response x request_id, audit_event utc PvVerify metadata request_id PvInvalidRequest)
      | Inr normalized \<Rightarrow>
          let entry = lookup_public_registry_entry normalized d;
              outcome = (if entry \<noteq> None then PvSuccess else PvNotFound)
          in ((200, public_verify_json (response_from_entry x entry)), audit_event utc PvVerify metadata request_id outcome))"

text \<open>The same path with a lookup handed in, which also counts its calls.\<close>

definition verify_by_hash_with_lookup ::
  "ext \<Rightarrow> timestamp \<Rightarrow> uuid \<Rightarrow> string option \<Rightarrow> (string \<Rightarrow> registry_row option) \<Rightarrow> PublicRequestMetadata option
    \<Rightarrow> (nat \<times> json) \<times> u32 \<times> PublicVerificationAuditEvent list" where
  "verify_by_hash_with_lookup x utc request_id raw_hash lookup metadata =
     (case validate_public_file_hash raw_hash of
        Inl _ \<Rightarrow> (invalid_request_response x request_id, 0, audit_event utc PvVerify metadata request_id PvInvalidRequest)
      | Inr normalized \<Rightarrow>
          let entry = lookup normalized;
              outcome = (if entry \<noteq> None then PvSuccess else PvNotFound)
          in ((200, public_verify_json (response_from_entry x entry)), 1, audit_event utc PvVerify metadata request_id outcome))"

text \<open>The slice \<open>&id[3..11.min(len)]\<close>; \<open>None\<close> is its panic.  Registered identifiers are ASCII, so a character is a byte.\<close>

definition certificate_filename :: "string \<Rightarrow> string option" where
  "certificate_filename i =
     (if 3 \<le> min 11 (length i)
      then Some (''public-certificate-'' @ take (min 11 (length i) - 3) (drop 3 i) @ ''.pdf'') else None)"

datatype certificate_answer =
    CertificateJson nat json
  | CertificatePdf string "byte list"
  | CertificatePanic

definition public_certificate_pdf_handler ::
  "ext \<Rightarrow> (registry_row \<Rightarrow> byte list) \<Rightarrow> timestamp \<Rightarrow> uuid \<Rightarrow> string \<Rightarrow> PublicRequestMetadata option \<Rightarrow> db
    \<Rightarrow> certificate_answer \<times> PublicVerificationAuditEvent list" where
  "public_certificate_pdf_handler x render utc request_id public_proof_id metadata d =
     (if \<not> validate_public_proof_id x public_proof_id
      then (case_prod CertificateJson (invalid_request_response x request_id),
            audit_event utc PvCertificatePdf metadata request_id PvInvalidRequest)
      else case lookup_public_registry_by_id public_proof_id d of
          None \<Rightarrow> (CertificateJson 404 (JObject [(''error'', JString ''not_found'')]),
            audit_event utc PvCertificatePdf metadata request_id PvNotFound)
        | Some entry \<Rightarrow>
            ((case certificate_filename (r_public_proof_id entry) of
                None \<Rightarrow> CertificatePanic | Some name \<Rightarrow> CertificatePdf name (render entry)),
             audit_event utc PvCertificatePdf metadata request_id PvSuccess))"

text \<open>\<open>GET /public/verify\<close> as the router mounts it: the limit first, then the handler with the metadata the
  limit puts into the request.\<close>

definition public_verify_route ::
  "ext \<Rightarrow> ('ip \<Rightarrow> string) \<Rightarrow> (string \<Rightarrow> 'ip option) \<Rightarrow> (byte list list \<Rightarrow> byte list list) \<Rightarrow> u64 \<times> instant
    \<Rightarrow> timestamp \<Rightarrow> uuid \<Rightarrow> 'ip \<Rightarrow> bool \<times> bool \<Rightarrow> headers \<Rightarrow> string option \<Rightarrow> instant \<Rightarrow> entries \<Rightarrow> db
    \<Rightarrow> (nat \<times> json) \<times> entries \<times> PublicVerificationAuditEvent list" where
  "public_verify_route x ip_str ip_parse order clock utc request_id peer flags h raw_hash now es d =
     (case public_rate_limit_middleware x ip_str ip_parse order clock utc request_id peer
          (verify_middleware (fst flags) (snd flags)) h now es of
        (Blocked status _ body, es', audit) \<Rightarrow> ((status, body), es', audit)
      | (Pass ip_hash _ _ _, es', audit) \<Rightarrow>
          (case verify_by_hash x utc request_id raw_hash
              (Some \<lparr> pm_client_ip_hash = ip_hash, pm_rate_limit_action = PvAllowed \<rparr>) d of
             (answer, audit') \<Rightarrow> (answer, es', audit @ audit')))"

section \<open>Lemmas\<close>

lemma validate_public_hash_Inr [res_iff]:
  "validate_public_file_hash raw = Inr h \<longleftrightarrow>
     (\<exists>s. raw = Some s \<and> h = to_ascii_lowercase (trim s) \<and> length h = 64 \<and> list_all is_lower_hex h)"
  by (auto simp: validate_public_file_hash_def normalize_query_file_hash_def ok_or_def Let_def split: option.splits)

text \<open>The path with a lookup handed in is the real one.\<close>

lemma injected_lookup:
  "verify_by_hash_with_lookup x utc rid raw (\<lambda>h. lookup_public_registry_entry h d) m =
     (case verify_by_hash x utc rid raw m d of (answer, audit) \<Rightarrow>
        (answer, if fst answer = 200 then 1 else 0, audit))"
  by (auto simp: verify_by_hash_with_lookup_def verify_by_hash_def Let_def invalid_request_response_def split: sum.split)

text \<open>A malformed request does not reach the registry, and every well-formed one asks it once: the time of the
  answer does not depend on whether the hash is there.\<close>

lemma one_lookup:
  "fst (snd (verify_by_hash_with_lookup x utc rid raw lookup m)) =
     (if \<exists>h. validate_public_file_hash raw = Inr h then 1 else 0)"
  by (auto simp: verify_by_hash_with_lookup_def Let_def split: sum.split)

text \<open>The answer depends on the published row of the hash only, and so does not reveal a disabled one.\<close>

lemma public_lookup: "lookup_public_registry_entry h d = active_public_proof h d"
  by (simp add: lookup_public_registry_entry_def active_public_proof_def)

lemma verify_answer_of_registry:
  assumes "validate_public_file_hash raw = Inr h"
  shows "fst (verify_by_hash x utc rid raw m d) = (200, public_verify_json (response_from_entry x (active_public_proof h d)))"
  using assms by (simp add: verify_by_hash_def public_lookup Let_def)

lemma disabled_looks_absent:
  assumes "registry_ok d" "validate_public_file_hash raw = Inr h" "active_public_proof h d = Some r"
    and "active_public_proof h d2 = None"
  shows "fst (verify_by_hash x utc rid raw m (disable_canonical_public_proof h d)) = fst (verify_by_hash x utc rid raw m d2)"
proof -
  have h: "normalize_stored_file_hash h = h"
    using assms(2) by (auto simp: res_iff normalize_stored_file_hash_def trim_hex to_ascii_lowercase_id)
  have "active_public_proof h (disable_canonical_public_proof h d) = None"
    using disable_effect(1) [OF assms(1), of h r] assms(3) by (simp add: h)
  with assms(2,4) show ?thesis by (simp add: verify_answer_of_registry)
qed

text \<open>An audit entry never holds the hash, and its outcome is the one of the answer.\<close>

lemma verify_audit:
  "snd (verify_by_hash x utc rid raw (Some m) d) = [\<lparr> pa_timestamp = utc, pa_request_type = PvVerify,
     pa_outcome = (case validate_public_file_hash raw of Inl _ \<Rightarrow> PvInvalidRequest
       | Inr h \<Rightarrow> if active_public_proof h d = None then PvNotFound else PvSuccess),
     pa_rate_limit_action = pm_rate_limit_action m, pa_request_id = rid, pa_client_ip_hash = pm_client_ip_hash m \<rparr>]"
  by (auto simp: verify_by_hash_def audit_event_def public_lookup Let_def split: sum.split)

text \<open>Generated identifiers have a certificate name: the slice is in bounds.\<close>

lemma certificate_served:
  assumes "lookup_public_registry_by_id i d = Some r" "validate_public_proof_id x i"
  obtains name where "fst (public_certificate_pdf_handler x render utc rid i m d) = CertificatePdf name (render r)"
    "r_public_proof_id r = i" "r_enabled r" "r \<in> set (public_proof_registry d)"
proof -
  have r: "r_public_proof_id r = i" "r_enabled r" "r \<in> set (public_proof_registry d)"
    using assms(1) by (auto simp: lookup_public_registry_by_id_def dest: find_SomeD)
  have "4 \<le> length i"
    using assms(2) by (auto simp: validate_public_proof_id_def Let_def prefix_def Suc_le_eq split: if_splits)
  then obtain name where "certificate_filename i = Some name" by (simp add: certificate_filename_def)
  with assms r(1) have "fst (public_certificate_pdf_handler x render utc rid i m d) = CertificatePdf name (render r)"
    by (simp add: public_certificate_pdf_handler_def)
  then show thesis using r by (rule that)
qed

lemma no_certificate_panic: "fst (public_certificate_pdf_handler x render utc rid i m d) \<noteq> CertificatePanic"
proof (cases "validate_public_proof_id x i")
  case True
  show ?thesis
  proof (cases "lookup_public_registry_by_id i d")
    case (Some r)
    from certificate_served [OF this True] show ?thesis by (metis certificate_answer.distinct(5))
  qed (simp add: public_certificate_pdf_handler_def True)
qed (simp add: public_certificate_pdf_handler_def invalid_request_response_def)

text \<open>What one address reads through the limit is what the handler answers, or 429.\<close>

lemma public_route_answer:
  "fst (public_verify_route x ip_str ip_parse order clock utc rid peer flags h raw now es d) =
     (case public_rate_limit_middleware x ip_str ip_parse order clock utc rid peer
         (verify_middleware (fst flags) (snd flags)) h now es of
        (Blocked status _ body, _, _) \<Rightarrow> (status, body)
      | (Pass _ _ _ _, _, _) \<Rightarrow> fst (verify_by_hash x utc rid raw None d))"
  by (auto simp: public_verify_route_def verify_by_hash_def Let_def split: prod.split limit_outcome.split sum.split)

end
