(* ===== verification/Fixation.thy ===== *)
theory Fixation
  imports Backup ProofFile
begin

text \<open>
  Fixing a file from the command line: \<open>src/audit.rs\<close> (the local audit log), \<open>src/product.rs\<close>
  (\<open>fixate_file\<close>) and \<open>src/freeze.rs\<close> (frozen events).  \<open>serde\<close>'s text of an audit event is a
  parameter, as is the pretty printer; each write may fail, and then leaves the file as it was.
\<close>

section \<open>The audit log\<close>

record ChainAnchorProof =
  ca_root :: string
  ca_signature :: string
  ca_anchored_by :: string

datatype AuditEventKind =
    AuCreated
  | AuSubmitted string
  | AuAnchored uuid "ChainAnchorProof option"
  | AuFailed string

datatype EventState = StCreated | StSubmitted | StAnchored | StFailed

record AuditEvent =
  au_event_id :: uuid
  au_chain_id :: uuid
  au_file_hash :: string
  au_parent_event_id :: "uuid option"
  au_sequence :: "i64 option"
  au_created_at :: timestamp
  au_kind :: AuditEventKind

definition audit_created :: "timestamp \<Rightarrow> uuid \<Rightarrow> uuid \<Rightarrow> string \<Rightarrow> uuid option \<Rightarrow> AuditEvent" where
  "audit_created now event_id chain_id file_hash parent = \<lparr> au_event_id = event_id, au_chain_id = chain_id,
     au_file_hash = file_hash, au_parent_event_id = parent, au_sequence = None, au_created_at = now,
     au_kind = AuCreated \<rparr>"

definition audit_submitted :: "timestamp \<Rightarrow> uuid \<Rightarrow> uuid \<Rightarrow> string \<Rightarrow> uuid option \<Rightarrow> string \<Rightarrow> AuditEvent" where
  "audit_submitted now event_id chain_id file_hash parent key = \<lparr> au_event_id = event_id, au_chain_id = chain_id,
     au_file_hash = file_hash, au_parent_event_id = parent, au_sequence = None, au_created_at = now,
     au_kind = AuSubmitted key \<rparr>"

definition audit_anchored ::
  "timestamp \<Rightarrow> uuid \<Rightarrow> uuid \<Rightarrow> string \<Rightarrow> uuid option \<Rightarrow> i64 \<Rightarrow> uuid \<Rightarrow> ChainAnchorProof option \<Rightarrow> AuditEvent" where
  "audit_anchored now event_id chain_id file_hash parent sequence server_event_id proof = \<lparr> au_event_id = event_id,
     au_chain_id = chain_id, au_file_hash = file_hash, au_parent_event_id = parent, au_sequence = Some sequence,
     au_created_at = now, au_kind = AuAnchored server_event_id proof \<rparr>"

definition audit_failed :: "timestamp \<Rightarrow> uuid \<Rightarrow> uuid \<Rightarrow> string \<Rightarrow> uuid option \<Rightarrow> string \<Rightarrow> AuditEvent" where
  "audit_failed now event_id chain_id file_hash parent err = \<lparr> au_event_id = event_id, au_chain_id = chain_id,
     au_file_hash = file_hash, au_parent_event_id = parent, au_sequence = None, au_created_at = now,
     au_kind = AuFailed err \<rparr>"

definition audit_state :: "AuditEvent \<Rightarrow> EventState" where
  "audit_state e = (case au_kind e of AuCreated \<Rightarrow> StCreated | AuSubmitted _ \<Rightarrow> StSubmitted
     | AuAnchored _ _ \<Rightarrow> StAnchored | AuFailed _ \<Rightarrow> StFailed)"

text \<open>Creating the parent, opening, writing or syncing fails: \<open>ok\<close> is false, or the file system says so.\<close>

definition append_line :: "bool \<Rightarrow> string \<Rightarrow> byte list \<Rightarrow> filesystem \<Rightarrow> filesystem option" where
  "append_line ok path line fs =
     (if (case fs_parent fs path of Some parent \<Rightarrow> \<not> fs_mkdir_ok fs parent | None \<Rightarrow> False) then None
      else if \<not> ok \<or> \<not> fs_write_ok fs path then None
      else Some (fs\<lparr> fs_file := (fs_file fs)(path \<mapsto>
        (case fs_file fs path of None \<Rightarrow> [] | Some old \<Rightarrow> old) @ line @ [0x0A]) \<rparr>))"

definition audit_append :: "(AuditEvent \<Rightarrow> byte list) \<Rightarrow> bool \<Rightarrow> string \<Rightarrow> AuditEvent \<Rightarrow> filesystem \<Rightarrow> filesystem option" where
  "audit_append enc ok path e fs = append_line ok path (enc e) fs"

text \<open>\<open>BufRead::lines\<close>: each line without its end, a newline or a carriage return and a newline.\<close>

definition strip_cr :: "byte list \<Rightarrow> byte list" where
  "strip_cr line = (if line \<noteq> [] \<and> last line = 0x0D then butlast line else line)"

fun byte_lines :: "byte list \<Rightarrow> byte list \<Rightarrow> byte list list" where
  "byte_lines acc [] = (if acc = [] then [] else [acc])"
| "byte_lines acc (b # bs) = (if b = 0x0A then strip_cr acc # byte_lines [] bs else byte_lines (acc @ [b]) bs)"

text \<open>\<open>dec\<close> reads one line, \<open>None\<close> for a line that is not UTF-8 (read as the empty text) or no event.\<close>

definition audit_read_all :: "(byte list \<Rightarrow> AuditEvent option) \<Rightarrow> string \<Rightarrow> filesystem \<Rightarrow> AuditEvent list option" where
  "audit_read_all dec path fs =
     (case fs_file fs path of
        None \<Rightarrow> Some []
      | Some bytes \<Rightarrow> if fs_readable fs path then read_all dec (byte_lines [] bytes) else None)"

section \<open>Fixing a file\<close>

record FixationResult =
  fx_proof_path :: string
  fx_audit_path :: string
  fx_event_id :: string
  fx_chain_id :: string
  fx_root :: string

record FixationCommit =
  fc_event_id :: string
  fc_chain_id :: string
  fc_head_event_id :: string
  fc_proof :: ProofPayload
  fc_events :: "EventLeaf list"

definition read_fixation_commit :: "json \<Rightarrow> FixationCommit option" where
  "read_fixation_commit j =
     Option.bind (need j ''event_id'' json_str) (\<lambda>i.
     Option.bind (need j ''chain_id'' json_str) (\<lambda>c.
     Option.bind (need j ''head_event_id'' json_str) (\<lambda>h.
     Option.bind (need j ''proof'' read_payload) (\<lambda>p.
     Option.bind (need j ''events'' (read_vec read_leaf)) (\<lambda>es.
     Some \<lparr> fc_event_id = i, fc_chain_id = c, fc_head_event_id = h, fc_proof = p, fc_events = es \<rparr>)))))"

text \<open>The file it writes has no time stamp.\<close>

definition fixation_proof_json :: "FixationCommit \<Rightarrow> json" where
  "fixation_proof_json c =
     (let p = fc_proof c;
          p = (if pp_version p = None then p\<lparr> pp_version := Some proof_version \<rparr> else p);
          p = (if pp_type p = None then p\<lparr> pp_type := Some proof_type \<rparr> else p)
      in JObject [(''leaf_version'', JString leaf_version), (''chain_id'', JString (fc_chain_id c)),
           (''head_event_id'', JString (fc_head_event_id c)), (''proof'', payload_json p),
           (''events'', JArray (map leaf_json (fc_events c)))])"

datatype fixation_error =
    FileUnreadable
  | InvalidChainId
  | AuditIo
  | LedgerUnreachable
  | AnswerUnreadable
  | LedgerRefused string
  | InvalidAnswer
  | ProofIo
  | EventNotInCommit
  | InvalidServerEventId

text \<open>\<open>Path::join\<close>: an absolute second path replaces the first.\<close>

definition join_path :: "string \<Rightarrow> string \<Rightarrow> string" where
  "join_path p q = (if prefix ''/'' q then q else path_join p q)"

text \<open>\<open>fs::create_dir_all\<close> and \<open>fs::write\<close>.\<close>

definition write_file :: "bool \<Rightarrow> string \<Rightarrow> byte list \<Rightarrow> filesystem \<Rightarrow> filesystem option" where
  "write_file ok path bytes fs =
     (if (case fs_parent fs path of Some parent \<Rightarrow> \<not> fs_mkdir_ok fs parent | None \<Rightarrow> False) then None
      else if \<not> ok \<or> \<not> fs_write_ok fs path then None
      else Some (fs\<lparr> fs_file := (fs_file fs)(path \<mapsto> bytes) \<rparr>))"

record fix_env =
  fe_parse :: "string \<Rightarrow> json option"
  fe_pretty :: "json \<Rightarrow> byte list"
  fe_enc :: "AuditEvent \<Rightarrow> byte list"
  fe_show_status :: "nat \<Rightarrow> string"
  fe_clock :: "nat \<Rightarrow> timestamp"
  fe_ok :: "nat \<Rightarrow> bool"
  fe_home :: string
  fe_event_id :: uuid
  fe_key :: uuid
  fe_anchor_id :: uuid
  fe_reply :: http_reply

definition fixation_audit_path :: "fix_env \<Rightarrow> string option \<Rightarrow> string" where
  "fixation_audit_path v audit_path = (case audit_path of Some p \<Rightarrow> p
     | None \<Rightarrow> join_path (join_path (fe_home v) ''.evident'') ''audit.jsonl'')"

definition fixation_proof_path :: "FixationCommit \<Rightarrow> string" where
  "fixation_proof_path c = join_path (join_path ''proofs'' (fc_chain_id c)) (fc_event_id c @ ''.json'')"

text \<open>What follows an accepted submission: the proof file, then the last audit event.\<close>

definition fixate_accepted ::
  "ext \<Rightarrow> fix_env \<Rightarrow> string \<Rightarrow> uuid \<Rightarrow> string \<Rightarrow> FixationCommit \<Rightarrow> filesystem \<Rightarrow> (fixation_error + FixationResult) \<times> filesystem" where
  "fixate_accepted x v audit chain_uuid file_hash commit fs =
     (let submitted = audit_submitted (fe_clock v 1) (fe_event_id v) chain_uuid file_hash None (x_uuid_str x (fe_key v)) in
      case audit_append (fe_enc v) (fe_ok v 1) audit submitted fs of None \<Rightarrow> (Inl AuditIo, fs) | Some fs2 \<Rightarrow>
      (let proof_path = fixation_proof_path commit in
       case write_file (fe_ok v 2) proof_path (fe_pretty v (fixation_proof_json commit)) fs2 of
         None \<Rightarrow> (Inl ProofIo, fs2)
       | Some fs3 \<Rightarrow>
           (case find (\<lambda>leaf. el_event_id leaf = fc_event_id commit) (fc_events commit) of
              None \<Rightarrow> (Inl EventNotInCommit, fs3)
            | Some leaf \<Rightarrow>
                (case x_uuid_parse x (fc_event_id commit) of
                   None \<Rightarrow> (Inl InvalidServerEventId, fs3)
                 | Some server_event_id \<Rightarrow>
                     (case audit_append (fe_enc v) (fe_ok v 3) audit
                         (audit_anchored (fe_clock v 2) (fe_anchor_id v) chain_uuid file_hash
                           (x_uuid_parse x (el_parent_event_id leaf)) (el_sequence leaf) server_event_id
                           (Some \<lparr> ca_root = pp_root (fc_proof commit), ca_signature = pp_signature (fc_proof commit),
                              ca_anchored_by = ''evident-ledger'' \<rparr>)) fs3 of
                        None \<Rightarrow> (Inl AuditIo, fs3)
                      | Some fs4 \<Rightarrow> (Inr \<lparr> fx_proof_path = proof_path, fx_audit_path = audit,
                          fx_event_id = fc_event_id commit, fx_chain_id = fc_chain_id commit,
                          fx_root = pp_root (fc_proof commit) \<rparr>, fs4))))))"

definition fixate_file ::
  "ext \<Rightarrow> fix_env \<Rightarrow> string \<Rightarrow> string \<Rightarrow> string option \<Rightarrow> filesystem \<Rightarrow> (fixation_error + FixationResult) \<times> filesystem" where
  "fixate_file x v path chain_id audit_path fs =
     (case fs_read fs path of None \<Rightarrow> (Inl FileUnreadable, fs) | Some bytes \<Rightarrow>
      let file_hash = sha_hex x bytes in
      case x_uuid_parse x chain_id of None \<Rightarrow> (Inl InvalidChainId, fs) | Some chain_uuid \<Rightarrow>
      let audit = fixation_audit_path v audit_path in
      case audit_append (fe_enc v) (fe_ok v 0) audit (audit_created (fe_clock v 0) (fe_event_id v) chain_uuid file_hash None) fs of
        None \<Rightarrow> (Inl AuditIo, fs)
      | Some fs1 \<Rightarrow>
          (case fe_reply v of
             RequestTimeout \<Rightarrow> (Inl LedgerUnreachable, fs1)
           | RequestFailed _ \<Rightarrow> (Inl LedgerUnreachable, fs1)
           | BodyFailed _ _ \<Rightarrow> (Inl AnswerUnreadable, fs1)
           | HttpReply status body \<Rightarrow>
               if \<not> is_success status then
                 (let err = ''server error '' @ fe_show_status v status @ '': '' @ body in
                  case audit_append (fe_enc v) (fe_ok v 1) audit
                      (audit_failed (fe_clock v 1) (fe_event_id v) chain_uuid file_hash None err) fs1 of
                    None \<Rightarrow> (Inl AuditIo, fs1) | Some fs2 \<Rightarrow> (Inl (LedgerRefused err), fs2))
               else (case Option.bind (fe_parse v body) read_fixation_commit of
                    None \<Rightarrow> (Inl InvalidAnswer, fs1)
                  | Some commit \<Rightarrow> fixate_accepted x v audit chain_uuid file_hash commit fs1)))"

section \<open>Frozen events\<close>

record FrozenEvent =
  fz_event_id :: string
  fz_chain_id :: string
  fz_sequence :: u64
  fz_timestamp :: u64
  fz_payload_hash :: string
  fz_parent_hash :: string
  fz_event_type :: string

text \<open>\<open>serde_json::to_string\<close> of the struct: the fields in their order.\<close>

definition frozen_json :: "FrozenEvent \<Rightarrow> string" where
  "frozen_json e = ''{'' @ json_string ''event_id'' @ '':'' @ json_string (fz_event_id e) @
     '','' @ json_string ''chain_id'' @ '':'' @ json_string (fz_chain_id e) @
     '','' @ json_string ''sequence'' @ '':'' @ digits (unat (fz_sequence e)) @
     '','' @ json_string ''timestamp'' @ '':'' @ digits (unat (fz_timestamp e)) @
     '','' @ json_string ''payload_hash'' @ '':'' @ json_string (fz_payload_hash e) @
     '','' @ json_string ''parent_hash'' @ '':'' @ json_string (fz_parent_hash e) @
     '','' @ json_string ''event_type'' @ '':'' @ json_string (fz_event_type e) @ ''}''"

definition event_from_payload :: "ext \<Rightarrow> uuid \<Rightarrow> u64 \<Rightarrow> string \<Rightarrow> u64 \<Rightarrow> string \<Rightarrow> string \<Rightarrow> string \<Rightarrow> FrozenEvent" where
  "event_from_payload x fresh now chain_id sequence payload_hash parent_hash event_type =
     \<lparr> fz_event_id = x_uuid_str x fresh, fz_chain_id = chain_id, fz_sequence = sequence, fz_timestamp = now,
       fz_payload_hash = payload_hash, fz_parent_hash = parent_hash, fz_event_type = event_type \<rparr>"

definition canonical_hash :: "ext \<Rightarrow> FrozenEvent \<Rightarrow> string" where
  "canonical_hash x e = sha_hex x (str_bytes (frozen_json (e\<lparr> fz_event_id := [] \<rparr>)))"

definition append_event_log :: "bool \<Rightarrow> string \<Rightarrow> FrozenEvent \<Rightarrow> filesystem \<Rightarrow> filesystem option" where
  "append_event_log ok path e fs = append_line ok path (str_bytes (frozen_json e)) fs"

section \<open>Lemmas on the log\<close>

text \<open>What \<open>serde_json\<close> promises of an audit event's text: it is one line, and reads back.\<close>

definition jsonl_ok :: "(AuditEvent \<Rightarrow> byte list) \<Rightarrow> (byte list \<Rightarrow> AuditEvent option) \<Rightarrow> bool" where
  "jsonl_ok enc dec \<longleftrightarrow> (\<forall>e. dec (enc e) = Some e \<and> 0x0A \<notin> set (enc e) \<and> 0x0D \<notin> set (enc e))"

definition holds_log :: "(AuditEvent \<Rightarrow> byte list) \<Rightarrow> string \<Rightarrow> filesystem \<Rightarrow> AuditEvent list \<Rightarrow> bool" where
  "holds_log enc path fs es \<longleftrightarrow>
     (case fs_file fs path of None \<Rightarrow> es = [] | Some bytes \<Rightarrow> bytes = concat (map (\<lambda>e. enc e @ [0x0A]) es))"

text \<open>A joined path ends as its second part.\<close>

lemma join_path_suffix: "\<not> prefix ''/'' q \<Longrightarrow> \<exists>p'. join_path p q = p' @ q"
  by (auto simp: join_path_def path_join_def intro: exI [of _ p] exI [of _ "p @ ''/''"])

lemma last_join_path [simp]: "q \<noteq> [] \<Longrightarrow> last (join_path p q) = last q"
  by (auto simp: join_path_def path_join_def)

lemma strip_cr_id: "0x0D \<notin> set line \<Longrightarrow> strip_cr line = line"
  by (auto simp: strip_cr_def dest: last_in_set)

lemma byte_lines_line:
  "0x0A \<notin> set line \<Longrightarrow> byte_lines acc (line @ 0x0A # rest) = strip_cr (acc @ line) # byte_lines [] rest"
  by (induction line arbitrary: acc) auto

lemma byte_lines_log:
  "(\<And>e. 0x0A \<notin> set (enc e) \<and> 0x0D \<notin> set (enc e)) \<Longrightarrow>
   byte_lines [] (concat (map (\<lambda>e. enc e @ [0x0A]) es)) = map enc es"
  by (induction es) (simp_all add: byte_lines_line strip_cr_id)

lemma log_reads_back:
  assumes "holds_log enc path fs es" "jsonl_ok enc dec" "fs_readable fs path"
  shows "audit_read_all dec path fs = Some es"
proof -
  have "read_all dec (map enc es) = Some (map id es)"
    by (rule read_all_map) (use assms(2) in \<open>simp add: jsonl_ok_def\<close>)
  moreover have "byte_lines [] (concat (map (\<lambda>e. enc e @ [0x0A]) es)) = map enc es"
    by (rule byte_lines_log) (use assms(2) in \<open>simp add: jsonl_ok_def\<close>)
  ultimately show ?thesis
    using assms(1,3) by (auto simp: holds_log_def audit_read_all_def split: option.splits)
qed

text \<open>The log only grows.\<close>

lemma audit_append_log:
  assumes "audit_append enc ok path e fs = Some fs'" "holds_log enc path fs es"
  shows "holds_log enc path fs' (es @ [e])"
  using assms by (auto simp: audit_append_def append_line_def holds_log_def split: if_splits option.splits)

lemma audit_append_other:
  assumes "audit_append enc ok path e fs = Some fs'" "p \<noteq> path"
  shows "fs_file fs' p = fs_file fs p"
  using assms by (auto simp: audit_append_def append_line_def split: if_splits)

lemma write_file_log:
  assumes "write_file ok p bytes fs = Some fs'" "holds_log enc path fs es" "p \<noteq> path"
  shows "holds_log enc path fs' es"
  using assms by (auto simp: write_file_def holds_log_def split: if_splits)

section \<open>The life of a fixation\<close>

text \<open>The states an event goes through.\<close>

inductive event_step :: "EventState \<Rightarrow> EventState \<Rightarrow> bool" where
  submit: "event_step StCreated StSubmitted"
| fail: "event_step StCreated StFailed"
| anchor: "event_step StSubmitted StAnchored"

inductive_simps event_step_from [simp]: "event_step StAnchored s" "event_step StFailed s"

definition lifecycle :: "AuditEvent list \<Rightarrow> bool" where
  "lifecycle es \<longleftrightarrow> (es = [] \<or> audit_state (hd es) = StCreated) \<and> successively event_step (map audit_state es)"

lemma audit_states [simp]:
  "audit_state (audit_created t i c h p) = StCreated" "audit_state (audit_submitted t i c h p k) = StSubmitted"
  "audit_state (audit_anchored t i c h p n s a) = StAnchored" "audit_state (audit_failed t i c h p r) = StFailed"
  by (simp_all add: audit_state_def audit_created_def audit_submitted_def audit_anchored_def audit_failed_def)

lemma event_steps [simp]: "event_step StCreated StSubmitted" "event_step StCreated StFailed" "event_step StSubmitted StAnchored"
  by (rule event_step.intros)+

lemma audit_path_neq: "\<not> suffix ''.json'' audit \<Longrightarrow> fixation_proof_path c \<noteq> audit"
  by (auto simp: fixation_proof_path_def join_path_def path_join_def suffix_def)

text \<open>The run added one event's life, so far as it got, to the log, and reports success exactly when the event is
  anchored.\<close>

definition leaves_life ::
  "(AuditEvent \<Rightarrow> byte list) \<Rightarrow> string \<Rightarrow> AuditEvent list \<Rightarrow> (fixation_error + FixationResult) \<times> filesystem \<Rightarrow> bool" where
  "leaves_life enc audit es run \<longleftrightarrow>
     (\<exists>ns. holds_log enc audit (snd run) (es @ ns) \<and> lifecycle ns \<and>
        (isl (fst run) \<longleftrightarrow> map audit_state ns \<noteq> [StCreated, StSubmitted, StAnchored]))"

lemma leaves_life_Inl:
  "holds_log enc audit fs (es @ ns) \<Longrightarrow> lifecycle ns \<Longrightarrow> length ns < 3 \<Longrightarrow> leaves_life enc audit es (Inl e, fs)"
  by (auto simp: leaves_life_def)

lemma leaves_life_Inr:
  "holds_log enc audit fs (es @ ns) \<Longrightarrow> map audit_state ns = [StCreated, StSubmitted, StAnchored] \<Longrightarrow>
   leaves_life enc audit es (Inr r, fs)"
  by (auto simp: leaves_life_def lifecycle_def)

lemma lifecycle_short [simp]:
  "lifecycle []" "lifecycle [c] \<longleftrightarrow> audit_state c = StCreated"
  "lifecycle [c, e] \<longleftrightarrow> audit_state c = StCreated \<and> event_step StCreated (audit_state e)"
  by (auto simp: lifecycle_def)

lemma accepted_lifecycle:
  assumes log: "holds_log (fe_enc v) audit fs1 (es @ [c])"
    and path: "\<not> suffix ''.json'' audit" and c [simp]: "audit_state c = StCreated"
  shows "leaves_life (fe_enc v) audit es (fixate_accepted x v audit cu h commit fs1)"
proof -
  let ?app = "\<lambda>k e. audit_append (fe_enc v) (fe_ok v k) audit e"
  let ?s = "audit_submitted (fe_clock v 1) (fe_event_id v) cu h None (x_uuid_str x (fe_key v))"
  show ?thesis
  proof (cases "?app 1 ?s fs1")
    case None
    with leaves_life_Inl [OF log] show ?thesis by (simp add: fixate_accepted_def)
  next
    case sub: (Some fs2)
    have log2: "holds_log (fe_enc v) audit fs2 (es @ [c, ?s])" using audit_append_log [OF sub log] by simp
    show ?thesis
    proof (cases "write_file (fe_ok v 2) (fixation_proof_path commit) (fe_pretty v (fixation_proof_json commit)) fs2")
      case None
      with sub leaves_life_Inl [OF log2] show ?thesis by (simp add: fixate_accepted_def)
    next
      case written: (Some fs3)
      have log3: "holds_log (fe_enc v) audit fs3 (es @ [c, ?s])"
        by (rule write_file_log [OF written log2 audit_path_neq [OF path]])
      have anchored: "leaves_life (fe_enc v) audit es (Inr r, fs4)"
        if "?app 3 e fs3 = Some fs4" "audit_state e = StAnchored" for e fs4 r
        using audit_append_log [OF that(1) log3] that(2) by (intro leaves_life_Inr [of _ _ _ _ "[c, ?s, e]"]) simp_all
      show ?thesis
        using sub written leaves_life_Inl [OF log3] anchored
        by (auto simp: fixate_accepted_def Let_def split: option.split)
    qed
  qed
qed

lemma refused_lifecycle:
  assumes "holds_log enc audit fs1 (es @ [c])" "audit_state c = StCreated" "audit_state f = StFailed"
  shows "leaves_life enc audit es (case audit_append enc ok audit f fs1 of
     None \<Rightarrow> (Inl AuditIo, fs1) | Some fs2 \<Rightarrow> (Inl e, fs2))"
proof (cases "audit_append enc ok audit f fs1")
  case None
  with leaves_life_Inl [OF assms(1)] assms(2) show ?thesis by simp
next
  case (Some fs2)
  with audit_append_log [OF Some assms(1)] assms(2,3) show ?thesis
    by (auto intro!: leaves_life_Inl [where ns = "[c, f]"])
qed

lemma fixation_lifecycle:
  assumes log: "holds_log (fe_enc v) (fixation_audit_path v audit_path) fs es"
    and path: "\<not> suffix ''.json'' (fixation_audit_path v audit_path)"
  shows "leaves_life (fe_enc v) (fixation_audit_path v audit_path) es (fixate_file x v path chain_id audit_path fs)"
proof -
  let ?audit = "fixation_audit_path v audit_path"
  have none: "leaves_life (fe_enc v) ?audit es (Inl e, fs)" for e
    by (rule leaves_life_Inl [where ns = "[]"]) (simp_all add: log)
  have created: "leaves_life (fe_enc v) ?audit es
      (case fe_reply v of
         RequestTimeout \<Rightarrow> (Inl LedgerUnreachable, fs1) | RequestFailed _ \<Rightarrow> (Inl LedgerUnreachable, fs1)
       | BodyFailed _ _ \<Rightarrow> (Inl AnswerUnreadable, fs1)
       | HttpReply status body \<Rightarrow>
           if \<not> is_success status then
             (case audit_append (fe_enc v) (fe_ok v 1) ?audit (f status body) fs1 of
                None \<Rightarrow> (Inl AuditIo, fs1) | Some fs2 \<Rightarrow> (Inl (g status body), fs2))
           else (case Option.bind (fe_parse v body) read_fixation_commit of
                None \<Rightarrow> (Inl InvalidAnswer, fs1)
              | Some commit \<Rightarrow> fixate_accepted x v ?audit cu h commit fs1))"
    if "audit_append (fe_enc v) (fe_ok v 0) ?audit c fs = Some fs1" "audit_state c = StCreated"
      "\<And>s b. audit_state (f s b) = StFailed" for c fs1 cu h f g
  proof -
    note log1 = audit_append_log [OF that(1) log]
    have one: "leaves_life (fe_enc v) ?audit es (Inl e, fs1)" for e
      by (rule leaves_life_Inl [OF log1]) (simp_all add: that(2))
    show ?thesis
      using one refused_lifecycle [OF log1 that(2,3)] accepted_lifecycle [OF log1 path that(2)]
      by (simp split: http_reply.split option.split)
  qed
  show ?thesis
    unfolding fixate_file_def Let_def using none by (auto split: option.split intro!: created)
qed

text \<open>What a success leaves behind: the proof file as it was answered, completed by its versions.\<close>

lemma fixation_success:
  assumes "fixate_file x v path chain_id audit_path fs = (Inr r, fs')"
    and "\<not> suffix ''.json'' (fixation_audit_path v audit_path)"
  obtains status body commit where "fe_reply v = HttpReply status body" "is_success status"
    "Option.bind (fe_parse v body) read_fixation_commit = Some commit" "fx_root r = pp_root (fc_proof commit)"
    "fx_proof_path r = fixation_proof_path commit"
    "fs_file fs' (fixation_proof_path commit) = Some (fe_pretty v (fixation_proof_json commit))"
proof -
  let ?audit = "fixation_audit_path v audit_path"
  obtain status body commit cu h fs1 where *: "fe_reply v = HttpReply status body" "is_success status"
    "Option.bind (fe_parse v body) read_fixation_commit = Some commit"
    "fixate_accepted x v ?audit cu h commit fs1 = (Inr r, fs')"
    using assms(1)
    by (auto simp: fixate_file_def Let_def split: option.splits http_reply.splits if_splits)
  from *(4) obtain fs2 fs3 e where w: "fx_root r = pp_root (fc_proof commit)" "fx_proof_path r = fixation_proof_path commit"
    "write_file (fe_ok v 2) (fixation_proof_path commit) (fe_pretty v (fixation_proof_json commit)) fs2 = Some fs3"
    "audit_append (fe_enc v) (fe_ok v 3) ?audit e fs3 = Some fs'"
    by (auto simp: fixate_accepted_def Let_def split: option.splits)
  have "fs_file fs' (fixation_proof_path commit) = Some (fe_pretty v (fixation_proof_json commit))"
    using audit_append_other [OF w(4) audit_path_neq [OF assms(2)]] w(3) by (auto simp: write_file_def split: if_splits)
  with *(1-3) w(1,2) that show thesis by blast
qed

section \<open>Frozen events\<close>

text \<open>The canonical hash leaves the identifier out, and binds every other field up to a collision.\<close>

lemma canonical_hash_ignores_id: "canonical_hash x (e\<lparr> fz_event_id := i \<rparr>) = canonical_hash x e"
  by (simp add: canonical_hash_def)

lemma digits_ascii: "list_all is_ascii_digit (digits n)"
proof (induction n rule: digits.induct)
  case (1 n)
  have "n mod 10 < 10" by simp
  then have "is_ascii_digit (char_of (48 + n mod 10))" by (simp add: is_ascii_digit_def)
  with 1 show ?case by (subst digits.simps) auto
qed

lemma digits_value: "foldl (\<lambda>v c. 10 * v + (of_char c - 48)) 0 (digits n) = n"
proof (induction n rule: digits.induct)
  case (1 n)
  have "n mod 10 < 10" by simp
  then have "(of_char (char_of (48 + n mod 10 :: nat)) :: nat) = 48 + n mod 10" by simp
  with 1 show ?case by (subst digits.simps) simp
qed

lemma digits_inj: "digits m = digits n \<Longrightarrow> m = n"
  by (metis digits_value)

lemma digits_comma: "digits m @ CHR '','' # r = digits n @ CHR '','' # r' \<Longrightarrow> m = n \<and> r = r'"
proof -
  assume eq: "digits m @ CHR '','' # r = digits n @ CHR '','' # r'"
  have c: "takeWhile is_ascii_digit (digits k @ CHR '','' # s) = digits k" for k s
    using digits_ascii [of k] by (simp add: list_all_iff is_ascii_digit_def)
  have "digits m = takeWhile is_ascii_digit (digits m @ CHR '','' # r)" by (rule c [symmetric])
  also have "\<dots> = digits n" unfolding eq by (rule c)
  finally have "m = n" by (rule digits_inj)
  with eq show ?thesis by simp
qed

lemma json_string_eq: "json_string s = json_string t \<longleftrightarrow> s = t"
  using json_string_prefix_free [of s "[]" t "[]"] by auto

lemma frozen_json_inj: "frozen_json e = frozen_json f \<Longrightarrow> e = f"
  unfolding frozen_json_def
  by (cases e; cases f) (auto simp: json_string_eq word_unat_eq_iff dest!: json_string_prefix_free digits_comma)

lemma canonical_hash_binds:
  assumes "hex_ok x" "canonical_hash x e = canonical_hash x f"
  shows "e\<lparr> fz_event_id := [] \<rparr> = f\<lparr> fz_event_id := [] \<rparr> \<or>
    collision x [str_bytes (frozen_json (e\<lparr> fz_event_id := [] \<rparr>)), str_bytes (frozen_json (f\<lparr> fz_event_id := [] \<rparr>))]"
proof -
  let ?g = "\<lambda>e. str_bytes (frozen_json (e\<lparr> fz_event_id := [] \<rparr>))"
  have "x_sha256 x (?g e) = x_sha256 x (?g f)"
    using assms by (simp add: canonical_hash_def sha_hex_def hex_encode_inj)
  moreover have "?g e = ?g f \<Longrightarrow> e\<lparr> fz_event_id := [] \<rparr> = f\<lparr> fz_event_id := [] \<rparr>"
    using frozen_json_inj by simp
  ultimately show ?thesis by (auto simp: collision_def)
qed

end
