(* ===== verification/Evidence.thy ===== *)
theory Evidence
  imports Backup ProofFile
begin

text \<open>
  Evidence records: \<open>src/evidence_record.rs\<close> and \<open>src/event_evidence_verify.rs\<close>.  \<open>serde\<close>'s text of a
  record and of a proof file is a parameter, and so are UUIDs of version 5 and the order in which a
  directory is listed.  The reader of a record that the client keeps is a local file, so its writes may fail.
\<close>

section \<open>Records\<close>

datatype LifecycleStatus = LcCreated | LcRegistered | LcTsaConfirmed | LcCertified | LcRevoked

datatype TsaStatus = TsPending | TsConfirmed | TsFailed | TsAbsent

record EvidenceRecord =
  ev_evidence_id :: string
  ev_filename :: "string option"
  ev_sha256 :: string
  ev_size_bytes :: "u64 option"
  ev_mime_type :: "string option"
  ev_local_file_available :: bool
  ev_chain_id :: string
  ev_event_id :: string
  ev_certificate_id :: string
  ev_created_at_local :: timestamp
  ev_registered_at :: timestamp
  ev_lifecycle_status :: LifecycleStatus
  ev_tsa_status :: TsaStatus
  ev_project_id :: "string option"
  ev_proof_path :: "string option"

record EvidenceFileMeta =
  em_filename :: "string option"
  em_mime_type :: "string option"
  em_project_id :: "string option"
  em_local_file_available :: bool

definition default_meta :: EvidenceFileMeta where
  "default_meta = \<lparr> em_filename = None, em_mime_type = None, em_project_id = None, em_local_file_available = False \<rparr>"

record EvidenceIntegrityResult =
  ei_event_found :: bool
  ei_parent_chain_valid :: bool
  ei_merkle_root_valid :: bool
  ei_signature_valid :: bool
  ei_recomputed_root :: "string option"
  ei_errors :: "string list"

definition ei_is_valid :: "EvidenceIntegrityResult \<Rightarrow> bool" where
  "ei_is_valid r \<longleftrightarrow> ei_event_found r \<and> ei_parent_chain_valid r \<and> ei_merkle_root_valid r \<and> ei_signature_valid r \<and>
     ei_errors r = []"

text \<open>\<open>Uuid::as_simple\<close> prints the bytes in hex.  \<open>uuid_v5\<close> is \<open>Uuid::new_v5\<close>.\<close>

definition as_simple :: "ext \<Rightarrow> uuid \<Rightarrow> string" where
  "as_simple x u = x_hex_encode x (x_uuid_bytes x u)"

definition evidence_id_for_event :: "ext \<Rightarrow> uuid \<Rightarrow> string" where
  "evidence_id_for_event x event_id = ''ev_'' @ as_simple x event_id"

definition namespace_url :: uuid where
  "namespace_url = 0x6ba7b8119dad11d180b400c04fd430c8"

definition certificate_namespace :: "(uuid \<Rightarrow> byte list \<Rightarrow> uuid) \<Rightarrow> uuid" where
  "certificate_namespace uuid_v5 = uuid_v5 namespace_url (str_bytes ''https://evident-ledger.com/ns/certificate'')"

definition certificate_id_for_event :: "ext \<Rightarrow> (uuid \<Rightarrow> byte list \<Rightarrow> uuid) \<Rightarrow> uuid \<Rightarrow> string" where
  "certificate_id_for_event x uuid_v5 event_id =
     ''cert_'' @ as_simple x (uuid_v5 (certificate_namespace uuid_v5) (x_uuid_bytes x event_id))"

definition evidence_path :: "string \<Rightarrow> string \<Rightarrow> string" where
  "evidence_path dir evidence_id = path_join dir (evidence_id @ ''.json'')"

definition classify_tsa_status :: "TsaData option \<Rightarrow> TsaStatus" where
  "classify_tsa_status tsa = (case tsa of
     Some t \<Rightarrow> if 0 <s (case td_token_bytes t of None \<Rightarrow> 0 | Some n \<Rightarrow> n) \<or> td_timestamp t \<noteq> None then TsConfirmed else TsPending
   | None \<Rightarrow> TsAbsent)"

definition initial_lifecycle :: "TsaStatus \<Rightarrow> LifecycleStatus" where
  "initial_lifecycle s = (if s = TsConfirmed then LcTsaConfirmed else LcRegistered)"

definition build_registered_record ::
  "ext \<Rightarrow> (uuid \<Rightarrow> byte list \<Rightarrow> uuid) \<Rightarrow> uuid \<Rightarrow> uuid \<Rightarrow> string \<Rightarrow> u64 option \<Rightarrow> EvidenceFileMeta \<Rightarrow> TsaData option
    \<Rightarrow> string option \<Rightarrow> timestamp \<Rightarrow> EvidenceRecord" where
  "build_registered_record x uuid_v5 event_id chain_id sha256 size_bytes meta tsa proof_path registered_at =
     (let tsa_status = classify_tsa_status tsa in
      \<lparr> ev_evidence_id = evidence_id_for_event x event_id, ev_filename = em_filename meta, ev_sha256 = sha256,
        ev_size_bytes = size_bytes, ev_mime_type = em_mime_type meta,
        ev_local_file_available = em_local_file_available meta, ev_chain_id = x_uuid_str x chain_id,
        ev_event_id = x_uuid_str x event_id, ev_certificate_id = certificate_id_for_event x uuid_v5 event_id,
        ev_created_at_local = registered_at, ev_registered_at = registered_at,
        ev_lifecycle_status = initial_lifecycle tsa_status, ev_tsa_status = tsa_status,
        ev_project_id = em_project_id meta, ev_proof_path = proof_path \<rparr>)"

section \<open>Files\<close>

definition write_evidence_record ::
  "(EvidenceRecord \<Rightarrow> byte list) \<Rightarrow> string \<Rightarrow> EvidenceRecord \<Rightarrow> filesystem \<Rightarrow> filesystem option" where
  "write_evidence_record enc dir r fs =
     (if \<not> fs_mkdir_ok fs dir then None
      else let path = evidence_path dir (ev_evidence_id r) in
        if \<not> fs_write_ok fs path then None else Some (fs\<lparr> fs_file := (fs_file fs)(path \<mapsto> enc r) \<rparr>))"

definition read_evidence_record ::
  "(byte list \<Rightarrow> EvidenceRecord option) \<Rightarrow> string \<Rightarrow> string \<Rightarrow> filesystem \<Rightarrow> EvidenceRecord option" where
  "read_evidence_record dec dir evidence_id fs = Option.bind (fs_read fs (evidence_path dir evidence_id)) dec"

definition eq_ignore_ascii_case :: "string \<Rightarrow> string \<Rightarrow> bool" where
  "eq_ignore_ascii_case s t \<longleftrightarrow> to_ascii_lowercase s = to_ascii_lowercase t"

text \<open>\<open>entries\<close> lists the directory, \<open>None\<close> where it does not exist.\<close>

definition matching_record :: "(byte list \<Rightarrow> EvidenceRecord option) \<Rightarrow> string \<Rightarrow> entry \<Rightarrow> EvidenceRecord option" where
  "matching_record dec needle e =
     (case e of (name, content) \<Rightarrow>
        if \<not> is_json_file name then None
        else (case Option.bind content dec of
          None \<Rightarrow> None | Some r \<Rightarrow> if eq_ignore_ascii_case (ev_sha256 r) needle then Some r else None))"

definition find_evidence_by_hash ::
  "(byte list \<Rightarrow> EvidenceRecord option) \<Rightarrow> entry list option \<Rightarrow> string \<Rightarrow> EvidenceRecord list" where
  "find_evidence_by_hash dec entries hash =
     (let needle = to_ascii_lowercase (trim hash) in
      case entries of None \<Rightarrow> [] | Some es \<Rightarrow> sort_key ev_evidence_id (List.map_filter (matching_record dec needle) es))"

section \<open>Verification\<close>

definition derive_lifecycle :: "EvidenceIntegrityResult \<Rightarrow> TsaStatus \<Rightarrow> LifecycleStatus" where
  "derive_lifecycle i s =
     (if \<not> ei_event_found i \<or> \<not> ei_parent_chain_valid i \<or> \<not> ei_merkle_root_valid i then LcRegistered
      else if \<not> ei_signature_valid i then LcRegistered
      else if s = TsConfirmed then (if ei_is_valid i then LcCertified else LcTsaConfirmed)
      else LcRegistered)"

fun lifecycle_rank :: "LifecycleStatus \<Rightarrow> nat" where
  "lifecycle_rank LcCreated = 0"
| "lifecycle_rank LcRegistered = 1"
| "lifecycle_rank LcTsaConfirmed = 2"
| "lifecycle_rank LcCertified = 3"
| "lifecycle_rank LcRevoked = 255"

definition advance_lifecycle :: "LifecycleStatus \<Rightarrow> LifecycleStatus \<Rightarrow> LifecycleStatus" where
  "advance_lifecycle current derived =
     (if current = LcRevoked then LcRevoked
      else if lifecycle_rank derived \<ge> lifecycle_rank current then derived else current)"

text \<open>The rows of the leaves whose identifiers parse; their time is not read.\<close>

definition leaf_rows :: "ext \<Rightarrow> timestamp \<Rightarrow> EventLeaf list \<Rightarrow> EventRow list" where
  "leaf_rows x now = List.map_filter (\<lambda>e.
     Option.bind (x_uuid_parse x (el_event_id e)) (\<lambda>i.
     Option.bind (x_uuid_parse x (el_parent_event_id e)) (\<lambda>p.
     Some \<lparr> er_event_id = i, er_parent_event_id = p, er_file_hash = el_file_hash e, er_created_at = now,
       er_sequence = el_sequence e \<rparr>)))"

fun structure_error :: "StructuralFailure \<Rightarrow> string" where
  "structure_error (ParentChain i) = ''parent chain broken at index '' @ digits i"
| "structure_error (Sequence i) = ''sequence broken at index '' @ digits i"
| "structure_error EmptyMerkle = ''empty merkle root''"

definition verify_evidence_integrity :: "ext \<Rightarrow> timestamp \<Rightarrow> EvidenceRecord \<Rightarrow> ProofFile \<Rightarrow> EvidenceIntegrityResult" where
  "verify_evidence_integrity x now r f =
     (let leaf = find (\<lambda>l. el_event_id l = ev_event_id r) (pf_events f);
          rows = leaf_rows x now (pf_events f);
          structure = check_event_structure x rows;
          recomputed_root = (case structure of Inr root \<Rightarrow> Some root | Inl _ \<Rightarrow> None);
          merkle_root_valid = (recomputed_root = Some (pp_root (pf_proof f)));
          signature_valid = verify_root x (pf_chain_id f) (pp_root (pf_proof f)) (pp_chain_head (pf_proof f))
            (pp_signature (pf_proof f)) (pp_public_key (pf_proof f))
      in \<lparr> ei_event_found = (leaf \<noteq> None), ei_parent_chain_valid = (recomputed_root \<noteq> None),
           ei_merkle_root_valid = merkle_root_valid, ei_signature_valid = signature_valid,
           ei_recomputed_root = recomputed_root,
           ei_errors =
             (case leaf of None \<Rightarrow> [''event_id not present in proof events'']
              | Some l \<Rightarrow> if \<not> eq_ignore_ascii_case (el_file_hash l) (ev_sha256 r)
                  then [''event file_hash does not match evidence sha256''] else []) @
             (if pf_chain_id f \<noteq> ev_chain_id r then [''proof chain_id does not match evidence chain_id''] else []) @
             (if length rows \<noteq> length (pf_events f) then [''proof events contain invalid UUIDs''] else []) @
             (case structure of Inl failure \<Rightarrow> [structure_error failure]
              | Inr _ \<Rightarrow> if \<not> merkle_root_valid then [''recomputed merkle root does not match proof.root''] else []) @
             (if \<not> signature_valid then [''Ed25519 signature verification failed''] else []) \<rparr>)"

definition refresh_lifecycle :: "ext \<Rightarrow> timestamp \<Rightarrow> ProofFile \<Rightarrow> EvidenceRecord \<Rightarrow> EvidenceRecord" where
  "refresh_lifecycle x now f r =
     (let integrity = verify_evidence_integrity x now r f;
          s = classify_tsa_status (pf_tsa f);
          derived = derive_lifecycle integrity s
      in r\<lparr> ev_tsa_status := s, ev_lifecycle_status := advance_lifecycle (ev_lifecycle_status r) derived \<rparr>)"

section \<open>The command\<close>

record EventEvidenceReport =
  ee_integrity :: EvidenceIntegrityResult
  ee_lifecycle :: LifecycleStatus
  ee_tsa_status :: TsaStatus
  ee_registered_root :: string
  ee_recomputed_root :: "string option"

datatype EventEvidenceVerifyError =
    EvidenceNotFound string
  | EeProofNotFound string
  | EvidenceCorrupt string
  | IntegrityFailed EventEvidenceReport

definition evidence_file_path :: "ext \<Rightarrow> string \<Rightarrow> uuid \<Rightarrow> string" where
  "evidence_file_path x dir event_id = evidence_path dir (evidence_id_for_event x event_id)"

definition proof_file_path :: "ext \<Rightarrow> string \<Rightarrow> uuid \<Rightarrow> uuid \<Rightarrow> string" where
  "proof_file_path x proofs_root chain_id event_id =
     path_join (path_join proofs_root (x_uuid_str x chain_id)) (x_uuid_str x event_id @ ''.json'')"

definition load_file ::
  "(string \<Rightarrow> EventEvidenceVerifyError) \<Rightarrow> (byte list \<Rightarrow> 'a option) \<Rightarrow> string \<Rightarrow> filesystem \<Rightarrow> EventEvidenceVerifyError + 'a" where
  "load_file missing dec path fs =
     (if fs_file fs path = None then Inl (missing path)
      else ok_or (EvidenceCorrupt path) (Option.bind (fs_read fs path) dec))"

definition load_evidence ::
  "(byte list \<Rightarrow> EvidenceRecord option) \<Rightarrow> string \<Rightarrow> filesystem \<Rightarrow> EventEvidenceVerifyError + EvidenceRecord" where
  "load_evidence = load_file EvidenceNotFound"

definition load_proof ::
  "(byte list \<Rightarrow> ProofFile option) \<Rightarrow> string \<Rightarrow> filesystem \<Rightarrow> EventEvidenceVerifyError + ProofFile" where
  "load_proof = load_file EeProofNotFound"

record evidence_codec =
  ec_enc :: "EvidenceRecord \<Rightarrow> byte list"
  ec_dec :: "byte list \<Rightarrow> EvidenceRecord option"
  ec_proof :: "byte list \<Rightarrow> ProofFile option"

definition verify_event_evidence ::
  "ext \<Rightarrow> evidence_codec \<Rightarrow> timestamp \<Rightarrow> string \<Rightarrow> string \<Rightarrow> uuid \<Rightarrow> uuid \<Rightarrow> filesystem
    \<Rightarrow> (EventEvidenceVerifyError + EventEvidenceReport) \<times> filesystem" where
  "verify_event_evidence x k now dir proofs_root event_id chain_id fs =
     (let evidence_path = evidence_file_path x dir event_id in
      case load_evidence (ec_dec k) evidence_path fs of Inl e \<Rightarrow> (Inl e, fs) | Inr r \<Rightarrow>
      (case load_proof (ec_proof k) (proof_file_path x proofs_root chain_id event_id) fs of Inl e \<Rightarrow> (Inl e, fs) | Inr f \<Rightarrow>
       let integrity = verify_evidence_integrity x now r f;
           report = (\<lambda>r. \<lparr> ee_integrity = integrity, ee_lifecycle = ev_lifecycle_status r, ee_tsa_status = ev_tsa_status r,
             ee_registered_root = pp_root (pf_proof f), ee_recomputed_root = ei_recomputed_root integrity \<rparr>)
       in if ei_is_valid integrity then
            let r' = refresh_lifecycle x now f r in
            (case write_evidence_record (ec_enc k) dir r' fs of
               None \<Rightarrow> (Inl (EvidenceCorrupt evidence_path), fs)
             | Some fs' \<Rightarrow> (Inr (report r'), fs'))
          else (Inl (IntegrityFailed (report r)), fs)))"

text \<open>The report's text.\<close>

definition pass_fail :: "bool \<Rightarrow> string" where
  "pass_fail ok = (if ok then ''PASS'' else ''FAIL'')"

definition verification_result_label :: "EvidenceIntegrityResult \<Rightarrow> string" where
  "verification_result_label i = (if ei_event_found i \<and> ei_parent_chain_valid i \<and> ei_merkle_root_valid i \<and>
     ei_signature_valid i \<and> ei_errors i = [] then ''PASS'' else ''FAILED'')"

fun lifecycle_label :: "LifecycleStatus \<Rightarrow> string" where
  "lifecycle_label LcCreated = ''CREATED''"
| "lifecycle_label LcRegistered = ''REGISTERED''"
| "lifecycle_label LcTsaConfirmed = ''TSA_CONFIRMED''"
| "lifecycle_label LcCertified = ''CERTIFIED''"
| "lifecycle_label LcRevoked = ''REVOKED''"

fun tsa_label :: "TsaStatus \<Rightarrow> string" where
  "tsa_label TsPending = ''PENDING''"
| "tsa_label TsConfirmed = ''CONFIRMED''"
| "tsa_label TsFailed = ''FAILED''"
| "tsa_label TsAbsent = ''ABSENT''"

definition newline :: string where
  "newline = [CHR 0x0A]"

definition format_report :: "EventEvidenceReport \<Rightarrow> string" where
  "format_report p = concat (map (\<lambda>line. line @ newline)
     ([''Evidence Verification'',
       ''Event Found:          '' @ pass_fail (ei_event_found (ee_integrity p)),
       ''Parent Chain Valid:   '' @ pass_fail (ei_parent_chain_valid (ee_integrity p)),
       ''Merkle Root Valid:    '' @ pass_fail (ei_merkle_root_valid (ee_integrity p)),
       ''Signature Valid:      '' @ pass_fail (ei_signature_valid (ee_integrity p)),
       ''Verification Result:  '' @ verification_result_label (ee_integrity p),
       ''Merkle Root:'',
       ''registered: '' @ ee_registered_root p,
       ''recomputed: '' @ (case ee_recomputed_root p of Some r \<Rightarrow> r | None \<Rightarrow> ''not recomputed'')] @
      (if ei_errors (ee_integrity p) \<noteq> []
       then ''Verification Errors:'' # map (\<lambda>err. ''- '' @ err) (ei_errors (ee_integrity p)) else []) @
      [''TSA Status:           '' @ tsa_label (ee_tsa_status p),
       ''Lifecycle:            '' @ lifecycle_label (ee_lifecycle p)]))"

section \<open>Lifecycle\<close>

text \<open>The status never moves backward, and is revoked only if it or the derived one is.\<close>

lemma advance_rank: "lifecycle_rank c \<le> lifecycle_rank (advance_lifecycle c d)"
  by (simp add: advance_lifecycle_def)

lemma advance_idem: "advance_lifecycle (advance_lifecycle c d) d = advance_lifecycle c d"
  by (simp add: advance_lifecycle_def)

lemma derive_not_revoked: "derive_lifecycle i s \<noteq> LcRevoked"
  by (simp add: derive_lifecycle_def)

lemma advance_revoked: "advance_lifecycle c (derive_lifecycle i s) = LcRevoked \<longleftrightarrow> c = LcRevoked"
  using derive_not_revoked [of i s] by (simp add: advance_lifecycle_def)

lemma derive_certified: "derive_lifecycle i s = LcCertified \<longleftrightarrow> ei_is_valid i \<and> s = TsConfirmed"
  by (auto simp: derive_lifecycle_def ei_is_valid_def)

text \<open>A refresh changes the two statuses only, and the check does not read them.\<close>

lemma integrity_ignores_status [simp]:
  "verify_evidence_integrity x now (r\<lparr> ev_tsa_status := s, ev_lifecycle_status := l \<rparr>) f = verify_evidence_integrity x now r f"
  by (simp add: verify_evidence_integrity_def cong: option.case_cong)

lemma refresh_idem: "refresh_lifecycle x now f (refresh_lifecycle x now f r) = refresh_lifecycle x now f r"
  by (simp add: refresh_lifecycle_def Let_def advance_idem)

section \<open>What is verified\<close>

lemma length_leaf_rows: "length (leaf_rows x now es) \<le> length es"
  by (induction es) (auto simp: leaf_rows_def map_filter_simps split: option.split)

lemma leaf_rows_all: "events_to_rows x now es = Some rows \<Longrightarrow> leaf_rows x now es = rows"
  by (induction es arbitrary: rows) (auto simp: leaf_rows_def events_to_rows_def map_filter_simps Option.bind_eq_Some_conv)

lemma leaf_rows_some: "length (leaf_rows x now es) = length es \<Longrightarrow> events_to_rows x now es = Some (leaf_rows x now es)"
proof (induction es)
  case (Cons e es)
  let ?row = "\<lambda>e. Option.bind (x_uuid_parse x (el_event_id e)) (\<lambda>i. Option.bind (x_uuid_parse x (el_parent_event_id e))
     (\<lambda>p. Some \<lparr> er_event_id = i, er_parent_event_id = p, er_file_hash = el_file_hash e, er_created_at = now,
       er_sequence = el_sequence e \<rparr>))"
  have rows: "leaf_rows x now (e # es) = (case ?row e of None \<Rightarrow> leaf_rows x now es | Some r \<Rightarrow> r # leaf_rows x now es)"
    by (simp add: leaf_rows_def map_filter_simps cong: option.case_cong)
  show ?case
  proof (cases "?row e")
    case None
    with Cons.prems length_leaf_rows [of x now es] show ?thesis by (simp add: rows)
  next
    case (Some r)
    with Cons show ?thesis by (simp add: rows events_to_rows_def)
  qed
qed (simp add: leaf_rows_def events_to_rows_def map_filter_simps)

lemma integrity_valid:
  assumes "sha_ok x" "hex_ok x"
  shows "ei_is_valid (verify_evidence_integrity x now r f) \<longleftrightarrow>
     (\<exists>l. find (\<lambda>l. el_event_id l = ev_event_id r) (pf_events f) = Some l \<and>
        to_ascii_lowercase (el_file_hash l) = to_ascii_lowercase (ev_sha256 r)) \<and>
     pf_chain_id f = ev_chain_id r \<and>
     (\<exists>rows. events_to_rows x now (pf_events f) = Some rows \<and> chain_shape rows \<and>
        recompute_root_from_events x rows = pp_root (pf_proof f)) \<and>
     verify_root x (pf_chain_id f) (pp_root (pf_proof f)) (pp_chain_head (pf_proof f)) (pp_signature (pf_proof f))
       (pp_public_key (pf_proof f))"
proof -
  let ?rows = "leaf_rows x now (pf_events f)"
  have rows: "length ?rows = length (pf_events f) \<longleftrightarrow> events_to_rows x now (pf_events f) = Some ?rows"
    using leaf_rows_some [of x now "pf_events f"] by (auto simp: events_to_rows_def dest: read_all_length)
  have all: "(\<exists>rows. events_to_rows x now (pf_events f) = Some rows \<and> P rows) \<longleftrightarrow>
      events_to_rows x now (pf_events f) = Some ?rows \<and> P ?rows" for P
    by (auto dest: leaf_rows_all)
  note unfold = ei_is_valid_def verify_evidence_integrity_def Let_def eq_ignore_ascii_case_def
  show ?thesis
  proof (cases "check_event_structure x ?rows")
    case (Inl failure)
    then have "\<not> (chain_shape ?rows \<and> recompute_root_from_events x ?rows = pp_root (pf_proof f))"
      using check_structure_Inr [OF assms, of ?rows "pp_root (pf_proof f)"] by auto
    with Inl show ?thesis unfolding all by (auto simp: unfold)
  next
    case (Inr root)
    then have "chain_shape ?rows" "root = recompute_root_from_events x ?rows"
      using check_structure_Inr [OF assms, of ?rows root] by simp_all
    with Inr show ?thesis
      unfolding all rows [symmetric]
      by (cases "find (\<lambda>l. el_event_id l = ev_event_id r) (pf_events f)") (auto simp: unfold)
  qed
qed

section \<open>The command\<close>

text \<open>A failed check writes nothing.\<close>

lemma failed_check_writes_nothing:
  "verify_event_evidence x k now dir proofs e c fs = (Inl err, fs') \<Longrightarrow> fs' = fs"
  by (auto simp: verify_event_evidence_def Let_def split: sum.splits if_splits option.splits)

lemma load_Inr:
  "load_file missing dec path fs = Inr a \<longleftrightarrow> (\<exists>b. fs_read fs path = Some b \<and> dec b = Some a)"
  by (auto simp: load_file_def ok_or_def fs_read_def Option.bind_eq_Some_conv split: option.splits if_splits)

lemma verify_event_evidence_Inr:
  assumes "verify_event_evidence x k now dir proofs e c fs = (Inr p, fs')"
  obtains r f where "load_evidence (ec_dec k) (evidence_file_path x dir e) fs = Inr r"
    "load_proof (ec_proof k) (proof_file_path x proofs c e) fs = Inr f"
    "ei_is_valid (verify_evidence_integrity x now r f)"
    "write_evidence_record (ec_enc k) dir (refresh_lifecycle x now f r) fs = Some fs'"
    "ee_lifecycle p = ev_lifecycle_status (refresh_lifecycle x now f r)"
    "ee_integrity p = verify_evidence_integrity x now r f" "ee_registered_root p = pp_root (pf_proof f)"
  using assms by (auto simp: verify_event_evidence_def Let_def split: sum.splits if_splits option.splits)

text \<open>A success leaves the record where it was read, no less advanced, and running the command again changes
  nothing more.\<close>

lemma refresh_id [simp]: "ev_evidence_id (refresh_lifecycle x now f r) = ev_evidence_id r"
  by (simp add: refresh_lifecycle_def Let_def)

lemma refresh_rank: "lifecycle_rank (ev_lifecycle_status r) \<le> lifecycle_rank (ev_lifecycle_status (refresh_lifecycle x now f r))"
  by (simp add: refresh_lifecycle_def Let_def advance_rank)

lemma refresh_integrity [simp]:
  "verify_evidence_integrity x now' (refresh_lifecycle x now f r) g = verify_evidence_integrity x now' r g"
  by (simp add: refresh_lifecycle_def Let_def)

lemma verify_twice:
  assumes run: "verify_event_evidence x k now dir proofs e c fs = (Inr p, fs')"
    and codec: "\<And>r. ec_dec k (ec_enc k r) = Some r"
    and same: "\<And>r. load_evidence (ec_dec k) (evidence_file_path x dir e) fs = Inr r \<Longrightarrow> ev_evidence_id r = evidence_id_for_event x e"
    and other: "proof_file_path x proofs c e \<noteq> evidence_file_path x dir e"
  shows "verify_event_evidence x k now dir proofs e c fs' = (Inr p, fs')"
proof -
  obtain r f where rf: "load_evidence (ec_dec k) (evidence_file_path x dir e) fs = Inr r"
    "load_proof (ec_proof k) (proof_file_path x proofs c e) fs = Inr f"
    "ei_is_valid (verify_evidence_integrity x now r f)"
    "write_evidence_record (ec_enc k) dir (refresh_lifecycle x now f r) fs = Some fs'"
    by (rule verify_event_evidence_Inr [OF run]) (rule that)
  let ?path = "evidence_file_path x dir e" and ?r = "refresh_lifecycle x now f r"
  have path: "evidence_path dir (ev_evidence_id r) = ?path" using same [OF rf(1)] by (simp add: evidence_file_path_def)
  from rf(4) have fs': "fs' = fs\<lparr> fs_file := (fs_file fs)(?path \<mapsto> ec_enc k ?r) \<rparr>" "fs_mkdir_ok fs dir" "fs_write_ok fs ?path"
    by (auto simp: write_evidence_record_def Let_def path split: if_splits)
  have "fs_readable fs ?path" using rf(1) by (auto simp: load_evidence_def load_Inr fs_read_def split: if_splits)
  then have again: "load_evidence (ec_dec k) ?path fs' = Inr ?r"
    by (simp add: load_evidence_def load_Inr fs'(1) fs_read_def codec)
  have proof': "load_proof (ec_proof k) (proof_file_path x proofs c e) fs' = Inr f"
    using rf(2) other by (auto simp: load_proof_def load_Inr fs'(1) fs_read_def split: if_splits)
  have stored: "write_evidence_record (ec_enc k) dir ?r fs' = Some fs'"
    using fs'(2,3) by (simp add: write_evidence_record_def Let_def path) (simp add: fs'(1))
  from run rf have "p = \<lparr> ee_integrity = verify_evidence_integrity x now r f, ee_lifecycle = ev_lifecycle_status ?r,
      ee_tsa_status = ev_tsa_status ?r, ee_registered_root = pp_root (pf_proof f),
      ee_recomputed_root = ei_recomputed_root (verify_evidence_integrity x now r f) \<rparr>"
    by (simp add: verify_event_evidence_def Let_def)
  then show ?thesis
    using rf(3) by (simp add: verify_event_evidence_def again proof' Let_def refresh_idem stored)
qed

section \<open>Which evidence is accepted\<close>

text \<open>A proof exported for a stored chain verifies the record of each of its events.\<close>

lemma read_exported_file:
  assumes "chain_events c d \<noteq> []" "length (chain_events c d) < 2 ^ 64"
    and "\<And>t. find (\<lambda>t. t_chain_id t = c \<and> t_merkle_root t = recompute_root_from_events x (chain_events c d))
       (tsa_tokens d) = Some t \<Longrightarrow> length (t_tsa_token t) < 2 ^ 63"
  defines "es \<equiv> chain_events c d"
  defines "root \<equiv> recompute_root_from_events x es" and "head \<equiv> x_uuid_str x (er_event_id (last es))"
  shows "\<exists>tsa. read_proof_file (export_proof x s c d) = Some \<lparr> pf_leaf_version = leaf_version, pf_chain_id = x_uuid_str x c,
     pf_head_event_id = head,
     pf_proof = \<lparr> pp_root = root, pp_chain_head = head,
       pp_signature = sign_root x s (x_uuid_str x c) root head, pp_public_key = public_key_hex x s,
       pp_leaves_count = length es, pp_version = Some proof_version, pp_type = Some proof_type \<rparr>,
     pf_events = map (leaf_of x) es, pf_tsa = tsa \<rparr>"
proof -
  let ?tsa = "find (\<lambda>t. t_chain_id t = c \<and> t_merkle_root t = root) (tsa_tokens d)"
  have "\<exists>tsa. maybe (JObject [(''tsa'', JOpt tsa_json ?tsa)]) ''tsa'' read_tsa = Some tsa"
  proof (cases ?tsa)
    case (Some t)
    then have "int (length (t_tsa_token t)) < 2 ^ 63" using assms(3) by (simp add: root_def es_def)
    then show ?thesis
      by (simp add: Some maybe_def tsa_json_def read_tsa_def JOpt_def)
  qed (simp add: maybe_def JOpt_def)
  then obtain tsa where tsa: "maybe (JObject [(''tsa'', JOpt tsa_json ?tsa)]) ''tsa'' read_tsa = Some tsa" by blast
  then have "maybe (export_proof x s c d) ''tsa'' read_tsa = Some tsa"
    using assms(1) by (simp add: export_proof_def Let_def maybe_def root_def es_def)
  then show ?thesis
    using assms(1,2)
    by (simp add: read_proof_file_def need_def export_proof_def Let_def proof_json_def read_payload_def maybe_def
        JUuid_def leaf_version_def proof_version_def proof_type_def es_def root_def head_def)
qed

text \<open>Whoever signed it: the check takes the key from the proof file itself, so a sound chain signed by any key
  verifies the record of each of its events.\<close>

lemma signed_proof_valid:
  assumes "sha_ok x" "hex_ok x" "uuid_ok x" "ed_ok x" "signer_ok x s" "chain_shape es" "distinct (map er_event_id es)"
    and e: "e \<in> set es" "ev_event_id r = x_uuid_str x (er_event_id e)"
      "to_ascii_lowercase (ev_sha256 r) = to_ascii_lowercase (er_file_hash e)"
    and f: "pf_chain_id f = ev_chain_id r" "pf_events f = map (leaf_of x) es"
      "pp_root (pf_proof f) = recompute_root_from_events x es" "pp_public_key (pf_proof f) = public_key_hex x s"
      "pp_signature (pf_proof f) = sign_root x s (pf_chain_id f) (pp_root (pf_proof f)) (pp_chain_head (pf_proof f))"
  shows "ei_is_valid (verify_evidence_integrity x now r f)"
proof -
  let ?P = "\<lambda>l. el_event_id l = ev_event_id r"
  have "find ?P (pf_events f) \<noteq> None"
    using e(1,2) f(2) by (auto simp: find_None_iff leaf_of_def)
  then obtain l where l: "find ?P (pf_events f) = Some l" by blast
  from find_SomeD [OF l] obtain e' where e': "e' \<in> set es" "l = leaf_of x e'" "?P l" by (auto simp: f(2))
  then have "er_event_id e' = er_event_id e"
    using e(2) uuid_str_inj [OF assms(3)] by (simp add: leaf_of_def)
  then have "e' = e" by (rule distinct_key_eq [OF assms(7) e'(1) e(1)])
  then have hash: "to_ascii_lowercase (el_file_hash l) = to_ascii_lowercase (ev_sha256 r)"
    using e(3) e'(2) by (simp add: leaf_of_def)
  have "events_to_rows x now (pf_events f) = Some (map (restamp now) es)"
    unfolding f(2) by (rule rows_of_leaves [OF assms(3)])
  then have rows: "\<exists>rows. events_to_rows x now (pf_events f) = Some rows \<and> chain_shape rows \<and>
      recompute_root_from_events x rows = pp_root (pf_proof f)"
    using assms(6) f(3) by simp
  have "verify_root x (pf_chain_id f) (pp_root (pf_proof f)) (pp_chain_head (pf_proof f)) (pp_signature (pf_proof f))
      (pp_public_key (pf_proof f))"
    unfolding f(4,5) by (rule verify_sign [OF assms(2,4,5)])
  with l hash rows f(1) show ?thesis unfolding integrity_valid [OF assms(1,2)] by blast
qed

lemma stored_ids_distinct:
  assumes "ledger_ok d"
  shows "distinct (map er_event_id (chain_events c d))"
proof -
  have "distinct (map e_event_id (chain_rows c d))"
    using assms distinct_map_filter by (auto simp: ledger_ok_def)
  then show ?thesis by (simp add: chain_events_rows [OF ledger_okD [OF assms]] comp_def)
qed

lemma exported_evidence:
  assumes "ext_ok x" "signer_ok x s" "ledger_ok d" "e \<in> set (chain_events c d)"
    and "\<And>t. t \<in> set (tsa_tokens d) \<Longrightarrow> length (t_tsa_token t) < 2 ^ 63"
    and "ev_event_id r = x_uuid_str x (er_event_id e)" "ev_chain_id r = x_uuid_str x c"
      "to_ascii_lowercase (ev_sha256 r) = to_ascii_lowercase (er_file_hash e)"
  obtains f where "read_proof_file (export_proof x s c d) = Some f" "ei_is_valid (verify_evidence_integrity x now r f)"
proof -
  have ok: "sha_ok x" "hex_ok x" "uuid_ok x" "ed_ok x" using assms(1) by (simp_all add: ext_ok_def)
  have inv: "chain_inv c d" using assms(3) by (rule ledger_okD)
  have some: "chain_events c d \<noteq> []" using assms(4) by auto
  have len: "length (chain_events c d) < 2 ^ 64" using inv by (simp add: chain_events_rows chain_inv_def)
  obtain tsa where f: "read_proof_file (export_proof x s c d) = Some
     \<lparr> pf_leaf_version = leaf_version, pf_chain_id = x_uuid_str x c,
       pf_head_event_id = x_uuid_str x (er_event_id (last (chain_events c d))),
       pf_proof = \<lparr> pp_root = recompute_root_from_events x (chain_events c d),
         pp_chain_head = x_uuid_str x (er_event_id (last (chain_events c d))),
         pp_signature = sign_root x s (x_uuid_str x c) (recompute_root_from_events x (chain_events c d))
           (x_uuid_str x (er_event_id (last (chain_events c d)))),
         pp_public_key = public_key_hex x s, pp_leaves_count = length (chain_events c d),
         pp_version = Some proof_version, pp_type = Some proof_type \<rparr>,
       pf_events = map (leaf_of x) (chain_events c d), pf_tsa = tsa \<rparr>"
    using read_exported_file [OF some len assms(5)] by (auto dest: find_SomeD)
  show thesis
    by (rule that [OF f], rule signed_proof_valid [OF ok assms(2) chain_inv_shape [OF inv] stored_ids_distinct [OF assms(3)]
          assms(4,6,8)])
      (simp_all add: assms(7))
qed

end
