(* ===== verification/Client.thy ===== *)
theory Client
  imports Fixation Evidence Credentials Service
begin

text \<open>
  The HTTP client of the desktop programs, \<open>src/client.rs\<close>: its credentials, its requests and what it makes
  of the answers.  \<open>send\<close> is the network: the answer to a request.
\<close>

section \<open>Credentials\<close>

record EvidentClient =
  cl_base_url :: string
  cl_api_key :: "string option"
  cl_desktop_token :: "string option"

text \<open>The two environment variables, and the text of the key file where it can be read.\<close>

record client_env =
  ce_desktop_token :: "string option"
  ce_api_key :: "string option"
  ce_key_file :: "string option"

definition load_desktop_token :: "client_env \<Rightarrow> string option" where
  "load_desktop_token v = (case ce_desktop_token v of
     None \<Rightarrow> None
   | Some key \<Rightarrow> (let key = trim key in if prefix ''desktop_'' key \<and> key \<noteq> [] then Some key else None))"

definition load_api_key :: "client_env \<Rightarrow> string option" where
  "load_api_key v =
     (case (case ce_api_key v of None \<Rightarrow> None | Some key \<Rightarrow> (let key = trim key in if key \<noteq> [] then Some key else None)) of
        Some key \<Rightarrow> Some key
      | None \<Rightarrow> (case ce_key_file v of None \<Rightarrow> None | Some s \<Rightarrow> if trim s \<noteq> [] then Some (trim s) else None))"

definition client_new :: "string \<Rightarrow> client_env \<Rightarrow> EvidentClient" where
  "client_new base_url v =
     (let desktop_token = load_desktop_token v in
      \<lparr> cl_base_url = base_url, cl_api_key = (if desktop_token \<noteq> None then None else load_api_key v),
        cl_desktop_token = desktop_token \<rparr>)"

definition with_api_key :: "string \<Rightarrow> EvidentClient \<Rightarrow> EvidentClient" where
  "with_api_key key c = c\<lparr> cl_api_key := Some key, cl_desktop_token := None \<rparr>"

definition with_desktop_token :: "string \<Rightarrow> EvidentClient \<Rightarrow> EvidentClient" where
  "with_desktop_token token c = c\<lparr> cl_desktop_token := Some token, cl_api_key := None \<rparr>"

definition has_credentials :: "EvidentClient \<Rightarrow> bool" where
  "has_credentials c \<longleftrightarrow> cl_desktop_token c \<noteq> None \<or> cl_api_key c \<noteq> None"

definition uses_desktop_token :: "EvidentClient \<Rightarrow> bool" where
  "uses_desktop_token c \<longleftrightarrow> cl_desktop_token c \<noteq> None"

section \<open>Requests and answers\<close>

record http_request =
  rq_method :: string
  rq_url :: string
  rq_query :: "(string \<times> string) list"
  rq_authorization :: "string option"
  rq_api_key :: "string option"
  rq_body :: "json option"

definition http_get :: "string \<Rightarrow> http_request" where
  "http_get url = \<lparr> rq_method = ''GET'', rq_url = url, rq_query = [], rq_authorization = None, rq_api_key = None,
     rq_body = None \<rparr>"

definition http_post :: "string \<Rightarrow> json \<Rightarrow> http_request" where
  "http_post url body = \<lparr> rq_method = ''POST'', rq_url = url, rq_query = [], rq_authorization = None, rq_api_key = None,
     rq_body = Some body \<rparr>"

definition authed :: "EvidentClient \<Rightarrow> http_request \<Rightarrow> http_request" where
  "authed c r = (case cl_desktop_token c of
     Some token \<Rightarrow> r\<lparr> rq_authorization := Some (''Bearer '' @ token) \<rparr>
   | None \<Rightarrow> (case cl_api_key c of Some key \<Rightarrow> r\<lparr> rq_api_key := Some key \<rparr> | None \<Rightarrow> r))"

text \<open>An error of the request, of the body or of its JSON is \<open>CeHttp\<close>.\<close>

datatype ClientError = CeHttp | CeIo | CeJson | CeServer string

definition reply_json :: "(string \<Rightarrow> json option) \<Rightarrow> (json \<Rightarrow> 'a option) \<Rightarrow> http_reply \<Rightarrow> ClientError + 'a" where
  "reply_json parse f reply = (case reply of
     HttpReply _ body \<Rightarrow> ok_or CeHttp (Option.bind (parse body) f) | _ \<Rightarrow> Inl CeHttp)"

text \<open>The status is looked at first; \<open>resp.text().unwrap_or_default()\<close> of a refusal is empty where the body is lost.\<close>

definition checked_reply ::
  "(nat \<Rightarrow> string \<Rightarrow> ClientError) \<Rightarrow> (http_reply \<Rightarrow> ClientError + 'a) \<Rightarrow> http_reply \<Rightarrow> ClientError + 'a" where
  "checked_reply refusal accept reply = (case reply of
     RequestTimeout \<Rightarrow> Inl CeHttp
   | RequestFailed _ \<Rightarrow> Inl CeHttp
   | BodyFailed status _ \<Rightarrow> if is_success status then accept reply else Inl (refusal status [])
   | HttpReply status body \<Rightarrow> if is_success status then accept reply else Inl (refusal status body))"

definition reply_bytes :: "http_reply \<Rightarrow> ClientError + byte list" where
  "reply_bytes reply = (case reply of HttpReply _ body \<Rightarrow> Inr (str_bytes body) | _ \<Rightarrow> Inl CeHttp)"

definition body_error :: "nat \<Rightarrow> string \<Rightarrow> ClientError" where
  "body_error status body = CeServer body"

definition map_http_error :: "(string \<Rightarrow> json option) \<Rightarrow> (nat \<Rightarrow> string) \<Rightarrow> nat \<Rightarrow> string \<Rightarrow> ClientError" where
  "map_http_error parse show_status status body =
     (case parse body of
        None \<Rightarrow> CeServer (''server error '' @ show_status status @ '': '' @ body)
      | Some j \<Rightarrow>
          (let field = (\<lambda>k. Option.bind (json_get j k) json_str) in
           if field ''error'' = Some ''feature_not_available'' \<and> field ''feature'' = Some ''server_backup'' then
             CeServer (''Server backup is not available on your plan ('' @
               (case field ''plan'' of Some p \<Rightarrow> p | None \<Rightarrow> ''current'') @
               ''). Upgrade to Vault or Identity to use this feature.'')
           else if field ''error'' = Some ''not_found'' then CeServer ''Backup not found (or not owned by this account).''
           else (case field ''error'' of
               Some msg \<Rightarrow> CeServer (''server error '' @ show_status status @ '': '' @ msg)
             | None \<Rightarrow> CeServer (''server error '' @ show_status status @ '': '' @ body))))"

section \<open>Operations\<close>

record network =
  nw_send :: "http_request \<Rightarrow> http_reply"
  nw_parse :: "string \<Rightarrow> json option"
  nw_show_status :: "nat \<Rightarrow> string"

definition client_error :: "network \<Rightarrow> nat \<Rightarrow> string \<Rightarrow> ClientError" where
  "client_error n = map_http_error (nw_parse n) (nw_show_status n)"

definition fetch_me :: "network \<Rightarrow> EvidentClient \<Rightarrow> ClientError + json" where
  "fetch_me n c = checked_reply (\<lambda>status _. CeServer (''GET /v1/me failed: '' @ nw_show_status n status))
     (reply_json (nw_parse n) Some) (nw_send n (authed c (http_get (cl_base_url c @ ''/v1/me''))))"

definition lookup_public_proof_id :: "network \<Rightarrow> EvidentClient \<Rightarrow> string \<Rightarrow> string option" where
  "lookup_public_proof_id n c file_hash =
     (case checked_reply body_error (reply_json (nw_parse n) Some)
        (nw_send n ((http_get (cl_base_url c @ ''/public/verify''))\<lparr> rq_query := [(''file_hash'', file_hash)] \<rparr>)) of
        Inl _ \<Rightarrow> None
      | Inr v \<Rightarrow> (case Option.bind (json_get v ''public_proof_id'') json_str of
          None \<Rightarrow> None | Some s \<Rightarrow> if s \<noteq> [] then Some s else None))"

definition client_head_event_id :: "ext \<Rightarrow> network \<Rightarrow> EvidentClient \<Rightarrow> uuid \<Rightarrow> ClientError + uuid option" where
  "client_head_event_id x n c chain_id =
     bind_res (reply_json (nw_parse n) Some (nw_send n (http_get (cl_base_url c @ ''/verify/'' @ x_uuid_str x chain_id))))
       (\<lambda>j. Inr (Option.bind (Option.bind (json_get j ''head_event_id'') json_str) (x_uuid_parse x)))"

definition fetch_identity :: "network \<Rightarrow> EvidentClient \<Rightarrow> ClientError + string" where
  "fetch_identity n c =
     bind_res (reply_json (nw_parse n) Some (nw_send n (http_get (cl_base_url c @ ''/identity''))))
       (\<lambda>j. ok_or (CeServer ''identity response missing public_key'') (Option.bind (json_get j ''public_key'') json_str))"

record VerifyResponse =
  vy_chain_id :: string
  vy_valid :: bool
  vy_blocks :: nat
  vy_errors :: "string list"
  vy_head_event_id :: string
  vy_proof :: ProofPayload

definition read_verify_response :: "json \<Rightarrow> VerifyResponse option" where
  "read_verify_response j =
     Option.bind (need j ''chain_id'' json_str) (\<lambda>c.
     Option.bind (need j ''valid'' read_bool) (\<lambda>valid.
     Option.bind (need j ''blocks'' read_usize) (\<lambda>blocks.
     Option.bind (need j ''errors'' (read_vec json_str)) (\<lambda>errors.
     Option.bind (need j ''head_event_id'' json_str) (\<lambda>h.
     Option.bind (need j ''proof'' read_payload) (\<lambda>p.
     Some \<lparr> vy_chain_id = c, vy_valid = valid, vy_blocks = blocks, vy_errors = errors, vy_head_event_id = h,
       vy_proof = p \<rparr>))))))"

definition client_verify_chain :: "ext \<Rightarrow> network \<Rightarrow> EvidentClient \<Rightarrow> uuid \<Rightarrow> ClientError + VerifyResponse" where
  "client_verify_chain x n c chain_id = checked_reply body_error (reply_json (nw_parse n) read_verify_response)
     (nw_send n (http_get (cl_base_url c @ ''/verify/'' @ x_uuid_str x chain_id)))"

definition fetch_proof :: "ext \<Rightarrow> network \<Rightarrow> EvidentClient \<Rightarrow> uuid \<Rightarrow> ClientError + ProofFile" where
  "fetch_proof x n c chain_id = checked_reply body_error (reply_json (nw_parse n) read_proof_file)
     (nw_send n (http_get (cl_base_url c @ ''/verify/proof/'' @ x_uuid_str x chain_id)))"

definition fetch_capabilities :: "network \<Rightarrow> EvidentClient \<Rightarrow> ClientError + json" where
  "fetch_capabilities n c = checked_reply (client_error n) (reply_json (nw_parse n) Some)
     (nw_send n (authed c (http_get (cl_base_url c @ ''/account/capabilities''))))"

record DevChangePlanResponse =
  dp_success :: bool
  dp_old_plan :: string
  dp_new_plan :: string

definition read_dev_change_plan :: "json \<Rightarrow> DevChangePlanResponse option" where
  "read_dev_change_plan j =
     Option.bind (need j ''success'' read_bool) (\<lambda>ok.
     Option.bind (need j ''old_plan'' json_str) (\<lambda>old.
     Option.bind (need j ''new_plan'' json_str) (\<lambda>new.
     Some \<lparr> dp_success = ok, dp_old_plan = old, dp_new_plan = new \<rparr>)))"

definition dev_change_plan ::
  "ext \<Rightarrow> network \<Rightarrow> EvidentClient \<Rightarrow> uuid \<Rightarrow> string \<Rightarrow> ClientError + DevChangePlanResponse" where
  "dev_change_plan x n c account_id plan = checked_reply (client_error n) (reply_json (nw_parse n) read_dev_change_plan)
     (nw_send n (authed c (http_post (cl_base_url c @ ''/account/dev/change-plan'')
       (JObject [(''account_id'', JUuid x account_id), (''plan'', JString plan)]))))"

record BackupCreateResponse =
  bc_backup_id :: string
  bc_status :: string
  bc_event_count :: i64

record ClientBackupItem =
  bl_backup_id :: string
  bl_chain_id :: string
  bl_created_at :: string
  bl_event_count :: i64

definition read_backup_create :: "json \<Rightarrow> BackupCreateResponse option" where
  "read_backup_create j =
     Option.bind (need j ''backup_id'' json_str) (\<lambda>i.
     Option.bind (need j ''status'' json_str) (\<lambda>s.
     Option.bind (need j ''event_count'' read_i64) (\<lambda>n.
     Some \<lparr> bc_backup_id = i, bc_status = s, bc_event_count = n \<rparr>)))"

definition read_backup_item :: "json \<Rightarrow> ClientBackupItem option" where
  "read_backup_item j =
     Option.bind (need j ''backup_id'' json_str) (\<lambda>i.
     Option.bind (need j ''chain_id'' json_str) (\<lambda>c.
     Option.bind (need j ''created_at'' json_str) (\<lambda>t.
     Option.bind (need j ''event_count'' read_i64) (\<lambda>n.
     Some \<lparr> bl_backup_id = i, bl_chain_id = c, bl_created_at = t, bl_event_count = n \<rparr>))))"

definition client_backup_create :: "ext \<Rightarrow> network \<Rightarrow> EvidentClient \<Rightarrow> uuid \<Rightarrow> ClientError + BackupCreateResponse" where
  "client_backup_create x n c chain_id = checked_reply (client_error n) (reply_json (nw_parse n) read_backup_create)
     (nw_send n (authed c (http_post (cl_base_url c @ ''/backup/create'') (JObject [(''chain_id'', JUuid x chain_id)]))))"

definition client_backup_export :: "ext \<Rightarrow> network \<Rightarrow> EvidentClient \<Rightarrow> uuid \<Rightarrow> ClientError + byte list" where
  "client_backup_export x n c chain_id = checked_reply (client_error n) reply_bytes
     (nw_send n (authed c (http_post (cl_base_url c @ ''/backup/export'') (JObject [(''chain_id'', JUuid x chain_id)]))))"

definition client_backup_list :: "network \<Rightarrow> EvidentClient \<Rightarrow> ClientError + ClientBackupItem list" where
  "client_backup_list n c = checked_reply (client_error n) (reply_json (nw_parse n) (read_vec read_backup_item))
     (nw_send n (authed c (http_get (cl_base_url c @ ''/backup/list''))))"

definition client_backup_download :: "ext \<Rightarrow> network \<Rightarrow> EvidentClient \<Rightarrow> uuid \<Rightarrow> ClientError + byte list" where
  "client_backup_download x n c backup_id = checked_reply (client_error n) reply_bytes
     (nw_send n (authed c (http_get (cl_base_url c @ ''/backup/'' @ x_uuid_str x backup_id @ ''/download''))))"

section \<open>Submission\<close>

text \<open>What a submission takes from outside besides the network: the home directory, the key it draws, the clock,
  version 5 UUIDs and the texts of records and proof files.\<close>

record submit_env =
  se_home :: string
  se_key :: uuid
  se_now :: timestamp
  se_uuid_v5 :: "uuid \<Rightarrow> byte list \<Rightarrow> uuid"
  se_codec :: evidence_codec
  se_pretty :: "ProofFile \<Rightarrow> byte list"

definition evident_dir :: "submit_env \<Rightarrow> string" where
  "evident_dir v = path_join (se_home v) ''.evident''"

definition submission_body :: "ext \<Rightarrow> uuid \<Rightarrow> uuid option \<Rightarrow> string \<Rightarrow> uuid \<Rightarrow> json" where
  "submission_body x chain_id parent_event_id file_hash key = JObject
     [(''chain_id'', JUuid x chain_id), (''parent_event_id'', JOpt (JUuid x) parent_event_id),
      (''file_hash'', JString file_hash), (''idempotency_key'', JUuid x key)]"

text \<open>The record is written where both identifiers parse; a failure of that write is ignored.\<close>

definition save_evidence ::
  "ext \<Rightarrow> submit_env \<Rightarrow> CommitResponse \<Rightarrow> string \<Rightarrow> byte list \<Rightarrow> EvidenceFileMeta \<Rightarrow> string \<Rightarrow> filesystem \<Rightarrow> filesystem" where
  "save_evidence x v commit file_hash file_bytes meta proof_path fs =
     (case (x_uuid_parse x (cr_event_id commit), x_uuid_parse x (cr_chain_id commit)) of
        (Some event_uuid, Some chain_uuid) \<Rightarrow>
          (case write_evidence_record (ec_enc (se_codec v)) (path_join (evident_dir v) ''evidence'')
              (build_registered_record x (se_uuid_v5 v) event_uuid chain_uuid file_hash
                (Some (of_nat (length file_bytes))) meta (cr_tsa commit) (Some proof_path) (se_now v)) fs of
             None \<Rightarrow> fs | Some fs' \<Rightarrow> fs')
      | _ \<Rightarrow> fs)"

definition submit_event_with_meta ::
  "ext \<Rightarrow> network \<Rightarrow> submit_env \<Rightarrow> EvidentClient \<Rightarrow> uuid \<Rightarrow> byte list \<Rightarrow> EvidenceFileMeta \<Rightarrow> filesystem
    \<Rightarrow> (ClientError + CommitResponse \<times> string \<times> string) \<times> filesystem" where
  "submit_event_with_meta x n v c chain_id file_bytes meta fs =
     (let file_hash = sha_hex x file_bytes in
      case client_head_event_id x n c chain_id of Inl e \<Rightarrow> (Inl e, fs) | Inr parent_event_id \<Rightarrow>
      (case checked_reply body_error (reply_json (nw_parse n) read_commit)
          (nw_send n (authed c (http_post (cl_base_url c @ ''/events'')
            (submission_body x chain_id parent_event_id file_hash (se_key v))))) of
         Inl e \<Rightarrow> (Inl e, fs)
       | Inr commit \<Rightarrow>
           (let proof_dir = join_path (path_join (evident_dir v) ''proofs'') (cr_chain_id commit);
                proof_path = join_path proof_dir (cr_event_id commit @ ''.json'') in
            if \<not> fs_mkdir_ok fs proof_dir then (Inl CeIo, fs)
            else if \<not> fs_write_ok fs proof_path then (Inl CeIo, fs)
            else (Inr (commit, proof_path, file_hash),
              save_evidence x v commit file_hash file_bytes meta proof_path
                (fs\<lparr> fs_file := (fs_file fs)(proof_path \<mapsto> se_pretty v (proof_file_of commit)) \<rparr>)))))"

definition client_submit_event ::
  "ext \<Rightarrow> network \<Rightarrow> submit_env \<Rightarrow> EvidentClient \<Rightarrow> uuid \<Rightarrow> byte list \<Rightarrow> filesystem
    \<Rightarrow> (ClientError + CommitResponse \<times> string \<times> string) \<times> filesystem" where
  "client_submit_event x n v c chain_id file_bytes fs = submit_event_with_meta x n v c chain_id file_bytes default_meta fs"

section \<open>Credentials\<close>

text \<open>A client sends one credential, the desktop token before the key, and sends one exactly when it has one.\<close>

lemma one_credential:
  "rq_authorization (authed c (http_post url body)) = None \<or> rq_api_key (authed c (http_post url body)) = None"
  "has_credentials c \<longleftrightarrow> rq_authorization (authed c (http_post url body)) \<noteq> None \<or> rq_api_key (authed c (http_post url body)) \<noteq> None"
  by (auto simp: authed_def http_post_def has_credentials_def split: option.split)

lemma loaded_credentials:
  "cl_desktop_token (client_new url v) = Some t \<Longrightarrow> prefix ''desktop_'' t \<and> cl_api_key (client_new url v) = None"
  "cl_api_key (client_new url v) = Some k \<Longrightarrow> k \<noteq> []"
  by (auto simp: client_new_def load_desktop_token_def load_api_key_def Let_def split: option.splits if_splits)

text \<open>The server knows a client by the token it issued.\<close>

lemma client_authenticates:
  assumes "credentials_ok d" "hex_ok x" "length b = 16" "create_desktop_token x now clock fresh b acc d = (Inr t, d')"
    and "ce_desktop_token v = Some (cd_plaintext t)" "at < clock + 30 * day"
    and "r = authed (client_new url v) (http_post u body)"
  shows "fst (resolve_authed_account x at (rq_authorization r) (rq_api_key r) d') =
     Inr \<lparr> auth_account_id = acc, auth_key_hash = hash_secret_hex x (x_hex_encode x b) \<rparr>"
proof -
  have p: "cd_plaintext t = desktop_token_prefix @ x_hex_encode x b"
    by (rule create_desktop_token_Inr(1) [OF assms(1,4)])
  have "list_all is_graph (cd_plaintext t)"
    using assms(2) is_lower_hex_graph by (auto simp: p hex_ok_def list_all_iff desktop_token_prefix_def is_graph_def)
  then have "trim (cd_plaintext t) = cd_plaintext t" by (rule trim_graph)
  then have "cl_desktop_token (client_new url v) = Some (cd_plaintext t)"
    by (simp add: client_new_def load_desktop_token_def assms(5)) (simp add: p desktop_token_prefix_def)
  then have "rq_authorization r = Some (''Bearer '' @ cd_plaintext t)" by (simp add: assms(7) authed_def)
  then show ?thesis using desktop_token_lifecycle(1) [OF assms(1-4)] assms(6) by simp
qed

section \<open>What the legacy endpoint answers\<close>

lemma stamp_events [simp]: "chain_events c' (stamp_current_root x te c e d) = chain_events c' d"
  by (simp add: chain_events_def)

definition tokens_readable :: "db \<Rightarrow> bool" where
  "tokens_readable d \<longleftrightarrow> (\<forall>t\<in>set (tsa_tokens d). length (t_tsa_token t) < 2 ^ 63)"

text \<open>The answer as the client reads it.\<close>

definition commit_of ::
  "ext \<Rightarrow> ServerSigner \<Rightarrow> uuid \<Rightarrow> uuid \<Rightarrow> i64 \<Rightarrow> EventRow list \<Rightarrow> TsaData option \<Rightarrow> CommitResponse" where
  "commit_of x s c e seq es tsa =
     (let root = recompute_root_from_events x es in
      \<lparr> cr_event_id = x_uuid_str x e, cr_chain_id = x_uuid_str x c, cr_head_event_id = x_uuid_str x e, cr_sequence = seq,
        cr_proof = \<lparr> pp_root = root, pp_chain_head = x_uuid_str x e,
          pp_signature = sign_root x s (x_uuid_str x c) root (x_uuid_str x e), pp_public_key = public_key_hex x s,
          pp_leaves_count = length es, pp_version = Some proof_version, pp_type = Some proof_type \<rparr>,
        cr_events = map (leaf_of x) es, cr_tsa = tsa, cr_cached = False \<rparr>)"

lemma read_tsa_row:
  assumes "\<And>t. r = Some t \<Longrightarrow> length (t_tsa_token t) < 2 ^ 63"
  shows "\<exists>tsa. (case JOpt tsa_json r of JNull \<Rightarrow> Some None | v \<Rightarrow> map_option Some (read_tsa v)) = Some tsa"
proof (cases r)
  case (Some t)
  then have "int (length (t_tsa_token t)) < 2 ^ 63" using assms by simp
  then show ?thesis by (simp add: Some tsa_json_def read_tsa_def maybe_def JOpt_def)
qed (simp add: JOpt_def)

lemma read_finalized:
  assumes "finalize_event_submission x te c e seq root sig pk d = (value, d')"
    and "length (chain_events c d) < 2 ^ 64" "tokens_readable d'"
    and "root = recompute_root_from_events x (chain_events c d)"
      "sig = sign_root x s (x_uuid_str x c) root (x_uuid_str x e)" "pk = public_key_hex x s"
  shows "\<exists>tsa. read_commit value = Some (commit_of x s c e seq (chain_events c d) tsa) \<and> chain_events c d' = chain_events c d"
proof -
  let ?row = "find (\<lambda>t. t_chain_id t = c \<and> t_event_id t = e) (tsa_tokens d')"
  have d': "d' = stamp_current_root x te c e d" using assms(1) by (simp add: finalize_event_submission_def Let_def)
  obtain tsa where tsa: "(case JOpt tsa_json ?row of JNull \<Rightarrow> Some None | v \<Rightarrow> map_option Some (read_tsa v)) = Some tsa"
    using read_tsa_row [of ?row] assms(3) by (auto simp: tokens_readable_def dest: find_SomeD)
  have "read_commit value = Some (commit_of x s c e seq (chain_events c d) tsa)"
    using assms(1,2,4-6) tsa
    by (auto simp: finalize_event_submission_def Let_def d' read_commit_def commit_of_def need_def maybe_def
        read_payload_def JUuid_def proof_version_def proof_type_def)
  then show ?thesis by (auto simp: d')
qed

text \<open>A new event's answer lists the whole chain, with its root and the server's signature of it.\<close>

lemma legacy_snapshot:
  assumes ok: "service_ok x s d" and acc: "ensure_chain_access_in_tx acc (sr_chain_id req) d = Inr tx"
    and ins: "insert_event_in_tx x en pool acc req tx = Inr ((eid, seq), tx1)"
    and snap: "snap = proof_snapshot_at_event x s (sr_chain_id req) eid seq tx1"
    and d1: "d1 = persist_event_signature eid (ps_signature snap) tx1"
  shows "ps_merkle_root snap = recompute_root_from_events x (chain_events (sr_chain_id req) d1) \<and>
     ps_signature snap = sign_root x s (x_uuid_str x (sr_chain_id req)) (ps_merkle_root snap) (x_uuid_str x eid) \<and>
     ps_public_key snap = public_key_hex x s"
proof -
  have tx: "ledger_ok tx" "signed_ok x s tx"
    using service_okD [OF service_ok_ensure [OF ok acc]] by simp_all
  obtain e where e: "events (persist_event_signature eid (ps_signature snap) tx1) =
      events tx @ [e\<lparr> e_signature := ps_signature snap \<rparr>]"
    "ledger_ok (persist_event_signature eid (ps_signature snap) tx1)"
    "load_event_prefix (sr_chain_id req) seq tx1 = map to_EventRow (chain_rows (sr_chain_id req) tx @ [e])"
    "e_chain_id e = sr_chain_id req"
  proof (rule commit_effect [OF tx ins snap])
    fix r e
    assume *: "e = new_event_row en req (ch_head_event_id r) seq"
      "events (persist_event_signature eid (ps_signature snap) tx1) = events tx @ [e\<lparr> e_signature := ps_signature snap \<rparr>]"
      "ledger_ok (persist_event_signature eid (ps_signature snap) tx1)"
      "load_event_prefix (sr_chain_id req) seq tx1 = map to_EventRow (chain_rows (sr_chain_id req) tx @ [e])"
    have "e_chain_id e = sr_chain_id req" by (simp only: *(1) new_event_row_simps)
    with *(2-4) show thesis by (rule that)
  qed
  have "chain_events (sr_chain_id req) d1 = map to_EventRow (chain_rows (sr_chain_id req) tx @ [e])"
    using e(1,4) chain_events_rows [OF ledger_okD [OF e(2)]] by (simp add: d1)
  then show ?thesis
    by (simp add: snap proof_snapshot_at_event_def e(3) snapshot_signature) (simp add: build_proof_snapshot_def Let_def)
qed

lemma legacy_answer:
  assumes ok: "service_ok x s d" and run: "submit_event x s en acc req d = (Inr value, d')"
    and unused: "find (\<lambda>e. e_chain_id e = sr_chain_id req \<and> e_idempotency_key e = sr_idempotency_key req) (events d) = None"
    and tokens: "tokens_readable d'"
  obtains e seq tsa where "read_commit value = Some (commit_of x s (sr_chain_id req) (er_event_id e) seq
      (chain_events (sr_chain_id req) d') tsa)"
    "e \<in> set (chain_events (sr_chain_id req) d')" "er_file_hash e = sr_file_hash req" "service_ok x s d'"
proof -
  let ?c = "sr_chain_id req"
  have not_cached: "submit_event_tx x s en acc req d \<noteq> Inr (Inl old)" for old
    using unused ensure_chain_events by (auto simp: submit_event_tx_def bind_res_Inr Let_def split: option.splits)
  then obtain eid seq snap d1 where tx: "submit_event_tx x s en acc req d = Inr (Inr ((eid, seq, snap), d1))"
    using run by (cases "submit_event_tx x s en acc req d") (auto simp: submit_event_def split: sum.splits prod.splits)
  then obtain tx tx1 where t: "ensure_chain_access_in_tx acc ?c d = Inr tx"
    "insert_event_in_tx x en d acc req tx = Inr ((eid, seq), tx1)"
    "snap = proof_snapshot_at_event x s ?c eid seq tx1" "d1 = persist_event_signature eid (ps_signature snap) tx1"
    by (rule submit_event_tx_new)
  have d1: "service_ok x s d1" unfolding t(4) by (rule service_ok_commit [OF service_ok_ensure [OF ok t(1)] t(2,3)])
  obtain e where e: "events d1 = events d @ [e]" "e_event_id e = eid" "e_chain_id e = ?c" "e_file_hash e = sr_file_hash req"
    by (rule commit_appends [OF ok t]) (rule that)
  have snap: "ps_merkle_root snap = recompute_root_from_events x (chain_events ?c d1)"
    "ps_signature snap = sign_root x s (x_uuid_str x ?c) (ps_merkle_root snap) (x_uuid_str x eid)"
    "ps_public_key snap = public_key_hex x s"
    using legacy_snapshot [OF ok t] by blast+
  obtain d2 where fin: "finalize_event_submission x (en_tsa en) ?c eid seq (ps_merkle_root snap) (ps_signature snap)
      (ps_public_key snap) d2 = (value, d')" "events d2 = events d1"
    using run tx by (auto simp: submit_event_def Let_def anchored_other_tables split: sum.splits prod.splits if_splits)
  have ch: "chain_events ?c d2 = chain_events ?c d1" by (simp add: chain_events_def fin(2))
  have inv: "chain_inv ?c d1" using d1 by (simp add: service_ok_def ledger_okD)
  have "length (chain_events ?c d2) < 2 ^ 64" using inv by (simp add: ch chain_events_rows chain_inv_def)
  from read_finalized [OF fin(1) this tokens, of s] snap obtain tsa where
    r: "read_commit value = Some (commit_of x s ?c eid seq (chain_events ?c d1) tsa)" "chain_events ?c d' = chain_events ?c d1"
    by (auto simp: ch)
  have "to_EventRow e \<in> set (chain_events ?c d')" unfolding r(2) using e(1,3) by (simp add: chain_events_def)
  moreover have "service_ok x s d'" using service_ok_submit_event [OF ok, of en acc req] run by simp
  ultimately show thesis using that [of "to_EventRow e" seq tsa] r e(2,4) by simp
qed

section \<open>A submission and its evidence\<close>

lemma uuid_text [simp]:
  assumes "uuid_ok x"
  shows "x_uuid_parse x (x_uuid_str x u) = Some u" "join_path p (x_uuid_str x u) = path_join p (x_uuid_str x u)"
    "join_path p (x_uuid_str x u @ t) = path_join p (x_uuid_str x u @ t)"
proof -
  have "x_uuid_str x u \<noteq> []" using assms by (auto simp: uuid_ok_def dest: spec [of _ u])
  moreover have "CHR ''/'' \<notin> set (x_uuid_str x u)" using assms by (simp add: uuid_ok_def)
  ultimately have "\<not> prefix ''/'' (x_uuid_str x u @ t)" for t by (cases "x_uuid_str x u") auto
  from this [of "[]"] this [of t] show "join_path p (x_uuid_str x u) = path_join p (x_uuid_str x u)"
    "join_path p (x_uuid_str x u @ t) = path_join p (x_uuid_str x u @ t)"
    by (simp_all add: join_path_def)
  show "x_uuid_parse x (x_uuid_str x u) = Some u" using assms by (simp add: uuid_ok_def)
qed

lemma registered_record [simp]:
  "ev_evidence_id (build_registered_record x v5 e c h n m tsa p t) = evidence_id_for_event x e"
  "ev_event_id (build_registered_record x v5 e c h n m tsa p t) = x_uuid_str x e"
  "ev_chain_id (build_registered_record x v5 e c h n m tsa p t) = x_uuid_str x c"
  "ev_sha256 (build_registered_record x v5 e c h n m tsa p t) = h"
  "ev_lifecycle_status (build_registered_record x v5 e c h n m tsa p t) = initial_lifecycle (classify_tsa_status tsa)"
  by (simp_all add: build_registered_record_def Let_def)

definition evidence_dir :: "submit_env \<Rightarrow> string" where
  "evidence_dir v = path_join (evident_dir v) ''evidence''"

definition proofs_dir :: "submit_env \<Rightarrow> string" where
  "proofs_dir v = path_join (evident_dir v) ''proofs''"

text \<open>Proof files and records are kept apart.\<close>

lemma evident_paths:
  "proof_file_path x (proofs_dir v) c e \<noteq> evidence_path (evidence_dir v) i"
proof -
  have "\<exists>h. evident_dir v = h @ ''.evident''" by (simp add: evident_dir_def path_join_def)
  then obtain h where "evident_dir v = h @ ''.evident''" ..
  then show ?thesis
    by (simp add: proof_file_path_def proofs_dir_def evidence_path_def evidence_dir_def path_join_def)
qed

definition all_writable :: "filesystem \<Rightarrow> bool" where
  "all_writable fs \<longleftrightarrow> (\<forall>p. fs_mkdir_ok fs p \<and> fs_write_ok fs p \<and> fs_readable fs p)"

text \<open>What a submission that the server accepts writes.\<close>

lemma submission_writes:
  assumes "uuid_ok x" "all_writable fs" "client_head_event_id x n c chain = Inr parent"
    and "checked_reply body_error (reply_json (nw_parse n) read_commit) (nw_send n (authed c (http_post
        (cl_base_url c @ ''/events'') (submission_body x chain parent (sha_hex x bytes) (se_key v))))) = Inr commit"
    and "cr_event_id commit = x_uuid_str x e" "cr_chain_id commit = x_uuid_str x ch"
    and "path = proof_file_path x (proofs_dir v) ch e" "r = build_registered_record x (se_uuid_v5 v) e ch (sha_hex x bytes)
      (Some (of_nat (length bytes))) meta (cr_tsa commit) (Some path) (se_now v)"
  shows "submit_event_with_meta x n v c chain bytes meta fs = (Inr (commit, path, sha_hex x bytes),
     fs\<lparr> fs_file := (fs_file fs)(path \<mapsto> se_pretty v (proof_file_of commit),
       evidence_file_path x (evidence_dir v) e \<mapsto> ec_enc (se_codec v) r) \<rparr>)"
  using assms(2-8)
  by (simp add: submit_event_with_meta_def Let_def uuid_text [OF assms(1)] save_evidence_def write_evidence_record_def
      all_writable_def proof_file_path_def proofs_dir_def evidence_dir_def evidence_file_path_def)

text \<open>A proof file saved from the server's answer.\<close>

lemma saved_proof [simp]:
  "pf_chain_id (proof_file_of (commit_of x s c e seq es tsa)) = x_uuid_str x c"
  "pf_events (proof_file_of (commit_of x s c e seq es tsa)) = map (leaf_of x) es"
  "pp_root (pf_proof (proof_file_of (commit_of x s c e seq es tsa))) = recompute_root_from_events x es"
  "pp_public_key (pf_proof (proof_file_of (commit_of x s c e seq es tsa))) = public_key_hex x s"
  "pp_chain_head (pf_proof (proof_file_of (commit_of x s c e seq es tsa))) = x_uuid_str x e"
  "pp_signature (pf_proof (proof_file_of (commit_of x s c e seq es tsa))) =
     sign_root x s (x_uuid_str x c) (recompute_root_from_events x es) (x_uuid_str x e)"
  "pf_tsa (proof_file_of (commit_of x s c e seq es tsa)) = tsa"
  by (simp_all add: proof_file_of_def commit_of_def Let_def)

lemma commit_of_simps [simp]:
  "cr_event_id (commit_of x s c e seq es tsa) = x_uuid_str x e" "cr_chain_id (commit_of x s c e seq es tsa) = x_uuid_str x c"
  "cr_tsa (commit_of x s c e seq es tsa) = tsa"
  by (simp_all add: commit_of_def Let_def)

text \<open>From the file to the verified record: the server's own endpoint answers the client's request, and the command
  that verifies evidence accepts what the client saved.\<close>

lemma submission_verifies:
  assumes ok: "ext_ok x" "signer_ok x s" "service_ok x s d"
    and server: "submit_event x s en acc req d = (Inr value, d')" "tokens_readable d'"
      "find (\<lambda>e. e_chain_id e = sr_chain_id req \<and> e_idempotency_key e = sr_idempotency_key req) (events d) = None"
    and sent: "sr_file_hash req = sha_hex x bytes"
    and net: "client_head_event_id x n c (sr_chain_id req) = Inr parent" "nw_parse n body = Some value"
      "nw_send n (authed c (http_post (cl_base_url c @ ''/events'')
         (submission_body x (sr_chain_id req) parent (sha_hex x bytes) (se_key v)))) = HttpReply 200 body"
    and codec: "\<And>r. ec_dec (se_codec v) (ec_enc (se_codec v) r) = Some r" "\<And>f. ec_proof (se_codec v) (se_pretty v f) = Some f"
    and fs: "all_writable fs"
  obtains commit path fs' e p fs'' where
    "submit_event_with_meta x n v c (sr_chain_id req) bytes meta fs = (Inr (commit, path, sha_hex x bytes), fs')"
    "x_uuid_parse x (cr_event_id commit) = Some e"
    "verify_event_evidence x (se_codec v) now (evidence_dir v) (proofs_dir v) e (sr_chain_id req) fs' = (Inr p, fs'')"
    "ee_lifecycle p = (if classify_tsa_status (cr_tsa commit) = TsConfirmed then LcCertified else LcRegistered)"
proof -
  let ?c = "sr_chain_id req"
  have xok: "sha_ok x" "hex_ok x" "uuid_ok x" "ed_ok x" using ok(1) by (simp_all add: ext_ok_def)
  obtain e seq tsa where a: "read_commit value = Some (commit_of x s ?c (er_event_id e) seq (chain_events ?c d') tsa)"
    "e \<in> set (chain_events ?c d')" "er_file_hash e = sha_hex x bytes" "service_ok x s d'"
    using legacy_answer [OF ok(3) server(1,3,2)] sent by metis
  let ?commit = "commit_of x s ?c (er_event_id e) seq (chain_events ?c d') tsa" and ?e = "er_event_id e"
  let ?path = "proof_file_path x (proofs_dir v) ?c ?e" and ?f = "proof_file_of ?commit"
  let ?r = "build_registered_record x (se_uuid_v5 v) ?e ?c (sha_hex x bytes) (Some (of_nat (length bytes))) meta tsa
      (Some ?path) (se_now v)"
  let ?fs = "fs\<lparr> fs_file := (fs_file fs)(?path \<mapsto> se_pretty v ?f,
      evidence_file_path x (evidence_dir v) ?e \<mapsto> ec_enc (se_codec v) ?r) \<rparr>"
  have reply: "checked_reply body_error (reply_json (nw_parse n) read_commit) (nw_send n (authed c (http_post
      (cl_base_url c @ ''/events'') (submission_body x ?c parent (sha_hex x bytes) (se_key v))))) = Inr ?commit"
    by (simp add: net(2,3) checked_reply_def reply_json_def is_success_def a(1))
  note run = submission_writes [OF xok(3) fs net(1) reply, of ?e ?c ?path ?r meta, simplified]
  have ledger: "ledger_ok d'" using a(4) by (simp add: service_ok_def)
  have valid: "ei_is_valid (verify_evidence_integrity x now ?r ?f)"
    by (rule signed_proof_valid [OF xok ok(2) chain_inv_shape [OF ledger_okD [OF ledger]] stored_ids_distinct [OF ledger] a(2)])
      (simp_all add: a(3))
  have loads: "load_evidence (ec_dec (se_codec v)) (evidence_file_path x (evidence_dir v) ?e) ?fs = Inr ?r"
    "load_proof (ec_proof (se_codec v)) ?path ?fs = Inr ?f"
    using fs evident_paths [of x v ?c ?e]
    by (simp_all add: load_evidence_def load_proof_def load_Inr fs_read_def all_writable_def codec evidence_file_path_def)
  have "lifecycle_rank (ev_lifecycle_status ?r) \<le> lifecycle_rank (derive_lifecycle (verify_evidence_integrity x now ?r ?f)
      (classify_tsa_status tsa))"
    using valid by (simp add: initial_lifecycle_def derive_lifecycle_def ei_is_valid_def)
  moreover have "ev_lifecycle_status ?r \<noteq> LcRevoked" by (simp add: initial_lifecycle_def)
  ultimately have life: "ev_lifecycle_status (refresh_lifecycle x now ?f ?r) =
      (if classify_tsa_status tsa = TsConfirmed then LcCertified else LcRegistered)"
    using valid by (simp add: refresh_lifecycle_def Let_def advance_lifecycle_def derive_lifecycle_def ei_is_valid_def)
  obtain fs'' where "write_evidence_record (ec_enc (se_codec v)) (evidence_dir v) (refresh_lifecycle x now ?f ?r) ?fs = Some fs''"
    using fs by (simp add: write_evidence_record_def Let_def all_writable_def)
  then obtain p where p: "verify_event_evidence x (se_codec v) now (evidence_dir v) (proofs_dir v) ?e ?c ?fs = (Inr p, fs'')"
    "ee_lifecycle p = ev_lifecycle_status (refresh_lifecycle x now ?f ?r)"
    using valid by (simp add: verify_event_evidence_def Let_def loads)
  show thesis
    by (rule that [OF run _ p(1)]) (simp_all add: p(2) life xok(3))
qed

end
