(* ===== verification/Cli.thy ===== *)
theory Cli
  imports Client
begin

text \<open>
  The command line program \<open>evident\<close>, \<open>src/bin/evident.rs\<close>.  A command takes the local files and what was
  printed so far, and returns its result with both.  The network, the clock, the listing of a directory, the
  verifier's process, the terminal and the PDF of a certificate come from the environment.  Pages of help are
  names; other texts are written out.
\<close>

section \<open>Errors\<close>

text \<open>\<open>CliPanic\<close> is no error of the program: the process stops where an index is missing.\<close>

datatype CliError =
    CliIo
  | CliJson
  | CliHttp
  | CliServer string
  | CliUsage string
  | CliNotFound string
  | CliIntegrityFailed string
  | CliPanic

text \<open>\<open>detail\<close> is the text of an error of the standard library, of JSON or of the request.\<close>

definition cli_error_text :: "(CliError \<Rightarrow> string) \<Rightarrow> CliError \<Rightarrow> string" where
  "cli_error_text detail e = (case e of
     CliServer m \<Rightarrow> ''Error: '' @ m
   | CliUsage m \<Rightarrow> m
   | CliNotFound m \<Rightarrow> m
   | CliIntegrityFailed m \<Rightarrow> m
   | _ \<Rightarrow> detail e)"

definition exit_code :: "CliError \<Rightarrow> nat" where
  "exit_code e = (case e of CliIntegrityFailed _ \<Rightarrow> 2 | CliPanic \<Rightarrow> 101 | _ \<Rightarrow> 1)"

text \<open>\<open>lower\<close> is \<open>str::to_lowercase\<close>.\<close>

definition arrow :: string where
  "arrow = map char_of [0x20 :: nat, 0xE2, 0x86, 0x92, 0x20]"

definition friendly_server_message :: "(string \<Rightarrow> string) \<Rightarrow> string \<Rightarrow> string" where
  "friendly_server_message lower raw =
     (let l = lower raw in
      if str_contains l ''unauthorized''
        \<or> str_contains l ([CHR 0x22] @ ''code'' @ [CHR 0x22] @ '':'' @ [CHR 0x22] @ ''unauthorized'' @ [CHR 0x22])
        \<or> str_contains l ''invalid api key'' \<or> str_contains l ''missing api key''
      then ''API key rejected by the server.'' @ newline @
        ''Check Dashboard'' @ arrow @ ''Account'' @ arrow @ ''API Keys, then update EVIDENT_API_KEY or ~/.evident/api_key''
      else if str_contains l ''payment_required'' \<or> str_contains l ''402''
      then ''subscription does not allow this action (payment required or past due).'' @ newline @
        ''Check Dashboard'' @ arrow @ ''Subscription''
      else trim raw)"

definition map_client_error :: "(string \<Rightarrow> string) \<Rightarrow> ClientError \<Rightarrow> CliError" where
  "map_client_error lower e = (case e of
     CeHttp \<Rightarrow> CliHttp | CeIo \<Rightarrow> CliIo | CeJson \<Rightarrow> CliJson
   | CeServer s \<Rightarrow> CliServer (friendly_server_message lower s))"

definition map_http_status_error :: "(string \<Rightarrow> string) \<Rightarrow> (nat \<Rightarrow> string) \<Rightarrow> nat \<Rightarrow> string \<Rightarrow> CliError" where
  "map_http_status_error lower show_status status body =
     (if status = 401 then CliServer (friendly_server_message lower ''unauthorized'')
      else CliServer (friendly_server_message lower
        (if trim body = [] then show_status status else show_status status @ '': '' @ body)))"

section \<open>The world of a command\<close>

datatype help_page = GlobalHelp | CommitHelp | VerifyHelp | AccountHelp | KeyHelp | ReportHelp | StatusHelp | HashHelp
  | BackupHelp | ExportHelp

datatype cli_output = Page help_page | Line string | Raw string

record cli_world =
  cw_fs :: filesystem
  cw_out :: "cli_output list"

type_synonym 'a cli = "cli_world \<Rightarrow> (CliError + 'a) \<times> cli_world"

definition cli_bind :: "'a cli \<Rightarrow> ('a \<Rightarrow> 'b cli) \<Rightarrow> 'b cli" where
  "cli_bind m f w = (case m w of (Inl e, w') \<Rightarrow> (Inl e, w') | (Inr a, w') \<Rightarrow> f a w')"

definition cli_lift :: "CliError + 'a \<Rightarrow> 'a cli" where
  "cli_lift r w = (r, w)"

definition cli_print :: "cli_output list \<Rightarrow> unit cli" where
  "cli_print os w = (Inr (), w\<lparr> cw_out := cw_out w @ os \<rparr>)"

definition cli_lines :: "string list \<Rightarrow> unit cli" where
  "cli_lines ls = cli_print (map Line ls)"

text \<open>\<open>fs::write\<close> and \<open>fs::create_dir_all\<close> with \<open>?\<close>.\<close>

definition cli_write :: "string \<Rightarrow> byte list \<Rightarrow> unit cli" where
  "cli_write path bytes w =
     (if fs_write_ok (cw_fs w) path
      then (Inr (), w\<lparr> cw_fs := (cw_fs w)\<lparr> fs_file := (fs_file (cw_fs w))(path \<mapsto> bytes) \<rparr> \<rparr>) else (Inl CliIo, w))"

definition cli_mkdir :: "string \<Rightarrow> unit cli" where
  "cli_mkdir path w = (if fs_mkdir_ok (cw_fs w) path then (Inr (), w) else (Inl CliIo, w))"

text \<open>A listing has the name and the time of the last modification of each entry.\<close>

datatype dir_listing = NoDir | DirError | Dir "(string \<times> nat) list"

datatype CertificateStatus = CertValid | CertInvalid

record CertificateInput =
  ci_status :: CertificateStatus
  ci_file_hash_valid :: bool
  ci_tsa_valid :: bool
  ci_proof_id :: string
  ci_sha256 :: string
  ci_object_type :: string
  ci_created_at_utc :: string
  ci_tsa_provider :: string
  ci_tsa_timestamp_utc :: string
  ci_tsa_token_base64 :: string
  ci_verify_url :: string
  ci_file_size_kb :: nat
  ci_file_name :: string

record cli_env =
  ce_server_url :: "string option"
  ce_token_var :: "string option"
  ce_key_var :: "string option"
  ce_network :: network
  ce_submit :: submit_env
  ce_seed :: "byte list"
  ce_chmod_ok :: bool
  ce_lower :: "string \<Rightarrow> string"
  ce_upper :: "string \<Rightarrow> string"
  ce_dir :: "filesystem \<Rightarrow> string \<Rightarrow> dir_listing"
  ce_exe_dir :: "string option"
  ce_manifest_dir :: string
  ce_spawn :: "string \<Rightarrow> string \<Rightarrow> filesystem \<Rightarrow> bool option"
  ce_detail :: "ClientError \<Rightarrow> string"
  ce_snapshot :: "byte list \<Rightarrow> string + BackupSnapshot"
  ce_answer :: "string option"
  ce_io_text :: string
  ce_rfc3339 :: string
  ce_stamp :: string
  ce_log_id :: uuid
  ce_unix :: u64
  ce_log_ok :: bool
  ce_debug :: "json option \<Rightarrow> string"
  ce_timestamp_text :: "u64 \<Rightarrow> string"
  ce_certificate :: "CertificateInput \<Rightarrow> string + byte list"
  ce_version :: string

definition cli_evident_dir :: "cli_env \<Rightarrow> string" where
  "cli_evident_dir v = evident_dir (ce_submit v)"

definition server_url :: "cli_env \<Rightarrow> string" where
  "server_url v = (case ce_server_url v of Some u \<Rightarrow> u | None \<Rightarrow> ''https://evident-ledger.com'')"

text \<open>\<open>fs::read_to_string\<close>.\<close>

definition read_text :: "filesystem \<Rightarrow> string \<Rightarrow> string option" where
  "read_text fs path = Option.bind (fs_read fs path) (\<lambda>bytes. if is_utf8 bytes then Some (bytes_str bytes) else None)"

datatype KeySource = KeyEnv | KeyFile

definition api_key_missing :: string where
  "api_key_missing = ''Error: API key missing.'' @ newline @ ''Create one in Dashboard: Account'' @ arrow @ ''API Keys'' @
     newline @ ''Then set EVIDENT_API_KEY or save it to ~/.evident/api_key''"

definition load_api_key_with_source :: "cli_env \<Rightarrow> filesystem \<Rightarrow> CliError + string \<times> KeySource" where
  "load_api_key_with_source v fs =
     (case (case ce_key_var v of None \<Rightarrow> None | Some val \<Rightarrow> if trim val \<noteq> [] then Some (trim val) else None) of
        Some key \<Rightarrow> Inr (key, KeyEnv)
      | None \<Rightarrow> (case read_text fs (path_join (cli_evident_dir v) ''api_key'') of
            None \<Rightarrow> Inl (CliUsage api_key_missing)
          | Some content \<Rightarrow> if trim content \<noteq> [] then Inr (trim content, KeyFile) else Inl (CliUsage api_key_missing)))"

definition cli_api_key :: "cli_env \<Rightarrow> string cli" where
  "cli_api_key v w = (bind_res (load_api_key_with_source v (cw_fs w)) (\<lambda>(key, _). Inr key), w)"

definition api_key_fingerprint :: "ext \<Rightarrow> string \<Rightarrow> string" where
  "api_key_fingerprint x raw = take 12 (sha_hex x (str_bytes raw))"

text \<open>The client of the commands, with what \<open>EvidentClient::new\<close> reads.\<close>

definition cli_new_client :: "cli_env \<Rightarrow> filesystem \<Rightarrow> EvidentClient" where
  "cli_new_client v fs = client_new (server_url v) \<lparr> client_env.ce_desktop_token = ce_token_var v,
     ce_api_key = ce_key_var v, ce_key_file = read_text fs (path_join (cli_evident_dir v) ''api_key'') \<rparr>"

definition evident_client :: "cli_env \<Rightarrow> EvidentClient cli" where
  "evident_client v = cli_bind (cli_api_key v) (\<lambda>_ w. (Inr (cli_new_client v (cw_fs w)), w))"

definition is_help_flag :: "string \<Rightarrow> bool" where
  "is_help_flag arg \<longleftrightarrow> arg \<in> {''help'', ''--help'', ''-h''}"

definition cli_uuid :: "ext \<Rightarrow> string \<Rightarrow> string \<Rightarrow> uuid cli" where
  "cli_uuid x msg s = cli_lift (ok_or (CliUsage msg) (x_uuid_parse x s))"

section \<open>Backups\<close>

definition client_error_text :: "cli_env \<Rightarrow> ClientError \<Rightarrow> string" where
  "client_error_text v e = (case e of
     CeHttp \<Rightarrow> ''HTTP error: '' @ ce_detail v e | CeIo \<Rightarrow> ''IO error: '' @ ce_detail v e
   | CeJson \<Rightarrow> ''JSON error: '' @ ce_detail v e | CeServer s \<Rightarrow> ''Server error: '' @ s)"

definition cli_client :: "cli_env \<Rightarrow> ClientError + 'a \<Rightarrow> 'a cli" where
  "cli_client v r = cli_lift (map_err (\<lambda>e. CliServer (client_error_text v e)) r)"

text \<open>The loop over the options of \<open>export\<close>; \<open>None\<close>: the help was asked for.\<close>

fun export_args :: "string list \<Rightarrow> string option \<times> string option \<Rightarrow> CliError + (string option \<times> string option) option" where
  "export_args [] (c, p) = Inr (Some (c, p))"
| "export_args [a] (c, p) =
     (if a = ''--chain'' then Inr (Some (None, p))
      else if a = ''--output'' then Inr (Some (c, None))
      else if is_help_flag a then Inr None
      else Inl (CliUsage (''unknown argument '' @ [CHR 0x27] @ a @ [CHR 0x27] @
        ''. usage: evident backup export --chain <uuid> [--output <path>]'')))"
| "export_args (a # b # rest) (c, p) =
     (if a = ''--chain'' then export_args rest (Some b, p)
      else if a = ''--output'' then export_args rest (c, Some b)
      else if is_help_flag a then Inr None
      else Inl (CliUsage (''unknown argument '' @ [CHR 0x27] @ a @ [CHR 0x27] @
        ''. usage: evident backup export --chain <uuid> [--output <path>]'')))"

definition cmd_backup_export :: "ext \<Rightarrow> cli_env \<Rightarrow> string list \<Rightarrow> unit cli" where
  "cmd_backup_export x v args =
     cli_bind (cli_lift (export_args args (None, None))) (\<lambda>r. case r of
       None \<Rightarrow> cli_print [Page ExportHelp]
     | Some (chain_id, output) \<Rightarrow>
         cli_bind (cli_lift (ok_or (CliUsage ''usage: evident backup export --chain <uuid>'') chain_id)) (\<lambda>chain_id.
         cli_bind (cli_uuid x ''invalid chain id'' chain_id) (\<lambda>chain_uuid.
         cli_bind (evident_client v) (\<lambda>client.
         cli_bind (cli_client v (client_backup_export x (ce_network v) client chain_uuid)) (\<lambda>bytes.
         let path = (case output of Some p \<Rightarrow> p
               | None \<Rightarrow> x_uuid_str x chain_uuid @ ''-export-'' @ ce_stamp v @ ''Z.json'') in
         cli_bind (\<lambda>w. case fs_parent (cw_fs w) path of
             Some parent \<Rightarrow> if parent \<noteq> [] then cli_mkdir parent w else (Inr (), w) | None \<Rightarrow> (Inr (), w)) (\<lambda>_.
         cli_bind (cli_write path bytes) (\<lambda>_.
         cli_lines [''snapshot exported to '' @ path])))))))"

fun flag_value :: "string \<Rightarrow> string list \<Rightarrow> string option \<Rightarrow> string option" where
  "flag_value flag [] c = c"
| "flag_value flag [a] c = (if a = flag then None else c)"
| "flag_value flag (a # b # rest) c = (if a = flag then flag_value flag rest (Some b) else flag_value flag (b # rest) c)"

definition cmd_backup_create :: "ext \<Rightarrow> cli_env \<Rightarrow> string list \<Rightarrow> unit cli" where
  "cmd_backup_create x v args =
     cli_bind (cli_lift (ok_or (CliUsage ''usage: evident backup create --chain <uuid>'') (flag_value ''--chain'' args None)))
       (\<lambda>chain_id.
     cli_bind (cli_uuid x ''invalid chain id'' chain_id) (\<lambda>chain_uuid.
     cli_bind (evident_client v) (\<lambda>client.
     cli_bind (cli_client v (client_backup_create x (ce_network v) client chain_uuid)) (\<lambda>result.
     cli_lines [''backup created'', ''backup_id:   '' @ bc_backup_id result,
       ''event_count: '' @ show_int (sint (bc_event_count result)), ''status:      '' @ bc_status result]))))"

definition cmd_backup_list :: "ext \<Rightarrow> cli_env \<Rightarrow> unit cli" where
  "cmd_backup_list x v =
     cli_bind (evident_client v) (\<lambda>client.
     cli_bind (cli_client v (client_backup_list (ce_network v) client)) (\<lambda>backups.
     if backups = [] then cli_lines [''No saved backups.'']
     else cli_lines ([''backup_id                            | created_at                  | event_count'',
         ''-------------------------------------|-----------------------------|------------''] @
       map (\<lambda>item. bl_backup_id item @ '' | '' @ bl_created_at item @ '' | '' @ show_int (sint (bl_event_count item))) backups)))"

definition cmd_backup_download :: "ext \<Rightarrow> cli_env \<Rightarrow> string list \<Rightarrow> unit cli" where
  "cmd_backup_download x v args = (case args of
     [] \<Rightarrow> cli_lift (Inl (CliUsage ''usage: evident backup download <backup_id> [--output <path>]''))
   | backup_id_str # rest \<Rightarrow>
       (let output = flag_value ''--output'' rest None in
        cli_bind (cli_uuid x ''invalid backup id'' backup_id_str) (\<lambda>backup_id.
        cli_bind (evident_client v) (\<lambda>client.
        cli_bind (cli_client v (client_backup_download x (ce_network v) client backup_id)) (\<lambda>bytes.
        let output_path = (case output of Some p \<Rightarrow> p | None \<Rightarrow> x_uuid_str x backup_id @ ''.json'') in
        cli_bind (cli_write output_path bytes) (\<lambda>_.
        cli_lines [''saved to '' @ output_path]))))))"

text \<open>The evident directory as the restore reads it.\<close>

definition listed_entries :: "cli_env \<Rightarrow> filesystem \<Rightarrow> string \<Rightarrow> entry list option" where
  "listed_entries v fs dir = (case ce_dir v fs dir of
     Dir es \<Rightarrow> Some (map (\<lambda>(name, _). (name, fs_read fs (path_join dir name))) es) | _ \<Rightarrow> None)"

definition cli_backups_dir :: "cli_env \<Rightarrow> string" where
  "cli_backups_dir v = path_join (cli_evident_dir v) ''backups''"

definition local_dir_of :: "ext \<Rightarrow> cli_env \<Rightarrow> uuid \<Rightarrow> filesystem \<Rightarrow> local_dir" where
  "local_dir_of x v backup_id fs =
     \<lparr> ld_backups = listed_entries v fs (cli_backups_dir v),
       ld_proofs = (\<lambda>c. listed_entries v fs (path_join (path_join (cli_evident_dir v) ''proofs'') (x_uuid_str x c))),
       ld_mkdir_ok = fs_mkdir_ok fs (cli_backups_dir v),
       ld_write_ok = fs_write_ok fs (path_join (cli_backups_dir v) (x_uuid_str x backup_id @ ''.json'')) \<rparr>"

definition restore_error_text :: "cli_env \<Rightarrow> RestoreError \<Rightarrow> string" where
  "restore_error_text v e = (case e of
     RestoreParse m \<Rightarrow> m | RestoreStructural m \<Rightarrow> m | Declined \<Rightarrow> ''restore cancelled''
   | RestoreIo \<Rightarrow> ''I/O error: '' @ ce_io_text v)"

definition restore_summary_lines :: "ext \<Rightarrow> cli_env \<Rightarrow> RestoreSummary \<Rightarrow> string list" where
  "restore_summary_lines x v s =
     [''Restored: chain '' @ x_uuid_str x (rs_chain_id s) @ '', '' @ digits (rs_event_count s) @ '' events.'',
      ''Saved to: '' @ path_join (cli_backups_dir v) (rs_output_name s),
      ''This restore validates structural consistency only:'',
      ''event ordering, sequence continuity, and parent linkage.'',
      ''It does not verify cryptographic authenticity or confirm'',
      ''that event contents match the authoritative ledger state.'',
      ''Before relying on restored data, run:'',
      ''  evident verify --chain '' @ x_uuid_str x (rs_chain_id s)]"

text \<open>The restore, with the question it may ask; the file is written where it accepts.\<close>

definition cli_restore :: "ext \<Rightarrow> cli_env \<Rightarrow> uuid \<Rightarrow> byte list \<Rightarrow> bool \<Rightarrow> RestoreSummary cli" where
  "cli_restore x v backup_id bytes force w =
     (case restore_snapshot_bytes x (ce_snapshot v) (\<lambda>b. nw_parse (ce_network v) (bytes_str b))
         (local_dir_of x v backup_id (cw_fs w)) backup_id bytes force
         (\<lambda>_. case ce_answer v of None \<Rightarrow> False | Some line \<Rightarrow> prompt_accepts line) of
        (Inl e, _) \<Rightarrow> (Inl (CliServer (restore_error_text v e)), w)
      | (Inr s, _) \<Rightarrow> (Inr s, w\<lparr> cw_fs := (cw_fs w)\<lparr> fs_file := (fs_file (cw_fs w))
          (path_join (cli_backups_dir v) (rs_output_name s) \<mapsto> bytes) \<rparr> \<rparr>))"

definition cmd_backup_restore :: "ext \<Rightarrow> cli_env \<Rightarrow> string list \<Rightarrow> unit cli" where
  "cmd_backup_restore x v args = (case args of
     [] \<Rightarrow> cli_lift (Inl (CliUsage ''usage: evident backup restore <backup_id> [--force]''))
   | backup_id_str # rest \<Rightarrow>
       (let force = (''--force'' \<in> set rest) in
        cli_bind (cli_uuid x ''invalid backup id'' backup_id_str) (\<lambda>backup_id.
        cli_bind (evident_client v) (\<lambda>client.
        cli_bind (cli_client v (client_backup_download x (ce_network v) client backup_id)) (\<lambda>bytes.
        cli_bind (cli_restore x v backup_id bytes force) (\<lambda>summary.
        cli_lines (restore_summary_lines x v summary)))))))"

definition cmd_backup :: "ext \<Rightarrow> cli_env \<Rightarrow> string list \<Rightarrow> unit cli" where
  "cmd_backup x v args =
     (let unknown = cli_lift (Inl (CliUsage (''Error: unknown or missing backup subcommand.'' @ newline @
          ''Usage: evident backup <export|create|list|download|restore>''))) in
      case args of
        [] \<Rightarrow> unknown
      | sub # rest \<Rightarrow>
          if is_help_flag sub then cli_print [Page BackupHelp]
          else if sub = ''export'' then cmd_backup_export x v rest
          else if sub = ''create'' then cmd_backup_create x v rest
          else if sub = ''list'' then cmd_backup_list x v
          else if sub = ''download'' then cmd_backup_download x v rest
          else if sub = ''restore'' then cmd_backup_restore x v rest
          else unknown)"

section \<open>Identity, hashes and submission\<close>

definition cmd_init :: "ext \<Rightarrow> cli_env \<Rightarrow> unit cli" where
  "cmd_init x v =
     (let dir = cli_evident_dir v; key_path = path_join dir ''identity.key''; pub_path = path_join dir ''identity.pub'' in
      cli_bind (cli_mkdir dir) (\<lambda>_ w.
        if fs_file (cw_fs w) key_path \<noteq> None then
          (case fs_read (cw_fs w) pub_path of
             None \<Rightarrow> (Inl CliIo, w)
           | Some pub_bytes \<Rightarrow> cli_lines [''identity already exists'', ''public key: '' @ x_hex_encode x pub_bytes] w)
        else
          cli_bind (cli_write key_path (ce_seed v)) (\<lambda>_.
          cli_bind (cli_write pub_path (x_ed_public x (ce_seed v))) (\<lambda>_.
          cli_bind (cli_lift (if ce_chmod_ok v then Inr () else Inl CliIo)) (\<lambda>_.
          cli_lines [''identity created'', ''public key: '' @ x_hex_encode x (x_ed_public x (ce_seed v))]))) w))"

definition cmd_hash :: "ext \<Rightarrow> string \<Rightarrow> unit cli" where
  "cmd_hash x path w = (case fs_read (cw_fs w) path of
     None \<Rightarrow> (Inl CliIo, w) | Some bytes \<Rightarrow> cli_lines [sha_hex x bytes] w)"

text \<open>\<open>Path::file_name\<close>.\<close>

definition path_file_name :: "string \<Rightarrow> string option" where
  "path_file_name path = (let cs = filter (\<lambda>c. c \<noteq> [] \<and> c \<noteq> ''.'') (split_char (CHR ''/'') path) in
     if cs = [] \<or> last cs = ''..'' then None else Some (last cs))"

definition json_bool :: "json \<Rightarrow> bool option" where
  "json_bool j = (case j of JBool b \<Rightarrow> Some b | _ \<Rightarrow> None)"

text \<open>\<open>json[key].as_str()\<close>; indexing anything but an object gives null.\<close>

definition str_field :: "json \<Rightarrow> string \<Rightarrow> string option" where
  "str_field j k = Option.bind (json_get j k) json_str"

definition str_field_or :: "json \<Rightarrow> string \<Rightarrow> string \<Rightarrow> string" where
  "str_field_or j k dflt = (case str_field j k of Some s \<Rightarrow> s | None \<Rightarrow> dflt)"

definition bool_field :: "json \<Rightarrow> string \<Rightarrow> bool" where
  "bool_field j k = (Option.bind (json_get j k) json_bool = Some True)"

definition int_field :: "json \<Rightarrow> string \<Rightarrow> int option" where
  "int_field j k = Option.bind (json_get j k) (\<lambda>n. map_option sint (read_i64 n))"

definition print_commit_success :: "cli_env \<Rightarrow> string \<Rightarrow> string \<Rightarrow> json option \<Rightarrow> string list" where
  "print_commit_success v event_id proof_path capabilities =
     [''anchored    event='' @ event_id, ''proof       '' @ proof_path] @
     (case capabilities of
        None \<Rightarrow> []
      | Some caps \<Rightarrow>
          (let plan = str_field_or caps ''plan_name'' ''unknown'';
               tsa_mode = str_field_or caps ''tsa_mode'' ''machine'';
               server_backup = bool_field caps ''server_backup'';
               identity_enabled = bool_field caps ''identity_enabled'';
               trust_level = (if tsa_mode = ''qualified'' \<and> identity_enabled then ''High (Qualified TSA + Identity)''
                 else if tsa_mode = ''qualified'' then ''Elevated (Qualified TSA)'' else ''Standard (Machine TSA)'');
               upgrades = (if tsa_mode \<noteq> ''qualified'' then [''Qualified TSA''] else []) @
                 (if \<not> server_backup then [''Vault Backup''] else []) @ (if \<not> identity_enabled then [''Identity''] else [])
           in [[], ''Trust Level '' @ trust_level, ''Plan        '' @ ce_upper v plan] @
              (if upgrades \<noteq> [] then [''Available upgrades: '' @ join '', '' upgrades] else [])))"

text \<open>A request with the API key alone, and its reply's JSON whatever its status is.\<close>

definition keyed :: "string \<Rightarrow> http_request \<Rightarrow> http_request" where
  "keyed key r = r\<lparr> rq_api_key := Some key \<rparr>"

definition any_json :: "network \<Rightarrow> http_request \<Rightarrow> CliError + json" where
  "any_json n r = map_err (\<lambda>_. CliHttp) (reply_json (nw_parse n) Some (nw_send n r))"

definition fetch_capabilities_best_effort :: "cli_env \<Rightarrow> filesystem \<Rightarrow> json option" where
  "fetch_capabilities_best_effort v fs = (case load_api_key_with_source v fs of
     Inl _ \<Rightarrow> None
   | Inr (key, _) \<Rightarrow> (case any_json (ce_network v) (keyed key (http_get (server_url v @ ''/account/capabilities''))) of
       Inl _ \<Rightarrow> None | Inr j \<Rightarrow> Some j))"

definition cli_read_file :: "string \<Rightarrow> byte list cli" where
  "cli_read_file path w = (case fs_read (cw_fs w) path of
     Some bytes \<Rightarrow> (Inr bytes, w)
   | None \<Rightarrow> (Inl (if fs_file (cw_fs w) path = None then CliUsage (''Error: file not found: '' @ path) else CliIo), w))"

definition invalid_chain_id :: string where
  "invalid_chain_id = ''Error: invalid chain id. Expected a UUID.''"

definition cli_submit ::
  "ext \<Rightarrow> cli_env \<Rightarrow> uuid \<Rightarrow> byte list \<Rightarrow> EvidenceFileMeta \<Rightarrow> (CommitResponse \<times> string \<times> string) cli" where
  "cli_submit x v chain_uuid bytes meta w =
     (case submit_event_with_meta x (ce_network v) (ce_submit v) (cli_new_client v (cw_fs w)) chain_uuid bytes meta (cw_fs w) of
        (r, fs) \<Rightarrow> (map_err (map_client_error (ce_lower v)) r, w\<lparr> cw_fs := fs \<rparr>))"

definition cli_append_log :: "cli_env \<Rightarrow> FrozenEvent \<Rightarrow> unit cli" where
  "cli_append_log v e w =
     (case append_event_log (ce_log_ok v) (path_join (cli_evident_dir v) ''events.jsonl'') e (cw_fs w) of
        None \<Rightarrow> (Inl CliIo, w) | Some fs \<Rightarrow> (Inr (), w\<lparr> cw_fs := fs \<rparr>))"

definition cmd_commit :: "ext \<Rightarrow> cli_env \<Rightarrow> string \<Rightarrow> string \<Rightarrow> unit cli" where
  "cmd_commit x v path chain_id =
     cli_bind (cli_read_file path) (\<lambda>bytes.
     cli_bind (cli_uuid x invalid_chain_id chain_id) (\<lambda>chain_uuid.
     cli_bind (cli_submit x v chain_uuid bytes \<lparr> em_filename = path_file_name path, em_mime_type = None,
         em_project_id = None, em_local_file_available = True \<rparr>) (\<lambda>(commit, proof_path, file_hash).
     cli_bind (cli_append_log v
         (event_from_payload x (ce_log_id v) (ce_unix v) (cr_chain_id commit) 1 file_hash [] ''commit'')) (\<lambda>_ w.
     cli_lines (print_commit_success v (cr_event_id commit) proof_path (fetch_capabilities_best_effort v (cw_fs w))) w))))"

section \<open>Verification\<close>

definition resolve_verifier :: "cli_env \<Rightarrow> filesystem \<Rightarrow> CliError + string" where
  "resolve_verifier v fs =
     (let sibling = (case ce_exe_dir v of None \<Rightarrow> [] | Some dir \<Rightarrow> [path_join dir ''evident-verify'']);
          target = path_join (ce_manifest_dir v) ''target'';
          candidates = map (\<lambda>profile. path_join (path_join target profile) ''evident-verify'') [''release'', ''debug'']
      in ok_or (CliServer (''evident-verify binary not found.'' @ newline @
           ''Build it with: cargo build --release --bin evident-verify''))
         (find (\<lambda>p. fs_file fs p \<noteq> None) (sibling @ candidates)))"

definition cmd_verify :: "cli_env \<Rightarrow> string \<Rightarrow> unit cli" where
  "cmd_verify v proof_path w =
     (if fs_file (cw_fs w) proof_path = None
      then (Inl (CliUsage (''Error: proof file not found: '' @ proof_path @ newline @
         ''Usage: evident verify <proof.json> | evident verify --chain <chain_id>'')), w)
      else (case resolve_verifier v (cw_fs w) of
         Inl e \<Rightarrow> (Inl e, w)
       | Inr verifier \<Rightarrow> (case ce_spawn v verifier proof_path (cw_fs w) of
             None \<Rightarrow> (Inl (CliServer (''failed to run verifier at '' @ verifier @ '': '' @ ce_io_text v)), w)
           | Some success \<Rightarrow> if success then (Inr (), w)
               else (Inl (CliServer (''verification failed for '' @ proof_path)), w))))"

definition evidence_error_text :: "cli_env \<Rightarrow> EventEvidenceVerifyError \<Rightarrow> string" where
  "evidence_error_text v e = (case e of
     EvidenceNotFound path \<Rightarrow> ''Evidence record not found'' @ newline @ ''Expected path:'' @ newline @ path
   | EeProofNotFound path \<Rightarrow> ''Proof file not found'' @ newline @ ''Expected path:'' @ newline @ path
   | EvidenceCorrupt path \<Rightarrow> ''Error: invalid JSON at '' @ path @ '' ('' @ ce_io_text v @ '')''
   | IntegrityFailed _ \<Rightarrow> ''cryptographic verification failed'')"

definition cmd_verify_event_evidence :: "ext \<Rightarrow> cli_env \<Rightarrow> string \<Rightarrow> string \<Rightarrow> unit cli" where
  "cmd_verify_event_evidence x v event_id chain_id =
     cli_bind (cli_uuid x ''Error: invalid event id. Expected a UUID.'' event_id) (\<lambda>event_uuid.
     cli_bind (cli_uuid x invalid_chain_id chain_id) (\<lambda>chain_uuid w.
       (case verify_event_evidence x (se_codec (ce_submit v)) (se_now (ce_submit v))
           (path_join (cli_evident_dir v) ''evidence'') (path_join (cli_evident_dir v) ''proofs'') event_uuid chain_uuid (cw_fs w) of
          (Inr report, fs) \<Rightarrow> cli_print [Raw (format_report report)] (w\<lparr> cw_fs := fs \<rparr>)
        | (Inl (IntegrityFailed report), fs) \<Rightarrow>
            cli_bind (cli_print [Raw (format_report report)])
              (\<lambda>_. cli_lift (Inl (CliIntegrityFailed ''cryptographic verification failed''))) (w\<lparr> cw_fs := fs \<rparr>)
        | (Inl e, fs) \<Rightarrow> (Inl (CliNotFound (evidence_error_text v e)), w\<lparr> cw_fs := fs \<rparr>))))"

definition no_local_proofs :: "string \<Rightarrow> string" where
  "no_local_proofs chain_id = ''Error: no local proofs found for chain '' @ chain_id @ ''.'' @ newline @
     ''Commit a file first: evident commit <file> --chain '' @ chain_id"

text \<open>The last of the newest files, the report's own output apart.\<close>

definition find_latest_proof_artifact :: "cli_env \<Rightarrow> string \<Rightarrow> filesystem \<Rightarrow> CliError + string" where
  "find_latest_proof_artifact v chain_id fs =
     (let proof_dir = join_path (path_join (cli_evident_dir v) ''proofs'') chain_id in
      case ce_dir v fs proof_dir of
        NoDir \<Rightarrow> Inl (CliUsage (no_local_proofs chain_id))
      | DirError \<Rightarrow> Inl CliIo
      | Dir entries \<Rightarrow>
          (let paths = filter (\<lambda>(name, _). is_json_file name \<and> name \<noteq> ''proof.json'') entries in
           if paths = [] then Inl (CliUsage (no_local_proofs chain_id))
           else Inr (path_join proof_dir (fst (last (sort_key snd paths))))))"

text \<open>The loop over the arguments of \<open>verify\<close>: the event, the chain and the path.\<close>

fun verify_args ::
  "string list \<Rightarrow> string option \<times> string option \<times> string option \<Rightarrow> CliError + (string option \<times> string option \<times> string option)" where
  "verify_args [] st = Inr st"
| "verify_args (a # rest) (e, c, p) =
     (if a = ''--event'' then (case rest of
          [] \<Rightarrow> Inl (CliUsage (''Error: missing event id.'' @ newline @
            ''Usage: evident verify --event <event_id> --chain <chain_id>''))
        | b # rest' \<Rightarrow> verify_args rest' (Some b, c, p))
      else if a = ''--chain'' then (case rest of
          [] \<Rightarrow> Inl (CliUsage (''Error: missing chain id.'' @ newline @ ''Usage: evident verify --chain <chain_id> | '' @
            ''evident verify --event <event_id> --chain <chain_id>''))
        | b # rest' \<Rightarrow> verify_args rest' (e, Some b, p))
      else if prefix ''-'' a then Inl (CliUsage (''Error: unknown verify flag '' @ [CHR 0x27] @ a @ [CHR 0x27] @ ''.'' @
          newline @ ''Run: evident verify --help''))
      else if p \<noteq> None then Inl (CliUsage (''Error: unexpected extra argument.'' @ newline @ ''Run: evident verify --help''))
      else verify_args rest (e, c, Some a))"

text \<open>The three forms of the command, and the combinations that are refused.\<close>

definition verify_selected :: "ext \<Rightarrow> cli_env \<Rightarrow> string option \<times> string option \<times> string option \<Rightarrow> unit cli" where
  "verify_selected x v st = (case st of
     (Some event, Some chain, None) \<Rightarrow> cmd_verify_event_evidence x v event chain
   | (None, Some chain, None) \<Rightarrow>
       cli_bind (cli_uuid x invalid_chain_id chain) (\<lambda>_.
       cli_bind (\<lambda>w. (find_latest_proof_artifact v chain (cw_fs w), w)) (\<lambda>proof_path. cmd_verify v proof_path))
   | (None, None, Some path) \<Rightarrow> cmd_verify v path
   | (Some _, None, _) \<Rightarrow> cli_lift (Inl (CliUsage (''Error: --event requires --chain.'' @ newline @
       ''Usage: evident verify --event <event_id> --chain <chain_id>'')))
   | (_, Some _, Some _) \<Rightarrow> cli_lift (Inl (CliUsage (''Error: do not combine a proof path with --event/--chain.'' @
       newline @ ''Run: evident verify --help'')))
   | (None, None, None) \<Rightarrow> cli_lift (Inl (CliUsage (''Error: missing proof path or flags.'' @ newline @
       ''Run: evident verify --help''))))"

definition run_verify :: "ext \<Rightarrow> cli_env \<Rightarrow> string list \<Rightarrow> unit cli" where
  "run_verify x v rest =
     (if rest = [] then cli_lift (Inl (CliUsage (''Error: missing proof path or flags.'' @ newline @
         ''Usage: evident verify <proof.json> | evident verify --chain <chain_id> | '' @
         ''evident verify --event <event_id> --chain <chain_id>'')))
      else if length rest = 1 \<and> is_help_flag (hd rest) then cli_print [Page VerifyHelp]
      else cli_bind (cli_lift (verify_args rest (None, None, None))) (verify_selected x v))"

section \<open>Accounts, keys and reports\<close>

text \<open>\<open>response.text()?\<close> with the status.\<close>

definition reply_text :: "http_reply \<Rightarrow> CliError + nat \<times> string" where
  "reply_text r = (case r of HttpReply status body \<Rightarrow> Inr (status, body) | _ \<Rightarrow> Inl CliHttp)"

definition cmd_new_chain :: "cli_env \<Rightarrow> unit cli" where
  "cmd_new_chain v =
     (let n = ce_network v in
      cli_bind (cli_api_key v) (\<lambda>key.
      cli_bind (cli_lift (reply_text (nw_send n (keyed key ((http_get (server_url v @ ''/chains''))\<lparr> rq_method := ''POST'' \<rparr>)))))
        (\<lambda>(status, body).
      if \<not> is_success status then cli_lift (Inl (map_http_status_error (ce_lower v) (nw_show_status n) status body))
      else cli_bind (cli_lift (ok_or CliJson (nw_parse n body))) (\<lambda>j.
        cli_lines [''chain created'', ''chain_id: '' @ str_field_or j ''chain_id'' ''?'']))))"

definition enabled_text :: "bool \<Rightarrow> string" where
  "enabled_text b = (if b then ''enabled'' else ''disabled'')"

definition limit_text :: "int option \<Rightarrow> string" where
  "limit_text l = (case l of Some n \<Rightarrow> show_int n | None \<Rightarrow> ''unlimited'')"

definition cmd_account :: "cli_env \<Rightarrow> unit cli" where
  "cmd_account v =
     (let n = ce_network v; base = server_url v; rule = ''--------------------------------'' in
      cli_bind (cli_api_key v) (\<lambda>key.
      cli_bind (cli_lift (any_json n (keyed key (http_get (base @ ''/account/capabilities''))))) (\<lambda>capabilities.
      cli_bind (cli_lift (any_json n (keyed key (http_get (base @ ''/account/usage''))))) (\<lambda>usage.
      let plan = str_field_or capabilities ''plan_name'' ''unknown'';
          tsa_mode = str_field_or capabilities ''tsa_mode'' ''unknown'';
          count = (\<lambda>k. case int_field usage k of Some i \<Rightarrow> i | None \<Rightarrow> 0)
      in cli_lines [''Evident Ledger Account'' @ newline, ''Plan: '' @ ce_upper v plan @ newline, ''Capabilities:'', rule,
           ''TSA mode:        '' @ (if tsa_mode = ''machine'' then ''Machine TSA'' else ''Qualified TSA''),
           ''Monthly commits:  '' @ show_int (count ''server_commits'') @ '' / '' @
             limit_text (int_field usage ''monthly_commits_limit''),
           ''TSA requests:     '' @ show_int (count ''tsa_requests'') @ '' / '' @ limit_text (int_field usage ''monthly_tsa_limit''),
           ''Server backup:    '' @ enabled_text (bool_field capabilities ''server_backup''),
           ''Identity:         '' @ enabled_text (bool_field capabilities ''identity_enabled''), rule]))))"

fun read_i32 :: "json \<Rightarrow> int option" where
  "read_i32 (JNumber n) = (if - (2 ^ 31) \<le> n \<and> n < 2 ^ 31 then Some n else None)"
| "read_i32 _ = None"

definition read_tsa_mode :: "json \<Rightarrow> TsaMode option" where
  "read_tsa_mode j = Option.bind (json_str j) (\<lambda>s.
     if s = ''machine'' then Some Machine else if s = ''qualified'' then Some Qualified else None)"

definition read_capabilities :: "json \<Rightarrow> AccountCapabilities option" where
  "read_capabilities j =
     Option.bind (need j ''plan_name'' json_str) (\<lambda>plan.
     Option.bind (need j ''tsa_mode'' read_tsa_mode) (\<lambda>mode.
     Option.bind (need j ''server_backup'' read_bool) (\<lambda>backup.
     Option.bind (need j ''history_recovery'' read_bool) (\<lambda>recovery.
     Option.bind (need j ''identity_enabled'' read_bool) (\<lambda>identity.
     Option.bind (maybe j ''monthly_commits_limit'' read_i32) (\<lambda>commits.
     Option.bind (maybe j ''monthly_tsa_limit'' read_i32) (\<lambda>tsa.
     Some \<lparr> cap_plan_name = plan, cap_tsa_mode = mode, cap_server_backup = backup, cap_history_recovery = recovery,
       cap_identity_enabled = identity, cap_monthly_commits_limit = commits, cap_monthly_tsa_limit = tsa \<rparr>)))))))"

fun tsa_mode_label :: "TsaMode \<Rightarrow> string" where
  "tsa_mode_label Qualified = ''Qualified TSA''"
| "tsa_mode_label Machine = ''Machine TSA''"

definition check_mark :: "bool \<Rightarrow> string" where
  "check_mark b = map char_of (if b then [0xE2 :: nat, 0x9C, 0x93] else [0xE2, 0x9C, 0x97])"

definition print_feature_line :: "AccountCapabilities \<Rightarrow> Feature \<Rightarrow> string \<Rightarrow> string" where
  "print_feature_line caps feature label = check_mark (allowed caps feature) @ '' '' @ label"

definition not_configured :: "string list" where
  "not_configured = [''Status: NOT CONFIGURED'', ''Error: API key missing.'',
     ''Create one in Dashboard: Account'' @ arrow @ ''API Keys'',
     ''Then set EVIDENT_API_KEY or save it to ~/.evident/api_key'']"

definition cmd_account_info :: "cli_env \<Rightarrow> unit cli" where
  "cmd_account_info v w =
     (case load_api_key_with_source v (cw_fs w) of
        Inl _ \<Rightarrow> cli_lines (''Account'' # not_configured) w
      | Inr (key, _) \<Rightarrow>
          (let n = ce_network v;
               reply = nw_send n (keyed key (http_get (server_url v @ ''/account/capabilities'')));
               refused = (\<lambda>status body. if status = 401
                 then cli_lines [''Account'', ''Status: REJECTED'', ''API key rejected by server'']
                 else cli_lift (Inl (CliServer (''server error '' @ nw_show_status n status @ '': '' @ body))))
           in case reply of
                HttpReply status body \<Rightarrow>
                  if \<not> is_success status then refused status body w
                  else cli_bind (cli_lift (ok_or CliHttp (Option.bind (nw_parse n body) read_capabilities))) (\<lambda>caps.
                    cli_lines [''Account'', ''Status: ACTIVE'', ''Plan: '' @ ce_upper v (cap_plan_name caps), ''Capabilities:'',
                      ''  TSA mode:         '' @ tsa_mode_label (cap_tsa_mode caps),
                      ''  Server backup:    '' @ enabled_text (cap_server_backup caps),
                      ''  History recovery: '' @ enabled_text (cap_history_recovery caps),
                      ''  Identity:         '' @ enabled_text (cap_identity_enabled caps), ''Features:'',
                      print_feature_line caps Tsa (tsa_mode_label (cap_tsa_mode caps)),
                      print_feature_line caps ServerBackup ''Server Backup'',
                      print_feature_line caps Identity ''Identity'',
                      print_feature_line caps HistoryRecovery ''History Recovery'']) w
              | BodyFailed status _ \<Rightarrow> if is_success status then (Inl CliHttp, w) else refused status [] w
              | _ \<Rightarrow> (Inl CliHttp, w)))"

definition cmd_key_status :: "cli_env \<Rightarrow> unit cli" where
  "cmd_key_status v =
     (let n = ce_network v;
          refused = (\<lambda>status body. Inl (if status = 401 then CliServer (friendly_server_message (ce_lower v) ''unauthorized'')
            else map_http_status_error (ce_lower v) (nw_show_status n) status body)) in
      cli_bind (cli_api_key v) (\<lambda>key.
      cli_bind (cli_lift (case nw_send n (keyed key (http_get (server_url v @ ''/account/key-status''))) of
          HttpReply status body \<Rightarrow> if is_success status then ok_or CliHttp (nw_parse n body) else refused status body
        | BodyFailed status _ \<Rightarrow> if is_success status then Inl CliHttp else refused status []
        | _ \<Rightarrow> Inl CliHttp)) (\<lambda>j.
      cli_lines [''API Key'', ''Status:'', ce_upper v (str_field_or j ''status'' ''unknown''), ''Label:'',
        str_field_or j ''label'' ''unknown'', ''Created:'', str_field_or j ''created_at'' ''unknown''])))"

definition cmd_key_info :: "ext \<Rightarrow> cli_env \<Rightarrow> unit cli" where
  "cmd_key_info x v w = cli_lines (''API Key'' #
     (case load_api_key_with_source v (cw_fs w) of
        Inr (key, source) \<Rightarrow> [''Configured: YES'',
          ''Source: '' @ (case source of KeyEnv \<Rightarrow> ''env (EVIDENT_API_KEY)'' | KeyFile \<Rightarrow> ''file (~/.evident/api_key)''),
          ''Fingerprint: '' @ api_key_fingerprint x key]
      | Inl _ \<Rightarrow> not_configured)) w"

definition cmd_status :: "cli_env \<Rightarrow> string \<Rightarrow> unit cli" where
  "cmd_status v chain_id =
     (let n = ce_network v in
      cli_bind (cli_lift (reply_text (nw_send n (http_get (server_url v @ ''/verify/'' @ chain_id))))) (\<lambda>(status, body).
      if \<not> is_success status then cli_lift (Inl (CliServer (''server error '' @ nw_show_status n status @ '': '' @ body)))
      else cli_bind (cli_lift (ok_or CliJson (nw_parse n body))) (\<lambda>j.
        let blocks = (case Option.bind (json_get j ''blocks'') read_usize of Some b \<Rightarrow> b | None \<Rightarrow> 0);
            errors = (case json_get j ''errors'' of Some (JArray es) \<Rightarrow> length es | _ \<Rightarrow> 0)
        in cli_lines ([''chain:  '' @ chain_id, ''events: '' @ digits blocks, ''head:   '' @ str_field_or j ''head_event_id'' ''none'',
             ''valid:  '' @ (if bool_field j ''valid'' then ''OK'' else ''FAIL'')] @
             (if 0 < errors then [''errors: '' @ digits errors] else [])))))"

text \<open>\<open>t["timestamp"]\<close> on the fields of an object panics where the field is missing.\<close>

definition tsa_fields :: "json \<Rightarrow> CliError + json option \<times> (i64 option \<times> string option \<times> i64 option)" where
  "tsa_fields proof = (case json_get proof ''tsa'' of
     Some (JObject t) \<Rightarrow>
       (case (map_of t ''timestamp'', map_of t ''serial'', map_of t ''token_bytes'') of
          (Some a, Some b, Some c) \<Rightarrow> Inr (Some (JObject t), (read_i64 a, json_str b, read_i64 c))
        | _ \<Rightarrow> Inl CliPanic)
   | _ \<Rightarrow> Inr (None, (None, None, None)))"

definition cmd_report :: "cli_env \<Rightarrow> string \<Rightarrow> string \<Rightarrow> unit cli" where
  "cmd_report v proof_path output_path =
     cli_bind (\<lambda>w. (ok_or CliIo (read_text (cw_fs w) proof_path), w)) (\<lambda>content.
     cli_bind (cli_lift (ok_or CliJson (nw_parse (ce_network v) content))) (\<lambda>proof_json.
     cli_bind (cli_lift (ok_or (CliServer ''incomplete proof: missing file_hash'')
         (case json_get proof_json ''events'' of Some (JArray (e # _)) \<Rightarrow> str_field e ''file_hash'' | _ \<Rightarrow> None))) (\<lambda>sha256.
     cli_bind (cli_lift (ok_or (CliServer ''incomplete proof: missing chain_id'') (str_field proof_json ''chain_id''))) (\<lambda>chain_id_str.
     cli_bind (cli_lift (tsa_fields proof_json)) (\<lambda>(tsa_obj, (timestamp, serial, token)).
     let tsa_timestamp = (case timestamp of Some t \<Rightarrow> t | None \<Rightarrow> 0) :: u64 in
     cli_bind (cli_lines [''DEBUG: tsa_timestamp = '' @ digits (unat tsa_timestamp), ''DEBUG: tsa_obj = '' @ ce_debug v tsa_obj]) (\<lambda>_.
     cli_bind (cli_lift (map_err (\<lambda>e. CliServer (''PDF generation failed: '' @ e)) (ce_certificate v
       \<lparr> ci_status = CertValid, ci_file_hash_valid = True,
         ci_tsa_valid = (timestamp \<noteq> None \<and> serial \<noteq> None \<and> token \<noteq> None), ci_proof_id = chain_id_str, ci_sha256 = sha256,
         ci_object_type = ''file'', ci_created_at_utc = ce_rfc3339 v, ci_tsa_provider = ''FreeTSA'',
         ci_tsa_timestamp_utc = ce_timestamp_text v tsa_timestamp,
         ci_tsa_token_base64 = (case token of Some n \<Rightarrow> show_int (sint n) | None \<Rightarrow> ''0''),
         ci_verify_url = ''https://example.com/verify/'' @ chain_id_str, ci_file_size_kb = 0,
         ci_file_name = last (split_char (CHR ''/'') proof_path) \<rparr>))) (\<lambda>pdf_bytes.
     cli_bind (cli_write output_path pdf_bytes) (\<lambda>_.
     cli_lines [''report saved to '' @ output_path]))))))))"

definition cmd_report_generate :: "cli_env \<Rightarrow> string \<Rightarrow> unit cli" where
  "cmd_report_generate v chain_id =
     cli_bind (\<lambda>w. (find_latest_proof_artifact v chain_id (cw_fs w), w)) (\<lambda>source_path.
     cmd_report v source_path (path_join (join_path (path_join (cli_evident_dir v) ''proofs'') chain_id) ''proof.pdf''))"

section \<open>The program\<close>

text \<open>The loop over the arguments of \<open>commit\<close>; \<open>None\<close>: the help was asked for.\<close>

fun commit_args :: "string list \<Rightarrow> string option \<Rightarrow> string option option" where
  "commit_args [] c = Some c"
| "commit_args (a # rest) c =
     (if is_help_flag a then None
      else if a = ''--chain'' then (case rest of [] \<Rightarrow> Some None | b # rest' \<Rightarrow> commit_args rest' (Some b))
      else commit_args rest c)"

definition usage :: "string list \<Rightarrow> unit cli" where
  "usage ls = cli_lift (Inl (CliUsage (join newline ls)))"

definition run_commit :: "ext \<Rightarrow> cli_env \<Rightarrow> string list \<Rightarrow> unit cli" where
  "run_commit x v args = (case args of
     [] \<Rightarrow> usage [''Error: missing file path.'', ''Usage: evident commit <file> --chain <chain_id>'']
   | path # rest \<Rightarrow>
       if is_help_flag path then cli_print [Page CommitHelp]
       else (case commit_args rest None of
           None \<Rightarrow> cli_print [Page CommitHelp]
         | Some None \<Rightarrow> usage [''Error: missing --chain.'', ''Usage: evident commit <file> --chain <chain_id>'']
         | Some (Some chain_id) \<Rightarrow> cmd_commit x v path chain_id))"

definition run_report :: "cli_env \<Rightarrow> string list \<Rightarrow> unit cli" where
  "run_report v args = (case args of
     [] \<Rightarrow> usage [''Error: missing subcommand.'', ''Usage: evident report generate <chain_id>'']
   | subcommand # rest \<Rightarrow>
       if is_help_flag subcommand then cli_print [Page ReportHelp]
       else if subcommand \<noteq> ''generate''
       then usage [''Error: unknown report subcommand.'', ''Usage: evident report generate <chain_id>'']
       else (case rest of
           [] \<Rightarrow> usage [''Error: missing chain id.'', ''Usage: evident report generate <chain_id>'']
         | chain_id # _ \<Rightarrow> cmd_report_generate v chain_id))"

definition run_account :: "cli_env \<Rightarrow> string list \<Rightarrow> unit cli" where
  "run_account v args = (case args of
     [] \<Rightarrow> cmd_account v
   | arg # _ \<Rightarrow>
       if is_help_flag arg then cli_print [Page AccountHelp]
       else if arg = ''info'' then cmd_account_info v
       else usage [''Error: unknown account subcommand.'', ''Usage: evident account [info]''])"

definition run_key :: "ext \<Rightarrow> cli_env \<Rightarrow> string list \<Rightarrow> unit cli" where
  "run_key x v args = (case args of
     [] \<Rightarrow> usage [''Error: missing subcommand.'', ''Usage: evident key <status|info>'']
   | subcommand # _ \<Rightarrow>
       if is_help_flag subcommand then cli_print [Page KeyHelp]
       else if subcommand = ''status'' then cmd_key_status v
       else if subcommand = ''info'' then cmd_key_info x v
       else usage [''Error: unknown key subcommand.'', ''Usage: evident key <status|info>''])"

definition run_one :: "help_page \<Rightarrow> (string \<Rightarrow> unit cli) \<Rightarrow> string list \<Rightarrow> string list \<Rightarrow> unit cli" where
  "run_one page cmd missing args = (case args of
     [] \<Rightarrow> usage missing | a # _ \<Rightarrow> if is_help_flag a then cli_print [Page page] else cmd a)"

definition run :: "ext \<Rightarrow> cli_env \<Rightarrow> string list \<Rightarrow> unit cli" where
  "run x v args = (case args of
     [] \<Rightarrow> cli_print [Page GlobalHelp]
   | cmd # rest \<Rightarrow>
       if cmd = ''init'' then cmd_init x v
       else if is_help_flag cmd then cli_print [Page GlobalHelp]
       else if cmd \<in> {''version'', ''--version'', ''-V''} then cli_lines [''evident '' @ ce_version v]
       else if cmd = ''new-chain'' then cmd_new_chain v
       else if cmd = ''report'' then run_report v rest
       else if cmd = ''status''
       then run_one StatusHelp (cmd_status v) [''Error: missing chain id.'', ''Usage: evident status <chain_id>''] rest
       else if cmd = ''hash'' then run_one HashHelp (cmd_hash x) [''Error: missing file path.'', ''Usage: evident hash <file>''] rest
       else if cmd = ''commit'' then run_commit x v rest
       else if cmd = ''verify'' then run_verify x v rest
       else if cmd = ''account'' then run_account v rest
       else if cmd = ''key'' then run_key x v rest
       else if cmd = ''identity'' then usage [''Error: '' @ [CHR 0x27] @ ''evident identity'' @ [CHR 0x27] @ '' is not a CLI command.'',
         ''Local key generation:  evident init'',
         ''Register / revoke keys: Dashboard'' @ arrow @ ''Identity  (or HTTP /accounts/identity/keys/*)'',
         ''API key helpers:        evident key status | evident key info'']
       else if cmd = ''backup'' then cmd_backup x v rest
       else usage [''Error: unknown command '' @ [CHR 0x27] @ cmd @ [CHR 0x27] @ ''.'', ''Run: evident --help''])"

text \<open>\<open>main\<close>: the exit code.\<close>

definition evident :: "ext \<Rightarrow> cli_env \<Rightarrow> string list \<Rightarrow> cli_world \<Rightarrow> nat \<times> cli_world" where
  "evident x v args w = (case run x v args w of (Inr _, w') \<Rightarrow> (0, w') | (Inl e, w') \<Rightarrow> (exit_code e, w'))"

end
