(* ===== verification/CliPromises.thy ===== *)
theory CliPromises
  imports Cli
begin

text \<open>
  What the command line program promises: a wrong command changes nothing, the exit code tells a failed check of
  evidence from every other failure, an identity is created once, and what \<open>commit\<close> saves, \<open>verify\<close> accepts.
\<close>

section \<open>Steps of a command\<close>

lemma cli_bind_Inr [res_iff]:
  "cli_bind m f w = (Inr b, w') \<longleftrightarrow> (\<exists>a w1. m w = (Inr a, w1) \<and> f a w1 = (Inr b, w'))"
  by (auto simp: cli_bind_def split: prod.splits sum.splits)

lemma cli_bind_Inl:
  "cli_bind m f w = (Inl e, w') \<longleftrightarrow> m w = (Inl e, w') \<or> (\<exists>a w1. m w = (Inr a, w1) \<and> f a w1 = (Inl e, w'))"
  by (auto simp: cli_bind_def split: prod.splits sum.splits)

lemma cli_bind_lift [simp]: "cli_bind (cli_lift (Inr a)) f = f a"
  by (rule ext) (simp add: cli_bind_def cli_lift_def)

lemma cli_bind_run [simp]: "m w = (Inr a, w1) \<Longrightarrow> cli_bind m f w = f a w1"
  by (simp add: cli_bind_def)

section \<open>Usage errors\<close>

definition is_usage :: "CliError \<Rightarrow> bool" where
  "is_usage e \<longleftrightarrow> (case e of CliUsage _ \<Rightarrow> True | _ \<Rightarrow> False)"

text \<open>A clean command leaves the world as it was where it ends with a usage error; one that only reads leaves it
  always; one that is past the arguments has no usage error.\<close>

definition clean :: "'a cli \<Rightarrow> bool" where
  "clean m \<longleftrightarrow> (\<forall>w e w'. m w = (Inl e, w') \<longrightarrow> is_usage e \<longrightarrow> w' = w)"

definition reads :: "'a cli \<Rightarrow> bool" where
  "reads m \<longleftrightarrow> (\<forall>w r w'. m w = (r, w') \<longrightarrow> w' = w)"

definition past_usage :: "'a cli \<Rightarrow> bool" where
  "past_usage m \<longleftrightarrow> (\<forall>w e w'. m w = (Inl e, w') \<longrightarrow> \<not> is_usage e)"

named_theorems cli_intro

lemma clean_reads: "reads m \<Longrightarrow> clean m"
  by (simp add: clean_def reads_def)

lemma clean_past: "past_usage m \<Longrightarrow> clean m"
  by (auto simp: clean_def past_usage_def)

lemma clean_bind: "reads m \<Longrightarrow> (\<And>a. clean (f a)) \<Longrightarrow> clean (cli_bind m f)"
  unfolding clean_def reads_def cli_bind_Inl by metis

lemma past_bind: "past_usage m \<Longrightarrow> (\<And>a. past_usage (f a)) \<Longrightarrow> past_usage (cli_bind m f)"
  unfolding past_usage_def cli_bind_Inl by blast

lemma reads_bind: "reads m \<Longrightarrow> (\<And>a. reads (f a)) \<Longrightarrow> reads (cli_bind m f)"
  unfolding reads_def cli_bind_def by (auto split: prod.splits sum.splits) metis+

text \<open>A command that starts to write is past its arguments.\<close>

lemma clean_writes [cli_intro]:
  "(\<And>a. past_usage (f a)) \<Longrightarrow> clean (cli_bind (cli_write p bs) f)"
  "(\<And>a. past_usage (g a)) \<Longrightarrow> clean (cli_bind (cli_restore x v i bs force) g)"
  "(\<And>a. past_usage (h a)) \<Longrightarrow> clean (cli_bind (cli_submit x v c bytes meta) h)"
  "(\<And>a. past_usage (k a)) \<Longrightarrow> clean (cli_bind (cli_lines ls) k)"
proof -
  have "past_usage (cli_write p bs)" "past_usage (cli_restore x v i bs force)" "past_usage (cli_submit x v c bytes meta)"
    "past_usage (cli_lines ls)"
    by (auto simp: past_usage_def is_usage_def cli_write_def cli_restore_def cli_submit_def map_client_error_def map_err_def
        cli_lines_def cli_print_def split: if_splits sum.splits prod.splits ClientError.splits)
  then show "(\<And>a. past_usage (f a)) \<Longrightarrow> clean (cli_bind (cli_write p bs) f)"
    "(\<And>a. past_usage (g a)) \<Longrightarrow> clean (cli_bind (cli_restore x v i bs force) g)"
    "(\<And>a. past_usage (h a)) \<Longrightarrow> clean (cli_bind (cli_submit x v c bytes meta) h)"
    "(\<And>a. past_usage (k a)) \<Longrightarrow> clean (cli_bind (cli_lines ls) k)"
    by (blast intro: clean_past past_bind)+
qed

lemma cli_splits [cli_intro]:
  "clean m \<Longrightarrow> clean m' \<Longrightarrow> clean (if b then m else m')"
  "clean m \<Longrightarrow> (\<And>y. clean (f y)) \<Longrightarrow> clean (case o1 of None \<Rightarrow> m | Some y \<Rightarrow> f y)"
  "(\<And>a b. clean (g a b)) \<Longrightarrow> clean (case q of (a, b) \<Rightarrow> g a b)"
  "clean m \<Longrightarrow> (\<And>a as. clean (h a as)) \<Longrightarrow> clean (case l of [] \<Rightarrow> m | a # as \<Rightarrow> h a as)"
  "(\<And>a b. past_usage (g a b)) \<Longrightarrow> past_usage (case q of (a, b) \<Rightarrow> g a b)"
  by (auto split: option.split prod.split list.split)

lemmas [cli_intro] = clean_bind past_bind

lemma reads_basic [cli_intro]:
  "reads (cli_lift r)" "reads (cli_uuid x msg s)" "reads (cli_api_key v)" "reads (evident_client v)"
  "reads (cli_client v r')" "reads (cli_mkdir p)" "reads (cli_read_file p)" "reads (cmd_verify v p)"
  "reads (\<lambda>w. (g (cw_fs w), w))"
  by (auto simp: reads_def cli_lift_def cli_uuid_def cli_api_key_def evident_client_def cli_bind_def cli_client_def cli_mkdir_def
      cli_read_file_def cmd_verify_def split: option.splits sum.splits prod.splits if_splits)

lemma past_basic [cli_intro]:
  "past_usage (cli_print os)" "past_usage (cli_lines ls)" "past_usage (cli_write p bs)" "past_usage (cli_mkdir p)"
  "past_usage (cli_client v r')" "past_usage (cli_append_log v e)"
  by (auto simp: past_usage_def is_usage_def cli_lines_def cli_print_def cli_write_def cli_mkdir_def cli_client_def cli_lift_def
      cli_append_log_def map_err_def split: if_splits sum.splits option.splits)

lemma past_lift [cli_intro]: "(\<And>e. r = Inl e \<Longrightarrow> \<not> is_usage e) \<Longrightarrow> past_usage (cli_lift r)"
  by (simp add: past_usage_def cli_lift_def)

lemma clean_lift [cli_intro]: "clean (cli_lift r)" "clean (cmd_verify v p)" "clean (usage ls)" "clean (cli_print os)" "clean (cli_lines ls)"
  unfolding usage_def by (rule clean_reads clean_past, rule reads_basic past_basic)+

lemma clean_commands [cli_intro]:
  "clean (cmd_backup_export x v args)" "clean (cmd_backup_create x v args)" "clean (cmd_backup_list x v)"
  "clean (cmd_backup_download x v args)" "clean (cmd_backup_restore x v args)"
proof -
  have parent: "reads (\<lambda>w. case fs_parent (cw_fs w) path of Some parent \<Rightarrow> if parent \<noteq> [] then cli_mkdir parent w else (Inr (), w)
      | None \<Rightarrow> (Inr (), w))" for path
    by (auto simp: reads_def cli_mkdir_def split: option.splits if_splits)
  show "clean (cmd_backup_export x v args)"
    unfolding cmd_backup_export_def Let_def by (intro cli_intro parent)
  show "clean (cmd_backup_create x v args)" "clean (cmd_backup_list x v)"
    "clean (cmd_backup_download x v args)" "clean (cmd_backup_restore x v args)"
    unfolding cmd_backup_create_def cmd_backup_list_def cmd_backup_download_def cmd_backup_restore_def Let_def
    by (intro cli_intro)+
qed

lemma past_lines [cli_intro]: "past_usage (\<lambda>w. cli_lines (g w) w)"
  by (simp add: past_usage_def cli_lines_def cli_print_def)

lemma clean_files [cli_intro]: "clean (cmd_init x v)" "clean (cmd_hash x p)" "clean (cmd_commit x v p c)" "clean (cmd_report v p o1)"
    "clean (cmd_verify_event_evidence x v e c)"
proof -
  show "clean (cmd_hash x p)" by (auto simp: clean_def is_usage_def cmd_hash_def cli_lines_def cli_print_def split: option.splits)
  show "clean (cmd_init x v)"
    by (rule clean_past) (auto simp: past_usage_def is_usage_def cmd_init_def Let_def cli_bind_Inl cli_mkdir_def cli_write_def
        cli_lift_def cli_lines_def cli_print_def split: option.splits if_splits)
  show "clean (cmd_commit x v p c)" unfolding cmd_commit_def by (intro cli_intro)
  show "clean (cmd_verify_event_evidence x v e c)"
    unfolding cmd_verify_event_evidence_def
    by (intro clean_bind reads_basic clean_past)
      (auto simp: past_usage_def is_usage_def cli_bind_Inl cli_lift_def cli_print_def
        split: prod.splits sum.splits EventEvidenceVerifyError.splits)
  show "clean (cmd_report v p o1)" unfolding cmd_report_def Let_def
    by (intro cli_intro) (auto simp: is_usage_def map_err_def split: sum.splits)
qed

lemma clean_requests [cli_intro]: "clean (cmd_new_chain v)" "clean (cmd_account v)" "clean (cmd_account_info v)"
    "clean (cmd_key_status v)" "clean (cmd_key_info x v)" "clean (cmd_status v c)" "clean (cmd_report_generate v c)"
proof -
  show "clean (cmd_account_info v)"
    by (rule clean_past) (auto simp: past_usage_def is_usage_def cmd_account_info_def Let_def cli_bind_Inl cli_lift_def
        cli_lines_def cli_print_def ok_or_def split: option.splits if_splits sum.splits prod.splits http_reply.splits)
  show "clean (cmd_key_info x v)"
    by (auto simp: clean_def is_usage_def cmd_key_info_def cli_lines_def cli_print_def)
qed (unfold cmd_new_chain_def cmd_account_def cmd_key_status_def cmd_status_def cmd_report_generate_def Let_def, (intro cli_intro)+)

lemma clean_run: "clean (run x v args)"
proof -
  have one: "clean (run_one page cmd ls rest)" if "\<And>a. clean (cmd a)" for page cmd ls rest
    unfolding run_one_def by (intro cli_intro that)
  have "clean (run_verify x v rest)" "clean (run_commit x v rest)" "clean (run_report v rest)" "clean (run_account v rest)"
    "clean (run_key x v rest)" "clean (cmd_backup x v rest)" for rest
    unfolding run_verify_def verify_selected_def run_commit_def run_report_def run_account_def run_key_def cmd_backup_def Let_def
    by (intro cli_intro)+
  then show ?thesis unfolding run_def by (intro cli_intro one)
qed

text \<open>A command that is used wrongly prints nothing and changes nothing.\<close>

lemma usage_error_changes_nothing: "run x v args w = (Inl (CliUsage m), w') \<Longrightarrow> w' = w"
  using clean_run [of x v args] by (auto simp: clean_def is_usage_def)

section \<open>Exit codes\<close>

definition is_integrity :: "CliError \<Rightarrow> bool" where
  "is_integrity e \<longleftrightarrow> (case e of CliIntegrityFailed _ \<Rightarrow> True | _ \<Rightarrow> False)"

lemma exit_code_2: "exit_code e = 2 \<longleftrightarrow> is_integrity e"
  by (simp add: exit_code_def is_integrity_def split: CliError.split)

definition never_two :: "'a cli \<Rightarrow> bool" where
  "never_two m \<longleftrightarrow> (\<forall>w e w'. m w = (Inl e, w') \<longrightarrow> \<not> is_integrity e)"

named_theorems two_intro

lemma two_bind [two_intro]: "never_two m \<Longrightarrow> (\<And>a. never_two (f a)) \<Longrightarrow> never_two (cli_bind m f)"
  unfolding never_two_def cli_bind_Inl by blast

lemma two_splits [two_intro]:
  "never_two m \<Longrightarrow> never_two m' \<Longrightarrow> never_two (if b then m else m')"
  "never_two m \<Longrightarrow> (\<And>y. never_two (f y)) \<Longrightarrow> never_two (case o1 of None \<Rightarrow> m | Some y \<Rightarrow> f y)"
  "(\<And>a b. never_two (g a b)) \<Longrightarrow> never_two (case q of (a, b) \<Rightarrow> g a b)"
  "never_two m \<Longrightarrow> (\<And>a as. never_two (h a as)) \<Longrightarrow> never_two (case l of [] \<Rightarrow> m | a # as \<Rightarrow> h a as)"
  by (auto split: option.split prod.split list.split)

lemma two_lift [two_intro]: "(\<And>e. r = Inl e \<Longrightarrow> \<not> is_integrity e) \<Longrightarrow> never_two (cli_lift r)"
  by (simp add: never_two_def cli_lift_def)

lemma ok_or_integrity [simp]: "ok_or e r = Inl e' \<longleftrightarrow> r = None \<and> e' = e"
  by (auto simp: ok_or_def split: option.split)

lemma load_key_integrity: "load_api_key_with_source v fs = Inl e \<Longrightarrow> \<not> is_integrity e"
  by (auto simp: load_api_key_with_source_def is_integrity_def split: option.splits if_splits)

lemma two_basic [two_intro]:
  "never_two (cli_uuid x msg s)" "never_two (cli_api_key v)" "never_two (evident_client v)"
  "never_two (cli_client v r')" "never_two (cli_mkdir p)" "never_two (cli_read_file p)" "never_two (cmd_verify v p)"
  "never_two (cli_print os)" "never_two (cli_lines ls)" "never_two (cli_write p bs)" "never_two (cli_append_log v e)"
  "never_two (cli_restore x v i bs force)" "never_two (cli_submit x v c bytes meta)" "never_two (usage ls)"
  by (auto simp: never_two_def is_integrity_def cli_lift_def cli_uuid_def cli_api_key_def evident_client_def cli_bind_Inl
      cli_client_def cli_mkdir_def cli_read_file_def cmd_verify_def cli_print_def cli_lines_def cli_write_def cli_append_log_def
      cli_restore_def cli_submit_def usage_def bind_res_def map_err_def map_client_error_def resolve_verifier_def
      load_api_key_with_source_def Let_def
      split: option.splits sum.splits prod.splits if_splits ClientError.splits)

lemma two_commands [two_intro]: "never_two (cmd_init x v)" "never_two (cmd_hash x p)" "never_two (cmd_account_info v)"
    "never_two (cmd_key_info x v)" "never_two (cmd_commit x v p c)"
proof -
  show "never_two (cmd_init x v)" "never_two (cmd_hash x p)" "never_two (cmd_key_info x v)"
    by (auto simp: never_two_def is_integrity_def cmd_init_def cmd_hash_def cmd_key_info_def Let_def cli_bind_Inl cli_mkdir_def
        cli_write_def cli_lift_def cli_lines_def cli_print_def split: option.splits if_splits)
  show "never_two (cmd_account_info v)"
    by (auto simp: never_two_def is_integrity_def cmd_account_info_def Let_def cli_bind_Inl cli_lift_def
        cli_lines_def cli_print_def split: option.splits if_splits sum.splits prod.splits http_reply.splits)
  have "never_two (\<lambda>w. cli_lines (g w) w)" for g by (simp add: never_two_def cli_lines_def cli_print_def)
  then show "never_two (cmd_commit x v p c)" unfolding cmd_commit_def by (intro two_intro)
qed

lemma export_args_integrity: "export_args args st = Inl e \<Longrightarrow> \<not> is_integrity e"
  by (induction args st rule: export_args.induct) (auto simp: is_integrity_def split: if_splits)

lemma verify_args_integrity: "verify_args args st = Inl e \<Longrightarrow> \<not> is_integrity e"
  by (induction args st rule: verify_args.induct) (auto simp: is_integrity_def split: if_splits list.splits)

lemma two_latest [two_intro]: "never_two (\<lambda>w. (find_latest_proof_artifact v c (cw_fs w), w))"
  by (auto simp: never_two_def is_integrity_def find_latest_proof_artifact_def Let_def split: dir_listing.splits if_splits)

lemma two_report [two_intro]: "never_two (cmd_report v p o1)"
proof -
  have "never_two (\<lambda>w. (ok_or CliIo (read_text (cw_fs w) p), w))" by (auto simp: never_two_def is_integrity_def)
  then show ?thesis unfolding cmd_report_def Let_def
    by (intro two_intro) (auto simp: is_integrity_def map_err_def tsa_fields_def split: sum.splits option.splits json.splits)
qed

lemma two_requests [two_intro]: "never_two (cmd_new_chain v)" "never_two (cmd_account v)" "never_two (cmd_key_status v)"
    "never_two (cmd_status v c)" "never_two (cmd_report_generate v c)" "never_two (cmd_backup x v args)"
proof -
  have parent: "never_two (\<lambda>w. case fs_parent (cw_fs w) path of Some parent \<Rightarrow> if parent \<noteq> [] then cli_mkdir parent w else (Inr (), w)
      | None \<Rightarrow> (Inr (), w))" for path
    by (auto simp: never_two_def is_integrity_def cli_mkdir_def split: option.splits if_splits)
  have "never_two (cmd_backup_export x v args)" for args
    unfolding cmd_backup_export_def Let_def
    by (intro two_intro parent) (auto simp: is_integrity_def dest!: export_args_integrity)
  moreover have "never_two (cmd_backup_create x v args)" "never_two (cmd_backup_list x v)"
    "never_two (cmd_backup_download x v args)" "never_two (cmd_backup_restore x v args)" for args
    unfolding cmd_backup_create_def cmd_backup_list_def cmd_backup_download_def cmd_backup_restore_def Let_def
    by (intro two_intro; simp add: is_integrity_def)+
  ultimately show "never_two (cmd_backup x v args)" unfolding cmd_backup_def Let_def
    by (intro two_intro; simp add: is_integrity_def)
qed (unfold cmd_new_chain_def cmd_account_def cmd_key_status_def cmd_status_def cmd_report_generate_def Let_def,
  (intro two_intro; auto simp: is_integrity_def map_http_status_error_def any_json_def reply_text_def map_err_def
    split: sum.splits http_reply.splits if_splits)+)

lemma option3_cases:
  fixes t :: "'a option \<times> 'b option \<times> 'c option"
  obtains "t = (None, None, None)" | a where "t = (Some a, None, None)" | b where "t = (None, Some b, None)"
  | c where "t = (None, None, Some c)" | a b where "t = (Some a, Some b, None)" | a c where "t = (Some a, None, Some c)"
  | b c where "t = (None, Some b, Some c)" | a b c where "t = (Some a, Some b, Some c)"
  by (cases t; cases "fst t"; cases "fst (snd t)"; cases "snd (snd t)") auto

text \<open>The check of a record: a success prints the report; a failure writes nothing and prints the report where the
  record was checked.\<close>

abbreviation check_evidence :: "ext \<Rightarrow> cli_env \<Rightarrow> uuid \<Rightarrow> uuid \<Rightarrow> filesystem
    \<Rightarrow> (EventEvidenceVerifyError + EventEvidenceReport) \<times> filesystem" where
  "check_evidence x v e c fs \<equiv> verify_event_evidence x (se_codec (ce_submit v)) (se_now (ce_submit v))
     (evidence_dir (ce_submit v)) (proofs_dir (ce_submit v)) e c fs"

lemma evidence_command:
  assumes "x_uuid_parse x event = Some e" "x_uuid_parse x chain = Some c"
  shows "check_evidence x v e c (cw_fs w) = (Inr report, fs) \<Longrightarrow> cmd_verify_event_evidence x v event chain w =
       (Inr (), w\<lparr> cw_fs := fs, cw_out := cw_out w @ [Raw (format_report report)] \<rparr>)"
    and "check_evidence x v e c (cw_fs w) = (Inl (IntegrityFailed report), fs) \<Longrightarrow> cmd_verify_event_evidence x v event chain w =
       (Inl (CliIntegrityFailed ''cryptographic verification failed''), w\<lparr> cw_out := cw_out w @ [Raw (format_report report)] \<rparr>)"
    and "check_evidence x v e c (cw_fs w) = (Inl err, fs) \<Longrightarrow> (\<nexists>report. err = IntegrityFailed report) \<Longrightarrow>
       cmd_verify_event_evidence x v event chain w = (Inl (CliNotFound (evidence_error_text v err)), w)"
proof -
  have uuids: "cli_uuid x msg event w = (Inr e, w)" "cli_uuid x msg chain w = (Inr c, w)" for msg
    using assms by (simp_all add: cli_uuid_def cli_lift_def)
  have dirs: "path_join (cli_evident_dir v) ''evidence'' = evidence_dir (ce_submit v)"
    "path_join (cli_evident_dir v) ''proofs'' = proofs_dir (ce_submit v)"
    by (simp_all add: evidence_dir_def proofs_dir_def cli_evident_dir_def)
  note run = cmd_verify_event_evidence_def cli_bind_def [of "cli_uuid x _ _"] uuids dirs cli_print_def cli_bind_def
    cli_lift_def
  show "cmd_verify_event_evidence x v event chain w =
       (Inr (), w\<lparr> cw_fs := fs, cw_out := cw_out w @ [Raw (format_report report)] \<rparr>)"
    if "check_evidence x v e c (cw_fs w) = (Inr report, fs)"
    by (simp add: run that)
  show "cmd_verify_event_evidence x v event chain w =
       (Inl (CliIntegrityFailed ''cryptographic verification failed''), w\<lparr> cw_out := cw_out w @ [Raw (format_report report)] \<rparr>)"
    if r: "check_evidence x v e c (cw_fs w) = (Inl (IntegrityFailed report), fs)"
    using failed_check_writes_nothing [OF r] by (simp add: run r)
  show "cmd_verify_event_evidence x v event chain w = (Inl (CliNotFound (evidence_error_text v err)), w)"
    if r: "check_evidence x v e c (cw_fs w) = (Inl err, fs)" and n: "\<nexists>report. err = IntegrityFailed report"
    using failed_check_writes_nothing [OF r] n by (cases err) (simp_all add: run r)
qed

text \<open>Exit code 2 says that the check of a record against its proof failed, and then only the report was written.\<close>

lemma exit_code_two:
  assumes "evident x v args w = (2, w')"
  obtains rest event chain e c report where "args = ''verify'' # rest"
    "verify_args rest (None, None, None) = Inr (Some event, Some chain, None)"
    "x_uuid_parse x event = Some e" "x_uuid_parse x chain = Some c"
    "fst (check_evidence x v e c (cw_fs w)) = Inl (IntegrityFailed report)"
    "w' = w\<lparr> cw_out := cw_out w @ [Raw (format_report report)] \<rparr>"
proof -
  have one: "never_two (run_one page cmd ls rest)" if "\<And>a. never_two (cmd a)" for page cmd ls rest
    unfolding run_one_def by (intro two_intro that)
  have others: "never_two (run_commit x v rest)" "never_two (run_report v rest)" "never_two (run_account v rest)"
    "never_two (run_key x v rest)" for rest
    unfolding run_commit_def run_report_def run_account_def run_key_def by (intro two_intro)+
  obtain err where err: "run x v args w = (Inl err, w')" "is_integrity err"
    using assms by (auto simp: evident_def exit_code_2 split: prod.splits sum.splits)
  have "\<exists>rest. args = ''verify'' # rest"
  proof (rule ccontr)
    assume *: "\<nexists>rest. args = ''verify'' # rest"
    have "never_two (run x v args)"
    proof (cases args)
      case (Cons cmd rest)
      with * have "cmd \<noteq> ''verify''" by simp
      then show ?thesis unfolding run_def Cons list.case by (simp only: if_False) (intro two_intro one others)
    qed (simp add: run_def two_basic)
    with err show False by (auto simp: never_two_def)
  qed
  then obtain rest where args: "args = ''verify'' # rest" by blast
  have run: "run_verify x v rest w = (Inl err, w')" using err(1) by (simp add: args run_def is_help_flag_def)
  have rest: "rest \<noteq> []" "\<not> (length rest = 1 \<and> is_help_flag (hd rest))"
    using run err(2) by (auto simp: run_verify_def cli_lift_def cli_print_def is_integrity_def split: if_splits)
  then obtain st where st: "verify_args rest (None, None, None) = Inr st" and sel: "verify_selected x v st w = (Inl err, w')"
    using run verify_args_integrity err(2) unfolding run_verify_def
    by (cases "verify_args rest (None, None, None)") (auto simp: cli_bind_def cli_lift_def)
  have "\<exists>event chain. st = (Some event, Some chain, None)"
  proof (rule ccontr)
    assume no: "\<nexists>event chain. st = (Some event, Some chain, None)"
    have "never_two (verify_selected x v st)"
      unfolding verify_selected_def using no
      by (cases st rule: option3_cases) (auto simp: is_integrity_def intro!: two_intro)
    with sel err(2) show False by (auto simp: never_two_def)
  qed
  then obtain event chain where ec: "st = (Some event, Some chain, None)" by blast
  have cmd: "cmd_verify_event_evidence x v event chain w = (Inl err, w')" using sel by (simp add: verify_selected_def ec)
  obtain e where e: "x_uuid_parse x event = Some e"
    using cmd err(2)
    by (cases "x_uuid_parse x event") (auto simp: cmd_verify_event_evidence_def cli_uuid_def cli_bind_def cli_lift_def is_integrity_def)
  obtain c where c: "x_uuid_parse x chain = Some c"
    using cmd err(2) e
    by (cases "x_uuid_parse x chain") (auto simp: cmd_verify_event_evidence_def cli_uuid_def cli_bind_def cli_lift_def is_integrity_def)
  obtain r fs where r: "check_evidence x v e c (cw_fs w) = (r, fs)" by (cases "check_evidence x v e c (cw_fs w)")
  have "\<exists>report. r = Inl (IntegrityFailed report)"
  proof (cases r)
    case (Inl f)
    then show ?thesis
      using cmd err(2) evidence_command(3) [OF e c, of v w f fs] r by (cases f) (auto simp: is_integrity_def)
  next
    case (Inr report)
    then show ?thesis using cmd evidence_command(1) [OF e c, of v w report fs] r by simp
  qed
  then obtain report where rep: "r = Inl (IntegrityFailed report)" by blast
  show thesis
    using evidence_command(2) [OF e c r [unfolded rep]] cmd r rep
    by (intro that [of rest event chain e c report]) (simp_all add: args st [unfolded ec] e c)
qed

section \<open>The identity\<close>

text \<open>\<open>init\<close> writes the key and its public key once; a second run changes no file and prints the same key.\<close>

definition key_file :: "cli_env \<Rightarrow> string" where
  "key_file v = path_join (cli_evident_dir v) ''identity.key''"

definition pub_file :: "cli_env \<Rightarrow> string" where
  "pub_file v = path_join (cli_evident_dir v) ''identity.pub''"

lemma key_pub_neq: "key_file v \<noteq> pub_file v"
  by (simp add: key_file_def pub_file_def path_join_def)

lemma init_creates:
  assumes "cmd_init x v w = (Inr (), w')" "fs_file (cw_fs w) (key_file v) = None"
  shows "cw_fs w' = (cw_fs w)\<lparr> fs_file := (fs_file (cw_fs w))(key_file v \<mapsto> ce_seed v, pub_file v \<mapsto> x_ed_public x (ce_seed v)) \<rparr> \<and>
     cw_out w' = cw_out w @ [Line ''identity created'', Line (''public key: '' @ x_hex_encode x (x_ed_public x (ce_seed v)))]"
  using assms
  by (auto simp: cmd_init_def Let_def cli_bind_Inr cli_mkdir_def cli_write_def cli_lift_def cli_lines_def cli_print_def
      key_file_def pub_file_def split: if_splits)

lemma init_keeps:
  assumes "cmd_init x v w = (r, w')" "fs_file (cw_fs w) (key_file v) \<noteq> None"
  shows "cw_fs w' = cw_fs w"
  using assms
  by (auto simp: cmd_init_def Let_def cli_bind_def cli_mkdir_def cli_lines_def cli_print_def key_file_def
      split: if_splits option.splits)

lemma init_twice:
  assumes "cmd_init x v w = (Inr (), w1)" "fs_file (cw_fs w) (key_file v) = None" "fs_readable (cw_fs w) (pub_file v)"
    and "cmd_init x v' w1 = (r, w2)" "cli_evident_dir v' = cli_evident_dir v" "fs_mkdir_ok (cw_fs w) (cli_evident_dir v)"
  shows "r = Inr () \<and> cw_fs w2 = cw_fs w1 \<and>
     cw_out w2 = cw_out w1 @ [Line ''identity already exists'', Line (''public key: '' @ x_hex_encode x (x_ed_public x (ce_seed v)))]"
  using assms init_creates [OF assms(1,2)] key_pub_neq [of v]
  by (auto simp: cmd_init_def [of x v'] Let_def cli_bind_def cli_mkdir_def cli_lines_def cli_print_def key_file_def pub_file_def
      fs_read_def)

section \<open>Keys are not printed\<close>

text \<open>What \<open>key info\<close> prints of a key is its fingerprint: two keys with the same fingerprint and source print alike.\<close>

lemma key_info_prints_fingerprint:
  assumes "load_api_key_with_source v (cw_fs w) = Inr (k, src)" "load_api_key_with_source v' (cw_fs w') = Inr (k', src)"
    and "api_key_fingerprint x k = api_key_fingerprint x k'" "cw_out w = cw_out w'"
  shows "cw_out (snd (cmd_key_info x v w)) = cw_out (snd (cmd_key_info x v' w'))"
  using assms by (simp add: cmd_key_info_def cli_lines_def cli_print_def)

section \<open>The newest proof\<close>

lemma last_sort_key:
  fixes f :: "'b \<Rightarrow> 'c :: linorder"
  assumes "xs \<noteq> []"
  shows "last (sort_key f xs) \<in> set xs \<and> (\<forall>y\<in>set xs. f y \<le> f (last (sort_key f xs)))"
proof -
  have "sort_key f xs \<noteq> []" using assms by (metis length_0_conv length_sort)
  then have l: "sort_key f xs = butlast (sort_key f xs) @ [last (sort_key f xs)]" by simp
  have "sorted (map f (butlast (sort_key f xs) @ [last (sort_key f xs)]))" unfolding l [symmetric] by simp
  then have "\<forall>y\<in>set (butlast (sort_key f xs) @ [last (sort_key f xs)]). f y \<le> f (last (sort_key f xs))"
    by (auto simp: sorted_append)
  then show ?thesis using \<open>sort_key f xs \<noteq> []\<close> unfolding l [symmetric] by (metis last_in_set set_sort)
qed

lemma latest_proof:
  assumes "ce_dir v fs (join_path (path_join (cli_evident_dir v) ''proofs'') chain) = Dir es"
    and "find_latest_proof_artifact v chain fs = Inr path"
  obtains name t where "(name, t) \<in> set es" "is_json_file name" "name \<noteq> ''proof.json''"
    "path = path_join (join_path (path_join (cli_evident_dir v) ''proofs'') chain) name"
    "\<And>name' t'. (name', t') \<in> set es \<Longrightarrow> is_json_file name' \<Longrightarrow> name' \<noteq> ''proof.json'' \<Longrightarrow> t' \<le> t"
proof -
  let ?P = "\<lambda>(name, _). is_json_file name \<and> name \<noteq> ''proof.json''" and ?l = "last (sort_key snd (filter (\<lambda>(name, _).
    is_json_file name \<and> name \<noteq> ''proof.json'') es))"
  have some: "filter ?P es \<noteq> []" and path: "path = path_join (join_path (path_join (cli_evident_dir v) ''proofs'') chain) (fst ?l)"
    using assms by (auto simp: find_latest_proof_artifact_def Let_def split: if_splits)
  note last_sort_key [OF some, of snd]
  then have *: "?l \<in> set es" "?P ?l" "\<forall>y\<in>set es. ?P y \<longrightarrow> snd y \<le> snd ?l" by auto
  show thesis
    by (rule that [of "fst ?l" "snd ?l"]) (use * path in \<open>auto simp: split_beta\<close>)
qed

section \<open>What \<open>commit\<close> saves, \<open>verify\<close> accepts\<close>

lemma verify_evidence_frame:
  assumes "verify_event_evidence x k now dir proofs e c fs = (Inr p, fs')"
    and "\<And>q. q \<in> {evidence_file_path x dir e, proof_file_path x proofs c e} \<Longrightarrow> fs_file fs2 q = fs_file fs q"
    and "fs_readable fs2 = fs_readable fs" "fs_mkdir_ok fs2 = fs_mkdir_ok fs" "fs_write_ok fs2 = fs_write_ok fs"
  shows "\<exists>fs3. verify_event_evidence x k now dir proofs e c fs2 = (Inr p, fs3)"
proof -
  let ?e = "evidence_file_path x dir e" and ?p = "proof_file_path x proofs c e"
  have same: "load_evidence dec ?e fs2 = load_evidence dec ?e fs" "load_proof dec' ?p fs2 = load_proof dec' ?p fs" for dec dec'
    using assms(2,3) by (simp_all add: load_evidence_def load_proof_def load_file_def fs_read_def)
  have w: "(write_evidence_record enc dir r fs2 = None) = (write_evidence_record enc dir r fs = None)" for enc r
    using assms(4,5) by (simp add: write_evidence_record_def Let_def)
  obtain r where r: "load_evidence (ec_dec k) ?e fs = Inr r"
    using assms(1) by (cases "load_evidence (ec_dec k) ?e fs") (auto simp: verify_event_evidence_def Let_def)
  obtain f where f: "load_proof (ec_proof k) ?p fs = Inr f"
    using assms(1) r by (cases "load_proof (ec_proof k) ?p fs") (auto simp: verify_event_evidence_def Let_def)
  have valid: "ei_is_valid (verify_evidence_integrity x now r f)"
    using assms(1) r f by (auto simp: verify_event_evidence_def Let_def split: if_splits)
  obtain fs1 where "write_evidence_record (ec_enc k) dir (refresh_lifecycle x now f r) fs = Some fs1"
    using assms(1) r f valid by (auto simp: verify_event_evidence_def Let_def split: option.splits)
  moreover then obtain fs3 where "write_evidence_record (ec_enc k) dir (refresh_lifecycle x now f r) fs2 = Some fs3"
    using w [of "ec_enc k" "refresh_lifecycle x now f r"] by auto
  ultimately show ?thesis using assms(1) r f valid by (simp add: verify_event_evidence_def Let_def same)
qed

definition log_file :: "cli_env \<Rightarrow> string" where
  "log_file v = path_join (cli_evident_dir v) ''events.jsonl''"

lemma log_file_apart:
  "log_file v \<noteq> evidence_file_path x (evidence_dir (ce_submit v)) e" "log_file v \<noteq> proof_file_path x (proofs_dir (ce_submit v)) c e"
proof -
  have "\<exists>h. evident_dir (ce_submit v) = h @ ''.evident''" by (simp add: evident_dir_def path_join_def)
  then obtain h where "evident_dir (ce_submit v) = h @ ''.evident''" ..
  then show "log_file v \<noteq> evidence_file_path x (evidence_dir (ce_submit v)) e"
    "log_file v \<noteq> proof_file_path x (proofs_dir (ce_submit v)) c e"
    by (simp_all add: log_file_def cli_evident_dir_def proof_file_path_def proofs_dir_def evidence_file_path_def evidence_path_def
        evidence_dir_def path_join_def)
qed

definition commit_meta :: "string \<Rightarrow> EvidenceFileMeta" where
  "commit_meta path = \<lparr> em_filename = path_file_name path, em_mime_type = None, em_project_id = None,
     em_local_file_available = True \<rparr>"

lemma commit_runs:
  assumes readable: "fs_read (cw_fs w) path = Some bytes" "\<not> is_help_flag path" "x_uuid_parse x chain = Some c"
    and sub: "submit_event_with_meta x (ce_network v) (ce_submit v) (cli_new_client v (cw_fs w)) c bytes (commit_meta path) (cw_fs w) =
      (Inr (commit, proof_path, h), fs1)"
    and log: "ce_log_ok v" "all_writable fs1"
  obtains w1 line where "evident x v [''commit'', path, ''--chain'', chain] w = (0, w1)"
    "cw_fs w1 = fs1\<lparr> fs_file := (fs_file fs1)(log_file v \<mapsto>
       (case fs_file fs1 (log_file v) of None \<Rightarrow> [] | Some old \<Rightarrow> old) @ line @ [0x0A]) \<rparr>"
    "[Line (''anchored    event='' @ cr_event_id commit), Line (''proof       '' @ proof_path)] =
       take 2 (drop (length (cw_out w)) (cw_out w1))"
proof -
  let ?e = "event_from_payload x (ce_log_id v) (ce_unix v) (cr_chain_id commit) 1 h [] ''commit''"
  let ?fs2 = "fs1\<lparr> fs_file := (fs_file fs1)(log_file v \<mapsto>
       (case fs_file fs1 (log_file v) of None \<Rightarrow> [] | Some old \<Rightarrow> old) @ str_bytes (frozen_json ?e) @ [0x0A]) \<rparr>"
  have append: "append_event_log (ce_log_ok v) (path_join (cli_evident_dir v) ''events.jsonl'') ?e fs1 = Some ?fs2"
    using log by (simp add: append_event_log_def append_line_def log_file_def all_writable_def split: option.split)
  let ?ls = "print_commit_success v (cr_event_id commit) proof_path (fetch_capabilities_best_effort v ?fs2)"
  have "run x v [''commit'', path, ''--chain'', chain] w =
      (Inr (), w\<lparr> cw_fs := ?fs2, cw_out := cw_out w @ map Line ?ls \<rparr>)"
    using readable sub append
    by (simp add: run_def run_commit_def is_help_flag_def cmd_commit_def cli_bind_def cli_read_file_def cli_uuid_def cli_lift_def
        cli_submit_def commit_meta_def cli_append_log_def cli_lines_def cli_print_def)
  then show thesis
    by (intro that [of "w\<lparr> cw_fs := ?fs2, cw_out := cw_out w @ map Line ?ls \<rparr>"])
      (simp_all add: evident_def print_commit_success_def)
qed

lemma commit_then_verify:
  assumes ok: "ext_ok x" "signer_ok x s" "service_ok x s d"
    and server: "submit_event x s en acc req d = (Inr value, d')" "tokens_readable d'"
      "find (\<lambda>e. e_chain_id e = sr_chain_id req \<and> e_idempotency_key e = sr_idempotency_key req) (events d) = None"
    and sent: "sr_file_hash req = sha_hex x bytes"
    and net: "client_head_event_id x (ce_network v) (cli_new_client v (cw_fs w)) (sr_chain_id req) = Inr parent"
      "nw_parse (ce_network v) body = Some value"
      "nw_send (ce_network v) (authed (cli_new_client v (cw_fs w)) (http_post (cl_base_url (cli_new_client v (cw_fs w)) @ ''/events'')
         (submission_body x (sr_chain_id req) parent (sha_hex x bytes) (se_key (ce_submit v))))) = HttpReply 200 body"
    and codec: "\<And>r. ec_dec (se_codec (ce_submit v)) (ec_enc (se_codec (ce_submit v)) r) = Some r"
      "\<And>f. ec_proof (se_codec (ce_submit v)) (se_pretty (ce_submit v) f) = Some f"
    and local: "all_writable (cw_fs w)" "ce_log_ok v" "fs_read (cw_fs w) path = Some bytes" "\<not> is_help_flag path"
      "x_uuid_parse x chain = Some (sr_chain_id req)"
  obtains event w1 w2 p where
    "evident x v [''commit'', path, ''--chain'', chain] w = (0, w1)"
    "Line (''anchored    event='' @ event) \<in> set (cw_out w1)"
    "evident x v [''verify'', ''--event'', event, ''--chain'', chain] w1 = (0, w2)"
    "cw_out w2 = cw_out w1 @ [Raw (format_report p)]" "ee_lifecycle p \<in> {LcRegistered, LcCertified}"
proof -
  obtain commit ppath fs1 e p fs2 where sub: "submit_event_with_meta x (ce_network v) (ce_submit v) (cli_new_client v (cw_fs w))
      (sr_chain_id req) bytes (commit_meta path) (cw_fs w) = (Inr (commit, ppath, sha_hex x bytes), fs1)"
    and e: "x_uuid_parse x (cr_event_id commit) = Some e"
    and check: "check_evidence x v e (sr_chain_id req) fs1 = (Inr p, fs2)"
    and life: "ee_lifecycle p = (if classify_tsa_status (cr_tsa commit) = TsConfirmed then LcCertified else LcRegistered)"
    by (rule submission_verifies [OF ok server sent net codec local(1), where meta = "commit_meta path" and
          now = "se_now (ce_submit v)"])
  have writable: "all_writable fs1"
  proof -
    have "fs_mkdir_ok fs1 = fs_mkdir_ok (cw_fs w) \<and> fs_write_ok fs1 = fs_write_ok (cw_fs w) \<and> fs_readable fs1 = fs_readable (cw_fs w)"
      using sub by (auto simp: submit_event_with_meta_def Let_def save_evidence_def write_evidence_record_def
        split: sum.splits if_splits option.splits)
    then show ?thesis using local(1) by (simp add: all_writable_def)
  qed
  obtain w1 line where w1: "evident x v [''commit'', path, ''--chain'', chain] w = (0, w1)"
    "cw_fs w1 = fs1\<lparr> fs_file := (fs_file fs1)(log_file v \<mapsto>
       (case fs_file fs1 (log_file v) of None \<Rightarrow> [] | Some old \<Rightarrow> old) @ line @ [0x0A]) \<rparr>"
    "[Line (''anchored    event='' @ cr_event_id commit), Line (''proof       '' @ ppath)] =
       take 2 (drop (length (cw_out w)) (cw_out w1))"
    by (rule commit_runs [OF local(3-5) sub local(2) writable])
  have "\<exists>fs3. check_evidence x v e (sr_chain_id req) (cw_fs w1) = (Inr p, fs3)"
    by (rule verify_evidence_frame [OF check]) (auto simp: w1(2) log_file_apart)
  then obtain fs3 where fs3: "check_evidence x v e (sr_chain_id req) (cw_fs w1) = (Inr p, fs3)" ..
  have verified: "evident x v [''verify'', ''--event'', cr_event_id commit, ''--chain'', chain] w1 =
      (0, w1\<lparr> cw_fs := fs3, cw_out := cw_out w1 @ [Raw (format_report p)] \<rparr>)"
    using evidence_command(1) [OF e local(5) fs3]
    by (simp add: evident_def run_def run_verify_def verify_selected_def is_help_flag_def)
  have "Line (''anchored    event='' @ cr_event_id commit) \<in> set (take 2 (drop (length (cw_out w)) (cw_out w1)))"
    unfolding w1(3) [symmetric] by simp
  then have "Line (''anchored    event='' @ cr_event_id commit) \<in> set (cw_out w1)" by (meson in_set_dropD in_set_takeD)
  from that [OF w1(1) this verified] life show thesis by simp
qed

end
