(* ===== verification/Encoding.thy ===== *)
theory Encoding
  imports Client
begin

text \<open>
  Concrete encodings of evidence records and proof files as bytes, self-delimiting and decodable, to stand for
  the texts of \<open>serde\<close> in a concrete case.  An encoding is a writer with a reader of a prefix.
\<close>

definition encodes :: "('a \<Rightarrow> byte list) \<Rightarrow> (byte list \<Rightarrow> ('a \<times> byte list) option) \<Rightarrow> bool" where
  "encodes w r \<longleftrightarrow> (\<forall>a rest. r (w a @ rest) = Some (a, rest))"

named_theorems encodings

lemma encodesD: "encodes w r \<Longrightarrow> r (w a @ rest) = Some (a, rest)"
  by (simp add: encodes_def)

lemma encodes_whole: "encodes w r \<Longrightarrow> map_option fst (r (w a)) = Some a"
  using encodesD [of w r a "[]"] by simp

section \<open>Numbers, options, pairs and lists\<close>

definition w_nat :: "nat \<Rightarrow> byte list" where
  "w_nat n = replicate n 1 @ [0]"

fun r_nat :: "byte list \<Rightarrow> (nat \<times> byte list) option" where
  "r_nat [] = None"
| "r_nat (b # bs) = (if b = 0 then Some (0, bs) else map_option (\<lambda>(n, rest). (Suc n, rest)) (r_nat bs))"

lemma encodes_nat [encodings]: "encodes w_nat r_nat"
proof -
  have "r_nat (replicate n 1 @ 0 # rest) = Some (n, rest)" for n rest by (induction n) simp_all
  then show ?thesis by (simp add: encodes_def w_nat_def)
qed

text \<open>An injection into an encoded type.\<close>

definition w_via :: "('a \<Rightarrow> 'b) \<Rightarrow> ('b \<Rightarrow> byte list) \<Rightarrow> 'a \<Rightarrow> byte list" where
  "w_via f w a = w (f a)"

definition r_via :: "('b \<Rightarrow> 'a) \<Rightarrow> (byte list \<Rightarrow> ('b \<times> byte list) option) \<Rightarrow> byte list \<Rightarrow> ('a \<times> byte list) option" where
  "r_via g r bs = map_option (\<lambda>(b, rest). (g b, rest)) (r bs)"

lemma encodes_via: "encodes w r \<Longrightarrow> (\<And>a. g (f a) = a) \<Longrightarrow> encodes (w_via f w) (r_via g r)"
  by (simp add: encodes_def w_via_def r_via_def)

definition w_pair :: "('a \<Rightarrow> byte list) \<Rightarrow> ('b \<Rightarrow> byte list) \<Rightarrow> 'a \<times> 'b \<Rightarrow> byte list" where
  "w_pair w1 w2 p = w1 (fst p) @ w2 (snd p)"

definition r_pair ::
  "(byte list \<Rightarrow> ('a \<times> byte list) option) \<Rightarrow> (byte list \<Rightarrow> ('b \<times> byte list) option) \<Rightarrow> byte list \<Rightarrow> (('a \<times> 'b) \<times> byte list) option" where
  "r_pair r1 r2 bs = Option.bind (r1 bs) (\<lambda>(a, bs). map_option (\<lambda>(b, bs). ((a, b), bs)) (r2 bs))"

lemma encodes_pair [encodings]: "encodes w1 r1 \<Longrightarrow> encodes w2 r2 \<Longrightarrow> encodes (w_pair w1 w2) (r_pair r1 r2)"
  by (simp add: encodes_def w_pair_def r_pair_def)

fun w_list :: "('a \<Rightarrow> byte list) \<Rightarrow> 'a list \<Rightarrow> byte list" where
  "w_list w [] = [0]"
| "w_list w (a # as) = 1 # w a @ w_list w as"

text \<open>The number of elements is bounded by the number of bytes.\<close>

fun r_many :: "(byte list \<Rightarrow> ('a \<times> byte list) option) \<Rightarrow> nat \<Rightarrow> byte list \<Rightarrow> ('a list \<times> byte list) option" where
  "r_many r n [] = None"
| "r_many r 0 (b # bs) = (if b = 0 then Some ([], bs) else None)"
| "r_many r (Suc n) (b # bs) = (if b = 0 then Some ([], bs)
     else Option.bind (r bs) (\<lambda>(a, bs). map_option (\<lambda>(as, bs). (a # as, bs)) (r_many r n bs)))"

definition r_list :: "(byte list \<Rightarrow> ('a \<times> byte list) option) \<Rightarrow> byte list \<Rightarrow> ('a list \<times> byte list) option" where
  "r_list r bs = r_many r (length bs) bs"

lemma length_w_list: "length as < length (w_list w as)"
  by (induction as) auto

lemma encodes_list [encodings]:
  assumes "encodes w r"
  shows "encodes (w_list w) (r_list r)"
proof -
  have "length as \<le> n \<Longrightarrow> r_many r n (w_list w as @ rest) = Some (as, rest)" for as n rest
  proof (induction as arbitrary: n)
    case Nil
    show ?case by (cases n) simp_all
  next
    case (Cons a as)
    then obtain m where "n = Suc m" "length as \<le> m" by (cases n) auto
    then show ?case using Cons.IH [of m] encodesD [OF assms] by simp
  qed
  moreover have "length as \<le> length (w_list w as @ rest)" for as rest using length_w_list [of as w] by simp
  ultimately show ?thesis unfolding encodes_def r_list_def by blast
qed

definition w_option :: "('a \<Rightarrow> byte list) \<Rightarrow> 'a option \<Rightarrow> byte list" where
  "w_option w o1 = (case o1 of None \<Rightarrow> [0] | Some a \<Rightarrow> 1 # w a)"

fun r_option :: "(byte list \<Rightarrow> ('a \<times> byte list) option) \<Rightarrow> byte list \<Rightarrow> ('a option \<times> byte list) option" where
  "r_option r [] = None"
| "r_option r (b # bs) = (if b = 0 then Some (None, bs) else map_option (\<lambda>(a, bs). (Some a, bs)) (r bs))"

lemma encodes_option [encodings]: "encodes w r \<Longrightarrow> encodes (w_option w) (r_option r)"
  by (auto simp: encodes_def w_option_def split: option.split)

definition w_string :: "string \<Rightarrow> byte list" where
  "w_string = w_list (w_via (of_char :: char \<Rightarrow> nat) w_nat)"

definition r_string :: "byte list \<Rightarrow> (string \<times> byte list) option" where
  "r_string = r_list (r_via char_of r_nat)"

lemma encodes_string [encodings]: "encodes w_string r_string"
  unfolding w_string_def r_string_def by (intro encodings encodes_via) simp

definition w_word :: "'w :: len word \<Rightarrow> byte list" where
  "w_word = w_via unat w_nat"

definition r_word :: "byte list \<Rightarrow> ('w :: len word \<times> byte list) option" where
  "r_word = r_via of_nat r_nat"

lemma encodes_word [encodings]: "encodes w_word r_word"
  unfolding w_word_def r_word_def by (intro encodes_via encodings) simp

definition w_int :: "int \<Rightarrow> byte list" where
  "w_int = w_via (\<lambda>i. (nat i, nat (- i))) (w_pair w_nat w_nat)"

definition r_int :: "byte list \<Rightarrow> (int \<times> byte list) option" where
  "r_int = r_via (\<lambda>(m, n). int m - int n) (r_pair r_nat r_nat)"

lemma encodes_int [encodings]: "encodes w_int r_int"
  unfolding w_int_def r_int_def by (intro encodes_via encodings) simp

definition w_bool :: "bool \<Rightarrow> byte list" where
  "w_bool = w_via (\<lambda>b. if b then 1 else 0) w_nat"

definition r_bool :: "byte list \<Rightarrow> (bool \<times> byte list) option" where
  "r_bool = r_via (\<lambda>n. n = 1) r_nat"

lemma encodes_bool [encodings]: "encodes w_bool r_bool"
  unfolding w_bool_def r_bool_def by (intro encodes_via encodings) simp

section \<open>Records and proof files\<close>

fun lifecycle_of :: "nat \<Rightarrow> LifecycleStatus" where
  "lifecycle_of n = (if n = 0 then LcCreated else if n = 1 then LcRegistered else if n = 2 then LcTsaConfirmed
     else if n = 3 then LcCertified else LcRevoked)"

definition w_lifecycle :: "LifecycleStatus \<Rightarrow> byte list" where
  "w_lifecycle = w_via lifecycle_rank w_nat"

definition r_lifecycle :: "byte list \<Rightarrow> (LifecycleStatus \<times> byte list) option" where
  "r_lifecycle = r_via lifecycle_of r_nat"

lemma encodes_lifecycle [encodings]: "encodes w_lifecycle r_lifecycle"
proof -
  have "lifecycle_of (lifecycle_rank l) = l" for l by (cases l) simp_all
  then show ?thesis unfolding w_lifecycle_def r_lifecycle_def by (intro encodes_via encodings)
qed

definition tsa_number :: "Evidence.TsaStatus \<Rightarrow> nat" where
  "tsa_number s = (case s of TsPending \<Rightarrow> 0 | TsConfirmed \<Rightarrow> 1 | TsFailed \<Rightarrow> 2 | TsAbsent \<Rightarrow> 3)"

definition tsa_of :: "nat \<Rightarrow> Evidence.TsaStatus" where
  "tsa_of n = (if n = 0 then TsPending else if n = 1 then TsConfirmed else if n = 2 then TsFailed else TsAbsent)"

definition w_tsa_status :: "Evidence.TsaStatus \<Rightarrow> byte list" where
  "w_tsa_status = w_via tsa_number w_nat"

definition r_tsa_status :: "byte list \<Rightarrow> (Evidence.TsaStatus \<times> byte list) option" where
  "r_tsa_status = r_via tsa_of r_nat"

lemma encodes_tsa_status [encodings]: "encodes w_tsa_status r_tsa_status"
  unfolding w_tsa_status_def r_tsa_status_def
  by (intro encodes_via encodings) (simp add: tsa_number_def tsa_of_def split: Evidence.TsaStatus.split)

definition w_record :: "EvidenceRecord \<Rightarrow> byte list" where
  "w_record = w_via (\<lambda>t. (ev_evidence_id t, ev_filename t, ev_sha256 t, ev_size_bytes t, ev_mime_type t,
     ev_local_file_available t, ev_chain_id t, ev_event_id t, ev_certificate_id t, ev_created_at_local t,
     ev_registered_at t, ev_lifecycle_status t, ev_tsa_status t, ev_project_id t, ev_proof_path t)) (w_pair w_string
     (w_pair (w_option w_string) (w_pair w_string (w_pair (w_option w_word) (w_pair (w_option w_string) (w_pair w_bool
     (w_pair w_string (w_pair w_string (w_pair w_string (w_pair w_int (w_pair w_int (w_pair w_lifecycle (w_pair
     w_tsa_status (w_pair (w_option w_string) (w_option w_string)))))))))))))))"

definition r_record :: "byte list \<Rightarrow> (EvidenceRecord \<times> byte list) option" where
  "r_record = r_via (\<lambda>(a0, a1, a2, a3, a4, a5, a6, a7, a8, a9, a10, a11, a12, a13, a14). \<lparr> ev_evidence_id = a0,
     ev_filename = a1, ev_sha256 = a2, ev_size_bytes = a3, ev_mime_type = a4, ev_local_file_available = a5,
     ev_chain_id = a6, ev_event_id = a7, ev_certificate_id = a8, ev_created_at_local = a9, ev_registered_at = a10,
     ev_lifecycle_status = a11, ev_tsa_status = a12, ev_project_id = a13, ev_proof_path = a14 \<rparr>) (r_pair
     r_string (r_pair (r_option r_string) (r_pair r_string (r_pair (r_option r_word) (r_pair (r_option r_string)
     (r_pair r_bool (r_pair r_string (r_pair r_string (r_pair r_string (r_pair r_int (r_pair r_int (r_pair r_lifecycle
     (r_pair r_tsa_status (r_pair (r_option r_string) (r_option r_string)))))))))))))))"

lemma encodes_record [encodings]: "encodes w_record r_record"
  unfolding w_record_def r_record_def by (intro encodes_via encodings) simp

definition w_tsa :: "TsaData \<Rightarrow> byte list" where
  "w_tsa = w_via (\<lambda>t. (td_timestamp t, td_serial t, td_token_bytes t)) (w_pair (w_option w_word) (w_pair (w_option
     w_string) (w_option w_word)))"

definition r_tsa :: "byte list \<Rightarrow> (TsaData \<times> byte list) option" where
  "r_tsa = r_via (\<lambda>(a0, a1, a2). \<lparr> td_timestamp = a0, td_serial = a1, td_token_bytes = a2 \<rparr>) (r_pair
     (r_option r_word) (r_pair (r_option r_string) (r_option r_word)))"

lemma encodes_tsa [encodings]: "encodes w_tsa r_tsa"
  unfolding w_tsa_def r_tsa_def by (intro encodes_via encodings) simp

definition w_payload :: "ProofPayload \<Rightarrow> byte list" where
  "w_payload = w_via (\<lambda>t. (pp_root t, pp_chain_head t, pp_signature t, pp_public_key t, pp_leaves_count t, pp_version t,
     pp_type t)) (w_pair w_string (w_pair w_string (w_pair w_string (w_pair w_string (w_pair w_nat (w_pair (w_option
     w_string) (w_option w_string)))))))"

definition r_payload :: "byte list \<Rightarrow> (ProofPayload \<times> byte list) option" where
  "r_payload = r_via (\<lambda>(a0, a1, a2, a3, a4, a5, a6). \<lparr> pp_root = a0, pp_chain_head = a1, pp_signature = a2,
     pp_public_key = a3, pp_leaves_count = a4, pp_version = a5, pp_type = a6 \<rparr>) (r_pair r_string (r_pair
     r_string (r_pair r_string (r_pair r_string (r_pair r_nat (r_pair (r_option r_string) (r_option r_string)))))))"

lemma encodes_payload [encodings]: "encodes w_payload r_payload"
  unfolding w_payload_def r_payload_def by (intro encodes_via encodings) simp

definition w_leaf :: "EventLeaf \<Rightarrow> byte list" where
  "w_leaf = w_via (\<lambda>t. (el_sequence t, el_event_id t, el_parent_event_id t, el_file_hash t)) (w_pair w_word (w_pair
     w_string (w_pair w_string w_string)))"

definition r_leaf :: "byte list \<Rightarrow> (EventLeaf \<times> byte list) option" where
  "r_leaf = r_via (\<lambda>(a0, a1, a2, a3). \<lparr> el_sequence = a0, el_event_id = a1, el_parent_event_id = a2,
     el_file_hash = a3 \<rparr>) (r_pair r_word (r_pair r_string (r_pair r_string r_string)))"

lemma encodes_leaf [encodings]: "encodes w_leaf r_leaf"
  unfolding w_leaf_def r_leaf_def by (intro encodes_via encodings) simp

definition w_proof :: "ProofFile \<Rightarrow> byte list" where
  "w_proof = w_via (\<lambda>t. (pf_leaf_version t, pf_chain_id t, pf_head_event_id t, pf_proof t, pf_events t, pf_tsa t))
     (w_pair w_string (w_pair w_string (w_pair w_string (w_pair w_payload (w_pair (w_list w_leaf) (w_option
     w_tsa))))))"

definition r_proof :: "byte list \<Rightarrow> (ProofFile \<times> byte list) option" where
  "r_proof = r_via (\<lambda>(a0, a1, a2, a3, a4, a5). \<lparr> pf_leaf_version = a0, pf_chain_id = a1, pf_head_event_id = a2,
     pf_proof = a3, pf_events = a4, pf_tsa = a5 \<rparr>) (r_pair r_string (r_pair r_string (r_pair r_string (r_pair
     r_payload (r_pair (r_list r_leaf) (r_option r_tsa))))))"

lemma encodes_proof [encodings]: "encodes w_proof r_proof"
  unfolding w_proof_def r_proof_def by (intro encodes_via encodings) simp

definition read_record :: "byte list \<Rightarrow> EvidenceRecord option" where
  "read_record bs = map_option fst (r_record bs)"

definition read_proof_bytes :: "byte list \<Rightarrow> ProofFile option" where
  "read_proof_bytes bs = map_option fst (r_proof bs)"

definition demo_codec :: evidence_codec where
  "demo_codec = \<lparr> ec_enc = w_record, ec_dec = read_record, ec_proof = read_proof_bytes \<rparr>"

lemma demo_codec_ok: "ec_dec demo_codec (ec_enc demo_codec r) = Some r" "ec_proof demo_codec (w_proof f) = Some f"
  by (simp_all add: demo_codec_def read_record_def read_proof_bytes_def encodes_whole [OF encodes_record]
      encodes_whole [OF encodes_proof])

end
