(* ===== verification/DemoClient.thy ===== *)
theory DemoClient
  imports Demo CliPromises Encoding
begin

text \<open>
  A concrete machine with the command line program, whose network reaches the concrete service, for the witness
  of the property that spans both.
\<close>

definition demo_commit_req :: SubmitEventRequest where
  "demo_commit_req = (demo_req 3)\<lparr> sr_file_hash := sha_hex demo_ext [1] \<rparr>"

lemma demo_commit_succeeds:
  "\<exists>value d'. submit_event demo_ext demo_signer (demo_env 5) 1 demo_commit_req demo_db = (Inr value, d')"
proof (rule submit_event_succeeds)
  show "ledger_ok demo_db" using demo_service_ok by (simp add: service_ok_def)
  show "get_account_capabilities 1 demo_db = Inr (plan_capabilities (hd (seed_plans 11 12 13 14)))"
    by (rule demo_capabilities)
qed (simp_all add: demo_commit_req_def demo_req_def demo_db_def quota_free_def chain_open_def event_fresh_def
    current_usage_def seed_plans_def plan_capabilities_def can_commit_def can_use_tsa_def tsa_available_def
    tsa_mode_from_db_def)

definition demo_commit_value :: json where
  "demo_commit_value = projr (fst (submit_event demo_ext demo_signer (demo_env 5) 1 demo_commit_req demo_db))"

definition demo_commit_db :: db where
  "demo_commit_db = snd (submit_event demo_ext demo_signer (demo_env 5) 1 demo_commit_req demo_db)"

lemma demo_commit:
  "submit_event demo_ext demo_signer (demo_env 5) 1 demo_commit_req demo_db = (Inr demo_commit_value, demo_commit_db)"
  using demo_commit_succeeds by (auto simp: demo_commit_value_def demo_commit_db_def)

lemma demo_commit_tokens: "tokens_readable demo_commit_db"
proof -
  have unused: "find (\<lambda>e. e_chain_id e = sr_chain_id demo_commit_req \<and> e_idempotency_key e = k) (events demo_db) = None" for k
    by (simp add: demo_db_def)
  have not_cached: "submit_event_tx demo_ext demo_signer (demo_env 5) 1 demo_commit_req demo_db \<noteq> Inr (Inl old)" for old
    using ensure_chain_events by (auto simp: submit_event_tx_def bind_res_Inr Let_def demo_db_def split: option.splits)
  then obtain eid seq snap d1 where tx: "submit_event_tx demo_ext demo_signer (demo_env 5) 1 demo_commit_req demo_db =
      Inr (Inr ((eid, seq, snap), d1))"
    using demo_commit by (cases "submit_event_tx demo_ext demo_signer (demo_env 5) 1 demo_commit_req demo_db")
      (auto simp: submit_event_def split: sum.splits prod.splits)
  then obtain tx tx1 where t: "ensure_chain_access_in_tx 1 (sr_chain_id demo_commit_req) demo_db = Inr tx"
    "insert_event_in_tx demo_ext (demo_env 5) demo_db 1 demo_commit_req tx = Inr ((eid, seq), tx1)"
    "d1 = persist_event_signature eid (ps_signature snap) tx1"
    by (rule submit_event_tx_new)
  have "tsa_tokens d1 = []"
    by (simp add: t(3) insert_event_tables [OF t(2)] ensure_chain_tables [OF t(1)] persist_event_signature_def) (simp add: demo_db_def)
  moreover have "tsa_tokens demo_commit_db = tsa_tokens d1"
    using demo_commit tx
    by (auto simp: submit_event_def Let_def finalize_event_submission_def anchored_other_tables split: sum.splits prod.splits if_splits
        dest!: arg_cong [of _ demo_commit_db tsa_tokens])
  ultimately show ?thesis by (simp add: tokens_readable_def)
qed

definition demo_send :: "http_request \<Rightarrow> http_reply" where
  "demo_send r = HttpReply 200 ''''"

definition demo_parse_reply :: "string \<Rightarrow> json option" where
  "demo_parse_reply s = Some demo_commit_value"

definition demo_network :: network where
  "demo_network = \<lparr> nw_send = demo_send, nw_parse = demo_parse_reply, nw_show_status = digits \<rparr>"

definition demo_v5 :: "uuid \<Rightarrow> byte list \<Rightarrow> uuid" where
  "demo_v5 u bs = u + of_nat (length bs)"

definition demo_submit_env :: submit_env where
  "demo_submit_env = \<lparr> se_home = ''h'', se_key = 1, se_now = 0, se_uuid_v5 = demo_v5, se_codec = demo_codec, se_pretty = w_proof \<rparr>"

definition demo_id :: "string \<Rightarrow> string" where
  "demo_id s = s"

definition demo_no_dir :: "filesystem \<Rightarrow> string \<Rightarrow> dir_listing" where
  "demo_no_dir fs d = NoDir"

definition demo_no_process :: "string \<Rightarrow> string \<Rightarrow> filesystem \<Rightarrow> bool option" where
  "demo_no_process p a fs = None"

definition demo_no_text :: "'a \<Rightarrow> string" where
  "demo_no_text a = []"

definition demo_no_snapshot :: "byte list \<Rightarrow> string + BackupSnapshot" where
  "demo_no_snapshot bs = Inl []"

definition demo_no_certificate :: "CertificateInput \<Rightarrow> string + byte list" where
  "demo_no_certificate c = Inl []"

definition demo_cli :: cli_env where
  "demo_cli = \<lparr> ce_server_url = None, ce_token_var = None, ce_key_var = Some ''k'', ce_network = demo_network,
     ce_submit = demo_submit_env, ce_seed = [], ce_chmod_ok = True, ce_lower = demo_id, ce_upper = demo_id,
     ce_dir = demo_no_dir, ce_exe_dir = None, ce_manifest_dir = [], ce_spawn = demo_no_process, ce_detail = demo_no_text,
     ce_snapshot = demo_no_snapshot, ce_answer = None, ce_io_text = [], ce_rfc3339 = [], ce_stamp = [], ce_log_id = 0,
     ce_unix = 0, ce_log_ok = True, ce_debug = demo_no_text, ce_timestamp_text = demo_no_text,
     ce_certificate = demo_no_certificate, ce_version = ''1'' \<rparr>"

definition demo_everywhere :: "'a \<Rightarrow> bool" where
  "demo_everywhere a \<longleftrightarrow> True"

definition demo_machine :: cli_world where
  "demo_machine = \<lparr> cw_fs = \<lparr> fs_file = [''f'' \<mapsto> [1]], fs_readable = demo_everywhere, fs_parent = Map.empty,
     fs_mkdir_ok = demo_everywhere, fs_write_ok = demo_everywhere \<rparr>, cw_out = [] \<rparr>"

lemma demo_cli_simps [simp]: "ce_network demo_cli = demo_network" "ce_submit demo_cli = demo_submit_env" "ce_log_ok demo_cli"
  "nw_send demo_network r = HttpReply 200 ''''" "nw_parse demo_network s = Some demo_commit_value"
  "se_codec demo_submit_env = demo_codec" "se_pretty demo_submit_env = w_proof"
  by (simp_all add: demo_cli_def demo_network_def demo_send_def demo_parse_reply_def demo_submit_env_def)

lemma demo_machine_simps [simp]: "all_writable (cw_fs demo_machine)" "fs_read (cw_fs demo_machine) ''f'' = Some [1]"
  by (simp_all add: demo_machine_def all_writable_def demo_everywhere_def fs_read_def)

lemma demo_head: "\<exists>parent. client_head_event_id x demo_network c chain = Inr parent"
  by (simp add: client_head_event_id_def reply_json_def)

end
