(* ===== verification/IdentityDashboard.thy ===== *)
theory IdentityDashboard
  imports ReadApi Fixation "HOL-Library.Product_Lexorder"
begin

text \<open>
  The listing of identity keys and of the events a key signed, page by page: \<open>src/service/identity_dashboard.rs\<close>,
  its endpoints \<open>src/api/v1/identity_keys.rs\<close>, \<open>src/api/v1/identity_key_events.rs\<close> and the pages of
  \<open>src/web/dashboard_identity.rs\<close>, whose templates are left out.
\<close>

section \<open>Model\<close>

datatype IdentityDashboardError = DashKeyNotFound | InvalidCursor | DashVerification

record IdentityKeySummary =
  ks_key_id :: uuid
  ks_fingerprint :: string
  ks_status :: string
  ks_created_at :: timestamp
  ks_verified_at :: timestamp
  ks_revoked_at :: "timestamp option"
  ks_events_count :: nat

record IdentityKeyEventRow =
  ke_event_id :: uuid
  ke_chain_id :: uuid
  ke_sequence :: i64
  ke_signed_at :: timestamp
  ke_identity_signature_valid :: bool

record IdentityKeyEventsPage =
  kp_key_id :: uuid
  kp_key_status :: string
  kp_events :: "IdentityKeyEventRow list"
  kp_next_cursor :: "string option"

definition key_status :: "timestamp option \<Rightarrow> string" where
  "key_status revoked_at = (if revoked_at \<noteq> None then ''revoked'' else ''active'')"

definition list_keys :: "uuid \<Rightarrow> db \<Rightarrow> IdentityKeySummary list" where
  "list_keys account_id d = map (\<lambda>k.
     \<lparr> ks_key_id = k_id k, ks_fingerprint = k_fingerprint k, ks_status = key_status (k_revoked_at k),
       ks_created_at = k_created_at k, ks_verified_at = k_verified_at k, ks_revoked_at = k_revoked_at k,
       ks_events_count = length (filter (\<lambda>e. e_identity_key_id e = Some (k_id k)) (events d)) \<rparr>)
     (sort_key k_created_at (filter (\<lambda>k. k_account_id k = account_id) (identity_keys d)))"

text \<open>\<open>str::parse::<i64>\<close>: a sign, digits, and a value in range.\<close>

definition parse_digits :: "string \<Rightarrow> int option" where
  "parse_digits s = (if s \<noteq> [] \<and> list_all is_ascii_digit s
     then Some (int (foldl (\<lambda>v c. 10 * v + (of_char c - 48)) 0 s)) else None)"

definition parse_i64 :: "string \<Rightarrow> i64 option" where
  "parse_i64 s = Option.bind
     (case s of [] \<Rightarrow> None
      | c # r \<Rightarrow> if c = CHR ''-'' then map_option uminus (parse_digits r)
          else if c = CHR ''+'' then parse_digits r else parse_digits s)
     (\<lambda>i. if - (2 ^ 63) \<le> i \<and> i < 2 ^ 63 then Some (word_of_int i) else None)"

definition encode_cursor :: "ext \<Rightarrow> i64 \<Rightarrow> uuid \<Rightarrow> string" where
  "encode_cursor x sequence event_id =
     x_b64_encode x (str_bytes (show_int (sint sequence) @ CHR '':'' # x_uuid_str x event_id))"

definition decode_cursor :: "ext \<Rightarrow> string \<Rightarrow> (i64 \<times> uuid) option" where
  "decode_cursor x cursor =
     Option.bind (x_b64_decode x (trim cursor)) (\<lambda>bytes.
     Option.bind (if is_utf8 bytes then Some (bytes_str bytes) else None) (\<lambda>payload.
     Option.bind (split_once (CHR '':'') payload) (\<lambda>(sequence, event_id).
     Option.bind (parse_i64 sequence) (\<lambda>sequence.
     Option.bind (x_uuid_parse x event_id) (\<lambda>event_id. Some (sequence, event_id))))))"

definition clamp_events_limit :: "nat option \<Rightarrow> nat" where
  "clamp_events_limit limit = (case limit of None \<Rightarrow> 20 | Some v \<Rightarrow> if v = 0 then 20 else if v > 100 then 100 else v)"

text \<open>The order of the query, latest first.\<close>

definition event_place :: "event_row \<Rightarrow> int \<times> nat" where
  "event_place e = (sint (e_sequence e), unat (e_event_id e))"

definition before_cursor :: "(i64 \<times> uuid) option \<Rightarrow> event_row \<Rightarrow> bool" where
  "before_cursor c e = (case c of None \<Rightarrow> True
     | Some (s, i) \<Rightarrow> e_sequence e <s s \<or> e_sequence e = s \<and> e_event_id e < i)"

definition select_key_events :: "uuid \<Rightarrow> (i64 \<times> uuid) option \<Rightarrow> nat \<Rightarrow> db \<Rightarrow> event_row list" where
  "select_key_events key_id c n d =
     take n (rev (sort_key event_place (filter (\<lambda>e. e_identity_key_id e = Some key_id \<and> before_cursor c e) (events d))))"

definition event_item :: "ext \<Rightarrow> db \<Rightarrow> event_row \<Rightarrow> IdentityDashboardError + IdentityKeyEventRow" where
  "event_item x d e = bind_res (map_err (\<lambda>_. DashVerification) (verify_identity x e
       (build_leaf x (e_sequence e) (e_event_id e) (e_parent_event_id e) (e_file_hash e)) d)) (\<lambda>v.
     Inr \<lparr> ke_event_id = e_event_id e, ke_chain_id = e_chain_id e, ke_sequence = e_sequence e, ke_signed_at = e_created_at e,
       ke_identity_signature_valid = iv_valid v \<rparr>)"

fun event_items :: "ext \<Rightarrow> db \<Rightarrow> event_row list \<Rightarrow> IdentityDashboardError + IdentityKeyEventRow list" where
  "event_items x d [] = Inr []"
| "event_items x d (e # es) = bind_res (event_item x d e) (\<lambda>i. bind_res (event_items x d es) (\<lambda>is. Inr (i # is)))"

definition list_key_events ::
  "ext \<Rightarrow> uuid \<Rightarrow> uuid \<Rightarrow> nat \<Rightarrow> string option \<Rightarrow> db \<Rightarrow> IdentityDashboardError + IdentityKeyEventsPage" where
  "list_key_events x account_id key_id limit cursor d =
     bind_res (ok_or DashKeyNotFound (find (\<lambda>k. k_id k = key_id \<and> k_account_id k = account_id) (identity_keys d))) (\<lambda>key.
     bind_res (case cursor of None \<Rightarrow> Inr None | Some c \<Rightarrow> ok_or InvalidCursor (map_option Some (decode_cursor x c))) (\<lambda>position.
     let rows = select_key_events key_id position (limit + 1) d;
         has_more = (limit < length rows);
         page_rows = (if has_more then take limit rows else rows) in
     bind_res (event_items x d page_rows) (\<lambda>es.
     Inr \<lparr> kp_key_id = k_id key, kp_key_status = key_status (k_revoked_at key), kp_events = es,
       kp_next_cursor = (if has_more then Some (encode_cursor x (e_sequence (last page_rows)) (e_event_id (last page_rows)))
         else None) \<rparr>)))"

section \<open>Endpoints\<close>

fun map_dashboard_error :: "IdentityDashboardError \<Rightarrow> ApiError" where
  "map_dashboard_error DashKeyNotFound = NotFound"
| "map_dashboard_error InvalidCursor = InvalidRequest"
| "map_dashboard_error DashVerification = Internal"

definition list_keys_handler :: "uuid \<Rightarrow> db \<Rightarrow> ApiError + IdentityKeySummary list" where
  "list_keys_handler account_id d = Inr (list_keys account_id d)"

definition list_key_events_handler ::
  "ext \<Rightarrow> uuid \<Rightarrow> uuid \<Rightarrow> nat option \<Rightarrow> string option \<Rightarrow> db \<Rightarrow> ApiError + IdentityKeyEventsPage" where
  "list_key_events_handler x account_id key_id limit cursor d =
     map_err map_dashboard_error (list_key_events x account_id key_id (clamp_events_limit limit) cursor d)"

text \<open>The pages of the dashboard: the status, and what the template shows.\<close>

definition events_page_handler ::
  "ext \<Rightarrow> uuid \<Rightarrow> uuid \<Rightarrow> string option \<Rightarrow> db \<Rightarrow> nat \<times> (IdentityKeyEventsPage \<times> string option) option" where
  "events_page_handler x account_id key_id cursor d =
     (case list_key_events x account_id key_id (clamp_events_limit None) cursor d of
        Inl DashKeyNotFound \<Rightarrow> (404, None)
      | Inl _ \<Rightarrow> (500, None)
      | Inr page \<Rightarrow> (200, Some (page, map_option (\<lambda>c. ''/dashboard/identity/'' @ x_uuid_str x key_id @ ''?cursor='' @ c)
          (kp_next_cursor page))))"

definition revoke_page_handler :: "timestamp \<Rightarrow> uuid \<Rightarrow> uuid \<Rightarrow> db \<Rightarrow> nat \<times> db" where
  "revoke_page_handler now account_id key_id d = (case revoke_identity_key now account_id key_id d of
     (Inr _, d') \<Rightarrow> (200, d')
   | (Inl IdentityKeyNotFound, d') \<Rightarrow> (404, d')
   | (Inl IdentityKeyAlreadyRevoked, d') \<Rightarrow> (409, d')
   | (Inl _, d') \<Rightarrow> (500, d'))"

section \<open>Cursors\<close>

lemma parse_digits_digits: "parse_digits (digits n) = Some (int n)"
proof -
  have "digits n \<noteq> []" by (subst digits.simps) simp
  then show ?thesis using digits_ascii [of n] digits_value [of n] by (simp add: parse_digits_def)
qed

lemma digits_first: "\<exists>c r. digits n = c # r \<and> c \<noteq> CHR ''-'' \<and> c \<noteq> CHR ''+''"
proof (cases "digits n")
  case Nil
  then show ?thesis by (subst (asm) digits.simps) simp
next
  case (Cons c r)
  then have "is_ascii_digit c" using digits_ascii [of n] by simp
  then have "c \<noteq> CHR ''-''" "c \<noteq> CHR ''+''" by (auto simp: is_ascii_digit_def)
  with Cons show ?thesis by simp
qed

lemma parse_show_i64: "parse_i64 (show_int (sint w)) = Some w" for w :: i64
proof -
  have r: "- (2 ^ 63) \<le> sint w \<and> sint w < 2 ^ 63" using sint_greater_eq [of w] sint_less [of w] by simp
  show ?thesis
  proof (cases "sint w < 0")
    case True
    with r show ?thesis by (simp add: parse_i64_def show_int_def parse_digits_digits)
  next
    case False
    obtain c cs where c: "digits (nat (sint w)) = c # cs" "c \<noteq> CHR ''-''" "c \<noteq> CHR ''+''" using digits_first by blast
    show ?thesis
      using r False parse_digits_digits [of "nat (sint w)"] unfolding parse_i64_def show_int_def c(1)
      by (simp add: c(2,3))
  qed
qed

text \<open>The hyphenated text of a UUID has hexadecimal digits and hyphens only.\<close>

definition uuid_ascii :: "ext \<Rightarrow> bool" where
  "uuid_ascii x \<longleftrightarrow> (\<forall>u. list_all is_graph (x_uuid_str x u))"

lemma graph_utf8: "list_all is_graph s \<Longrightarrow> is_utf8 (str_bytes s)"
proof (induction s)
  case (Cons c s)
  have "(of_char c :: byte) \<le> 0x7F"
    using Cons.prems by (simp add: is_graph_def Let_def word_le_nat_alt)
  with Cons show ?case by (simp add: str_bytes_def)
qed (simp add: str_bytes_def)

lemma show_int_text: "list_all is_graph (show_int i)" "CHR '':'' \<notin> set (show_int i)"
proof -
  have "is_graph c \<and> c \<noteq> CHR '':''" if "c \<in> set (digits n)" for c n
    using that digits_ascii [of n] by (auto simp: list_all_iff is_ascii_digit_def is_graph_def Let_def)
  moreover have "is_graph (CHR ''-'')" by (simp add: is_graph_def)
  ultimately show "list_all is_graph (show_int i)" "CHR '':'' \<notin> set (show_int i)"
    by (auto simp: show_int_def list_all_iff)
qed

lemma cursor_round_trip:
  assumes "uuid_ok x" "b64_ok x" "uuid_ascii x"
  shows "decode_cursor x (encode_cursor x s u) = Some (s, u)"
proof -
  let ?p = "show_int (sint s) @ CHR '':'' # x_uuid_str x u"
  have "list_all is_graph ?p" using assms(3) show_int_text(1) by (simp add: uuid_ascii_def is_graph_def)
  then have "is_utf8 (str_bytes ?p)" by (rule graph_utf8)
  moreover have "x_uuid_parse x (x_uuid_str x u) = Some u" using assms(1) by (simp add: uuid_ok_def)
  moreover have "x_b64_decode x (trim (encode_cursor x s u)) = Some (str_bytes ?p)"
    using assms(2) by (simp add: b64_ok_def encode_cursor_def)
  ultimately show ?thesis
    by (simp add: decode_cursor_def split_once_append [OF show_int_text(2)] parse_show_i64 del: str_bytes_append)
qed

section \<open>The listing of keys\<close>

lemma list_keys_own:
  assumes "s \<in> set (list_keys acc d)"
  shows "\<exists>k\<in>set (identity_keys d). k_account_id k = acc \<and> ks_key_id s = k_id k \<and>
    (ks_status s = ''active'' \<longleftrightarrow> k_revoked_at k = None)"
proof -
  obtain k where "k \<in> set (identity_keys d)" "k_account_id k = acc" "ks_key_id s = k_id k" "ks_status s = key_status (k_revoked_at k)"
    using assms by (auto simp: list_keys_def)
  then show ?thesis by (auto simp: key_status_def)
qed

lemma foreign_key_events:
  assumes "\<nexists>k. k \<in> set (identity_keys d) \<and> k_id k = key \<and> k_account_id k = acc"
  shows "list_key_events_handler x acc key limit cursor d = Inl NotFound" "events_page_handler x acc key cursor d = (404, None)"
proof -
  have "find (\<lambda>k. k_id k = key \<and> k_account_id k = acc) (identity_keys d) = None"
    using assms by (auto simp: find_None_iff)
  then show "list_key_events_handler x acc key limit cursor d = Inl NotFound" "events_page_handler x acc key cursor d = (404, None)"
    by (simp_all add: list_key_events_handler_def events_page_handler_def list_key_events_def)
qed

lemma bad_cursor:
  assumes "find (\<lambda>k. k_id k = key \<and> k_account_id k = acc) (identity_keys d) = Some k" "decode_cursor x c = None"
  shows "list_key_events_handler x acc key limit (Some c) d = Inl InvalidRequest" "fst (events_page_handler x acc key (Some c) d) = 500"
  using assms by (simp_all add: list_key_events_handler_def events_page_handler_def list_key_events_def)

section \<open>Pages\<close>

definition key_events :: "uuid \<Rightarrow> db \<Rightarrow> event_row list" where
  "key_events key d = rev (sort_key event_place (filter (\<lambda>e. e_identity_key_id e = Some key) (events d)))"

lemma select_key_events_alt: "select_key_events key c n d = take n (filter (before_cursor c) (key_events key d))"
proof -
  have "filter (\<lambda>e. e_identity_key_id e = Some key \<and> before_cursor c e) (events d) =
      filter (before_cursor c) (filter (\<lambda>e. e_identity_key_id e = Some key) (events d))"
    by (simp add: filter_filter conj_commute)
  then show ?thesis by (simp only: select_key_events_def key_events_def rev_filter [symmetric] filter_sort)
qed

lemma key_events_sorted:
  assumes "distinct (map e_event_id (events d))"
  shows "sorted_wrt (\<lambda>a b. event_place b < event_place a) (key_events key d)"
proof -
  let ?es = "filter (\<lambda>e. e_identity_key_id e = Some key) (events d)"
  have "inj_on event_place (set (events d))"
    using assms by (auto simp: inj_on_def event_place_def distinct_map unsigned_word_eqI)
  moreover have "distinct (events d)" using assms by (simp add: distinct_map)
  ultimately have "distinct (map event_place (sort_key event_place ?es))"
    by (auto simp: distinct_map intro: inj_on_subset)
  then have "sorted_wrt (<) (map event_place (sort_key event_place ?es))" by (simp add: strict_sorted_iff)
  then show ?thesis by (simp add: key_events_def sorted_wrt_rev sorted_wrt_map)
qed

lemma before_place: "before_cursor (Some (e_sequence e, e_event_id e)) f \<longleftrightarrow> event_place f < event_place e"
  by (auto simp: before_cursor_def event_place_def word_sless_alt word_less_nat_alt intro: signed_word_eqI)

lemma after_cursor:
  assumes "distinct (map e_event_id (events d))" "key_events key d = pre @ e # post"
  shows "filter (before_cursor (Some (e_sequence e, e_event_id e))) (key_events key d) = post"
proof -
  have s: "sorted_wrt (\<lambda>a b. event_place b < event_place a) (pre @ e # post)"
    using key_events_sorted [OF assms(1), of key] by (simp only: assms(2))
  have "filter (\<lambda>f. event_place f < event_place e) pre = []" "filter (\<lambda>f. event_place f < event_place e) post = post"
    using s by (auto simp: sorted_wrt_append filter_empty_conv)
  moreover have "before_cursor (Some (e_sequence e, e_event_id e)) = (\<lambda>f. event_place f < event_place e)"
    by (rule ext) (rule before_place)
  ultimately show ?thesis by (simp add: assms(2))
qed

text \<open>A client that follows the cursors.\<close>

fun pages :: "ext \<Rightarrow> uuid \<Rightarrow> uuid \<Rightarrow> nat \<Rightarrow> db \<Rightarrow> nat \<Rightarrow> string option \<Rightarrow> IdentityKeyEventRow list option" where
  "pages x acc key limit d 0 cursor = None"
| "pages x acc key limit d (Suc n) cursor = (case list_key_events x acc key limit cursor d of
     Inl _ \<Rightarrow> None
   | Inr p \<Rightarrow> (case kp_next_cursor p of
       None \<Rightarrow> Some (kp_events p)
     | Some c \<Rightarrow> map_option (\<lambda>rest. kp_events p @ rest) (pages x acc key limit d n (Some c))))"

definition item_of :: "ext \<Rightarrow> db \<Rightarrow> event_row \<Rightarrow> IdentityKeyEventRow" where
  "item_of x d e = projr (event_item x d e)"

lemma event_items_all:
  assumes "sha_ok x" "hex_ok x"
  shows "event_items x d es = Inr (map (item_of x d) es)"
proof (induction es)
  case (Cons e es)
  obtain v where "verify_identity x e (build_leaf x (e_sequence e) (e_event_id e) (e_parent_event_id e) (e_file_hash e)) d = Inr v"
    using verify_identity_total [OF assms] by blast
  then have "\<exists>i. event_item x d e = Inr i" by (simp add: event_item_def)
  with Cons show ?case by (auto simp: item_of_def)
qed simp

lemma pages_from:
  assumes ok: "ext_ok x" "uuid_ascii x" "distinct (map e_event_id (events d))" "0 < limit"
    and key: "find (\<lambda>k. k_id k = key \<and> k_account_id k = acc) (identity_keys d) = Some k"
    and "length post < n" "key_events key d = pre @ post" "filter (before_cursor c) (key_events key d) = post"
    and "case cursor of None \<Rightarrow> c = None | Some t \<Rightarrow> c \<noteq> None \<and> decode_cursor x t = c"
  shows "pages x acc key limit d n cursor = Some (map (item_of x d) post)"
  using assms(6-9)
proof (induction n arbitrary: post pre c cursor)
  case (Suc n)
  have xok: "sha_ok x" "hex_ok x" "uuid_ok x" "b64_ok x" using ok(1) by (simp_all add: ext_ok_def)
  have pos: "(case cursor of None \<Rightarrow> Inr None | Some t \<Rightarrow> ok_or InvalidCursor (map_option Some (decode_cursor x t))) = Inr c"
    using Suc.prems(4) by (auto split: option.splits)
  have rows: "select_key_events key c (Suc limit) d = take (Suc limit) post"
    by (simp only: select_key_events_alt Suc.prems(3))
  show ?case
  proof (cases "limit < length post")
    case False
    then show ?thesis by (simp add: list_key_events_def key pos rows event_items_all [OF xok(1,2)] Let_def)
  next
    case True
    define front where "front = take limit post"
    define e where "e = last front"
    have front: "front \<noteq> []" using True ok(4) by (auto simp: front_def)
    have take: "take limit (take (Suc limit) post) = front" by (simp add: front_def)
    have post: "post = butlast front @ e # drop limit post"
      using front by (metis append_butlast_last_id append_take_drop_id append.assoc append_Cons append_Nil e_def front_def)
    have all: "key_events key d = (pre @ butlast front) @ e # drop limit post" using Suc.prems(2) post by simp
    have rest: "pages x acc key limit d n (Some (encode_cursor x (e_sequence e) (e_event_id e))) =
        Some (map (item_of x d) (drop limit post))"
    proof (rule Suc.IH)
      show "length (drop limit post) < n" using Suc.prems(1) True ok(4) by simp
      show "key_events key d = (pre @ butlast front @ [e]) @ drop limit post" using all by simp
      show "filter (before_cursor (Some (e_sequence e, e_event_id e))) (key_events key d) = drop limit post"
        by (rule after_cursor [OF ok(3) all])
    qed (simp add: cursor_round_trip [OF xok(3,4) ok(2)])
    have "post = front @ drop limit post" by (simp add: front_def)
    then have "map (item_of x d) post = map (item_of x d) front @ map (item_of x d) (drop limit post)"
      by (metis map_append)
    then show ?thesis
      using True rest
      by (simp add: list_key_events_def key pos rows event_items_all [OF xok(1,2)] Let_def take e_def [symmetric] del: take_take)
  qed
qed simp

text \<open>Following the cursors lists every event the key signed, once, the latest first, whatever the page size is.\<close>

lemma pages_complete:
  assumes "ext_ok x" "uuid_ascii x" "distinct (map e_event_id (events d))" "0 < limit"
    and "find (\<lambda>k. k_id k = key \<and> k_account_id k = acc) (identity_keys d) = Some k"
    and "length (key_events key d) < n"
  shows "pages x acc key limit d n None = Some (map (item_of x d) (key_events key d))"
  by (rule pages_from [OF assms(1-6), where pre = "[]" and c = None]) (simp_all add: before_cursor_def)

lemma key_events_mset: "mset (key_events key d) = mset (filter (\<lambda>e. e_identity_key_id e = Some key) (events d))"
  by (simp add: key_events_def)

end
