(* ===== verification/DemoKeys.thy ===== *)
theory DemoKeys
  imports Demo IdentityDashboard
begin

text \<open>
  The promise of the event history of an identity key, and a key with three events.
\<close>

lemma pages_promise:
  assumes "ext_ok x" "uuid_ascii x" "ledger_ok d" "0 < limit"
    and key: "find (\<lambda>k. k_id k = key \<and> k_account_id k = acc) (identity_keys d) = Some k"
    and "distinct (map k_id (identity_keys d))"
    and "length (filter (\<lambda>e. e_identity_key_id e = Some key) (events d)) < n"
  shows "\<exists>rows. pages x acc key limit d n None = Some rows \<and>
     mset (map ke_event_id rows) = mset (map e_event_id (filter (\<lambda>e. e_identity_key_id e = Some key) (events d))) \<and>
     sorted_wrt (\<lambda>r r'. (sint (ke_sequence r'), unat (ke_event_id r')) < (sint (ke_sequence r), unat (ke_event_id r))) rows \<and>
     (\<forall>other c. other \<noteq> acc \<longrightarrow> list_key_events_handler x other key (Some limit) c d = Inl NotFound)"
proof -
  have xok: "sha_ok x" "hex_ok x" using assms(1) by (simp_all add: ext_ok_def)
  have distinct: "distinct (map e_event_id (events d))" using assms(3) by (simp add: ledger_ok_def)
  have len: "length (key_events key d) = length (filter (\<lambda>e. e_identity_key_id e = Some key) (events d))"
    by (simp add: key_events_def)
  have item: "ke_event_id (item_of x d e) = e_event_id e" "ke_sequence (item_of x d e) = e_sequence e" for e
    using verify_identity_total [OF xok, of e "e_sequence e" "e_event_id e" "e_parent_event_id e" "e_file_hash e" d]
    by (auto simp: item_of_def event_item_def)
  let ?rows = "map (item_of x d) (key_events key d)"
  have "pages x acc key limit d n None = Some ?rows"
    by (rule pages_complete [OF assms(1,2) distinct assms(4) key]) (use len assms(7) in simp)
  moreover have "mset (map ke_event_id ?rows) = mset (map e_event_id (filter (\<lambda>e. e_identity_key_id e = Some key) (events d)))"
    by (simp add: comp_def item key_events_mset)
  moreover have "sorted_wrt (\<lambda>r r'. (sint (ke_sequence r'), unat (ke_event_id r')) < (sint (ke_sequence r), unat (ke_event_id r))) ?rows"
    using key_events_sorted [OF distinct, of key] by (simp add: sorted_wrt_map item event_place_def)
  moreover have "list_key_events_handler x other key (Some limit) c d = Inl NotFound" if "other \<noteq> acc" for other c
  proof (rule foreign_key_events(1), rule notI)
    assume "\<exists>k. k \<in> set (identity_keys d) \<and> k_id k = key \<and> k_account_id k = other"
    then obtain k' where k': "k' \<in> set (identity_keys d)" "k_id k' = key" "k_account_id k' = other" by blast
    from find_SomeD [OF key] have "k \<in> set (identity_keys d)" "k_id k = key" "k_account_id k = acc" by auto
    with k' have "k' = k" using distinct_key_eq [OF assms(6), of k' k] by simp
    with k' \<open>k_account_id k = acc\<close> that show False by simp
  qed
  ultimately show ?thesis by blast
qed

definition demo_signed_row :: "uuid \<Rightarrow> uuid \<Rightarrow> i64 \<Rightarrow> event_row" where
  "demo_signed_row i p n = (demo_row i)\<lparr> e_parent_event_id := p, e_sequence := n, e_identity_key_id := Some 99 \<rparr>"

definition demo_signed_events :: db where
  "demo_signed_events = demo_keyed\<lparr> chains := [\<lparr> ch_chain_id = 3, ch_head_event_id = Some 7, ch_account_id = Some 2 \<rparr>],
     events := [demo_signed_row 5 0 1, demo_signed_row 6 5 2, demo_signed_row 7 6 3] \<rparr>"

lemma demo_signed_events_ok:
  "ledger_ok demo_signed_events"
  "find (\<lambda>k. k_id k = 99 \<and> k_account_id k = 2) (identity_keys demo_signed_events) = Some demo_key"
  "distinct (map k_id (identity_keys demo_signed_events))"
  "filter (\<lambda>e. e_identity_key_id e = Some 99) (events demo_signed_events) = events demo_signed_events"
  by (auto simp: ledger_ok_def chain_inv_def demo_signed_events_def demo_signed_row_def demo_keyed_def demo_key_def demo_db_def
      demo_row_def demo_account_def chain_shape_def link_ok_def to_EventRow_def last_id_def less_Suc_eq)

lemma demo_uuid_ascii: "uuid_ascii demo_ext"
proof -
  have hex: "list_all is_graph (demo_hex bs)" for bs
    using demo_hex_lower [of bs] is_lower_hex_graph by (auto simp: list_all_iff)
  have part: "list_all is_graph (take a (drop b (demo_hex bs)))" "list_all is_graph (drop b (demo_hex bs))" for a b bs
    using hex [of bs] by (auto simp: list_all_iff dest: in_set_takeD in_set_dropD)
  have "list_all is_graph (demo_uuid_str u)" for u
    using part(1) [of _ 0] part by (simp add: demo_uuid_str_def Let_def is_graph_def)
  then show ?thesis by (simp add: uuid_ascii_def demo_ext_def)
qed

end
