(* ===== verification/DesktopConnect.thy ===== *)
theory DesktopConnect
  imports Client Accounts
begin

text \<open>
  How the desktop program gets and keeps its token: \<open>evident-gui-app/src/desktop_auth.rs\<close>.  It opens the dashboard's
  page in the browser, waits on a port of this machine for the request the dashboard redirects the browser to, and takes
  the token from its first line.  The key chain is an option; what the listener reads is an argument.
\<close>

section \<open>Text\<close>

text \<open>\<open>String::from_utf8_lossy\<close>: each longest part of a character that is cut off, and each byte no character
  starts with, becomes U+FFFD.\<close>

definition replacement :: "byte list" where
  "replacement = [0xEF, 0xBF, 0xBD]"

definition third_start :: "nat \<Rightarrow> byte \<Rightarrow> bool" where
  "third_start n b \<longleftrightarrow> cont b \<and> (n = 0xE0 \<longrightarrow> 0xA0 \<le> unat b) \<and> (n = 0xED \<longrightarrow> unat b \<le> 0x9F)"

definition fourth_start :: "nat \<Rightarrow> byte \<Rightarrow> bool" where
  "fourth_start n b \<longleftrightarrow> cont b \<and> (n = 0xF0 \<longrightarrow> 0x90 \<le> unat b) \<and> (n = 0xF4 \<longrightarrow> unat b \<le> 0x8F)"

function (sequential) utf8_lossy :: "byte list \<Rightarrow> byte list" where
  "utf8_lossy [] = []"
| "utf8_lossy (a # bs) = (let n = unat a in
     if n < 0x80 then a # utf8_lossy bs
     else if 0xC2 \<le> n \<and> n \<le> 0xDF then
       (case bs of b # r \<Rightarrow> if cont b then a # b # utf8_lossy r else replacement @ utf8_lossy bs
        | [] \<Rightarrow> replacement)
     else if 0xE0 \<le> n \<and> n \<le> 0xEF then
       (case bs of
          b # r \<Rightarrow> if \<not> third_start n b then replacement @ utf8_lossy bs
            else (case r of c # r' \<Rightarrow> if cont c then a # b # c # utf8_lossy r' else replacement @ utf8_lossy r
                  | [] \<Rightarrow> replacement)
        | [] \<Rightarrow> replacement)
     else if 0xF0 \<le> n \<and> n \<le> 0xF4 then
       (case bs of
          b # r \<Rightarrow> if \<not> fourth_start n b then replacement @ utf8_lossy bs
            else (case r of
              c # r' \<Rightarrow> if \<not> cont c then replacement @ utf8_lossy r
                else (case r' of d # r'' \<Rightarrow> if cont d then a # b # c # d # utf8_lossy r'' else replacement @ utf8_lossy r'
                      | [] \<Rightarrow> replacement)
            | [] \<Rightarrow> replacement)
        | [] \<Rightarrow> replacement)
     else replacement @ utf8_lossy bs)"
  by pat_completeness auto
termination by (relation "measure length") auto

text \<open>\<open>str::split_whitespace\<close>: the runs of characters that are not white space.\<close>

function (sequential) words_loop :: "string \<Rightarrow> string \<Rightarrow> string list" where
  "words_loop acc [] = (if acc = [] then [] else [acc])"
| "words_loop acc (c # s) = (case strip_enc ws_encodings (c # s) of
     Some rest \<Rightarrow> if length rest < length (c # s) then (if acc = [] then [] else [acc]) @ words_loop [] rest else []
   | None \<Rightarrow> words_loop (acc @ [c]) s)"
  by pat_completeness auto
termination by (relation "measure (\<lambda>(_, s). length s)") auto

definition split_whitespace :: "string \<Rightarrow> string list" where
  "split_whitespace s = words_loop [] s"

text \<open>\<open>str::lines().next().unwrap_or("")\<close>.\<close>

definition first_line :: "string \<Rightarrow> string" where
  "first_line s = (let l = takeWhile (\<lambda>c. c \<noteq> CHR 0x0A) s in
     if length l < length s \<and> l \<noteq> [] \<and> last l = CHR 0x0D then butlast l else l)"

definition nth_opt :: "'a list \<Rightarrow> nat \<Rightarrow> 'a option" where
  "nth_opt xs n = (if n < length xs then Some (xs ! n) else None)"

section \<open>Percent coding\<close>

definition urlencoding_encode :: "string \<Rightarrow> string" where
  "urlencoding_encode s = concat (map (\<lambda>b. if is_unreserved b then [b]
     else let n = of_char b in [CHR ''%'', upper_hex_digit (n div 16), upper_hex_digit (n mod 16)]) s)"

text \<open>\<open>u8::from_str_radix(hex, 16)\<close> of a text of two bytes; a plus sign may come first.\<close>

definition radix16 :: "char \<Rightarrow> char \<Rightarrow> nat option" where
  "radix16 c d = (if c = CHR ''+'' then hex_value d
     else case (hex_value c, hex_value d) of (Some h, Some l) \<Rightarrow> Some (16 * h + l) | _ \<Rightarrow> None)"

text \<open>The slice \<open>&s[i + 1..i + 3]\<close> stops the thread where it ends inside a character, that is, where a
  continuation byte comes next.\<close>

definition slice_panics :: "string \<Rightarrow> bool" where
  "slice_panics after = (case after of [] \<Rightarrow> False | c # _ \<Rightarrow> cont (of_char c))"

fun decode_loop :: "string \<Rightarrow> byte list option" where
  "decode_loop [] = Some []"
| "decode_loop (a # s) =
     (if a = CHR ''%'' then
        (case s of c # d # after \<Rightarrow>
           if slice_panics after then None
           else (case radix16 c d of
               Some v \<Rightarrow> map_option (Cons (of_nat v)) (decode_loop after)
             | None \<Rightarrow> map_option (Cons (of_char a)) (decode_loop s))
         | _ \<Rightarrow> map_option (Cons (of_char a)) (decode_loop s))
      else map_option (Cons (if a = CHR ''+'' then 0x20 else of_char a)) (decode_loop s))"

text \<open>\<open>None\<close>: the thread stops.\<close>

definition urlencoding_decode :: "string \<Rightarrow> string option" where
  "urlencoding_decode s = map_option (\<lambda>bytes. bytes_str (utf8_lossy bytes)) (decode_loop s)"

section \<open>The callback\<close>

fun find_token :: "string list \<Rightarrow> string option option" where
  "find_token [] = Some None"
| "find_token (pair # rest) =
     (let (k, v) = (case split_once (CHR ''='') pair of Some kv \<Rightarrow> kv | None \<Rightarrow> (pair, [])) in
      if k = ''token'' then
        (case urlencoding_decode v of
           None \<Rightarrow> None
         | Some decoded \<Rightarrow> if prefix ''desktop_'' decoded then Some (Some decoded) else find_token rest)
      else find_token rest)"

definition extract_token_from_request_line :: "string \<Rightarrow> string option option" where
  "extract_token_from_request_line line =
     (case nth_opt (split_whitespace line) 1 of None \<Rightarrow> Some None | Some path \<Rightarrow>
     (case nth_opt (split_char (CHR ''?'') path) 1 of None \<Rightarrow> Some None | Some query \<Rightarrow>
        find_token (split_char (CHR ''&'') query)))"

definition connect_redirect :: "nat \<Rightarrow> string" where
  "connect_redirect port = ''http://127.0.0.1:'' @ digits port @ ''/callback''"

definition trim_end_slashes :: "string \<Rightarrow> string" where
  "trim_end_slashes s = rev (dropWhile (\<lambda>c. c = CHR ''/'') (rev s))"

definition connect_url :: "string \<Rightarrow> nat \<Rightarrow> string" where
  "connect_url server_base port = trim_end_slashes server_base @ ''/dashboard/desktop/connect?redirect_uri='' @
     urlencoding_encode (connect_redirect port)"

text \<open>\<open>heard\<close>: what came of the listener, the browser and the wait: the text of an error, or the bytes of
  the first request, at most 4096.  The answer is what the thread returns, \<open>None\<close> where it stops.\<close>

definition connect_via_browser :: "string + byte list \<Rightarrow> (string + string) option" where
  "connect_via_browser heard = (case heard of
     Inl e \<Rightarrow> Some (Inl e)
   | Inr bytes \<Rightarrow> map_option (ok_or ''Callback did not include token'')
       (extract_token_from_request_line (first_line (bytes_str (utf8_lossy (take 4096 bytes))))))"

section \<open>The key chain\<close>

datatype AuthState = Unauthenticated | Authenticated | AuthExpired | AuthRevoked

definition load_token_from_keychain :: "string option \<Rightarrow> string option" where
  "load_token_from_keychain chain = (case chain of
     Some t \<Rightarrow> if prefix ''desktop_'' t then Some t else None | None \<Rightarrow> None)"

text \<open>The flag: the operating system stores the password, or deletes it.\<close>

definition save_token_to_keychain :: "bool \<Rightarrow> string \<Rightarrow> string option \<Rightarrow> (string + unit) \<times> string option" where
  "save_token_to_keychain ok token chain =
     (if ok then (Inr (), Some token) else (Inl ''keychain save'', chain))"

definition clear_token_from_keychain :: "bool \<Rightarrow> string option \<Rightarrow> string option" where
  "clear_token_from_keychain ok chain = (if ok then None else chain)"

section \<open>Text that survives\<close>

lemma utf8_lossy_id: "valid_utf8 bs \<Longrightarrow> utf8_lossy bs = bs"
proof (induction bs rule: length_induct)
  case (1 bs)
  note IH = 1(1) [rule_format] and valid = 1(2)
  show ?case
  proof (cases bs)
    case (Cons a s)
    note valid = valid [unfolded Cons]
    let ?n = "unat a"
    consider "?n < 0x80" | "0xC2 \<le> ?n \<and> ?n \<le> 0xDF" | "0xE0 \<le> ?n \<and> ?n \<le> 0xEF" | "0xF0 \<le> ?n \<and> ?n \<le> 0xF4"
      using valid by (auto simp: Let_def split: if_splits)
    then show ?thesis
    proof cases
      case 1
      then have "valid_utf8 s" using valid by simp
      then show ?thesis using IH [of s] 1 by (simp add: Cons)
    next
      case 2
      then obtain b r where s: "s = b # r" "cont b" "valid_utf8 r"
        using valid by (auto simp: Let_def split: list.splits)
      then show ?thesis using IH [of r] 2 by (simp add: Cons)
    next
      case 3
      then obtain b c r where s: "s = b # c # r" "third_start ?n b" "cont c" "valid_utf8 r"
        using valid by (auto simp: Let_def third_start_def split: list.splits)
      then show ?thesis using IH [of r] 3 by (simp add: Cons)
    next
      case 4
      then obtain b c d r where s: "s = b # c # d # r" "fourth_start ?n b" "cont c" "cont d" "valid_utf8 r"
        using valid by (auto simp: Let_def fourth_start_def split: list.splits)
      then show ?thesis using IH [of r] 4 by (simp add: Cons)
    qed
  qed simp
qed

lemma upper_digit:
  assumes "k < 16"
  shows "hex_value (upper_hex_digit k) = Some k" "upper_hex_digit k \<noteq> CHR ''+''"
proof -
  show "hex_value (upper_hex_digit k) = Some k"
    using assms by (auto simp: hex_value_def upper_hex_digit_def Let_def)
  have "(of_char (upper_hex_digit k) :: nat) \<noteq> of_char (CHR ''+'')"
    using assms by (auto simp: upper_hex_digit_def)
  then show "upper_hex_digit k \<noteq> CHR ''+''" by metis
qed

lemma radix16_upper: "n < 256 \<Longrightarrow> radix16 (upper_hex_digit (n div 16)) (upper_hex_digit (n mod 16)) = Some n"
proof -
  assume "n < 256"
  then have "n div 16 < 16" "n mod 16 < 16" by auto
  then show ?thesis using upper_digit [of "n div 16"] upper_digit [of "n mod 16"] by (simp add: radix16_def)
qed

text \<open>Every encoded byte is ASCII, so that no slice ends inside a character.\<close>

lemma encode_cons: "urlencoding_encode (b # s) = (if is_unreserved b then [b]
     else let n = of_char b in [CHR ''%'', upper_hex_digit (n div 16), upper_hex_digit (n mod 16)]) @ urlencoding_encode s"
  by (simp add: urlencoding_encode_def)

lemma encode_no_panic: "\<not> slice_panics (urlencoding_encode s)"
proof (cases s)
  case (Cons b t)
  have "\<not> cont (of_char b)" if "is_unreserved b"
    using that by (auto simp: is_unreserved_def cont_def Let_def)
  moreover have "\<not> cont (of_char (CHR ''%''))" by code_simp
  ultimately show ?thesis by (simp add: Cons encode_cons slice_panics_def Let_def)
qed (simp add: urlencoding_encode_def slice_panics_def)

lemma decode_loop_encode: "decode_loop (urlencoding_encode s) = Some (str_bytes s)"
proof (induction s)
  case Nil
  then show ?case by (simp add: urlencoding_encode_def str_bytes_def)
next
  case (Cons b s)
  show ?case
  proof (cases "is_unreserved b")
    case True
    then have "b \<noteq> CHR ''%''" "b \<noteq> CHR ''+''" by (auto simp: is_unreserved_def)
    then show ?thesis using Cons True by (simp add: encode_cons str_bytes_def)
  next
    case False
    have "(of_char b :: nat) < 256" by simp
    note r = radix16_upper [OF this]
    have "(of_nat (of_char b) :: byte) = of_char b" by (rule of_nat_of_char)
    then show ?thesis
      using Cons False encode_no_panic [of s] r by (simp add: encode_cons str_bytes_def Let_def)
  qed
qed

lemma percent_round_trip:
  assumes "valid_utf8 (str_bytes s)"
  shows "urlencoding_decode (urlencoding_encode s) = Some s"
  using assms by (simp add: urlencoding_decode_def decode_loop_encode utf8_lossy_id)

end
