(* ===== verification/Desktop.thy ===== *)
theory Desktop
  imports DesktopConnect Cli
begin

text \<open>
  The desktop program, \<open>evident-gui-app/src/main.rs\<close>: its projects on disk, the local verification, the commit of a
  file, the panels for the account and the backups, the jobs of its worker threads and the handling of their answers.
  The drawing of the windows is left out; a text of the interface, which has two languages, is the constructor
  that names it.  Each job runs between two frames, at any later time; its answer waits in a queue for the next frame.
\<close>

section \<open>Texts and results\<close>

datatype UiText = InvalidProjectChain | AccountIdMissing | InvalidBackupId | InvalidBackupSnapshot
  | AccountLoadFailed string | RawText string

datatype VerifyDetailsState = DetailsEmpty | NoProjectSelected | Verifying | ProofValid | ReadProjectFailed string
  | ParseProjectFailed string | DetailsInvalidChainId | DetailsWarning string | UntrustedIdentity string string
  | VerifyFailed string | ServerErrors string

datatype VerifyStatus = VerifyNone | VerifyValid | VerifyInvalid | VerifyPartial

datatype GuiText = NoText | SelectFile | EnterProjectName | SelectProject | ProjectsDirError string
  | LayoutError string | ProjectCreateError string | ReadProjectError string | ParseProjectError string | InvalidChainText
  | SendingText | FileReadError string | LocalDataLoaded | NoLocalData | PinnedFirst string | FetchKeyError string
  | KeyChanged | SignatureFailed string | NoServerKey | KeyFetchFailed | KeyNoHome | KeySaveFailed string | KeyUpdated
  | HashReady | HashError string | FileSelected | CommitComplete | RecheckComplete | SaveError string | SaveOverSource
  | SaveSizeMismatch | CopySaved | CertificateSaved string | CertificateError string

datatype ErrorType = NoErrorType | ChainBreak

record VerificationEvent =
  ve_sequence :: i64
  ve_event_id :: string
  ve_file_name :: string
  ve_valid :: bool
  ve_error :: "string option"
  ve_error_type :: ErrorType
  ve_local_integrity_ok :: "bool option"

datatype ChainValidationError = InvalidSequence nat i64 | SequenceBreak nat i64 i64 | MissingHeadEventId

datatype ProjectMode = NewProject | ExistingProject

datatype GuiStep = StepIdle | StepCommitting | StepDone | StepFailed

datatype GuiScreen = ScreenConnect | ScreenFileSelection | ScreenHashPreview | ScreenSelectProject | ScreenCommitProgress
  | ScreenResult | ScreenVerifyProject | ScreenVerifyResult | ScreenAccount | ScreenBackup

datatype GuiCertificate = CertificateNone | CertificateGenerating | CertificateGenerated string | CertificateFailed string

section \<open>The state\<close>

record ConnectPanel =
  cp_auth_state :: AuthState
  cp_connected_email :: string
  cp_connected_plan :: string
  cp_connecting :: bool
  cp_connect_error :: "string option"

record AccountPanel =
  apn_account_data :: "json option"
  apn_loading_account :: bool
  apn_dev_selected_plan :: string
  apn_loading_dev_change_plan :: bool
  apn_dev_change_plan_error :: "UiText option"
  apn_dev_plan_change :: "(string \<times> string) option"

record PendingRestore =
  pr_backup_id :: uuid
  pr_bytes :: "byte list"

record BackupPanel =
  bp_list_data :: "ClientBackupItem list option"
  bp_loading_list :: bool
  bp_list_error :: "string option"
  bp_loading_create :: bool
  bp_create_error :: "UiText option"
  bp_loading_export :: bool
  bp_export_error :: "UiText option"
  bp_export_path :: "string option"
  bp_loading_download :: "string option"
  bp_download_error :: "UiText option"
  bp_download_path :: "string option"
  bp_loading_restore_download :: "string option"
  bp_loading_restore :: "string option"
  bp_pending_restore :: "PendingRestore option"
  bp_restore_error :: "UiText option"
  bp_restore_summary :: "RestoreSummary option"

record App =
  ap_file_path :: string
  ap_file_name :: string
  ap_selected_file_hash :: string
  ap_loading_hash :: bool
  ap_projects :: "string list"
  ap_project_name :: string
  ap_selected_project :: string
  ap_project_mode :: ProjectMode
  ap_status :: GuiText
  ap_status_localized :: "UiText option"
  ap_step :: GuiStep
  ap_commit_success :: bool
  ap_commit_error :: "string option"
  ap_event_id :: string
  ap_proof_path :: string
  ap_public_proof_id :: string
  ap_verify_status :: VerifyStatus
  ap_verify_details :: VerifyDetailsState
  ap_certificate_status :: GuiCertificate
  ap_verification_events :: "VerificationEvent list"
  ap_verification_complete :: bool
  ap_verification_project :: string
  ap_screen :: GuiScreen
  ap_head_event_id :: "string option"
  ap_loading_verify_chain :: bool
  ap_loading_commit :: bool
  ap_last_proof :: "ProofFile option"
  ap_account :: AccountPanel
  ap_backup :: BackupPanel
  ap_connect :: ConnectPanel

text \<open>The jobs of the worker threads and their answers.\<close>

datatype GuiTask =
    TaskHash string
  | TaskCommit string string uuid string string "byte list"
  | TaskVerifyChain uuid
  | TaskAccount
  | TaskConnect
  | TaskChangePlan uuid string
  | TaskBackupList
  | TaskBackupCreate uuid
  | TaskBackupExport uuid
  | TaskBackupDownload uuid
  | TaskRestoreDownload uuid
  | TaskRestore uuid "byte list"

record CommitSuccess =
  cs_commit :: CommitResponse
  cs_proof_path :: string
  cs_file_hash :: string
  cs_project_path :: string
  cs_proofs_dir :: string
  cs_chain_uuid :: uuid
  cs_source_file_path :: string
  cs_file_name :: string
  cs_public_proof_id :: "string option"

record CommitFailure =
  cf_error :: string
  cf_project_path :: string
  cf_chain_uuid :: uuid
  cf_file_hash :: string

datatype WorkerResponse =
    HashComputed "string + string"
  | VerifyChainDone "string + VerifyResponse"
  | CommitDone "CommitFailure + CommitSuccess"
  | AccountFetchDone "string + json"
  | ConnectDone "string + string \<times> string"
  | DevChangePlanDone "string + DevChangePlanResponse"
  | BackupListDone "string + ClientBackupItem list"
  | BackupCreateDone "string + BackupCreateResponse"
  | BackupExportDone "string + string"
  | BackupDownloadDone "string + uuid \<times> byte list"
  | BackupRestoreDownloadDone "string + uuid \<times> byte list"
  | BackupRestoreDone "string + RestoreSummary"

text \<open>The program's state, the files, the key chain, the jobs that run and the answers that wait.\<close>

record gui_world =
  gw_app :: App
  gw_fs :: filesystem
  gw_chain :: "string option"
  gw_tasks :: "GuiTask list"
  gw_queue :: "WorkerResponse list"

record Project =
  pj_name :: string
  pj_chain_id :: string
  pj_created_at :: string

record gui_env =
  ge_server_var :: "string option"
  ge_client :: client_env
  ge_network :: network
  ge_submit :: submit_env
  ge_home_var :: "string option"
  ge_home_dir :: "string option"
  ge_list :: "filesystem \<Rightarrow> string \<Rightarrow> string list option"
  ge_project_text :: "Project \<Rightarrow> byte list"
  ge_copies_text :: "(string \<rightharpoonup> string) \<Rightarrow> byte list"
  ge_snapshot :: "byte list \<Rightarrow> string + BackupSnapshot"
  ge_audit :: "AuditEvent \<Rightarrow> byte list"
  ge_log_ok :: bool
  ge_detail :: "ClientError \<Rightarrow> string"
  ge_io_text :: string
  ge_json_text :: string
  ge_lower :: "string \<Rightarrow> string"
  ge_new_id :: uuid
  ge_now :: timestamp
  ge_rfc3339 :: string
  ge_stamp :: string
  ge_heard :: "string + byte list"
  ge_keychain_ok :: bool
  ge_canonical :: "filesystem \<Rightarrow> string \<Rightarrow> string option"
  ge_same_inode :: "filesystem \<Rightarrow> string \<Rightarrow> string \<Rightarrow> bool"
  ge_certificate :: "EvidenceRecord \<Rightarrow> ProofFile \<Rightarrow> string option \<Rightarrow> string + byte list"
  ge_documents_dir :: "string option"

definition on_app :: "(App \<Rightarrow> App) \<Rightarrow> gui_world \<Rightarrow> gui_world" where
  "on_app f w = w\<lparr> gw_app := f (gw_app w) \<rparr>"

definition set_status :: "GuiText \<Rightarrow> gui_world \<Rightarrow> gui_world" where
  "set_status t = on_app (\<lambda>a. a\<lparr> ap_status := t \<rparr>)"

definition spawn :: "GuiTask \<Rightarrow> gui_world \<Rightarrow> gui_world" where
  "spawn t w = w\<lparr> gw_tasks := gw_tasks w @ [t] \<rparr>"

definition on_backup :: "(BackupPanel \<Rightarrow> BackupPanel) \<Rightarrow> gui_world \<Rightarrow> gui_world" where
  "on_backup f = on_app (\<lambda>a. a\<lparr> ap_backup := f (ap_backup a) \<rparr>)"

definition on_account :: "(AccountPanel \<Rightarrow> AccountPanel) \<Rightarrow> gui_world \<Rightarrow> gui_world" where
  "on_account f = on_app (\<lambda>a. a\<lparr> ap_account := f (ap_account a) \<rparr>)"

definition on_connect :: "(ConnectPanel \<Rightarrow> ConnectPanel) \<Rightarrow> gui_world \<Rightarrow> gui_world" where
  "on_connect f = on_app (\<lambda>a. a\<lparr> ap_connect := f (ap_connect a) \<rparr>)"

text \<open>\<open>App::default\<close>.\<close>

definition default_app :: App where
  "default_app = \<lparr> ap_file_path = [], ap_file_name = [], ap_selected_file_hash = [], ap_loading_hash = False,
     ap_projects = [], ap_project_name = [], ap_selected_project = [], ap_project_mode = NewProject, ap_status = NoText,
     ap_status_localized = None, ap_step = StepIdle, ap_commit_success = False, ap_commit_error = None, ap_event_id = [],
     ap_proof_path = [], ap_public_proof_id = [], ap_verify_status = VerifyNone, ap_verify_details = DetailsEmpty,
     ap_certificate_status = CertificateNone, ap_verification_events = [], ap_verification_complete = False,
     ap_verification_project = [], ap_screen = ScreenConnect, ap_head_event_id = None, ap_loading_verify_chain = False,
     ap_loading_commit = False, ap_last_proof = None,
     ap_account = \<lparr> apn_account_data = None, apn_loading_account = False, apn_dev_selected_plan = ''free'',
       apn_loading_dev_change_plan = False, apn_dev_change_plan_error = None, apn_dev_plan_change = None \<rparr>,
     ap_backup = \<lparr> bp_list_data = None, bp_loading_list = False, bp_list_error = None, bp_loading_create = False,
       bp_create_error = None, bp_loading_export = False, bp_export_error = None, bp_export_path = None,
       bp_loading_download = None, bp_download_error = None, bp_download_path = None, bp_loading_restore_download = None,
       bp_loading_restore = None, bp_pending_restore = None, bp_restore_error = None, bp_restore_summary = None \<rparr>,
     ap_connect = \<lparr> cp_auth_state = Unauthenticated, cp_connected_email = [], cp_connected_plan = [],
       cp_connecting = False, cp_connect_error = None \<rparr> \<rparr>"

section \<open>Clients\<close>

definition gui_server_url :: "gui_env \<Rightarrow> string" where
  "gui_server_url v = (case ge_server_var v of Some u \<Rightarrow> u | None \<Rightarrow> ''https://evident-ledger.com'')"

definition plain_client :: "gui_env \<Rightarrow> EvidentClient" where
  "plain_client v = client_new (gui_server_url v) (ge_client v)"

definition authed_client :: "gui_env \<Rightarrow> string option \<Rightarrow> EvidentClient" where
  "authed_client v chain = (case load_token_from_keychain chain of
     Some token \<Rightarrow> with_desktop_token token (plain_client v) | None \<Rightarrow> plain_client v)"

text \<open>The text of an error of the client.\<close>

definition gui_error_text :: "gui_env \<Rightarrow> ClientError \<Rightarrow> string" where
  "gui_error_text v e = (case e of
     CeHttp \<Rightarrow> ''HTTP error: '' @ ge_detail v e | CeIo \<Rightarrow> ''IO error: '' @ ge_detail v e
   | CeJson \<Rightarrow> ''JSON error: '' @ ge_detail v e | CeServer s \<Rightarrow> ''Server error: '' @ s)"

text \<open>\<open>me\<close> as the panel shows it: the e-mail address and the plan.\<close>

definition me_texts :: "json \<Rightarrow> string \<times> string" where
  "me_texts me = (str_field_or me ''email'' [],
     case (case json_get me ''plan_display'' of Some p \<Rightarrow> Some p | None \<Rightarrow> json_get me ''plan'') of
       Some p \<Rightarrow> (case json_str p of Some s \<Rightarrow> s | None \<Rightarrow> []) | None \<Rightarrow> [])"

section \<open>Signing in\<close>

definition refresh_auth_from_keychain :: "gui_env \<Rightarrow> gui_world \<Rightarrow> gui_world" where
  "refresh_auth_from_keychain v w = (case load_token_from_keychain (gw_chain w) of
     None \<Rightarrow> on_app (\<lambda>a. a\<lparr> ap_screen := ScreenConnect \<rparr>) (on_connect (\<lambda>c. c\<lparr> cp_auth_state := Unauthenticated \<rparr>) w)
   | Some token \<Rightarrow> (case fetch_me (ge_network v) (with_desktop_token token (plain_client v)) of
       Inr me \<Rightarrow>
         on_app (\<lambda>a. if ap_screen a = ScreenConnect then a\<lparr> ap_screen := ScreenFileSelection \<rparr> else a)
           (on_connect (\<lambda>c. c\<lparr> cp_connected_email := fst (me_texts me), cp_connected_plan := snd (me_texts me),
              cp_auth_state := Authenticated \<rparr>) w)
     | Inl e \<Rightarrow>
         (let msg = gui_error_text v e; lower = ge_lower v msg;
              (st, chain) = (if str_contains lower ''revoked''
                then (AuthRevoked, clear_token_from_keychain (ge_keychain_ok v) (gw_chain w))
                else if str_contains lower ''401'' \<or> str_contains lower ''unauthorized''
                then (AuthExpired, clear_token_from_keychain (ge_keychain_ok v) (gw_chain w))
                else (Unauthenticated, gw_chain w))
          in on_app (\<lambda>a. a\<lparr> ap_screen := ScreenConnect \<rparr>)
            (on_connect (\<lambda>c. c\<lparr> cp_auth_state := st, cp_connect_error := Some msg \<rparr>) (w\<lparr> gw_chain := chain \<rparr>)))))"

definition start_connect :: "gui_world \<Rightarrow> gui_world" where
  "start_connect w = (if cp_connecting (ap_connect (gw_app w)) then w
     else spawn TaskConnect (on_connect (\<lambda>c. c\<lparr> cp_connecting := True, cp_connect_error := None \<rparr>) w))"

text \<open>The thread: \<open>None\<close> where it stops without an answer.\<close>

definition run_connect :: "gui_env \<Rightarrow> string option \<Rightarrow> (string + string \<times> string) option \<times> string option" where
  "run_connect v chain = (case connect_via_browser (ge_heard v) of
     None \<Rightarrow> (None, chain)
   | Some (Inl e) \<Rightarrow> (Some (Inl e), chain)
   | Some (Inr token) \<Rightarrow>
       (case save_token_to_keychain (ge_keychain_ok v) token chain of
          (Inl e, chain') \<Rightarrow> (Some (Inl e), chain')
        | (Inr _, chain') \<Rightarrow>
            (case fetch_me (ge_network v) (with_desktop_token token (plain_client v)) of
               Inl e \<Rightarrow> (Some (Inl (gui_error_text v e)), chain')
             | Inr me \<Rightarrow> (Some (Inr (me_texts me)), chain'))))"

section \<open>Projects\<close>

definition read_project :: "json \<Rightarrow> Project option" where
  "read_project j =
     Option.bind (need j ''name'' json_str) (\<lambda>n.
     Option.bind (need j ''chain_id'' json_str) (\<lambda>c.
     Option.bind (need j ''created_at'' json_str) (\<lambda>t.
     Some \<lparr> pj_name = n, pj_chain_id = c, pj_created_at = t \<rparr>)))"

datatype project_error = ProjectUnreadable | ProjectUnparsable

definition load_project :: "gui_env \<Rightarrow> string \<Rightarrow> filesystem \<Rightarrow> project_error + Project" where
  "load_project v project_path fs =
     (case read_text fs (join_path project_path ''project.json'') of
        None \<Rightarrow> Inl ProjectUnreadable
      | Some contents \<Rightarrow> ok_or ProjectUnparsable (Option.bind (nw_parse (ge_network v) contents) read_project))"

definition project_save :: "gui_env \<Rightarrow> Project \<Rightarrow> string \<Rightarrow> filesystem \<Rightarrow> filesystem option" where
  "project_save v p projects_dir fs =
     (let project_path = join_path projects_dir (pj_name p) in
      if \<not> fs_mkdir_ok fs project_path \<or> \<not> fs_mkdir_ok fs (join_path project_path ''proofs'')
        \<or> \<not> fs_mkdir_ok fs (join_path project_path ''audit'') then None
      else let path = join_path project_path ''project.json'' in
        if \<not> fs_write_ok fs path then None
        else Some (fs\<lparr> fs_file := (fs_file fs)(path \<mapsto> ge_project_text v p) \<rparr>))"

definition project_list :: "gui_env \<Rightarrow> string \<Rightarrow> filesystem \<Rightarrow> string list" where
  "project_list v projects_dir fs = (case ge_list v fs projects_dir of
     None \<Rightarrow> []
   | Some names \<Rightarrow> filter (\<lambda>n. fs_file fs (join_path (join_path projects_dir n) ''project.json'') \<noteq> None) names)"

definition projects_dir :: "gui_env \<Rightarrow> string + string" where
  "projects_dir v = (case ge_home_var v of
     None \<Rightarrow> Inl ''HOME is required'' | Some home \<Rightarrow> Inr (join_path home ''Evident Projects''))"

definition load_projects :: "gui_env \<Rightarrow> gui_world \<Rightarrow> gui_world" where
  "load_projects v w = (case projects_dir v of
     Inr dir \<Rightarrow> on_app (\<lambda>a. a\<lparr> ap_projects := project_list v dir (gw_fs w) \<rparr>) w
   | Inl err \<Rightarrow> on_app (\<lambda>a. a\<lparr> ap_projects := [], ap_status := ProjectsDirError err \<rparr>) w)"

definition ensure_project_layout :: "string \<Rightarrow> filesystem \<Rightarrow> string + unit" where
  "ensure_project_layout project_path fs =
     (if \<not> fs_mkdir_ok fs (join_path project_path ''proofs'') then Inl ''proofs''
      else if \<not> fs_mkdir_ok fs (join_path project_path ''audit'') then Inl ''audit'' else Inr ())"

text \<open>A failure to append is ignored by every caller.\<close>

definition gui_audit :: "gui_env \<Rightarrow> string \<Rightarrow> AuditEvent \<Rightarrow> filesystem \<Rightarrow> filesystem" where
  "gui_audit v project_path e fs =
     (case audit_append (ge_audit v) (ge_log_ok v) (join_path (join_path project_path ''audit'') ''audit.jsonl'') e fs of
        None \<Rightarrow> fs | Some fs' \<Rightarrow> fs')"

section \<open>Local copies and local proofs\<close>

definition check_local_integrity :: "ext \<Rightarrow> filesystem \<Rightarrow> string \<Rightarrow> string \<Rightarrow> bool option" where
  "check_local_integrity x fs local_path expected_hash =
     (if fs_file fs local_path = None then None
      else map_option (\<lambda>bytes. sha_hex x bytes = expected_hash) (fs_read fs local_path))"

fun read_copies :: "json \<Rightarrow> (string \<rightharpoonup> string) option" where
  "read_copies (JObject members) =
     map_option (\<lambda>ps. map_of (rev ps)) (read_all (\<lambda>(k, j). map_option (Pair k) (json_str j)) members)"
| "read_copies _ = None"

definition load_local_copies :: "gui_env \<Rightarrow> string \<Rightarrow> filesystem \<Rightarrow> (string \<rightharpoonup> string)" where
  "load_local_copies v proofs fs =
     (case read_text fs (join_path proofs ''local_copies.json'') of
        None \<Rightarrow> Map.empty
      | Some contents \<Rightarrow> (case Option.bind (nw_parse (ge_network v) contents) read_copies of
          Some m \<Rightarrow> m | None \<Rightarrow> Map.empty))"

definition save_local_copy :: "gui_env \<Rightarrow> string \<Rightarrow> string \<Rightarrow> string \<Rightarrow> filesystem \<Rightarrow> filesystem option" where
  "save_local_copy v proofs event_id file_path fs =
     (let map = (load_local_copies v proofs fs)(event_id \<mapsto> file_path);
          path = join_path proofs ''local_copies.json'' in
      if \<not> fs_mkdir_ok fs proofs \<or> \<not> fs_write_ok fs path then None
      else Some (fs\<lparr> fs_file := (fs_file fs)(path \<mapsto> ge_copies_text v map) \<rparr>))"

text \<open>The proof file with the most events, the first of them where several have as many.\<close>

definition proof_in :: "gui_env \<Rightarrow> string \<Rightarrow> filesystem \<Rightarrow> string \<Rightarrow> ProofFile option" where
  "proof_in v proofs fs name =
     (if \<not> is_json_file name then None
      else Option.bind (read_text fs (join_path proofs name)) (\<lambda>contents.
        Option.bind (nw_parse (ge_network v) contents) read_proof_file))"

fun best_proof :: "ProofFile option \<Rightarrow> ProofFile option list \<Rightarrow> ProofFile option" where
  "best_proof best [] = best"
| "best_proof best (None # ps) = best_proof best ps"
| "best_proof best (Some p # ps) =
     best_proof (if (case best of None \<Rightarrow> True | Some b \<Rightarrow> length (pf_events p) > length (pf_events b)) then Some p else best) ps"

definition load_local_proof :: "gui_env \<Rightarrow> string \<Rightarrow> filesystem \<Rightarrow> ProofFile option" where
  "load_local_proof v proofs fs = (case ge_list v fs proofs of
     None \<Rightarrow> None | Some names \<Rightarrow> best_proof None (map (proof_in v proofs fs) names))"

definition nil_parent :: string where
  "nil_parent = ''00000000-0000-0000-0000-000000000000''"

text \<open>\<open>{:04}\<close> of an integer: zeros after the sign.\<close>

definition show_padded :: "nat \<Rightarrow> int \<Rightarrow> string" where
  "show_padded width i = (let ds = digits (nat \<bar>i\<bar>); s = (if i < 0 then ''-'' else []) in
     s @ replicate (width - length s - length ds) (CHR ''0'') @ ds)"

definition local_event :: "ext \<Rightarrow> filesystem \<Rightarrow> (string \<rightharpoonup> string) \<Rightarrow> string \<Rightarrow> EventLeaf \<Rightarrow> VerificationEvent" where
  "local_event x fs copies expected_parent leaf =
     (let chain_ok = (el_parent_event_id leaf = expected_parent);
          label = ''event '' @ show_padded 4 (sint (el_sequence leaf));
          (ok, name) = (case copies (el_event_id leaf) of
            Some path \<Rightarrow> (check_local_integrity x fs path (el_file_hash leaf),
              case path_file_name path of Some n \<Rightarrow> n | None \<Rightarrow> label)
          | None \<Rightarrow> (None, label @ '' (not stored)''))
      in \<lparr> ve_sequence = el_sequence leaf, ve_event_id = el_event_id leaf, ve_file_name = name, ve_valid = chain_ok,
           ve_error = (if chain_ok then None else Some ''parent_event_id chain break (local)''),
           ve_error_type = (if chain_ok then NoErrorType else ChainBreak), ve_local_integrity_ok = ok \<rparr>)"

fun local_events :: "ext \<Rightarrow> filesystem \<Rightarrow> (string \<rightharpoonup> string) \<Rightarrow> string \<Rightarrow> EventLeaf list \<Rightarrow> VerificationEvent list" where
  "local_events x fs copies expected_parent [] = []"
| "local_events x fs copies expected_parent (leaf # leaves) =
     local_event x fs copies expected_parent leaf # local_events x fs copies (el_event_id leaf) leaves"

definition build_local_events :: "ext \<Rightarrow> gui_env \<Rightarrow> ProofFile \<Rightarrow> string \<Rightarrow> filesystem \<Rightarrow> VerificationEvent list" where
  "build_local_events x v proof proofs fs =
     local_events x fs (load_local_copies v proofs fs) nil_parent (sort_key (\<lambda>e. sint (el_sequence e)) (pf_events proof))"

fun validate_events :: "nat \<Rightarrow> VerificationEvent list \<Rightarrow> ChainValidationError option" where
  "validate_events index [] = None"
| "validate_events index (e # es) =
     (if sint (ve_sequence e) \<le> 0 then Some (InvalidSequence index (ve_sequence e))
      else let expected = of_nat index + 1 in
        if ve_sequence e \<noteq> expected then Some (SequenceBreak index expected (ve_sequence e))
        else validate_events (Suc index) es)"

definition validate_chain :: "VerificationEvent list \<Rightarrow> string option \<Rightarrow> ChainValidationError + unit" where
  "validate_chain es head_event_id =
     (if es = [] then Inl MissingHeadEventId
      else case validate_events 0 es of
        Some e \<Rightarrow> Inl e
      | None \<Rightarrow> if head_event_id = None then Inl MissingHeadEventId else Inr ())"

section \<open>The outcome of a verification\<close>

definition set_outcome :: "VerifyStatus \<Rightarrow> VerifyDetailsState \<Rightarrow> App \<Rightarrow> App" where
  "set_outcome status details a =
     (let kept = (case status of
          VerifyNone \<Rightarrow> if details \<in> {DetailsEmpty, Verifying, NoProjectSelected} then details else DetailsEmpty
        | VerifyValid \<Rightarrow> ProofValid
        | VerifyInvalid \<Rightarrow> if details \<in> {ProofValid, Verifying, DetailsEmpty} then DetailsEmpty else details
        | VerifyPartial \<Rightarrow> if details \<in> {ProofValid, Verifying, DetailsEmpty} then DetailsEmpty else details)
      in a\<lparr> ap_verify_status := status, ap_verify_details := kept \<rparr>)"

definition set_verify_outcome :: "VerifyStatus \<Rightarrow> VerifyDetailsState \<Rightarrow> gui_world \<Rightarrow> gui_world" where
  "set_verify_outcome status details = on_app (set_outcome status details)"

definition clear_verify_outcome :: "gui_world \<Rightarrow> gui_world" where
  "clear_verify_outcome = set_verify_outcome VerifyNone DetailsEmpty"

text \<open>What the events say, before any signature is looked at.\<close>

definition local_outcome :: "VerificationEvent list \<Rightarrow> VerifyStatus \<times> VerifyDetailsState" where
  "local_outcome es =
     (if \<not> list_all ve_valid es then (VerifyInvalid, DetailsWarning ''Local event chain is broken'')
      else if list_ex (\<lambda>e. ve_local_integrity_ok e = Some False) es
        then (VerifyPartial, DetailsWarning ''Local file copy differs from the committed hash'')
      else (VerifyValid, ProofValid))"

definition pinned_key_path :: "gui_env \<Rightarrow> string option" where
  "pinned_key_path v = map_option (\<lambda>home. join_path (join_path home ''.evident'') ''server_identity.pub'') (ge_home_dir v)"

text \<open>The key that is trusted: the pinned one, or at the first use the one the server answers, which is pinned; a
  failure to write it is ignored.  The status names its first 16 bytes; a key with a character across the 16th
  byte would stop the program there.\<close>

definition trusted_key :: "gui_env \<Rightarrow> gui_world \<Rightarrow> string option \<times> gui_world" where
  "trusted_key v w =
     (case Option.bind (pinned_key_path v) (\<lambda>p. map_option trim (read_text (gw_fs w) p)) of
        Some key \<Rightarrow> (Some key, w)
      | None \<Rightarrow> (case pinned_key_path v of
          None \<Rightarrow> (None, w)
        | Some path \<Rightarrow> (case fetch_identity (ge_network v) (authed_client v (gw_chain w)) of
            Inl e \<Rightarrow> (None, set_status (FetchKeyError (gui_error_text v e)) w)
          | Inr key \<Rightarrow> (Some key, set_status (PinnedFirst (take 16 key))
              (if fs_write_ok (gw_fs w) path
               then w\<lparr> gw_fs := (gw_fs w)\<lparr> fs_file := (fs_file (gw_fs w))(path \<mapsto> str_bytes key) \<rparr> \<rparr> else w)))))"

definition signature_failed :: string where
  "signature_failed = ''Cryptographic signature verification failed''"

definition check_signature :: "ext \<Rightarrow> gui_env \<Rightarrow> gui_world \<Rightarrow> gui_world" where
  "check_signature x v w = (case ap_last_proof (gw_app w) of
     None \<Rightarrow> w
   | Some proof \<Rightarrow> (case trusted_key v w of
       (None, w') \<Rightarrow> set_status NoServerKey w'
     | (Some key, w') \<Rightarrow>
         (case classify_signature x (pp_public_key (pf_proof proof)) key (pf_chain_id proof) (pp_root (pf_proof proof))
             (pp_chain_head (pf_proof proof)) (pp_signature (pf_proof proof)) of
            SigValid \<Rightarrow> w'
          | UntrustedSignerIdentity pinned proof_key \<Rightarrow>
              set_status KeyChanged (set_verify_outcome VerifyInvalid (UntrustedIdentity pinned proof_key) w')
          | SignatureInvalid identity \<Rightarrow>
              set_status (SignatureFailed identity)
                (set_verify_outcome VerifyInvalid (DetailsWarning signature_failed) w'))))"

text \<open>The part of the verification that reads the disk, and the signature after it.\<close>

definition verify_local :: "ext \<Rightarrow> gui_env \<Rightarrow> string \<Rightarrow> gui_world \<Rightarrow> gui_world" where
  "verify_local x v proofs w = (case load_local_proof v proofs (gw_fs w) of
     Some proof \<Rightarrow>
       (let es = build_local_events x v proof proofs (gw_fs w); (status, details) = local_outcome es in
        set_status LocalDataLoaded (set_verify_outcome status details (on_app (\<lambda>a. a\<lparr>
          ap_head_event_id := Some (pf_head_event_id proof), ap_verification_events := es, ap_last_proof := Some proof \<rparr>) w)))
   | None \<Rightarrow> set_status NoLocalData (clear_verify_outcome w))"

definition verify_project :: "ext \<Rightarrow> gui_env \<Rightarrow> gui_world \<Rightarrow> gui_world" where
  "verify_project x v w =
     (let selected = ap_selected_project (gw_app w);
          w1 = on_app (\<lambda>a. a\<lparr> ap_verification_events := [], ap_verification_complete := False,
            ap_verification_project := selected \<rparr>) w in
      if selected = [] then set_status SelectProject w1
      else case projects_dir v of
        Inl err \<Rightarrow> set_status (ProjectsDirError err) w1
      | Inr dir \<Rightarrow> (let project_path = join_path dir selected in
          case load_project v project_path (gw_fs w1) of
            Inl ProjectUnreadable \<Rightarrow> set_status (ReadProjectError (ge_io_text v)) w1
          | Inl ProjectUnparsable \<Rightarrow> set_status (ParseProjectError (ge_json_text v)) w1
          | Inr project \<Rightarrow>
              if x_uuid_parse x (pj_chain_id project) = None then set_status InvalidChainText w1
              else check_signature x v (on_app (\<lambda>a. a\<lparr> ap_verification_complete := True, ap_screen := ScreenVerifyResult \<rparr>)
                (verify_local x v (join_path project_path ''proofs'') w1))))"

definition refresh_trusted_server_key :: "ext \<Rightarrow> gui_env \<Rightarrow> gui_world \<Rightarrow> gui_world" where
  "refresh_trusted_server_key x v w =
     (case map_option trim (case fetch_identity (ge_network v) (plain_client v) of Inl _ \<Rightarrow> None | Inr k \<Rightarrow> Some k) of
        None \<Rightarrow> set_status KeyFetchFailed w
      | Some new_key \<Rightarrow>
          if new_key = [] then set_status KeyFetchFailed w
          else case pinned_key_path v of
            None \<Rightarrow> set_status KeyNoHome w
          | Some path \<Rightarrow>
              if \<not> fs_write_ok (gw_fs w) path then set_status (KeySaveFailed (ge_io_text v)) w
              else let w2 = verify_project x v (w\<lparr> gw_fs := (gw_fs w)\<lparr> fs_file :=
                    (fs_file (gw_fs w))(path \<mapsto> str_bytes new_key) \<rparr> \<rparr>) in
                if ap_verify_status (gw_app w2) \<in> {VerifyValid, VerifyPartial} then set_status KeyUpdated w2 else w2)"

text \<open>The button of the dashboard: a status that starts with a sign of failure stays.\<close>

definition already_specific :: "GuiText \<Rightarrow> bool" where
  "already_specific t = (case t of
     SelectProject \<Rightarrow> True | ProjectsDirError _ \<Rightarrow> True | ReadProjectError _ \<Rightarrow> True | ParseProjectError _ \<Rightarrow> True
   | InvalidChainText \<Rightarrow> True | NoLocalData \<Rightarrow> True | FetchKeyError _ \<Rightarrow> True | KeyChanged \<Rightarrow> True
   | SignatureFailed _ \<Rightarrow> True | NoServerKey \<Rightarrow> True | _ \<Rightarrow> False)"

definition recheck :: "ext \<Rightarrow> gui_env \<Rightarrow> gui_world \<Rightarrow> gui_world" where
  "recheck x v w = (let w' = verify_project x v w in
     if already_specific (ap_status (gw_app w')) then w' else set_status RecheckComplete w')"

end
