(* ===== verification/DesktopJobs.thy ===== *)
theory DesktopJobs
  imports Desktop
begin

text \<open>
  The work of the desktop program, \<open>evident-gui-app/src/main.rs\<close>: the commit of a file, the verification by the
  server, the panels' requests, what each job does on its thread, what the program makes of its answer, and the buttons
  of the screens.  The step relation interleaves buttons, jobs and frames.
\<close>

section \<open>Committing a file\<close>

text \<open>A new project is written, under a name that may be taken, before the file is read.\<close>

definition commit_chain_id :: "ext \<Rightarrow> gui_env \<Rightarrow> string \<Rightarrow> string \<Rightarrow> gui_world \<Rightarrow> GuiText + string \<times> gui_world" where
  "commit_chain_id x v dir project_name w =
     (if ap_project_mode (gw_app w) = NewProject then
        (let project = \<lparr> pj_name = project_name, pj_chain_id = x_uuid_str x (ge_new_id v), pj_created_at = ge_rfc3339 v \<rparr> in
         case project_save v project dir (gw_fs w) of
           None \<Rightarrow> Inl (ProjectCreateError (ge_io_text v))
         | Some fs \<Rightarrow> Inr (pj_chain_id project, on_app (\<lambda>a. a\<lparr> ap_selected_project := project_name,
             ap_project_mode := ExistingProject \<rparr>) (w\<lparr> gw_fs := fs \<rparr>)))
      else case load_project v (join_path dir project_name) (gw_fs w) of
        Inl ProjectUnreadable \<Rightarrow> Inl (ReadProjectError (ge_io_text v))
      | Inl ProjectUnparsable \<Rightarrow> Inl (ParseProjectError (ge_json_text v))
      | Inr project \<Rightarrow> Inr (pj_chain_id project, w))"

definition start_commit :: "ext \<Rightarrow> gui_env \<Rightarrow> string \<Rightarrow> string \<Rightarrow> gui_world \<Rightarrow> gui_world" where
  "start_commit x v project_path chain_id w =
     (let a = gw_app w;
          w1 = on_app (\<lambda>a. a\<lparr> ap_step := StepCommitting, ap_status := SendingText, ap_screen := ScreenCommitProgress,
            ap_loading_commit := True \<rparr>) w;
          failed = (\<lambda>t. on_app (\<lambda>a. a\<lparr> ap_step := StepFailed, ap_status := t, ap_loading_commit := False \<rparr>) w1) in
      case fs_read (gw_fs w) (ap_file_path a) of
        None \<Rightarrow> failed (FileReadError (ge_io_text v))
      | Some bytes \<Rightarrow> (case x_uuid_parse x chain_id of
          None \<Rightarrow> failed InvalidChainText
        | Some chain_uuid \<Rightarrow> spawn (TaskCommit project_path (join_path project_path ''proofs'') chain_uuid
            (ap_file_path a) (ap_file_name a) bytes) w1))"

definition do_commit :: "ext \<Rightarrow> gui_env \<Rightarrow> gui_world \<Rightarrow> gui_world" where
  "do_commit x v w =
     (let a = gw_app w; project_name = (if ap_project_mode a = NewProject then ap_project_name a else ap_selected_project a) in
      if ap_file_path a = [] then set_status SelectFile w
      else if project_name = [] then set_status EnterProjectName w
      else case projects_dir v of Inl err \<Rightarrow> set_status (ProjectsDirError err) w | Inr dir \<Rightarrow>
      (let project_path = join_path dir project_name in
       case ensure_project_layout project_path (gw_fs w) of Inl what \<Rightarrow> set_status (LayoutError what) w | Inr _ \<Rightarrow>
       (case commit_chain_id x v dir project_name w of Inl t \<Rightarrow> set_status t w | Inr (chain_id, w1) \<Rightarrow>
          start_commit x v project_path chain_id w1)))"

definition run_commit ::
  "ext \<Rightarrow> gui_env \<Rightarrow> string \<Rightarrow> string \<Rightarrow> uuid \<Rightarrow> string \<Rightarrow> string \<Rightarrow> byte list \<Rightarrow> string option \<Rightarrow> filesystem
    \<Rightarrow> (CommitFailure + CommitSuccess) \<times> filesystem" where
  "run_commit x v project_path proofs chain_uuid source file_name bytes chain fs =
     (let client = authed_client v chain;
          meta = \<lparr> em_filename = Some file_name, em_mime_type = None,
            em_project_id = Some (case path_file_name project_path of Some n \<Rightarrow> n | None \<Rightarrow> ''project''),
            em_local_file_available = (source \<noteq> []) \<rparr> in
      case submit_event_with_meta x (ge_network v) (ge_submit v) client chain_uuid bytes meta fs of
        (Inr (commit, proof_path, file_hash), fs') \<Rightarrow>
          (Inr \<lparr> cs_commit = commit, cs_proof_path = proof_path, cs_file_hash = file_hash, cs_project_path = project_path,
             cs_proofs_dir = proofs, cs_chain_uuid = chain_uuid, cs_source_file_path = source, cs_file_name = file_name,
             cs_public_proof_id = lookup_public_proof_id (ge_network v) client file_hash \<rparr>, fs')
      | (Inl e, fs') \<Rightarrow>
          (Inl \<lparr> cf_error = gui_error_text v e, cf_project_path = project_path, cf_chain_uuid = chain_uuid,
             cf_file_hash = sha_hex x bytes \<rparr>, fs'))"

text \<open>The audit log of the project: two entries where the answer's event identifier parses.\<close>

definition commit_audit :: "ext \<Rightarrow> gui_env \<Rightarrow> CommitSuccess \<Rightarrow> filesystem \<Rightarrow> filesystem" where
  "commit_audit x v s fs =
     (let commit = cs_commit s in
      case x_uuid_parse x (cr_event_id commit) of None \<Rightarrow> fs | Some event_id \<Rightarrow>
      (let fs1 = gui_audit v (cs_project_path s)
             (audit_submitted (ge_now v) event_id (cs_chain_uuid s) (cs_file_hash s) None (cs_file_name s)) fs;
           parent = Option.bind (find (\<lambda>leaf. el_event_id leaf = cr_event_id commit) (cr_events commit))
             (\<lambda>leaf. x_uuid_parse x (el_parent_event_id leaf));
           proof = map_option (\<lambda>_. \<lparr> ca_root = pp_root (cr_proof commit), ca_signature = pp_signature (cr_proof commit),
             ca_anchored_by = ''evident-ledger'' \<rparr>) (cr_tsa commit)
       in gui_audit v (cs_project_path s)
            (audit_anchored (ge_now v) (ge_new_id v) (cs_chain_uuid s) (cs_file_hash s) parent (cr_sequence commit) event_id
              proof) fs1))"

text \<open>\<open>fs::copy\<close>; its failure is ignored.\<close>

definition copy_file :: "string \<Rightarrow> string \<Rightarrow> filesystem \<Rightarrow> filesystem" where
  "copy_file source dest fs = (case fs_read fs source of
     Some bytes \<Rightarrow> if fs_write_ok fs dest then fs\<lparr> fs_file := (fs_file fs)(dest \<mapsto> bytes) \<rparr> else fs | None \<Rightarrow> fs)"

definition commit_succeeded :: "ext \<Rightarrow> gui_env \<Rightarrow> CommitSuccess \<Rightarrow> gui_world \<Rightarrow> gui_world" where
  "commit_succeeded x v s w =
     (let commit = cs_commit s;
          dest = join_path (cs_proofs_dir s) (cr_event_id commit @ ''.json'');
          fs = commit_audit x v s (copy_file (cs_proof_path s) dest (gw_fs w));
          latest = (case fetch_proof x (ge_network v) (authed_client v (gw_chain w)) (cs_chain_uuid s) of
            Inr p \<Rightarrow> Some p | Inl _ \<Rightarrow> None)
      in load_projects v (on_app (\<lambda>a. a\<lparr> ap_commit_success := True, ap_screen := ScreenResult \<rparr>)
        (clear_verify_outcome (on_app (\<lambda>a. a\<lparr> ap_head_event_id := Some (cr_head_event_id commit),
           ap_event_id := cr_event_id commit,
           ap_public_proof_id := (case cs_public_proof_id s of Some p \<Rightarrow> p | None \<Rightarrow> []),
           ap_proof_path := dest, ap_last_proof := latest, ap_step := StepDone, ap_commit_error := None,
           ap_status := CommitComplete \<rparr>) (w\<lparr> gw_fs := fs \<rparr>)))))"

definition commit_failed :: "gui_env \<Rightarrow> CommitFailure \<Rightarrow> gui_world \<Rightarrow> gui_world" where
  "commit_failed v f w =
     on_app (\<lambda>a. a\<lparr> ap_step := StepFailed, ap_commit_error := Some (cf_error f), ap_status := NoText \<rparr>)
       (w\<lparr> gw_fs := gui_audit v (cf_project_path f) (audit_failed (ge_now v) (ge_new_id v) (cf_chain_uuid f) (cf_file_hash f)
          None (''submit failed: '' @ cf_error f)) (gw_fs w) \<rparr>)"

section \<open>Verification by the server\<close>

definition do_verify :: "ext \<Rightarrow> gui_env \<Rightarrow> gui_world \<Rightarrow> gui_world" where
  "do_verify x v w =
     (if ap_selected_project (gw_app w) = [] then set_verify_outcome VerifyInvalid NoProjectSelected w
      else case projects_dir v of
        Inl err \<Rightarrow> set_verify_outcome VerifyPartial (DetailsWarning err) w
      | Inr dir \<Rightarrow> (case load_project v (join_path dir (ap_selected_project (gw_app w))) (gw_fs w) of
          Inl ProjectUnreadable \<Rightarrow> set_verify_outcome VerifyPartial (ReadProjectFailed (ge_io_text v)) w
        | Inl ProjectUnparsable \<Rightarrow> set_verify_outcome VerifyPartial (ParseProjectFailed (ge_json_text v)) w
        | Inr project \<Rightarrow> (case x_uuid_parse x (pj_chain_id project) of
            None \<Rightarrow> set_verify_outcome VerifyPartial DetailsInvalidChainId w
          | Some chain_id \<Rightarrow> spawn (TaskVerifyChain chain_id)
              (set_verify_outcome VerifyNone Verifying (on_app (\<lambda>a. a\<lparr> ap_loading_verify_chain := True \<rparr>) w)))))"

definition verify_chain_done :: "string + VerifyResponse \<Rightarrow> gui_world \<Rightarrow> gui_world" where
  "verify_chain_done res w =
     (let w = on_app (\<lambda>a. a\<lparr> ap_loading_verify_chain := False \<rparr>) w in
      case res of
        Inr result \<Rightarrow>
          if vy_valid result then set_verify_outcome VerifyValid ProofValid w
          else set_verify_outcome VerifyInvalid (ServerErrors (join ''; '' (vy_errors result))) w
      | Inl e \<Rightarrow> set_verify_outcome VerifyPartial (VerifyFailed e) w)"

section \<open>The panels\<close>

definition start_account_fetch :: "gui_world \<Rightarrow> gui_world" where
  "start_account_fetch w = spawn TaskAccount (on_account (\<lambda>p. p\<lparr> apn_loading_account := True \<rparr>) w)"

definition start_dev_change_plan :: "uuid \<Rightarrow> string \<Rightarrow> gui_world \<Rightarrow> gui_world" where
  "start_dev_change_plan account_id plan w = spawn (TaskChangePlan account_id plan)
     (on_account (\<lambda>p. p\<lparr> apn_loading_dev_change_plan := True, apn_dev_change_plan_error := None,
        apn_dev_plan_change := None \<rparr>) w)"

definition start_backup_list_fetch :: "gui_world \<Rightarrow> gui_world" where
  "start_backup_list_fetch w = spawn TaskBackupList
     (on_backup (\<lambda>b. b\<lparr> bp_loading_list := True, bp_list_error := None \<rparr>) w)"

definition start_backup_create :: "uuid \<Rightarrow> gui_world \<Rightarrow> gui_world" where
  "start_backup_create chain_id w = spawn (TaskBackupCreate chain_id)
     (on_backup (\<lambda>b. b\<lparr> bp_loading_create := True, bp_create_error := None \<rparr>) w)"

definition start_backup_export :: "uuid \<Rightarrow> gui_world \<Rightarrow> gui_world" where
  "start_backup_export chain_id w = spawn (TaskBackupExport chain_id)
     (on_backup (\<lambda>b. b\<lparr> bp_loading_export := True, bp_export_error := None, bp_export_path := None \<rparr>) w)"

definition start_backup_download :: "ext \<Rightarrow> uuid \<Rightarrow> gui_world \<Rightarrow> gui_world" where
  "start_backup_download x backup_id w = spawn (TaskBackupDownload backup_id)
     (on_backup (\<lambda>b. b\<lparr> bp_loading_download := Some (x_uuid_str x backup_id), bp_download_error := None,
        bp_download_path := None \<rparr>) w)"

definition start_backup_restore_download :: "ext \<Rightarrow> uuid \<Rightarrow> gui_world \<Rightarrow> gui_world" where
  "start_backup_restore_download x backup_id w = spawn (TaskRestoreDownload backup_id)
     (on_backup (\<lambda>b. b\<lparr> bp_loading_restore_download := Some (x_uuid_str x backup_id), bp_restore_error := None,
        bp_restore_summary := None, bp_pending_restore := None \<rparr>) w)"

definition evident_dir_path :: "gui_env \<Rightarrow> string + string" where
  "evident_dir_path v = (case ge_home_dir v of
     None \<Rightarrow> Inl ''HOME directory not found'' | Some home \<Rightarrow> Inr (join_path home ''.evident''))"

definition start_backup_restore_execute :: "ext \<Rightarrow> gui_env \<Rightarrow> uuid \<Rightarrow> byte list \<Rightarrow> gui_world \<Rightarrow> gui_world" where
  "start_backup_restore_execute x v backup_id bytes w =
     (let w = on_backup (\<lambda>b. b\<lparr> bp_loading_restore := Some (x_uuid_str x backup_id), bp_pending_restore := None,
            bp_restore_error := None \<rparr>) w in
      case evident_dir_path v of
        Inl e \<Rightarrow> on_backup (\<lambda>b. b\<lparr> bp_loading_restore := None, bp_restore_error := Some (RawText e) \<rparr>) w
      | Inr _ \<Rightarrow> spawn (TaskRestore backup_id bytes) w)"

definition resolve_selected_project_chain_id :: "ext \<Rightarrow> gui_env \<Rightarrow> gui_world \<Rightarrow> UiText + uuid" where
  "resolve_selected_project_chain_id x v w =
     (if ap_selected_project (gw_app w) = [] then Inl InvalidProjectChain
      else bind_res (map_err (\<lambda>_. InvalidProjectChain) (projects_dir v)) (\<lambda>dir.
        bind_res (map_err (\<lambda>_. InvalidProjectChain)
          (load_project v (join_path dir (ap_selected_project (gw_app w))) (gw_fs w))) (\<lambda>project.
        ok_or InvalidProjectChain (x_uuid_parse x (pj_chain_id project)))))"

section \<open>Restoring a backup\<close>

definition gui_entries :: "gui_env \<Rightarrow> filesystem \<Rightarrow> string \<Rightarrow> entry list option" where
  "gui_entries v fs dir = map_option (map (\<lambda>n. (n, fs_read fs (join_path dir n)))) (ge_list v fs dir)"

definition gui_local_dir :: "ext \<Rightarrow> gui_env \<Rightarrow> string \<Rightarrow> uuid \<Rightarrow> filesystem \<Rightarrow> local_dir" where
  "gui_local_dir x v dir backup_id fs =
     \<lparr> ld_backups = gui_entries v fs (join_path dir ''backups''),
       ld_proofs = (\<lambda>c. gui_entries v fs (join_path (join_path dir ''proofs'') (x_uuid_str x c))),
       ld_mkdir_ok = fs_mkdir_ok fs (join_path dir ''backups''),
       ld_write_ok = fs_write_ok fs (join_path (join_path dir ''backups'') (x_uuid_str x backup_id @ ''.json'')) \<rparr>"

definition gui_parse :: "gui_env \<Rightarrow> byte list \<Rightarrow> json option" where
  "gui_parse v bytes = nw_parse (ge_network v) (bytes_str bytes)"

text \<open>The user is asked where the local state of the chain is another one, unless it is the downloaded backup itself.
  The comparison with the backup's own file on disk has no effect.\<close>

definition decide_restore_after_download :: "ext \<Rightarrow> gui_env \<Rightarrow> uuid \<Rightarrow> byte list \<Rightarrow> gui_world \<Rightarrow> gui_world" where
  "decide_restore_after_download x v backup_id bytes w =
     (let failed = (\<lambda>t. on_backup (\<lambda>b. b\<lparr> bp_restore_error := Some t \<rparr>) w);
          execute = start_backup_restore_execute x v backup_id bytes w in
      case parse_snapshot (ge_snapshot v) bytes of Inl e \<Rightarrow> failed (RawText e) | Inr snapshot \<Rightarrow>
      (case head_summary snapshot of None \<Rightarrow> failed InvalidBackupSnapshot | Some summary \<Rightarrow>
      (case evident_dir_path v of Inl e \<Rightarrow> failed (RawText e) | Inr dir \<Rightarrow>
      (case scan_local_chain_state x (ge_snapshot v) (gui_parse v) (gui_local_dir x v dir backup_id (gw_fs w))
          (bk_chain_id snapshot) of
         None \<Rightarrow> execute
       | Some local \<Rightarrow>
           if ls_source local = ''backups/'' @ x_uuid_str x backup_id @ ''.json'' then execute
           else if ls_event_count local = hs_event_count summary \<and> ls_head_event_id local = hs_head_event_id summary
             then execute
           else on_backup (\<lambda>b. b\<lparr> bp_pending_restore := Some \<lparr> pr_backup_id = backup_id, pr_bytes = bytes \<rparr> \<rparr>) w))))"

definition gui_restore_error :: "gui_env \<Rightarrow> RestoreError \<Rightarrow> string" where
  "gui_restore_error v e = (case e of
     RestoreParse m \<Rightarrow> m | RestoreStructural m \<Rightarrow> m | Declined \<Rightarrow> ''restore cancelled''
   | RestoreIo \<Rightarrow> ''I/O error: '' @ ge_io_text v)"

text \<open>The job restores without another question.\<close>

definition run_restore :: "ext \<Rightarrow> gui_env \<Rightarrow> uuid \<Rightarrow> byte list \<Rightarrow> filesystem \<Rightarrow> (string + RestoreSummary) \<times> filesystem" where
  "run_restore x v backup_id bytes fs = (case evident_dir_path v of Inl e \<Rightarrow> (Inl e, fs) | Inr dir \<Rightarrow>
     (case restore_snapshot_bytes x (ge_snapshot v) (gui_parse v) (gui_local_dir x v dir backup_id fs) backup_id bytes True
         (\<lambda>_. True) of
        (Inl e, _) \<Rightarrow> (Inl (gui_restore_error v e), fs)
      | (Inr s, _) \<Rightarrow> (Inr s, fs\<lparr> fs_file := (fs_file fs)
          (join_path (join_path dir ''backups'') (rs_output_name s) \<mapsto> bytes) \<rparr>)))"

definition write_backup_file :: "gui_env \<Rightarrow> string \<Rightarrow> byte list \<Rightarrow> filesystem \<Rightarrow> (string + string) \<times> filesystem" where
  "write_backup_file v name bytes fs = (case evident_dir_path v of Inl e \<Rightarrow> (Inl e, fs) | Inr dir \<Rightarrow>
     (let target = join_path dir ''backups''; path = join_path target name in
      if \<not> fs_mkdir_ok fs target \<or> \<not> fs_write_ok fs path then (Inl (ge_io_text v), fs)
      else (Inr path, fs\<lparr> fs_file := (fs_file fs)(path \<mapsto> bytes) \<rparr>)))"

definition write_backup_download_file :: "ext \<Rightarrow> gui_env \<Rightarrow> uuid \<Rightarrow> byte list \<Rightarrow> filesystem \<Rightarrow> (string + string) \<times> filesystem" where
  "write_backup_download_file x v backup_id bytes fs = write_backup_file v (x_uuid_str x backup_id @ ''.json'') bytes fs"

definition write_local_export_file :: "ext \<Rightarrow> gui_env \<Rightarrow> uuid \<Rightarrow> byte list \<Rightarrow> filesystem \<Rightarrow> (string + string) \<times> filesystem" where
  "write_local_export_file x v chain_id bytes fs =
     write_backup_file v (x_uuid_str x chain_id @ ''-export-'' @ ge_stamp v @ ''Z.json'') bytes fs"

section \<open>The threads\<close>

definition client_text :: "gui_env \<Rightarrow> ClientError + 'a \<Rightarrow> string + 'a" where
  "client_text v r = map_err (gui_error_text v) r"

fun run_task ::
  "ext \<Rightarrow> gui_env \<Rightarrow> GuiTask \<Rightarrow> string option \<Rightarrow> filesystem \<Rightarrow> WorkerResponse option \<times> string option \<times> filesystem" where
  "run_task x v (TaskHash path) chain fs =
     (Some (HashComputed (case fs_read fs path of None \<Rightarrow> Inl (ge_io_text v) | Some b \<Rightarrow> Inr (sha_hex x b))), chain, fs)"
| "run_task x v (TaskCommit project_path proofs c source file_name bytes) chain fs =
     (case run_commit x v project_path proofs c source file_name bytes chain fs of
        (r, fs') \<Rightarrow> (Some (CommitDone r), chain, fs'))"
| "run_task x v (TaskVerifyChain c) chain fs =
     (Some (VerifyChainDone (client_text v (client_verify_chain x (ge_network v) (authed_client v chain) c))), chain, fs)"
| "run_task x v TaskAccount chain fs =
     (Some (AccountFetchDone (client_text v (fetch_capabilities (ge_network v) (authed_client v chain)))), chain, fs)"
| "run_task x v TaskConnect chain fs = (case run_connect v chain of
     (r, chain') \<Rightarrow> (map_option ConnectDone r, chain', fs))"
| "run_task x v (TaskChangePlan account_id plan) chain fs =
     (Some (DevChangePlanDone (client_text v
       (dev_change_plan x (ge_network v) (authed_client v chain) account_id plan))), chain, fs)"
| "run_task x v TaskBackupList chain fs =
     (Some (BackupListDone (client_text v (client_backup_list (ge_network v) (authed_client v chain)))), chain, fs)"
| "run_task x v (TaskBackupCreate c) chain fs =
     (Some (BackupCreateDone (client_text v (client_backup_create x (ge_network v) (authed_client v chain) c))), chain, fs)"
| "run_task x v (TaskBackupExport c) chain fs =
     (case client_text v (client_backup_export x (ge_network v) (authed_client v chain) c) of
        Inl e \<Rightarrow> (Some (BackupExportDone (Inl e)), chain, fs)
      | Inr bytes \<Rightarrow> (case write_local_export_file x v c bytes fs of
          (r, fs') \<Rightarrow> (Some (BackupExportDone r), chain, fs')))"
| "run_task x v (TaskBackupDownload b) chain fs =
     (Some (BackupDownloadDone (map_sum id (Pair b)
       (client_text v (client_backup_download x (ge_network v) (authed_client v chain) b)))), chain, fs)"
| "run_task x v (TaskRestoreDownload b) chain fs =
     (Some (BackupRestoreDownloadDone (map_sum id (Pair b)
       (client_text v (client_backup_download x (ge_network v) (authed_client v chain) b)))), chain, fs)"
| "run_task x v (TaskRestore b bytes) chain fs = (case run_restore x v b bytes fs of
     (r, fs') \<Rightarrow> (Some (BackupRestoreDone r), chain, fs'))"

section \<open>The answers\<close>

fun handle_response :: "ext \<Rightarrow> gui_env \<Rightarrow> WorkerResponse \<Rightarrow> gui_world \<Rightarrow> gui_world" where
  "handle_response x v (HashComputed res) w = (case res of
     Inr hash \<Rightarrow> on_app (\<lambda>a. a\<lparr> ap_selected_file_hash := hash, ap_status := HashReady \<rparr>) w
   | Inl e \<Rightarrow> set_status (HashError e) w)"
| "handle_response x v (VerifyChainDone res) w = verify_chain_done res w"
| "handle_response x v (AccountFetchDone res) w = (case res of
     Inr j \<Rightarrow> on_app (\<lambda>a. a\<lparr> ap_status_localized := None \<rparr>)
       (on_account (\<lambda>p. p\<lparr> apn_loading_account := False, apn_account_data := Some j \<rparr>) w)
   | Inl e \<Rightarrow> on_app (\<lambda>a. a\<lparr> ap_status_localized := Some (AccountLoadFailed e), ap_status := NoText \<rparr>)
       (on_account (\<lambda>p. p\<lparr> apn_loading_account := False, apn_account_data := None \<rparr>) w))"
| "handle_response x v (ConnectDone res) w = (case res of
     Inr (email, plan) \<Rightarrow> on_app (\<lambda>a. a\<lparr> ap_screen := ScreenFileSelection \<rparr>)
       (on_connect (\<lambda>c. c\<lparr> cp_connecting := False, cp_connected_email := email, cp_connected_plan := plan,
          cp_auth_state := Authenticated, cp_connect_error := None \<rparr>) w)
   | Inl e \<Rightarrow> on_app (\<lambda>a. a\<lparr> ap_screen := ScreenConnect \<rparr>)
       (on_connect (\<lambda>c. c\<lparr> cp_connecting := False, cp_auth_state := Unauthenticated, cp_connect_error := Some e \<rparr>) w))"
| "handle_response x v (DevChangePlanDone res) w = (case res of
     Inr r \<Rightarrow> start_account_fetch (on_account (\<lambda>p. p\<lparr> apn_loading_dev_change_plan := False,
       apn_dev_change_plan_error := None, apn_dev_plan_change := Some (dp_old_plan r, dp_new_plan r) \<rparr>) w)
   | Inl e \<Rightarrow> on_account (\<lambda>p. p\<lparr> apn_loading_dev_change_plan := False, apn_dev_plan_change := None,
       apn_dev_change_plan_error := Some (RawText e) \<rparr>) w)"
| "handle_response x v (BackupListDone res) w = (case res of
     Inr items \<Rightarrow> on_backup (\<lambda>b. b\<lparr> bp_loading_list := False, bp_list_data := Some items, bp_list_error := None \<rparr>) w
   | Inl e \<Rightarrow> on_backup (\<lambda>b. b\<lparr> bp_loading_list := False, bp_list_data := None, bp_list_error := Some e \<rparr>) w)"
| "handle_response x v (BackupCreateDone res) w = (case res of
     Inr _ \<Rightarrow> on_backup (\<lambda>b. b\<lparr> bp_loading_create := False, bp_create_error := None, bp_list_data := None,
       bp_list_error := None \<rparr>) w
   | Inl e \<Rightarrow> on_backup (\<lambda>b. b\<lparr> bp_loading_create := False, bp_create_error := Some (RawText e) \<rparr>) w)"
| "handle_response x v (BackupExportDone res) w = (case res of
     Inr path \<Rightarrow> on_backup (\<lambda>b. b\<lparr> bp_loading_export := False, bp_export_error := None, bp_export_path := Some path \<rparr>) w
   | Inl e \<Rightarrow> on_backup (\<lambda>b. b\<lparr> bp_loading_export := False, bp_export_error := Some (RawText e), bp_export_path := None \<rparr>) w)"
| "handle_response x v (BackupDownloadDone res) w =
     (let failed = (\<lambda>e. on_backup (\<lambda>b. b\<lparr> bp_loading_download := None, bp_download_error := Some (RawText e),
            bp_download_path := None \<rparr>)) in
      case res of
        Inl e \<Rightarrow> failed e w
      | Inr (backup_id, bytes) \<Rightarrow> (case write_backup_download_file x v backup_id bytes (gw_fs w) of
          (Inl e, fs) \<Rightarrow> failed e (w\<lparr> gw_fs := fs \<rparr>)
        | (Inr path, fs) \<Rightarrow> on_backup (\<lambda>b. b\<lparr> bp_loading_download := None, bp_download_error := None,
            bp_download_path := Some path \<rparr>) (w\<lparr> gw_fs := fs \<rparr>)))"
| "handle_response x v (BackupRestoreDownloadDone res) w =
     (let w = on_backup (\<lambda>b. b\<lparr> bp_loading_restore_download := None \<rparr>) w in
      case res of
        Inr (backup_id, bytes) \<Rightarrow> decide_restore_after_download x v backup_id bytes w
      | Inl e \<Rightarrow> on_backup (\<lambda>b. b\<lparr> bp_restore_error := Some (RawText e) \<rparr>) w)"
| "handle_response x v (BackupRestoreDone res) w = (case res of
     Inr s \<Rightarrow> on_backup (\<lambda>b. b\<lparr> bp_loading_restore := None, bp_restore_error := None, bp_restore_summary := Some s \<rparr>) w
   | Inl e \<Rightarrow> on_backup (\<lambda>b. b\<lparr> bp_loading_restore := None, bp_restore_error := Some (RawText e),
       bp_restore_summary := None \<rparr>) w)"
| "handle_response x v (CommitDone res) w =
     (let w = on_app (\<lambda>a. a\<lparr> ap_loading_commit := False \<rparr>) w in
      case res of Inr s \<Rightarrow> commit_succeeded x v s w | Inl f \<Rightarrow> commit_failed v f w)"

text \<open>A frame takes the answers from the queue, in the order they came.\<close>

definition frame_start :: "ext \<Rightarrow> gui_env \<Rightarrow> gui_world \<Rightarrow> gui_world" where
  "frame_start x v w = fold (handle_response x v) (gw_queue w) (w\<lparr> gw_queue := [] \<rparr>)"

end
