(* ===== verification/DesktopFlow.thy ===== *)
theory DesktopFlow
  imports DesktopJobs Transition
begin

text \<open>
  The screens of the desktop program, \<open>evident-gui-app/src/main.rs\<close>: local copies, certificates, the buttons each
  screen shows and what they do, and the step relation in which buttons, jobs and frames interleave.  The file that a
  dialog of the operating system returns is an argument of its button.
\<close>

section \<open>Saving a copy of the file\<close>

definition resolve_save_dest_canonical :: "gui_env \<Rightarrow> string \<Rightarrow> filesystem \<Rightarrow> string option" where
  "resolve_save_dest_canonical v dest fs =
     (if fs_file fs dest \<noteq> None then ge_canonical v fs dest
      else map_option (\<lambda>p. join_path p (case path_file_name dest of Some n \<Rightarrow> n | None \<Rightarrow> []))
        (ge_canonical v fs (case fs_parent fs dest of Some p \<Rightarrow> if p \<noteq> [] then p else ''.'' | None \<Rightarrow> ''.'')))"

definition register_copy :: "gui_env \<Rightarrow> string \<Rightarrow> gui_world \<Rightarrow> gui_world" where
  "register_copy v dest w =
     (let a = gw_app w; project_name = (if ap_project_mode a = NewProject then ap_project_name a else ap_selected_project a) in
      case projects_dir v of
        Inl err \<Rightarrow> set_status (SaveError err) w
      | Inr dir \<Rightarrow> (case save_local_copy v (join_path (join_path dir project_name) ''proofs'') (ap_event_id a) dest (gw_fs w) of
          None \<Rightarrow> set_status (SaveError (ge_io_text v)) w
        | Some fs \<Rightarrow> set_status CopySaved (w\<lparr> gw_fs := fs \<rparr>)))"

definition save_copy :: "gui_env \<Rightarrow> string \<Rightarrow> gui_world \<Rightarrow> gui_world" where
  "save_copy v dest w =
     (let fs = gw_fs w; source = ap_file_path (gw_app w); failed = set_status (SaveError (ge_io_text v)) w in
      case fs_file fs source of None \<Rightarrow> failed | Some content \<Rightarrow>
      (case ge_canonical v fs source of None \<Rightarrow> failed | Some source_canonical \<Rightarrow>
      (case resolve_save_dest_canonical v dest fs of None \<Rightarrow> failed | Some dest_canonical \<Rightarrow>
        if source_canonical = dest_canonical then set_status SaveOverSource w
        else if fs_file fs dest \<noteq> None \<and> ge_same_inode v fs source dest then set_status SaveOverSource w
        else if \<not> fs_readable fs source \<or> \<not> fs_write_ok fs dest then failed
        else let fs' = fs\<lparr> fs_file := (fs_file fs)(dest \<mapsto> content) \<rparr>; w' = w\<lparr> gw_fs := fs' \<rparr> in
          case fs_file fs' dest of None \<Rightarrow> set_status (SaveError (ge_io_text v)) w'
          | Some copied \<Rightarrow> if length copied \<noteq> length content then set_status SaveSizeMismatch w'
              else register_copy v dest w')))"

section \<open>Certificates\<close>

definition certificates_output_dir :: "gui_env \<Rightarrow> string + string" where
  "certificates_output_dir v = (case ge_documents_dir v of
     Some docs \<Rightarrow> Inr (join_path docs ''Evident Certificates'')
   | None \<Rightarrow> (case ge_home_var v of
       Some home \<Rightarrow> Inr (join_path (join_path home ''Documents'') ''Evident Certificates'')
     | None \<Rightarrow> Inl ''Cannot resolve Documents folder (dirs::document_dir and HOME unavailable)''))"

text \<open>The loop over \<open>1u32..\<close>; \<open>None\<close>: all of them are taken.\<close>

function first_free_path :: "filesystem \<Rightarrow> (nat \<Rightarrow> string) \<Rightarrow> nat \<Rightarrow> string option" where
  "first_free_path fs candidate n =
     (if 2 ^ 32 \<le> n then None
      else if fs_file fs (candidate n) = None then Some (candidate n) else first_free_path fs candidate (Suc n))"
  by pat_completeness auto
termination by (relation "measure (\<lambda>(_, _, n). 2 ^ 32 - n)") auto

declare first_free_path.simps [simp del]

definition unique_certificate_pdf_path :: "filesystem \<Rightarrow> string \<Rightarrow> string \<Rightarrow> string option" where
  "unique_certificate_pdf_path fs dir certificate_id =
     (let primary = join_path dir (''certificate_'' @ certificate_id @ ''.pdf'') in
      if fs_file fs primary = None then Some primary
      else first_free_path fs (\<lambda>n. join_path dir (''certificate_'' @ certificate_id @ ''_'' @ digits n @ ''.pdf'')) 1)"

definition resolve_certificate_event_id :: "App \<Rightarrow> string option" where
  "resolve_certificate_event_id a =
     (if ap_event_id a \<noteq> [] then Some (ap_event_id a)
      else case ap_last_proof a of None \<Rightarrow> None
        | Some p \<Rightarrow> if pf_head_event_id p \<noteq> [] then Some (pf_head_event_id p) else None)"

definition export_file_certificate_pdf ::
  "ext \<Rightarrow> gui_env \<Rightarrow> string \<Rightarrow> string \<Rightarrow> ProofFile \<Rightarrow> string option \<Rightarrow> filesystem \<Rightarrow> (string + string) \<times> filesystem" where
  "export_file_certificate_pdf x v dir event_id_str proof public_proof_id fs =
     (case certificates_output_dir v of Inl e \<Rightarrow> (Inl e, fs) | Inr out_dir \<Rightarrow>
     (case x_uuid_parse x event_id_str of
        None \<Rightarrow> (Inl (''Invalid event id for certificate: '' @ event_id_str), fs)
      | Some event_uuid \<Rightarrow>
     (case read_evidence_record (ec_dec (se_codec (ge_submit v))) dir (evidence_id_for_event x event_uuid) fs of
        None \<Rightarrow> (Inl (''Evidence record not found:'' @ newline @ ge_io_text v), fs)
      | Some r \<Rightarrow>
        if pf_chain_id proof \<noteq> ev_chain_id r
          then (Inl (''Proof file does not match EvidenceRecord chain_id'' @ newline @ ''evidence: '' @ ev_chain_id r @
            newline @ ''proof: '' @ pf_chain_id proof), fs)
        else if \<not> list_ex (\<lambda>e. el_event_id e = ev_event_id r \<and> eq_ignore_ascii_case (el_file_hash e) (ev_sha256 r)) (pf_events proof)
          then (Inl ''Proof file does not contain this EvidenceRecord event/hash'', fs)
        else (case ge_certificate v r proof public_proof_id of
            Inl e \<Rightarrow> (Inl (''Certificate generation failed:'' @ newline @ e), fs)
          | Inr bytes \<Rightarrow>
              if \<not> fs_mkdir_ok fs out_dir then (Inl (''Certificate save failed:'' @ newline @ ge_io_text v), fs)
              else (case unique_certificate_pdf_path fs out_dir (ev_certificate_id r) of
                None \<Rightarrow> (Inl (''Certificate save failed:'' @ newline @ ge_io_text v), fs)
              | Some path \<Rightarrow>
                  if \<not> fs_write_ok fs path then (Inl (''Certificate save failed:'' @ newline @ ge_io_text v), fs)
                  else (Inr path, fs\<lparr> fs_file := (fs_file fs)(path \<mapsto> bytes) \<rparr>))))))"

text \<open>The hash that is looked up is the one of the event the certificate is for.\<close>

definition generate_certificate_from_project_proofs :: "ext \<Rightarrow> gui_env \<Rightarrow> string \<Rightarrow> gui_world \<Rightarrow> gui_world" where
  "generate_certificate_from_project_proofs x v project_path w =
     (let failed = (\<lambda>m. on_app (\<lambda>a. a\<lparr> ap_certificate_status := CertificateFailed m \<rparr>) w) in
      case resolve_certificate_event_id (gw_app w) of
        None \<Rightarrow> failed (''No event id available '' @ [CHR 0xE2, CHR 0x80, CHR 0x94] @ '' commit or verify a project first'')
      | Some event_id \<Rightarrow>
     (case load_local_proof v (join_path project_path ''proofs'') (gw_fs w) of
        None \<Rightarrow> failed ''Proof file not found''
      | Some proof \<Rightarrow>
     (case find (\<lambda>e. el_event_id e = event_id) (pf_events proof) of
        None \<Rightarrow> failed (''Selected event not found in current proof data '' @ [CHR 0xE2, CHR 0x80, CHR 0x94] @
          '' refresh verification and try again'')
      | Some leaf \<Rightarrow>
          (let public_proof_id = lookup_public_proof_id (ge_network v) (authed_client v (gw_chain w)) (el_file_hash leaf) in
           case export_file_certificate_pdf x v (join_path (evident_dir (ge_submit v)) ''evidence'') event_id proof
               public_proof_id (gw_fs w) of
             (Inr path, fs) \<Rightarrow> on_app (\<lambda>a. a\<lparr> ap_certificate_status := CertificateGenerated path,
               ap_status := CertificateSaved path \<rparr>) (w\<lparr> gw_fs := fs \<rparr>)
           | (Inl e, fs) \<Rightarrow> on_app (\<lambda>a. a\<lparr> ap_certificate_status := CertificateFailed e, ap_status := CertificateError e \<rparr>)
               (w\<lparr> gw_fs := fs \<rparr>)))))"

section \<open>Buttons\<close>

datatype Button = BtnConnect | BtnAccount | BtnBackup | BtnAccountRefresh | BtnPlan string | BtnApplyPlan | BtnPanelBack
  | BtnExport | BtnRestoreCancel | BtnRestoreConfirm | BtnListBackups | BtnBackupCreate
  | BtnBackupDownload ClientBackupItem | BtnBackupRestore ClientBackupItem
  | BtnPickFile string | BtnVerifyScreen | BtnComputeHash | BtnCreateProof | BtnDropFile
  | BtnOpenProject string | BtnToFiles | BtnRecheck | BtnUpdateKey | BtnCertificate
  | BtnMode ProjectMode | BtnName string | BtnProject string | BtnCommit
  | BtnViewResult | BtnFailedBack | BtnVerify | BtnFullChain | BtnSaveCopy string | BtnResultBack

text \<open>Without an account only the page that connects one is shown.\<close>

definition connected :: "gui_world \<Rightarrow> bool" where
  "connected w \<longleftrightarrow> ap_screen (gw_app w) \<noteq> ScreenConnect \<and> cp_auth_state (ap_connect (gw_app w)) = Authenticated"

definition connect_gate :: "gui_world \<Rightarrow> gui_world" where
  "connect_gate w = (if connected w then w else on_app (\<lambda>a. a\<lparr> ap_screen := ScreenConnect \<rparr>) w)"

definition account_flag :: "gui_world \<Rightarrow> string \<Rightarrow> bool" where
  "account_flag w k = (case apn_account_data (ap_account (gw_app w)) of Some caps \<Rightarrow> bool_field caps k | None \<Rightarrow> False)"

definition account_shown :: "gui_world \<Rightarrow> bool" where
  "account_shown w \<longleftrightarrow> \<not> apn_loading_account (ap_account (gw_app w)) \<and> apn_account_data (ap_account (gw_app w)) \<noteq> None"

definition to_screen :: "GuiScreen \<Rightarrow> gui_world \<Rightarrow> gui_world" where
  "to_screen s = on_app (\<lambda>a. a\<lparr> ap_screen := s \<rparr>)"

definition press_panel :: "ext \<Rightarrow> gui_env \<Rightarrow> Button \<Rightarrow> gui_world \<Rightarrow> gui_world option" where
  "press_panel x v b w =
     (let a = gw_app w; s = ap_screen a; p = ap_account a; k = ap_backup a;
          backups = (s = ScreenBackup \<and> account_shown w \<and> account_flag w ''server_backup'') in
      case b of
        BtnAccountRefresh \<Rightarrow>
          if \<not> apn_loading_account p \<and> (s = ScreenAccount \<or> s = ScreenBackup \<and> apn_account_data p = None)
          then Some (start_account_fetch w) else None
      | BtnPlan plan \<Rightarrow>
          if s = ScreenAccount \<and> account_shown w \<and> account_flag w ''dev_tools_available''
            \<and> plan \<in> {''free'', ''legal'', ''vault'', ''identity''}
          then Some (on_account (\<lambda>p. p\<lparr> apn_dev_selected_plan := plan \<rparr>) w) else None
      | BtnApplyPlan \<Rightarrow>
          if s = ScreenAccount \<and> account_shown w \<and> account_flag w ''dev_tools_available'' \<and> \<not> apn_loading_dev_change_plan p
          then Some (case Option.bind (Option.bind (apn_account_data p) (\<lambda>c. str_field c ''account_id'')) (x_uuid_parse x) of
              Some account_id \<Rightarrow> start_dev_change_plan account_id (apn_dev_selected_plan p) w
            | None \<Rightarrow> on_account (\<lambda>p. p\<lparr> apn_dev_change_plan_error := Some AccountIdMissing \<rparr>) w) else None
      | BtnPanelBack \<Rightarrow> if s = ScreenAccount \<or> s = ScreenBackup then Some (to_screen ScreenFileSelection w) else None
      | BtnExport \<Rightarrow>
          if s = ScreenBackup \<and> account_shown w \<and> \<not> account_flag w ''server_backup'' \<and> \<not> bp_loading_export k
          then Some (case resolve_selected_project_chain_id x v w of
              Inr chain_id \<Rightarrow> start_backup_export chain_id w
            | Inl e \<Rightarrow> on_backup (\<lambda>b. b\<lparr> bp_export_error := Some e \<rparr>) w) else None
      | BtnRestoreCancel \<Rightarrow>
          if backups \<and> bp_pending_restore k \<noteq> None then Some (on_backup (\<lambda>b. b\<lparr> bp_pending_restore := None \<rparr>) w) else None
      | BtnRestoreConfirm \<Rightarrow> (case bp_pending_restore k of
          Some pending \<Rightarrow>
            if backups then Some (start_backup_restore_execute x v (pr_backup_id pending) (pr_bytes pending) w) else None
        | None \<Rightarrow> None)
      | BtnListBackups \<Rightarrow>
          if backups \<and> bp_pending_restore k = None \<and> \<not> bp_loading_list k \<and> (bp_list_error k \<noteq> None \<or> bp_list_data k = None)
          then Some (start_backup_list_fetch w) else None
      | BtnBackupCreate \<Rightarrow>
          if backups \<and> bp_pending_restore k = None \<and> \<not> bp_loading_create k
          then Some (case resolve_selected_project_chain_id x v w of
              Inr chain_id \<Rightarrow> start_backup_create chain_id w
            | Inl e \<Rightarrow> on_backup (\<lambda>b. b\<lparr> bp_create_error := Some e \<rparr>) w) else None
      | _ \<Rightarrow> None)"

text \<open>The row of a backup in the list.\<close>

definition backup_row_shown :: "ClientBackupItem \<Rightarrow> gui_world \<Rightarrow> bool" where
  "backup_row_shown item w \<longleftrightarrow>
     (let a = gw_app w; k = ap_backup a in
      ap_screen a = ScreenBackup \<and> account_shown w \<and> account_flag w ''server_backup'' \<and> bp_pending_restore k = None \<and>
      \<not> bp_loading_list k \<and> bp_list_error k = None \<and>
      (case bp_list_data k of Some items \<Rightarrow> item \<in> set items | None \<Rightarrow> False) \<and>
      bp_loading_download k \<noteq> Some (bl_backup_id item) \<and> bp_loading_restore_download k \<noteq> Some (bl_backup_id item) \<and>
      bp_loading_restore k \<noteq> Some (bl_backup_id item))"

definition press_backup_row :: "ext \<Rightarrow> Button \<Rightarrow> gui_world \<Rightarrow> gui_world option" where
  "press_backup_row x b w = (case b of
     BtnBackupDownload item \<Rightarrow>
       if backup_row_shown item w then Some (case x_uuid_parse x (bl_backup_id item) of
           Some backup_id \<Rightarrow> start_backup_download x backup_id w
         | None \<Rightarrow> on_backup (\<lambda>b. b\<lparr> bp_download_error := Some InvalidBackupId \<rparr>) w) else None
   | BtnBackupRestore item \<Rightarrow>
       if backup_row_shown item w then Some (case x_uuid_parse x (bl_backup_id item) of
           Some backup_id \<Rightarrow> start_backup_restore_download x backup_id w
         | None \<Rightarrow> on_backup (\<lambda>b. b\<lparr> bp_restore_error := Some InvalidBackupId \<rparr>) w) else None
   | _ \<Rightarrow> None)"

definition drop_file :: "App \<Rightarrow> App" where
  "drop_file a = a\<lparr> ap_screen := ScreenFileSelection, ap_file_path := [], ap_file_name := [], ap_selected_file_hash := [] \<rparr>"

text \<open>\<open>cut\<close>: for a new project the page ends before its buttons where the home directory is not known.\<close>

definition press_file :: "ext \<Rightarrow> gui_env \<Rightarrow> Button \<Rightarrow> gui_world \<Rightarrow> gui_world option" where
  "press_file x v b w =
     (let a = gw_app w; s = ap_screen a; cut = (ap_project_mode a = NewProject \<and> isl (projects_dir v)) in
      case b of
        BtnPickFile path \<Rightarrow>
          if s = ScreenFileSelection
          then Some (on_app (\<lambda>a. a\<lparr> ap_file_path := path,
            ap_file_name := (case path_file_name path of Some n \<Rightarrow> n | None \<Rightarrow> []), ap_selected_file_hash := [],
            ap_loading_hash := False, ap_screen := ScreenHashPreview, ap_status := FileSelected \<rparr>) w) else None
      | BtnVerifyScreen \<Rightarrow>
          if s = ScreenFileSelection then Some (load_projects v (to_screen ScreenVerifyProject w)) else None
      | BtnComputeHash \<Rightarrow>
          if s = ScreenHashPreview \<and> ap_selected_file_hash a = [] \<and> \<not> ap_loading_hash a
          then Some (spawn (TaskHash (ap_file_path a)) (on_app (\<lambda>a. a\<lparr> ap_loading_hash := True \<rparr>) w)) else None
      | BtnCreateProof \<Rightarrow>
          if s = ScreenHashPreview \<and> ap_selected_file_hash a \<noteq> []
          then Some (load_projects v (to_screen ScreenSelectProject w)) else None
      | BtnDropFile \<Rightarrow>
          if s = ScreenHashPreview then Some (on_app (\<lambda>a. (drop_file a)\<lparr> ap_loading_hash := False \<rparr>) w)
          else if s = ScreenSelectProject \<and> \<not> cut then Some (on_app drop_file w) else None
      | BtnMode mode \<Rightarrow>
          if s = ScreenSelectProject
          then Some ((if mode = ExistingProject then load_projects v else id) (on_app (\<lambda>a. a\<lparr> ap_project_mode := mode \<rparr>) w))
          else None
      | BtnName n \<Rightarrow>
          if s = ScreenSelectProject \<and> ap_project_mode a = NewProject
          then Some (on_app (\<lambda>a. a\<lparr> ap_project_name := n \<rparr>) w) else None
      | BtnProject p \<Rightarrow>
          if s = ScreenSelectProject \<and> ap_project_mode a = ExistingProject \<and> p \<in> set (ap_projects a)
          then Some (on_app (\<lambda>a. a\<lparr> ap_selected_project := p \<rparr>) w) else None
      | BtnCommit \<Rightarrow>
          if s = ScreenSelectProject \<and> \<not> cut \<and> \<not> ap_loading_commit a \<and> ap_file_path a \<noteq> [] \<and>
            (ap_project_mode a = NewProject \<and> ap_project_name a \<noteq> [] \<or>
             ap_project_mode a = ExistingProject \<and> ap_selected_project a \<noteq> [])
          then Some (do_commit x v w) else None
      | BtnViewResult \<Rightarrow>
          if s = ScreenCommitProgress \<and> ap_step a = StepDone then Some (to_screen ScreenResult w) else None
      | BtnFailedBack \<Rightarrow>
          if s = ScreenCommitProgress \<and> ap_step a = StepFailed
          then Some (on_app (\<lambda>a. a\<lparr> ap_screen := ScreenSelectProject, ap_step := StepIdle \<rparr>) w) else None
      | _ \<Rightarrow> None)"

definition press_result :: "ext \<Rightarrow> gui_env \<Rightarrow> Button \<Rightarrow> gui_world \<Rightarrow> gui_world option" where
  "press_result x v b w =
     (let a = gw_app w; s = ap_screen a in
      case b of
        BtnVerify \<Rightarrow> if s = ScreenResult \<and> \<not> ap_loading_verify_chain a then Some (do_verify x v w) else None
      | BtnFullChain \<Rightarrow>
          if s = ScreenResult
          then Some (verify_project x v (on_app (\<lambda>a. a\<lparr> ap_screen := ScreenVerifyProject, ap_selected_project :=
            (if ap_project_mode a = NewProject then ap_project_name a else ap_selected_project a) \<rparr>) w)) else None
      | BtnSaveCopy dest \<Rightarrow> if s = ScreenResult \<and> ap_file_path a \<noteq> [] then Some (save_copy v dest w) else None
      | BtnResultBack \<Rightarrow>
          if s = ScreenResult
          then Some (on_app (\<lambda>a. a\<lparr> ap_step := StepIdle, ap_project_name := [], ap_selected_project := [] \<rparr>)
            (clear_verify_outcome (on_app (\<lambda>a. (drop_file a)\<lparr> ap_commit_success := False, ap_event_id := [],
              ap_proof_path := [] \<rparr>) w))) else None
      | BtnOpenProject p \<Rightarrow>
          if s = ScreenVerifyProject \<and> p \<in> set (ap_projects a)
          then Some (verify_project x v (on_app (\<lambda>a. a\<lparr> ap_selected_project := p \<rparr>) w)) else None
      | BtnToFiles \<Rightarrow>
          if s = ScreenVerifyProject then Some (to_screen ScreenFileSelection w)
          else if s = ScreenVerifyResult
            then Some (on_app (\<lambda>a. a\<lparr> ap_screen := ScreenFileSelection, ap_verification_complete := False \<rparr>) w) else None
      | BtnRecheck \<Rightarrow> if s = ScreenVerifyResult \<and> ge_home_var v \<noteq> None then Some (recheck x v w) else None
      | BtnUpdateKey \<Rightarrow>
          if s = ScreenVerifyResult \<and> (case ap_verify_details a of UntrustedIdentity _ _ \<Rightarrow> True | _ \<Rightarrow> False)
          then Some (refresh_trusted_server_key x v w) else None
      | BtnCertificate \<Rightarrow>
          (case projects_dir v of
             Inr dir \<Rightarrow> if s = ScreenVerifyResult
               then Some (generate_certificate_from_project_proofs x v (join_path dir (ap_verification_project a))
                 (on_app (\<lambda>a. if ap_event_id a = [] then (case ap_last_proof a of
                    Some p \<Rightarrow> a\<lparr> ap_event_id := pf_head_event_id p \<rparr> | None \<Rightarrow> a) else a) w)) else None
           | Inl _ \<Rightarrow> None)
      | _ \<Rightarrow> None)"

text \<open>The buttons on every screen come first; the others need an account.\<close>

definition press :: "ext \<Rightarrow> gui_env \<Rightarrow> Button \<Rightarrow> gui_world \<Rightarrow> gui_world option" where
  "press x v b w = (case b of
     BtnAccount \<Rightarrow> Some (start_account_fetch (to_screen ScreenAccount w))
   | BtnBackup \<Rightarrow> Some (let w' = to_screen ScreenBackup w in
       if apn_account_data (ap_account (gw_app w)) = None then start_account_fetch w' else w')
   | BtnConnect \<Rightarrow> if connected w then None else Some (start_connect w)
   | _ \<Rightarrow> if \<not> connected w then None
       else (case press_panel x v b w of Some w' \<Rightarrow> Some w' | None \<Rightarrow>
         (case press_backup_row x b w of Some w' \<Rightarrow> Some w' | None \<Rightarrow>
         (case press_file x v b w of Some w' \<Rightarrow> Some w' | None \<Rightarrow> press_result x v b w))))"

section \<open>Steps\<close>

text \<open>A job of the list runs, whichever it is, and its answer is queued.\<close>

definition run_nth :: "ext \<Rightarrow> gui_env \<Rightarrow> nat \<Rightarrow> gui_world \<Rightarrow> gui_world" where
  "run_nth x v i w = (case run_task x v (gw_tasks w ! i) (gw_chain w) (gw_fs w) of
     (r, chain, fs) \<Rightarrow> w\<lparr> gw_fs := fs, gw_chain := chain, gw_tasks := take i (gw_tasks w) @ drop (Suc i) (gw_tasks w),
       gw_queue := gw_queue w @ (case r of Some a \<Rightarrow> [a] | None \<Rightarrow> []) \<rparr>)"

datatype GuiAct = Press Button | Work nat | Frame

definition gui_act :: "ext \<Rightarrow> gui_env \<Rightarrow> GuiAct \<Rightarrow> gui_world \<Rightarrow> gui_world option" where
  "gui_act x v act w = (case act of
     Press b \<Rightarrow> map_option connect_gate (press x v b w)
   | Work i \<Rightarrow> if i < length (gw_tasks w) then Some (run_nth x v i w) else None
   | Frame \<Rightarrow> Some (connect_gate (frame_start x v w)))"

text \<open>Each step has its own environment: the answers of the network, the clock and the files' texts vary.\<close>

fun gui_run :: "ext \<Rightarrow> (gui_env \<times> GuiAct) list \<Rightarrow> gui_world \<Rightarrow> gui_world option" where
  "gui_run x [] w = Some w"
| "gui_run x ((v, act) # acts) w = Option.bind (gui_act x v act w) (gui_run x acts)"

inductive gui_step :: "ext \<Rightarrow> gui_world \<Rightarrow> gui_world \<Rightarrow> bool" for x where
  acted: "gui_act x v act w = Some w' \<Longrightarrow> gui_step x w w'"

text \<open>The program at its start.\<close>

definition gui_start :: "gui_env \<Rightarrow> filesystem \<Rightarrow> string option \<Rightarrow> gui_world" where
  "gui_start v fs chain = refresh_auth_from_keychain v
     \<lparr> gw_app = default_app\<lparr> ap_status := (case projects_dir v of
          Inl err \<Rightarrow> ProjectsDirError err
        | Inr dir \<Rightarrow> if fs_mkdir_ok fs dir then NoText else ProjectsDirError (ge_io_text v)) \<rparr>,
       gw_fs = fs, gw_chain = chain, gw_tasks = [], gw_queue = [] \<rparr>"

end
