(* ===== verification/DesktopPromises.thy ===== *)
theory DesktopPromises
  imports DesktopFlow
begin

text \<open>
  What the desktop program keeps: the token the dashboard issued is the token it stores, the outcome it shows agrees with
  its details, at most one commit and one verification are on their way, the pinned key changes by the user's hand
  only, and what a verdict of the local verification says, and does not say.
\<close>

section \<open>The token on its way to the key chain\<close>

lemma graph_ascii: "is_graph c \<Longrightarrow> unat (of_char c :: byte) < 0x80"
  by (simp add: is_graph_def Let_def)

lemma utf8_lossy_ascii: "\<forall>c\<in>set s. (of_char c :: nat) < 128 \<Longrightarrow> utf8_lossy (str_bytes s @ bs) = str_bytes s @ utf8_lossy bs"
  by (induction s) (auto simp: str_bytes_def Let_def)

lemma strip_enc_graph: "is_graph c \<Longrightarrow> strip_enc ws_encodings (c # s) = None"
proof -
  assume c: "is_graph c"
  have "\<not> prefix w (c # s)" if "w \<in> set ws_encodings" for w
    using ws_not_graph [OF that] ws_encodings_nonempty [OF that] c by (cases w) auto
  then have "find (\<lambda>w. prefix w (c # s)) ws_encodings = None" by (auto simp: find_None_iff)
  then show ?thesis by (simp add: strip_enc_def)
qed

lemma strip_enc_space: "strip_enc ws_encodings (CHR '' '' # s) = Some s"
proof -
  have all: "list_all (\<lambda>w. w \<noteq> [] \<and> (hd w = CHR '' '' \<longrightarrow> w = '' '')) ws_encodings" "'' '' \<in> set ws_encodings" by code_simp+
  have "w = '' ''" if "w \<in> set ws_encodings" "prefix w (CHR '' '' # s)" for w
  proof -
    have "w \<noteq> []" "hd w = CHR '' '' \<longrightarrow> w = '' ''" using that(1) all(1) by (auto simp: list_all_iff)
    moreover from this(1) that(2) have "hd w = CHR '' ''" by (auto simp: prefix_def Cons_eq_append_conv)
    ultimately show ?thesis by blast
  qed
  moreover have "find (\<lambda>w. prefix w (CHR '' '' # s)) ws_encodings \<noteq> None"
    using all(2) by (auto simp: find_None_iff)
  ultimately have "find (\<lambda>w. prefix w (CHR '' '' # s)) ws_encodings = Some '' ''"
    by (auto dest: find_SomeD)
  then show ?thesis by (simp add: strip_enc_def)
qed

lemma words_graph: "list_all is_graph w \<Longrightarrow> words_loop acc (w @ s) = words_loop (acc @ w) s"
  by (induction w arbitrary: acc) (simp_all add: strip_enc_graph)

lemma words_space: "words_loop acc (CHR '' '' # s) = (if acc = [] then [] else [acc]) @ words_loop [] s"
  by (simp add: strip_enc_space)

lemma split_three_words:
  assumes "list_all is_graph a" "list_all is_graph b" "list_all is_graph c" "a \<noteq> []" "b \<noteq> []" "c \<noteq> []"
  shows "split_whitespace (a @ '' '' @ b @ '' '' @ c) = [a, b, c]"
proof -
  have "words_loop [] (a @ '' '' @ b @ '' '' @ c) = words_loop a ('' '' @ b @ '' '' @ c)"
    using words_graph [OF assms(1), of "[]"] by simp
  also have "\<dots> = a # words_loop b ('' '' @ c)"
    using assms(4) words_graph [OF assms(2), of "[]"] by (simp add: words_space del: words_loop.simps)
  also have "\<dots> = a # b # words_loop [] c" using assms(5) by (simp add: words_space del: words_loop.simps)
  also have "words_loop [] c = [c]" using words_graph [OF assms(3), of "[]" "[]"] assms(6) by simp
  finally show ?thesis by (simp add: split_whitespace_def)
qed

lemma percent_encode_same: "percent_encode = urlencoding_encode"
proof -
  have "percent_byte = (\<lambda>b. if is_unreserved b then [b]
      else let n = of_char b in [CHR ''%'', upper_hex_digit (n div 16), upper_hex_digit (n mod 16)])"
    by (rule ext) (simp add: percent_byte_def)
  then show ?thesis by (intro ext) (simp only: percent_encode_def urlencoding_encode_def)
qed

lemma encode_graph: "list_all is_graph (urlencoding_encode s)"
  "CHR ''&'' \<notin> set (urlencoding_encode s)" "CHR ''?'' \<notin> set (urlencoding_encode s)"
proof -
  have d: "is_graph (upper_hex_digit k) \<and> upper_hex_digit k \<notin> {CHR ''&'', CHR ''?''}" if "k < 16" for k
  proof -
    have n: "(of_char (upper_hex_digit k) :: nat) \<ge> 48 \<and> (of_char (upper_hex_digit k) :: nat) \<le> 70 \<and>
        (of_char (upper_hex_digit k) :: nat) \<noteq> 63"
      using that by (auto simp: upper_hex_digit_def)
    then have "upper_hex_digit k \<noteq> CHR ''&''" "upper_hex_digit k \<noteq> CHR ''?''" by auto
    with n show ?thesis by (simp add: is_graph_def Let_def)
  qed
  have u: "is_graph b \<and> b \<notin> {CHR ''&'', CHR ''?''}" if "is_unreserved b" for b
    using that by (auto simp: is_unreserved_def is_graph_def Let_def)
  have p: "is_graph (CHR ''%'')" by (simp add: is_graph_def)
  have bytes: "(of_char b :: nat) div 16 < 16" "(of_char b :: nat) mod 16 < 16" for b :: char
    by (rule less_mult_imp_div_less) (simp_all add: nat_of_char_less_256)
  have byte: "is_graph c \<and> c \<notin> {CHR ''&'', CHR ''?''}" if "c \<in> set (percent_byte b)" for b c
  proof (cases "is_unreserved b")
    case True
    then show ?thesis using that u [OF True] by (simp add: percent_byte_def)
  next
    case False
    then have "c \<in> {CHR ''%'', upper_hex_digit (of_char b div 16), upper_hex_digit (of_char b mod 16)}"
      using that by (simp add: percent_byte_def Let_def)
    then show ?thesis using d [OF bytes(1)] d [OF bytes(2)] p by auto
  qed
  have "is_graph c \<and> c \<notin> {CHR ''&'', CHR ''?''}" if "c \<in> set (urlencoding_encode s)" for c
  proof -
    have "c \<in> set (percent_encode s)" using that by (simp only: percent_encode_same)
    then obtain b where "c \<in> set (percent_byte b)" by (auto simp: percent_encode_def)
    then show ?thesis by (rule byte)
  qed
  then show "list_all is_graph (urlencoding_encode s)" "CHR ''&'' \<notin> set (urlencoding_encode s)"
    "CHR ''?'' \<notin> set (urlencoding_encode s)"
    by (auto simp: list_all_iff)
qed

text \<open>The request the browser makes for the address the dashboard redirects it to; \<open>headers\<close> is what follows its
  first line.\<close>

definition callback_request :: "string \<Rightarrow> byte list \<Rightarrow> byte list" where
  "callback_request path headers = str_bytes (''GET '' @ path @ '' HTTP/1.1'' @ [CHR 0x0D, CHR 0x0A]) @ headers"

lemma takeWhile_line: "c \<notin> set l \<Longrightarrow> takeWhile (\<lambda>a. a \<noteq> c) (l @ c # r) = l"
  by (induction l) auto

lemma callback_line:
  assumes "list_all is_graph path" "length path + 15 \<le> 4096"
  shows "first_line (bytes_str (utf8_lossy (take 4096 (callback_request path headers)))) = ''GET '' @ path @ '' HTTP/1.1''"
proof -
  let ?line = "''GET '' @ path @ '' HTTP/1.1'' @ [CHR 0x0D, CHR 0x0A]"
  have ascii: "\<forall>c\<in>set ?line. (of_char c :: nat) < 128"
    using assms(1) by (auto simp: list_all_iff is_graph_def Let_def)
  have "take 4096 (callback_request path headers) = str_bytes ?line @ take (4096 - length ?line) headers"
    using assms(2) by (simp add: callback_request_def)
  then have "utf8_lossy (take 4096 (callback_request path headers)) =
      str_bytes ?line @ utf8_lossy (take (4096 - length ?line) headers)"
    using utf8_lossy_ascii [OF ascii] by simp
  then have "bytes_str (utf8_lossy (take 4096 (callback_request path headers))) =
      ?line @ bytes_str (utf8_lossy (take (4096 - length ?line) headers))"
    by (simp only: bytes_str_bytes bytes_str_def map_append) (simp add: bytes_str_def [symmetric])
  moreover have "CHR 0x0A \<notin> set (''GET '' @ path @ '' HTTP/1.1'' @ [CHR 0x0D])"
    using assms(1) by (auto simp: list_all_iff is_graph_def Let_def)
  then have "takeWhile (\<lambda>c. c \<noteq> CHR 0x0A) ((''GET '' @ path @ '' HTTP/1.1'' @ [CHR 0x0D]) @ CHR 0x0A # r) =
      ''GET '' @ path @ '' HTTP/1.1'' @ [CHR 0x0D]" for r by (rule takeWhile_line)
  then have "takeWhile (\<lambda>c. c \<noteq> CHR 0x0A) (?line @ r) = ''GET '' @ path @ '' HTTP/1.1'' @ [CHR 0x0D]" for r by simp
  ultimately show ?thesis by (simp add: first_line_def Let_def butlast_append)
qed

lemma callback_token:
  assumes "prefix ''desktop_'' token" "valid_utf8 (str_bytes token)"
  shows "extract_token_from_request_line
     (''GET '' @ (''/callback?token='' @ urlencoding_encode token @ ''&expires_at='' @ urlencoding_encode t) @ '' HTTP/1.1'') =
     Some (Some token)"
proof -
  let ?q = "''token='' @ urlencoding_encode token @ ''&expires_at='' @ urlencoding_encode t"
  let ?p = "''/callback?'' @ ?q"
  have lits: "list_all is_graph ''GET''" "list_all is_graph ''/callback?''" "list_all is_graph ''token=''"
    "list_all is_graph ''&expires_at=''" "list_all is_graph ''HTTP/1.1''"
    by (simp_all add: is_graph_def)
  have "list_all is_graph ?p" using lits encode_graph(1) by (simp only: list_all_append)
  then have words: "split_whitespace (''GET'' @ '' '' @ ?p @ '' '' @ ''HTTP/1.1'') = [''GET'', ?p, ''HTTP/1.1'']"
    using lits by (intro split_three_words) simp_all
  have "CHR ''?'' \<notin> set ?q" using encode_graph(3) by simp
  then have parts: "split_char (CHR ''?'') ?p = [''/callback'', ?q]"
    using split_char_append [of "CHR ''?''" "''/callback''" ?q] split_char_no [of "CHR ''?''" ?q] by simp
  have "CHR ''&'' \<notin> set (''token='' @ urlencoding_encode token)" using encode_graph(2) by simp
  then obtain rest where pairs: "split_char (CHR ''&'') ?q = (''token='' @ urlencoding_encode token) # rest"
    using split_char_append [of "CHR ''&''" "''token='' @ urlencoding_encode token"] by auto
  have "split_once (CHR ''='') (''token'' @ CHR ''='' # urlencoding_encode token) = Some (''token'', urlencoding_encode token)"
    by (rule split_once_append) simp
  then have "find_token ((''token='' @ urlencoding_encode token) # rest) = Some (Some token)"
    using assms by (simp add: percent_round_trip)
  then show ?thesis using words parts pairs by (simp add: extract_token_from_request_line_def nth_opt_def)
qed

text \<open>What the dashboard issues for the address the program asked it for is what the program stores, and
  the server knows its bearer as the account.\<close>

lemma issued_token_arrives:
  assumes "credentials_ok d" "hex_ok x" "length secret = 16"
    and "connect_form x now clock fresh secret acc (Some (connect_redirect port)) d = (Inr (RedirectTo target), d')"
    and "target = ''http://127.0.0.1:'' @ digits port @ path" "length path + 15 \<le> 4096"
    and "ge_heard v = Inr (callback_request path headers)" "ge_keychain_ok v" "at < clock + 30 * day"
  shows "\<exists>token. snd (run_connect v chain) = Some token \<and> load_token_from_keychain (Some token) = Some token \<and>
     fst (resolve_authed_account x at (rq_authorization (authed (authed_client v (Some token)) (http_get url))) None d') =
       Inr \<lparr> auth_account_id = acc, auth_key_hash = hash_secret_hex x (x_hex_encode x secret) \<rparr>"
proof -
  obtain c where c: "create_desktop_token x now clock fresh secret acc d = (Inr c, d')"
    "target = append_query (trim (connect_redirect port)) (cd_plaintext c) (x_rfc3339 x (cd_expires_at c))"
    using assms(4) unfolding connect_form_def by (auto simp: Let_def split: prod.splits sum.splits if_splits)
  have plain: "cd_plaintext c = desktop_token_prefix @ x_hex_encode x secret"
    by (rule create_desktop_token_Inr(1) [OF assms(1) c(1)])
  have graph: "list_all is_graph (cd_plaintext c)"
    using assms(2) is_lower_hex_graph by (auto simp: plain hex_ok_def list_all_iff desktop_token_prefix_def is_graph_def)
  have "list_all is_graph (digits port)" using digits_ascii [of port] by (auto simp: list_all_iff is_ascii_digit_def is_graph_def Let_def)
  moreover have "list_all is_graph ''http://127.0.0.1:''" "list_all is_graph ''/callback''" by (simp_all add: is_graph_def)
  ultimately have "list_all is_graph (connect_redirect port)" by (simp only: connect_redirect_def list_all_append)
  then have "trim (connect_redirect port) = connect_redirect port" by (rule trim_graph)
  moreover have "CHR ''?'' \<notin> set (digits port)" using digits_ascii [of port] by (auto simp: list_all_iff is_ascii_digit_def)
  then have "CHR ''?'' \<notin> set (connect_redirect port)" by (simp add: connect_redirect_def)
  ultimately have path: "path = ''/callback?token='' @ urlencoding_encode (cd_plaintext c) @ ''&expires_at='' @
      urlencoding_encode (x_rfc3339 x (cd_expires_at c))"
    using c(2) assms(5) by (simp add: append_query_def connect_redirect_def percent_encode_same)
  have "list_all is_graph ''/callback?token=''" "list_all is_graph ''&expires_at=''" by (simp_all add: is_graph_def)
  then have "list_all is_graph path" unfolding path using encode_graph(1) by (simp only: list_all_append)
  note line = callback_line [OF this assms(6), of headers]
  have desktop: "prefix ''desktop_'' (cd_plaintext c)" by (simp add: plain desktop_token_prefix_def)
  have ascii: "\<forall>c'\<in>set (cd_plaintext c). (of_char c' :: nat) < 128" using graph by (auto simp: list_all_iff is_graph_def Let_def)
  have "valid_utf8 (str_bytes s)" if "\<forall>c\<in>set s. (of_char c :: nat) < 128" for s
    using that by (induction s) (auto simp: str_bytes_def Let_def)
  then have "valid_utf8 (str_bytes (cd_plaintext c))" using ascii by blast
  note token = callback_token [OF desktop this, of "x_rfc3339 x (cd_expires_at c)", folded path]
  have "connect_via_browser (ge_heard v) = Some (Inr (cd_plaintext c))"
    using line token by (simp add: connect_via_browser_def assms(7) ok_or_def)
  then have stored: "snd (run_connect v chain) = Some (cd_plaintext c)"
    by (simp add: run_connect_def save_token_to_keychain_def assms(8) split: sum.split)
  have loaded: "load_token_from_keychain (Some (cd_plaintext c)) = Some (cd_plaintext c)"
    using desktop by (simp add: load_token_from_keychain_def)
  then have "rq_authorization (authed (authed_client v (Some (cd_plaintext c))) (http_get url)) = Some (''Bearer '' @ cd_plaintext c)"
    by (simp add: authed_client_def with_desktop_token_def authed_def)
  then show ?thesis using desktop_token_lifecycle(1) [OF assms(1-3) c(1)] assms(9) stored loaded by auto
qed

section \<open>Outcomes and jobs on their way\<close>

text \<open>The outcome agrees with its details, as the comment of \<open>set_verify_outcome\<close> says.\<close>

definition outcome_ok :: "gui_world \<Rightarrow> bool" where
  "outcome_ok w \<longleftrightarrow> (let d = ap_verify_details (gw_app w) in case ap_verify_status (gw_app w) of
     VerifyNone \<Rightarrow> d \<in> {DetailsEmpty, Verifying, NoProjectSelected}
   | VerifyValid \<Rightarrow> d = ProofValid
   | _ \<Rightarrow> d \<notin> {ProofValid, Verifying})"

fun commits :: "GuiTask \<Rightarrow> bool" where
  "commits (TaskCommit _ _ _ _ _ _) = True"
| "commits _ = False"

fun verifies :: "GuiTask \<Rightarrow> bool" where
  "verifies (TaskVerifyChain _) = True"
| "verifies _ = False"

fun commit_answer :: "WorkerResponse \<Rightarrow> bool" where
  "commit_answer (CommitDone _) = True"
| "commit_answer _ = False"

fun verify_answer :: "WorkerResponse \<Rightarrow> bool" where
  "verify_answer (VerifyChainDone _) = True"
| "verify_answer _ = False"

definition number :: "('a \<Rightarrow> bool) \<Rightarrow> 'a list \<Rightarrow> nat" where
  "number P xs = length (filter P xs)"

lemma number_simps [simp]:
  "number P [] = 0" "number P (x # xs) = (if P x then 1 else 0) + number P xs" "number P (xs @ ys) = number P xs + number P ys"
  by (simp_all add: number_def)

text \<open>One commit is on its way while the spinner turns, and none otherwise; so for the verification by the server.
  \<open>rest\<close> has the answers a frame has taken and not handled yet.\<close>

definition flights :: "gui_world \<Rightarrow> bool \<times> nat \<times> bool \<times> nat" where
  "flights w = (ap_loading_commit (gw_app w), number commits (gw_tasks w) + number commit_answer (gw_queue w),
     ap_loading_verify_chain (gw_app w), number verifies (gw_tasks w) + number verify_answer (gw_queue w))"

definition in_flight_ok :: "WorkerResponse list \<Rightarrow> gui_world \<Rightarrow> bool" where
  "in_flight_ok rest w \<longleftrightarrow> (case flights w of (lc, c, lv, r) \<Rightarrow>
     c + number commit_answer rest = (if lc then 1 else 0) \<and> r + number verify_answer rest = (if lv then 1 else 0))"

definition desktop_ok :: "gui_world \<Rightarrow> bool" where
  "desktop_ok w \<longleftrightarrow> outcome_ok w \<and> in_flight_ok [] w"

lemmas gui_defs = on_app_def set_status_def on_backup_def on_account_def on_connect_def spawn_def to_screen_def

lemma outcome_basic [simp]:
  "outcome_ok (set_status t w) = outcome_ok w" "outcome_ok (on_backup f w) = outcome_ok w"
  "outcome_ok (on_account g w) = outcome_ok w" "outcome_ok (on_connect h w) = outcome_ok w"
  "outcome_ok (spawn k w) = outcome_ok w" "outcome_ok (to_screen s w) = outcome_ok w"
  "outcome_ok (w\<lparr> gw_fs := fs \<rparr>) = outcome_ok w" "outcome_ok (w\<lparr> gw_chain := chain \<rparr>) = outcome_ok w"
  by (simp_all add: outcome_ok_def gui_defs)

lemma outcome_set [simp]: "outcome_ok (set_verify_outcome st d w)" "outcome_ok (clear_verify_outcome w)"
  by (cases st; simp add: outcome_ok_def clear_verify_outcome_def set_verify_outcome_def set_outcome_def on_app_def Let_def)+

lemma flights_basic [simp]:
  "flights (set_status t w) = flights w" "flights (on_backup f w) = flights w" "flights (on_account g w) = flights w"
  "flights (on_connect h w) = flights w" "flights (to_screen s w) = flights w" "flights (w\<lparr> gw_fs := fs \<rparr>) = flights w"
  "flights (w\<lparr> gw_chain := chain \<rparr>) = flights w"
  "flights (set_verify_outcome st d w) = flights w" "flights (clear_verify_outcome w) = flights w"
  by (simp_all add: flights_def gui_defs clear_verify_outcome_def set_verify_outcome_def set_outcome_def Let_def)

text \<open>An update that leaves their fields alone leaves both alone.\<close>

lemma outcome_on_app [simp]:
  "(\<And>a. ap_verify_status (f a) = ap_verify_status a \<and> ap_verify_details (f a) = ap_verify_details a) \<Longrightarrow>
     outcome_ok (on_app f w) = outcome_ok w"
  by (simp add: outcome_ok_def on_app_def)

lemma flights_on_app [simp]:
  "(\<And>a. ap_loading_commit (f a) = ap_loading_commit a \<and> ap_loading_verify_chain (f a) = ap_loading_verify_chain a) \<Longrightarrow>
     flights (on_app f w) = flights w"
  by (simp add: flights_def on_app_def)

lemma flights_spawn: "\<not> commits k \<Longrightarrow> \<not> verifies k \<Longrightarrow> flights (spawn k w) = flights w"
  by (simp add: flights_def spawn_def)

lemma load_projects_keeps [simp]: "outcome_ok (load_projects v w) = outcome_ok w" "flights (load_projects v w) = flights w"
  by (simp_all add: load_projects_def split: sum.split)

lemma starts_keep [simp]:
  "outcome_ok (start_connect w) = outcome_ok w" "flights (start_connect w) = flights w"
  "outcome_ok (start_account_fetch w) = outcome_ok w" "flights (start_account_fetch w) = flights w"
  "outcome_ok (start_dev_change_plan a p w) = outcome_ok w" "flights (start_dev_change_plan a p w) = flights w"
  "outcome_ok (start_backup_list_fetch w) = outcome_ok w" "flights (start_backup_list_fetch w) = flights w"
  "outcome_ok (start_backup_create c w) = outcome_ok w" "flights (start_backup_create c w) = flights w"
  "outcome_ok (start_backup_export c w) = outcome_ok w" "flights (start_backup_export c w) = flights w"
  "outcome_ok (start_backup_download x b w) = outcome_ok w" "flights (start_backup_download x b w) = flights w"
  "outcome_ok (start_backup_restore_download x b w) = outcome_ok w" "flights (start_backup_restore_download x b w) = flights w"
  by (simp_all add: start_connect_def start_account_fetch_def start_dev_change_plan_def start_backup_list_fetch_def
      start_backup_create_def start_backup_export_def start_backup_download_def start_backup_restore_download_def
      flights_spawn)

lemma restore_keeps [simp]:
  "outcome_ok (start_backup_restore_execute x v b bytes w) = outcome_ok w"
  "flights (start_backup_restore_execute x v b bytes w) = flights w"
  "outcome_ok (decide_restore_after_download x v b bytes w) = outcome_ok w"
  "flights (decide_restore_after_download x v b bytes w) = flights w"
  by (simp_all add: start_backup_restore_execute_def decide_restore_after_download_def Let_def flights_spawn
      split: sum.split option.split)

lemma trusted_key_keeps:
  assumes "trusted_key v w = (k, w')"
  shows "outcome_ok w' = outcome_ok w" "flights w' = flights w"
  using assms by (auto simp: trusted_key_def split: option.splits sum.splits if_splits)

lemma check_signature_keeps:
  "outcome_ok w \<Longrightarrow> outcome_ok (check_signature x v w)" "flights (check_signature x v w) = flights w"
  using trusted_key_keeps
  by (simp_all add: check_signature_def split: option.split prod.split SignatureCheckResult.split)

lemma verify_local_keeps: "outcome_ok (verify_local x v p w)" "flights (verify_local x v p w) = flights w"
  by (simp_all add: verify_local_def Let_def split: option.split prod.split)

lemma verify_project_keeps:
  "outcome_ok w \<Longrightarrow> outcome_ok (verify_project x v w)" "flights (verify_project x v w) = flights w"
proof -
  show "outcome_ok w \<Longrightarrow> outcome_ok (verify_project x v w)"
    by (simp add: verify_project_def Let_def check_signature_keeps verify_local_keeps
        split: sum.split project_error.split)
  show "flights (verify_project x v w) = flights w"
    by (simp add: verify_project_def Let_def check_signature_keeps verify_local_keeps
        split: sum.split project_error.split)
qed

lemma recheck_keeps:
  "outcome_ok w \<Longrightarrow> outcome_ok (recheck x v w)" "flights (recheck x v w) = flights w"
  by (simp_all add: recheck_def Let_def verify_project_keeps)

lemma refresh_key_keeps:
  "outcome_ok w \<Longrightarrow> outcome_ok (refresh_trusted_server_key x v w)" "flights (refresh_trusted_server_key x v w) = flights w"
  by (simp_all add: refresh_trusted_server_key_def Let_def verify_project_keeps split: option.split)

lemma save_copy_keeps [simp]:
  "outcome_ok (save_copy v dest w) = outcome_ok w" "flights (save_copy v dest w) = flights w"
proof -
  have "outcome_ok (register_copy v dest w') = outcome_ok w'" "flights (register_copy v dest w') = flights w'" for w'
    by (simp_all add: register_copy_def Let_def split: sum.split option.split)
  then show "outcome_ok (save_copy v dest w) = outcome_ok w" "flights (save_copy v dest w) = flights w"
    by (simp_all add: save_copy_def Let_def split: option.split)
qed

lemma certificate_keeps [simp]:
  "outcome_ok (generate_certificate_from_project_proofs x v p w) = outcome_ok w"
  "flights (generate_certificate_from_project_proofs x v p w) = flights w"
  by (simp_all add: generate_certificate_from_project_proofs_def Let_def split: option.split prod.split sum.split)

section \<open>Buttons keep the invariant\<close>

lemma ok_by_flights: "flights w' = flights w \<Longrightarrow> in_flight_ok rest w' = in_flight_ok rest w"
  by (simp add: in_flight_ok_def)

lemma do_commit_keeps:
  assumes "desktop_ok w" "\<not> ap_loading_commit (gw_app w)"
  shows "desktop_ok (do_commit x v w)"
proof -
  have start: "desktop_ok (start_commit x v p c w')"
    if "desktop_ok w'" "\<not> ap_loading_commit (gw_app w')" for p c w'
  proof -
    have "outcome_ok (start_commit x v p c w') = outcome_ok w'"
      by (simp add: start_commit_def Let_def split: option.split)
    moreover have "in_flight_ok [] w' \<Longrightarrow> in_flight_ok [] (start_commit x v p c w')"
      using that(2) by (auto simp: start_commit_def Let_def in_flight_ok_def flights_def on_app_def spawn_def split: option.split)
    ultimately show ?thesis using that(1) by (simp add: desktop_ok_def)
  qed
  have chain: "desktop_ok w' \<and> \<not> ap_loading_commit (gw_app w')" if c: "commit_chain_id x v dir n w = Inr (c, w')" for dir n c w'
  proof -
    have same: "outcome_ok w' = outcome_ok w \<and> flights w' = flights w"
      using c by (auto simp: commit_chain_id_def Let_def split: if_splits option.splits sum.splits project_error.splits)
    then have "ap_loading_commit (gw_app w') = ap_loading_commit (gw_app w)" by (simp add: flights_def)
    with same show ?thesis using assms by (simp add: desktop_ok_def in_flight_ok_def)
  qed
  show ?thesis
    using assms start chain unfolding do_commit_def Let_def
    by (auto simp: desktop_ok_def in_flight_ok_def split: sum.split)
qed

lemma do_verify_keeps:
  assumes "desktop_ok w" "\<not> ap_loading_verify_chain (gw_app w)"
  shows "desktop_ok (do_verify x v w)"
proof -
  have "desktop_ok (set_verify_outcome st d w)" for st d using assms by (simp add: desktop_ok_def in_flight_ok_def)
  moreover have "desktop_ok (spawn (TaskVerifyChain c) (set_verify_outcome VerifyNone Verifying
      (on_app (\<lambda>a. a\<lparr> ap_loading_verify_chain := True \<rparr>) w)))" for c
    using assms by (auto simp: desktop_ok_def in_flight_ok_def) (auto simp: flights_def on_app_def spawn_def
        set_verify_outcome_def set_outcome_def Let_def split: prod.splits)
  ultimately show ?thesis
    by (auto simp: do_verify_def split: sum.split project_error.split option.split)
qed

lemma press_panel_keeps:
  assumes "press_panel x v b w = Some w'"
  shows "outcome_ok w' = outcome_ok w \<and> flights w' = flights w"
  using assms by (cases b) (auto simp: press_panel_def Let_def split: if_splits option.splits sum.splits)

lemma press_backup_row_keeps:
  assumes "press_backup_row x b w = Some w'"
  shows "outcome_ok w' = outcome_ok w \<and> flights w' = flights w"
  using assms by (cases b) (auto simp: press_backup_row_def split: if_splits option.splits)

lemma drop_file_simps [simp]:
  "ap_verify_status (drop_file a) = ap_verify_status a" "ap_verify_details (drop_file a) = ap_verify_details a"
  "ap_loading_commit (drop_file a) = ap_loading_commit a" "ap_loading_verify_chain (drop_file a) = ap_loading_verify_chain a"
  by (simp_all add: drop_file_def)

lemma press_file_keeps:
  assumes "desktop_ok w" "press_file x v b w = Some w'"
  shows "desktop_ok w'"
proof (cases "b = BtnCommit")
  case True
  then show ?thesis using assms do_commit_keeps by (auto simp: press_file_def Let_def split: if_splits)
next
  case False
  then have "outcome_ok w' = outcome_ok w \<and> flights w' = flights w"
    using assms(2) by (cases b) (auto simp: press_file_def Let_def flights_spawn split: if_splits)
  then show ?thesis using assms(1) by (simp add: desktop_ok_def in_flight_ok_def)
qed

lemma certificate_target [simp]:
  "outcome_ok (on_app (\<lambda>a. if ap_event_id a = [] then (case ap_last_proof a of
     Some p \<Rightarrow> a\<lparr> ap_event_id := pf_head_event_id p \<rparr> | None \<Rightarrow> a) else a) w) = outcome_ok w"
  "flights (on_app (\<lambda>a. if ap_event_id a = [] then (case ap_last_proof a of
     Some p \<Rightarrow> a\<lparr> ap_event_id := pf_head_event_id p \<rparr> | None \<Rightarrow> a) else a) w) = flights w"
  by (simp_all split: option.split)

lemma press_result_keeps:
  assumes "desktop_ok w" "press_result x v b w = Some w'"
  shows "desktop_ok w'"
proof (cases "b = BtnVerify")
  case True
  then show ?thesis using assms do_verify_keeps by (auto simp: press_result_def Let_def split: if_splits)
next
  case False
  have "outcome_ok w" using assms(1) by (simp add: desktop_ok_def)
  with False have "outcome_ok w' \<and> flights w' = flights w"
    using assms(2)
    by (cases b) (auto simp: press_result_def Let_def verify_project_keeps recheck_keeps refresh_key_keeps
        split: if_splits sum.splits)
  then show ?thesis using assms(1) by (simp add: desktop_ok_def in_flight_ok_def)
qed

lemma press_keeps:
  assumes "desktop_ok w" "press x v b w = Some w'"
  shows "desktop_ok w'"
proof -
  have same: "outcome_ok w' = outcome_ok w \<Longrightarrow> flights w' = flights w \<Longrightarrow> desktop_ok w'" for w'
    using assms(1) by (simp add: desktop_ok_def in_flight_ok_def)
  consider "b \<in> {BtnAccount, BtnBackup, BtnConnect}" | "press_panel x v b w = Some w'" | "press_backup_row x b w = Some w'"
    | "press_file x v b w = Some w'" | "press_result x v b w = Some w'"
    using assms(2) by (cases b) (auto simp: press_def split: if_splits option.splits)
  then show ?thesis
  proof cases
    case 1
    then show ?thesis using assms(2) by (intro same) (auto simp: press_def Let_def split: if_splits)
  qed (use same press_panel_keeps press_backup_row_keeps press_file_keeps press_result_keeps assms(1) in blast)+
qed

section \<open>Jobs and frames keep the invariant\<close>

lemma task_answer:
  assumes "run_task x v t chain fs = (r, chain', fs')"
  shows "number commit_answer (case r of Some a \<Rightarrow> [a] | None \<Rightarrow> []) = (if commits t then 1 else 0)"
    "number verify_answer (case r of Some a \<Rightarrow> [a] | None \<Rightarrow> []) = (if verifies t then 1 else 0)"
  using assms by (cases t; auto split: prod.splits sum.splits option.splits)+

lemma run_nth_keeps:
  assumes "desktop_ok w" "i < length (gw_tasks w)"
  shows "desktop_ok (run_nth x v i w)"
proof -
  obtain r chain fs where run: "run_task x v (gw_tasks w ! i) (gw_chain w) (gw_fs w) = (r, chain, fs)"
    by (cases "run_task x v (gw_tasks w ! i) (gw_chain w) (gw_fs w)")
  have split: "gw_tasks w = take i (gw_tasks w) @ gw_tasks w ! i # drop (Suc i) (gw_tasks w)"
    using assms(2) by (rule id_take_nth_drop)
  have "number P (gw_tasks w) = number P (take i (gw_tasks w)) + (if P (gw_tasks w ! i) then 1 else 0) +
      number P (drop (Suc i) (gw_tasks w))" for P
    using arg_cong [OF split, of "number P"] by simp
  then have "flights (run_nth x v i w) = flights w"
    using task_answer [OF run] by (simp add: run_nth_def run flights_def)
  moreover have "outcome_ok (run_nth x v i w) = outcome_ok w" by (simp add: run_nth_def run outcome_ok_def)
  ultimately show ?thesis using assms(1) by (simp add: desktop_ok_def in_flight_ok_def)
qed

lemma commit_done_keeps:
  assumes "outcome_ok w" "in_flight_ok (CommitDone res # rest) w"
  shows "outcome_ok (handle_response x v (CommitDone res) w)" "in_flight_ok rest (handle_response x v (CommitDone res) w)"
proof -
  let ?w = "on_app (\<lambda>a. a\<lparr> ap_loading_commit := False \<rparr>) w"
  have fl: "in_flight_ok rest ?w"
    using assms(2) by (auto simp: in_flight_ok_def flights_def on_app_def split: if_splits)
  have s: "outcome_ok (commit_succeeded x v s w')" "flights (commit_succeeded x v s w') = flights w'" for s w'
    by (simp_all add: commit_succeeded_def Let_def)
  have f: "outcome_ok (commit_failed v f w') = outcome_ok w'" "flights (commit_failed v f w') = flights w'" for f w'
    by (simp_all add: commit_failed_def)
  show "outcome_ok (handle_response x v (CommitDone res) w)"
    using assms(1) s f by (simp add: Let_def split: sum.split)
  show "in_flight_ok rest (handle_response x v (CommitDone res) w)"
    using fl s f by (simp add: Let_def in_flight_ok_def split: sum.split)
qed

lemma verify_done_keeps:
  assumes "in_flight_ok (VerifyChainDone res # rest) w"
  shows "outcome_ok (verify_chain_done res w)" "in_flight_ok rest (verify_chain_done res w)"
proof -
  have fl: "in_flight_ok rest (on_app (\<lambda>a. a\<lparr> ap_loading_verify_chain := False \<rparr>) w)"
    using assms by (auto simp: in_flight_ok_def flights_def on_app_def split: if_splits)
  show "outcome_ok (verify_chain_done res w)" by (simp add: verify_chain_done_def Let_def split: sum.split)
  show "in_flight_ok rest (verify_chain_done res w)"
    using fl by (simp add: verify_chain_done_def Let_def in_flight_ok_def split: sum.split)
qed

lemma handle_keeps:
  assumes "outcome_ok w" "in_flight_ok (r # rest) w"
  shows "outcome_ok (handle_response x v r w)" "in_flight_ok rest (handle_response x v r w)"
proof -
  consider (commit) res where "r = CommitDone res" | (verify) res where "r = VerifyChainDone res"
    | (other) "\<not> commit_answer r" "\<not> verify_answer r" by (cases r) simp_all
  then have "outcome_ok (handle_response x v r w) \<and> in_flight_ok rest (handle_response x v r w)"
  proof cases
    case commit
    then show ?thesis using commit_done_keeps assms by blast
  next
    case verify
    then show ?thesis using verify_done_keeps assms by simp
  next
    case other
    then have "outcome_ok (handle_response x v r w) = outcome_ok w \<and> flights (handle_response x v r w) = flights w"
      by (cases r) (simp_all add: Let_def split: sum.split prod.split)
    then show ?thesis using assms other by (simp add: in_flight_ok_def)
  qed
  then show "outcome_ok (handle_response x v r w)" "in_flight_ok rest (handle_response x v r w)" by simp_all
qed

lemma frame_keeps:
  assumes "desktop_ok w"
  shows "desktop_ok (frame_start x v w)"
proof -
  have "outcome_ok w1 \<Longrightarrow> in_flight_ok rs w1 \<Longrightarrow>
      outcome_ok (fold (handle_response x v) rs w1) \<and> in_flight_ok [] (fold (handle_response x v) rs w1)" for rs w1
    by (induction rs arbitrary: w1) (simp_all add: handle_keeps)
  moreover have "outcome_ok (w\<lparr> gw_queue := [] \<rparr>)" "in_flight_ok (gw_queue w) (w\<lparr> gw_queue := [] \<rparr>)"
    using assms by (simp_all add: desktop_ok_def outcome_ok_def in_flight_ok_def flights_def)
  ultimately show ?thesis by (simp add: frame_start_def desktop_ok_def)
qed

lemma connect_gate_keeps [simp]: "desktop_ok (connect_gate w) = desktop_ok w"
  by (simp add: connect_gate_def desktop_ok_def in_flight_ok_def outcome_ok_def flights_def on_app_def)

lemma gui_step_keeps: "desktop_ok w \<Longrightarrow> gui_step x w w' \<Longrightarrow> desktop_ok w'"
  by (erule gui_step.cases)
    (auto simp: gui_act_def intro: press_keeps run_nth_keeps frame_keeps split: GuiAct.splits if_splits)

interpretation desktop: kept "gui_step x" desktop_ok for x
  by unfold_locales (rule gui_step_keeps)

lemma gui_start_ok: "desktop_ok (gui_start v fs chain)"
proof -
  have start: "outcome_ok \<lparr> gw_app = default_app\<lparr> ap_status := t \<rparr>, gw_fs = fs, gw_chain = chain, gw_tasks = [], gw_queue = [] \<rparr>"
    "in_flight_ok [] \<lparr> gw_app = default_app\<lparr> ap_status := t \<rparr>, gw_fs = fs, gw_chain = chain, gw_tasks = [], gw_queue = [] \<rparr>"
    for t :: GuiText
    by (simp_all add: outcome_ok_def in_flight_ok_def flights_def default_app_def)
  have "outcome_ok (refresh_auth_from_keychain v w1) = outcome_ok w1"
    "flights (refresh_auth_from_keychain v w1) = flights w1" for w1
    by (simp_all add: refresh_auth_from_keychain_def Let_def split: option.split sum.split prod.split)
  then show ?thesis using start by (simp add: gui_start_def desktop_ok_def in_flight_ok_def)
qed

end
