(* ===== verification/DesktopTrust.thy ===== *)
theory DesktopTrust
  imports DesktopPromises
begin

text \<open>
  What the desktop program trusts: the pinned key stays until the user replaces it, what a verdict of the local
  verification says of the proof and what it leaves open, when a restore asks first, and what a new project does to
  one of the same name.
\<close>

section \<open>The pinned key\<close>

definition keeps_file :: "string \<Rightarrow> filesystem \<Rightarrow> filesystem \<Rightarrow> bool" where
  "keeps_file p fs fs' \<longleftrightarrow> fs_file fs' p = fs_file fs p \<and> fs_readable fs' = fs_readable fs"

definition pin_path :: "string \<Rightarrow> string" where
  "pin_path home = join_path (join_path home ''.evident'') ''server_identity.pub''"

lemma keeps_refl [simp]: "keeps_file p fs fs"
  by (simp add: keeps_file_def)

lemma keeps_trans: "keeps_file p fs fs' \<Longrightarrow> keeps_file p fs' fs'' \<Longrightarrow> keeps_file p fs fs''"
  by (simp add: keeps_file_def)

lemma keeps_text: "keeps_file p fs fs' \<Longrightarrow> read_text fs' p = read_text fs p"
  by (simp add: keeps_file_def read_text_def fs_read_def)

lemma keeps_write: "q \<noteq> p \<Longrightarrow> keeps_file p fs (fs\<lparr> fs_file := (fs_file fs)(q \<mapsto> b) \<rparr>)"
  by (simp add: keeps_file_def)

text \<open>Every file the program writes of itself ends in another letter.\<close>

lemma last_pin: "last (pin_path home) = CHR ''b''"
  by (simp add: pin_path_def)

lemma other_end: "last q \<noteq> CHR ''b'' \<Longrightarrow> q \<noteq> pin_path home"
  using last_pin by metis

lemma keeps_end: "last q \<noteq> CHR ''b'' \<Longrightarrow> keeps_file (pin_path home) fs (fs\<lparr> fs_file := (fs_file fs)(q \<mapsto> b) \<rparr>)"
  by (intro keeps_write other_end)

lemma project_save_keeps: "project_save v p dir fs = Some fs' \<Longrightarrow> keeps_file (pin_path home) fs fs'"
  by (auto simp: project_save_def Let_def keeps_end split: if_splits)

lemma gui_audit_keeps [simp]: "keeps_file (pin_path home) fs (gui_audit v p e fs)"
  by (auto simp: gui_audit_def audit_append_def append_line_def keeps_end split: option.split)

lemma save_local_copy_keeps: "save_local_copy v p e f fs = Some fs' \<Longrightarrow> keeps_file (pin_path home) fs fs'"
  by (auto simp: save_local_copy_def Let_def keeps_end split: if_splits)

lemma copy_file_keeps: "last dest \<noteq> CHR ''b'' \<Longrightarrow> keeps_file (pin_path home) fs (copy_file source dest fs)"
  by (auto simp: copy_file_def keeps_end split: option.split)

lemma write_backup_keeps: "last name \<noteq> CHR ''b'' \<Longrightarrow> name \<noteq> [] \<Longrightarrow> keeps_file (pin_path home) fs (snd (write_backup_file v name b fs))"
  by (auto simp: write_backup_file_def Let_def keeps_end split: sum.split)

lemma write_backup_outcome_keeps:
  "write_backup_file v name b fs = (r, fs') \<Longrightarrow> last name \<noteq> CHR ''b'' \<Longrightarrow> name \<noteq> [] \<Longrightarrow> keeps_file (pin_path home) fs fs'"
  using write_backup_keeps by (metis snd_conv)

lemma last_path_join: "q \<noteq> [] \<Longrightarrow> last (path_join p q) = last q"
  by (simp add: path_join_def)

lemma save_evidence_keeps [simp]: "keeps_file (pin_path home) fs (save_evidence x v c h b m p fs)"
  by (auto simp: save_evidence_def write_evidence_record_def evidence_path_def Let_def last_path_join intro!: keeps_end split: option.split)

lemma submit_keeps: "keeps_file (pin_path home) fs (snd (submit_event_with_meta x n v c chain b m fs))"
proof -
  have "keeps_file (pin_path home) fs (save_evidence x v k h b m (join_path d (cr_event_id k @ ''.json''))
      (fs\<lparr> fs_file := (fs_file fs)(join_path d (cr_event_id k @ ''.json'') \<mapsto> t) \<rparr>))" for k h d t
    by (rule keeps_trans [OF keeps_end save_evidence_keeps]) simp
  then show ?thesis by (simp add: submit_event_with_meta_def Let_def split: sum.split)
qed

lemma submit_outcome_keeps: "submit_event_with_meta x n v c chain b m fs = (r, fs') \<Longrightarrow> keeps_file (pin_path home) fs fs'"
  using submit_keeps by (metis snd_conv)

lemma restore_name: "fst (restore_snapshot_bytes x dec parse ld i bytes force confirm) = Inr s \<Longrightarrow> rs_output_name s = x_uuid_str x i @ ''.json''"
  by (auto simp: restore_snapshot_bytes_def Let_def split: sum.splits option.splits if_splits)

lemma run_restore_keeps: "keeps_file (pin_path home) fs (snd (run_restore x v i bytes fs))"
proof (cases "evident_dir_path v")
  case (Inr dir)
  obtain r ld where r: "restore_snapshot_bytes x (ge_snapshot v) (gui_parse v) (gui_local_dir x v dir i fs) i bytes True
      (\<lambda>_. True) = (r, ld)" by (cases "restore_snapshot_bytes x (ge_snapshot v) (gui_parse v) (gui_local_dir x v dir i fs) i bytes True (\<lambda>_. True)")
  show ?thesis
  proof (cases r)
    case (Inr s)
    then have "rs_output_name s = x_uuid_str x i @ ''.json''" using restore_name r by (metis fst_conv)
    then show ?thesis using \<open>evident_dir_path v = Inr dir\<close> r Inr by (simp add: run_restore_def keeps_end)
  qed (use Inr r in \<open>simp add: run_restore_def\<close>)
qed (simp add: run_restore_def)

lemma first_free_end: "first_free_path fs c n = Some p \<Longrightarrow> \<exists>k. p = c k"
proof (induction fs c n rule: first_free_path.induct)
  case (1 fs c n)
  then show ?case by (subst (asm) first_free_path.simps) (auto split: if_splits)
qed

lemma certificate_file_keeps: "keeps_file (pin_path home) fs (snd (export_file_certificate_pdf x v d e p i fs))"
proof -
  have "last q \<noteq> CHR ''b''" if "unique_certificate_pdf_path fs dir c = Some q" for dir c q
    using that by (auto simp: unique_certificate_pdf_path_def Let_def dest: first_free_end split: if_splits)
  then have "unique_certificate_pdf_path fs dir c = Some q \<Longrightarrow>
      keeps_file (pin_path home) fs (fs\<lparr> fs_file := (fs_file fs)(q \<mapsto> b) \<rparr>)" for dir c q b
    by (intro keeps_end)
  then show ?thesis by (auto simp: export_file_certificate_pdf_def split: sum.split option.split)
qed

lemma certificate_outcome_keeps: "export_file_certificate_pdf x v d e p i fs = (r, fs') \<Longrightarrow> keeps_file (pin_path home) fs fs'"
  using certificate_file_keeps by (metis snd_conv)

text \<open>Jobs.\<close>

lemma run_task_keeps:
  assumes "run_task x v t chain fs = (r, chain', fs')"
  shows "keeps_file (pin_path home) fs fs'"
proof (cases t)
  case (TaskCommit a b c d e f)
  have "keeps_file (pin_path home) fs fs1" if "run_commit x v a b c d e f chain fs = (q, fs1)" for q fs1
    using that by (auto simp: run_commit_def Let_def split: prod.splits sum.splits intro: submit_outcome_keeps)
  then show ?thesis using assms TaskCommit by (auto split: prod.splits)
next
  case (TaskBackupExport c)
  have "keeps_file (pin_path home) fs fs1" if "write_local_export_file x v c bytes fs = (q, fs1)" for bytes q fs1
    using that unfolding write_local_export_file_def by (rule write_backup_outcome_keeps) simp_all
  then show ?thesis using assms TaskBackupExport by (auto split: sum.splits prod.splits)
next
  case (TaskRestore b bytes)
  then show ?thesis using assms run_restore_keeps [of home fs x v b bytes] by (auto split: prod.splits)
qed (use assms in \<open>auto split: prod.splits\<close>)

text \<open>Buttons.\<close>

definition pinned :: "string \<Rightarrow> string \<Rightarrow> filesystem \<Rightarrow> bool" where
  "pinned home key fs \<longleftrightarrow> read_text fs (pin_path home) = Some key"

lemma pinned_keeps: "keeps_file (pin_path home) fs fs' \<Longrightarrow> pinned home key fs \<Longrightarrow> pinned home key fs'"
  by (simp add: pinned_def keeps_text)

lemma fs_simps [simp]:
  "gw_fs (on_app f w) = gw_fs w" "gw_fs (set_status t w) = gw_fs w" "gw_fs (spawn k w) = gw_fs w"
  "gw_fs (on_backup g w) = gw_fs w" "gw_fs (on_account h w) = gw_fs w" "gw_fs (on_connect c w) = gw_fs w"
  "gw_fs (set_verify_outcome st d w) = gw_fs w" "gw_fs (clear_verify_outcome w) = gw_fs w"
  "gw_fs (load_projects v w) = gw_fs w" "gw_fs (start_connect w) = gw_fs w" "gw_fs (connect_gate w) = gw_fs w"
  "gw_fs (to_screen sc w) = gw_fs w"
  by (simp_all add: on_app_def set_status_def spawn_def on_backup_def on_account_def on_connect_def
      set_verify_outcome_def clear_verify_outcome_def load_projects_def start_connect_def connect_gate_def to_screen_def
      split: sum.split)

lemma starts_fs [simp]:
  "gw_fs (start_account_fetch w) = gw_fs w" "gw_fs (start_dev_change_plan i plan w) = gw_fs w"
  "gw_fs (start_backup_list_fetch w) = gw_fs w" "gw_fs (start_backup_create c w) = gw_fs w"
  "gw_fs (start_backup_export c w) = gw_fs w" "gw_fs (start_backup_download x c w) = gw_fs w"
  "gw_fs (start_backup_restore_download x c w) = gw_fs w" "gw_fs (start_backup_restore_execute x v c bytes w) = gw_fs w"
  "gw_fs (decide_restore_after_download x v c bytes w) = gw_fs w" "gw_fs (start_commit x v p q w) = gw_fs w"
  "gw_fs (do_verify x v w) = gw_fs w" "gw_fs (verify_local x v p w) = gw_fs w" "gw_fs (verify_chain_done r w) = gw_fs w"
  by (simp_all add: start_account_fetch_def start_dev_change_plan_def start_backup_list_fetch_def
      start_backup_create_def start_backup_export_def start_backup_download_def start_backup_restore_download_def
      start_backup_restore_execute_def decide_restore_after_download_def start_commit_def do_verify_def verify_local_def
      verify_chain_done_def Let_def split: sum.split option.split prod.split project_error.split)

lemma pinned_path: "ge_home_dir v = Some home \<Longrightarrow> pinned_key_path v = Some (pin_path home)"
  by (simp add: pinned_key_path_def pin_path_def)

lemma trusted_key_pinned:
  "ge_home_dir v = Some home \<Longrightarrow> pinned home key (gw_fs w) \<Longrightarrow> trusted_key v w = (Some (trim key), w)"
  by (simp add: trusted_key_def pinned_path pinned_def)

lemma verify_project_fs:
  "ge_home_dir v = Some home \<Longrightarrow> pinned home key (gw_fs w) \<Longrightarrow> gw_fs (verify_project x v w) = gw_fs w"
  by (simp add: verify_project_def check_signature_def trusted_key_pinned Let_def
      split: sum.split project_error.split option.split SignatureCheckResult.split)

lemma recheck_fs: "ge_home_dir v = Some home \<Longrightarrow> pinned home key (gw_fs w) \<Longrightarrow> gw_fs (recheck x v w) = gw_fs w"
  by (simp add: recheck_def Let_def verify_project_fs)

lemma do_commit_pin: "keeps_file (pin_path home) (gw_fs w) (gw_fs (do_commit x v w))"
  by (auto simp: do_commit_def commit_chain_id_def Let_def dest: project_save_keeps
      split: sum.splits option.splits project_error.splits if_splits)

lemma save_copy_pin:
  assumes "dest \<noteq> pin_path home"
  shows "keeps_file (pin_path home) (gw_fs w) (gw_fs (save_copy v dest w))"
proof -
  have r: "keeps_file (pin_path home) (gw_fs w') (gw_fs (register_copy v dest w'))" for w'
    by (auto simp: register_copy_def Let_def dest: save_local_copy_keeps split: sum.splits option.splits)
  have "keeps_file (pin_path home) (gw_fs w) (gw_fs (register_copy v dest (w\<lparr> gw_fs := (gw_fs w)\<lparr> fs_file :=
      (fs_file (gw_fs w))(dest \<mapsto> b) \<rparr> \<rparr>)))" for b
    by (rule keeps_trans [OF keeps_write [OF assms] r [of "w\<lparr> gw_fs := (gw_fs w)\<lparr> fs_file :=
      (fs_file (gw_fs w))(dest \<mapsto> b) \<rparr> \<rparr>", simplified]])
  then show ?thesis by (simp add: save_copy_def Let_def keeps_write assms split: option.split)
qed

lemma certificate_pin: "keeps_file (pin_path home) (gw_fs w) (gw_fs (generate_certificate_from_project_proofs x v p w))"
  by (auto simp: generate_certificate_from_project_proofs_def Let_def dest: certificate_outcome_keeps
      split: option.splits prod.splits sum.splits)

lemma save_copy_pinned: "dest \<noteq> pin_path home \<Longrightarrow> pinned home key (gw_fs w) \<Longrightarrow> pinned home key (gw_fs (save_copy v dest w))"
  by (rule pinned_keeps [OF save_copy_pin])

lemma certificate_pinned:
  "pinned home key (gw_fs w) \<Longrightarrow> pinned home key (gw_fs (generate_certificate_from_project_proofs x v p w))"
  by (rule pinned_keeps [OF certificate_pin])

text \<open>Every act but the two that the user points at the key.\<close>

definition spares_key :: "string \<Rightarrow> GuiAct \<Rightarrow> bool" where
  "spares_key home act \<longleftrightarrow> act \<noteq> Press BtnUpdateKey \<and> act \<noteq> Press (BtnSaveCopy (pin_path home))"

lemma press_pin:
  assumes "press x v b w = Some w'" "spares_key home (Press b)" "ge_home_dir v = Some home" "pinned home key (gw_fs w)"
  shows "pinned home key (gw_fs w')"
proof -
  have same: "gw_fs w' = gw_fs w \<Longrightarrow> ?thesis" using assms(4) by simp
  have other: "keeps_file (pin_path home) (gw_fs w) (gw_fs w') \<Longrightarrow> ?thesis" using pinned_keeps assms(4) by blast
  consider "b \<in> {BtnAccount, BtnBackup, BtnConnect}" | "press_panel x v b w = Some w'" | "press_backup_row x b w = Some w'"
    | "press_file x v b w = Some w'" | "press_result x v b w = Some w'"
    using assms(1) by (cases b) (auto simp: press_def split: if_splits option.splits)
  then show ?thesis
  proof cases
    case 1
    then show ?thesis using assms(1) by (intro same) (auto simp: press_def Let_def split: if_splits)
  next
    case 2
    then show ?thesis
      by (intro same, cases b) (auto simp: press_panel_def Let_def split: if_splits option.splits sum.splits)
  next
    case 3
    then show ?thesis by (intro same, cases b) (auto simp: press_backup_row_def split: if_splits option.splits)
  next
    case 4
    show ?thesis
    proof (cases "b = BtnCommit")
      case True
      then show ?thesis using 4 do_commit_pin by (intro other) (auto simp: press_file_def Let_def split: if_splits)
    next
      case False
      then show ?thesis using 4 by (intro same, cases b) (auto simp: press_file_def Let_def split: if_splits)
    qed
  next
    case 5
    then show ?thesis
      using assms(2-4)
      by (cases b) (auto simp: press_result_def Let_def spares_key_def verify_project_fs recheck_fs
          save_copy_pinned certificate_pinned split: if_splits sum.splits)
  qed
qed

lemma commit_audit_keeps: "keeps_file (pin_path home) fs (commit_audit x v s fs)"
  by (auto simp: commit_audit_def Let_def split: option.split intro!: keeps_trans [OF gui_audit_keeps gui_audit_keeps])

lemma commit_succeeded_pin: "keeps_file (pin_path home) (gw_fs w) (gw_fs (commit_succeeded x v s w))"
proof -
  have "last (join_path d (e @ ''.json'')) \<noteq> CHR ''b''" for d e by simp
  then show ?thesis
    by (simp add: commit_succeeded_def Let_def keeps_trans [OF copy_file_keeps commit_audit_keeps])
qed

lemma handle_pin:
  assumes "pinned home key (gw_fs w)"
  shows "pinned home key (gw_fs (handle_response x v r w))"
proof -
  have other: "keeps_file (pin_path home) (gw_fs w) (gw_fs w') \<Longrightarrow> pinned home key (gw_fs w')" for w'
    using pinned_keeps assms by blast
  show ?thesis
  proof (cases r)
    case (CommitDone res)
    then show ?thesis
      using commit_succeeded_pin [of home "on_app (\<lambda>a. a\<lparr> ap_loading_commit := False \<rparr>) w"]
      by (intro other) (auto simp: Let_def commit_failed_def split: sum.split)
  next
    case (BackupDownloadDone res)
    then show ?thesis
      by (intro other) (auto simp: Let_def write_backup_download_file_def split: sum.split prod.split
          intro: write_backup_outcome_keeps)
  qed (use assms in \<open>simp_all add: Let_def split: sum.split prod.split\<close>)
qed

lemma act_pin:
  assumes "gui_act x v act w = Some w'" "spares_key home act" "ge_home_dir v = Some home" "pinned home key (gw_fs w)"
  shows "pinned home key (gw_fs w')"
proof (cases act)
  case (Press b)
  then show ?thesis using assms press_pin by (auto simp: gui_act_def)
next
  case (Work i)
  then show ?thesis
    using assms pinned_keeps [OF run_task_keeps] by (auto simp: gui_act_def run_nth_def split: if_splits prod.splits)
next
  case Frame
  have "pinned home key (gw_fs w1) \<Longrightarrow> pinned home key (gw_fs (fold (handle_response x v) rs w1))" for rs w1
    by (induction rs arbitrary: w1) (simp_all add: handle_pin)
  then show ?thesis using assms Frame by (auto simp: gui_act_def frame_start_def)
qed

lemma run_pin:
  assumes "gui_run x acts w = Some w'" "pinned home key (gw_fs w)"
    "list_all (\<lambda>(v, act). ge_home_dir v = Some home \<and> spares_key home act) acts"
  shows "pinned home key (gw_fs w')"
  using assms
proof (induction x acts w rule: gui_run.induct)
  case (2 x v act acts w)
  then obtain w1 where "gui_act x v act w = Some w1" "gui_run x acts w1 = Some w'" by (auto simp: bind_eq_Some_conv)
  then show ?case using 2 act_pin by auto
qed simp

section \<open>What a verdict says\<close>

text \<open>The verdict of the events and of the copies.\<close>

definition parents_chained :: "EventLeaf list \<Rightarrow> bool" where
  "parents_chained es \<longleftrightarrow> (\<forall>i<length es. el_parent_event_id (es ! i) = (if i = 0 then nil_parent else el_event_id (es ! (i - 1))))"

lemma local_events_valid:
  "list_all ve_valid (local_events x fs copies p es) \<longleftrightarrow>
     (\<forall>i<length es. el_parent_event_id (es ! i) = (if i = 0 then p else el_event_id (es ! (i - 1))))"
proof (induction es arbitrary: p)
  case (Cons e es)
  have "(\<forall>i<length (e # es). el_parent_event_id ((e # es) ! i) = (if i = 0 then p else el_event_id ((e # es) ! (i - 1)))) \<longleftrightarrow>
      el_parent_event_id e = p \<and>
      (\<forall>i<length es. el_parent_event_id (es ! i) = (if i = 0 then el_event_id e else el_event_id (es ! (i - 1))))"
    by (auto simp: less_Suc_eq_0_disj nth_Cons' split: if_splits)
  then show ?case using Cons [of "el_event_id e"] by (simp add: local_event_def Let_def split: option.split)
qed simp

lemma local_events_copies:
  assumes "\<not> list_ex (\<lambda>v. ve_local_integrity_ok v = Some False) (local_events x fs copies p es)"
    and "e \<in> set es" "copies (el_event_id e) = Some path" "fs_read fs path = Some bytes"
  shows "sha_hex x bytes = el_file_hash e"
  using assms
proof (induction es arbitrary: p)
  case (Cons a es)
  have "fs_file fs path \<noteq> None" using assms(4) by (auto simp: fs_read_def split: if_splits)
  then have "e = a \<Longrightarrow> sha_hex x bytes = el_file_hash e"
    using Cons.prems by (auto simp: local_event_def Let_def check_local_integrity_def)
  then show ?case using Cons by auto
qed simp

lemma check_signature_valid:
  assumes "ap_verify_status (gw_app (check_signature x v w)) = VerifyValid" "ap_last_proof (gw_app w) = Some pf"
    and "ge_home_dir v = Some home" "pinned home key (gw_fs w)"
  shows "ap_verify_status (gw_app w) = VerifyValid"
    "classify_signature x (pp_public_key (pf_proof pf)) (trim key) (pf_chain_id pf) (pp_root (pf_proof pf))
       (pp_chain_head (pf_proof pf)) (pp_signature (pf_proof pf)) = SigValid"
  using assms(1) unfolding check_signature_def trusted_key_pinned [OF assms(3,4)] assms(2)
  by (auto simp: set_status_def set_verify_outcome_def set_outcome_def on_app_def split: SignatureCheckResult.splits)

lemma verify_valid:
  assumes "ap_verify_status (gw_app (verify_project x v w)) = VerifyValid"
    and "ap_verification_complete (gw_app (verify_project x v w))"
    and "ge_home_dir v = Some home" "pinned home key (gw_fs w)"
  obtains dir proofs pf where "projects_dir v = Inr dir"
    "proofs = join_path (join_path dir (ap_selected_project (gw_app w))) ''proofs''"
    "load_local_proof v proofs (gw_fs w) = Some pf"
    "local_outcome (build_local_events x v pf proofs (gw_fs w)) = (VerifyValid, ProofValid)"
    "classify_signature x (pp_public_key (pf_proof pf)) (trim key) (pf_chain_id pf) (pp_root (pf_proof pf))
       (pp_chain_head (pf_proof pf)) (pp_signature (pf_proof pf)) = SigValid"
proof -
  let ?w1 = "on_app (\<lambda>a. a\<lparr> ap_verification_events := [], ap_verification_complete := False,
      ap_verification_project := ap_selected_project (gw_app w) \<rparr>) w"
  have early: "ap_verification_complete (gw_app (set_status t ?w1)) = False" for t by (simp add: set_status_def on_app_def)
  obtain dir project where go: "projects_dir v = Inr dir" "ap_selected_project (gw_app w) \<noteq> []"
    "load_project v (join_path dir (ap_selected_project (gw_app w))) (gw_fs w) = Inr project"
    "x_uuid_parse x (pj_chain_id project) \<noteq> None"
    using assms(2) early by (auto simp: verify_project_def Let_def split: sum.splits project_error.splits if_splits)
  let ?proofs = "join_path (join_path dir (ap_selected_project (gw_app w))) ''proofs''"
  let ?w2 = "on_app (\<lambda>a. a\<lparr> ap_verification_complete := True, ap_screen := ScreenVerifyResult \<rparr>) (verify_local x v ?proofs ?w1)"
  have checked: "verify_project x v w = check_signature x v ?w2"
    using go by (auto simp: verify_project_def Let_def)
  have fs: "pinned home key (gw_fs ?w2)" using assms(4) by simp
  show thesis
  proof (cases "load_local_proof v ?proofs (gw_fs w)")
    case None
    then have local: "ap_verify_status (gw_app ?w2) = VerifyNone" "ap_last_proof (gw_app ?w2) = ap_last_proof (gw_app w)"
      by (simp_all add: verify_local_def set_status_def clear_verify_outcome_def set_verify_outcome_def set_outcome_def on_app_def)
    show thesis
    proof (cases "ap_last_proof (gw_app w)")
      case None
      then have "check_signature x v ?w2 = ?w2" using local(2) by (simp add: check_signature_def)
      then show thesis using local(1) checked assms(1) by simp
    next
      case (Some old)
      then show thesis
        using check_signature_valid(1) [OF assms(1) [unfolded checked] _ assms(3) fs] local by simp
    qed
  next
    case (Some pf)
    obtain st d where out: "local_outcome (build_local_events x v pf ?proofs (gw_fs w)) = (st, d)" by fastforce
    have local: "ap_last_proof (gw_app ?w2) = Some pf" "ap_verify_status (gw_app ?w2) = st"
      using Some out by (simp_all add: verify_local_def Let_def set_status_def set_verify_outcome_def set_outcome_def on_app_def)
    have valid: "st = VerifyValid" "classify_signature x (pp_public_key (pf_proof pf)) (trim key) (pf_chain_id pf)
       (pp_root (pf_proof pf)) (pp_chain_head (pf_proof pf)) (pp_signature (pf_proof pf)) = SigValid"
      using check_signature_valid [OF assms(1) [unfolded checked] local(1) assms(3) fs] local(2) by simp_all
    moreover from valid(1) out have "d = ProofValid" by (auto simp: local_outcome_def split: if_splits)
    ultimately show thesis using that go(1) Some out by blast
  qed
qed

section \<open>What a verdict leaves open\<close>

text \<open>Without a pinned key and without the server no signature is looked at, and the verdict of the events stands.\<close>

lemma no_key_keeps_verdict:
  assumes "ge_home_dir v = Some home" "read_text (gw_fs w) (pin_path home) = None"
    and "fetch_identity (ge_network v) (authed_client v (gw_chain w)) = Inl e"
  shows "ap_verify_status (gw_app (check_signature x v w)) = ap_verify_status (gw_app w)"
  using assms by (simp add: check_signature_def trusted_key_def pinned_path set_status_def on_app_def split: option.split)

text \<open>The file hashes of the events play no part where no local copy is registered: the Merkle root is not
  computed again, so other hashes under the same signature get the same verdict.\<close>

definition with_hashes :: "(EventLeaf \<Rightarrow> string) \<Rightarrow> ProofFile \<Rightarrow> ProofFile" where
  "with_hashes h p = p\<lparr> pf_events := map (\<lambda>e. e\<lparr> el_file_hash := h e \<rparr>) (pf_events p) \<rparr>"

lemma sort_key_map: "(\<And>a. f (g a) = f a) \<Longrightarrow> sort_key f (map g xs) = map g (sort_key f xs)"
proof (induction xs)
  case (Cons a xs)
  have "insort_key f (g a) (map g ys) = map g (insort_key f a ys)" for ys by (induction ys) (simp_all add: Cons.prems)
  then show ?case using Cons by simp
qed simp

lemma local_events_hashes:
  "local_events x fs Map.empty p (map (\<lambda>e. e\<lparr> el_file_hash := h e \<rparr>) es) = local_events x fs Map.empty p es"
  by (induction es arbitrary: p) (simp_all add: local_event_def Let_def)

lemma verdict_ignores_hashes:
  assumes "load_local_copies v proofs fs = Map.empty"
  shows "local_outcome (build_local_events x v (with_hashes h p) proofs fs) = local_outcome (build_local_events x v p proofs fs)"
  by (simp add: build_local_events_def assms with_hashes_def sort_key_map local_events_hashes)

text \<open>A project without local data is judged by the proof that was read before it.\<close>

lemma stale_proof_judges:
  assumes "ap_last_proof (gw_app w) = Some pf" "load_local_proof v p (gw_fs w) = None"
    and "ge_home_dir v = Some home" "pinned home key (gw_fs w)"
    and "classify_signature x (pp_public_key (pf_proof pf)) (trim key) (pf_chain_id pf) (pp_root (pf_proof pf))
       (pp_chain_head (pf_proof pf)) (pp_signature (pf_proof pf)) \<noteq> SigValid"
  shows "ap_verify_status (gw_app (check_signature x v (verify_local x v p w))) = VerifyInvalid"
proof -
  let ?w = "verify_local x v p w"
  have "ap_last_proof (gw_app ?w) = Some pf" "pinned home key (gw_fs ?w)"
    using assms by (simp_all add: verify_local_def set_status_def clear_verify_outcome_def set_verify_outcome_def set_outcome_def on_app_def)
  then show ?thesis
    using assms(5) by (auto simp: check_signature_def trusted_key_pinned [OF assms(3)] set_status_def set_verify_outcome_def
        set_outcome_def on_app_def split: SignatureCheckResult.split)
qed

text \<open>A new project takes the place of one of the same name: its file then holds the new chain.\<close>

lemma new_project_overwrites:
  assumes "ap_project_mode (gw_app w) = NewProject" "commit_chain_id x v dir n w = Inr (c, w')"
  shows "c = x_uuid_str x (ge_new_id v)"
    "fs_file (gw_fs w') (join_path (join_path dir n) ''project.json'') =
       Some (ge_project_text v \<lparr> pj_name = n, pj_chain_id = x_uuid_str x (ge_new_id v), pj_created_at = ge_rfc3339 v \<rparr>)"
  using assms by (auto simp: commit_chain_id_def project_save_def Let_def split: if_splits option.splits)

text \<open>A backup that differs from the local state of its chain waits for the user: no job starts, no file changes.\<close>

lemma restore_asks_first:
  assumes "parse_snapshot (ge_snapshot v) bytes = Inr s" "head_summary s = Some h" "evident_dir_path v = Inr dir"
    and "scan_local_chain_state x (ge_snapshot v) (gui_parse v) (gui_local_dir x v dir b (gw_fs w)) (bk_chain_id s) = Some l"
    and "ls_source l \<noteq> ''backups/'' @ x_uuid_str x b @ ''.json''"
    and "ls_event_count l \<noteq> hs_event_count h \<or> ls_head_event_id l \<noteq> hs_head_event_id h"
  shows "gw_tasks (decide_restore_after_download x v b bytes w) = gw_tasks w"
    "gw_fs (decide_restore_after_download x v b bytes w) = gw_fs w"
    "bp_pending_restore (ap_backup (gw_app (decide_restore_after_download x v b bytes w))) =
       Some \<lparr> pr_backup_id = b, pr_bytes = bytes \<rparr>"
  using assms by (auto simp: decide_restore_after_download_def Let_def on_backup_def on_app_def)

text \<open>A callback whose percent sign stands before a character of several bytes stops the thread that waits for it: no
  answer comes, and while the program waits for one the button does nothing.\<close>

lemma split_character_stops_connect:
  "find_token [''token=%a'' @ [CHR 0xE2, CHR 0x82, CHR 0xAC]] = None"
  by code_simp

lemma stopped_connect_waits:
  "connect_via_browser (ge_heard v) = None \<Longrightarrow> run_task x v TaskConnect chain fs = (None, chain, fs)"
  "cp_connecting (ap_connect (gw_app w)) \<Longrightarrow> start_connect w = w"
  by (simp add: run_connect_def) (simp add: start_connect_def)

end
