(* ===== verification/DesktopSafety.thy ===== *)
theory DesktopSafety
  imports DesktopTrust DemoClient
begin

text \<open>
  The promises of the desktop program: what a verdict says after any run that leaves the pinned key alone, the token on
  its way from the dashboard to the requests, and the jobs that are on their way; with a concrete program for each.
\<close>

section \<open>A concrete program\<close>

text \<open>One project with a signed proof of one event, a registered copy of its file, and the pinned key.\<close>

definition demo_leaf_json :: json where
  "demo_leaf_json = JObject [(''sequence'', JNumber 1), (''event_id'', JString ''e''), (''parent_event_id'', JString nil_parent),
     (''file_hash'', JString (sha_hex demo_ext [1]))]"

definition demo_key_text :: string where
  "demo_key_text = public_key_hex demo_ext demo_signer"

definition demo_proof_json :: json where
  "demo_proof_json = JObject [(''leaf_version'', JString ''1''), (''chain_id'', JString ''c''), (''head_event_id'', JString ''e''),
     (''proof'', JObject [(''root'', JString ''r''), (''chain_head'', JString ''e''),
        (''signature'', JString (sign_root demo_ext demo_signer ''c'' ''r'' ''e'')), (''public_key'', JString demo_key_text),
        (''leaves_count'', JNumber 1)]),
     (''events'', JArray [demo_leaf_json])]"

definition demo_desk_parse :: "string \<Rightarrow> json option" where
  "demo_desk_parse s =
     (if s = ''P'' then Some (JObject [(''name'', JString ''p''), (''chain_id'', JString (x_uuid_str demo_ext 3)), (''created_at'', JString [])])
      else if s = ''Q'' then Some demo_proof_json
      else if s = ''C'' then Some (JObject [(''e'', JString ''/f'')])
      else if s = [] then Some (JObject [(''email'', JString ''a@x.io'')]) else None)"

definition demo_desk_list :: "filesystem \<Rightarrow> string \<Rightarrow> string list option" where
  "demo_desk_list fs d = (if d = ''/h/Evident Projects'' then Some [''p'']
     else if d = ''/h/Evident Projects/p/proofs'' then Some [''local_copies.json'', ''q.json''] else None)"

definition demo_no_path :: "filesystem \<Rightarrow> string \<Rightarrow> string option" where
  "demo_no_path fs s = None"

definition demo_other_file :: "filesystem \<Rightarrow> string \<Rightarrow> string \<Rightarrow> bool" where
  "demo_other_file fs s t \<longleftrightarrow> False"

definition demo_no_pdf :: "EvidenceRecord \<Rightarrow> ProofFile \<Rightarrow> string option \<Rightarrow> string + byte list" where
  "demo_no_pdf r p i = Inl []"

definition demo_no_bytes :: "'a \<Rightarrow> byte list" where
  "demo_no_bytes a = []"

definition demo_desk :: gui_env where
  "demo_desk = \<lparr> ge_server_var = None, ge_client = \<lparr> ce_desktop_token = None, ce_api_key = Some ''k'', ce_key_file = None \<rparr>,
     ge_network = \<lparr> nw_send = demo_send, nw_parse = demo_desk_parse, nw_show_status = digits \<rparr>, ge_submit = demo_submit_env,
     ge_home_var = Some ''/h'', ge_home_dir = Some ''/h'', ge_list = demo_desk_list, ge_project_text = demo_no_bytes,
     ge_copies_text = demo_no_bytes, ge_snapshot = demo_no_snapshot, ge_audit = demo_no_bytes, ge_log_ok = True,
     ge_detail = demo_no_text, ge_io_text = [], ge_json_text = [], ge_lower = demo_id, ge_new_id = 8, ge_now = 0,
     ge_rfc3339 = [], ge_stamp = [], ge_heard = Inl [], ge_keychain_ok = True, ge_canonical = demo_no_path,
     ge_same_inode = demo_other_file, ge_certificate = demo_no_pdf, ge_documents_dir = None \<rparr>"

definition demo_desk_files :: filesystem where
  "demo_desk_files = \<lparr> fs_file = [''/h/.evident/server_identity.pub'' \<mapsto> str_bytes demo_key_text, ''/f'' \<mapsto> [1],
       ''/h/Evident Projects/p/project.json'' \<mapsto> str_bytes ''P'', ''/h/Evident Projects/p/proofs/q.json'' \<mapsto> str_bytes ''Q'',
       ''/h/Evident Projects/p/proofs/local_copies.json'' \<mapsto> str_bytes ''C''],
     fs_readable = demo_everywhere, fs_parent = Map.empty, fs_mkdir_ok = demo_everywhere, fs_write_ok = demo_everywhere \<rparr>"

definition demo_desktop :: gui_world where
  "demo_desktop = \<lparr> gw_app = default_app\<lparr> ap_screen := ScreenFileSelection,
       ap_connect := (ap_connect default_app)\<lparr> cp_auth_state := Authenticated \<rparr> \<rparr>,
     gw_fs = demo_desk_files, gw_chain = Some ''desktop_t'', gw_tasks = [], gw_queue = [] \<rparr>"

definition demo_opens :: "(gui_env \<times> GuiAct) list" where
  "demo_opens = [(demo_desk, Frame), (demo_desk, Press BtnVerifyScreen)]"

definition demo_listed :: gui_world where
  "demo_listed = on_app (\<lambda>a. a\<lparr> ap_screen := ScreenVerifyProject, ap_projects := [''p''] \<rparr>) demo_desktop"

definition demo_verified :: gui_world where
  "demo_verified = verify_project demo_ext demo_desk (on_app (\<lambda>a. a\<lparr> ap_selected_project := ''p'' \<rparr>) demo_listed)"

definition demo_proof :: ProofFile where
  "demo_proof = the (read_proof_file demo_proof_json)"

lemma demo_project_list: "project_list demo_desk ''/h/Evident Projects'' demo_desk_files = [''p'']"
  by code_simp

lemma demo_projects_dir: "projects_dir demo_desk = Inr ''/h/Evident Projects''"
  by code_simp

lemma demo_opens_runs: "gui_run demo_ext demo_opens demo_desktop = Some demo_listed"
  by (simp add: demo_opens_def gui_act_def frame_start_def connect_gate_def connected_def demo_desktop_def default_app_def
      press_def press_panel_def press_backup_row_def press_file_def Let_def load_projects_def demo_projects_dir to_screen_def
      on_app_def demo_project_list demo_listed_def)

lemma demo_pinned: "read_text demo_desk_files (pin_path ''/h'') = Some demo_key_text"
  by code_simp

lemma demo_project_opens: "press demo_ext demo_desk (BtnOpenProject ''p'') demo_listed = Some demo_verified"
  by (simp add: demo_listed_def demo_verified_def connected_def demo_desktop_def default_app_def on_app_def
      press_def press_panel_def press_backup_row_def press_file_def press_result_def Let_def)

lemma demo_texts:
  "read_text demo_desk_files ''/h/Evident Projects/p/project.json'' = Some ''P''"
  "read_text demo_desk_files ''/h/Evident Projects/p/proofs/q.json'' = Some ''Q''"
  "read_text demo_desk_files ''/h/Evident Projects/p/proofs/local_copies.json'' = Some ''C''"
  by code_simp+

lemma demo_names:
  "join_path ''/h/Evident Projects/p'' ''project.json'' = ''/h/Evident Projects/p/project.json''"
  "join_path ''/h/Evident Projects/p/proofs'' ''q.json'' = ''/h/Evident Projects/p/proofs/q.json''"
  "join_path ''/h/Evident Projects/p/proofs'' ''local_copies.json'' = ''/h/Evident Projects/p/proofs/local_copies.json''"
  "is_json_file ''q.json''" "is_json_file ''local_copies.json''"
  by code_simp+

lemma demo_parses: "nw_parse (ge_network demo_desk) s = demo_desk_parse s" "ge_list demo_desk = demo_desk_list"
  by (simp_all add: demo_desk_def)

lemma demo_project_loads: "load_project demo_desk ''/h/Evident Projects/p'' demo_desk_files =
     Inr \<lparr> pj_name = ''p'', pj_chain_id = x_uuid_str demo_ext 3, pj_created_at = [] \<rparr>"
  by (simp add: load_project_def demo_names demo_texts demo_parses demo_desk_parse_def read_project_def need_def ok_or_def)

lemma demo_proof_reads: "read_proof_file demo_proof_json = Some demo_proof"
  by (simp add: demo_proof_def demo_proof_json_def demo_leaf_json_def read_proof_file_def need_def read_payload_def maybe_def read_leaf_def)

lemma demo_copies: "read_proof_file (JObject [(''e'', JString ''/f'')]) = None"
  by (simp add: read_proof_file_def need_def)

lemma demo_proof_loads: "load_local_proof demo_desk ''/h/Evident Projects/p/proofs'' demo_desk_files = Some demo_proof"
  by (simp add: load_local_proof_def demo_parses demo_desk_list_def proof_in_def demo_names demo_texts demo_desk_parse_def
      demo_proof_reads demo_copies)

lemma demo_local: "local_outcome (build_local_events demo_ext demo_desk demo_proof ''/h/Evident Projects/p/proofs'' demo_desk_files) =
    (VerifyValid, ProofValid)"
  by code_simp

lemma demo_signed: "classify_signature demo_ext (pp_public_key (pf_proof demo_proof)) (trim demo_key_text) (pf_chain_id demo_proof)
    (pp_root (pf_proof demo_proof)) (pp_chain_head (pf_proof demo_proof)) (pp_signature (pf_proof demo_proof)) = SigValid"
proof -
  have parts: "pp_public_key (pf_proof demo_proof) = demo_key_text" "pf_chain_id demo_proof = ''c''"
    "pp_root (pf_proof demo_proof) = ''r''" "pp_chain_head (pf_proof demo_proof) = ''e''"
    "pp_signature (pf_proof demo_proof) = sign_root demo_ext demo_signer ''c'' ''r'' ''e''"
    by (simp_all add: demo_proof_def demo_proof_json_def demo_leaf_json_def read_proof_file_def need_def read_payload_def
        maybe_def read_leaf_def)
  have "trim demo_key_text = demo_key_text"
    by (rule trim_hex) (simp add: demo_key_text_def public_key_hex_def demo_ext_def demo_hex_lower)
  then show ?thesis
    using verify_sign [of demo_ext demo_signer "''c''" "''r''" "''e''"] demo_ext_ok demo_signer_ok
    by (simp add: parts classify_valid_iff demo_key_text_def ext_ok_def)
qed

lemma demo_project_valid:
  "ap_verification_complete (gw_app demo_verified) \<and> ap_verify_status (gw_app demo_verified) = VerifyValid"
proof -
  have names: "join_path ''/h/Evident Projects'' ''p'' = ''/h/Evident Projects/p''"
    "join_path ''/h/Evident Projects/p'' ''proofs'' = ''/h/Evident Projects/p/proofs''" by code_simp+
  have uuid: "x_uuid_parse demo_ext (x_uuid_str demo_ext 3) = Some 3"
    using demo_ext_ok by (simp add: ext_ok_def uuid_ok_def)
  have key: "trusted_key demo_desk w = (Some (trim demo_key_text), w)" if "gw_fs w = demo_desk_files" for w
    by (rule trusted_key_pinned [where home = "''/h''"]) (simp_all add: that pinned_def demo_pinned demo_desk_def)
  have fs: "gw_fs demo_listed = demo_desk_files" by (simp add: demo_listed_def demo_desktop_def)
  show ?thesis
    by (simp add: demo_verified_def verify_project_def Let_def demo_projects_dir names demo_project_loads fs uuid
        check_signature_def verify_local_def demo_proof_loads demo_local key demo_signed set_status_def set_verify_outcome_def
        set_outcome_def on_app_def)
qed

section \<open>The promises\<close>

text \<open>C18: what the desktop program calls valid.  Start anywhere with a pinned server key, and let the user and the jobs do
  what they like, short of the button that replaces the key and of saving a copy over it.  Then the key is still the
  pinned one, and when a project opens with the verdict \<open>valid\<close>, its proof was read from disk, names the pinned key, bears
  its signature over the chain, the root and the head, its events form one line of parents, and every registered copy
  that can be read has the hash of its event.\<close>

lemma valid_verdict_is_signed:
  assumes "gui_run x acts w = Some w1" "read_text (gw_fs w) (pin_path home) = Some key"
    and "list_all (\<lambda>(v, act). ge_home_dir v = Some home \<and> spares_key home act) acts" "ge_home_dir v = Some home"
    and "press x v (BtnOpenProject p) w1 = Some w2"
    and "ap_verification_complete (gw_app w2)" "ap_verify_status (gw_app w2) = VerifyValid"
  shows "read_text (gw_fs w1) (pin_path home) = Some key \<and>
     (\<exists>dir pf. projects_dir v = Inr dir \<and> load_local_proof v (join_path (join_path dir p) ''proofs'') (gw_fs w1) = Some pf \<and>
        normalize_public_key_hex (pp_public_key (pf_proof pf)) = normalize_public_key_hex (trim key) \<and>
        verify_root x (pf_chain_id pf) (pp_root (pf_proof pf)) (pp_chain_head (pf_proof pf)) (pp_signature (pf_proof pf))
          (normalize_public_key_hex (trim key)) \<and>
        parents_chained (sort_key (\<lambda>e. sint (el_sequence e)) (pf_events pf)) \<and>
        (\<forall>e path bytes. e \<in> set (pf_events pf) \<longrightarrow>
           load_local_copies v (join_path (join_path dir p) ''proofs'') (gw_fs w1) (el_event_id e) = Some path \<longrightarrow>
           fs_read (gw_fs w1) path = Some bytes \<longrightarrow> sha_hex x bytes = el_file_hash e))"
proof -
  have pin: "pinned home key (gw_fs w1)" using run_pin [OF assms(1) _ assms(3)] assms(2) by (simp add: pinned_def)
  let ?w = "on_app (\<lambda>a. a\<lparr> ap_selected_project := p \<rparr>) w1"
  have "w2 = verify_project x v ?w"
    using assms(5) by (auto simp: press_def press_panel_def press_backup_row_def press_file_def press_result_def Let_def split: if_splits)
  then have outcome: "ap_verify_status (gw_app (verify_project x v ?w)) = VerifyValid"
    "ap_verification_complete (gw_app (verify_project x v ?w))" using assms(6,7) by simp_all
  have kept: "pinned home key (gw_fs ?w)" using pin by simp
  have sel: "ap_selected_project (gw_app ?w) = p" "gw_fs ?w = gw_fs w1" by (simp_all add: on_app_def)
  obtain dir proofs pf where l: "projects_dir v = Inr dir" "proofs = join_path (join_path dir p) ''proofs''"
    "load_local_proof v proofs (gw_fs w1) = Some pf"
    "local_outcome (build_local_events x v pf proofs (gw_fs w1)) = (VerifyValid, ProofValid)"
    "classify_signature x (pp_public_key (pf_proof pf)) (trim key) (pf_chain_id pf) (pp_root (pf_proof pf))
       (pp_chain_head (pf_proof pf)) (pp_signature (pf_proof pf)) = SigValid"
    by (rule verify_valid [OF outcome assms(4) kept, unfolded sel]) (rule that)
  let ?es = "local_events x (gw_fs w1) (load_local_copies v proofs (gw_fs w1)) nil_parent
    (sort_key (\<lambda>e. sint (el_sequence e)) (pf_events pf))"
  have "list_all ve_valid ?es" and copies: "\<not> list_ex (\<lambda>e. ve_local_integrity_ok e = Some False) ?es"
    using l(4) by (auto simp: local_outcome_def build_local_events_def split: if_splits)
  then have "parents_chained (sort_key (\<lambda>e. sint (el_sequence e)) (pf_events pf))"
    by (simp add: parents_chained_def local_events_valid)
  then show ?thesis
    using l local_events_copies [OF copies] pin by (auto simp: classify_valid_iff pinned_def)
qed

lemma valid_verdict_is_signed_witness:
  "\<exists>dir pf. projects_dir demo_desk = Inr dir \<and>
     load_local_proof demo_desk (join_path (join_path dir ''p'') ''proofs'') demo_desk_files = Some pf \<and>
     verify_root demo_ext (pf_chain_id pf) (pp_root (pf_proof pf)) (pp_chain_head (pf_proof pf)) (pp_signature (pf_proof pf))
       (normalize_public_key_hex (trim demo_key_text)) \<and>
     parents_chained (sort_key (\<lambda>e. sint (el_sequence e)) (pf_events pf))"
proof -
  have "read_text (gw_fs demo_desktop) (pin_path ''/h'') = Some demo_key_text"
    using demo_pinned by (simp add: demo_desktop_def)
  moreover have "list_all (\<lambda>(v, act). ge_home_dir v = Some ''/h'' \<and> spares_key ''/h'' act) demo_opens"
    by (simp add: demo_opens_def demo_desk_def spares_key_def)
  moreover have "ge_home_dir demo_desk = Some ''/h''" by (simp add: demo_desk_def)
  moreover have "gw_fs demo_listed = demo_desk_files" by (simp add: demo_listed_def demo_desktop_def)
  ultimately show ?thesis
    using valid_verdict_is_signed [OF demo_opens_runs _ _ _ demo_project_opens, of "''/h''" demo_key_text] demo_project_valid
    by auto
qed

text \<open>C35: the dashboard, the browser, the desktop program and the server agree on a token.  The program names its callback
  page, the signed-in user allows it on the dashboard, the browser follows the redirect to the port the program listens
  on, and the program reads the request's first line: what it then keeps in the key chain is the token that was issued,
  what it reads from there later is the same, and the server resolves a request under it, for thirty days, to the account
  of that user.\<close>

lemma issued_token_authenticates:
  assumes "credentials_ok d" "hex_ok x" "length secret = 16"
    and "connect_form x now clock fresh secret acc (Some (connect_redirect port)) d = (Inr (RedirectTo target), d')"
    and "target = ''http://127.0.0.1:'' @ digits port @ path" "length path + 15 \<le> 4096"
    and "ge_heard v = Inr (callback_request path headers)" "ge_keychain_ok v" "at < clock + 30 * day"
  shows "\<exists>token. snd (run_connect v chain) = Some token \<and> load_token_from_keychain (Some token) = Some token \<and>
     fst (resolve_authed_account x at (rq_authorization (authed (authed_client v (Some token)) (http_get url))) None d') =
       Inr \<lparr> auth_account_id = acc, auth_key_hash = hash_secret_hex x (x_hex_encode x secret) \<rparr>"
  by (rule issued_token_arrives [OF assms])

definition demo_grant :: "(ApiError + connect_answer) \<times> db" where
  "demo_grant = connect_form demo_ext 5 5 77 (replicate 16 4) 1 (Some (connect_redirect 80)) demo_db"

definition demo_callback :: string where
  "demo_callback = ''/callback?token='' @ percent_encode (fst (generate_desktop_token demo_ext (replicate 16 4))) @
     ''&expires_at='' @ percent_encode (x_rfc3339 demo_ext (5 + 30 * day))"

definition demo_heard :: gui_env where
  "demo_heard = demo_desk\<lparr> ge_heard := Inr (callback_request demo_callback []) \<rparr>"

lemma demo_redirect: "connect_redirect 80 = ''http://127.0.0.1:80/callback''"
  "trim ''http://127.0.0.1:80/callback'' = ''http://127.0.0.1:80/callback''"
  "is_allowed_redirect_uri ''http://127.0.0.1:80/callback''" "digits 80 = ''80''"
  by code_simp+

lemma demo_granted: "demo_grant = (Inr (RedirectTo (''http://127.0.0.1:'' @ digits 80 @ demo_callback)), snd demo_grant)"
  by (simp add: demo_grant_def connect_form_def create_desktop_token_def demo_redirect demo_callback_def append_query_def
      Let_def demo_db_def demo_account_def split: prod.split)

lemma percent_length: "length (percent_encode s) \<le> 3 * length s"
  by (induction s) (auto simp: percent_encode_def percent_byte_def Let_def)

lemma demo_callback_short: "length demo_callback + 15 \<le> 4096"
proof -
  have "length (fst (generate_desktop_token demo_ext (replicate 16 4))) < 50" "length (x_rfc3339 demo_ext (5 + 30 * day)) < 50"
    by (simp_all add: generate_desktop_token_def demo_ext_def demo_rfc3339_def desktop_token_prefix_def Let_def)
  then show ?thesis
    using percent_length [of "fst (generate_desktop_token demo_ext (replicate 16 4))"]
      percent_length [of "x_rfc3339 demo_ext (5 + 30 * day)"]
    by (simp add: demo_callback_def)
qed

lemma issued_token_authenticates_witness:
  "\<exists>token. snd (run_connect demo_heard None) = Some token \<and>
     fst (resolve_authed_account demo_ext 6 (rq_authorization (authed (authed_client demo_heard (Some token)) (http_get ''/v1/me'')))
       None (snd demo_grant)) =
       Inr \<lparr> auth_account_id = 1, auth_key_hash = hash_secret_hex demo_ext (x_hex_encode demo_ext (replicate 16 4)) \<rparr>"
proof -
  have "credentials_ok demo_db" by (simp add: credentials_ok_def demo_db_def)
  moreover have "ge_heard demo_heard = Inr (callback_request demo_callback [])" "ge_keychain_ok demo_heard"
    by (simp_all add: demo_heard_def demo_desk_def)
  moreover have "6 < 5 + 30 * day" by (simp add: day_def)
  ultimately show ?thesis
    using issued_token_authenticates [OF _ demo_hex_ok _ demo_granted [unfolded demo_grant_def] HOL.refl demo_callback_short, of demo_heard "[]" 6]
    by (auto simp: demo_grant_def)
qed

text \<open>C17: the desktop program never loses count of its jobs.  From its start, however the user's clicks, the jobs of the
  worker threads and the frames interleave, exactly one commit is running or waits to be shown while the program says
  that it commits, and none otherwise; the same holds of the verification by the server; and the verdict on the screen
  agrees with the explanation below it.\<close>

lemma desktop_counts_its_jobs:
  assumes "(gui_step x)\<^sup>*\<^sup>* (gui_start v fs chain) w"
  shows "length (filter commits (gw_tasks w)) + length (filter commit_answer (gw_queue w)) =
       (if ap_loading_commit (gw_app w) then 1 else 0) \<and>
     length (filter verifies (gw_tasks w)) + length (filter verify_answer (gw_queue w)) =
       (if ap_loading_verify_chain (gw_app w) then 1 else 0) \<and>
     (ap_verify_status (gw_app w) = VerifyValid \<longleftrightarrow> ap_verify_details (gw_app w) = ProofValid) \<and>
     (ap_verify_details (gw_app w) = Verifying \<longrightarrow> ap_verify_status (gw_app w) = VerifyNone)"
proof -
  have "desktop_ok w" by (rule desktop.run_inv [OF assms gui_start_ok])
  then show ?thesis
    by (auto simp: desktop_ok_def outcome_ok_def in_flight_ok_def flights_def number_def Let_def split: VerifyStatus.splits)
qed

lemma gui_run_steps: "gui_run x acts w = Some w' \<Longrightarrow> (gui_step x)\<^sup>*\<^sup>* w w'"
proof (induction x acts w rule: gui_run.induct)
  case (2 x v act acts w)
  then obtain w1 where "gui_act x v act w = Some w1" "gui_run x acts w1 = Some w'" by (auto simp: bind_eq_Some_conv)
  then show ?case using 2 by (auto intro: converse_rtranclp_into_rtranclp acted)
qed simp

definition demo_clicks :: "(gui_env \<times> GuiAct) list" where
  "demo_clicks = map (Pair demo_desk) [Press (BtnPickFile ''/f''), Press BtnComputeHash, Work 0, Frame, Press BtnCreateProof,
     Press (BtnMode ExistingProject), Press (BtnProject ''p''), Press BtnCommit]"

lemma demo_commit_runs:
  "\<exists>w. gui_run demo_ext demo_clicks (gui_start demo_desk demo_desk_files (Some ''desktop_t'')) = Some w \<and> ap_loading_commit (gw_app w)"
proof -
  have uuid: "x_uuid_parse demo_ext (x_uuid_str demo_ext 3) = Some 3"
    using demo_ext_ok by (simp add: ext_ok_def uuid_ok_def)
  have me: "fetch_me (ge_network demo_desk) c = Inr (JObject [(''email'', JString ''a@x.io'')])" for c
    by (simp add: fetch_me_def demo_desk_def demo_send_def checked_reply_def reply_json_def demo_desk_parse_def is_success_def ok_or_def)
  have texts: "me_texts (JObject [(''email'', JString ''a@x.io'')]) = (''a@x.io'', [])" by code_simp
  have mkdir: "fs_mkdir_ok demo_desk_files f" for f by (simp add: demo_desk_files_def demo_everywhere_def)
  have start: "gui_start demo_desk demo_desk_files (Some ''desktop_t'') = demo_desktop\<lparr> gw_app := (gw_app demo_desktop)\<lparr>
      ap_connect := (ap_connect (gw_app demo_desktop))\<lparr> cp_connected_email := ''a@x.io'' \<rparr> \<rparr> \<rparr>"
    by (simp add: gui_start_def demo_projects_dir refresh_auth_from_keychain_def load_token_from_keychain_def me texts mkdir
        on_connect_def on_app_def demo_desktop_def default_app_def)
  have content: "fs_read demo_desk_files ''/f'' = Some [1]"
    by (simp add: fs_read_def demo_desk_files_def demo_everywhere_def)
  have hash: "sha_hex demo_ext [1] \<noteq> []" by code_simp
  have name: "path_file_name ''/f'' = Some ''f''" by code_simp
  have names: "join_path ''/h/Evident Projects'' ''p'' = ''/h/Evident Projects/p''" by code_simp
  show ?thesis
    unfolding start demo_clicks_def
    by (simp add: demo_desktop_def default_app_def gui_act_def frame_start_def connect_gate_def connected_def run_nth_def
        press_def press_panel_def press_backup_row_def press_file_def Let_def load_projects_def demo_projects_dir to_screen_def
        on_app_def spawn_def demo_project_list content hash name names do_commit_def ensure_project_layout_def mkdir commit_chain_id_def
        demo_project_loads start_commit_def uuid set_status_def)
qed

lemma desktop_counts_its_jobs_witness:
  "\<exists>w. (gui_step demo_ext)\<^sup>*\<^sup>* (gui_start demo_desk demo_desk_files (Some ''desktop_t'')) w \<and>
     ap_loading_commit (gw_app w) \<and> length (filter commits (gw_tasks w)) + length (filter commit_answer (gw_queue w)) = 1"
proof -
  obtain w where w: "(gui_step demo_ext)\<^sup>*\<^sup>* (gui_start demo_desk demo_desk_files (Some ''desktop_t'')) w"
    "ap_loading_commit (gw_app w)"
    using demo_commit_runs gui_run_steps by blast
  with desktop_counts_its_jobs [OF w(1)] show ?thesis by auto
qed

end
