(* ===== verification/TimestampJobs.thy ===== *)
theory TimestampJobs
  imports Tsa Fixation
begin

text \<open>
  Jobs for the time stamps of bundles: \<open>src/tsa/attest.rs\<close> (the offline attestation),
  \<open>src/tsa/job_store.rs\<close> (the trait \<open>TsaJobStore\<close>, its store on the file system and the worker's step) and
  \<open>src/tsa/writer.rs\<close> (attestations as files).  \<open>serde\<close>'s texts are parameters.  The locale states what the worker
  needs of a store; the store on the file system interprets it.
\<close>

section \<open>Attestations without a provider\<close>

definition stub_token_json :: "string \<Rightarrow> string \<Rightarrow> string" where
  "stub_token_json bundle_hash provider = (let q = [CHR 0x22] in
     ''{'' @ q @ ''stub'' @ q @ '':true,'' @ q @ ''sha256'' @ q @ '':'' @ q @ bundle_hash @ q @ '','' @
     q @ ''provider'' @ q @ '':'' @ q @ provider @ q @ ''}'')"

definition create_stub_attestation :: "ext \<Rightarrow> i64 \<Rightarrow> string \<Rightarrow> string \<Rightarrow> TsaAttestation" where
  "create_stub_attestation x unix_now bundle_hash provider =
     \<lparr> ta_provider = provider, ta_timestamp = unix_now, ta_tsr_hash = bundle_hash, ta_signature_valid = True,
       ta_raw_token_b64 = x_b64_encode x (str_bytes (stub_token_json bundle_hash provider)),
       ta_trust_level = Stub \<rparr>"

definition submit_bundle_hash_stub :: "ext \<Rightarrow> i64 \<Rightarrow> string \<Rightarrow> string \<Rightarrow> string + TsaAttestation" where
  "submit_bundle_hash_stub x unix_now bundle_hash provider =
     Inr (create_stub_attestation x unix_now bundle_hash provider)"

definition tsr_content_hash :: "ext \<Rightarrow> string \<Rightarrow> string" where
  "tsr_content_hash x raw_token_b64 = sha_hex x (str_bytes raw_token_b64)"

section \<open>Jobs\<close>

datatype TsaJobState = JobPending | JobSent | JobVerified | JobFailed

record TsaJob =
  tj_repo :: string
  tj_bundle_hash :: string
  tj_state :: TsaJobState
  tj_attestation :: "TsaAttestation option"
  tj_error :: "string option"

datatype job_error = InvalidRepo | JobReadFailed | JobParseFailed | JobDirFailed | JobWriteFailed | JobRenameFailed

definition new_job :: "string \<Rightarrow> string \<Rightarrow> TsaJob" where
  "new_job repo bundle_hash = \<lparr> tj_repo = repo, tj_bundle_hash = bundle_hash, tj_state = JobPending,
     tj_attestation = None, tj_error = None \<rparr>"

definition parse_repo_full_name :: "string \<Rightarrow> job_error + string \<times> string" where
  "parse_repo_full_name full_name = (case split_once (CHR ''/'') full_name of
     None \<Rightarrow> Inl InvalidRepo
   | Some (owner, repo) \<Rightarrow> if owner = [] \<or> repo = [] then Inl InvalidRepo else Inr (owner, repo))"

text \<open>The store: its root, the files, and the two directions of \<open>serde\<close> for a job file.\<close>

record job_store_state =
  js_root :: string
  js_enc :: "TsaJob list \<Rightarrow> byte list"
  js_dec :: "byte list \<Rightarrow> TsaJob list option"
  js_fs :: filesystem

definition job_file_path :: "string \<Rightarrow> string \<Rightarrow> job_error + string" where
  "job_file_path root repo = bind_res (parse_repo_full_name repo) (\<lambda>(owner, name).
     Inr (join_path (join_path (join_path (join_path root owner) name) ''.audit'') ''tsa-jobs.json''))"

definition load_file :: "string \<Rightarrow> job_store_state \<Rightarrow> job_error + TsaJob list" where
  "load_file repo s = bind_res (job_file_path (js_root s) repo) (\<lambda>path.
     case fs_file (js_fs s) path of
       None \<Rightarrow> Inr []
     | Some content \<Rightarrow>
         if \<not> fs_readable (js_fs s) path \<or> \<not> is_utf8 content then Inl JobReadFailed
         else ok_or JobParseFailed (js_dec s content))"

text \<open>A rename needs the right to write the target, and takes the temporary file away.\<close>

definition save_file :: "string \<Rightarrow> TsaJob list \<Rightarrow> job_store_state \<Rightarrow> (job_error + unit) \<times> job_store_state" where
  "save_file repo jobs s = (case job_file_path (js_root s) repo of Inl e \<Rightarrow> (Inl e, s) | Inr path \<Rightarrow>
     (let fs = js_fs s; tmp = path @ ''.tmp'' in
      if (case fs_parent fs path of Some parent \<Rightarrow> \<not> fs_mkdir_ok fs parent | None \<Rightarrow> False) then (Inl JobDirFailed, s)
      else if \<not> fs_write_ok fs tmp then (Inl JobWriteFailed, s)
      else if \<not> fs_write_ok fs path
        then (Inl JobRenameFailed, s\<lparr> js_fs := fs\<lparr> fs_file := (fs_file fs)(tmp \<mapsto> js_enc s jobs) \<rparr> \<rparr>)
      else (Inr (), s\<lparr> js_fs := fs\<lparr> fs_file := (fs_file fs)(tmp := None, path \<mapsto> js_enc s jobs) \<rparr> \<rparr>)))"

definition get_job :: "job_store_state \<Rightarrow> string \<Rightarrow> string \<Rightarrow> job_error + TsaJob option" where
  "get_job s repo bundle_hash = bind_res (load_file repo s) (\<lambda>jobs.
     Inr (find (\<lambda>j. tj_bundle_hash j = bundle_hash) jobs))"

text \<open>\<open>iter_mut().find\<close> replaces the first job of the bundle.\<close>

fun put_job :: "TsaJob \<Rightarrow> TsaJob list \<Rightarrow> TsaJob list" where
  "put_job job [] = [job]"
| "put_job job (j # js) = (if tj_bundle_hash j = tj_bundle_hash job then job # js else j # put_job job js)"

definition save_job :: "TsaJob \<Rightarrow> job_store_state \<Rightarrow> (job_error + unit) \<times> job_store_state" where
  "save_job job s = (case load_file (tj_repo job) s of
     Inl e \<Rightarrow> (Inl e, s) | Inr jobs \<Rightarrow> save_file (tj_repo job) (put_job job jobs) s)"

text \<open>\<open>TsaJobStore::enqueue\<close>, over the two other operations of the trait.\<close>

definition enqueue :: "(TsaJob \<Rightarrow> 's \<Rightarrow> ('e + unit) \<times> 's) \<Rightarrow> string \<Rightarrow> string \<Rightarrow> 's \<Rightarrow> ('e + TsaJob) \<times> 's" where
  "enqueue save repo bundle_hash s = (let job = new_job repo bundle_hash in
     case save job s of (Inl e, s') \<Rightarrow> (Inl e, s') | (Inr _, s') \<Rightarrow> (Inr job, s'))"

section \<open>The worker\<close>

text \<open>What follows the attempt: the job is saved as verified or as failed.\<close>

definition finish_job ::
  "(TsaJob \<Rightarrow> 's \<Rightarrow> ('e + unit) \<times> 's) \<Rightarrow> TsaJob \<Rightarrow> string + TsaAttestation \<Rightarrow> 's \<Rightarrow> ('e + TsaAttestation option) \<times> 's" where
  "finish_job save job outcome s = (case outcome of
     Inr attestation \<Rightarrow>
       (case save (job\<lparr> tj_state := JobVerified, tj_attestation := Some attestation, tj_error := None \<rparr>) s of
          (Inl e, s') \<Rightarrow> (Inl e, s') | (Inr _, s') \<Rightarrow> (Inr (Some attestation), s'))
   | Inl err \<Rightarrow>
       (case save (job\<lparr> tj_state := JobFailed, tj_error := Some err \<rparr>) s of
          (Inl e, s') \<Rightarrow> (Inl e, s') | (Inr _, s') \<Rightarrow> (Inr None, s')))"

definition process_job ::
  "('s \<Rightarrow> string \<Rightarrow> string \<Rightarrow> 'e + TsaJob option) \<Rightarrow> (TsaJob \<Rightarrow> 's \<Rightarrow> ('e + unit) \<times> 's) \<Rightarrow> ext \<Rightarrow> i64 \<Rightarrow> string \<Rightarrow> string \<Rightarrow> string
    \<Rightarrow> 's \<Rightarrow> ('e + TsaAttestation option) \<times> 's" where
  "process_job get save x unix_now repo bundle_hash provider s =
     (case get s repo bundle_hash of Inl e \<Rightarrow> (Inl e, s) | Inr found \<Rightarrow>
     (let job = (case found of Some j \<Rightarrow> j | None \<Rightarrow> new_job repo bundle_hash)\<lparr> tj_state := JobSent \<rparr> in
      case save job s of (Inl e, s') \<Rightarrow> (Inl e, s') | (Inr _, s') \<Rightarrow>
        finish_job save job (submit_bundle_hash_stub x unix_now bundle_hash provider) s'))"

definition process_pending_job ::
  "ext \<Rightarrow> i64 \<Rightarrow> string \<Rightarrow> string \<Rightarrow> string \<Rightarrow> job_store_state \<Rightarrow> (job_error + TsaAttestation option) \<times> job_store_state" where
  "process_pending_job = process_job get_job save_job"

section \<open>Attestations as files\<close>

definition attestation_path :: "string \<Rightarrow> string \<Rightarrow> string \<Rightarrow> job_error + string" where
  "attestation_path root repo bundle_hash = bind_res (parse_repo_full_name repo) (\<lambda>(owner, name).
     Inr (join_path (join_path (join_path (join_path (join_path root owner) name) ''.audit'') ''tsa'')
       (bundle_hash @ ''.json'')))"

definition write_attestation ::
  "(string \<times> TsaAttestation \<Rightarrow> byte list) \<Rightarrow> string \<Rightarrow> string \<Rightarrow> string \<Rightarrow> TsaAttestation \<Rightarrow> filesystem
    \<Rightarrow> (job_error + string) \<times> filesystem" where
  "write_attestation enc root repo bundle_hash attestation fs =
     (case attestation_path root repo bundle_hash of Inl e \<Rightarrow> (Inl e, fs) | Inr path \<Rightarrow>
      if (case fs_parent fs path of Some parent \<Rightarrow> \<not> fs_mkdir_ok fs parent | None \<Rightarrow> False) then (Inl JobDirFailed, fs)
      else if \<not> fs_write_ok fs path then (Inl JobWriteFailed, fs)
      else (Inr path, fs\<lparr> fs_file := (fs_file fs)(path \<mapsto> enc (bundle_hash, attestation)) \<rparr>))"

section \<open>What the worker needs of a store\<close>

locale job_store =
  fixes get :: "'s \<Rightarrow> string \<Rightarrow> string \<Rightarrow> 'e + TsaJob option"
    and save :: "TsaJob \<Rightarrow> 's \<Rightarrow> ('e + unit) \<times> 's"
    and ok :: "'s \<Rightarrow> bool"
  assumes ok_save: "ok s \<Longrightarrow> ok (snd (save j s))"
    and get_saved: "ok s \<Longrightarrow> save j s = (Inr (), s') \<Longrightarrow> get s' (tj_repo j) (tj_bundle_hash j) = Inr (Some j)"
    and get_other: "ok s \<Longrightarrow> save j s = (Inr (), s') \<Longrightarrow> h \<noteq> tj_bundle_hash j \<Longrightarrow> get s' (tj_repo j) h = get s (tj_repo j) h"
    and get_failed: "ok s \<Longrightarrow> save j s = (Inl e, s') \<Longrightarrow> get s' repo h = get s repo h"
    and get_key: "get s repo h = Inr (Some j) \<Longrightarrow> tj_bundle_hash j = h"
begin

lemma enqueue_pending:
  assumes "ok s" "enqueue save repo h s = (Inr j, s')"
  shows "get s' repo h = Inr (Some j) \<and> tj_state j = JobPending"
proof -
  have j: "j = new_job repo h" "save j s = (Inr (), s')"
    using assms(2) by (auto simp: enqueue_def Let_def split: prod.splits sum.splits)
  then show ?thesis using get_saved [OF assms(1) j(2)] by (simp add: new_job_def)
qed

text \<open>A step that returns has left the bundle's job verified, with the attestation it returned; since the offline
  attempt cannot fail, it never leaves the job failed.  The other jobs of the repository are as they were.\<close>

lemma process_verifies:
  assumes "ok s" "process_job get save x now repo h provider s = (Inr r, s')"
    and "\<And>j. get s repo h = Inr (Some j) \<Longrightarrow> tj_repo j = repo"
  shows "\<exists>j. get s' repo h = Inr (Some j) \<and> tj_state j = JobVerified \<and> tj_attestation j = r \<and> tj_error j = None \<and>
     r = Some (create_stub_attestation x now h provider)"
    "k \<noteq> h \<Longrightarrow> get s' repo k = get s repo k"
proof -
  let ?a = "create_stub_attestation x now h provider"
  obtain found where found: "get s repo h = Inr found"
    using assms(2) by (auto simp: process_job_def split: sum.splits)
  define job where "job = (case found of Some j \<Rightarrow> j | None \<Rightarrow> new_job repo h)\<lparr> tj_state := JobSent \<rparr>"
  have key: "tj_repo job = repo" "tj_bundle_hash job = h"
    using assms(3) get_key found by (auto simp: job_def new_job_def split: option.splits)
  obtain s1 where s1: "save job s = (Inr (), s1)"
    and fin: "finish_job save job (Inr ?a) s1 = (Inr r, s')"
    using assms(2) found
    by (auto simp: process_job_def submit_bundle_hash_stub_def job_def [symmetric] Let_def split: prod.splits sum.splits)
  let ?done = "job\<lparr> tj_state := JobVerified, tj_attestation := Some ?a, tj_error := None \<rparr>"
  have ok1: "ok s1" using ok_save [OF assms(1), of job] s1 by simp
  have s': "save ?done s1 = (Inr (), s')" "r = Some ?a"
    using fin by (auto simp: finish_job_def split: prod.splits sum.splits)
  show "\<exists>j. get s' repo h = Inr (Some j) \<and> tj_state j = JobVerified \<and> tj_attestation j = r \<and> tj_error j = None \<and> r = Some ?a"
    using get_saved [OF ok1 s'(1)] key s'(2) by simp
  show "get s' repo k = get s repo k" if "k \<noteq> h"
    using get_other [OF ok1 s'(1), of k] get_other [OF assms(1) s1, of k] key that by simp
qed

text \<open>A step whose last save fails leaves the job sent.\<close>

lemma process_stays_sent:
  assumes "ok s" "process_job get save x now repo h provider s = (Inl e, s')"
    and "\<And>j. get s repo h = Inr (Some j) \<Longrightarrow> tj_repo j = repo"
  shows "get s' repo h = get s repo h \<or> (\<exists>j. get s' repo h = Inr (Some j) \<and> tj_state j = JobSent)"
proof (cases "get s repo h")
  case (Inl e')
  then show ?thesis using assms(2) by (simp add: process_job_def)
next
  case (Inr found)
  define job where "job = (case found of Some j \<Rightarrow> j | None \<Rightarrow> new_job repo h)\<lparr> tj_state := JobSent \<rparr>"
  have key: "tj_repo job = repo" "tj_bundle_hash job = h"
    using assms(3) get_key Inr by (auto simp: job_def new_job_def split: option.splits)
  let ?done = "job\<lparr> tj_state := JobVerified, tj_attestation := Some (create_stub_attestation x now h provider), tj_error := None \<rparr>"
  consider "save job s = (Inl e, s')" | s1 where "save job s = (Inr (), s1)" "save ?done s1 = (Inl e, s')"
    using assms(2) Inr
    by (auto simp: process_job_def finish_job_def submit_bundle_hash_stub_def job_def [symmetric] Let_def
        split: prod.splits sum.splits)
  then show ?thesis
  proof cases
    case 1
    then show ?thesis using get_failed [OF assms(1) 1] by simp
  next
    case 2
    have "ok s1" using ok_save [OF assms(1), of job] 2(1) by simp
    then have "get s' repo h = Inr (Some job)"
      using get_failed [OF _ 2(2), of repo h] get_saved [OF assms(1) 2(1)] key by simp
    then show ?thesis by (simp add: job_def)
  qed
qed

end

section \<open>The store on the file system\<close>

definition job_codec_ok :: "job_store_state \<Rightarrow> bool" where
  "job_codec_ok s \<longleftrightarrow> (\<forall>js. js_dec s (js_enc s js) = Some js \<and> is_utf8 (js_enc s js)) \<and>
     (\<forall>path. fs_readable (js_fs s) path)"

lemma find_put_job: "find (\<lambda>j. tj_bundle_hash j = h) (put_job job js) =
    (if h = tj_bundle_hash job then Some job else find (\<lambda>j. tj_bundle_hash j = h) js)"
  by (induction js) auto

text \<open>No job file has the name of a temporary file.\<close>

lemma not_temporary: "job_file_path root repo = Inr path \<Longrightarrow> path \<noteq> q @ ''.tmp''"
  by (auto simp: job_file_path_def bind_res_Inr dest!: arg_cong [where f = last])

lemma save_file_load:
  assumes "job_codec_ok s" "save_file repo js s = (Inr (), s')"
  shows "load_file repo s' = Inr js"
  using assms not_temporary
  by (auto simp: save_file_def load_file_def job_codec_ok_def Let_def split: sum.splits if_splits option.splits)

lemma save_file_error:
  assumes "save_file repo js s = (Inl e, s')"
  shows "load_file repo' s' = load_file repo' s"
  using assms not_temporary
  by (auto simp: save_file_def load_file_def Let_def bind_res_def split: sum.splits if_splits option.split)

lemma save_file_codec: "job_codec_ok s \<Longrightarrow> job_codec_ok (snd (save_file repo js s))"
  by (auto simp: save_file_def job_codec_ok_def Let_def split: sum.splits)

interpretation file_jobs: job_store get_job save_job job_codec_ok
proof unfold_locales
  fix s j
  assume "job_codec_ok s"
  then show "job_codec_ok (snd (save_job j s))" by (simp add: save_job_def save_file_codec split: sum.split)
next
  fix s j s'
  assume "job_codec_ok s" "save_job j s = (Inr (), s')"
  then show "get_job s' (tj_repo j) (tj_bundle_hash j) = Inr (Some j)"
    using save_file_load by (auto simp: save_job_def get_job_def find_put_job split: sum.splits)
next
  fix s j s' h
  assume "job_codec_ok s" "save_job j s = (Inr (), s')" "h \<noteq> tj_bundle_hash j"
  then show "get_job s' (tj_repo j) h = get_job s (tj_repo j) h"
    using save_file_load by (auto simp: save_job_def get_job_def find_put_job split: sum.splits)
next
  fix s j e s' repo h
  assume "save_job j s = (Inl e, s')"
  then show "get_job s' repo h = get_job s repo h"
    using save_file_error by (auto simp: save_job_def get_job_def split: sum.splits)
next
  fix s repo h j
  assume "get_job s repo h = Inr (Some j)"
  then show "tj_bundle_hash j = h" by (auto simp: get_job_def bind_res_Inr dest: find_SomeD)
qed

text \<open>The job of a repository and a bundle, once enqueued and processed.\<close>

lemma enqueued_job_is_verified:
  assumes "job_codec_ok s" "enqueue save_job repo h s = (Inr j, s1)"
    and "process_pending_job x now repo h provider s1 = (Inr r, s2)"
  shows "\<exists>done. get_job s2 repo h = Inr (Some done) \<and> tj_state done = JobVerified \<and> tj_attestation done = r \<and>
     r = Some (create_stub_attestation x now h provider)"
proof -
  have j: "get_job s1 repo h = Inr (Some j)" using file_jobs.enqueue_pending [OF assms(1,2)] by simp
  have "job_codec_ok s1" "j = new_job repo h"
    using assms(2) file_jobs.ok_save [OF assms(1), of "new_job repo h"]
    by (auto simp: enqueue_def Let_def split: prod.splits sum.splits)
  then show ?thesis
    using file_jobs.process_verifies(1) [OF _ assms(3) [unfolded process_pending_job_def]] j by (auto simp: new_job_def)
qed

section \<open>The attestation\<close>

lemma str_contains_append: "str_contains (a @ p @ b) p"
proof (induction a)
  case Nil
  have "prefix p (p @ b)" by simp
  then show ?case by (cases "p @ b") (simp_all del: append_eq_Cons_conv)
qed simp

text \<open>An offline attestation verifies for the bundle it names.\<close>

lemma stub_attestation_verifies:
  assumes "b64_ok x" "valid_utf8 (str_bytes (stub_token_json h provider))" "\<And>b. b \<noteq> [] \<Longrightarrow> x_b64_encode x b \<noteq> []"
  shows "verify_tsa_attestation x (create_stub_attestation x now h provider) h = TsaVerified"
    "h' \<noteq> h \<Longrightarrow> verify_tsa_attestation x (create_stub_attestation x now h provider) h' = TsaFailed"
proof -
  let ?t = "stub_token_json h provider"
  have "?t = ''{'' @ stub_marker @ drop 12 ?t" by (simp add: stub_token_json_def stub_marker_def Let_def)
  then have "str_contains ?t stub_marker" using str_contains_append [of "''{''" stub_marker "drop 12 ?t"] by simp
  moreover have "\<exists>a b. ?t = a @ h @ b"
    by (intro exI [of _ "''{'' @ stub_marker @ '','' @ [CHR 0x22] @ ''sha256'' @ [CHR 0x22] @ '':'' @ [CHR 0x22]"]
        exI [of _ "[CHR 0x22] @ '','' @ [CHR 0x22] @ ''provider'' @ [CHR 0x22] @ '':'' @ [CHR 0x22] @ provider @ [CHR 0x22] @ ''}''"]) (simp add: stub_token_json_def stub_marker_def Let_def)
  then have "str_contains ?t h" using str_contains_append by metis
  moreover have "x_b64_encode x (str_bytes ?t) \<noteq> []"
    by (rule assms(3)) (simp add: stub_token_json_def Let_def str_bytes_def)
  ultimately show "verify_tsa_attestation x (create_stub_attestation x now h provider) h = TsaVerified"
    using assms(1,2) by (simp add: verify_tsa_attestation_def create_stub_attestation_def validate_stub_token_def b64_ok_def)
  show "verify_tsa_attestation x (create_stub_attestation x now h provider) h' = TsaFailed" if "h' \<noteq> h"
    using that by (simp add: verify_tsa_attestation_def create_stub_attestation_def)
qed

end
