(* ===== verification/Spec2Isabelle.thy ===== *)
theory Spec2Isabelle
  imports BillingPromises AccessPromises EvidencePromises Attestation PublicVerify DemoClient DemoKeys DesktopSafety TimestampJobs
begin

text \<open>
  Evident Ledger: a hash-chained event ledger with server signatures, time stamps, public proofs,
  accounts, payments and backups, and the programs that verify what it hands out (\<open>src/src\<close>,
  a Rust workspace; paths below are relative to \<open>src/\<close> of the crate, and migrations to the
  repository).

  \<^bold>\<open>The program.\<close>  A client submits the hash of a file.  The server appends an event to a chain
  of its account: the event names its parent, gets the next sequence number, and the server signs
  the Merkle root over the chain's events up to it.  Everything else reads these events: the proof
  and verify endpoints, the public registry, attestations, backups, exported proof files and the
  stand-alone verifiers.  Plans and subscriptions, fed by webhooks of the payment provider, decide
  who may submit how much.

  \<^bold>\<open>Theories and sources.\<close>
  Foundations: Prelude (machine integers, byte strings, results), External (the interface \<open>ext\<close> of
  hash, hex, UUID, base58, base64 and Ed25519, with the documented laws \<open>ext_ok\<close>), Json
  (\<open>api/v1/idempotency/canonical.rs\<close> and serde's printer of strings), Database (the tables of
  \<open>migrations/\<close>, one record each, and the statements the services share).
  Ledger core: Merkle (\<open>merkle.rs\<close>, \<open>db.rs\<close>), Verification (\<open>service/verification.rs\<close>), Signing
  (\<open>signing.rs\<close>), ProofMaterial (\<open>api/v1/proof_status.rs\<close>, \<open>proof_material.rs\<close>, the chain
  verifiers), Tsa (\<open>tsa_worker.rs\<close>, \<open>tsa/\<close>, \<open>api/v1/proof_state.rs\<close>), PublicProof
  (\<open>public_proof.rs\<close>), Capabilities (\<open>service/capabilities.rs\<close>, \<open>entitlements.rs\<close>, \<open>tariff.rs\<close>),
  Subscription (\<open>service/subscription_enforcement.rs\<close> and its middleware), Identity
  (\<open>service/identity_*.rs\<close>), Idempotency (\<open>api/v1/idempotency/\<close>), Ledger (\<open>service/ledger.rs\<close>,
  \<open>chains.rs\<close>), SubmitV1 (\<open>POST /v1/events\<close> and the legacy endpoint), ReadApi (event access and the
  read endpoints), Errors (\<open>api/v1/errors.rs\<close>), Attestation (\<open>sac.rs\<close>, \<open>service/attestation.rs\<close>,
  \<open>hash_attestation.rs\<close>, \<open>api/verify.rs\<close>), PublicVerify (\<open>api/public_verify.rs\<close>).
  Access and payments: RateLimiter (\<open>state/rate_limiter.rs\<close> and both middlewares), Credentials
  (\<open>auth/\<close>, \<open>service/desktop_tokens.rs\<close>), Accounts (\<open>service/accounts.rs\<close>, \<open>auth/web_auth.rs\<close>, the
  dashboard's handlers), Paddle (\<open>paddle/\<close>, \<open>api/paddle_webhook.rs\<close>), Billing (\<open>paddle/linking.rs\<close>,
  \<open>paddle/client.rs\<close>, \<open>service/billing.rs\<close>).
  What leaves the server: Backup (\<open>service/backup*.rs\<close>, \<open>api/backup.rs\<close>), ProofFile
  (\<open>proof_format.rs\<close>, \<open>bin/verify.rs\<close>), Evidence (\<open>evidence_record.rs\<close>,
  \<open>event_evidence_verify.rs\<close>), Fixation (\<open>audit.rs\<close>, \<open>product.rs\<close>, \<open>freeze.rs\<close>), TimestampJobs
  (\<open>tsa/attest.rs\<close>, \<open>job_store.rs\<close>, \<open>writer.rs\<close>).
  Programs of the user: Client (\<open>client.rs\<close>), Cli (\<open>bin/evident.rs\<close>), and the desktop program
  \<open>evident-gui-app/src\<close>: DesktopConnect (\<open>desktop_auth.rs\<close>: the callback, percent coding, the key
  chain) and, from its \<open>main.rs\<close>, Desktop (state, projects, local verification), DesktopJobs (commits,
  panels, restores, the threads and their answers) and DesktopFlow (certificates, buttons, the step
  relation).  IdentityDashboard is the key history of \<open>service/identity_dashboard.rs\<close> and its pages.
  Proofs only: Transition (locales of step relations), LedgerInv, SubmitInv, SubmitLive, Service,
  Promises, KeyPromises, BillingSpec, CliPromises, Encoding, DesktopPromises, DesktopTrust, and the
  theories of properties BillingPromises, AccessPromises, EvidencePromises, DesktopSafety and this
  one.  Demo, DemoClient and DemoKeys hold the concrete instances of the witnesses.

  \<^bold>\<open>State and operations.\<close>  The server's state is the record \<open>db\<close>, a list of rows for each table.  An
  operation takes the state, the outside world of the request (clock, fresh identifiers, answers of
  other services) and its arguments, and returns a result, an error or a value, with the new state.
  A database transaction that fails returns the state it started from.  Statements outside a
  transaction are separate steps where the code can be interrupted between them, so that a webhook
  delivery is a state machine and interleaves with other deliveries, customer links, upgrades and lazy
  transitions (\<open>billing_step\<close>).  A transaction is one step where it locks the rows its decisions rest
  on, as a submission does with its chain and an upgrade with its account, or decides nothing by what it
  reads.  The transaction of a linked webhook claims the row of its event but locks neither the account
  nor the processed events its order check reads, so it is two steps: the claim with the read
  (\<open>open_linked\<close>), and the application to the accounts as they are by then with the commit
  (\<open>finish_linked\<close>); what it has written is seen by nobody in between.  The desktop program's state holds the window's fields, the files, the key chain, the
  jobs of its threads and the answers that wait; a step is a button, a job that runs, whichever it
  is, or a frame that takes the answers (\<open>gui_step\<close>).

  \<^bold>\<open>What the lemmas show.\<close>  Merkle and Verification: the root binds the events (C1), the structural
  check is exact (C2).  Service: the chains stay well formed, signed and append-only along every run
  (C3, C4), which makes reads succeed for owners (C5, C6).  Promises: what a submission did and what
  a retry answers, on both endpoints, and that the file can then be verified by the public (C7 to C15,
  C25).  PublicProof, Json, Tsa and Identity: C16, C19, C21 to C24; of the cache of time stamp
  verifications C21 shows what an answer from it rests on, which is the trust material of the time of the
  verification and not of today.  A file committed with the command line program verifies (C20).
  BillingPromises: webhooks apply once, refine an atomic specification and recover (C26, C28 to C30,
  C32, C33); they follow the order of their events as long as deliveries do not overlap (C27), and the
  order of their commits where they do (C31).  AccessPromises: request limits, logins and keys, redirects (C34, C36 to C38).
  DesktopSafety: what a valid verdict of the desktop program says and that its pinned key stays
  (C18), that its jobs and outcomes stay consistent (C17), and the way of a token from the dashboard
  to the server (C35); DesktopTrust also shows what a verdict leaves open.  TimestampJobs: the
  worker over any store that keeps the laws of its locale, and the store on the file system.
  EvidencePromises: backups restore and exported proofs verify (C39, C40).  Client ends with a
  composition: a file that the client submits is appended by the server, and the record and proof
  the client saves pass the evidence check (\<open>submission_verifies\<close>).

  \<^bold>\<open>Bounds.\<close>  Sequence numbers are 64 bit words; the invariant keeps chains below \<open>2 ^ 63\<close> events,
  since the code refuses the number that overflows.  The recursion of the Merkle loop and of every
  other loop is total; the only fuel is the number of pages a reader follows in C22, which the
  theorem bounds by the number of events.  A delivery on its own (\<open>drive\<close>) ends since every step lowers
  \<open>remaining\<close>.

  \<^bold>\<open>Parameters.\<close>  SHA-256, Ed25519, HMAC, Argon2, base58, base64, UUID parsing and version 5, serde's
  texts and parsers of JSON, \<open>std::net\<close> address parsing, Unicode lower-casing, the order of a
  \<open>HashMap\<close> and of a directory, the answers of the time stamping authority, of the payment provider
  and of the network are arguments.  Laws about them are hypotheses, and the witnesses instantiate
  them with concrete functions.  Collisions of the hash are a disjunct of the theorem, never
  assumed away.

  \<^bold>\<open>Not modelled.\<close>  The PDF renderers and the report generator, the page templates, the drawing of the
  desktop program with its texts in two languages and its PDF and ZIP exports, the vendored notary
  crates, the start-up of the server and its router, and SQL of PostgreSQL itself beyond the
  statements used.
  PROJECT.json lists each with its reason.
\<close>

text \<open>C1: two well-formed event lists with the same Merkle root carry the same events (sequence,
  identifiers, parents and file hashes), unless the hash function collides on the inputs of the two
  computations.\<close>

theorem merkle_root_binds_events:
  assumes "sha_ok x" "hex_ok x" "uuid_ok x" "chain_shape es" "chain_shape fs"
    and "length es < 2 ^ 64" "length fs < 2 ^ 64"
    and "recompute_root_from_events x es = recompute_root_from_events x fs"
  shows "map event_core es = map event_core fs \<or> collision x (event_inputs x es @ event_inputs x fs)"
  using structure_binding [OF assms(1-8)] by blast

theorem merkle_root_binds_events_witness:
  "map event_core [demo_event 1] = map event_core [demo_event 2] \<or>
   collision demo_ext (event_inputs demo_ext [demo_event 1] @ event_inputs demo_ext [demo_event 2])"
proof (rule merkle_root_binds_events)
  show "chain_shape [demo_event 1]" "chain_shape [demo_event 2]" by code_simp+
  show "recompute_root_from_events demo_ext [demo_event 1] = recompute_root_from_events demo_ext [demo_event 2]"
    by (simp add: event_leaf_def demo_event_def)
qed (use demo_ext_ok in \<open>simp_all add: ext_ok_def\<close>)

text \<open>C2: the structural check of a nonempty event list returns the recomputed root exactly when every
  link holds, and otherwise the first broken link.\<close>

theorem structure_check_exact:
  assumes "sha_ok x" "hex_ok x"
  shows "check_event_structure x es =
     (if es = [] then Inr ''empty''
      else case find (\<lambda>i. \<not> link_ok es i) [0..<length es] of
        None \<Rightarrow> Inr (recompute_root_from_events x es)
      | Some i \<Rightarrow> Inl (failure_at es i))"
  using event_root_nonempty [OF assms, of es]
  by (simp add: check_event_structure_def check_loop_spec Let_def split: option.split)

theorem structure_check_exact_witness:
  "check_event_structure demo_ext [demo_event 1, demo_event 1] = Inl (Sequence 1)"
proof -
  have "find (\<lambda>i. \<not> link_ok [demo_event 1, demo_event 1] i) [0..<length [demo_event 1, demo_event 1]] = Some 1"
    and "failure_at [demo_event 1, demo_event 1] 1 = Sequence 1" by code_simp+
  then show ?thesis
    using structure_check_exact [of demo_ext "[demo_event 1, demo_event 1]"] demo_ext_ok
    by (simp add: ext_ok_def)
qed

text \<open>C3: every run of the service, from a state where the chains are well formed, each event carries the
  server's signature over its prefix and at most one public proof per file hash is enabled, stays in
  such a state.\<close>

theorem every_run_keeps_the_invariant:
  "service_ok x s d \<Longrightarrow> (service_step x s)\<^sup>*\<^sup>* d d' \<Longrightarrow> service_ok x s d'"
  by (rule service.run_inv)

theorem every_run_keeps_the_invariant_witness:
  "service_ok demo_ext demo_signer
     (snd (v1_events_handler demo_ext demo_signer (demo_env 5) 1 (Some ''key'') (demo_body 3) demo_db))"
  by (rule every_run_keeps_the_invariant [OF demo_service_ok r_into_rtranclp]) (rule submit_v1)

text \<open>C4: the history is append-only.  Along every run the stored events stay, in order and with their
  signatures, and the prefix a stored event's proof is computed from never changes.\<close>

theorem history_is_append_only:
  assumes "service_ok x s d" "(service_step x s)\<^sup>*\<^sup>* d d'"
  shows "prefix (events d) (events d') \<and>
     (\<forall>e\<in>set (events d). load_event_prefix (e_chain_id e) (e_sequence e) d' =
        load_event_prefix (e_chain_id e) (e_sequence e) d)"
  using service.run_below [OF assms(2,1)] extends_prefix_same [OF assms(1) service.run_inv [OF assms(2,1)]]
  by (auto simp: extends_def)

theorem history_is_append_only_witness:
  "prefix (events demo_db) (events demo_after)"
  using history_is_append_only [OF demo_service_ok demo_run] by blast






text \<open>C6: the audit endpoint finds every stored chain valid, and counts its events.\<close>

theorem audit_accepts_stored_chains:
  assumes "ext_ok x" "service_ok x s d" "chain_events c d \<noteq> []"
  shows "json_get (verify_chain x s c d) ''valid'' = Some (JBool True) \<and>
     json_get (verify_chain x s c d) ''errors'' = Some (JArray []) \<and>
     json_get (verify_chain x s c d) ''blocks'' = Some (JNumber (int (length (chain_rows c d)))) \<and>
     vr_valid (verify_chain_hardened x show_time c d)"
proof -
  have inv: "chain_inv c d" using assms(2) by (simp add: service_ok_def ledger_okD)
  then have "structural_errors x (chain_events c d) = []"
    using assms(1) by (simp add: structural_errors_Nil ext_ok_def chain_inv_shape)
  then show ?thesis
    using assms(3) chain_events_rows [OF inv] by (auto simp: verify_chain_def verify_chain_hardened_def Let_def)
qed

theorem audit_accepts_stored_chains_witness:
  "json_get (verify_chain demo_ext demo_signer 3 demo_after) ''valid'' = Some (JBool True)"
proof -
  have "chain_events 3 demo_after \<noteq> []" by (rule demo_after_chain)
  with audit_accepts_stored_chains [OF demo_ext_ok demo_after_ok, of 3 "\<lambda>_. []"] show ?thesis by blast
qed

text \<open>C7: a successful v1 submission under a key without a live record appends exactly one event, at the
  next sequence number of its chain, signed over its prefix and accessible to the account, and the
  response is the one built from that event with status anchored and the trust level of the plan.\<close>

theorem new_submission_appends:
  assumes "ext_ok x" "signer_ok x s" "service_ok x s d"
    and "submit_v1_event x s en acc key body d = (Inr resp, d')" "find_active_in_tx (en_now en) acc key d = None"
  shows "\<exists>e caps. events d' = events d @ [e] \<and> verify_event_access acc (e_event_id e) d' = Inr e \<and>
     e_chain_id e = vq_chain_id body \<and> e_file_hash e = normalized_file_hash (vq_file_hash body) \<and>
     sint (e_sequence e) = int (Suc (length (chain_rows (vq_chain_id body) d))) \<and>
     signed_event x s d' e \<and> get_account_capabilities acc d = Inr caps \<and>
     resp = build_v1_response x (e_event_id e) (vq_chain_id body) (e_sequence e) Anchored
       (trust_level_from_plan (cap_plan_name caps)) (en_request_id en)"
  using assms by (rule new_submission)

theorem new_submission_appends_witness:
  "\<exists>e. events demo_after = events demo_db @ [e] \<and> verify_event_access 1 (e_event_id e) demo_after = Inr e \<and>
     sint (e_sequence e) = 1"
  using new_submission_appends [OF demo_ext_ok demo_signer_ok demo_service_ok demo_submit demo_key_unused]
  by (auto simp: demo_db_def)

text \<open>C8: a successful new submission found both monthly counters below the limits of the plan and a time
  stamp available, and leaves both counters one higher.\<close>

theorem submission_uses_free_quota:
  assumes "submit_v1_event x s en acc key body d = (Inr resp, d')" "find_active_in_tx (en_now en) acc key d = None"
  shows "\<exists>caps. get_account_capabilities acc d = Inr caps \<and> tsa_available caps \<and>
     can_commit caps (used u_server_commits x (en_now en) acc d) \<and>
     can_use_tsa caps (used u_tsa_requests x (en_now en) acc d) \<and>
     used u_server_commits x (en_now en) acc d' = used u_server_commits x (en_now en) acc d + 1 \<and>
     used u_tsa_requests x (en_now en) acc d' = used u_tsa_requests x (en_now en) acc d + 1"
  using assms by (rule submit_v1_event_quota)

theorem submission_uses_free_quota_witness:
  "used u_server_commits demo_ext 9 1 demo_after = 1"
  using submission_uses_free_quota [OF demo_submit demo_key_unused]
  by (auto simp: demo_nothing_used)

text \<open>C9: repeating the request under the same key, at any later state of the service before the record
  expires, returns the stored response and changes nothing.\<close>

theorem retried_request_gets_the_stored_answer:
  assumes "ext_ok x" "service_ok x s d"
    and "submit_v1_event x s en acc key body d = (Inr resp, d')" "find_active_in_tx (en_now en) acc key d = None"
    and "(service_step x s)\<^sup>*\<^sup>* d' d''" "en_now en' < en_clock en + IDEMPOTENCY_TTL_HOURS * 3600 * 1000000"
    and "validate_submit_request body' = Inr ()" "get_account_capabilities acc d'' = Inr caps"
    and "hashed_fields body' = hashed_fields body"
  shows "submit_v1_event x s en' acc key body' d'' = (Inr resp, d'')"
proof -
  have "service_ok x s d'" using service_ok_submit_v1 [OF assms(2), of en acc key body] assms(3) by simp
  then have "extends d' d''" by (rule service.run_below [OF assms(5)])
  moreover have ok: "uuid_ok x" "hex_ok x" using assms(1) by (auto dest: ext_okD)
  ultimately show ?thesis
    using replay_answer [OF ok assms(3,4) _ assms(6,7,8)] assms(9) hashed_bytes_fields [OF ok(1), of body' body] by simp
qed

theorem retried_request_gets_the_stored_answer_witness:
  "submit_v1_event demo_ext demo_signer (demo_env 6) 1 ''key'' (demo_body 3) demo_after = (Inr demo_response, demo_after)"
proof (rule retried_request_gets_the_stored_answer [OF demo_ext_ok demo_service_ok demo_submit demo_key_unused rtranclp.rtrancl_refl])
  show "get_account_capabilities 1 demo_after = Inr (plan_capabilities (hd (seed_plans 11 12 13 14)))"
    by (rule demo_after_capabilities)
qed (simp_all add: demo_body_valid demo_env_def IDEMPOTENCY_TTL_HOURS_def)

text \<open>C10: a request for another chain, file or event type under the key of a stored record is refused as
  a conflict and changes nothing, unless it collides with the recorded one under the hash.\<close>

theorem other_request_under_used_key_conflicts:
  assumes "ext_ok x" "service_ok x s d"
    and "submit_v1_event x s en acc key body d = (Inr resp, d')" "find_active_in_tx (en_now en) acc key d = None"
    and "(service_step x s)\<^sup>*\<^sup>* d' d''" "en_now en' < en_clock en + IDEMPOTENCY_TTL_HOURS * 3600 * 1000000"
    and "validate_submit_request body' = Inr ()" "get_account_capabilities acc d'' = Inr caps"
    and "hashed_fields body' \<noteq> hashed_fields body"
  shows "submit_v1_event x s en' acc key body' d'' = (Inl Conflict, d'') \<or>
    hashed_bytes x body' \<noteq> hashed_bytes x body \<and> x_sha256 x (hashed_bytes x body') = x_sha256 x (hashed_bytes x body)"
proof -
  have "service_ok x s d'" using service_ok_submit_v1 [OF assms(2), of en acc key body] assms(3) by simp
  then have "extends d' d''" by (rule service.run_below [OF assms(5)])
  moreover have ok: "uuid_ok x" "hex_ok x" using assms(1) by (auto dest: ext_okD)
  ultimately show ?thesis
    using replay_answer [OF ok assms(3,4) _ assms(6,7,8)] assms(9) hashed_bytes_fields [OF ok(1), of body' body] by simp
qed

theorem other_request_under_used_key_conflicts_witness:
  "submit_v1_event demo_ext demo_signer (demo_env 6) 1 ''key'' (demo_body 4) demo_after = (Inl Conflict, demo_after) \<or>
    hashed_bytes demo_ext (demo_body 4) \<noteq> hashed_bytes demo_ext (demo_body 3) \<and>
    x_sha256 demo_ext (hashed_bytes demo_ext (demo_body 4)) = x_sha256 demo_ext (hashed_bytes demo_ext (demo_body 3))"
proof (rule other_request_under_used_key_conflicts
    [OF demo_ext_ok demo_service_ok demo_submit demo_key_unused rtranclp.rtrancl_refl])
  show "get_account_capabilities 1 demo_after = Inr (plan_capabilities (hd (seed_plans 11 12 13 14)))"
    by (rule demo_after_capabilities)
qed (simp_all add: demo_body_valid demo_env_def IDEMPOTENCY_TTL_HOURS_def hashed_fields_def)

text \<open>C11: a v1 submission without an identity signature succeeds whenever it should: the chains are well
  formed, the body is valid, the plan has quota left and an available time stamp, the chain is free or
  owned, and the event identifier and the key are unused.\<close>

theorem valid_submission_succeeds:
  assumes "ledger_ok d" "validate_submit_request body = Inr ()" "vq_identity_signature body = None"
    and "get_account_capabilities acc d = Inr caps" "quota_free x (en_now en) acc caps d"
    and "chain_open acc (vq_chain_id body) d"
    and "event_fresh (case vq_event_id body of Some e \<Rightarrow> e | None \<Rightarrow> en_event_id en) (vq_chain_id body) key d"
    and "record_fresh (en_record_id en) acc key d"
  shows "\<exists>resp d'. submit_v1_event x s en acc key body d = (Inr resp, d')"
  using assms by (rule submit_v1_event_succeeds)

theorem valid_submission_succeeds_witness:
  "\<exists>resp d'. submit_v1_event demo_ext demo_signer (demo_env 7) 1 ''other'' (demo_body 4) demo_db = (Inr resp, d')"
proof (rule valid_submission_succeeds)
  show "ledger_ok demo_db" using demo_service_ok by (simp add: service_ok_def)
  show "get_account_capabilities 1 demo_db = Inr (plan_capabilities (hd (seed_plans 11 12 13 14)))"
    by (rule demo_capabilities)
qed (simp_all add: demo_body_valid demo_db_def quota_free_def chain_open_def event_fresh_def record_fresh_def
    current_usage_def seed_plans_def plan_capabilities_def can_commit_def can_use_tsa_def tsa_available_def
    tsa_mode_from_db_def)

text \<open>C12: a refused request changes nothing, on either endpoint.\<close>

theorem refused_requests_change_nothing:
  "(\<forall>e. fst (v1_events_handler x s en acc header body d) = Inl e \<longrightarrow>
      snd (v1_events_handler x s en acc header body d) = d) \<and>
   (fst (fst (legacy_events_handler x s en acc req d)) \<noteq> 200 \<longrightarrow> snd (legacy_events_handler x s en acc req d) = d)"
  using submit_v1_error_unchanged [of x s en acc _ body d] submit_event_error_unchanged [of x s en acc req d]
  by (auto simp: v1_events_handler_def legacy_events_handler_def split: option.split sum.split prod.split)

theorem refused_requests_change_nothing_witness:
  "snd (v1_events_handler demo_ext demo_signer (demo_env 5) 1 None (demo_body 3) demo_db) = demo_db"
proof -
  have "fst (v1_events_handler demo_ext demo_signer (demo_env 5) 1 None (demo_body 3) demo_db) = Inl InvalidRequest"
    by (simp add: v1_events_handler_def)
  then show ?thesis
    using refused_requests_change_nothing [of demo_ext demo_signer "demo_env 5" 1 None "demo_body 3" demo_db "demo_req 3"]
    by simp
qed

text \<open>C13: the chain of another account cannot be written to, and the endpoints that take the account into account
  do not show its events: submissions to it are refused without an effect on both endpoints, and the proof and
  verify requests for its events look as if they did not exist.  What stays open to everybody, by the
  chain's identifier and without an account, is the older proof endpoint, which lists its events.\<close>

theorem foreign_chains_are_closed:
  assumes "find (\<lambda>r. ch_chain_id r = c) (chains d) = Some r" "ch_account_id r = Some owner" "owner \<noteq> acc"
  shows "(vq_chain_id body = c \<longrightarrow> find_active_in_tx (en_now en) acc key d = None \<longrightarrow>
       fst (submit_v1_event x s en acc key body d) \<in> {Inl InvalidRequest, Inl Internal, Inl NotFound} \<and>
       snd (submit_v1_event x s en acc key body d) = d) \<and>
     (sr_chain_id req = c \<longrightarrow> reject_identity_fields_on_legacy req = Inr () \<longrightarrow>
       legacy_events_handler x s en acc req d = ((404, JObject [(''error'', JString ''not_found'')]), d)) \<and>
     (\<forall>e. find (\<lambda>e. e_event_id e = eid) (events d) = Some e \<longrightarrow> e_chain_id e = c \<longrightarrow>
       verify_handler x te now s acc eid q d = (Inl NotFound, d) \<and>
       proof_handler x te now s rid acc eid d = (Inl NotFound, d)) \<and>
     json_get (legacy_proof_handler x s c d) ''events'' = Some (JArray (map (event_json x) (chain_events c d)))"
proof -
  have "json_get (legacy_proof_handler x s c d) ''events'' = Some (JArray (map (event_json x) (chain_events c d)))"
    by (simp add: legacy_proof_handler_def export_proof_def Let_def)
  then show ?thesis
    using foreign_submit_v1 [of body d r owner acc en key x s] foreign_legacy [of req d r owner acc x s en]
      foreign_event [of eid d _ r owner acc x te now s q] foreign_proof [of eid d _ r owner acc x te now s rid] assms by auto
qed

theorem foreign_chains_are_closed_witness:
  "legacy_events_handler demo_ext demo_signer (demo_env 6) 2 (demo_req 3) demo_after =
     ((404, JObject [(''error'', JString ''not_found'')]), demo_after) \<and>
   verify_handler demo_ext demo_tsa 9 demo_signer 2 5 None demo_after = (Inl NotFound, demo_after) \<and>
   proof_handler demo_ext demo_tsa 9 demo_signer 1 2 5 demo_after = (Inl NotFound, demo_after)"
proof -
  obtain r where r: "find (\<lambda>r. ch_chain_id r = 3) (chains demo_after) = Some r" "ch_account_id r = Some 1"
    by (rule demo_after_owner)
  obtain e where e: "events demo_after = [e]" "verify_event_access 1 5 demo_after = Inr e" "e_chain_id e = 3"
    "e_event_id e = 5" "e_file_hash e = normalized_file_hash (vq_file_hash (demo_body 3))" "tsa_tokens demo_after = []"
    by (rule demo_after_tables)
  have "sr_chain_id (demo_req 3) = 3" "reject_identity_fields_on_legacy (demo_req 3) = Inr ()"
    by (simp_all add: demo_req_def reject_identity_fields_on_legacy_def)
  then show ?thesis
    using foreign_chains_are_closed [OF r, where acc = 2 and body = "demo_body 3" and en = "demo_env 6" and key = "''k''"
        and x = demo_ext and s = demo_signer and req = "demo_req 3" and eid = 5 and te = demo_tsa and now = 9 and q = None
        and rid = 1] e
    by simp
qed

text \<open>C14: on the plans of the migrations no submission with an identity signature can succeed: the only
  plan with the feature promises a qualified time stamp, which is not available.\<close>

theorem identity_signed_submissions_are_refused:
  assumes "tariff_plans d = seed_plans f l v i" "vq_identity_signature body \<noteq> None"
    and "find_active_in_tx (en_now en) acc key d = None"
  shows "\<exists>e. submit_v1_event x s en acc key body d = (Inl e, d)"
  using assms by (rule identity_submission_refused)

theorem identity_signed_submissions_are_refused_witness:
  "\<exists>e. submit_v1_event demo_ext demo_signer (demo_env 5) 2 ''key''
     ((demo_body 3)\<lparr> vq_event_id := Some 8, vq_identity_signature := Some \<lparr> vs_key_id = 7, vs_signature = ''aa'' \<rparr> \<rparr>) demo_db
     = (Inl e, demo_db)"
  by (rule identity_signed_submissions_are_refused [of _ 11 12 13 14]) (simp_all add: demo_db_def find_active_in_tx_def)

text \<open>C15: a submitted file can be verified by the public.  After a new v1 submission, with random identifiers that are
  not in use, the public verify endpoint answers for the submitted hash, in whatever case it was written, that it
  exists: under the public proof that was enabled before the submission, or else under one registered by it.\<close>

theorem submitted_file_is_public:
  assumes "ext_ok x" "signer_ok x s" "service_ok x s d"
    and "submit_v1_event x s en acc key body d = (Inr resp, d')" "find_active_in_tx (en_now en) acc key d = None"
    and "(case vq_event_id body of Some i \<Rightarrow> i | None \<Rightarrow> en_event_id en) \<notin>
        m_internal_proof_id ` set (public_proof_materialization d)"
    and "generate_public_id x (en_public_bytes en) \<notin> r_public_proof_id ` set (public_proof_registry d)"
  shows "\<exists>r. fst (verify_by_hash x utc rid (Some (vq_file_hash body)) m d') = (200, public_verify_json (response_from_entry x (Some r))) \<and>
     r_enabled r \<and> r_file_hash r = normalized_file_hash (vq_file_hash body) \<and>
     (lookup_public_registry_entry (normalized_file_hash (vq_file_hash body)) d = Some r \<or>
      lookup_public_registry_entry (normalized_file_hash (vq_file_hash body)) d = None \<and>
        r_public_proof_id r = generate_public_id x (en_public_bytes en) \<and> r_registered_at r = en_now en)"
proof -
  let ?h = "normalized_file_hash (vq_file_hash body)"
  have valid: "is_valid_file_hash (vq_file_hash body)"
    by (rule submit_v1_new_cases [OF assms(4,5)]) (simp add: validate_submit_request_def split: if_splits)
  then have asked: "validate_public_file_hash (Some (vq_file_hash body)) = Inr ?h"
    by (simp add: validate_public_file_hash_def normalize_query_exact ok_or_def)
  then have hex: "normalize_stored_file_hash ?h = ?h"
    by (auto simp: res_iff normalize_stored_file_hash_def trim_hex to_ascii_lowercase_id)
  obtain r where r: "active_public_proof ?h d' = Some r"
    "active_public_proof ?h d = Some r \<or> active_public_proof ?h d = None \<and>
        r_public_proof_id r = generate_public_id x (en_public_bytes en) \<and> r_registered_at r = en_now en"
    using new_submission_public [OF assms hex] by (cases "active_public_proof ?h d") auto
  then have "r_enabled r" "r_file_hash r = ?h" by (auto simp: active_public_proof_def dest: find_SomeD)
  with r show ?thesis by (intro exI [of _ r]) (simp add: verify_answer_of_registry [OF asked] public_lookup)
qed

theorem submitted_file_is_public_witness:
  "\<exists>r. fst (verify_by_hash demo_ext 9 1 (Some (replicate 64 (CHR ''A''))) None demo_after) =
     (200, public_verify_json (response_from_entry demo_ext (Some r))) \<and> r_registered_at r = 9"
proof -
  have empty: "public_proof_materialization demo_db = []" "public_proof_registry demo_db = []" by (simp_all add: demo_db_def)
  have "vq_file_hash (demo_body 3) = replicate 64 (CHR ''A'')" by (simp add: demo_body_def)
  then show ?thesis
    using submitted_file_is_public [OF demo_ext_ok demo_signer_ok demo_service_ok demo_submit demo_key_unused, of 9 1 None]
    by (auto simp: empty lookup_public_registry_entry_def)
qed

text \<open>C16: disabling the public proof of a file is sticky: none is enabled afterwards, its registry row is
  off, and no proof materialised under it is a candidate for publication again.\<close>

theorem disabled_public_proof_stays_disabled:
  assumes "registry_ok d" "active_public_proof (normalize_stored_file_hash f) d = Some r"
  shows "active_public_proof (normalize_stored_file_hash f) (disable_canonical_public_proof f d) = None \<and>
     (\<forall>q\<in>set (public_proof_registry (disable_canonical_public_proof f d)).
        r_public_proof_id q = r_public_proof_id r \<longrightarrow> \<not> r_enabled q) \<and>
     (\<forall>m. canonical_candidate h (disable_canonical_public_proof f d) = Some m \<longrightarrow>
        m_public_proof_id m \<noteq> Some (r_public_proof_id r))"
  using disable_effect [OF assms] by (auto dest: canonical_candidateD)

theorem disabled_public_proof_stays_disabled_witness:
  "active_public_proof ''ab'' (disable_canonical_public_proof ''AB'' demo_published) = None"
proof -
  have n: "normalize_stored_file_hash ''AB'' = ''ab''" by code_simp
  have ok: "registry_ok demo_published"
    by (simp add: registry_ok_def unique_active_def materials_ok_def demo_published_def demo_registry_row_def demo_db_def)
  have "active_public_proof (normalize_stored_file_hash ''AB'') demo_published = Some demo_registry_row"
    by (simp add: n active_public_proof_def demo_published_def demo_registry_row_def)
  from disabled_public_proof_stays_disabled [OF ok this, THEN conjunct1] show ?thesis by (simp only: n)
qed

text \<open>The server's signature over a root verifies under its key, and a proof is classified valid
  exactly when its key is the pinned one (up to case and surrounding space) and the signature verifies
  under the pinned key.\<close>

theorem only_the_pinned_key_is_trusted:
  assumes "ext_ok x" "signer_ok x s"
  shows "verify_root x c r h (sign_root x s c r h) (public_key_hex x s) \<and>
     classify_signature x (public_key_hex x s) (public_key_hex x s) c r h (sign_root x s c r h) = SigValid \<and>
     (classify_signature x pk pin c r h sig = SigValid \<longleftrightarrow>
        normalize_public_key_hex pk = normalize_public_key_hex pin \<and>
        verify_root x c r h sig (normalize_public_key_hex pin))"
  using verify_sign [of x s c r h] assms by (simp add: classify_valid_iff ext_ok_def)

theorem only_the_pinned_key_is_trusted_witness:
  "classify_signature demo_ext (public_key_hex demo_ext demo_signer) (public_key_hex demo_ext demo_signer) ''c'' ''r'' ''h''
     (sign_root demo_ext demo_signer ''c'' ''r'' ''h'') = SigValid"
  using only_the_pinned_key_is_trusted [OF demo_ext_ok demo_signer_ok, of "''c''" "''r''" "''h''"] by blast

text \<open>The signed message names its chain, its root and its event: two equal messages are about the
  same three.\<close>

theorem signed_message_names_chain_root_and_event:
  assumes "uuid_ok x" "list_all is_lower_hex r" "list_all is_lower_hex r'"
    and "root_message (x_uuid_str x c) r (x_uuid_str x h) = root_message (x_uuid_str x c') r' (x_uuid_str x h')"
  shows "c = c' \<and> r = r' \<and> h = h'"
  using assms by (rule signed_message_parts)

theorem signed_message_names_chain_root_and_event_witness: "(3 :: uuid) = 3 \<and> ''ab'' = ''ab'' \<and> (5 :: uuid) = 5"
proof (rule signed_message_names_chain_root_and_event)
  show "uuid_ok demo_ext" by (rule demo_uuid_ok)
  show "list_all is_lower_hex ''ab''" by code_simp
  show "list_all is_lower_hex ''ab''" by code_simp
qed (rule HOL.refl)

text \<open>C19: the hash of a JSON value does not depend on the order in which its objects list their keys.\<close>

theorem json_hash_ignores_key_order:
  assumes "json_same u v"
  shows "canonical_json_sha256 x u = canonical_json_sha256 x v"
  using canonicalize_same [OF assms] by (simp add: canonical_json_sha256_def)

theorem json_hash_ignores_key_order_witness:
  "canonical_json_sha256 demo_ext (JObject [(''a'', JNull), (''b'', JNumber 1)]) =
   canonical_json_sha256 demo_ext (JObject [(''b'', JNumber 1), (''a'', JNull)])"
proof (rule json_hash_ignores_key_order, rule json_same.object)
  show "list_all2 (\<lambda>p q. fst p = fst q \<and> json_same (snd p) (snd q))
      [(''a'', JNull), (''b'', JNumber 1)] [(''a'', JNull), (''b'', JNumber 1)]"
    by (simp add: json_same.refl)
qed (simp_all add: add_mset_commute)

text \<open>C20: from the file to the verified record, through every part of the system.  A user commits a file with the
  command line program; the legacy endpoint of a service whose chains are well formed accepts the submission.  Then
  the command ends with 0 and prints the event, and verifying the evidence of that event ends with 0, prints
  the report and finds the record registered, or certified where there is a time stamp.\<close>

theorem committed_file_verifies:
  assumes ok: "ext_ok x" "signer_ok x s" "service_ok x s d"
    and server: "submit_event x s en acc req d = (Inr value, d')" "tokens_readable d'"
      "find (\<lambda>e. e_chain_id e = sr_chain_id req \<and> e_idempotency_key e = sr_idempotency_key req) (events d) = None"
    and sent: "sr_file_hash req = sha_hex x bytes"
    and net: "client_head_event_id x (ce_network v) (cli_new_client v (cw_fs w)) (sr_chain_id req) = Inr parent"
      "nw_parse (ce_network v) body = Some value"
      "nw_send (ce_network v) (authed (cli_new_client v (cw_fs w)) (http_post (cl_base_url (cli_new_client v (cw_fs w)) @ ''/events'')
         (submission_body x (sr_chain_id req) parent (sha_hex x bytes) (se_key (ce_submit v))))) = HttpReply 200 body"
    and codec: "\<And>r. ec_dec (se_codec (ce_submit v)) (ec_enc (se_codec (ce_submit v)) r) = Some r"
      "\<And>f. ec_proof (se_codec (ce_submit v)) (se_pretty (ce_submit v) f) = Some f"
    and local: "all_writable (cw_fs w)" "ce_log_ok v" "fs_read (cw_fs w) path = Some bytes" "\<not> is_help_flag path"
      "x_uuid_parse x chain = Some (sr_chain_id req)"
  shows "\<exists>event w1 w2 p. evident x v [''commit'', path, ''--chain'', chain] w = (0, w1) \<and>
     Line (''anchored    event='' @ event) \<in> set (cw_out w1) \<and>
     evident x v [''verify'', ''--event'', event, ''--chain'', chain] w1 = (0, w2) \<and>
     cw_out w2 = cw_out w1 @ [Raw (format_report p)] \<and> ee_lifecycle p \<in> {LcRegistered, LcCertified}"
  by (rule commit_then_verify [OF assms]) blast

theorem committed_file_verifies_witness:
  "\<exists>event w1 w2 p. evident demo_ext demo_cli [''commit'', ''f'', ''--chain'', x_uuid_str demo_ext 3] demo_machine = (0, w1) \<and>
     Line (''anchored    event='' @ event) \<in> set (cw_out w1) \<and>
     evident demo_ext demo_cli [''verify'', ''--event'', event, ''--chain'', x_uuid_str demo_ext 3] w1 = (0, w2) \<and>
     cw_out w2 = cw_out w1 @ [Raw (format_report p)] \<and> ee_lifecycle p \<in> {LcRegistered, LcCertified}"
proof -
  obtain parent where parent: "client_head_event_id demo_ext (ce_network demo_cli) (cli_new_client demo_cli (cw_fs demo_machine))
      (sr_chain_id demo_commit_req) = Inr parent"
    using demo_head by (metis demo_cli_simps(1))
  show ?thesis
    by (rule committed_file_verifies [OF demo_ext_ok demo_signer_ok demo_service_ok demo_commit demo_commit_tokens _ _ parent,
          where bytes = "[1]" and body = "''''"])
      (use demo_ext_ok in \<open>simp_all add: demo_commit_req_def demo_req_def demo_db_def demo_codec_ok is_help_flag_def ext_ok_def\<close>)
qed

text \<open>The verify endpoint accepts exactly the file hashes the submission endpoint accepts, and normalises them in the
  same way, so the submitted hash in any case and padding matches the stored one.\<close>

lemma verify_accepts_what_submit_accepts:
  "normalize_query_file_hash (Some raw) =
     (if is_valid_file_hash raw then Inr (Some (normalized_file_hash raw)) else Inl ()) \<and>
   fv_is_valid_file_hash (verify_file_hash (Some (normalized_file_hash raw)) (normalized_file_hash raw')) =
     Some (normalized_file_hash raw = normalized_file_hash raw')"
  by (simp add: normalize_query_exact verify_file_hash_def)

text \<open>C21: what a cached verification of a time stamp rests on.  Along every run of stamping, of reads that load a row
  and answer later, under trust material that may differ from read to read, and of changes of the stored bytes,
  a read answers what verifying the loaded token afresh gives, except where it answers that the token is
  verified by the cache; and then the run holds a fresh verification that succeeded, at the time the row
  tells and under the trust material of that time, of a token with the same root and the same hash.  Nothing
  is said about the trust material of today.\<close>

theorem cached_verification_was_fresh_once:
  assumes "(tsa_step x)\<^sup>*\<^sup>* (d0, [], []) (d, ls, h)" "\<forall>t\<in>set (tsa_tokens d0). t_verification_status t = None"
    and "t \<in> set ls"
    and "resolve_and_cache_tsa_verification x te now (t_chain_id t) (t_merkle_root t) (t_tsa_token t) (row_cache t) d = (v, d')"
  shows "if vo_status v = VerifiedCached
     then d' = d \<and> (\<exists>te' at token. t_verified_at t = Some at \<and> (te', at, token, t_merkle_root t) \<in> set h \<and>
        vo_status (verify_token_fresh x te' token (t_merkle_root t)) = Verified \<and>
        token_sha256_hex x token = token_sha256_hex x (t_tsa_token t))
     else v = verify_token_fresh x te (t_tsa_token t) (t_merkle_root t)"
  by (rule read_is_backed [OF assms])

text \<open>A stamped chain is read in development mode, loaded again, and read in production, where a stub does not
  verify: the cache answers.\<close>

theorem cached_verification_was_fresh_once_witness:
  "vo_status (verify_token_fresh demo_ext demo_tsa demo_token ''ab'') = VFailed \<and>
   (\<exists>d t. t \<in> set (tsa_tokens d) \<and> t_tsa_token t = demo_token \<and> t_verified_at t = Some 9 \<and>
     vo_status (fst (resolve_and_cache_tsa_verification demo_ext demo_tsa 10 3 ''ab'' demo_token (row_cache t) d)) = VerifiedCached \<and>
     (\<exists>te token. vo_status (verify_token_fresh demo_ext te token ''ab'') = Verified \<and>
        token_sha256_hex demo_ext token = token_sha256_hex demo_ext demo_token))"
proof -
  define sha where "sha = token_sha256_hex demo_ext demo_token"
  define t where "t = demo_token_row\<lparr> t_verification_status := Some ''verified'', t_verified_at := Some 9, t_token_sha256 := Some sha \<rparr>"
  define d where "d = demo_stamped\<lparr> tsa_tokens := [t] \<rparr>"
  have row: "t_chain_id demo_token_row = 3" "t_merkle_root demo_token_row = ''ab''" "t_tsa_token demo_token_row = demo_token"
    "row_cache demo_token_row = \<lparr> ct_verification_status = None, ct_token_sha256 = None \<rparr>"
    by (simp_all add: demo_token_row_def row_cache_def)
  have same: "t_chain_id t = 3" "t_merkle_root t = ''ab''" "t_tsa_token t = demo_token" "t_verified_at t = Some 9"
    "row_cache t = \<lparr> ct_verification_status = Some ''verified'', ct_token_sha256 = Some sha \<rparr>"
    by (simp_all add: t_def row row_cache_def)
  have first: "resolve_and_cache_tsa_verification demo_ext demo_dev_tsa 9 (t_chain_id demo_token_row) (t_merkle_root demo_token_row)
      (t_tsa_token demo_token_row) (row_cache demo_token_row) demo_stamped = (verify_token_fresh demo_ext demo_dev_tsa demo_token ''ab'', d)"
    by (simp add: resolve_and_cache_tsa_verification_def row cached_status_if_fresh_def Let_def demo_token_verifies
        persist_verification_cache_def d_def t_def sha_def demo_stamped_def update_where_def)
      (simp add: demo_token_row_def)
  let ?h = "[(demo_dev_tsa, 9, demo_token, ''ab'')]"
  have loaded: "tsa_step demo_ext (demo_stamped, [], []) (demo_stamped, [demo_token_row], [])"
    by (rule tsa_step.load) (simp add: demo_stamped_def)
  have answered: "tsa_step demo_ext (demo_stamped, [demo_token_row], []) (d, [demo_token_row], ?h)"
    using tsa_step.answer [OF _ first, of "[demo_token_row]" "[]"] by (simp add: demo_token_verifies row)
  have again: "tsa_step demo_ext (d, [demo_token_row], ?h) (d, [t, demo_token_row], ?h)"
    by (rule tsa_step.load) (simp add: d_def)
  have run: "(tsa_step demo_ext)\<^sup>*\<^sup>* (demo_stamped, [], []) (d, [t, demo_token_row], ?h)"
    by (rule converse_rtranclp_into_rtranclp [where r = "tsa_step demo_ext", OF loaded],
        rule converse_rtranclp_into_rtranclp [where r = "tsa_step demo_ext", OF answered],
        rule r_into_rtranclp [where r = "tsa_step demo_ext", OF again])
  have start: "\<forall>t\<in>set (tsa_tokens demo_stamped). t_verification_status t = None"
    by (simp add: demo_stamped_def demo_token_row_def)
  have cached: "resolve_and_cache_tsa_verification demo_ext demo_tsa 10 (t_chain_id t) (t_merkle_root t) (t_tsa_token t) (row_cache t) d =
      (\<lparr> vo_status = VerifiedCached, vo_reason = None \<rparr>, d)"
    by (simp add: resolve_and_cache_tsa_verification_def same cached_status_if_fresh_def sha_def)
  have "t \<in> set [t, demo_token_row]" by simp
  from cached_verification_was_fresh_once [OF run start this cached]
  have "\<exists>te token. vo_status (verify_token_fresh demo_ext te token ''ab'') = Verified \<and>
      token_sha256_hex demo_ext token = token_sha256_hex demo_ext demo_token"
    by (auto simp: same)
  moreover have "vo_status (verify_token_fresh demo_ext demo_tsa demo_token ''ab'') = VFailed" by code_simp
  moreover have "t \<in> set (tsa_tokens d) \<and> t_tsa_token t = demo_token \<and> t_verified_at t = Some 9 \<and>
     vo_status (fst (resolve_and_cache_tsa_verification demo_ext demo_tsa 10 3 ''ab'' demo_token (row_cache t) d)) = VerifiedCached"
    using cached by (simp add: same) (simp add: d_def)
  ultimately show ?thesis by blast
qed

text \<open>C22: following the cursors of the event history of an identity key lists every event the key signed
  exactly once, the latest first, with whatever page size; a reader who is not the key's owner finds no
  key.\<close>

theorem event_history_pages_are_complete:
  assumes "ext_ok x" "uuid_ascii x" "ledger_ok d" "0 < limit"
    and "find (\<lambda>k. k_id k = key \<and> k_account_id k = acc) (identity_keys d) = Some k"
    and "distinct (map k_id (identity_keys d))"
    and "length (filter (\<lambda>e. e_identity_key_id e = Some key) (events d)) < n"
  shows "\<exists>rows. pages x acc key limit d n None = Some rows \<and>
     mset (map ke_event_id rows) = mset (map e_event_id (filter (\<lambda>e. e_identity_key_id e = Some key) (events d))) \<and>
     sorted_wrt (\<lambda>r r'. (sint (ke_sequence r'), unat (ke_event_id r')) < (sint (ke_sequence r), unat (ke_event_id r))) rows \<and>
     (\<forall>other c. other \<noteq> acc \<longrightarrow> list_key_events_handler x other key (Some limit) c d = Inl NotFound)"
  by (rule pages_promise [OF assms])

theorem event_history_pages_are_complete_witness:
  "\<exists>rows. pages demo_ext 2 99 1 demo_signed_events 4 None = Some rows \<and> mset (map ke_event_id rows) = {#5, 6, 7#} \<and>
     list_key_events_handler demo_ext 1 99 (Some 1) None demo_signed_events = Inl NotFound"
proof -
  have "ledger_ok demo_signed_events" "find (\<lambda>k. k_id k = 99 \<and> k_account_id k = 2) (identity_keys demo_signed_events) = Some demo_key"
    "distinct (map k_id (identity_keys demo_signed_events))"
    "filter (\<lambda>e. e_identity_key_id e = Some 99) (events demo_signed_events) = events demo_signed_events"
    by (rule demo_signed_events_ok)+
  note d = this
  have ids: "map e_event_id (events demo_signed_events) = [5, 6, 7]" "length (events demo_signed_events) = 3"
    by (simp_all add: demo_signed_events_def demo_signed_row_def demo_row_def)
  obtain rows where r: "pages demo_ext 2 99 1 demo_signed_events 4 None = Some rows"
    "mset (map ke_event_id rows) = mset (map e_event_id (events demo_signed_events))"
    "\<forall>other c. other \<noteq> 2 \<longrightarrow> list_key_events_handler demo_ext other 99 (Some 1) c demo_signed_events = Inl NotFound"
    using event_history_pages_are_complete [OF demo_ext_ok demo_uuid_ascii d(1) _ d(2,3), of 1 4] ids(2) by (auto simp: d(4))
  then show ?thesis by (intro exI [of _ rows]) (simp add: ids(1))
qed

text \<open>C23: registering an identity key proves possession of it: the challenge was issued to the account,
  unused and in time, the key verifies the signature over it and was not known, and afterwards no
  request can use the challenge again.\<close>

theorem registration_proves_possession:
  assumes "register_handler x now clock fresh acc body d = (Inr key, d')"
  shows "(\<exists>c raw. find_challenge (rk_challenge_id body) acc d = Some c \<and> \<not> challenge_is_used c \<and>
       \<not> challenge_is_expired clock c \<and> x_hex_decode x (c_challenge c) = Some raw \<and>
       verify_ed25519_signature x (rk_public_key body) raw (rk_signature body)) \<and>
     find_by_fingerprint (k_fingerprint key) d = None \<and> identity_keys d' = identity_keys d @ [key] \<and>
     k_account_id key = acc \<and> k_public_key key = rk_public_key body \<and>
     (\<forall>now' clock' fresh' body'. rk_challenge_id body' = rk_challenge_id body \<longrightarrow>
        (\<exists>e. register_handler x now' clock' fresh' acc body' d' = (Inl e, d')))"
  using register_effect [OF assms] register_used_challenge [of _ acc d' _ x] by metis

theorem registration_proves_possession_witness:
  "\<exists>d' e. register_handler demo_ext 11 11 98 2 demo_register d' = (Inl e, d') \<and> length (identity_keys d') = 1"
proof -
  obtain k d' where reg: "register_handler demo_ext 10 10 99 2 demo_register demo_challenged = (Inr k, d')"
    using demo_register_succeeds by blast
  note all = registration_proves_possession [OF reg]
  have "identity_keys demo_challenged = []" by (simp add: demo_challenged_def demo_db_def)
  with all have "length (identity_keys d') = 1" by simp
  moreover have "\<exists>e. register_handler demo_ext 11 11 98 2 demo_register d' = (Inl e, d')" using all by blast
  ultimately show ?thesis by blast
qed

text \<open>C24: a revoked identity key signs no further event, for any account, while the events it signed
  before verify as they did.\<close>

theorem revocation_stops_signing_only:
  assumes "revoke_identity_key now acc kid d = (Inr r, d')"
  shows "validate_and_prepare x acc' kid sig h d' \<in> {Inl KeyRevoked, Inl KeyNotFound} \<and>
     verify_identity x e leaf d' = verify_identity x e leaf d"
  using revoked_key_refused [OF assms] revocation_keeps_verification [OF assms] by blast

theorem revocation_stops_signing_only_witness:
  "\<exists>d'. validate_and_prepare demo_ext 2 99 ''00'' ''ab'' d' \<in> {Inl KeyRevoked, Inl KeyNotFound}"
proof -
  obtain r d' where rev: "revoke_identity_key 5 2 99 demo_keyed = (Inr r, d')" using demo_revoke_succeeds by blast
  from revocation_stops_signing_only [OF rev] show ?thesis by blast
qed

text \<open>C25: a key that is used stays used on the legacy endpoint.  From any state on, whatever the service does since, the
  owner of a chain who submits under a key that an event of the chain has, is answered with that event
  and nothing changes, whatever the file hash and the other fields of the request are, on either
  endpoint's events and with no limit in time; there is no comparison with the first request as there is on v1
  (C10).\<close>

theorem used_key_names_its_event_on_legacy:
  assumes "service_ok x s d" "(service_step x s)\<^sup>*\<^sup>* d d'"
    and "find (\<lambda>e. e_chain_id e = sr_chain_id req \<and> e_idempotency_key e = sr_idempotency_key req) (events d) = Some e"
    and "reject_identity_fields_on_legacy req = Inr ()"
    and "find (\<lambda>r. ch_chain_id r = sr_chain_id req) (chains d') = Some r" "ch_account_id r = Some acc"
  shows "legacy_events_handler x s en acc req d' = ((200, cached_response x (sr_chain_id req) e (ch_head_event_id r)), d')"
proof -
  have "prefix (events d) (events d')" using service.run_below [OF assms(2,1)] by (simp add: extends_def)
  from legacy_replay [OF assms(3) this assms(4-6)] show ?thesis .
qed

theorem used_key_names_its_event_on_legacy_witness:
  "\<exists>e head. events demo_after = [e] \<and>
     legacy_events_handler demo_ext demo_signer (demo_env 6) 1
       ((demo_req 3)\<lparr> sr_idempotency_key := e_idempotency_key e, sr_file_hash := ''other'' \<rparr>) demo_after =
     ((200, cached_response demo_ext 3 e head), demo_after)"
proof -
  obtain e where e: "events demo_after = [e]" "verify_event_access 1 5 demo_after = Inr e" "e_chain_id e = 3"
    "e_event_id e = 5" "e_file_hash e = normalized_file_hash (vq_file_hash (demo_body 3))" "tsa_tokens demo_after = []"
    by (rule demo_after_tables)
  obtain r where r: "find (\<lambda>r. ch_chain_id r = 3) (chains demo_after) = Some r" "ch_account_id r = Some 1"
    by (rule demo_after_owner)
  let ?req = "(demo_req 3)\<lparr> sr_idempotency_key := e_idempotency_key e, sr_file_hash := ''other'' \<rparr>"
  have req: "sr_chain_id ?req = 3" "reject_identity_fields_on_legacy ?req = Inr ()"
    by (simp_all add: demo_req_def reject_identity_fields_on_legacy_def)
  have "find (\<lambda>e. e_chain_id e = sr_chain_id ?req \<and> e_idempotency_key e = sr_idempotency_key ?req) (events demo_after) = Some e"
    by (simp add: e req(1))
  from used_key_names_its_event_on_legacy [OF demo_after_ok rtranclp.rtrancl_refl this req(2), unfolded req(1), OF r]
  have "legacy_events_handler demo_ext demo_signer (demo_env 6) 1 ?req demo_after =
      ((200, cached_response demo_ext 3 e (ch_head_event_id r)), demo_after)" .
  with e(1) show ?thesis by blast
qed

end
